(* ===== verification/Prelude.thy ===== *)
theory Prelude
  imports Complex_Main "HOL-Library.Word"
begin

text \<open>
  The vocabulary every component shares: the machine integer types of the Rust sources, their
  saturating and checked arithmetic, the list operations that stand for fixed arrays and slices,
  and the result type for fallible operations.

  A Rust \<open>u8\<close>/\<open>u16\<close>/\<open>u32\<close>/\<open>u64\<close> is a word of that width; \<open>usize\<close> is \<^typ>\<open>nat\<close>.  A fixed
  array \<open>[T; N]\<close> and a slice \<open>&[T]\<close> are lists; a fixed array's length is part of the
  well-formedness predicates of the components, since a list does not carry it in its type.
  \<open>Result<T, E>\<close> is \<^typ>\<open>'e + 'a\<close> with \<^term>\<open>Inl\<close> for \<open>Err\<close> and \<^term>\<open>Inr\<close> for \<open>Ok\<close>.
\<close>

unbundle bit_operations_syntax

type_synonym u8 = "8 word"
type_synonym u16 = "16 word"
type_synonym u32 = "32 word"
type_synonym u64 = "64 word"

named_theorems fmath_simps "what the float helpers do on comparisons"
named_theorems sat_simps "saturating counters read as naturals"
named_theorems fsm_defs "the definitions a proof about one tick of the state machine unfolds"

subsection \<open>Widths\<close>

lemma take_bit_word_iff: "take_bit n w = w \<longleftrightarrow> unat (w :: 'a::len word) < 2 ^ n"
  unfolding word_unat_eq_iff unsigned_take_bit_eq by (rule take_bit_nat_eq_self_iff)

text \<open>\<open>x as u64\<close> for a narrower \<open>x\<close> keeps its value.\<close>

lemma unat_ucast_widen:
  "LENGTH('a) \<le> LENGTH('b) \<Longrightarrow> unat (ucast (x :: 'a::len word) :: 'b::len word) = unat x"
  unfolding unsigned_ucast_eq take_bit_nat_eq_self_iff
  by (rule less_le_trans [OF unsigned_less]) (simp add: power_increasing)

subsection \<open>Saturating and checked arithmetic\<close>

text \<open>\<open>x.saturating_add(1)\<close> on an unsigned integer.\<close>

definition sat_inc :: "'a::len word \<Rightarrow> 'a word" where
  "sat_inc x = (if x = - 1 then x else x + 1)"

lemma unat_bound: "unat (x :: 'a::len word) < 2 ^ LENGTH('a)"
  by (rule unsigned_less)

lemma unat_bound_le: "unat (x :: 'a::len word) \<le> 2 ^ LENGTH('a) - Suc 0"
  using unat_bound [of x] by linarith

lemma unat_minus_one_word_max: "unat (- 1 :: 'a::len word) = 2 ^ LENGTH('a) - 1"
  by (simp add: unsigned_minus_1_eq_mask mask_eq_exp_minus_1)

lemma unat_sat_inc [sat_simps]:
  fixes x :: "'a::len word"
  shows "unat (sat_inc x) = min (Suc (unat x)) (2 ^ LENGTH('a) - 1)"
proof (cases "x = - 1")
  case True
  then show ?thesis
    by (simp add: sat_inc_def unat_minus_one_word_max)
next
  case False
  then have "x + 1 \<noteq> 0"
    by (metis add.inverse_unique add.commute)
  then have "unat (x + 1) = Suc (unat x)"
    by (metis add.commute unatSuc)
  moreover have "unat (x + 1) \<le> 2 ^ LENGTH('a) - 1"
    using unat_bound [of "x + 1"] by linarith
  ultimately show ?thesis
    using False by (simp add: sat_inc_def)
qed

lemma sat_inc_ge: "x \<le> sat_inc (x :: 'a::len word)"
  unfolding word_le_nat_alt unat_sat_inc
  using unat_bound_le [of x] by simp

lemma sat_inc_pos: "0 < sat_inc (x :: 'a::len word)"
proof (cases "x = - 1")
  case True
  then show ?thesis by (simp add: sat_inc_def word_gt_0)
next
  case False
  then have "x + 1 \<noteq> 0"
    by (metis add.inverse_unique add.commute)
  then show ?thesis using False by (simp add: sat_inc_def word_gt_0)
qed

text \<open>A counter that saturates can still be compared with any threshold of its own width.\<close>

lemma sat_inc_le_iff:
  fixes x y :: "'a::len word"
  assumes "x < y"
  shows "unat (sat_inc x) = Suc (unat x)" and "sat_inc x \<le> y"
proof -
  from assms have "unat x < unat y" by (simp add: word_less_nat_alt)
  moreover have "unat y \<le> 2 ^ LENGTH('a) - 1"
    using unat_bound [of "y"] by linarith
  ultimately show "unat (sat_inc x) = Suc (unat x)"
    by (simp add: unat_sat_inc)
  with \<open>unat x < unat y\<close> show "sat_inc x \<le> y"
    by (simp add: word_le_nat_alt)
qed

text \<open>\<open>x.checked_add(y)\<close>.\<close>

definition checked_add :: "'a::len word \<Rightarrow> 'a word \<Rightarrow> 'a word option" where
  "checked_add x y = (if unat x + unat y < 2 ^ LENGTH('a) then Some (x + y) else None)"

lemma checked_add_Some:
  "checked_add x y = Some z \<Longrightarrow> unat z = unat x + unat (y :: 'a::len word)"
  by (auto simp: checked_add_def unat_word_ariths split: if_splits)

subsection \<open>Bit masks\<close>

text \<open>\<open>m & b != 0\<close>.\<close>

definition has_bit :: "'a::len word \<Rightarrow> 'a word \<Rightarrow> bool" where
  "has_bit m b \<longleftrightarrow> m AND b \<noteq> 0"

lemma has_bit_0 [simp]: "\<not> has_bit 0 b" "\<not> has_bit m 0"
  by (simp_all add: has_bit_def)

lemma has_bit_or: "has_bit (m OR n) b \<longleftrightarrow> has_bit m b \<or> has_bit n b"
  by (simp add: has_bit_def word_ao_dist bit.conj_disj_distrib2 or_eq_0_iff)

subsection \<open>Arrays and slices\<close>

text \<open>
  \<open>dst[..n].copy_from_slice(&src[..n])\<close>: the first \<open>n\<close> entries of \<open>dst\<close> replaced.
\<close>

definition blit :: "nat \<Rightarrow> 'a list \<Rightarrow> 'a list \<Rightarrow> 'a list" where
  "blit n src dst = take n src @ drop n dst"

lemma length_blit [simp]:
  "n \<le> length src \<Longrightarrow> n \<le> length dst \<Longrightarrow> length (blit n src dst) = length dst"
  by (simp add: blit_def)

lemma nth_blit:
  "n \<le> length src \<Longrightarrow> n \<le> length dst \<Longrightarrow> i < length dst \<Longrightarrow>
     blit n src dst ! i = (if i < n then src ! i else dst ! i)"
  by (simp add: blit_def nth_append)

text \<open>\<open>for c in 0..n { dst[c] = f(c); }\<close>.\<close>

definition set_prefix :: "nat \<Rightarrow> (nat \<Rightarrow> 'a) \<Rightarrow> 'a list \<Rightarrow> 'a list" where
  "set_prefix n f dst = map f [0..<n] @ drop n dst"

lemma length_set_prefix [simp]: "n \<le> length dst \<Longrightarrow> length (set_prefix n f dst) = length dst"
  by (simp add: set_prefix_def)

lemma nth_set_prefix:
  "n \<le> length dst \<Longrightarrow> i < length dst \<Longrightarrow> set_prefix n f dst ! i = (if i < n then f i else dst ! i)"
  by (simp add: set_prefix_def nth_append)

text \<open>\<open>if c { m |= b; }\<close>.\<close>

definition or_if :: "bool \<Rightarrow> 'a::len word \<Rightarrow> 'a word \<Rightarrow> 'a word" where
  "or_if c b m = (if c then m OR b else m)"

lemma has_bit_or_if: "has_bit (or_if c b m) b' \<longleftrightarrow> has_bit m b' \<or> (c \<and> has_bit b b')"
  by (simp add: or_if_def has_bit_or)

text \<open>A subslice \<open>&xs[start .. start + n]\<close>.\<close>

definition slice :: "nat \<Rightarrow> nat \<Rightarrow> 'a list \<Rightarrow> 'a list" where
  "slice start n xs = take n (drop start xs)"

lemma length_slice: "length (slice s n xs) = min n (length xs - s)"
  by (simp add: slice_def)

lemma nth_slice: "i < n \<Longrightarrow> s + i < length xs \<Longrightarrow> slice s n xs ! i = xs ! (s + i)"
  by (simp add: slice_def)

text \<open>The rows of a row-major buffer are disjoint: row \<open>i\<close> ends where row \<open>i + 1\<close> starts.\<close>

lemma row_end_le:
  fixes i h d :: nat
  assumes "i < h" shows "i * d + d \<le> h * d"
proof -
  have "i * d + d = Suc i * d" by simp
  also have "\<dots> \<le> h * d" using assms by (intro mult_le_mono1) simp
  finally show ?thesis .
qed

subsection \<open>Results\<close>

text \<open>\<open>if cond { return Err(e); } rest\<close>: the early return of a chain of checks.\<close>

definition fail_if :: "bool \<Rightarrow> 'e \<Rightarrow> ('e + 'a) \<Rightarrow> ('e + 'a)" where
  "fail_if c e rest = (if c then Inl e else rest)"

lemma fail_if_Inr [simp]: "fail_if c e rest = Inr v \<longleftrightarrow> \<not> c \<and> rest = Inr v"
  by (auto simp: fail_if_def)

lemma fail_if_Inl: "fail_if c e rest = Inl x \<longleftrightarrow> (c \<and> x = e) \<or> (\<not> c \<and> rest = Inl x)"
  by (auto simp: fail_if_def)


subsection \<open>Strings and name tables\<close>

text \<open>\<open>iter().position(p)\<close>: the index of the first element that satisfies \<open>p\<close>.\<close>

fun position :: "('a \<Rightarrow> bool) \<Rightarrow> 'a list \<Rightarrow> nat option" where
  "position p [] = None"
| "position p (x # xs) = (if p x then Some 0 else map_option Suc (position p xs))"

lemma position_Some:
  "position p xs = Some i \<Longrightarrow> i < length xs \<and> p (xs ! i)"
  by (induction xs arbitrary: i) (auto split: if_splits)

lemma position_None: "position p xs = None \<longleftrightarrow> (\<forall>x \<in> set xs. \<not> p x)"
  by (induction xs) auto

lemma position_nth:
  "distinct xs \<Longrightarrow> i < length xs \<Longrightarrow> position (\<lambda>x. x = xs ! i) xs = Some i"
  by (induction xs arbitrary: i) (auto simp: nth_Cons' less_Suc_eq_0_disj)

text \<open>\<open>s.split(c)\<close> keeps empty pieces, so that an empty string splits into one empty piece.\<close>

fun split_on :: "'a \<Rightarrow> 'a list \<Rightarrow> 'a list list" where
  "split_on c [] = [[]]"
| "split_on c (x # xs) = (if x = c then [] # split_on c xs
     else (case split_on c xs of [] \<Rightarrow> [[x]] | p # ps \<Rightarrow> (x # p) # ps))"

text \<open>\<open>parts.join(sep)\<close> with a one-character separator.\<close>

fun join_with :: "'a \<Rightarrow> 'a list list \<Rightarrow> 'a list" where
  "join_with c [] = []"
| "join_with c [p] = p"
| "join_with c (p # q # ps) = p @ c # join_with c (q # ps)"

lemma split_on_no: "c \<notin> set xs \<Longrightarrow> split_on c xs = [xs]"
  by (induction xs) auto

lemma split_on_append: "c \<notin> set xs \<Longrightarrow> split_on c (xs @ c # ys) = xs # split_on c ys"
  by (induction xs) auto

lemma split_on_join:
  "ps \<noteq> [] \<Longrightarrow> (\<forall>p \<in> set ps. c \<notin> set p) \<Longrightarrow> split_on c (join_with c ps) = ps"
  by (induction c ps rule: join_with.induct) (auto simp: split_on_no split_on_append)

text \<open>A mask is the disjunction of its single bits.\<close>

definition or_all :: "'a::len word list \<Rightarrow> 'a word" where
  "or_all bs = foldl (OR) 0 bs"

lemma foldl_or: "foldl (OR) a bs = a OR foldl (OR) (0 :: 'a::len word) bs"
proof (induction bs arbitrary: a)
  case (Cons b bs)
  show ?case using Cons [of "a OR b"] Cons [of b] by (simp add: or.assoc)
qed simp

lemma or_all_simps [simp]: "or_all [] = 0" "or_all (b # bs) = b OR or_all bs"
  using foldl_or [of b bs] by (simp_all add: or_all_def)

lemma bit_or_all: "bit (or_all bs) n \<longleftrightarrow> (\<exists>b \<in> set bs. bit b n)"
  by (induction bs) (auto simp: bit_or_iff)

text \<open>The simplifier writes \<open>1 << i\<close> as a power of two.\<close>

lemma has_bit_exp:
  assumes "i < LENGTH('a)" shows "has_bit m (2 ^ i) \<longleftrightarrow> bit (m :: 'a::len word) i"
proof -
  have "m AND 2 ^ i = (if bit m i then 2 ^ i else 0)"
    by (rule bit_word_eqI) (auto simp: bit_and_iff bit_exp_iff)
  moreover have "(2 :: 'a word) ^ i \<noteq> 0" using assms by (metis bit_0_eq bit_exp_iff bot_apply
      bot_bool_def possible_bit_word)
  ultimately show ?thesis by (simp add: has_bit_def)
qed

lemma or_all_bits:
  fixes m :: "'a::len word"
  assumes "k \<le> LENGTH('a)"
  shows "or_all (map (\<lambda>i. 2 ^ i) (filter (\<lambda>i. has_bit m (2 ^ i)) [0..<k])) = take_bit k m"
proof (rule bit_word_eqI)
  fix n assume n: "n < LENGTH('a)"
  have "(\<exists>b\<in>set (map (\<lambda>i. 2 ^ i :: 'a word) (filter (\<lambda>i. has_bit m (2 ^ i)) [0..<k])). bit b n)
      \<longleftrightarrow> (\<exists>i<k. bit m i \<and> bit (2 ^ i :: 'a word) n)"
    using assms by (auto simp: has_bit_exp)
  also have "\<dots> \<longleftrightarrow> n < k \<and> bit m n"
    using n assms by (auto simp: bit_exp_iff)
  finally show "bit (or_all (map (\<lambda>i. 2 ^ i :: 'a word) (filter (\<lambda>i. has_bit m (2 ^ i)) [0..<k]))) n
      = bit (take_bit k m) n"
    unfolding bit_or_all bit_take_bit_iff by blast
qed

text \<open>
  A table that gives names to the bits of a mask.  Both the trip mask and the feature mask are
  written by name in files and on the wire; what their readers rely on is that the names are
  distinct, that there are no more of them than bits, and that none contains the separator of
  the gate terms.
\<close>

lemma len_num_u32: "n \<le> 32 \<Longrightarrow> n \<le> LENGTH(32)"
  by simp

locale bit_names =
  fixes names :: "string list" and sep :: char
  assumes distinct_names: "distinct names"
    and few_names: "length names \<le> 32"
    and no_sep: "\<forall>n \<in> set names. sep \<notin> set n"
begin

lemma lookup_nth: "i < length names \<Longrightarrow> position (\<lambda>n. n = names ! i) names = Some i"
  using distinct_names by (rule position_nth)

lemma lookup_Some: "position (\<lambda>n. n = s) names = Some i \<longleftrightarrow> i < length names \<and> names ! i = s"
  using position_Some [of "\<lambda>n. n = s" names i] lookup_nth [of i] by auto

lemma mask_of_names:
  fixes m :: u32
  shows "or_all (map (\<lambda>n. 2 ^ the (position (\<lambda>x. x = n) names))
           (map ((!) names) (filter (\<lambda>i. has_bit m (2 ^ i)) [0..<length names])))
         = take_bit (length names) m"
proof -
  have "map (\<lambda>n. 2 ^ the (position (\<lambda>x. x = n) names))
           (map ((!) names) (filter (\<lambda>i. has_bit m (2 ^ i)) [0..<length names]))
      = map (\<lambda>i. (2 :: u32) ^ i) (filter (\<lambda>i. has_bit m (2 ^ i)) [0..<length names])"
    by (simp add: lookup_nth)
  then show ?thesis using or_all_bits [of "length names" m] few_names
    by (metis (no_types, lifting) len_num_u32)
qed

lemma split_names:
  "is \<noteq> [] \<Longrightarrow> (\<forall>i \<in> set is. i < length names) \<Longrightarrow>
     split_on sep (join_with sep (map ((!) names) is)) = map ((!) names) is"
  using no_sep by (intro split_on_join) auto

end

end
