(* ===== verification/Verdict.thy ===== *)
theory Verdict
  imports Float64
begin

text \<open>
  The frozen vocabulary of \<open>lictor-core\<close>: the fuse states and modes (\<open>state.rs\<close>), the
  acknowledgement an operator sends (\<open>ack.rs\<close>), the severity lattice, the trip-mask bits and the
  action sources (\<open>verdict.rs\<close>) and the reason codes with their sentences (\<open>reason.rs\<close>).  The
  source derives \<open>Ord\<close> for states and severities from declaration order; the instances of
  \<open>linorder\<close> below are that order.  Constructors carry a prefix where the same name is used by
  several Rust enums.
\<close>

subsection \<open>States and modes\<close>

datatype FuseState = Idle | Armed | Watching | Clamped | Braking | Held | Escalated | Fault | Terminated

fun FuseState_rank :: "FuseState \<Rightarrow> nat" where
  "FuseState_rank Idle = 0"
| "FuseState_rank Armed = 1"
| "FuseState_rank Watching = 2"
| "FuseState_rank Clamped = 3"
| "FuseState_rank Braking = 4"
| "FuseState_rank Held = 5"
| "FuseState_rank Escalated = 6"
| "FuseState_rank Fault = 7"
| "FuseState_rank Terminated = 8"

lemma FuseState_rank_inj: "FuseState_rank s = FuseState_rank s' \<Longrightarrow> s = s'"
  by (cases s; cases s') simp_all

instantiation FuseState :: linorder
begin

definition less_eq_FuseState :: "FuseState \<Rightarrow> FuseState \<Rightarrow> bool" where
  "less_eq_FuseState s s' = (FuseState_rank s \<le> FuseState_rank s')"

definition less_FuseState :: "FuseState \<Rightarrow> FuseState \<Rightarrow> bool" where
  "less_FuseState s s' = (FuseState_rank s < FuseState_rank s')"

instance
  by standard (auto simp: less_eq_FuseState_def less_FuseState_def intro: FuseState_rank_inj)

end

fun is_stop :: "FuseState \<Rightarrow> bool" where
  "is_stop Braking = True"
| "is_stop Held = True"
| "is_stop Escalated = True"
| "is_stop Fault = True"
| "is_stop Terminated = True"
| "is_stop _ = False"

fun is_terminal :: "FuseState \<Rightarrow> bool" where
  "is_terminal Fault = True"
| "is_terminal Terminated = True"
| "is_terminal _ = False"

lemma is_stop_rank: "is_stop s \<longleftrightarrow> Braking \<le> s"
  by (cases s) (simp_all add: less_eq_FuseState_def)

lemma is_terminal_rank: "is_terminal s \<longleftrightarrow> Fault \<le> s"
  by (cases s) (simp_all add: less_eq_FuseState_def)

lemma is_terminal_stop: "is_terminal s \<Longrightarrow> is_stop s"
  by (cases s) simp_all

datatype FuseMode = Observe | Enforce

datatype ExecMode = Sync | Async

record EpisodeInit =
  ei_episode_index :: u32
  ei_seed :: u64
  ei_delay_steps :: u16
  ei_exec :: ExecMode

subsection \<open>Acknowledgements\<close>

datatype AckDecision = Resume | Abort | Retune

record VerifiedAck =
  va_decision :: AckDecision
  va_operator_slot :: u8
  va_nonce :: u64
  va_handoff_seq :: u32

subsection \<open>Severity and trips\<close>

datatype Status = St_Nominal | St_Watching | St_Clamped | St_Braking | St_Held | St_Escalated
  | St_Fault | St_Terminated

fun Status_rank :: "Status \<Rightarrow> nat" where
  "Status_rank St_Nominal = 0"
| "Status_rank St_Watching = 1"
| "Status_rank St_Clamped = 2"
| "Status_rank St_Braking = 3"
| "Status_rank St_Held = 4"
| "Status_rank St_Escalated = 5"
| "Status_rank St_Fault = 6"
| "Status_rank St_Terminated = 7"

lemma Status_rank_inj: "Status_rank s = Status_rank s' \<Longrightarrow> s = s'"
  by (cases s; cases s') simp_all

instantiation Status :: linorder
begin

definition less_eq_Status :: "Status \<Rightarrow> Status \<Rightarrow> bool" where
  "less_eq_Status s s' = (Status_rank s \<le> Status_rank s')"

definition less_Status :: "Status \<Rightarrow> Status \<Rightarrow> bool" where
  "less_Status s s' = (Status_rank s < Status_rank s')"

instance
  by standard (auto simp: less_eq_Status_def less_Status_def intro: Status_rank_inj)

end

definition TRIP_WORKSPACE :: u32 where "TRIP_WORKSPACE = push_bit 0 1"
definition TRIP_SPEED :: u32 where "TRIP_SPEED = push_bit 1 1"
definition TRIP_ACCEL :: u32 where "TRIP_ACCEL = push_bit 2 1"
definition TRIP_JERK :: u32 where "TRIP_JERK = push_bit 3 1"
definition TRIP_REACH :: u32 where "TRIP_REACH = push_bit 4 1"
definition TRIP_CONTACT :: u32 where "TRIP_CONTACT = push_bit 5 1"
definition TRIP_BRAKE :: u32 where "TRIP_BRAKE = push_bit 6 1"
definition TRIP_NONFINITE :: u32 where "TRIP_NONFINITE = push_bit 7 1"
definition TRIP_SCHEMA :: u32 where "TRIP_SCHEMA = push_bit 8 1"
definition TRIP_WATCHDOG :: u32 where "TRIP_WATCHDOG = push_bit 9 1"
definition TRIP_TIER1_CP :: u32 where "TRIP_TIER1_CP = push_bit 10 1"
definition TRIP_CLAMP_BUDGET :: u32 where "TRIP_CLAMP_BUDGET = push_bit 11 1"
definition TRIP_HANDOFF_TIMEOUT :: u32 where "TRIP_HANDOFF_TIMEOUT = push_bit 12 1"
definition TRIP_OPERATOR_ABORT :: u32 where "TRIP_OPERATOR_ABORT = push_bit 13 1"
definition TRIP_BRAKE_TIMEOUT :: u32 where "TRIP_BRAKE_TIMEOUT = push_bit 14 1"
definition TRIP_REARM_BUDGET :: u32 where "TRIP_REARM_BUDGET = push_bit 15 1"

definition TRIP_TIER0_SOFT :: u32 where
  "TRIP_TIER0_SOFT = TRIP_WORKSPACE OR TRIP_SPEED OR TRIP_ACCEL OR TRIP_JERK OR TRIP_REACH OR TRIP_CONTACT"

definition TRIP_TIER0_HARD :: u32 where
  "TRIP_TIER0_HARD = TRIP_BRAKE OR TRIP_NONFINITE OR TRIP_SCHEMA OR TRIP_WATCHDOG"

lemmas trip_bit_defs =
  TRIP_WORKSPACE_def TRIP_SPEED_def TRIP_ACCEL_def TRIP_JERK_def TRIP_REACH_def TRIP_CONTACT_def TRIP_BRAKE_def TRIP_NONFINITE_def TRIP_SCHEMA_def TRIP_WATCHDOG_def TRIP_TIER1_CP_def TRIP_CLAMP_BUDGET_def TRIP_HANDOFF_TIMEOUT_def TRIP_OPERATOR_ABORT_def TRIP_BRAKE_TIMEOUT_def TRIP_REARM_BUDGET_def

lemmas trip_defs = trip_bit_defs TRIP_TIER0_SOFT_def TRIP_TIER0_HARD_def

lemma trip_soft_hard: "TRIP_TIER0_SOFT = 0x3f" "TRIP_TIER0_HARD = 0x3c0"
  by (simp_all add: trip_defs)

definition TripMask_NAMES :: "string list" where
  "TripMask_NAMES = [''workspace'', ''speed'', ''accel'', ''jerk'', ''reach'', ''contact'', ''brake'', ''nonfinite'', ''schema'', ''watchdog'', ''tier1_cp'', ''clamp_budget'', ''handoff_timeout'', ''operator_abort'', ''brake_timeout'', ''rearm_budget'']"

definition TripMask_names :: "u32 \<Rightarrow> string list" where
  "TripMask_names m = map ((!) TripMask_NAMES)
     (filter (\<lambda>i. has_bit m (push_bit i 1)) [0..<length TripMask_NAMES])"

definition TripMask_from_name :: "string \<Rightarrow> u32 option" where
  "TripMask_from_name s = map_option (\<lambda>i. push_bit i 1) (position (\<lambda>n. n = s) TripMask_NAMES)"

interpretation trip_names: bit_names TripMask_NAMES "CHR ''|''"
  by unfold_locales (simp_all add: TripMask_NAMES_def)

lemma length_TripMask_NAMES: "length TripMask_NAMES = 16"
  by (simp add: TripMask_NAMES_def)

text \<open>Reading back the names a mask lists gives the low 16 bits of the mask.\<close>

lemma TripMask_names_read:
  "or_all (map (\<lambda>n. the (TripMask_from_name n)) (TripMask_names m)) = take_bit 16 m"
proof -
  have "map (\<lambda>n. the (TripMask_from_name n)) (TripMask_names m)
      = map (\<lambda>n. 2 ^ the (position (\<lambda>x. x = n) TripMask_NAMES)) (TripMask_names m)"
    by (auto simp: TripMask_from_name_def TripMask_names_def trip_names.lookup_nth)
  then show ?thesis
    using trip_names.mask_of_names [of m]
    unfolding TripMask_names_def push_bit_of_1 length_TripMask_NAMES by (simp only:)
qed

datatype ActionSource = Src_Policy | Src_Clamped | Src_Brake | Src_Hold

subsection \<open>Reasons\<close>

datatype ReasonCode =
  RC_Ok | RC_ObserveOnly | RC_WatchBand | RC_ClampWorkspace
  | RC_ClampSpeed | RC_ClampAccel | RC_ClampJerk | RC_ClampReach
  | RC_ClampContact | RC_BrakeInfeasible | RC_BrakeTier1Cp | RC_BrakeClampBudget
  | RC_Stopping | RC_HeldStandstill | RC_EscalateHoldTimeout | RC_EscalateRearmBudget
  | RC_EscalateTier1Persistent | RC_FaultNonFinite | RC_FaultSchema | RC_FaultWatchdog
  | RC_FaultBrakeTimeout | RC_FaultInternal | RC_RearmedAuto | RC_RearmedAck
  | RC_TerminatedAbort | RC_TerminatedTimeout | RC_TerminatedRetune | RC_EpisodeEnd

definition ReasonCode_ALL :: "ReasonCode list" where
  "ReasonCode_ALL = [
     RC_Ok, RC_ObserveOnly, RC_WatchBand, RC_ClampWorkspace,
     RC_ClampSpeed, RC_ClampAccel, RC_ClampJerk, RC_ClampReach,
     RC_ClampContact, RC_BrakeInfeasible, RC_BrakeTier1Cp, RC_BrakeClampBudget,
     RC_Stopping, RC_HeldStandstill, RC_EscalateHoldTimeout, RC_EscalateRearmBudget,
     RC_EscalateTier1Persistent, RC_FaultNonFinite, RC_FaultSchema, RC_FaultWatchdog,
     RC_FaultBrakeTimeout, RC_FaultInternal, RC_RearmedAuto, RC_RearmedAck,
     RC_TerminatedAbort, RC_TerminatedTimeout, RC_TerminatedRetune, RC_EpisodeEnd]"

definition reason_text :: "ReasonCode \<Rightarrow> string" where
  "reason_text r = (case r of
      RC_Ok \<Rightarrow>
        ''No limit was reached; the policy action was passed through unchanged.''
    | RC_ObserveOnly \<Rightarrow>
        ''The fuse is observing only: it scored this tick but did not change the action.''
    | RC_WatchBand \<Rightarrow>
        ''A predictive score is close to its threshold; the fuse is watching but has not intervened.''
    | RC_ClampWorkspace \<Rightarrow>
        ''A commanded position left the allowed workspace and was pulled back inside it.''
    | RC_ClampSpeed \<Rightarrow>
        ''A commanded step was faster than the speed limit and was shortened to fit.''
    | RC_ClampAccel \<Rightarrow>
        ''The commanded motion accelerated harder than allowed and was smoothed to the limit.''
    | RC_ClampJerk \<Rightarrow>
        ''The commanded motion changed acceleration faster than allowed and was smoothed.''
    | RC_ClampReach \<Rightarrow>
        ''The first commanded position was too far from the current position and was pulled closer.''
    | RC_ClampContact \<Rightarrow>
        ''The commanded speed close to the object exceeded the contact limit and was reduced.''
    | RC_BrakeInfeasible \<Rightarrow>
        ''The committed motion could not be stopped inside the workspace; the fuse is braking.''
    | RC_BrakeTier1Cp \<Rightarrow>
        ''The predictive detector fired often enough in a row that the fuse is braking.''
    | RC_BrakeClampBudget \<Rightarrow>
        ''Commands had to be corrected too many times in a row; the fuse is braking.''
    | RC_Stopping \<Rightarrow>
        ''A controlled stop is in progress; the setpoint is held at the current position.''
    | RC_HeldStandstill \<Rightarrow>
        ''The robot has stopped and is being held still at its current position.''
    | RC_EscalateHoldTimeout \<Rightarrow>
        ''The robot has been held still for too long without a clean re-arm; a person must decide.''
    | RC_EscalateRearmBudget \<Rightarrow>
        ''The fuse has already re-armed as often as allowed this episode; a person must decide.''
    | RC_EscalateTier1Persistent \<Rightarrow>
        ''The predictive detector kept firing while the robot was held; a person must decide.''
    | RC_FaultNonFinite \<Rightarrow>
        ''An input contained a non-finite number; the fuse holds position until the episode ends.''
    | RC_FaultSchema \<Rightarrow>
        ''A message broke the agreed format or ordering; the fuse holds position until the episode ends.''
    | RC_FaultWatchdog \<Rightarrow>
        ''Too many ticks were missed in a row; the fuse holds position until the episode ends.''
    | RC_FaultBrakeTimeout \<Rightarrow>
        ''The robot did not come to a stop within the braking time limit; the fuse holds position.''
    | RC_FaultInternal \<Rightarrow>
        ''The fuse found an internal inconsistency and holds position until the episode ends.''
    | RC_RearmedAuto \<Rightarrow>
        ''The robot stood still cleanly for the required time and control returned to the policy.''
    | RC_RearmedAck \<Rightarrow>
        ''A signed operator acknowledgement resumed the episode and control returned to the policy.''
    | RC_TerminatedAbort \<Rightarrow>
        ''A signed operator acknowledgement aborted the episode; the robot stays held.''
    | RC_TerminatedTimeout \<Rightarrow>
        ''No operator decision arrived in time; the episode ended with the robot held.''
    | RC_TerminatedRetune \<Rightarrow>
        ''A signed operator acknowledgement ended the episode so the envelope can be retuned.''
    | RC_EpisodeEnd \<Rightarrow>
        ''The episode ended normally.'')"

lemma ReasonCode_ALL_complete: "r \<in> set ReasonCode_ALL"
  by (cases r) (simp_all add: ReasonCode_ALL_def)

lemma reason_text_short: "length (reason_text r) \<le> 120"
  by (cases r) (simp_all add: reason_text_def)

lemma reason_text_nonempty: "reason_text r \<noteq> []"
  by (cases r) (simp_all add: reason_text_def)

end
