(* ===== verification/Rounding.thy ===== *)
theory Rounding
  imports Float64
begin

text \<open>
  Correct rounding of the float operations of \<open>Float64\<close>.  \<open>mag_val n\<close> is the real value of the
  float magnitude \<open>n\<close>; it is strictly increasing, so the magnitudes enumerate the float grid.
  \<open>rne r n\<close> says that \<open>n\<close> is the grid point nearest to \<open>r\<close>, ties to even; it is monotone, and
  exact on grid points.  \<open>rounds_to r z\<close> lifts it to signed floats.  Every arithmetic operation on
  finite floats returns the correctly rounded exact result, which makes comparisons of results a
  matter of comparing real numbers.
\<close>

subsection \<open>The float grid\<close>

definition mag_val :: "int \<Rightarrow> real" where
  "mag_val n = of_int (mag_man n) * 2 powi (mag_exp n - 1075)"

definition fval :: "f64 \<Rightarrow> real" where
  "fval x = (if f_sign x then - mag_val (f_mag x) else mag_val (f_mag x))"

lemma mag_val_at:
  assumes "- 1074 \<le> e" "0 \<le> q" "q \<le> 9007199254740992" "4503599627370496 \<le> q \<or> e = - 1074"
  shows "mag_val ((e + 1074) * 4503599627370496 + q) = of_int q * 2 powi e"
proof -
  let ?n = "(e + 1074) * 4503599627370496 + q"
  consider (top) "q = 9007199254740992" | (normal) "4503599627370496 \<le> q" "q < 9007199254740992"
    | (sub) "e = - 1074" "q < 4503599627370496"
    using assms by linarith
  then show ?thesis
  proof cases
    case top
    then have "?n div 4503599627370496 = e + 1076" by simp
    then have "mag_exp ?n = e + 1076" using assms(1) by (simp add: mag_exp_def)
    then show ?thesis
      using top by (simp add: mag_val_def mag_man_def algebra_simps power_int_add)
  next
    case normal
    then have "q div 4503599627370496 = 1"
      using int_div_pos_eq [of q 4503599627370496 1 "q - 4503599627370496"] by simp
    then have "?n div 4503599627370496 = e + 1074 + 1" by simp
    then have "mag_exp ?n = e + 1075" using assms(1) by (simp add: mag_exp_def)
    then show ?thesis
      by (simp add: mag_val_def mag_man_def algebra_simps)
  next
    case sub
    then have "?n div 4503599627370496 = 0" using assms(2) by simp
    then show ?thesis using sub by (simp add: mag_val_def mag_man_def mag_exp_def)
  qed
qed

lemma mag_parts:
  assumes "0 \<le> n"
  shows "n = (mag_exp n - 1075 + 1074) * 4503599627370496 + mag_man n"
    and "- 1074 \<le> mag_exp n - 1075" and "0 \<le> mag_man n" and "mag_man n < 9007199254740992"
    and "4503599627370496 \<le> mag_man n \<or> mag_exp n - 1075 = - 1074"
proof -
  have d: "n div 4503599627370496 * 4503599627370496 \<le> n"
    "n < n div 4503599627370496 * 4503599627370496 + 4503599627370496"
    using div_mult_mod_eq [of n 4503599627370496] pos_mod_bound [of 4503599627370496 n]
      pos_mod_sign [of 4503599627370496 n] by linarith+
  then show "n = (mag_exp n - 1075 + 1074) * 4503599627370496 + mag_man n"
    and "- 1074 \<le> mag_exp n - 1075" and "0 \<le> mag_man n" and "mag_man n < 9007199254740992"
    and "4503599627370496 \<le> mag_man n \<or> mag_exp n - 1075 = - 1074"
    using assms by (auto simp: mag_man_def mag_exp_def max_def algebra_simps)
qed

lemma mag_val_succ:
  assumes "0 \<le> n" shows "mag_val (n + 1) = mag_val n + 2 powi (mag_exp n - 1075)"
proof -
  have "n + 1 = (mag_exp n - 1075 + 1074) * 4503599627370496 + (mag_man n + 1)"
    using mag_parts(1) [OF assms] by linarith
  moreover have "mag_val ((mag_exp n - 1075 + 1074) * 4503599627370496 + (mag_man n + 1))
      = of_int (mag_man n + 1) * 2 powi (mag_exp n - 1075)"
    using mag_parts(2-5) [OF assms] by (intro mag_val_at) linarith+
  ultimately have "mag_val (n + 1) = of_int (mag_man n + 1) * 2 powi (mag_exp n - 1075)"
    by metis
  then show ?thesis by (simp add: mag_val_def algebra_simps)
qed

lemma mag_val_strict_mono:
  assumes "0 \<le> m" "m < n" shows "mag_val m < mag_val n"
  using assms(2)
proof (induction n rule: int_gr_induct)
  case base
  then show ?case using assms(1) by (simp add: mag_val_succ)
next
  case (step i)
  moreover have "mag_val i < mag_val (i + 1)"
    using step assms(1) by (simp add: mag_val_succ)
  ultimately show ?case by simp
qed

lemma mag_val_less_iff: "0 \<le> m \<Longrightarrow> 0 \<le> n \<Longrightarrow> mag_val m < mag_val n \<longleftrightarrow> m < n"
  by (metis mag_val_strict_mono less_asym linorder_neqE_linordered_idom order_less_irrefl)

lemma mag_val_le_iff: "0 \<le> m \<Longrightarrow> 0 \<le> n \<Longrightarrow> mag_val m \<le> mag_val n \<longleftrightarrow> m \<le> n"
  by (simp add: mag_val_less_iff flip: not_less)

lemma mag_val_0 [simp]: "mag_val 0 = 0"
  by (simp add: mag_val_def mag_man_def mag_exp_def)

lemma mag_val_nonneg: "0 \<le> n \<Longrightarrow> 0 \<le> mag_val n"
  using mag_val_le_iff [of 0 n] by simp

lemma mag_val_pos: "0 < n \<Longrightarrow> 0 < mag_val n"
  using mag_val_less_iff [of 0 n] by simp

lemma mag_val_eq_0: "0 \<le> n \<Longrightarrow> mag_val n = 0 \<longleftrightarrow> n = 0"
  using mag_val_pos [of n] by (cases "n = 0") auto

text \<open>The order on finite floats is the order of their values.\<close>

lemma f_key_fval: "f_key x \<le> f_key y \<longleftrightarrow> fval x \<le> fval y"
proof -
  consider "f_sign x = f_sign y" | "f_sign x" "\<not> f_sign y" | "\<not> f_sign x" "f_sign y" by blast
  then show ?thesis
  proof cases
    case 1
    then show ?thesis by (simp add: f_key_def fval_def mag_val_le_iff)
  next
    case 2
    moreover have "fval x \<le> fval y"
      using 2 mag_val_nonneg [of "f_mag x"] mag_val_nonneg [of "f_mag y"] by (simp add: fval_def)
    moreover have "f_key x \<le> f_key y"
      using 2 f_mag_range(1) [of x] f_mag_range(1) [of y] by (simp only: f_key_def if_True if_False)
    ultimately show ?thesis by simp
  next
    case 3
    have "f_key x \<le> f_key y \<longleftrightarrow> f_mag x = 0 \<and> f_mag y = 0"
      using 3 f_mag_range(1) [of x] f_mag_range(1) [of y]
      by (simp only: f_key_def if_True if_False) linarith
    also have "\<dots> \<longleftrightarrow> mag_val (f_mag x) = 0 \<and> mag_val (f_mag y) = 0"
      by (simp add: mag_val_eq_0)
    also have "\<dots> \<longleftrightarrow> fval x \<le> fval y"
      using 3 mag_val_nonneg [OF f_mag_range(1) [of x]] mag_val_nonneg [OF f_mag_range(1) [of y]]
      by (simp only: fval_def if_True if_False) linarith
    finally show ?thesis .
  qed
qed

lemma f_less_fval: "is_finite x \<Longrightarrow> is_finite y \<Longrightarrow> x < y \<longleftrightarrow> fval x < fval y"
  using f_key_fval [of y x] by (auto simp: f_cmp)

lemma f_le_fval: "is_finite x \<Longrightarrow> is_finite y \<Longrightarrow> x \<le> y \<longleftrightarrow> fval x \<le> fval y"
  by (simp add: f_cmp f_key_fval)

subsection \<open>Round to nearest, ties to even\<close>

definition rne :: "real \<Rightarrow> int \<Rightarrow> bool" where
  "rne r n \<longleftrightarrow> 0 \<le> n \<and> 2 * r \<le> mag_val n + mag_val (n + 1) \<and>
     (2 * r = mag_val n + mag_val (n + 1) \<longrightarrow> even n) \<and>
     (0 < n \<longrightarrow> mag_val (n - 1) + mag_val n \<le> 2 * r \<and>
        (mag_val (n - 1) + mag_val n = 2 * r \<longrightarrow> even n))"

lemma rne_mono:
  assumes "rne r n" "rne r' n'" "r \<le> r'" shows "n \<le> n'"
proof (rule ccontr)
  assume "\<not> n \<le> n'"
  then have lt: "n' \<le> n - 1" "0 < n" using assms(2) by (auto simp: rne_def)
  have nn: "0 \<le> n'" using assms(2) by (simp add: rne_def)
  have 1: "mag_val (n - 1) + mag_val n \<le> 2 * r"
    using assms(1) lt by (simp add: rne_def)
  have 2: "2 * r' \<le> mag_val n' + mag_val (n' + 1)"
    using assms(2) by (simp add: rne_def)
  have 3: "mag_val n' \<le> mag_val (n - 1)" "mag_val (n' + 1) \<le> mag_val n"
    using lt nn by (simp_all add: mag_val_le_iff)
  from 1 2 3 assms(3) have eq: "mag_val n' = mag_val (n - 1)"
    "mag_val (n - 1) + mag_val n = 2 * r" "2 * r' = mag_val n' + mag_val (n' + 1)" by linarith+
  from eq(1) have "n' = n - 1"
    using lt nn by (metis mag_val_le_iff order_antisym order_refl dual_order.trans)
  moreover have "even n" "even n'" using eq(2,3) assms(1,2) lt by (simp_all add: rne_def)
  ultimately show False by simp
qed

lemma rne_mag_val: "0 \<le> n \<Longrightarrow> rne (mag_val n) n"
  using mag_val_strict_mono [of n "n + 1"] mag_val_strict_mono [of "n - 1" n]
  by (auto simp: rne_def)

lemma rne_0: "rne 0 n \<Longrightarrow> n = 0"
  using rne_mono [of 0 n "mag_val 0" 0] rne_mag_val [of 0] by (auto simp: rne_def)

text \<open>How far \<open>r\<close> lies above the midpoint of two neighbours decides where it rounds.\<close>

lemma rne_upI:
  assumes "0 \<le> n" "2 * r = mag_val n + mag_val (n + 1) + c" "0 \<le> c" "c = 0 \<longrightarrow> odd n"
    "r < mag_val (n + 1)"
  shows "rne r (n + 1)"
proof -
  have "mag_val (n + 1) < mag_val (n + 1 + 1)" using assms(1) by (intro mag_val_strict_mono) auto
  then show ?thesis unfolding rne_def using assms by simp
qed

lemma rne_downI:
  assumes "0 \<le> n" "2 * r = mag_val n + mag_val (n + 1) + c" "c \<le> 0" "c = 0 \<longrightarrow> even n"
    "mag_val n \<le> r"
  shows "rne r n"
proof -
  have "mag_val (n - 1) + mag_val n < 2 * r" if "0 < n"
    using mag_val_strict_mono [of "n - 1" n] that assms(5) by simp
  then show ?thesis unfolding rne_def using assms(1,3,4) assms(2) by fastforce
qed

lemma bitlen_nonneg: "0 \<le> bitlen n"
  by (induction n rule: bitlen.induct) (subst bitlen.simps, simp)

lemma bitlen_bounds:
  "0 < n \<Longrightarrow> 1 \<le> bitlen n \<and> 2 ^ nat (bitlen n - 1) \<le> n \<and> n < 2 ^ nat (bitlen n)"
proof (induction n rule: bitlen.induct)
  case (1 n)
  show ?case
  proof (cases "n < 65536")
    case True
    show ?thesis
    proof (cases "n = 1")
      case True
      then show ?thesis by (simp add: bitlen.simps)
    next
      case False
      then have IH: "1 \<le> bitlen (n div 2) \<and> 2 ^ nat (bitlen (n div 2) - 1) \<le> n div 2
          \<and> n div 2 < 2 ^ nat (bitlen (n div 2))"
        using 1 True by simp
      then obtain L where L: "bitlen (n div 2) = int L + 1"
        by (metis add.commute le_iff_add zle_iff_zadd)
      have b: "bitlen n = 1 + bitlen (n div 2)" using 1 True by (subst bitlen.simps) simp
      have e: "nat (int L + 1) = L + 1" "nat (int L + 1 - 1) = L"
        "nat (1 + (int L + 1)) = L + 2" "nat (1 + (int L + 1) - 1) = L + 1"
        by linarith+
      from IH have "2 ^ L \<le> n div 2" "n div 2 < 2 ^ (L + 1)"
        unfolding L e by blast+
      then have "2 ^ L * 2 \<le> n" "n < 2 ^ (L + 1) * 2" by linarith+
      then show ?thesis unfolding b L e by simp
    qed
  next
    case False
    then have IH: "1 \<le> bitlen (n div 65536) \<and> 2 ^ nat (bitlen (n div 65536) - 1) \<le> n div 65536
          \<and> n div 65536 < 2 ^ nat (bitlen (n div 65536))"
      using 1 by simp
    then obtain L where L: "bitlen (n div 65536) = int L + 1"
      by (metis add.commute le_iff_add zle_iff_zadd)
    have b: "bitlen n = 16 + bitlen (n div 65536)" using False by (subst bitlen.simps) simp
    have e: "nat (int L + 1) = L + 1" "nat (int L + 1 - 1) = L"
      "nat (16 + (int L + 1)) = L + 17" "nat (16 + (int L + 1) - 1) = L + 16"
      by linarith+
    from IH have "2 ^ L \<le> n div 65536" "n div 65536 < 2 ^ (L + 1)"
      unfolding L e by blast+
    then have "2 ^ L * 65536 \<le> n" "n < 2 ^ (L + 1) * 65536" by linarith+
    moreover have "(2::int) ^ (L + 16) = 2 ^ L * 65536" "(2::int) ^ (L + 17) = 2 ^ (L + 1) * 65536"
      by (simp_all add: power_add)
    ultimately show ?thesis unfolding b L e by simp
  qed
qed


lemma rnd_mag_rne:
  assumes m: "0 < m" and lo: "of_int m * 2 powi e \<le> r" and hi: "r < of_int (m + 1) * 2 powi e"
    and st: "st \<longleftrightarrow> r \<noteq> of_int m * 2 powi e" and big: "st \<Longrightarrow> 9007199254740992 \<le> m"
  shows "rne r (rnd_mag m e st)"
proof -
  define L where "L = bitlen m"
  define e' where "e' = max (e + L - 53) (- 1074)"
  define k where "k = e' - e"
  have L: "1 \<le> L" "2 ^ nat (L - 1) \<le> m" "m < 2 ^ nat L"
    using bitlen_bounds [OF m] by (auto simp: L_def)
  have e': "- 1074 \<le> e'" "e + L - 53 \<le> e'" "e' = e + L - 53 \<or> e' = - 1074"
    by (auto simp: e'_def max_def)
  have p53: "(2::int) ^ 53 = 9007199254740992" "(2::int) ^ 52 = 4503599627370496" by simp_all
  show ?thesis
  proof (cases "k \<le> 0")
    case True
    define j where "j = nat (- k)"
    have j: "e = e' + int j" "int j = - k" using True by (auto simp: j_def k_def)
    have "\<not> st"
    proof
      assume st
      then have "(2::int) ^ 53 < 2 ^ nat L" using big L(3) p53 by linarith
      then have "53 < nat L" by (rule power_less_imp_less_exp [rotated]) simp
      then show False using e'(2) True by (simp add: k_def)
    qed
    then have r: "r = of_int m * 2 powi e" using st by simp
    define q where "q = m * 2 ^ j"
    have val: "of_int q * 2 powi e' = r"
      unfolding r q_def j(1) by (simp add: power_int_add)
    have "q < 2 ^ nat L * 2 ^ j" using L(3) by (simp add: q_def)
    also have "\<dots> = 2 ^ (nat L + j)" by (simp add: power_add)
    also have "\<dots> \<le> (2::int) ^ 53"
    proof (rule power_increasing)
      have "L + int j \<le> 53" using e'(2) j(1) by linarith
      then show "nat L + j \<le> 53" using L(1) by arith
    qed simp
    finally have q1: "q \<le> 9007199254740992" using p53 by simp
    have q2: "4503599627370496 \<le> q \<or> e' = - 1074"
    proof (cases "e' = - 1074")
      case False
      then have "e' = e + L - 53" using e'(3) by simp
      then have "L - 1 + int j = 52" using j(1) by linarith
      then have "nat (L - 1) + j = 52" using L(1) by arith
      then have "(2::int) ^ nat (L - 1) * 2 ^ j = 4503599627370496"
        by (metis p53(2) power_add)
      moreover have "2 ^ nat (L - 1) * 2 ^ j \<le> q" using L(2) by (simp add: q_def)
      ultimately show ?thesis by simp
    qed simp
    have "mag_val ((e' + 1074) * 4503599627370496 + q) = r"
      using mag_val_at [OF e'(1) _ q1 q2] m val by (simp add: q_def)
    moreover have "rnd_mag m e st = (e' + 1074) * 4503599627370496 + q"
      using True unfolding rnd_mag_def Let_def L_def [symmetric] e'_def [symmetric] k_def [symmetric]
        j_def [symmetric] q_def [symmetric] by simp
    moreover have "0 \<le> (e' + 1074) * 4503599627370496 + q" using e'(1) m by (simp add: q_def)
    ultimately show ?thesis using rne_mag_val by metis
  next
    case False
    define j where "j = nat (k - 1)"
    have j: "e' = e + int (Suc j)" "k = int (Suc j)" using False by (auto simp: j_def k_def)
    define h :: int where "h = 2 ^ j"
    have h: "0 < h" by (simp add: h_def)
    define q where "q = m div (2 * h)"
    define rr where "rr = m mod (2 * h)"
    have dm: "m = q * (2 * h) + rr" "0 \<le> rr" "rr < 2 * h" "0 \<le> q"
    proof -
      show "m = q * (2 * h) + rr" unfolding q_def rr_def by (rule div_mult_mod_eq [symmetric])
      show "0 \<le> rr" "rr < 2 * h" using h by (simp_all add: rr_def)
      show "0 \<le> q" using h m by (simp add: q_def pos_imp_zdiv_nonneg_iff)
    qed
    define u :: real where "u = 2 powi e"
    have u: "0 < u" by (simp add: u_def)
    have e'u: "2 powi e' = u * of_int (2 * h)"
      unfolding j(1) u_def h_def by (simp add: power_int_add)
    define d where "d = r / u - of_int m"
    have r: "r = (of_int m + d) * u" using u by (simp add: d_def)
    have "of_int m * u \<le> r" "r < of_int (m + 1) * u" using lo hi by (simp_all add: u_def)
    then have d: "0 \<le> d" "d < 1"
      using u unfolding r by (simp_all add: distrib_right zero_le_mult_iff)
    have std: "st \<longleftrightarrow> d \<noteq> 0" using st u unfolding r u_def [symmetric] by (simp add: distrib_right)
    let ?n = "(e' + 1074) * 4503599627370496 + q"
    have "m < 2 ^ nat L" by (rule L)
    also have "\<dots> \<le> (2::int) ^ (53 + Suc j)"
    proof (rule power_increasing)
      have "L \<le> 53 + int (Suc j)" using e'(2) j(1) by linarith
      then show "nat L \<le> 53 + Suc j" using L(1) by arith
    qed simp
    also have "\<dots> = 9007199254740992 * (2 * h)" unfolding power_add p53 h_def by simp
    finally have "q * (2 * h) < 9007199254740992 * (2 * h)" using dm by linarith
    then have q1: "q < 9007199254740992" using h by simp
    have q2: "4503599627370496 \<le> q \<or> e' = - 1074"
    proof (cases "e' = - 1074")
      case False
      then have "e' = e + L - 53" using e'(3) by simp
      then have "L - 1 = 52 + int (Suc j)" using j(1) by linarith
      then have "nat (L - 1) = 52 + Suc j" using L(1) by arith
      then have "(2::int) ^ nat (L - 1) = 4503599627370496 * (2 * h)"
        unfolding h_def by (metis p53(2) power_add power_Suc)
      then have "4503599627370496 * (2 * h) \<le> q * (2 * h) + rr"
        using L(2) dm(1) by linarith
      then have "4503599627370496 * (2 * h) < (q + 1) * (2 * h)"
        using dm(3) unfolding distrib_right by linarith
      then have "4503599627370496 < q + 1"
        using h by (metis mult_less_cancel_right_pos mult_pos_pos zero_less_numeral)
      then show ?thesis by linarith
    qed simp
    have V0: "mag_val ?n = of_int q * (u * of_int (2 * h))"
      using mag_val_at [OF e'(1) dm(4) _ q2] q1 e'u by simp
    have V1: "mag_val (?n + 1) = of_int (q + 1) * (u * of_int (2 * h))"
    proof -
      have "mag_val ((e' + 1074) * 4503599627370496 + (q + 1)) = of_int (q + 1) * 2 powi e'"
        using e'(1) dm(4) q1 q2 by (intro mag_val_at) auto
      then show ?thesis unfolding e'u by (simp only: add.assoc)
    qed
    have n0: "0 \<le> ?n" using e'(1) dm(4) by simp
    have id: "2 * r = mag_val ?n + mag_val (?n + 1) + 2 * (u * (of_int rr + d - of_int h))"
      unfolding V0 V1 r by (subst dm(1)) (simp add: algebra_simps)
    have ge: "mag_val ?n \<le> r" and lt: "r < mag_val (?n + 1)"
    proof -
      have "r = of_int q * (u * of_int (2 * h)) + u * (of_int rr + d)"
        unfolding r by (subst dm(1)) (simp add: algebra_simps)
      moreover have "0 \<le> u * (of_int rr + d)" using u dm d by simp
      moreover have "of_int rr + d < of_int (2 * h)" using dm(3) d by linarith
      then have "u * (of_int rr + d) < u * of_int (2 * h)" using u by simp
      ultimately show "mag_val ?n \<le> r" "r < mag_val (?n + 1)"
        unfolding V0 V1 by (simp_all add: algebra_simps)
    qed
    have par: "even ?n \<longleftrightarrow> even q" by simp
    let ?up = "h < rr \<or> (rr = h \<and> (st \<or> odd q))"
    have res: "rnd_mag m e st = ?n + (if ?up then 1 else 0)"
      using False unfolding rnd_mag_def Let_def L_def [symmetric] e'_def [symmetric] k_def [symmetric]
        j_def [symmetric] h_def [symmetric] q_def [symmetric] rr_def [symmetric] by simp
    show ?thesis
    proof (cases ?up)
      case up: True
      then have hr: "of_int h \<le> (of_int rr :: real)" by auto
      then have "0 \<le> of_int rr + d - of_int h" using d by linarith
      then have a: "0 \<le> u * (of_int rr + d - of_int h)" using u by simp
      have b: "2 * (u * (of_int rr + d - of_int h)) = 0 \<longrightarrow> odd ?n"
      proof
        assume "2 * (u * (of_int rr + d - of_int h)) = 0"
        with u have z: "of_int rr + d - of_int h = 0" by simp
        with hr d have "d = 0" "of_int rr = (of_int h :: real)" by linarith+
        then have "rr = h" "\<not> st" using std by simp_all
        then show "odd ?n" using up by simp
      qed
      show ?thesis unfolding res if_P [OF up]
        by (rule rne_upI [OF n0 id _ b lt]) (use a in simp)
    next
      case down: False
      have hr: "rr = h \<and> \<not> st \<and> even q \<or> rr + 1 \<le> h" using down by linarith
      have hr': "rr + 1 \<le> h \<Longrightarrow> of_int rr + 1 \<le> (of_int h :: real)"
        using of_int_le_iff [where 'a = real, of "rr + 1" h] by simp
      have s: "of_int rr + d - of_int h \<le> 0"
        using hr
      proof
        assume "rr = h \<and> \<not> st \<and> even q" then show ?thesis using std by simp
      next
        assume "rr + 1 \<le> h" then show ?thesis using hr' d by linarith
      qed
      have a: "u * (of_int rr + d - of_int h) \<le> 0"
        using u s by (simp add: mult_nonneg_nonpos)
      have b: "2 * (u * (of_int rr + d - of_int h)) = 0 \<longrightarrow> even ?n"
      proof
        assume "2 * (u * (of_int rr + d - of_int h)) = 0"
        with u have "of_int rr + d - of_int h = 0" by simp
        then have "\<not> rr + 1 \<le> h" using hr' d by linarith
        then show "even ?n" using hr by simp
      qed
      show ?thesis unfolding res if_not_P [OF down] add_0_right
        by (rule rne_downI [OF n0 id _ b ge]) (use a in simp)
    qed
  qed
qed


subsection \<open>Correctly rounded floats\<close>

definition rounds_to :: "real \<Rightarrow> f64 \<Rightarrow> bool" where
  "rounds_to r z \<longleftrightarrow> (\<exists>n. rne \<bar>r\<bar> n \<and> f_mag z = min inf_mag n) \<and>
     (r < 0 \<longrightarrow> f_sign z) \<and> (0 < r \<longrightarrow> \<not> f_sign z)"

lemma rounds_to_not_nan: "rounds_to r z \<Longrightarrow> \<not> is_nan z"
  by (auto simp: rounds_to_def is_nan_def)

lemma rounds_to_mono:
  assumes "rounds_to r z" "rounds_to r' z'" "r \<le> r'"
  shows "f_key z \<le> f_key z'"
proof -
  obtain n where n: "rne \<bar>r\<bar> n" "f_mag z = min inf_mag n" and zs: "r < 0 \<longrightarrow> f_sign z" "0 < r \<longrightarrow> \<not> f_sign z"
    using assms(1) by (auto simp: rounds_to_def)
  obtain n' where n': "rne \<bar>r'\<bar> n'" "f_mag z' = min inf_mag n'"
    and zs': "r' < 0 \<longrightarrow> f_sign z'" "0 < r' \<longrightarrow> \<not> f_sign z'"
    using assms(2) by (auto simp: rounds_to_def)
  have nn: "0 \<le> f_mag z" "0 \<le> f_mag z'" by simp_all
  have inf: "0 < inf_mag" by (simp add: inf_mag_def)
  consider (pos) "0 < r" | (neg) "r' < 0" | (mid) "r \<le> 0" "0 \<le> r'" by linarith
  then show ?thesis
  proof cases
    case pos
    then have "n \<le> n'" using rne_mono [OF n(1) n'(1)] assms(3) by simp
    then show ?thesis using pos zs zs' assms(3) n n' by (simp add: f_key_def)
  next
    case neg
    then have "n' \<le> n" using rne_mono [OF n'(1) n(1)] assms(3) by simp
    then show ?thesis using neg zs zs' assms(3) n n' by (simp add: f_key_def)
  next
    case mid
    have "f_key z \<le> 0"
    proof (cases "r = 0")
      case True
      then show ?thesis using n rne_0 [of n] inf by (simp add: f_key_def)
    next
      case False
      then show ?thesis using mid zs nn by (simp add: f_key_def)
    qed
    moreover have "0 \<le> f_key z'"
    proof (cases "r' = 0")
      case True
      then show ?thesis using n' rne_0 [of n'] inf by (simp add: f_key_def)
    next
      case False
      then show ?thesis using mid zs' nn by (simp add: f_key_def)
    qed
    ultimately show ?thesis by linarith
  qed
qed

lemma rounds_to_fval: "is_finite x \<Longrightarrow> rounds_to (fval x) x"
  using mag_val_nonneg [of "f_mag x"] rne_mag_val [of "f_mag x"]
  by (auto simp: rounds_to_def fval_def is_finite_def min_def intro!: exI [of _ "f_mag x"])

lemma rounds_to_le:
  "rounds_to r z \<Longrightarrow> is_finite x \<Longrightarrow> r \<le> fval x \<Longrightarrow> z \<le> x"
  using rounds_to_mono [of r z "fval x" x]
  by (simp add: rounds_to_fval rounds_to_not_nan less_eq_f64_def)

lemma rounds_to_ge:
  "rounds_to r z \<Longrightarrow> is_finite x \<Longrightarrow> fval x \<le> r \<Longrightarrow> x \<le> z"
  using rounds_to_mono [of "fval x" x r z]
  by (simp add: rounds_to_fval rounds_to_not_nan less_eq_f64_def)

lemma rounds_to_le_le:
  "rounds_to r z \<Longrightarrow> rounds_to r' z' \<Longrightarrow> r \<le> r' \<Longrightarrow> z \<le> z'"
  using rounds_to_mono [of r z r' z'] by (simp add: rounds_to_not_nan less_eq_f64_def)

text \<open>A result between two finite floats is finite.\<close>

lemma rounds_to_finite:
  "rounds_to r z \<Longrightarrow> is_finite a \<Longrightarrow> is_finite b \<Longrightarrow> fval a \<le> r \<Longrightarrow> r \<le> fval b \<Longrightarrow> is_finite z"
  using f_between_finite rounds_to_ge rounds_to_le by blast

lemma rounds_to_rnd_f64:
  assumes m: "0 < m" and lo: "of_int m * 2 powi e \<le> \<bar>r\<bar>" and hi: "\<bar>r\<bar> < of_int (m + 1) * 2 powi e"
    and st: "st \<longleftrightarrow> \<bar>r\<bar> \<noteq> of_int m * 2 powi e" and big: "st \<Longrightarrow> 9007199254740992 \<le> m"
    and s: "s \<longleftrightarrow> r < 0"
  shows "rounds_to r (rnd_f64 s m e st)"
proof -
  have n: "rne \<bar>r\<bar> (rnd_mag m e st)" by (rule rnd_mag_rne [OF m lo hi st big])
  have "0 \<le> rnd_mag m e st" using n by (simp add: rne_def)
  then have "0 \<le> min inf_mag (rnd_mag m e st)" "min inf_mag (rnd_mag m e st) < 9223372036854775808"
    by (simp_all add: inf_mag_def)
  then show ?thesis
    using n m s unfolding rounds_to_def rnd_f64_def
    by (auto simp: f_mag_mk f_sign_mk)
qed

lemma rounds_to_0: "rounds_to 0 (mk_f64 s 0)"
  using rne_mag_val [of 0] by (auto simp: rounds_to_def f_mag_mk inf_mag_def intro!: exI [of _ 0])

subsection \<open>The operations\<close>

text \<open>The real value of an unpacked finite float.\<close>

definition vreal :: "bool \<Rightarrow> int \<Rightarrow> int \<Rightarrow> real" where
  "vreal s m e = of_int (if s then - m else m) * 2 powi e"

lemma unpack_fval:
  assumes "is_finite x"
  obtains s m e where "unpack x = VFin s m e" "fval x = vreal s m e" "0 \<le> m"
    "m < 9007199254740992" "- 1074 \<le> e" "s = f_sign x" "m = 0 \<longleftrightarrow> fval x = 0"
proof -
  have v: "fval x = vreal (f_sign x) (mag_man (f_mag x)) (mag_exp (f_mag x) - 1075)"
    by (simp add: fval_def vreal_def mag_val_def)
  then have "mag_man (f_mag x) = 0 \<longleftrightarrow> fval x = 0" by (simp add: vreal_def)
  with v show ?thesis
    using that [OF unpack_finite [OF assms]] mag_parts(2-4) [OF f_mag_range(1) [of x]] by blast
qed

lemma rounds_to_exact:
  assumes "0 \<le> m" shows "rounds_to (vreal s m e) (rnd_f64 s m e False)"
proof (cases "m = 0")
  case True
  then show ?thesis by (simp add: vreal_def rnd_f64_def rounds_to_0)
next
  case False
  with assms have "0 < m" by simp
  moreover have "\<bar>vreal s m e\<bar> = of_int m * 2 powi e"
    using assms by (simp add: vreal_def abs_mult)
  moreover have "s \<longleftrightarrow> vreal s m e < 0"
    using \<open>0 < m\<close> zero_less_power_int [of "2::real" e] by (simp add: vreal_def mult_less_0_iff not_less)
  ultimately show ?thesis
    by (intro rounds_to_rnd_f64) (simp_all add: mult_strict_right_mono)
qed

lemma rounds_to_add_view:
  assumes "0 \<le> m" "0 \<le> m'"
  shows "rounds_to (vreal s m e + vreal s' m' e') (add_view (VFin s m e) (VFin s' m' e'))"
proof -
  define d where "d = min e e'"
  define v where "v = (if s then - m else m) * 2 ^ nat (e - d) + (if s' then - m' else m') * 2 ^ nat (e' - d)"
  have ed: "2 powi e = (2 ^ nat (e - d)) * (2 powi d :: real)" "2 powi e' = (2 ^ nat (e' - d)) * (2 powi d :: real)"
    by (simp_all add: d_def flip: power_int_of_nat power_int_add)
  have r: "vreal s m e + vreal s' m' e' = of_int v * 2 powi d"
    unfolding vreal_def v_def ed by (simp add: algebra_simps)
  show ?thesis
  proof (cases "v = 0")
    case True
    then show ?thesis
      unfolding r add_view.simps Let_def d_def [symmetric] v_def [symmetric]
      by (simp add: rounds_to_0)
  next
    case False
    have "of_int v * 2 powi d = vreal (v < 0) \<bar>v\<bar> d" by (simp add: vreal_def)
    then show ?thesis
      unfolding r add_view.simps Let_def d_def [symmetric] v_def [symmetric]
      using False rounds_to_exact [of "\<bar>v\<bar>" "v < 0" d] by simp
  qed
qed

lemma rounds_to_plus:
  assumes "is_finite x" "is_finite y" shows "rounds_to (fval x + fval y) (x + y)"
proof -
  obtain s m e where x: "unpack x = VFin s m e" "fval x = vreal s m e" "0 \<le> m"
    using unpack_fval [OF assms(1)] by metis
  obtain s' m' e' where y: "unpack y = VFin s' m' e'" "fval y = vreal s' m' e'" "0 \<le> m'"
    using unpack_fval [OF assms(2)] by metis
  show ?thesis unfolding plus_f64_def x(1,2) y(1,2) by (rule rounds_to_add_view [OF x(3) y(3)])
qed

lemma rounds_to_minus:
  assumes "is_finite x" "is_finite y" shows "rounds_to (fval x - fval y) (x - y)"
proof -
  obtain s m e where x: "unpack x = VFin s m e" "fval x = vreal s m e" "0 \<le> m"
    using unpack_fval [OF assms(1)] by metis
  obtain s' m' e' where y: "unpack y = VFin s' m' e'" "fval y = vreal s' m' e'" "0 \<le> m'"
    using unpack_fval [OF assms(2)] by metis
  have "fval x - fval y = vreal s m e + vreal (\<not> s') m' e'"
    by (simp add: x(2) y(2) vreal_def)
  then show ?thesis
    unfolding minus_f64_def x(1) y(1) neg_view.simps by (simp only: rounds_to_add_view [OF x(3) y(3)])
qed

lemma rounds_to_times:
  assumes "is_finite x" "is_finite y" shows "rounds_to (fval x * fval y) (x * y)"
proof -
  obtain s m e where x: "unpack x = VFin s m e" "fval x = vreal s m e" "0 \<le> m"
    using unpack_fval [OF assms(1)] by metis
  obtain s' m' e' where y: "unpack y = VFin s' m' e'" "fval y = vreal s' m' e'" "0 \<le> m'"
    using unpack_fval [OF assms(2)] by metis
  have "fval x * fval y = vreal (s \<noteq> s') (m * m') (e + e')"
    by (simp add: x(2) y(2) vreal_def power_int_add)
  then show ?thesis
    unfolding times_f64_def x(1) y(1) mul_view.simps
    using x(3) y(3) by (simp only: rounds_to_exact mult_nonneg_nonneg)
qed


lemma rounds_to_div:
  assumes "is_finite x" "is_finite y" "fval y \<noteq> 0" shows "rounds_to (fval x / fval y) (x / y)"
proof -
  obtain s m e where x: "unpack x = VFin s m e" "fval x = vreal s m e" "0 \<le> m"
    "m < 9007199254740992" "m = 0 \<longleftrightarrow> fval x = 0"
    using unpack_fval [OF assms(1)] by metis
  obtain s' m' e' where y: "unpack y = VFin s' m' e'" "fval y = vreal s' m' e'" "0 \<le> m'"
    "m' < 9007199254740992" "m' = 0 \<longleftrightarrow> fval y = 0"
    using unpack_fval [OF assms(2)] by metis
  from y(3,5) assms(3) have m': "0 < m'" by simp
  define N where "N = m * 1298074214633706907132624082305024"
  define q where "q = N div m'"
  define c where "c = (2::real) powi (e - e' - 110)"
  have c: "0 < c" by (simp add: c_def)
  have res: "x / y = rnd_f64 (s \<noteq> s') q (e - e' - 110) (N mod m' \<noteq> 0)"
    unfolding divide_f64_def x(1) y(1) q_def N_def using m' by (simp add: Let_def)
  show ?thesis
  proof (cases "m = 0")
    case True
    then show ?thesis unfolding res using x(5) by (simp add: q_def N_def rnd_f64_def rounds_to_0)
  next
    case False
    with x(3) have m: "0 < m" by simp
    have N: "N = m' * q + N mod m'" by (simp add: q_def)
    have md: "0 \<le> N mod m'" "N mod m' < m'" using m' by simp_all
    have q_big: "9007199254740992 \<le> q"
    proof -
      have "9007199254740992 * m' \<le> 9007199254740992 * 9007199254740992" using y(4) by simp
      also have "\<dots> \<le> N" using m by (simp add: N_def)
      finally have "9007199254740992 * m' div m' \<le> q" unfolding q_def using m' by (intro zdiv_mono1)
      then show ?thesis using m' by simp
    qed
    have p110: "(2::real) powi 110 = 1298074214633706907132624082305024" by simp
    have "\<bar>fval x / fval y\<bar> = of_int m * 2 powi e / (of_int m' * 2 powi e')"
      unfolding x(2) y(2) vreal_def using m m' by (simp add: abs_mult)
    also have "\<dots> = of_int N * c / of_int m'"
      unfolding N_def c_def power_int_diff [of "2::real", simplified] of_int_mult by simp
    finally have r: "\<bar>fval x / fval y\<bar> = of_int N * c / of_int m'" .
    have Nr: "of_int N = of_int m' * of_int q + (of_int (N mod m') :: real)"
      using N by (metis of_int_add of_int_mult)
    have mr: "0 < (of_int m' :: real)" using m' by simp
    have lo: "of_int q * c \<le> \<bar>fval x / fval y\<bar>"
      unfolding r pos_le_divide_eq [OF mr] Nr using md(1) c by (simp add: algebra_simps)
    have "of_int (N mod m') * c < of_int m' * c" using md(2) c by simp
    then have hi: "\<bar>fval x / fval y\<bar> < of_int (q + 1) * c"
      unfolding r pos_divide_less_eq [OF mr] Nr by (simp add: algebra_simps)
    have st: "N mod m' \<noteq> 0 \<longleftrightarrow> \<bar>fval x / fval y\<bar> \<noteq> of_int q * c"
      unfolding r using mr c Nr by (simp add: field_simps)
    have sg: "(s \<noteq> s') \<longleftrightarrow> fval x / fval y < 0"
    proof -
      have pos: "0 < of_int m * (2::real) powi e" "0 < of_int m' * (2::real) powi e'"
        using m m' by simp_all
      have *: "fval x = (if s then - (of_int m * 2 powi e) else of_int m * 2 powi e)"
        "fval y = (if s' then - (of_int m' * 2 powi e') else of_int m' * 2 powi e')"
        by (simp_all add: x(2) y(2) vreal_def)
      show ?thesis using pos unfolding * divide_less_0_iff by auto
    qed
    show ?thesis unfolding res
      by (rule rounds_to_rnd_f64 [OF _ lo [unfolded c_def] hi [unfolded c_def] st [unfolded c_def] q_big sg])
        (use q_big in linarith)
  qed
qed

lemma isqrt_rem:
  "0 \<le> n \<Longrightarrow> fst (isqrt_rem n) * fst (isqrt_rem n) + snd (isqrt_rem n) = n \<and>
     0 \<le> fst (isqrt_rem n) \<and> 0 \<le> snd (isqrt_rem n) \<and> snd (isqrt_rem n) \<le> 2 * fst (isqrt_rem n)"
proof (induction n rule: isqrt_rem.induct)
  case (1 n)
  show ?case
  proof (cases "n = 0")
    case True
    then show ?thesis by (simp add: isqrt_rem.simps)
  next
    case False
    with 1 have n: "0 < n" by simp
    obtain r m where rm: "isqrt_rem (n div 4) = (r, m)" by fastforce
    have IH: "r * r + m = n div 4" "0 \<le> r" "0 \<le> m" "m \<le> 2 * r"
      using 1(1) n rm by auto
    have n4: "n = 4 * (r * r) + 4 * m + n mod 4" "0 \<le> n mod 4" "n mod 4 < 4"
      using IH(1) mult_div_mod_eq [of 4 n] by linarith+ 
    have sq: "(2 * r + 1) * (2 * r + 1) = 4 * (r * r) + (4 * r + 1)" "(2 * r) * (2 * r) = 4 * (r * r)"
      by (simp_all add: algebra_simps)
    obtain x where x: "n mod 4 = x" by simp
    then have x3: "x \<le> 3" using n4(3) by simp
    have eq: "isqrt_rem n = (if 4 * r + 1 \<le> 4 * m + n mod 4
        then (2 * r + 1, 4 * m + n mod 4 - (4 * r + 1)) else (2 * r, 4 * m + n mod 4))"
      using n by (subst isqrt_rem.simps) (simp add: rm Let_def not_le)
    show ?thesis
    proof (cases "4 * r + 1 \<le> 4 * m + n mod 4")
      case True
      show ?thesis unfolding eq if_P [OF True] fst_conv snd_conv sq
        using n4(1) True x3 IH(2-4) n4(2) unfolding x by (intro conjI; (simp; fail | arith))
    next
      case False
      show ?thesis unfolding eq if_not_P [OF False] fst_conv snd_conv sq
        using n4(1) False x3 IH(2-4) n4(2) unfolding x by (intro conjI; (simp; fail | arith))
    qed
  qed
qed

lemma rounds_to_sqrt:
  assumes "is_finite x" "0 \<le> fval x" shows "rounds_to (sqrt (fval x)) (f_sqrt x)"
proof -
  obtain s m e where x: "unpack x = VFin s m e" "fval x = vreal s m e" "0 \<le> m"
    "m < 9007199254740992" "m = 0 \<longleftrightarrow> fval x = 0"
    using unpack_fval [OF assms(1)] by metis
  show ?thesis
  proof (cases "m = 0")
    case True
    then show ?thesis using x by (simp add: f_sqrt_def rounds_to_0)
  next
    case False
    with x(3) have m: "0 < m" by simp
    have s: "\<not> s"
    proof
      assume s
      then have "fval x = - (of_int m * 2 powi e)" by (simp add: x(2) vreal_def)
      moreover have "0 < of_int m * (2::real) powi e" using m by simp
      ultimately show False using assms(2) by linarith
    qed
    define k where "k = 110 - bitlen m"
    define k' where "k' = k + (e + k) mod 2"
    define N where "N = m * 2 ^ nat k'"
    obtain r d where rd: "isqrt_rem N = (r, d)" by fastforce
    have L: "1 \<le> bitlen m" "2 ^ nat (bitlen m - 1) \<le> m" using bitlen_bounds [OF m] by auto
    have "bitlen m \<le> 53"
    proof (rule ccontr)
      assume "\<not> bitlen m \<le> 53"
      then have "53 \<le> nat (bitlen m - 1)" by arith
      then have "(2::int) ^ 53 \<le> 2 ^ nat (bitlen m - 1)" by (intro power_increasing) auto
      then show False using L(2) x(4) by simp
    qed
    then have k: "57 \<le> k" "k \<le> k'" "109 \<le> nat k' + nat (bitlen m - 1)"
      using L(1) by (auto simp: k_def k'_def nat_add_distrib [symmetric])
    have N: "0 < N" "2 ^ 109 \<le> N"
    proof -
      show "0 < N" using m by (simp add: N_def)
      have "(2::int) ^ 109 \<le> 2 ^ (nat k' + nat (bitlen m - 1))" using k(3) by (intro power_increasing) auto
      also have "\<dots> \<le> N" using L(2) by (simp add: N_def power_add)
      finally show "2 ^ 109 \<le> N" .
    qed
    have r: "r * r + d = N" "0 \<le> r" "0 \<le> d" "d \<le> 2 * r"
      using isqrt_rem [of N] N(1) rd by simp_all
    have r_big: "9007199254740992 \<le> r"
    proof (rule ccontr)
      assume "\<not> 9007199254740992 \<le> r"
      then have "r * r \<le> 9007199254740992 * 9007199254740992" using r(2) by (intro mult_mono) auto
      then show False using N(2) r \<open>\<not> 9007199254740992 \<le> r\<close> by simp
    qed
    have ev: "2 * ((e - k') div 2) = e - k'"
    proof -
      have "(e - k') mod 2 = 0"
        unfolding k'_def by presburger
      then show ?thesis by presburger
    qed
    define c where "c = (2::real) powi ((e - k') div 2)"
    have c: "0 < c" by (simp add: c_def)
    have cc: "c * c = 2 powi (e - k')"
      unfolding c_def by (metis ev mult_2 power_int_add zero_neq_numeral)
    have "of_int N * (c * c) = of_int m * (2 powi int (nat k') * 2 powi (e - k'))"
      unfolding cc N_def by (simp only: of_int_mult of_int_power of_int_numeral power_int_of_nat mult.assoc)
    also have "2 powi int (nat k') * 2 powi (e - k') = (2 powi e :: real)"
      using k(1,2) by (simp flip: power_int_add)
    also have "of_int m * 2 powi e = fval x" using s by (simp add: x(2) vreal_def)
    finally have v: "fval x = of_int N * (c * c)" by simp
    have res: "f_sqrt x = rnd_f64 False r ((e - k') div 2) (d \<noteq> 0)"
      unfolding f_sqrt_def x(1) using m s rd
      by (simp add: k_def [symmetric] k'_def [symmetric] N_def [symmetric] Let_def)
    have Nr: "of_int N = of_int r * of_int r + (of_int d :: real)"
      using r(1) by (metis of_int_add of_int_mult)
    have rr: "0 \<le> (of_int r :: real)" "0 \<le> (of_int d :: real)" "of_int d \<le> 2 * (of_int r :: real)"
      using r(2-4) by simp_all
    have sq: "0 \<le> sqrt (fval x)" "sqrt (fval x) * sqrt (fval x) = fval x" using assms(2) by simp_all
    have lo: "of_int r * c \<le> sqrt (fval x)"
    proof (rule real_le_rsqrt)
      have "(of_int r * c)\<^sup>2 = of_int r * of_int r * (c * c)" by (simp add: power2_eq_square)
      also have "\<dots> \<le> of_int N * (c * c)" unfolding Nr using rr(2) c by (intro mult_right_mono) auto
      finally show "(of_int r * c)\<^sup>2 \<le> fval x" unfolding v .
    qed
    have hi: "sqrt (fval x) < of_int (r + 1) * c"
    proof (rule real_less_lsqrt)
      have "of_int N * (c * c) < ((of_int r + 1) * (of_int r + 1)) * (c * c)"
        unfolding Nr using rr c by (intro mult_strict_right_mono) (simp_all add: algebra_simps)
      also have "\<dots> = (of_int (r + 1) * c)\<^sup>2" by (simp add: power2_eq_square)
      finally show "fval x < (of_int (r + 1) * c)\<^sup>2" unfolding v .
    qed (use rr c in simp)
    have st: "d \<noteq> 0 \<longleftrightarrow> sqrt (fval x) \<noteq> of_int r * c"
    proof -
      have "sqrt (fval x) = of_int r * c \<longleftrightarrow> fval x = (of_int r * c) * (of_int r * c)"
        using sq rr(1) c by (metis real_sqrt_mult_self real_sqrt_unique abs_of_nonneg less_imp_le mult_nonneg_nonneg power2_eq_square)
      also have "\<dots> \<longleftrightarrow> d = 0"
        unfolding v Nr using c by (simp add: algebra_simps)
      finally show ?thesis by simp
    qed
    have ab: "\<bar>sqrt (fval x)\<bar> = sqrt (fval x)" using sq(1) by simp
    show ?thesis unfolding res
      by (rule rounds_to_rnd_f64 [where r = "sqrt (fval x)", unfolded ab,
            OF _ lo [unfolded c_def] hi [unfolded c_def] st [unfolded c_def] r_big])
        (use r_big sq(1) in \<open>simp_all add: not_less\<close>)
  qed
qed

lemma rounds_to_of_int:
  assumes "0 \<le> n" shows "rounds_to (of_int n) (f_of_int n)"
  using rounds_to_exact [OF assms, of False 0] by (simp add: f_of_int_def vreal_def)

subsection \<open>Leashed steps\<close>

text \<open>Neighbouring magnitudes at or above the smallest normal number differ by at most \<open>2^-52\<close> of the lower.\<close>

lemma mag_val_step:
  assumes "4503599627370496 \<le> n" shows "mag_val (n + 1) \<le> mag_val n * (1 + 1 / 4503599627370496)"
proof -
  have n0: "0 \<le> n" using assms by simp
  define u :: real where "u = 2 powi (mag_exp n - 1075)"
  have u: "0 < u" by (simp add: u_def)
  have "4503599627370496 \<le> mag_man n"
  proof -
    have "1 \<le> n div 4503599627370496" using assms by (simp add: pos_imp_zdiv_pos_iff int_one_le_iff_zero_less)
    then have "mag_exp n = n div 4503599627370496" by (simp add: mag_exp_def)
    then have "mag_man n = n mod 4503599627370496 + 4503599627370496"
      unfolding mag_man_def using div_mult_mod_eq [of n 4503599627370496] by (simp add: algebra_simps)
    then show ?thesis by simp
  qed
  then have "4503599627370496 * u \<le> of_int (mag_man n) * u" using u by simp
  then have "u \<le> mag_val n / 4503599627370496" by (simp add: mag_val_def u_def)
  then show ?thesis unfolding mag_val_succ [OF n0] u_def [symmetric] by (simp add: algebra_simps)
qed

text \<open>Rounding up adds at most \<open>2^-52\<close> of the exact value, above the subnormal range.\<close>

lemma rne_rel:
  assumes "rne r n" "4503599627370496 < n" shows "mag_val n \<le> r * (1 + 1 / 4503599627370496)"
proof -
  have "mag_val (n - 1) + mag_val n \<le> 2 * r" using assms by (simp add: rne_def)
  moreover have "mag_val (n - 1) < mag_val n" using assms(2) by (intro mag_val_strict_mono) auto
  ultimately have "mag_val (n - 1) \<le> r" by linarith
  moreover have "mag_val n \<le> mag_val (n - 1) * (1 + 1 / 4503599627370496)"
    using mag_val_step [of "n - 1"] assms(2) by simp
  ultimately show ?thesis by (simp add: field_simps)
qed

lemma rne_pred: "rne r n \<Longrightarrow> 0 < n \<Longrightarrow> mag_val (n - 1) \<le> r"
  using mag_val_strict_mono [of "n - 1" n] by (simp add: rne_def)

lemma mag_val_sub: "0 \<le> n \<Longrightarrow> n \<le> 9007199254740992 \<Longrightarrow> mag_val n = of_int n * 2 powi (- 1074)"
  using mag_val_at [of "- 1074" n] by simp

text \<open>In the range where the grid has its finest spacing, its multiples are exact.\<close>

lemma rne_fine:
  assumes "rne r n" "0 \<le> r" "n < 9007199254740992" "r = of_int j * 2 powi (- 1074)" shows "mag_val n = r"
proof -
  define u :: real where "u = 2 powi (- 1074)"
  have u: "0 < u" by (simp add: u_def)
  have n: "0 \<le> n" using assms(1) by (simp add: rne_def)
  have V: "mag_val n = of_int n * u" "mag_val (n + 1) = of_int (n + 1) * u"
    unfolding u_def using n assms(3) by (intro mag_val_sub; linarith)+
  have "2 * (of_int j * u) \<le> of_int n * u + of_int (n + 1) * u"
    using assms(1) unfolding rne_def assms(4) u_def [symmetric] V by simp
  then have "(2 * of_int j) * u \<le> of_int (2 * n + 1) * u" by (simp add: algebra_simps)
  then have "of_int (2 * j) \<le> (of_int (2 * n + 1) :: real)" using u by simp
  then have "2 * j \<le> 2 * n + 1" by (simp only: of_int_le_iff)
  then have 1: "j \<le> n" by presburger
  have 2: "n \<le> j"
  proof (cases "n = 0")
    case True
    have "0 \<le> j"
      using assms(2) u unfolding assms(4) u_def [symmetric] by (simp add: zero_le_mult_iff)
    then show ?thesis using True by simp
  next
    case False
    then have n1: "0 < n" using n by simp
    have V': "mag_val (n - 1) = of_int (n - 1) * u"
      unfolding u_def using n1 assms(3) by (intro mag_val_sub) linarith+
    have "of_int (n - 1) * u + of_int n * u \<le> 2 * (of_int j * u)"
      using assms(1) n1 unfolding rne_def assms(4) u_def [symmetric] V(1) V' by simp
    then have "of_int (2 * n - 1) * u \<le> (2 * of_int j) * u" by (simp add: algebra_simps)
    then have "of_int (2 * n - 1) \<le> (of_int (2 * j) :: real)" using u by simp
    then have "2 * n - 1 \<le> 2 * j" by (simp only: of_int_le_iff)
    then show ?thesis by presburger
  qed
  show ?thesis using 1 2 V(1) assms(4) by (simp add: u_def)
qed

lemma rne_mag_less: "rne r n \<Longrightarrow> rne (mag_val m) m' \<Longrightarrow> 0 \<le> m \<Longrightarrow> r \<le> mag_val m \<Longrightarrow> n \<le> m"
  using rne_mono [of r n "mag_val m" m] rne_mag_val [of m] by blast

text \<open>
  A difference \<open>D\<close> of floats, rounded to \<open>n\<close>, shrunk by a factor a little below one and rounded
  again to \<open>k\<close>, does not exceed \<open>D\<close>: the shrinking outweighs both roundings.
\<close>

lemma shrunk_rne:
  assumes D: "rne D n" "0 \<le> D" "D = of_int j * 2 powi (- 1074)"
    and k: "rne (mag_val n * s) k" and s: "0 \<le> s" "s \<le> 1 - 1 / 1099511627776"
  shows "mag_val k \<le> D"
proof -
  have n: "0 \<le> n" using D(1) by (simp add: rne_def)
  have Vn: "0 \<le> mag_val n" using n by (rule mag_val_nonneg)
  have kn: "k \<le> n"
    using s Vn by (intro rne_mono [OF k rne_mag_val [OF n]]) (simp add: mult_left_le)
  have k0: "0 \<le> k" using k by (simp add: rne_def)
  show ?thesis
  proof (cases "n < 9007199254740992")
    case True
    then have "mag_val n = D" using rne_fine D by blast
    then show ?thesis using kn mag_val_le_iff [OF k0 n] by simp
  next
    case False
    then have big: "4503599627370496 < n" by simp
    show ?thesis
    proof (cases "4503599627370496 < k")
      case True
      have "mag_val k \<le> mag_val n * s * (1 + 1 / 4503599627370496)" by (rule rne_rel [OF k True])
      also have "\<dots> \<le> (D * (1 + 1 / 4503599627370496)) * (1 - 1 / 1099511627776) * (1 + 1 / 4503599627370496)"
        using rne_rel [OF D(1) big] s D(2) by (intro mult_mono mult_nonneg_nonneg) auto
      also have "\<dots> = D * ((1 + 1 / 4503599627370496) * (1 - 1 / 1099511627776) * (1 + 1 / 4503599627370496))"
        by (simp only: mult.assoc)
      also have "\<dots> \<le> D * 1"
        using D(2) by (intro mult_left_mono) simp_all
      finally show ?thesis by simp
    next
      case False
      then have "k \<le> n - 1" using big by simp
      then have "mag_val k \<le> mag_val (n - 1)" using k0 big by (simp add: mag_val_le_iff)
      also have "\<dots> \<le> D" using big by (intro rne_pred [OF D(1)]) simp
      finally show ?thesis .
    qed
  qed
qed

lemma fval_grid:
  assumes "is_finite x" obtains j where "fval x = of_int j * 2 powi (- 1074)"
proof -
  obtain s m e where x: "fval x = vreal s m e" "- 1074 \<le> e" using unpack_fval [OF assms] by metis
  obtain k where "e + 1074 = int k" using x(2) nonneg_int_cases [of "e + 1074"] by auto
  then have "e = int k + (- 1074)" by simp
  then have "2 powi e = 2 ^ k * (2 powi (- 1074) :: real)"
    using power_int_add [of "2::real" "int k" "- 1074"] by (simp only: power_int_of_nat) auto
  then have "fval x = of_int ((if s then - m else m) * 2 ^ k) * 2 powi (- 1074)"
    unfolding x(1) vreal_def by (simp only: of_int_mult of_int_power of_int_numeral mult.assoc)
  then show ?thesis by (rule that)
qed

lemma rounds_to_finiteD:
  assumes "rounds_to r z" "is_finite z"
  shows "rne \<bar>r\<bar> (f_mag z)" "fval z = (if r < 0 then - mag_val (f_mag z) else mag_val (f_mag z))"
proof -
  obtain n where n: "rne \<bar>r\<bar> n" "f_mag z = min inf_mag n" using assms(1) by (auto simp: rounds_to_def)
  with assms(2) have mg: "f_mag z = n" by (simp add: is_finite_def min_def split: if_splits)
  then show "rne \<bar>r\<bar> (f_mag z)" using n by simp
  show "fval z = (if r < 0 then - mag_val (f_mag z) else mag_val (f_mag z))"
  proof (cases "r = 0")
    case True
    then have "f_mag z = 0" using n(1) mg rne_0 by simp
    then show ?thesis by (simp add: fval_def)
  next
    case False
    then show ?thesis using assms(1) by (auto simp: rounds_to_def fval_def)
  qed
qed

text \<open>
  The step of a leash: from \<open>q\<close> towards \<open>a\<close> by a factor \<open>s\<close> a little below one.  The result lies
  between \<open>q\<close> and \<open>a\<close>, rounding included.
\<close>

lemma fval_abs: "\<bar>fval z\<bar> = mag_val (f_mag z)"
  using mag_val_nonneg [of "f_mag z"] by (simp add: fval_def)

lemma leash_between:
  assumes q: "is_finite q" and a: "is_finite a" and d: "is_finite (a - q)"
    and s: "is_finite s" "0 \<le> fval s" "fval s \<le> 1 - 1 / 1099511627776"
    and lo: "is_finite lo" "lo \<le> q" "lo \<le> a" and hi: "is_finite hi" "q \<le> hi" "a \<le> hi"
  shows "lo \<le> q + (a - q) * s" and "q + (a - q) * s \<le> hi"
proof -
  let ?D = "fval a - fval q" and ?x = "(a - q) * s"
  have rd: "rounds_to ?D (a - q)" by (rule rounds_to_minus [OF a q])
  note dd = rounds_to_finiteD [OF rd d]
  have rx: "rounds_to (fval (a - q) * fval s) ?x" by (rule rounds_to_times [OF d s(1)])
  have abs_le: "\<bar>fval (a - q) * fval s\<bar> \<le> \<bar>fval (a - q)\<bar>"
    using s(2,3) by (simp add: abs_mult mult_left_le)
  have x: "is_finite ?x"
  proof -
    obtain k where k: "rne \<bar>fval (a - q) * fval s\<bar> k" "f_mag ?x = min inf_mag k"
      using rx by (auto simp: rounds_to_def)
    have "k \<le> f_mag (a - q)"
      using rne_mono [OF k(1) rne_mag_val [OF f_mag_range(1) [of "a - q"]]] abs_le by (simp add: fval_abs)
    then show ?thesis using k(2) d by (simp add: is_finite_def)
  qed
  note xx = rounds_to_finiteD [OF rx x]
  obtain j j' where j: "fval a = of_int j * 2 powi (- 1074)" "fval q = of_int j' * 2 powi (- 1074)"
    using fval_grid [OF a] fval_grid [OF q] by metis
  have "\<bar>?D\<bar> = of_int \<bar>j - j'\<bar> * 2 powi (- 1074)"
  proof -
    define u :: real where "u = 2 powi (- 1074)"
    have "0 < u" by (simp add: u_def)
    then show ?thesis unfolding j u_def [symmetric]
      by (simp add: abs_mult flip: left_diff_distrib)
  qed
  note grid = this
  have "rne (mag_val (f_mag (a - q)) * fval s) (f_mag ?x)"
    using xx(1) unfolding abs_mult fval_abs [of "a - q"] abs_of_nonneg [OF s(2)] .
  then have bound: "\<bar>fval ?x\<bar> \<le> \<bar>?D\<bar>"
    unfolding fval_abs [of ?x] by (rule shrunk_rne [OF dd(1) abs_ge_zero grid _ s(2,3)])
  have sg: "0 \<le> ?D \<Longrightarrow> 0 \<le> fval ?x" "?D \<le> 0 \<Longrightarrow> fval ?x \<le> 0"
  proof -
    have m: "0 \<le> mag_val (f_mag ?x)" "0 \<le> mag_val (f_mag (a - q))" by (simp_all add: mag_val_nonneg)
    show "0 \<le> fval ?x" if "0 \<le> ?D"
    proof -
      have "0 \<le> fval (a - q) * fval s" using dd(2) that m s(2) by simp
      then show ?thesis using xx(2) m by simp
    qed
    show "fval ?x \<le> 0" if "?D \<le> 0"
    proof (cases "?D = 0")
      case True
      then show ?thesis using bound by simp
    next
      case False
      then have "fval (a - q) * fval s \<le> 0" using dd(2) that m s(2) by (simp add: mult_nonpos_nonneg)
      then show ?thesis
      proof (cases "fval (a - q) * fval s = 0")
        case True
        then have "f_mag ?x = 0" using xx(1) rne_0 [of "f_mag ?x"] unfolding True abs_zero by simp
        then show ?thesis by (simp add: fval_def)
      next
        case False
        then show ?thesis using \<open>fval (a - q) * fval s \<le> 0\<close> xx(2) m by simp
      qed
    qed
  qed
  have rs: "rounds_to (fval q + fval ?x) (q + ?x)" by (rule rounds_to_plus [OF q x])
  have b: "fval lo \<le> fval q" "fval lo \<le> fval a" "fval q \<le> fval hi" "fval a \<le> fval hi"
    using lo hi q a by (simp_all add: f_le_fval)
  have "fval lo \<le> fval q + fval ?x \<and> fval q + fval ?x \<le> fval hi"
  proof (cases "0 \<le> ?D")
    case True
    then show ?thesis using sg(1) [OF True] bound b by linarith
  next
    case False
    then show ?thesis using sg(2) bound b by linarith
  qed
  then show "lo \<le> q + ?x" "q + ?x \<le> hi"
    using rounds_to_ge [OF rs lo(1)] rounds_to_le [OF rs hi(1)] by simp_all
qed


end
