(* ===== verification/Fmath.thy ===== *)
theory Fmath
  imports Rounding
begin

text \<open>
  \<open>lictor-core/src/fmath.rs\<close>: the only float helpers allowed on the decision path.  The two
  accumulation loops run left to right over the first \<open>n\<close> entries, as a \<open>foldl\<close> does; the source
  indexes its slices, so \<open>n\<close> is at most their lengths (every caller passes a length it derived
  from them).  The lemmas say what the comparisons return on values that are not NaN, that a clamp
  lands in its interval, and that the norm of finite entries is a nonnegative float or infinity,
  never a NaN.
\<close>

subsection \<open>The helpers\<close>

definition fmath_sqrt :: "f64 \<Rightarrow> f64" where
  "fmath_sqrt x = f_sqrt x"

definition fmath_abs :: "f64 \<Rightarrow> f64" where
  "fmath_abs x = F64 (to_bits x AND NOT (push_bit 63 1))"

definition fmath_min :: "f64 \<Rightarrow> f64 \<Rightarrow> f64" where
  "fmath_min a b = (if a < b then a else b)"

definition fmath_max :: "f64 \<Rightarrow> f64 \<Rightarrow> f64" where
  "fmath_max a b = (if a > b then a else b)"

definition fmath_clamp :: "f64 \<Rightarrow> f64 \<Rightarrow> f64 \<Rightarrow> f64" where
  "fmath_clamp x lo hi = fmath_max lo (fmath_min x hi)"

definition fmath_norm :: "f64 list \<Rightarrow> nat \<Rightarrow> f64" where
  "fmath_norm v n = fmath_sqrt (foldl (\<lambda>s x. s + x * x) 0 (take n v))"

definition fmath_dist :: "f64 list \<Rightarrow> f64 list \<Rightarrow> nat \<Rightarrow> f64" where
  "fmath_dist a b n =
     fmath_sqrt (foldl (\<lambda>s (x, y). let d = x - y in s + d * d) 0 (zip (take n a) (take n b)))"

definition all_finite :: "f64 list \<Rightarrow> bool" where
  "all_finite v = list_all is_finite v"

subsection \<open>Comparisons and clamping\<close>

lemma fmath_min_le [fmath_simps]:
  "\<not> is_nan a \<Longrightarrow> \<not> is_nan b \<Longrightarrow> fmath_min a b \<le> a"
  "\<not> is_nan a \<Longrightarrow> \<not> is_nan b \<Longrightarrow> fmath_min a b \<le> b"
  by (auto simp: fmath_min_def f_cmp)

lemma fmath_max_ge [fmath_simps]:
  "\<not> is_nan a \<Longrightarrow> \<not> is_nan b \<Longrightarrow> a \<le> fmath_max a b"
  "\<not> is_nan a \<Longrightarrow> \<not> is_nan b \<Longrightarrow> b \<le> fmath_max a b"
  by (auto simp: fmath_max_def f_cmp)

lemma fmath_not_nan [fmath_simps]:
  "\<not> is_nan a \<Longrightarrow> \<not> is_nan b \<Longrightarrow> \<not> is_nan (fmath_min a b)"
  "\<not> is_nan a \<Longrightarrow> \<not> is_nan b \<Longrightarrow> \<not> is_nan (fmath_max a b)"
  by (auto simp: fmath_min_def fmath_max_def)

lemma fmath_clamp_in:
  assumes "lo \<le> hi" "\<not> is_nan x"
  shows "lo \<le> fmath_clamp x lo hi" and "fmath_clamp x lo hi \<le> hi"
  using assms by (auto simp: fmath_clamp_def fmath_max_def fmath_min_def f_cmp)

lemma fmath_clamp_id: "lo < x \<Longrightarrow> x < hi \<Longrightarrow> fmath_clamp x lo hi = x"
  by (auto simp: fmath_clamp_def fmath_max_def fmath_min_def f_cmp)

text \<open>On the boundary a clamp may still change the sign of a zero, never the value.\<close>

lemma fmath_clamp_key:
  "lo \<le> x \<Longrightarrow> x \<le> hi \<Longrightarrow> f_key (fmath_clamp x lo hi) = f_key x"
  by (auto simp: fmath_clamp_def fmath_max_def fmath_min_def f_cmp)

lemma fmath_clamp_finite:
  "is_finite x \<Longrightarrow> is_finite lo \<Longrightarrow> is_finite hi \<Longrightarrow> is_finite (fmath_clamp x lo hi)"
  by (simp add: fmath_clamp_def fmath_max_def fmath_min_def)

lemma all_finite_nth: "all_finite v \<Longrightarrow> i < length v \<Longrightarrow> is_finite (v ! i)"
  by (simp add: all_finite_def list_all_length)

lemma f_key_bound:
  assumes "\<not> is_nan x" shows "- inf_mag \<le> f_key x" "f_key x \<le> inf_mag"
proof -
  have "0 \<le> f_mag x" "f_mag x \<le> inf_mag" "0 \<le> inf_mag"
    using assms by (simp_all add: is_nan_def inf_mag_def)
  then show "- inf_mag \<le> f_key x" "f_key x \<le> inf_mag"
    unfolding f_key_def by (cases "f_sign x"; simp only: if_True if_False; linarith)+
qed

subsection \<open>Norms never produce a NaN\<close>

text \<open>A float that is not NaN and whose sign is clear: a nonnegative number or \<open>+inf\<close>.\<close>

definition f_nonneg :: "f64 \<Rightarrow> bool" where
  "f_nonneg x \<longleftrightarrow> \<not> is_nan x \<and> \<not> f_sign x"

lemma f_nonneg_0 [simp]: "f_nonneg 0"
  by (simp add: f_nonneg_def is_nan_def f_sign_def f_mag_def zero_f64_def inf_mag_def)

lemma f_nonneg_mk: "0 \<le> n \<Longrightarrow> n \<le> inf_mag \<Longrightarrow> f_nonneg (mk_f64 False n)"
  by (simp add: f_nonneg_def is_nan_def f_sign_mk f_mag_mk inf_mag_def)

lemma rnd_mag_nonneg:
  assumes "0 \<le> m" shows "0 \<le> rnd_mag m e st"
proof -
  have "- 1074 \<le> max (e + bitlen m - 53) (- 1074)" by simp
  then have b: "0 \<le> (max (e + bitlen m - 53) (- 1074) + 1074) * 4503599627370496"
    by (intro mult_nonneg_nonneg) linarith+
  have d: "0 \<le> m div (2 * 2 ^ n)" for n using assms by (simp add: pos_imp_zdiv_nonneg_iff)
  show ?thesis
    unfolding rnd_mag_def Let_def
    by (cases "max (e + bitlen m - 53) (- 1074) - e \<le> 0")
      (use b assms d in \<open>simp_all only: if_True if_False, auto intro!: add_nonneg_nonneg\<close>)
qed

lemma f_nonneg_rnd: "0 \<le> m \<Longrightarrow> f_nonneg (rnd_f64 False m e st)"
  unfolding rnd_f64_def using rnd_mag_nonneg [of m e st]
  by (intro f_nonneg_mk) (auto simp: inf_mag_def)

text \<open>What unpacking a float that is not NaN yields: its sign and a nonnegative mantissa.\<close>

lemma unpack_cases:
  assumes "\<not> is_nan x"
  obtains (inf) "unpack x = VInf (f_sign x)"
    | (fin) m e where "unpack x = VFin (f_sign x) m e" "0 \<le> m"
proof (cases "is_finite x")
  case True
  then show ?thesis using fin unpack_finite mag_parts(3) [OF f_mag_range(1) [of x]] by blast
next
  case False
  then show ?thesis using inf assms f64_classes [of x] unpack_infinite [of x] by blast
qed

lemma f_nonneg_square: "\<not> is_nan x \<Longrightarrow> f_nonneg (x * x)"
  by (erule unpack_cases) (simp_all add: times_f64_def f_nonneg_mk f_nonneg_rnd inf_mag_def)

lemma f_nonneg_add:
  assumes "f_nonneg x" "f_nonneg y" shows "f_nonneg (x + y)"
proof -
  have x: "\<not> is_nan x" "f_sign x = False" and y: "\<not> is_nan y" "f_sign y = False"
    using assms by (auto simp: f_nonneg_def)
  have inf: "f_nonneg (mk_f64 False inf_mag)" by (simp add: f_nonneg_mk inf_mag_def)
  show ?thesis
  proof (cases rule: unpack_cases [OF x(1)])
    case 1
    note inf' = 1
    show ?thesis
      by (cases rule: unpack_cases [OF y(1)]) (simp_all add: plus_f64_def inf' x y inf)
  next
    case (2 m e)
    note fx = 2
    show ?thesis
    proof (cases rule: unpack_cases [OF y(1)])
      case 1
      then show ?thesis by (simp add: plus_f64_def fx x y inf)
    next
      case (2 m' e')
      note fy = 2
      let ?d = "min e e'"
      let ?v = "m * 2 ^ nat (e - ?d) + m' * 2 ^ nat (e' - ?d)"
      have v: "0 \<le> ?v" using fx(2) fy(2) by simp
      then have "(?v < 0) = False" "\<bar>?v\<bar> = ?v" by simp_all
      then have "x + y = (if ?v = 0 then mk_f64 False 0 else rnd_f64 False ?v ?d False)"
        unfolding plus_f64_def fx(1) fy(1) x(2) y(2) add_view.simps Let_def by simp
      then show ?thesis using f_nonneg_rnd [OF v] by (simp add: f_nonneg_mk inf_mag_def)
    qed
  qed
qed

lemma f_nonneg_sqrt:
  assumes "f_nonneg x" shows "f_nonneg (f_sqrt x)"
proof -
  have x: "\<not> is_nan x" "f_sign x = False" using assms by (auto simp: f_nonneg_def)
  show ?thesis
  proof (cases rule: unpack_cases [OF x(1)])
    case 1
    then show ?thesis by (simp add: f_sqrt_def x f_nonneg_mk inf_mag_def)
  next
    case (2 m e)
    note fin = 2
    define k where "k = 110 - bitlen m + (e + (110 - bitlen m)) mod 2"
    have "0 \<le> fst (isqrt_rem (m * 2 ^ nat k))" using isqrt_rem [of "m * 2 ^ nat k"] fin(2) by simp
    then show ?thesis
      using fin unfolding f_sqrt_def
      by (simp add: x Let_def k_def [symmetric] f_nonneg_mk inf_mag_def f_nonneg_rnd split_beta)
  qed
qed

lemma f_nonneg_foldl:
  "f_nonneg s \<Longrightarrow> (\<And>s x. x \<in> set xs \<Longrightarrow> f_nonneg s \<Longrightarrow> f_nonneg (f s x)) \<Longrightarrow> f_nonneg (foldl f s xs)"
  by (induction xs arbitrary: s) auto

lemma minus_not_nan: "is_finite x \<Longrightarrow> is_finite y \<Longrightarrow> \<not> is_nan (x - y)"
  by (rule rounds_to_not_nan [OF rounds_to_minus])

lemma f_nonneg_norm:
  assumes "all_finite v" shows "f_nonneg (fmath_norm v n)"
  unfolding fmath_norm_def fmath_sqrt_def
proof (intro f_nonneg_sqrt f_nonneg_foldl f_nonneg_0)
  fix s x assume "x \<in> set (take n v)" "f_nonneg s"
  moreover from this(1) have "\<not> is_nan x"
    using assms by (auto simp: all_finite_def list_all_iff dest!: in_set_takeD)
  ultimately show "f_nonneg (s + x * x)" by (intro f_nonneg_add f_nonneg_square)
qed

lemma f_nonneg_dist:
  assumes "all_finite (take n a)" "all_finite (take n b)" shows "f_nonneg (fmath_dist a b n)"
  unfolding fmath_dist_def fmath_sqrt_def
proof (intro f_nonneg_sqrt f_nonneg_foldl f_nonneg_0)
  fix s and p :: "f64 \<times> f64" assume p: "p \<in> set (zip (take n a) (take n b))" "f_nonneg s"
  obtain x y where xy: "p = (x, y)" by (cases p)
  then have "is_finite x" "is_finite y"
    using p(1) assms set_zip_leftD [of x y] set_zip_rightD [of x y]
    by (auto simp: all_finite_def list_all_iff)
  then show "f_nonneg (case p of (x, y) \<Rightarrow> let d = x - y in s + d * d)"
    unfolding xy using p(2) by (simp add: Let_def f_nonneg_add f_nonneg_square minus_not_nan)
qed


subsection \<open>The factor of a leash\<close>

lemma fval_0 [simp]: "fval 0 = 0" "is_finite 0"
  by (simp_all add: fval_def f_sign_def f_mag_def zero_f64_def is_finite_def inf_mag_def)

lemma f_mag_le_fval: "f_mag x \<le> f_mag y \<longleftrightarrow> \<bar>fval x\<bar> \<le> \<bar>fval y\<bar>"
  by (simp add: fval_abs mag_val_le_iff)

text \<open>
  A limit of at least \<open>2^-1000\<close>, shortened by a relative \<open>2^-36\<close> and divided by a longer distance,
  is a float in \<open>[0, 1 - 2^-40]\<close>.  An infinite distance gives zero.
\<close>

lemma leash_factor:
  assumes st: "is_finite step" "F64 0x0170000000000000 \<le> step"
    and sh: "is_finite sh" "fval sh = 1 - 1 / 68719476736"
    and n: "step < n" "f_nonneg n"
  shows "is_finite (step * sh / n) \<and> 0 \<le> fval (step * sh / n) \<and>
    fval (step * sh / n) \<le> 1 - 1 / 1099511627776"
proof -
  define u :: real where "u = 2 powi (- 1074)"
  have u: "0 < u" by (simp add: u_def)
  have key: "103582791429521408 \<le> f_key step"
    using st(2) by (simp add: less_eq_f64_def f_key_def f_sign_def f_mag_def)
  have sg: "\<not> f_sign step"
  proof
    assume "f_sign step"
    then have "f_key step \<le> 0" using f_mag_range(1) [of step] by (simp only: f_key_def if_True neg_le_0_iff_le)
    then show False using key by simp
  qed
  have fs: "fval step = mag_val (f_mag step)" using sg by (simp add: fval_def)
  have ms: "103582791429521408 \<le> f_mag step" using key sg by (simp add: f_key_def)
  have "mag_val ((- 1073 + 1074) * 4503599627370496 + 9007199254740992)
      = of_int 9007199254740992 * 2 powi (- 1073)"
    by (rule mag_val_at) simp_all
  moreover have "2 powi (- 1073) = 2 * u" unfolding u_def using power_int_add [of "2::real" 1 "- 1074"] by simp
  ultimately have V3: "mag_val 13510798882111488 = 18014398509481984 * u" by simp
  have V2: "mag_val 9007199254740992 = 9007199254740992 * u"
    using mag_val_sub [of 9007199254740992] by (simp add: u_def)
  have s_ge: "18014398509481984 * u \<le> fval step"
    unfolding fs V3 [symmetric] using ms by (simp add: mag_val_le_iff)
  then have s0: "0 < fval step" using u by (smt (verit) mult_pos_pos)
  define r where "r = fval step * fval sh"
  have r: "9007199254740992 * u \<le> r" "0 \<le> r" "r \<le> fval step"
    unfolding r_def sh(2) using s_ge u s0 by (simp_all add: algebra_simps)
  have rs: "rounds_to r (step * sh)" unfolding r_def by (rule rounds_to_times [OF st(1) sh(1)])
  have fin: "is_finite (step * sh)"
    using r by (intro rounds_to_finite [OF rs, of 0 step]) (simp_all add: st)
  note rr = rounds_to_finiteD [OF rs fin]
  have v: "fval (step * sh) = mag_val (f_mag (step * sh))" using rr(2) r(2) by simp
  have "9007199254740992 \<le> f_mag (step * sh)"
    using rne_mono [OF rne_mag_val rr(1), of 9007199254740992] V2 r(1,2) by simp
  then have z: "fval (step * sh) \<le> r * (1 + 1 / 4503599627370496)"
    unfolding v using rne_rel [OF rr(1)] r(2) by simp
  have z0: "0 \<le> fval (step * sh)" unfolding v by (simp add: mag_val_nonneg)
  show ?thesis
  proof (cases "is_finite n")
    case False
    then have "unpack n = VInf False"
      using n(2) f64_classes [of n] unpack_infinite [of n] by (auto simp: f_nonneg_def)
    then obtain b where "step * sh / n = mk_f64 b 0"
      using unpack_finite [OF fin] by (auto simp: divide_f64_def)
    then show ?thesis by (simp add: is_finite_def f_mag_mk inf_mag_def fval_def)
  next
    case True
    have n0: "fval step < fval n" using n(1) st(1) True by (simp add: f_less_fval)
    then have np: "0 < fval n" using s0 by linarith
    define w where "w = fval (step * sh) / fval n"
    have rw: "rounds_to w (step * sh / n)"
      unfolding w_def using np by (intro rounds_to_div [OF fin True]) simp
    have w0: "0 \<le> w" using z0 np by (simp add: w_def)
    have "fval (step * sh) \<le> fval n * (1 - 1 / 1099511627776)"
    proof -
      have "r * (1 + 1 / 4503599627370496) = fval step * ((1 - 1 / 68719476736) * (1 + 1 / 4503599627370496))"
        unfolding r_def sh(2) by (simp only: mult.assoc)
      also have "\<dots> \<le> fval step * (1 - 1 / 1099511627776)" using s0 by (intro mult_left_mono) simp_all
      also have "\<dots> \<le> fval n * (1 - 1 / 1099511627776)" using n0 by (intro mult_right_mono) simp_all
      finally show ?thesis using z by linarith
    qed
    then have w1: "w \<le> 1 - 1 / 1099511627776" unfolding w_def using np by (simp add: divide_le_eq mult.commute)
    let ?c = "F64 0x3fefffffffffe000"
    have c: "is_finite ?c" "fval ?c = 1 - 1 / 1099511627776"
      by (simp_all add: is_finite_def inf_mag_def fval_def f_sign_def f_mag_def mag_val_def mag_man_def mag_exp_def)
    have f: "is_finite (step * sh / n)"
      using w0 w1 c by (intro rounds_to_finite [OF rw, of 0 ?c]) simp_all
    moreover have "0 \<le> step * sh / n" "step * sh / n \<le> ?c"
      using rounds_to_ge [OF rw, of 0] rounds_to_le [OF rw c(1)] w0 w1 c(2) by simp_all
    ultimately show ?thesis using c by (simp add: f_le_fval)
  qed
qed

end
