(* ===== verification/Chunk.thy ===== *)
theory Chunk
  imports Fmath
begin

text \<open>
  \<open>lictor-core/src/chunk.rs\<close>: the action-chunk storage \<open>ChunkBuf\<close>, its borrowed view \<open>ChunkView\<close>
  and the per-tick observation \<open>ObsView\<close>.  A buffer is row-major in an array of
  \<open>MAX_H * MAX_D = 2048\<close> floats; the list that stands for the array keeps that length in
  \<open>ChunkBuf_wf\<close>.  The lemmas give the order of the checks of \<open>fill\<close>, the round trip from \<open>fill\<close>
  to \<open>view\<close>, and that writing one row through \<open>row_mut\<close> changes that row only.
\<close>

definition MAX_H :: nat where "MAX_H = 64"
definition MAX_D :: nat where "MAX_D = 32"
definition MAX_POS :: nat where "MAX_POS = 32"
definition MAX_AUX :: nat where "MAX_AUX = 16"
definition MAX_EXT :: nat where "MAX_EXT = 4"

lemmas chunk_consts = MAX_H_def MAX_D_def MAX_POS_def MAX_AUX_def MAX_EXT_def

datatype ActionKind = EePosition | EeDelta | JointPosition | JointVelocity | OtherKind

datatype ChunkError = TooLong | TooWide | LenMismatch | ExecExceedsHorizon | EmptyChunk

record ChunkBuf =
  cb_data :: "f64 list"
  cb_seq :: u32
  cb_t_emit :: u32
  cb_horizon :: u16
  cb_dim :: u16
  cb_exec_steps :: u16
  cb_filled :: bool

record ChunkView =
  cv_seq :: u32
  cv_t_emit :: u32
  cv_horizon :: u16
  cv_dim :: u16
  cv_exec_steps :: u16
  cv_data :: "f64 list"

record ObsView =
  ov_t :: u32
  ov_pos :: "f64 list"
  ov_vel :: "f64 list option"
  ov_aux :: "f64 list"
  ov_ext :: "f64 list"

definition ChunkBuf_new :: ChunkBuf where
  "ChunkBuf_new = \<lparr> cb_data = replicate (MAX_H * MAX_D) 0, cb_seq = 0, cb_t_emit = 0, cb_horizon = 0,
     cb_dim = 0, cb_exec_steps = 0, cb_filled = False \<rparr>"

definition ChunkBuf_fill ::
  "ChunkBuf \<Rightarrow> u32 \<Rightarrow> u32 \<Rightarrow> u16 \<Rightarrow> u16 \<Rightarrow> u16 \<Rightarrow> f64 list \<Rightarrow> ChunkError + ChunkBuf" where
  "ChunkBuf_fill b seq t_emit h d exec src =
     fail_if (h = 0 \<or> d = 0) EmptyChunk (
     fail_if (MAX_H < unat h) TooLong (
     fail_if (MAX_D < unat d) TooWide (
     fail_if (h < exec) ExecExceedsHorizon (
     let n = unat h * unat d in
     fail_if (length src \<noteq> n) LenMismatch (
     Inr (b \<lparr> cb_data := blit n src (cb_data b), cb_seq := seq, cb_t_emit := t_emit,
              cb_horizon := h, cb_dim := d, cb_exec_steps := exec, cb_filled := True \<rparr>))))))"

definition ChunkBuf_copy_from :: "ChunkBuf \<Rightarrow> ChunkView \<Rightarrow> ChunkBuf" where
  "ChunkBuf_copy_from b v =
     (let n = (if length (cv_data v) < MAX_H * MAX_D then length (cv_data v) else MAX_H * MAX_D) in
      b \<lparr> cb_data := blit n (cv_data v) (cb_data b), cb_seq := cv_seq v, cb_t_emit := cv_t_emit v,
          cb_horizon := cv_horizon v, cb_dim := cv_dim v, cb_exec_steps := cv_exec_steps v,
          cb_filled := True \<rparr>)"

definition ChunkBuf_view :: "ChunkBuf \<Rightarrow> ChunkView option" where
  "ChunkBuf_view b = (if \<not> cb_filled b then None
     else let n = unat (cb_horizon b) * unat (cb_dim b) in
       Some \<lparr> cv_seq = cb_seq b, cv_t_emit = cb_t_emit b, cv_horizon = cb_horizon b,
              cv_dim = cb_dim b, cv_exec_steps = cb_exec_steps b, cv_data = take n (cb_data b) \<rparr>)"

text \<open>
  \<open>row_mut(i)[..n].copy_from_slice(&row[..n])\<close> with \<open>n\<close> the buffer's \<open>dim\<close>: the only use the
  program makes of \<open>row_mut\<close>.  The index is clamped to \<open>horizon - 1\<close>; without rows nothing changes.
\<close>

definition ChunkBuf_set_row :: "ChunkBuf \<Rightarrow> nat \<Rightarrow> f64 list \<Rightarrow> ChunkBuf" where
  "ChunkBuf_set_row b i row =
     (let h = unat (cb_horizon b); d = unat (cb_dim b) in
      if h = 0 \<or> d = 0 then b
      else let i' = (if i < h then i else h - 1); start = i' * d in
        b \<lparr> cb_data := take start (cb_data b) @ take d row @ drop (start + d) (cb_data b) \<rparr>)"

definition ChunkBuf_clear :: "ChunkBuf \<Rightarrow> ChunkBuf" where
  "ChunkBuf_clear b = b \<lparr> cb_filled := False \<rparr>"

definition ChunkBuf_is_filled :: "ChunkBuf \<Rightarrow> bool" where
  "ChunkBuf_is_filled b = cb_filled b"

text \<open>Row \<open>i\<close>, clamped to \<open>horizon - 1\<close>; a view too short for the row yields the empty slice.\<close>

definition ChunkView_action :: "ChunkView \<Rightarrow> nat \<Rightarrow> f64 list" where
  "ChunkView_action v i =
     (let h = unat (cv_horizon v); d = unat (cv_dim v) in
      if h = 0 \<or> d = 0 then []
      else let i' = (if i < h then i else h - 1); start = i' * d in
        (if start + d \<le> length (cv_data v) then slice start d (cv_data v) else []))"

definition ChunkView_overlap_len :: "ChunkView \<Rightarrow> nat" where
  "ChunkView_overlap_len v = unat (cv_horizon v - cv_exec_steps v)"

definition ChunkView_all_finite :: "ChunkView \<Rightarrow> bool" where
  "ChunkView_all_finite v = all_finite (cv_data v)"

subsection \<open>Well-formed buffers and views\<close>

definition ChunkBuf_wf :: "ChunkBuf \<Rightarrow> bool" where
  "ChunkBuf_wf b \<longleftrightarrow> length (cb_data b) = MAX_H * MAX_D \<and>
     (cb_filled b \<longrightarrow> 0 < unat (cb_horizon b) \<and> unat (cb_horizon b) \<le> MAX_H \<and>
        0 < unat (cb_dim b) \<and> unat (cb_dim b) \<le> MAX_D \<and> cb_exec_steps b \<le> cb_horizon b)"

definition ChunkView_wf :: "ChunkView \<Rightarrow> bool" where
  "ChunkView_wf v \<longleftrightarrow> 0 < unat (cv_horizon v) \<and> unat (cv_horizon v) \<le> MAX_H \<and>
     0 < unat (cv_dim v) \<and> unat (cv_dim v) \<le> MAX_D \<and> cv_exec_steps v \<le> cv_horizon v \<and>
     length (cv_data v) = unat (cv_horizon v) * unat (cv_dim v)"

lemma area_le: "h \<le> MAX_H \<Longrightarrow> d \<le> MAX_D \<Longrightarrow> h * d \<le> MAX_H * MAX_D"
  by (rule mult_le_mono)

lemma ChunkBuf_new_wf: "ChunkBuf_wf ChunkBuf_new"
  by (simp add: ChunkBuf_wf_def ChunkBuf_new_def)

lemma ChunkBuf_fill_iff:
  "ChunkBuf_fill b seq t h d e src = Inr b' \<longleftrightarrow>
     h \<noteq> 0 \<and> d \<noteq> 0 \<and> unat h \<le> MAX_H \<and> unat d \<le> MAX_D \<and> e \<le> h \<and> length src = unat h * unat d \<and>
     b' = b \<lparr> cb_data := blit (length src) src (cb_data b), cb_seq := seq, cb_t_emit := t,
              cb_horizon := h, cb_dim := d, cb_exec_steps := e, cb_filled := True \<rparr>"
  by (auto simp: ChunkBuf_fill_def Let_def not_less not_le)

lemma ChunkBuf_fill_wf:
  assumes "ChunkBuf_wf b" "ChunkBuf_fill b seq t h d e src = Inr b'"
  shows "ChunkBuf_wf b'"
proof -
  from assms(2) have "unat h * unat d \<le> MAX_H * MAX_D"
    by (intro area_le) (auto simp: ChunkBuf_fill_iff)
  then show ?thesis
    using assms unfolding ChunkBuf_fill_iff ChunkBuf_wf_def by (auto simp: unat_gt_0)
qed

lemma ChunkBuf_fill_view:
  assumes "ChunkBuf_fill b seq t h d e src = Inr b'"
  shows "ChunkBuf_view b' = Some \<lparr> cv_seq = seq, cv_t_emit = t, cv_horizon = h, cv_dim = d,
           cv_exec_steps = e, cv_data = src \<rparr>"
  using assms by (auto simp: ChunkBuf_fill_iff ChunkBuf_view_def blit_def)

lemma ChunkBuf_view_wf:
  "ChunkBuf_wf b \<Longrightarrow> ChunkBuf_view b = Some v \<Longrightarrow> ChunkView_wf v"
  using area_le [of "unat (cb_horizon b)" "unat (cb_dim b)"]
  by (auto simp: ChunkBuf_wf_def ChunkBuf_view_def ChunkView_wf_def split: if_splits)

lemma ChunkBuf_copy_from_wf:
  assumes "ChunkBuf_wf b" "ChunkView_wf v" shows "ChunkBuf_wf (ChunkBuf_copy_from b v)"
proof -
  have "unat (cv_horizon v) * unat (cv_dim v) \<le> MAX_H * MAX_D"
    using assms(2) by (intro area_le) (auto simp: ChunkView_wf_def)
  then show ?thesis
    using assms by (auto simp: ChunkBuf_wf_def ChunkView_wf_def ChunkBuf_copy_from_def Let_def)
qed

lemma ChunkBuf_copy_from_view:
  assumes "ChunkView_wf v" shows "ChunkBuf_view (ChunkBuf_copy_from b v) = Some v"
proof -
  have "unat (cv_horizon v) * unat (cv_dim v) \<le> MAX_H * MAX_D"
    using assms by (intro area_le) (auto simp: ChunkView_wf_def)
  then show ?thesis
    using assms by (auto simp: ChunkView_wf_def ChunkBuf_copy_from_def ChunkBuf_view_def blit_def Let_def)
qed

text \<open>Rows of a well-formed view have \<open>dim\<close> entries, and lie where row-major order puts them.\<close>

lemma ChunkView_action_row:
  assumes "ChunkView_wf v" "i < unat (cv_horizon v)"
  shows "ChunkView_action v i = slice (i * unat (cv_dim v)) (unat (cv_dim v)) (cv_data v)"
    and "length (ChunkView_action v i) = unat (cv_dim v)"
proof -
  have "i * unat (cv_dim v) + unat (cv_dim v) \<le> length (cv_data v)"
    using assms row_end_le [of i "unat (cv_horizon v)" "unat (cv_dim v)"] by (simp add: ChunkView_wf_def)
  then show "ChunkView_action v i = slice (i * unat (cv_dim v)) (unat (cv_dim v)) (cv_data v)"
    and "length (ChunkView_action v i) = unat (cv_dim v)"
    using assms by (auto simp: ChunkView_action_def ChunkView_wf_def Let_def length_slice)
qed

lemma ChunkView_action_clamped:
  "ChunkView_wf v \<Longrightarrow> unat (cv_horizon v) \<le> i \<Longrightarrow>
     ChunkView_action v i = ChunkView_action v (unat (cv_horizon v) - 1)"
  by (auto simp: ChunkView_action_def Let_def)

lemma ChunkView_action_finite:
  assumes "ChunkView_wf v" "ChunkView_all_finite v"
  shows "all_finite (ChunkView_action v i)"
  using assms unfolding ChunkView_action_def ChunkView_all_finite_def all_finite_def Let_def slice_def list_all_iff
  by (auto dest!: in_set_takeD in_set_dropD)

lemma ChunkBuf_set_row_wf:
  assumes "ChunkBuf_wf b" "cb_filled b" "length row = unat (cb_dim b)"
  shows "ChunkBuf_wf (ChunkBuf_set_row b i row)"
proof -
  define j where "j = (if i < unat (cb_horizon b) then i else unat (cb_horizon b) - 1)"
  have "j < unat (cb_horizon b)" using assms by (auto simp: j_def ChunkBuf_wf_def)
  then have "j * unat (cb_dim b) + unat (cb_dim b) \<le> MAX_H * MAX_D"
    using assms row_end_le [of j "unat (cb_horizon b)" "unat (cb_dim b)"]
      area_le [of "unat (cb_horizon b)" "unat (cb_dim b)"] by (auto simp: ChunkBuf_wf_def)
  then show ?thesis
    using assms unfolding ChunkBuf_wf_def ChunkBuf_set_row_def Let_def j_def [symmetric] by auto
qed

text \<open>Writing row \<open>i\<close> changes that row and no other.\<close>

lemma slice_update:
  assumes "length row = d" "i < h" "j < h" "h * d \<le> length xs"
  shows "slice (j * d) d (take (i * d) xs @ row @ drop (i * d + d) xs)
           = (if j = i then row else slice (j * d) d xs)"
proof -
  have e: "i * d + d \<le> length xs" "j * d + d \<le> length xs"
    using row_end_le [of i h d] row_end_le [of j h d] assms by linarith+
  consider "j = i" | "j < i" | "i < j" by linarith
  then show ?thesis
  proof cases
    case 1
    then show ?thesis using assms e by (simp add: slice_def)
  next
    case 2
    then have "j * d + d \<le> i * d" by (rule row_end_le)
    then show ?thesis
      using 2 e by (auto simp: slice_def list_eq_iff_nth_eq nth_append)
  next
    case 3
    then have "i * d + d \<le> j * d" by (rule row_end_le)
    then show ?thesis
      using 3 e assms(1) by (auto simp: slice_def list_eq_iff_nth_eq nth_append)
  qed
qed

lemma ChunkBuf_view_action:
  assumes "ChunkBuf_view b = Some v" "j < unat (cb_horizon b)"
    "unat (cb_horizon b) * unat (cb_dim b) \<le> length (cb_data b)"
  shows "ChunkView_action v j = slice (j * unat (cb_dim b)) (unat (cb_dim b)) (cb_data b)"
proof -
  have e: "j * unat (cb_dim b) + unat (cb_dim b) \<le> unat (cb_horizon b) * unat (cb_dim b)"
    using row_end_le [OF assms(2)] .
  show ?thesis
  proof (cases "cb_dim b = 0")
    case True
    then show ?thesis using assms by (auto simp: ChunkBuf_view_def ChunkView_action_def slice_def split: if_splits)
  next
    case False
    then have "0 < unat (cb_dim b)" by (simp add: unat_gt_0)
    then show ?thesis
      using assms e by (auto simp: ChunkBuf_view_def ChunkView_action_def slice_def Let_def
          drop_take min_def split: if_splits)
  qed
qed

lemma ChunkBuf_set_row_action:
  assumes "ChunkBuf_wf b" "cb_filled b" "length row = unat (cb_dim b)"
    "i < unat (cb_horizon b)" "j < unat (cb_horizon b)"
    "ChunkBuf_view b = Some v" "ChunkBuf_view (ChunkBuf_set_row b i row) = Some v'"
  shows "ChunkView_action v' j = (if j = i then row else ChunkView_action v j)"
proof -
  let ?h = "unat (cb_horizon b)" and ?d = "unat (cb_dim b)" and ?b = "ChunkBuf_set_row b i row"
  have wf: "?h * ?d \<le> length (cb_data b)" "0 < ?h" "0 < ?d"
    using assms(1,2) area_le [of ?h ?d] by (auto simp: ChunkBuf_wf_def)
  have d: "cb_data ?b = take (i * ?d) (cb_data b) @ row @ drop (i * ?d + ?d) (cb_data b)"
    "cb_horizon ?b = cb_horizon b" "cb_dim ?b = cb_dim b"
    using assms(3,4) wf by (auto simp: ChunkBuf_set_row_def Let_def)
  have "length (cb_data ?b) = length (cb_data b)"
    unfolding d using row_end_le [OF assms(4), of ?d] wf assms(3) by auto
  then have "ChunkView_action v' j = slice (j * ?d) ?d (cb_data ?b)"
    using ChunkBuf_view_action [OF assms(7), of j] assms(5) wf(1) d by simp
  then show ?thesis
    unfolding ChunkBuf_view_action [OF assms(6,5) wf(1)] d(1)
    using slice_update [OF assms(3,4,5) wf(1)] by simp
qed

end
