(* ===== verification/Scores.thy ===== *)
theory Scores
  imports Verdict Chunk
begin

text \<open>
  The Tier-1 feature channels and the runtime calibration table of \<open>lictor-core/src/scores.rs\<close>,
  with the gate formula \<open>GateSpec\<close> of \<open>envelope.rs\<close> that a calibration embeds.  A gate is a list of
  at most eight terms, each a mask of features that must all exceed the threshold.  The lemmas show
  that every parsed gate is well formed, that printing a well-formed gate and parsing it again is
  the identity, and that the time bin is always inside the calibration grid.
\<close>

definition NFEAT :: nat where "NFEAT = 12"
definition T_GRID :: nat where "T_GRID = 100"
definition MAX_TERMS :: nat where "MAX_TERMS = 8"

subsection \<open>Features\<close>

datatype Feat = Tce | Acc | AcmNeg | Njr | Reach | PathIneff | Stall | SpeedPeak | Ext0 | Ext1 | Ext2 | Ext3

definition Feat_NAMES :: "string list" where
  "Feat_NAMES = [''tce'', ''acc'', ''acm_neg'', ''njr'', ''reach'', ''path_ineff'', ''stall'', ''speed_peak'',
     ''ext0'', ''ext1'', ''ext2'', ''ext3'']"

definition Feat_ALL :: "Feat list" where
  "Feat_ALL = [Tce, Acc, AcmNeg, Njr, Reach, PathIneff, Stall, SpeedPeak, Ext0, Ext1, Ext2, Ext3]"

definition CHUNK_BOUNDARY_MASK :: u32 where "CHUNK_BOUNDARY_MASK = 0x9f"
definition PER_TICK_MASK :: u32 where "PER_TICK_MASK = 0xf60"

fun Feat_id :: "Feat \<Rightarrow> nat" where
  "Feat_id Tce = 0"
| "Feat_id Acc = 1"
| "Feat_id AcmNeg = 2"
| "Feat_id Njr = 3"
| "Feat_id Reach = 4"
| "Feat_id PathIneff = 5"
| "Feat_id Stall = 6"
| "Feat_id SpeedPeak = 7"
| "Feat_id Ext0 = 8"
| "Feat_id Ext1 = 9"
| "Feat_id Ext2 = 10"
| "Feat_id Ext3 = 11"

definition Feat_from_name :: "string \<Rightarrow> Feat option" where
  "Feat_from_name s = map_option ((!) Feat_ALL) (position (\<lambda>n. n = s) Feat_NAMES)"

definition Feat_bit :: "Feat \<Rightarrow> u32" where
  "Feat_bit f = push_bit (Feat_id f) 1"

definition Feat_name :: "Feat \<Rightarrow> string" where
  "Feat_name f = Feat_NAMES ! Feat_id f"

interpretation feat_names: bit_names Feat_NAMES "CHR ''|''"
  by unfold_locales (simp_all add: Feat_NAMES_def)

lemma length_Feat_NAMES: "length Feat_NAMES = NFEAT"
  by (simp add: Feat_NAMES_def NFEAT_def)

lemma Feat_id_less: "Feat_id f < NFEAT"
  by (cases f) (simp_all add: NFEAT_def)

lemma Feat_ALL_id: "Feat_ALL ! Feat_id f = f"
  by (cases f) (simp_all add: Feat_ALL_def)

lemma Feat_id_ALL: "j < NFEAT \<Longrightarrow> Feat_id (Feat_ALL ! j) = j"
  by (simp add: NFEAT_def Feat_ALL_def less_Suc_eq numeral_eq_Suc) auto

lemma Feat_ALL_map: "map Feat_id Feat_ALL = [0..<NFEAT]"
  by (simp add: Feat_ALL_def NFEAT_def upt_rec)

lemma Feat_from_name_name: "Feat_from_name (Feat_name f) = Some f"
  using feat_names.lookup_nth [of "Feat_id f"] Feat_id_less [of f]
  by (simp add: Feat_from_name_def Feat_name_def length_Feat_NAMES Feat_ALL_id)

lemma Feat_from_name_Some: "Feat_from_name s = Some f \<Longrightarrow> s = Feat_name f"
  using Feat_id_ALL by (auto simp: Feat_from_name_def Feat_name_def feat_names.lookup_Some length_Feat_NAMES)

lemma feat_masks_partition:
  "CHUNK_BOUNDARY_MASK OR PER_TICK_MASK = mask NFEAT" "CHUNK_BOUNDARY_MASK AND PER_TICK_MASK = 0"
  by (simp_all add: CHUNK_BOUNDARY_MASK_def PER_TICK_MASK_def NFEAT_def mask_eq_exp_minus_1)

subsection \<open>The gate\<close>

record GateSpec =
  gs_n_terms :: u8
  gs_terms :: "u32 list"

definition GateSpec_DISARMED :: GateSpec where
  "GateSpec_DISARMED = \<lparr> gs_n_terms = 0, gs_terms = replicate MAX_TERMS 0 \<rparr>"

datatype GateError = TooManyTerms nat | UnknownFeature nat string

text \<open>The inner loop of \<open>GateSpec::parse\<close>: the names of one term, left to right.\<close>

fun parse_term :: "nat \<Rightarrow> string list \<Rightarrow> u32 \<Rightarrow> GateError + u32" where
  "parse_term i [] bits = Inr bits"
| "parse_term i (name # names) bits = (case Feat_from_name name of
      Some f \<Rightarrow> parse_term i names (bits OR Feat_bit f)
    | None \<Rightarrow> Inl (UnknownFeature i name))"

fun parse_terms :: "nat \<Rightarrow> string list \<Rightarrow> u32 list \<Rightarrow> GateError + u32 list" where
  "parse_terms i [] terms = Inr terms"
| "parse_terms i (term # rest) terms = (case parse_term i (split_on (CHR ''|'') term) 0 of
      Inl e \<Rightarrow> Inl e
    | Inr bits \<Rightarrow> parse_terms (Suc i) rest (terms[i := bits]))"

definition GateSpec_parse :: "string list \<Rightarrow> GateError + GateSpec" where
  "GateSpec_parse terms =
     fail_if (MAX_TERMS < length terms) (TooManyTerms (length terms))
       (case parse_terms 0 terms (gs_terms GateSpec_DISARMED) of
          Inl e \<Rightarrow> Inl e
        | Inr ts \<Rightarrow> Inr \<lparr> gs_n_terms = of_nat (length terms), gs_terms = ts \<rparr>)"

definition GateSpec_active_terms :: "GateSpec \<Rightarrow> nat" where
  "GateSpec_active_terms g = (let n = unat (gs_n_terms g) in if n < MAX_TERMS then n else MAX_TERMS)"

definition GateSpec_mask :: "GateSpec \<Rightarrow> u32" where
  "GateSpec_mask g = or_all (take (GateSpec_active_terms g) (gs_terms g))"

definition term_name :: "u32 \<Rightarrow> string" where
  "term_name bits = join_with (CHR ''|'') (map Feat_name (filter (\<lambda>f. has_bit bits (Feat_bit f)) Feat_ALL))"

definition GateSpec_names :: "GateSpec \<Rightarrow> string list" where
  "GateSpec_names g = map term_name (take (GateSpec_active_terms g) (gs_terms g))"

definition GateSpec_wf :: "GateSpec \<Rightarrow> bool" where
  "GateSpec_wf g \<longleftrightarrow> length (gs_terms g) = MAX_TERMS \<and> unat (gs_n_terms g) \<le> MAX_TERMS \<and>
     (\<forall>i < MAX_TERMS. if i < unat (gs_n_terms g) then gs_terms g ! i \<noteq> 0 \<and> gs_terms g ! i < 4096
                      else gs_terms g ! i = 0)"

lemma term_features:
  "filter (\<lambda>f. has_bit bits (Feat_bit f)) Feat_ALL
     = map ((!) Feat_ALL) (filter (\<lambda>i. has_bit bits (2 ^ i)) [0..<NFEAT])"
proof -
  have "filter (\<lambda>f. has_bit bits (Feat_bit f)) Feat_ALL
      = map ((!) Feat_ALL) (map Feat_id (filter (\<lambda>f. has_bit bits (Feat_bit f)) Feat_ALL))"
    by (simp add: Feat_ALL_id map_idI)
  also have "map Feat_id (filter (\<lambda>f. has_bit bits (Feat_bit f)) Feat_ALL)
      = filter (\<lambda>i. has_bit bits (2 ^ i)) (map Feat_id Feat_ALL)"
    by (simp add: filter_map o_def Feat_bit_def)
  finally show ?thesis by (simp add: Feat_ALL_map)
qed

lemma parse_term_names:
  "parse_term i (map Feat_name fs) bits = Inr (bits OR or_all (map Feat_bit fs))"
  by (induction fs arbitrary: bits) (simp_all add: Feat_from_name_name or.assoc)

lemma parse_term_ok:
  "parse_term i names bits = Inr b \<longleftrightarrow>
     (\<exists>fs. names = map Feat_name fs \<and> b = bits OR or_all (map Feat_bit fs))"
proof (induction names arbitrary: bits)
  case (Cons n ns)
  show ?case
  proof (cases "Feat_from_name n")
    case None
    then have "n \<noteq> Feat_name f" for f using Feat_from_name_name [of f] by auto
    then show ?thesis using None by (auto simp: Cons_eq_map_conv)
  next
    case (Some f)
    then have n: "n = Feat_name f" by (rule Feat_from_name_Some)
    have inj: "Feat_name f = Feat_name g \<Longrightarrow> f = g" for g
      by (metis Feat_from_name_name option.inject)
    show ?thesis
      unfolding n parse_term.simps Feat_from_name_name option.case Cons.IH
      using inj by (fastforce simp: Cons_eq_map_conv or.assoc)
  qed
qed auto

lemma term_name_parse:
  assumes "b \<noteq> 0" "b < 4096"
  shows "parse_term i (split_on (CHR ''|'') (term_name b)) 0 = Inr b"
proof -
  let ?is = "filter (\<lambda>i. has_bit b (2 ^ i)) [0..<NFEAT]"
  have b12: "take_bit NFEAT b = b"
    using assms(2) by (simp add: take_bit_word_iff NFEAT_def word_less_nat_alt)
  have ne: "?is \<noteq> []"
  proof
    assume "?is = []"
    then show False using or_all_bits [of NFEAT b] b12 assms(1) by (simp add: NFEAT_def)
  qed
  have nm: "map Feat_name (filter (\<lambda>f. has_bit b (Feat_bit f)) Feat_ALL) = map ((!) Feat_NAMES) ?is"
    unfolding term_features by (auto simp: Feat_name_def Feat_id_ALL)
  have "split_on (CHR ''|'') (term_name b)
      = map Feat_name (filter (\<lambda>f. has_bit b (Feat_bit f)) Feat_ALL)"
    unfolding term_name_def nm
    by (rule feat_names.split_names [OF ne]) (auto simp: length_Feat_NAMES)
  moreover have "or_all (map Feat_bit (filter (\<lambda>f. has_bit b (Feat_bit f)) Feat_ALL)) = b"
  proof -
    have "map Feat_bit (filter (\<lambda>f. has_bit b (Feat_bit f)) Feat_ALL) = map (\<lambda>i. 2 ^ i) ?is"
      unfolding term_features by (auto simp: Feat_bit_def Feat_id_ALL)
    then show ?thesis using or_all_bits [of NFEAT b] b12 by (simp add: NFEAT_def)
  qed
  ultimately show ?thesis by (simp add: parse_term_names)
qed

lemma parse_terms_names:
  assumes "\<forall>b \<in> set bs. b \<noteq> 0 \<and> b < 4096" "length acc = i + length bs + k"
  shows "parse_terms i (map term_name bs) acc = Inr (take i acc @ bs @ drop (i + length bs) acc)"
  using assms
proof (induction bs arbitrary: i acc)
  case (Cons b bs)
  have "parse_terms (Suc i) (map term_name bs) (acc[i := b])
      = Inr (take (Suc i) (acc[i := b]) @ bs @ drop (Suc i + length bs) (acc[i := b]))"
    using Cons.prems by (intro Cons.IH) auto
  moreover have "take (Suc i) (acc[i := b]) = take i acc @ [b]"
    using Cons.prems by (simp add: take_Suc_conv_app_nth)
  ultimately show ?case
    using Cons.prems by (simp add: term_name_parse)
qed simp

lemma GateSpec_parse_names:
  assumes "GateSpec_wf g" shows "GateSpec_parse (GateSpec_names g) = Inr g"
proof -
  let ?n = "unat (gs_n_terms g)"
  have wf: "length (gs_terms g) = 8" "?n \<le> 8"
    "\<And>i. i < 8 \<Longrightarrow> if i < ?n then gs_terms g ! i \<noteq> 0 \<and> gs_terms g ! i < 4096 else gs_terms g ! i = 0"
    using assms unfolding GateSpec_wf_def MAX_TERMS_def by blast+
  have act: "GateSpec_active_terms g = ?n"
    using wf(2) by (auto simp: GateSpec_active_terms_def MAX_TERMS_def Let_def)
  have ok: "\<forall>b \<in> set (take ?n (gs_terms g)). b \<noteq> 0 \<and> b < 4096"
  proof
    fix b assume "b \<in> set (take ?n (gs_terms g))"
    then obtain i where "i < ?n" "b = gs_terms g ! i" using wf by (auto simp: in_set_conv_nth)
    then show "b \<noteq> 0 \<and> b < 4096" using wf(3) [of i] wf(2) by simp
  qed
  have tail: "drop ?n (gs_terms g) = drop ?n (replicate 8 0)"
  proof (rule nth_equalityI)
    fix i assume "i < length (drop ?n (gs_terms g))"
    then show "drop ?n (gs_terms g) ! i = drop ?n (replicate 8 0) ! i"
      using wf(1) wf(3) [of "?n + i"] by simp
  qed (use wf in simp)
  have "parse_terms 0 (map term_name (take ?n (gs_terms g))) (replicate 8 0)
      = Inr (take 0 (replicate 8 0) @ take ?n (gs_terms g) @ drop (0 + length (take ?n (gs_terms g))) (replicate 8 0))"
    using ok wf by (intro parse_terms_names [where k = "8 - ?n"]) auto
  also have "\<dots> = Inr (gs_terms g)"
    using wf tail [symmetric] by (simp add: min_def)
  finally show ?thesis
    using wf by (simp add: GateSpec_parse_def GateSpec_names_def act fail_if_def MAX_TERMS_def
        GateSpec_DISARMED_def min_def)
qed

lemma or_all_less:
  "(\<forall>b \<in> set bs. b < 4096) \<Longrightarrow> or_all bs < (4096 :: u32)"
proof -
  assume *: "\<forall>b \<in> set bs. b < 4096"
  have lt: "b < 4096 \<longleftrightarrow> take_bit 12 b = b" for b :: u32
    by (simp add: take_bit_word_iff word_less_nat_alt)
  show ?thesis using * unfolding lt by (induction bs) simp_all
qed

lemma Feat_bit_range: "Feat_bit f \<noteq> 0 \<and> Feat_bit f < 4096"
  by (cases f) (simp_all add: Feat_bit_def)

lemma parse_terms_wf:
  assumes "parse_terms i ts acc = Inr out" "i + length ts \<le> length acc"
  shows "length out = length acc \<and>
    (\<forall>j. j < length acc \<longrightarrow> (if i \<le> j \<and> j < i + length ts then out ! j \<noteq> 0 \<and> out ! j < 4096 else out ! j = acc ! j))"
  using assms
proof (induction ts arbitrary: i acc)
  case (Cons t ts)
  from Cons.prems(1) obtain b where b: "parse_term i (split_on (CHR ''|'') t) 0 = Inr b"
    and r: "parse_terms (Suc i) ts (acc[i := b]) = Inr out" by (auto split: sum.splits)
  obtain fs where fs: "split_on (CHR ''|'') t = map Feat_name fs" "b = or_all (map Feat_bit fs)"
    using b unfolding parse_term_ok by auto
  have "split_on (CHR ''|'') t \<noteq> []" by (cases t) (auto split: list.splits)
  then obtain f fs' where f: "fs = f # fs'" using fs(1) by (cases fs) auto
  have "b \<noteq> 0" using Feat_bit_range [of f] by (simp add: fs(2) f or_eq_0_iff)
  moreover have "b < 4096" unfolding fs(2) by (rule or_all_less) (auto simp: Feat_bit_range)
  ultimately show ?case
    using Cons.IH [OF r] Cons.prems(2) by (auto simp: nth_list_update split: if_splits)
qed auto

lemma GateSpec_parse_wf:
  assumes "GateSpec_parse ts = Inr g" shows "GateSpec_wf g"
proof -
  from assms have len: "length ts \<le> 8"
    and p: "parse_terms 0 ts (replicate 8 0) = Inr (gs_terms g)" and n: "gs_n_terms g = of_nat (length ts)"
    by (auto simp: GateSpec_parse_def MAX_TERMS_def GateSpec_DISARMED_def split: sum.splits)
  have "unat (gs_n_terms g) = length ts"
    using len by (simp add: n unat_of_nat)
  then show ?thesis
    using parse_terms_wf [OF p] len unfolding GateSpec_wf_def MAX_TERMS_def by auto
qed

subsection \<open>Scores and the calibration table\<close>

record Scores =
  sc_f :: "f64 list"
  sc_z :: "f64 list"
  sc_s :: f64
  sc_valid :: u32
  sc_fired :: u32

datatype CalMethod = StaticCal | BinnedCal

record CalibrationC =
  cc_method :: CalMethod
  cc_alpha_num :: u32
  cc_alpha_den :: u32
  cc_n_calib :: u32
  cc_horizon_ticks :: u32
  cc_t_grid :: u16
  cc_center :: "f64 list list"
  cc_scale :: "f64 list list"
  cc_mask :: u32
  cc_gate :: GateSpec
  cc_tau :: f64
  cc_digest :: "u8 list"

definition f_one :: f64 where "f_one = F64 0x3ff0000000000000"

definition CalibrationC_DISARMED :: CalibrationC where
  "CalibrationC_DISARMED = \<lparr> cc_method = StaticCal, cc_alpha_num = 0, cc_alpha_den = 1, cc_n_calib = 0,
     cc_horizon_ticks = 1, cc_t_grid = 1, cc_center = replicate T_GRID (replicate NFEAT 0),
     cc_scale = replicate T_GRID (replicate NFEAT f_one), cc_mask = 0, cc_gate = GateSpec_DISARMED,
     cc_tau = f_inf, cc_digest = replicate 32 0 \<rparr>"

text \<open>Integer arithmetic on \<open>u64\<close>, shared by the runtime and the offline calibrator.\<close>

definition bin_of :: "u32 \<Rightarrow> u32 \<Rightarrow> u16 \<Rightarrow> nat" where
  "bin_of t horizon_ticks t_grid =
     (let g = (ucast t_grid :: u64); h = (if horizon_ticks = 0 then 1 else ucast horizon_ticks :: u64);
          b = ucast t * g div h in
      if g \<le> b then unat (g - 1) else unat b)"

definition CalibrationC_bin :: "CalibrationC \<Rightarrow> u32 \<Rightarrow> nat" where
  "CalibrationC_bin c t = bin_of t (cc_horizon_ticks c) (cc_t_grid c)"

definition CalibrationC_armed :: "CalibrationC \<Rightarrow> bool" where
  "CalibrationC_armed c \<longleftrightarrow> cc_mask c \<noteq> 0"

lemma bin_last:
  assumes "0 < unat t_grid" shows "unat ((ucast (t_grid :: u16) :: u64) - 1) = unat t_grid - 1"
proof -
  have "unat (ucast t_grid :: u64) = unat t_grid" by (simp add: unat_ucast_widen)
  moreover from this have "(ucast t_grid :: u64) \<noteq> 0" using assms by (metis unat_0 less_irrefl)
  ultimately show ?thesis by (simp add: unat_minus_one)
qed

text \<open>No intermediate product overflows: the bin is the exact quotient, capped at the last bin.\<close>

lemma bin_of_exact:
  assumes "0 < t_grid" "0 < h"
  shows "bin_of t h t_grid = min (unat t * unat t_grid div unat h) (unat t_grid - 1)"
proof -
  have u: "unat (ucast t :: u64) = unat t" "unat (ucast t_grid :: u64) = unat t_grid"
    "unat (ucast h :: u64) = unat h"
    by (simp_all add: unat_ucast_widen)
  have "unat t * unat t_grid < 2 ^ 32 * 2 ^ 16"
    using unat_bound [of t] unat_bound [of t_grid] by (intro mult_strict_mono) auto
  then have "unat (ucast t :: u64) * unat (ucast t_grid :: u64) < 2 ^ LENGTH(64)" using u by simp
  then have m: "unat (ucast t * ucast t_grid :: u64) = unat t * unat t_grid"
    using u unat_mult_lem [of "ucast t :: u64" "ucast t_grid"] by simp
  have g: "0 < unat t_grid" using assms(1) by (simp add: unat_gt_0 word_gt_0)
  then have g': "unat ((ucast t_grid :: u64) - 1) = unat t_grid - 1" by (rule bin_last)
  have "h \<noteq> 0" using assms(2) by auto
  then show ?thesis
    using u m g g' by (auto simp: bin_of_def Let_def word_le_nat_alt unat_div min_def)
qed

lemma bin_of_less:
  assumes "0 < t_grid" shows "bin_of t h t_grid < unat t_grid"
proof -
  have g: "0 < unat t_grid" using assms by (simp add: unat_gt_0 word_gt_0)
  have g': "unat (ucast t_grid :: u64) = unat t_grid" by (simp add: unat_ucast_widen)
  show ?thesis
    using g g' bin_last [OF g] by (auto simp: bin_of_def Let_def word_le_nat_alt not_le)
qed

end
