(* ===== verification/Envelope.thy ===== *)
theory Envelope
  imports Scores "HOL-Library.Char_ord"
begin

text \<open>
  The safety configuration of \<open>lictor-core/src/envelope.rs\<close>: the embodiment manifest, the envelope
  with its limits, brake model and hysteresis, their validation, and \<open>compile\<close>, which bakes an
  accepted envelope into the \<open>FuseConfig\<close> the hot path runs on.  An error carries the static head
  of its message; the formatted arguments are left out.  The TOML and JSON readers belong to other
  crates; the two digests \<open>compile\<close> stores are a parameter.  The lemmas show what a validated
  envelope guarantees, and that the compiled configuration is well formed: dimensions within the
  array bounds, a non-empty finite box, a window mask of the \<open>n\<close> low bits.
\<close>

definition MAX_OPERATORS :: nat where "MAX_OPERATORS = 8"

definition SCHEMA :: string where "SCHEMA = ''lictor-envelope/v1''"

text \<open>\<open>1e-9\<close>, the relative tolerance on the control period.\<close>

definition PERIOD_RTOL :: f64 where "PERIOD_RTOL = F64 0x3e112e0be826d695"

definition ARMABLE :: u32 where "ARMABLE = TRIP_TIER0_SOFT OR TRIP_BRAKE"

subsection \<open>The records\<close>

record EmbodimentManifest =
  em_id :: string
  em_units :: string
  em_action_kind :: ActionKind
  em_action_dim :: u16
  em_pos_dim :: u16
  em_horizon :: u16
  em_exec_steps :: u16
  em_control_hz_num :: u32
  em_control_hz_den :: u32
  em_provides_vel :: bool
  em_horizon_ticks :: u32
  em_norm_center :: "f64 list"
  em_norm_scale :: "f64 list"
  em_aux_layout :: "string list"
  em_ext_names :: "string list"

datatype BrakeKind = PdSecondOrder | FirstOrderDecay | BoundedAccel | JerkLimited | ZeroVelocityHold

record BrakeModel =
  bm_kind :: BrakeKind
  bm_k_p :: f64
  bm_k_v :: f64
  bm_substeps :: u16
  bm_dt :: f64
  bm_commit_steps :: u16
  bm_brake_steps :: u16
  bm_react_ticks :: u16

record ContactLimit =
  cl_radius :: f64
  cl_v_max :: f64
  cl_aux_center :: "u8 \<times> u8"

datatype ClampMode = ClampOff | Project

datatype RearmPolicy = AutoRearm | AckOnly

record Hysteresis =
  hy_k :: u8
  hy_n :: u8
  hy_warn_margin :: f64
  hy_clear_ticks :: u8
  hy_clamp_streak_to_brake :: u8
  hy_max_clamps_per_episode :: u16
  hy_stop_confirm_ticks :: u8
  hy_v_stop_eps :: f64
  hy_brake_timeout_ticks :: u16
  hy_rearm :: RearmPolicy
  hy_rearm_hold :: u16
  hy_max_rearms :: u8
  hy_escalate_after_hold_ticks :: u16
  hy_handoff_timeout_ticks :: u32
  hy_watchdog_ticks :: u8

record FitRecord =
  fr_source_run :: string
  fr_quantile :: f64
  fr_slack :: f64
  fr_n_episodes :: u32
  fr_fitted_utc :: string
  fr_note :: string

record SafetyEnvelope =
  se_schema :: string
  se_envelope_id :: string
  se_embodiment :: EmbodimentManifest
  se_box_lo :: "f64 list"
  se_box_hi :: "f64 list"
  se_margin :: f64
  se_v_max :: f64
  se_a_max :: f64
  se_j_max :: f64
  se_reach_max :: f64
  se_contact :: "ContactLimit option"
  se_brake :: BrakeModel
  se_clamp_mode :: ClampMode
  se_hysteresis :: Hysteresis
  se_tier0_enabled :: "string list"
  se_gate :: "string list"
  se_operators :: "string list"
  se_fit :: "FitRecord option"
  se_fail_closed :: bool

datatype EnvelopeError = ParseError string | Invalid string | InvalidGate GateError | Unsupported string

record FuseConfig =
  fc_envelope_digest :: "u8 list"
  fc_embodiment_digest :: "u8 list"
  fc_calib_digest :: "u8 list option"
  fc_mode :: FuseMode
  fc_kind :: ActionKind
  fc_dim :: nat
  fc_pos_dim :: nat
  fc_horizon :: nat
  fc_exec :: nat
  fc_overlap :: nat
  fc_dt :: f64
  fc_inv_dt :: f64
  fc_inv_dt2 :: f64
  fc_inv_dt3 :: f64
  fc_norm_center :: "f64 list"
  fc_inv_norm_scale :: "f64 list"
  fc_norm_scale_iso :: f64
  fc_box_lo :: "f64 list"
  fc_box_hi :: "f64 list"
  fc_v_max :: f64
  fc_a_max :: f64
  fc_j_max :: f64
  fc_reach_max :: f64
  fc_step_max :: f64
  fc_contact :: "ContactLimit option"
  fc_brake :: BrakeModel
  fc_clamp :: ClampMode
  fc_hyst :: Hysteresis
  fc_window_mask :: u64
  fc_tier0_enabled :: u32
  fc_n_operators :: u8
  fc_calib :: CalibrationC

subsection \<open>Validation\<close>

definition positive :: "f64 \<Rightarrow> bool" where
  "positive x \<longleftrightarrow> is_finite x \<and> 0 < x"

definition nonneg :: "f64 \<Rightarrow> bool" where
  "nonneg x \<longleftrightarrow> is_finite x \<and> 0 \<le> x"

definition is_hex_lower :: "char \<Rightarrow> bool" where
  "is_hex_lower c \<longleftrightarrow> (CHR ''0'' \<le> c \<and> c \<le> CHR ''9'') \<or> (CHR ''a'' \<le> c \<and> c \<le> CHR ''f'')"

definition is_hex64_lower :: "string \<Rightarrow> bool" where
  "is_hex64_lower s \<longleftrightarrow> length s = 64 \<and> list_all is_hex_lower s"

definition EmbodimentManifest_validate :: "EmbodimentManifest \<Rightarrow> EnvelopeError + unit" where
  "EmbodimentManifest_validate m =
     (let d = unat (em_action_dim m); pd = unat (em_pos_dim m) in
      fail_if (em_id m = []) (Invalid ''embodiment.id'') (
      fail_if (d = 0 \<or> MAX_D < d) (Invalid ''embodiment.action_dim'') (
      fail_if (pd = 0 \<or> MAX_POS < pd) (Invalid ''embodiment.pos_dim'') (
      fail_if (d \<noteq> pd) (Invalid ''embodiment.action_dim != pos_dim'') (
      fail_if (em_horizon m = 0 \<or> MAX_H < unat (em_horizon m)) (Invalid ''embodiment.horizon'') (
      fail_if (em_exec_steps m = 0 \<or> em_horizon m < em_exec_steps m) (Invalid ''embodiment.exec_steps'') (
      fail_if (em_control_hz_num m = 0 \<or> em_control_hz_den m = 0) (Invalid ''embodiment.control_hz'') (
      fail_if (em_horizon_ticks m = 0) (Invalid ''embodiment.horizon_ticks'') (
      fail_if (length (em_norm_center m) \<noteq> d \<or> length (em_norm_scale m) \<noteq> d)
        (Invalid ''embodiment.norm_center/norm_scale'') (
      fail_if (\<not> list_all is_finite (em_norm_center m)) (Invalid ''embodiment.norm_center'') (
      fail_if (\<not> list_all positive (em_norm_scale m)) (Invalid ''embodiment.norm_scale'') (
      fail_if (MAX_AUX < length (em_aux_layout m)) (Invalid ''embodiment.aux_layout'') (
      fail_if (MAX_EXT < length (em_ext_names m)) (Invalid ''embodiment.ext_names'') (
      Inr ()))))))))))))))"

definition SafetyEnvelope_dt :: "SafetyEnvelope \<Rightarrow> f64" where
  "SafetyEnvelope_dt e = f_of_int (uint (em_control_hz_den (se_embodiment e)))
     / f_of_int (uint (em_control_hz_num (se_embodiment e)))"

definition validate_brake :: "SafetyEnvelope \<Rightarrow> EnvelopeError + unit" where
  "validate_brake e =
     (let b = se_brake e; kind = em_action_kind (se_embodiment e);
          position_kind = (kind = EePosition \<or> kind = JointPosition);
          velocity_kind = (kind = JointVelocity \<or> kind = EeDelta) in
      fail_if (\<not> positive (bm_k_p b) \<or> \<not> positive (bm_k_v b)) (Invalid ''brake.k_p and brake.k_v'') (
      fail_if (\<not> positive (bm_dt b)) (Invalid ''brake.dt'') (
      fail_if (bm_substeps b = 0) (Invalid ''brake.substeps'') (
      fail_if (bm_commit_steps b = 0 \<or> em_horizon (se_embodiment e) < bm_commit_steps b)
        (Invalid ''brake.commit_steps'') (
      case bm_kind b of
        PdSecondOrder \<Rightarrow>
          fail_if (\<not> position_kind) (Invalid ''brake.kind = pd_second_order'') (
          let period = SafetyEnvelope_dt e; inner = f_of_int (uint (bm_substeps b)) * bm_dt b in
          fail_if (PERIOD_RTOL * period < fmath_abs (inner - period)) (Invalid ''brake: substeps * dt'') (Inr ()))
      | ZeroVelocityHold \<Rightarrow>
          fail_if (\<not> velocity_kind) (Invalid ''brake.kind = zero_velocity_hold'') (Inr ())
      | _ \<Rightarrow> Inr ())))))"

fun tier0_mask_from :: "string list \<Rightarrow> u32 \<Rightarrow> EnvelopeError + u32" where
  "tier0_mask_from [] m = Inr m"
| "tier0_mask_from (name # names) m = (case TripMask_from_name name of
      Some b \<Rightarrow> if has_bit b ARMABLE then tier0_mask_from names (m OR b)
                  else Inl (Invalid ''tier0_enabled'')
    | None \<Rightarrow> Inl (Invalid ''tier0_enabled''))"

definition tier0_mask :: "SafetyEnvelope \<Rightarrow> EnvelopeError + u32" where
  "tier0_mask e = tier0_mask_from (se_tier0_enabled e) 0"

text \<open>The per-dimension box check: every dimension of the margin-adjusted box is non-empty.\<close>

fun validate_box :: "f64 \<Rightarrow> (f64 \<times> f64) list \<Rightarrow> EnvelopeError + unit" where
  "validate_box margin [] = Inr ()"
| "validate_box margin ((lo, hi) # rest) =
     fail_if (\<not> is_finite lo \<or> \<not> is_finite hi) (Invalid ''box dim: finite'') (
     fail_if (hi - margin \<le> lo + margin) (Invalid ''box dim: lo + margin < hi - margin'') (
     validate_box margin rest))"

definition validate_contact :: "SafetyEnvelope \<Rightarrow> EnvelopeError + unit" where
  "validate_contact e = (case se_contact e of None \<Rightarrow> Inr ()
     | Some cl \<Rightarrow>
         (let n_aux = length (em_aux_layout (se_embodiment e)) in
          fail_if (\<not> positive (cl_radius cl) \<or> \<not> positive (cl_v_max cl)) (Invalid ''contact.radius and contact.v_max'') (
          fail_if (n_aux \<le> unat (fst (cl_aux_center cl)) \<or> n_aux \<le> unat (snd (cl_aux_center cl)))
            (Invalid ''contact.aux_center'') (Inr ()))))"

fun validate_operators :: "string list \<Rightarrow> string list \<Rightarrow> EnvelopeError + unit" where
  "validate_operators earlier [] = Inr ()"
| "validate_operators earlier (op # ops) =
     fail_if (\<not> is_hex64_lower op) (Invalid ''operators: 64 lowercase hex chars'') (
     fail_if (op \<in> set earlier) (Invalid ''operators: duplicate'') (
     validate_operators (earlier @ [op]) ops))"

definition validate_fit :: "SafetyEnvelope \<Rightarrow> EnvelopeError + unit" where
  "validate_fit e = (case se_fit e of None \<Rightarrow> Inr ()
     | Some fit \<Rightarrow>
         fail_if (\<not> is_finite (fr_quantile fit) \<or> fr_quantile fit \<le> 0 \<or> f_one < fr_quantile fit) (Invalid ''fit.quantile'') (
         fail_if (\<not> positive (fr_slack fit)) (Invalid ''fit.slack'') (Inr ())))"

text \<open>\<open>r?; rest\<close>: run \<open>r\<close> and go on, or return its error.\<close>

definition and_then :: "'e + 'a \<Rightarrow> ('a \<Rightarrow> 'e + 'b) \<Rightarrow> 'e + 'b" where
  "and_then r k = (case r of Inl e \<Rightarrow> Inl e | Inr v \<Rightarrow> k v)"

lemma and_then_Inr [simp]: "and_then r k = Inr v \<longleftrightarrow> (\<exists>x. r = Inr x \<and> k x = Inr v)"
  by (cases r) (simp_all add: and_then_def)

lemma and_then_ok [simp]: "and_then (Inr x) k = k x"
  by (simp add: and_then_def)

definition map_gate_err :: "GateError + 'a \<Rightarrow> EnvelopeError + 'a" where
  "map_gate_err r = (case r of Inl e \<Rightarrow> Inl (InvalidGate e) | Inr v \<Rightarrow> Inr v)"

lemma map_gate_err_Inr [simp]: "map_gate_err r = Inr v \<longleftrightarrow> r = Inr v"
  by (cases r) (simp_all add: map_gate_err_def)

definition SafetyEnvelope_validate :: "SafetyEnvelope \<Rightarrow> EnvelopeError + unit" where
  "SafetyEnvelope_validate e =
     (let pd = unat (em_pos_dim (se_embodiment e)); h = se_hysteresis e in
      fail_if (se_schema e \<noteq> SCHEMA) (Unsupported ''schema'') (
      fail_if (se_envelope_id e = []) (Invalid ''envelope_id'') (
      fail_if (\<not> se_fail_closed e) (Invalid ''fail_closed'') (
      and_then (EmbodimentManifest_validate (se_embodiment e)) (\<lambda>_.
      fail_if (length (se_box_lo e) \<noteq> pd \<or> length (se_box_hi e) \<noteq> pd) (Invalid ''box_lo/box_hi'') (
      fail_if (\<not> nonneg (se_margin e)) (Invalid ''margin'') (
      and_then (validate_box (se_margin e) (zip (se_box_lo e) (se_box_hi e))) (\<lambda>_.
      fail_if (\<not> positive (se_v_max e)) (Invalid ''v_max'') (
      fail_if (\<not> positive (se_a_max e)) (Invalid ''a_max'') (
      fail_if (\<not> positive (se_j_max e)) (Invalid ''j_max'') (
      fail_if (\<not> positive (se_reach_max e)) (Invalid ''reach_max'') (
      and_then (validate_contact e) (\<lambda>_.
      and_then (validate_brake e) (\<lambda>_.
      fail_if (hy_k h = 0 \<or> hy_n h < hy_k h \<or> 63 < hy_n h) (Invalid ''hysteresis: k, n'') (
      fail_if (\<not> nonneg (hy_warn_margin h)) (Invalid ''hysteresis.warn_margin'') (
      fail_if (\<not> nonneg (hy_v_stop_eps h)) (Invalid ''hysteresis.v_stop_eps'') (
      and_then (tier0_mask e) (\<lambda>t0.
      fail_if (has_bit t0 TRIP_CONTACT \<and> se_contact e = None) (Invalid ''tier0_enabled lists contact'') (
      and_then (map_gate_err (GateSpec_parse (se_gate e))) (\<lambda>_.
      fail_if (MAX_OPERATORS < length (se_operators e)) (Invalid ''operators exceed MAX_OPERATORS'') (
      and_then (validate_operators [] (se_operators e)) (\<lambda>_.
      validate_fit e))))))))))))))))))))))"

subsection \<open>Compilation\<close>

definition check_calibration :: "CalibrationC \<Rightarrow> EmbodimentManifest \<Rightarrow> EnvelopeError + unit" where
  "check_calibration c m =
     fail_if (cc_t_grid c = 0 \<or> T_GRID < unat (cc_t_grid c)) (Invalid ''calibration: t_grid'') (
     fail_if (cc_alpha_den c = 0) (Invalid ''calibration: alpha_den'') (
     fail_if (cc_mask c \<noteq> GateSpec_mask (cc_gate c)) (Invalid ''calibration: mask'') (
     fail_if (is_nan (cc_tau c)) (Invalid ''calibration: tau'') (
     fail_if (CalibrationC_armed c \<and> cc_horizon_ticks c \<noteq> em_horizon_ticks m)
       (Invalid ''calibration horizon_ticks'') (Inr ())))))"

text \<open>\<open>dst.iter_mut().zip(&src)\<close> writes: a zero-filled array of \<open>n\<close> entries with \<open>src\<close> in front.\<close>

definition padded :: "nat \<Rightarrow> f64 list \<Rightarrow> f64 list" where
  "padded n src = take n src @ replicate (n - length src) 0"

definition hex_nib :: "char \<Rightarrow> u8" where
  "hex_nib c = (if CHR ''0'' \<le> c \<and> c \<le> CHR ''9'' then of_char c - 48
     else if CHR ''a'' \<le> c \<and> c \<le> CHR ''f'' then of_char c - 97 + 10
     else if CHR ''A'' \<le> c \<and> c \<le> CHR ''F'' then of_char c - 65 + 10
     else 0)"

definition hex32 :: "string \<Rightarrow> u8 list" where
  "hex32 s = (if length s \<noteq> 64 then replicate 32 0
     else map (\<lambda>i. push_bit 4 (hex_nib (s ! (2 * i))) OR hex_nib (s ! (2 * i + 1))) [0..<32])"

text \<open>
  \<open>dig e\<close> and \<open>emdig m\<close> stand for \<open>digest_hex\<close> and \<open>embodiment_digest\<close>: SHA-256 over the
  canonical JSON that the serialisation crates derive from the records.
\<close>

definition SafetyEnvelope_compile ::
  "(SafetyEnvelope \<Rightarrow> string) \<Rightarrow> (EmbodimentManifest \<Rightarrow> string) \<Rightarrow> SafetyEnvelope \<Rightarrow> FuseMode \<Rightarrow>
     CalibrationC option \<Rightarrow> EnvelopeError + FuseConfig" where
  "SafetyEnvelope_compile dig emdig e mode calib =
     and_then (SafetyEnvelope_validate e) (\<lambda>_.
     let m = se_embodiment e; dt = SafetyEnvelope_dt e; inv_dt = f_one / dt; inv_dt2 = inv_dt * inv_dt;
         inv_dt3 = inv_dt2 * inv_dt in
     and_then (map_gate_err (GateSpec_parse (se_gate e))) (\<lambda>gate.
     and_then (case calib of
         Some c \<Rightarrow> and_then (check_calibration c m) (\<lambda>_. Inr c)
       | None \<Rightarrow> Inr (CalibrationC_DISARMED \<lparr> cc_gate := gate, cc_mask := GateSpec_mask gate,
                       cc_horizon_ticks := em_horizon_ticks m \<rparr>)) (\<lambda>cal.
     and_then (tier0_mask e) (\<lambda>t0.
     Inr \<lparr> fc_envelope_digest = hex32 (dig e), fc_embodiment_digest = hex32 (emdig m),
           fc_calib_digest = map_option cc_digest calib, fc_mode = mode, fc_kind = em_action_kind m,
           fc_dim = unat (em_action_dim m), fc_pos_dim = unat (em_pos_dim m),
           fc_horizon = unat (em_horizon m), fc_exec = unat (em_exec_steps m),
           fc_overlap = unat (em_horizon m) - unat (em_exec_steps m),
           fc_dt = dt, fc_inv_dt = inv_dt, fc_inv_dt2 = inv_dt2, fc_inv_dt3 = inv_dt3,
           fc_norm_center = padded MAX_D (em_norm_center m),
           fc_inv_norm_scale = padded MAX_D (map (\<lambda>s. f_one / s) (em_norm_scale m)),
           fc_norm_scale_iso = foldl fmath_min f_inf (em_norm_scale m),
           fc_box_lo = padded MAX_POS (map (\<lambda>x. x + se_margin e) (se_box_lo e)),
           fc_box_hi = padded MAX_POS (map (\<lambda>x. x - se_margin e) (se_box_hi e)),
           fc_v_max = se_v_max e, fc_a_max = se_a_max e, fc_j_max = se_j_max e,
           fc_reach_max = se_reach_max e, fc_step_max = se_v_max e * dt, fc_contact = se_contact e,
           fc_brake = se_brake e, fc_clamp = se_clamp_mode e, fc_hyst = se_hysteresis e,
           fc_window_mask = push_bit (unat (hy_n (se_hysteresis e))) 1 - 1,
           fc_tier0_enabled = t0, fc_n_operators = of_nat (length (se_operators e)),
           fc_calib = cal \<rparr>))))"


subsection \<open>What an accepted envelope guarantees\<close>

lemma fail_if_ok [simp]: "fail_if c e r = Inr v \<longleftrightarrow> \<not> c \<and> r = Inr v"
  by (rule fail_if_Inr)

definition box_ok :: "f64 list \<Rightarrow> f64 list \<Rightarrow> nat \<Rightarrow> bool" where
  "box_ok lo hi n \<longleftrightarrow> n \<le> length lo \<and> n \<le> length hi \<and>
     (\<forall>c < n. is_finite (lo ! c) \<and> is_finite (hi ! c) \<and> lo ! c < hi ! c)"

lemma validate_box_nth:
  "validate_box m ps = Inr () \<Longrightarrow> i < length ps \<Longrightarrow>
     is_finite (fst (ps ! i)) \<and> is_finite (snd (ps ! i)) \<and> \<not> snd (ps ! i) - m \<le> fst (ps ! i) + m"
proof (induction m ps arbitrary: i rule: validate_box.induct)
  case (2 m lo hi rest)
  then show ?case by (cases i) auto
qed simp

lemma plus_nonneg_ge:
  assumes "is_finite x" "is_finite m" "0 \<le> m" shows "x \<le> x + m" "x - m \<le> x"
proof -
  have "0 \<le> fval m" using assms(2,3) f_le_fval [of 0 m] by (simp add: is_finite_def fval_def f_mag_def f_sign_def zero_f64_def inf_mag_def)
  then show "x \<le> x + m" "x - m \<le> x"
    using rounds_to_ge [OF rounds_to_plus [OF assms(1,2)] assms(1)]
      rounds_to_le [OF rounds_to_minus [OF assms(1,2)] assms(1)] by simp_all
qed

text \<open>The margin-adjusted box of an accepted envelope is finite and non-empty in every dimension.\<close>

lemma validate_box_adjusted:
  assumes v: "validate_box m (zip lo hi) = Inr ()" and m: "nonneg m" and i: "i < length lo" "i < length hi"
  shows "is_finite (lo ! i + m)" "is_finite (hi ! i - m)" "lo ! i + m < hi ! i - m"
proof -
  have b: "is_finite (lo ! i)" "is_finite (hi ! i)" "\<not> hi ! i - m \<le> lo ! i + m"
    using validate_box_nth [OF v, of i] i by auto
  have m': "is_finite m" "0 \<le> m" using m by (auto simp: nonneg_def)
  have nn: "\<not> is_nan (lo ! i + m)" "\<not> is_nan (hi ! i - m)"
    using rounds_to_not_nan rounds_to_plus rounds_to_minus b(1,2) m'(1) by blast+
  then show lt: "lo ! i + m < hi ! i - m"
    using b(3) f_not_less [of "lo ! i + m" "hi ! i - m"] by auto
  have g: "lo ! i \<le> lo ! i + m" "hi ! i - m \<le> hi ! i"
    using plus_nonneg_ge b m' by blast+
  then have "lo ! i + m \<le> hi ! i" "lo ! i \<le> hi ! i - m"
    using lt f_less_imp_le f_le_trans by blast+
  then show "is_finite (lo ! i + m)" "is_finite (hi ! i - m)"
    using f_between_finite b(1,2) g by blast+
qed

lemma padded_nth: "length xs \<le> n \<Longrightarrow> i < length xs \<Longrightarrow> padded n xs ! i = xs ! i"
  by (simp add: padded_def nth_append)

lemma length_padded [simp]: "length (padded n xs) = n"
  by (simp add: padded_def)

lemma validate_operators_ok:
  "validate_operators earlier ops = Inr () \<Longrightarrow>
     list_all is_hex64_lower ops \<and> distinct ops \<and> set earlier \<inter> set ops = {}"
  by (induction earlier ops rule: validate_operators.induct) auto

lemma tier0_mask_from_sub:
  "tier0_mask_from names m = Inr t \<Longrightarrow> m AND ARMABLE = m \<Longrightarrow> t AND ARMABLE = t"
proof (induction names m rule: tier0_mask_from.induct)
  case (2 name names m)
  then obtain b where b: "TripMask_from_name name = Some b" "has_bit b ARMABLE"
    and r: "tier0_mask_from names (m OR b) = Inr t"
    by (auto split: option.splits if_splits)
  obtain i where i: "i < 16" "b = 2 ^ i"
    using b(1) by (auto simp: TripMask_from_name_def trip_names.lookup_Some length_TripMask_NAMES)
  have "b AND ARMABLE = b"
  proof (rule bit_word_eqI)
    fix n assume "n < LENGTH(32)"
    have "bit ARMABLE i"
      using b(2) has_bit_exp [of i ARMABLE] i by (simp add: has_bit_def and.commute)
    then show "bit (b AND ARMABLE) n = bit b n" by (auto simp: i(2) bit_and_iff bit_exp_iff)
  qed
  then have "(m OR b) AND ARMABLE = m OR b" using 2(3) by (simp add: bit.conj_disj_distrib2)
  then show ?case using "2.IH" b r by blast
qed simp

lemma tier0_mask_sub: "tier0_mask e = Inr t \<Longrightarrow> t AND ARMABLE = t"
  unfolding tier0_mask_def by (erule tier0_mask_from_sub) simp

subsection \<open>Well-formed configurations\<close>

definition CalibrationC_wf :: "CalibrationC \<Rightarrow> bool" where
  "CalibrationC_wf c \<longleftrightarrow> 0 < unat (cc_t_grid c) \<and> unat (cc_t_grid c) \<le> T_GRID \<and>
     cc_mask c = GateSpec_mask (cc_gate c) \<and> \<not> is_nan (cc_tau c)"

definition FuseConfig_wf :: "FuseConfig \<Rightarrow> bool" where
  "FuseConfig_wf cfg \<longleftrightarrow>
     0 < fc_dim cfg \<and> fc_dim cfg \<le> MAX_D \<and> fc_pos_dim cfg = fc_dim cfg \<and> fc_dim cfg \<le> MAX_POS \<and>
     0 < fc_exec cfg \<and> fc_exec cfg \<le> fc_horizon cfg \<and> fc_horizon cfg \<le> MAX_H \<and>
     length (fc_box_lo cfg) = MAX_POS \<and> length (fc_box_hi cfg) = MAX_POS \<and>
     box_ok (fc_box_lo cfg) (fc_box_hi cfg) (fc_pos_dim cfg) \<and>
     0 < hy_k (fc_hyst cfg) \<and> hy_k (fc_hyst cfg) \<le> hy_n (fc_hyst cfg) \<and> hy_n (fc_hyst cfg) \<le> 63 \<and>
     fc_window_mask cfg = mask (unat (hy_n (fc_hyst cfg))) \<and>
     fc_tier0_enabled cfg AND ARMABLE = fc_tier0_enabled cfg \<and>
     0 < unat (bm_commit_steps (fc_brake cfg)) \<and> unat (bm_commit_steps (fc_brake cfg)) \<le> fc_horizon cfg \<and>
     CalibrationC_wf (fc_calib cfg)"

lemma DISARMED_calibration_wf:
  "CalibrationC_wf (CalibrationC_DISARMED \<lparr> cc_gate := g, cc_mask := GateSpec_mask g, cc_horizon_ticks := t \<rparr>)"
  by (simp add: CalibrationC_wf_def CalibrationC_DISARMED_def T_GRID_def is_nan_def f_inf_def inf_mag_def f_mag_def)

lemma compile_wf:
  assumes "SafetyEnvelope_compile dig emdig e mode calib = Inr cfg"
  shows "FuseConfig_wf cfg"
proof -
  let ?m = "se_embodiment e" and ?h = "se_hysteresis e"
  have v: "SafetyEnvelope_validate e = Inr ()"
    using assms by (auto simp: SafetyEnvelope_compile_def)
  then have mv: "EmbodimentManifest_validate ?m = Inr ()"
    and bl: "length (se_box_lo e) = unat (em_pos_dim ?m)" "length (se_box_hi e) = unat (em_pos_dim ?m)"
    and mg: "nonneg (se_margin e)" and bx: "validate_box (se_margin e) (zip (se_box_lo e) (se_box_hi e)) = Inr ()"
    and br: "validate_brake e = Inr ()"
    and hk: "hy_k ?h \<noteq> 0" "hy_k ?h \<le> hy_n ?h" "hy_n ?h \<le> 63"
    unfolding SafetyEnvelope_validate_def Let_def fail_if_ok and_then_Inr by (simp_all add: not_less)
  from mv have d: "0 < unat (em_action_dim ?m)" "unat (em_action_dim ?m) \<le> MAX_D"
    "unat (em_pos_dim ?m) = unat (em_action_dim ?m)" "unat (em_pos_dim ?m) \<le> MAX_POS"
    "unat (em_horizon ?m) \<le> MAX_H" "em_exec_steps ?m \<noteq> 0" "em_exec_steps ?m \<le> em_horizon ?m"
    unfolding EmbodimentManifest_validate_def Let_def fail_if_ok by (simp_all add: not_less)
  from br have cs: "bm_commit_steps (se_brake e) \<noteq> 0" "bm_commit_steps (se_brake e) \<le> em_horizon ?m"
    unfolding validate_brake_def Let_def fail_if_ok by (simp_all add: not_less)
  obtain gate cal t0 where g: "GateSpec_parse (se_gate e) = Inr gate" and t0: "tier0_mask e = Inr t0"
    and cal: "(case calib of Some c \<Rightarrow> and_then (check_calibration c ?m) (\<lambda>_. Inr c)
       | None \<Rightarrow> Inr (CalibrationC_DISARMED \<lparr> cc_gate := gate, cc_mask := GateSpec_mask gate,
                       cc_horizon_ticks := em_horizon_ticks ?m \<rparr>)) = Inr cal"
    and f: "fc_dim cfg = unat (em_action_dim ?m)" "fc_pos_dim cfg = unat (em_pos_dim ?m)"
      "fc_horizon cfg = unat (em_horizon ?m)" "fc_exec cfg = unat (em_exec_steps ?m)"
      "fc_box_lo cfg = padded MAX_POS (map (\<lambda>x. x + se_margin e) (se_box_lo e))"
      "fc_box_hi cfg = padded MAX_POS (map (\<lambda>x. x - se_margin e) (se_box_hi e))"
      "fc_hyst cfg = ?h" "fc_window_mask cfg = push_bit (unat (hy_n ?h)) 1 - 1"
      "fc_tier0_enabled cfg = t0" "fc_brake cfg = se_brake e" "fc_calib cfg = cal"
    using assms unfolding SafetyEnvelope_compile_def Let_def and_then_Inr map_gate_err_Inr by auto
  have cal_wf: "CalibrationC_wf cal"
  proof (cases calib)
    case None
    then show ?thesis using cal DISARMED_calibration_wf by auto
  next
    case (Some c)
    then have "check_calibration c ?m = Inr ()" "cal = c" using cal by auto
    then show ?thesis
      unfolding check_calibration_def fail_if_ok CalibrationC_wf_def by (auto simp: unat_gt_0 not_less)
  qed
  have box: "box_ok (fc_box_lo cfg) (fc_box_hi cfg) (fc_pos_dim cfg)"
    unfolding box_ok_def f
    using d(4) bl validate_box_adjusted [OF bx mg] by (simp add: padded_nth)
  have msk: "fc_window_mask cfg = mask (unat (hy_n ?h))"
    unfolding f by (simp add: mask_eq_exp_minus_1)
  show ?thesis
    unfolding FuseConfig_wf_def using d hk cs cal_wf box msk tier0_mask_sub [OF t0]
    by (simp add: f unat_gt_0 word_gt_0 word_le_nat_alt)
qed

end
