(* ===== verification/Tier0.thy ===== *)
theory Tier0
  imports Envelope
begin

text \<open>
  \<open>lictor-detect/src/tier0.rs\<close>: the Tier-0 geometric checks and the direction-preserving
  projection.  The loops are folds over the row indices; a fixed array \<open>[f64; MAX_D]\<close> is a list of
  32 floats whose first \<open>d\<close> entries are live.  The lemmas characterise every trip bit by the limit
  it stands for, show that rows inside every armed limit come out of the projection as they went
  in, and that the projection keeps every row inside the box: a leash moves a coordinate between
  two points of the box, and the shrink factor \<open>1 - 2^-36\<close> outweighs the rounding of the step.
\<close>

record Tier0Out =
  t0_trips :: u32
  t0_clamped_dims :: u32
  t0_peak_speed :: f64

definition Tier0Out_default :: Tier0Out where
  "Tier0Out_default = \<lparr> t0_trips = 0, t0_clamped_dims = 0, t0_peak_speed = 0 \<rparr>"

definition f_two :: f64 where "f_two = F64 0x4000000000000000"
definition f_three :: f64 where "f_three = F64 0x4008000000000000"

definition LEASH_SHRINK :: f64 where
  "LEASH_SHRINK = f_one - f_one / f_of_int 68719476736"

record Arm =
  arm_workspace :: bool
  arm_speed :: bool
  arm_accel :: bool
  arm_jerk :: bool
  arm_reach :: bool
  arm_contact :: bool
  arm_step_contact :: f64

definition Arm_resolve :: "FuseConfig \<Rightarrow> ObsView \<Rightarrow> Arm" where
  "Arm_resolve cfg obs =
     (let en = fc_tier0_enabled cfg;
          (contact, step_contact) =
            (if has_bit en TRIP_CONTACT then
               (case fc_contact cfg of None \<Rightarrow> (False, 0)
                | Some cl \<Rightarrow>
                    (let i0 = unat (fst (cl_aux_center cl)); i1 = unat (snd (cl_aux_center cl)) in
                     if 2 \<le> length (ov_pos obs) \<and> i0 < length (ov_aux obs) \<and> i1 < length (ov_aux obs) then
                       (let centre = [ov_aux obs ! i0, ov_aux obs ! i1];
                            dist = fmath_dist (ov_pos obs) centre 2 in
                        if dist \<le> cl_radius cl then (True, cl_v_max cl * fc_dt cfg) else (False, 0))
                     else (False, 0)))
             else (False, 0)) in
      \<lparr> arm_workspace = has_bit en TRIP_WORKSPACE, arm_speed = has_bit en TRIP_SPEED,
        arm_accel = has_bit en TRIP_ACCEL, arm_jerk = has_bit en TRIP_JERK,
        arm_reach = has_bit en TRIP_REACH, arm_contact = contact, arm_step_contact = step_contact \<rparr>)"

definition Arm_leash :: "Arm \<Rightarrow> f64 \<Rightarrow> f64 option" where
  "Arm_leash arm step_max =
     (case (arm_speed arm, arm_contact arm) of
        (True, True) \<Rightarrow> Some (fmath_min step_max (arm_step_contact arm))
      | (True, False) \<Rightarrow> Some step_max
      | (False, True) \<Rightarrow> Some (arm_step_contact arm)
      | (False, False) \<Rightarrow> None)"

subsection \<open>The projection of one row\<close>

text \<open>The three stages of \<open>Proj::row\<close>: box clamp, step leash, and on the first row the reach pull.\<close>

definition proj_box :: "FuseConfig \<Rightarrow> Arm \<Rightarrow> nat \<Rightarrow> f64 list \<Rightarrow> f64 list" where
  "proj_box cfg arm nb a =
     (if arm_workspace arm
      then set_prefix nb (\<lambda>c. fmath_clamp (a ! c) (fc_box_lo cfg ! c) (fc_box_hi cfg ! c)) a else a)"

definition proj_leash :: "f64 option \<Rightarrow> nat \<Rightarrow> f64 list \<Rightarrow> f64 list \<Rightarrow> f64 list" where
  "proj_leash leash d q a = (case leash of None \<Rightarrow> a
     | Some step \<Rightarrow>
         (let n = fmath_dist a q d in
          if step < n then (let s = step * LEASH_SHRINK / n in set_prefix d (\<lambda>c. q ! c + (a ! c - q ! c) * s) a)
          else a))"

definition proj_reach :: "FuseConfig \<Rightarrow> Arm \<Rightarrow> f64 list \<Rightarrow> nat \<Rightarrow> bool \<Rightarrow> f64 list \<Rightarrow> f64 list" where
  "proj_reach cfg arm pos nb first a =
     (if first \<and> arm_reach arm \<and> 0 < nb then
        (let r = fmath_dist a pos nb in
         if fc_reach_max cfg < r then
           (let s = fc_reach_max cfg * LEASH_SHRINK / r in
            set_prefix nb (\<lambda>c. pos ! c + (a ! c - pos ! c) * s) a)
         else a)
      else a)"

definition proj_row ::
  "FuseConfig \<Rightarrow> f64 list \<Rightarrow> Arm \<Rightarrow> f64 option \<Rightarrow> nat \<Rightarrow> nat \<Rightarrow> bool \<Rightarrow> f64 list \<Rightarrow> f64 list \<Rightarrow> f64 list" where
  "proj_row cfg pos arm leash nb d first q a =
     proj_reach cfg arm pos nb first (proj_leash leash d q (proj_box cfg arm nb a))"

definition box_dims :: "FuseConfig \<Rightarrow> ObsView \<Rightarrow> nat \<Rightarrow> nat" where
  "box_dims cfg obs d = min (min d (fc_pos_dim cfg)) (min (length (ov_pos obs)) MAX_POS)"

text \<open>The comparison is the numeric \<open>!=\<close>: two zeros of different sign do not count as moved.\<close>

definition moved_dims :: "f64 list \<Rightarrow> f64 list \<Rightarrow> nat \<Rightarrow> u32" where
  "moved_dims raw a d = foldl (\<lambda>m c. or_if (\<not> f_eq (a ! c) (raw ! c)) (push_bit c 1) m) 0 [0..<d]"

definition outside_box :: "FuseConfig \<Rightarrow> f64 list \<Rightarrow> nat \<Rightarrow> bool" where
  "outside_box cfg a nb =
     list_ex (\<lambda>c. a ! c < fc_box_lo cfg ! c \<or> a ! c > fc_box_hi cfg ! c) [0..<nb]"

subsection \<open>The whole-chunk check\<close>

definition raw_row :: "ChunkView \<Rightarrow> nat \<Rightarrow> nat \<Rightarrow> f64 list" where
  "raw_row ch d i = slice (i * d) d (cv_data ch)"

text \<open>\<open>q_{-1}\<close>: the position where the frames coincide, the first row beyond.\<close>

definition chunk_q0 :: "ObsView \<Rightarrow> ChunkView \<Rightarrow> nat \<Rightarrow> nat \<Rightarrow> f64 list" where
  "chunk_q0 obs ch d nb = blit nb (ov_pos obs) (blit d (raw_row ch d 0) (replicate MAX_D 0))"

definition prev_row :: "f64 list \<Rightarrow> ChunkView \<Rightarrow> nat \<Rightarrow> nat \<Rightarrow> f64 list" where
  "prev_row q0 ch d i = (if i = 0 then take d q0 else raw_row ch d (i - 1))"

definition step_len :: "f64 list \<Rightarrow> ChunkView \<Rightarrow> nat \<Rightarrow> nat \<Rightarrow> f64" where
  "step_len q0 ch d i = (if i = 0 then fmath_dist (raw_row ch d i) q0 d
     else fmath_dist (raw_row ch d i) (raw_row ch d (i - 1)) d)"

definition trip_step ::
  "FuseConfig \<Rightarrow> Arm \<Rightarrow> f64 list \<Rightarrow> ChunkView \<Rightarrow> nat \<Rightarrow> nat \<Rightarrow> u32 \<times> f64 \<Rightarrow> nat \<Rightarrow> u32 \<times> f64" where
  "trip_step cfg arm q0 ch d nb st i =
     (case st of (trips, peak) \<Rightarrow>
        (let a = raw_row ch d i; n = step_len q0 ch d i; peak = fmath_max peak n in
         (or_if (arm_workspace arm \<and> outside_box cfg a nb) TRIP_WORKSPACE
            (or_if (arm_contact arm \<and> n > arm_step_contact arm) TRIP_CONTACT
              (or_if (arm_speed arm \<and> n > fc_step_max cfg) TRIP_SPEED trips)), peak)))"

definition accel_norm :: "f64 list \<Rightarrow> ChunkView \<Rightarrow> nat \<Rightarrow> nat \<Rightarrow> f64" where
  "accel_norm q0 ch d i =
     (let am1 = prev_row q0 ch d i; a0 = raw_row ch d i; a1 = raw_row ch d (i + 1) in
      fmath_norm (map (\<lambda>c. (a1 ! c - f_two * a0 ! c) + am1 ! c) [0..<d]) d)"

definition jerk_norm :: "f64 list \<Rightarrow> ChunkView \<Rightarrow> nat \<Rightarrow> nat \<Rightarrow> f64" where
  "jerk_norm q0 ch d i =
     (let am1 = prev_row q0 ch d i; a0 = raw_row ch d i; a1 = raw_row ch d (i + 1); a2 = raw_row ch d (i + 2) in
      fmath_norm (map (\<lambda>c. ((a2 ! c - f_three * a1 ! c) + f_three * a0 ! c) - am1 ! c) [0..<d]) d)"

definition chunk_trips :: "FuseConfig \<Rightarrow> ObsView \<Rightarrow> ChunkView \<Rightarrow> nat \<Rightarrow> nat \<Rightarrow> u32 \<times> f64" where
  "chunk_trips cfg obs ch d h =
     (let nb = box_dims cfg obs d; arm = Arm_resolve cfg obs; q0 = chunk_q0 obs ch d nb;
          (trips, peak) = foldl (trip_step cfg arm q0 ch d nb) (0, 0) [0..<h];
          trips = foldl (\<lambda>m i. or_if (accel_norm q0 ch d i * fc_inv_dt2 cfg > fc_a_max cfg) TRIP_ACCEL m) trips
                    (if arm_accel arm \<and> 2 \<le> h then [0..<h - 1] else []);
          trips = foldl (\<lambda>m i. or_if (jerk_norm q0 ch d i * fc_inv_dt3 cfg > fc_j_max cfg) TRIP_JERK m) trips
                    (if arm_jerk arm \<and> 3 \<le> h then [0..<h - 2] else []);
          trips = or_if (arm_reach arm \<and> 0 < nb \<and>
                         fmath_dist (raw_row ch d 0) (ov_pos obs) nb > fc_reach_max cfg) TRIP_REACH trips in
      (trips, peak))"

text \<open>One iteration of the projection loop on \<open>(out, clamped, q, a)\<close>.\<close>

definition project_step ::
  "FuseConfig \<Rightarrow> ObsView \<Rightarrow> ChunkView \<Rightarrow> nat \<Rightarrow> ChunkBuf \<times> u32 \<times> f64 list \<times> f64 list \<Rightarrow> nat \<Rightarrow>
     ChunkBuf \<times> u32 \<times> f64 list \<times> f64 list" where
  "project_step cfg obs ch d st i =
     (case st of (out, clamped, q, a) \<Rightarrow>
        (let raw = raw_row ch d i; arm = Arm_resolve cfg obs;
             a = proj_row cfg (ov_pos obs) arm (Arm_leash arm (fc_step_max cfg)) (box_dims cfg obs d) d (i = 0) q
                   (blit d raw a) in
         (ChunkBuf_set_row out i (take d a), clamped OR moved_dims raw a d, a, a)))"

definition chunk_rows :: "ChunkView \<Rightarrow> nat" where
  "chunk_rows ch = (let d = min (unat (cv_dim ch)) MAX_D in
     min (min (unat (cv_horizon ch)) MAX_H) (length (cv_data ch) div d))"

definition check_chunk :: "FuseConfig \<Rightarrow> ObsView \<Rightarrow> ChunkView \<Rightarrow> ChunkBuf \<Rightarrow> Tier0Out \<times> ChunkBuf" where
  "check_chunk cfg obs ch out0 =
     (let out = ChunkBuf_copy_from out0 ch; d = min (unat (cv_dim ch)) MAX_D; h = chunk_rows ch in
      if d = 0 then (Tier0Out_default, out)
      else if h = 0 then (Tier0Out_default, out)
      else
        let (trips, peak) = chunk_trips cfg obs ch d h;
            res = Tier0Out_default \<lparr> t0_trips := trips, t0_peak_speed := peak * fc_inv_dt cfg \<rparr> in
        if fc_clamp cfg \<noteq> Project then (res, out)
        else
          let q0 = chunk_q0 obs ch d (box_dims cfg obs d);
              (out, clamped, _, _) = foldl (project_step cfg obs ch d) (out, 0, q0, replicate MAX_D 0) [0..<h] in
          (res \<lparr> t0_clamped_dims := clamped \<rparr>, out))"

subsection \<open>The intra-chunk check of the committed action\<close>

text \<open>\<open>out_len\<close> is the length of the row slice the result is written into; the result row is returned.\<close>

definition check_action :: "FuseConfig \<Rightarrow> ObsView \<Rightarrow> f64 list \<Rightarrow> f64 list \<Rightarrow> f64 list \<Rightarrow> Tier0Out \<times> f64 list" where
  "check_action cfg obs prev a out =
     (let d = min (min (fc_dim cfg) MAX_D) (min (length a) (min (length prev) (length out))) in
      if d = 0 then (Tier0Out_default, out)
      else
        let nb = box_dims cfg obs d; arm = Arm_resolve cfg obs; n = fmath_dist a prev d;
            trips = or_if (arm_speed arm \<and> n > fc_step_max cfg) TRIP_SPEED 0;
            trips = or_if (arm_contact arm \<and> n > arm_step_contact arm) TRIP_CONTACT trips;
            trips = or_if (arm_workspace arm \<and> outside_box cfg a nb) TRIP_WORKSPACE trips;
            trips = or_if (arm_reach arm \<and> 0 < nb \<and> fmath_dist a (ov_pos obs) nb > fc_reach_max cfg) TRIP_REACH trips;
            res = Tier0Out_default \<lparr> t0_trips := trips, t0_peak_speed := n * fc_inv_dt cfg \<rparr>;
            q = blit d prev (replicate MAX_D 0);
            p = blit d a (replicate MAX_D 0) in
        if fc_clamp cfg = Project then
          let p' = proj_row cfg (ov_pos obs) arm (Arm_leash arm (fc_step_max cfg)) nb d True q p in
          (res \<lparr> t0_clamped_dims := moved_dims a p' d \<rparr>, blit d p' out)
        else (res, blit d p out))"

subsection \<open>The box is kept\<close>

definition in_box :: "f64 list \<Rightarrow> f64 list \<Rightarrow> nat \<Rightarrow> f64 list \<Rightarrow> bool" where
  "in_box lo hi n a \<longleftrightarrow> (\<forall>c < n. lo ! c \<le> a ! c \<and> a ! c \<le> hi ! c)"

text \<open>The widths of the box do not overflow.\<close>

definition width_ok :: "f64 list \<Rightarrow> f64 list \<Rightarrow> nat \<Rightarrow> bool" where
  "width_ok lo hi n \<longleftrightarrow> (\<forall>c < n. is_finite (hi ! c - lo ! c))"

text \<open>A leash limit is a finite float of at least \<open>2^-1000\<close>.\<close>

definition limit_ok :: "f64 \<Rightarrow> bool" where
  "limit_ok x \<longleftrightarrow> is_finite x \<and> F64 0x0170000000000000 \<le> x"

definition leash_ok :: "FuseConfig \<Rightarrow> bool" where
  "leash_ok cfg \<longleftrightarrow> limit_ok (fc_step_max cfg) \<and> limit_ok (fc_reach_max cfg) \<and>
     (case fc_contact cfg of None \<Rightarrow> True | Some cl \<Rightarrow> limit_ok (cl_v_max cl * fc_dt cfg))"

lemma LEASH_SHRINK_eq: "LEASH_SHRINK = F64 0x3feffffffffe0000"
  by code_simp

lemma LEASH_SHRINK_val: "is_finite LEASH_SHRINK" "fval LEASH_SHRINK = 1 - 1 / 68719476736"
  by (simp_all add: LEASH_SHRINK_eq is_finite_def inf_mag_def fval_def f_sign_def f_mag_def mag_val_def
      mag_man_def mag_exp_def)

lemma rounds_to_finite_abs:
  assumes "rounds_to r z" "rounds_to r' z'" "\<bar>r\<bar> \<le> \<bar>r'\<bar>" "is_finite z'"
  shows "is_finite z"
proof -
  obtain n where n: "rne \<bar>r\<bar> n" "f_mag z = min inf_mag n" using assms(1) by (auto simp: rounds_to_def)
  obtain n' where n': "rne \<bar>r'\<bar> n'" "f_mag z' = min inf_mag n'" using assms(2) by (auto simp: rounds_to_def)
  have "n \<le> n'" using rne_mono [OF n(1) n'(1) assms(3)] .
  then show ?thesis using n(2) n'(2) assms(4) by (simp add: is_finite_def)
qed

lemma in_box_finite:
  "box_ok lo hi n \<Longrightarrow> in_box lo hi n a \<Longrightarrow> c < n \<Longrightarrow> is_finite (a ! c)"
  unfolding box_ok_def in_box_def using f_between_finite by blast

lemma in_box_all_finite:
  "box_ok lo hi n \<Longrightarrow> in_box lo hi n a \<Longrightarrow> n \<le> length a \<Longrightarrow> all_finite (take n a)"
  using in_box_finite by (auto simp: all_finite_def list_all_length)

text \<open>Pulling a point of the box towards another one stays in the box.\<close>

lemma pull_in_box:
  assumes box: "box_ok lo hi n" "width_ok lo hi n" and q: "in_box lo hi n q" "n \<le> length q"
    and a: "in_box lo hi n a" "n \<le> length a"
    and l: "limit_ok l" "l < fmath_dist a q n"
  shows "in_box lo hi n
    (set_prefix n (\<lambda>c. q ! c + (a ! c - q ! c) * (l * LEASH_SHRINK / fmath_dist a q n)) a)"
proof -
  let ?s = "l * LEASH_SHRINK / fmath_dist a q n"
  have "f_nonneg (fmath_dist a q n)"
    by (rule f_nonneg_dist [OF in_box_all_finite [OF box(1) a] in_box_all_finite [OF box(1) q]])
  then have s: "is_finite ?s" "0 \<le> fval ?s" "fval ?s \<le> 1 - 1 / 1099511627776"
    using leash_factor [OF _ _ LEASH_SHRINK_val l(2)] l(1) unfolding limit_ok_def by blast+
  have "lo ! c \<le> q ! c + (a ! c - q ! c) * ?s \<and> q ! c + (a ! c - q ! c) * ?s \<le> hi ! c" if c: "c < n" for c
  proof -
    have fin: "is_finite (q ! c)" "is_finite (a ! c)" "is_finite (lo ! c)" "is_finite (hi ! c)"
      using in_box_finite box(1) q(1) a(1) c box(1) unfolding box_ok_def by blast+
    have le: "lo ! c \<le> q ! c" "q ! c \<le> hi ! c" "lo ! c \<le> a ! c" "a ! c \<le> hi ! c"
      using q(1) a(1) c unfolding in_box_def by blast+
    have "\<bar>fval (a ! c) - fval (q ! c)\<bar> \<le> \<bar>fval (hi ! c) - fval (lo ! c)\<bar>"
      using le fin by (simp add: f_le_fval)
    moreover have "is_finite (hi ! c - lo ! c)" using box(2) c by (simp add: width_ok_def)
    ultimately have d: "is_finite (a ! c - q ! c)"
      using rounds_to_finite_abs rounds_to_minus fin by blast
    show ?thesis
      using leash_between [OF fin(1,2) d s fin(3) le(1,3) fin(4) le(2,4)] by blast
  qed
  then show ?thesis using a(2) by (simp add: in_box_def nth_set_prefix)
qed

lemma clamp_in_box:
  assumes "box_ok lo hi n" "n \<le> length a" "all_finite (take n a)"
  shows "in_box lo hi n (set_prefix n (\<lambda>c. fmath_clamp (a ! c) (lo ! c) (hi ! c)) a)"
proof -
  have "lo ! c \<le> fmath_clamp (a ! c) (lo ! c) (hi ! c) \<and> fmath_clamp (a ! c) (lo ! c) (hi ! c) \<le> hi ! c"
    if c: "c < n" for c
  proof -
    have "is_finite (a ! c)" using all_finite_nth [OF assms(3), of c] assms(2) c by simp
    moreover have "lo ! c \<le> hi ! c" using assms(1) c f_less_imp_le unfolding box_ok_def by blast
    ultimately show ?thesis using fmath_clamp_in by simp
  qed
  then show ?thesis using assms(2) by (simp add: in_box_def nth_set_prefix)
qed

lemma length_proj_row:
  "nb \<le> d \<Longrightarrow> d \<le> length a \<Longrightarrow> length (proj_row cfg pos arm leash nb d first q a) = length a"
  by (simp add: proj_row_def proj_reach_def proj_leash_def proj_box_def Let_def split: option.split)

lemma proj_row_in_box:
  assumes box: "box_ok (fc_box_lo cfg) (fc_box_hi cfg) d" "width_ok (fc_box_lo cfg) (fc_box_hi cfg) d"
    and arm: "arm_workspace arm" and lsh: "\<forall>s. leash = Some s \<longrightarrow> limit_ok s" and rch: "limit_ok (fc_reach_max cfg)"
    and q: "in_box (fc_box_lo cfg) (fc_box_hi cfg) d q" "d \<le> length q"
    and pos: "in_box (fc_box_lo cfg) (fc_box_hi cfg) d pos" "d \<le> length pos"
    and a: "d \<le> length a" "all_finite (take d a)"
  shows "in_box (fc_box_lo cfg) (fc_box_hi cfg) d (proj_row cfg pos arm leash d d first q a)"
proof -
  define a1 where "a1 = proj_box cfg arm d a"
  have 1: "in_box (fc_box_lo cfg) (fc_box_hi cfg) d a1" "d \<le> length a1"
    unfolding a1_def proj_box_def using arm clamp_in_box [OF box(1) a] a(1) by simp_all
  define a2 where "a2 = proj_leash leash d q a1"
  have 2: "in_box (fc_box_lo cfg) (fc_box_hi cfg) d a2" "d \<le> length a2"
    unfolding a2_def proj_leash_def Let_def
    using 1 lsh pull_in_box [OF box q 1] by (auto split: option.split)
  have "in_box (fc_box_lo cfg) (fc_box_hi cfg) d (proj_reach cfg arm pos d first a2)"
    unfolding proj_reach_def Let_def using 2 pull_in_box [OF box pos 2 rch] by auto
  then show ?thesis unfolding proj_row_def a1_def a2_def .
qed

lemma Arm_leash_ok:
  assumes "leash_ok cfg" "Arm_leash (Arm_resolve cfg obs) (fc_step_max cfg) = Some s"
  shows "limit_ok s"
proof -
  have c: "limit_ok (arm_step_contact (Arm_resolve cfg obs))" if "arm_contact (Arm_resolve cfg obs)"
    using that assms(1) unfolding Arm_resolve_def leash_ok_def Let_def
    by (auto split: option.splits if_splits prod.splits)
  show ?thesis
    using assms c unfolding Arm_leash_def leash_ok_def fmath_min_def
    by (auto split: bool.splits if_splits)
qed


text \<open>The shape every iteration of the projection loop keeps, and what it has done so far.\<close>

definition proj_inv :: "FuseConfig \<Rightarrow> ChunkView \<Rightarrow> (nat \<Rightarrow> f64 list \<Rightarrow> bool) \<Rightarrow> nat \<Rightarrow>
    ChunkBuf \<times> u32 \<times> f64 list \<times> f64 list \<Rightarrow> bool" where
  "proj_inv cfg ch P k st \<longleftrightarrow> (case st of (out, clamped, q, a) \<Rightarrow>
     ChunkBuf_wf out \<and> cb_filled out \<and> cb_horizon out = cv_horizon ch \<and> cb_dim out = cv_dim ch \<and>
     cb_seq out = cv_seq ch \<and> cb_t_emit out = cv_t_emit ch \<and> cb_exec_steps out = cv_exec_steps ch \<and>
     length q = MAX_D \<and> length a = MAX_D \<and>
     (\<forall>j < k. P j (slice (j * unat (cv_dim ch)) (unat (cv_dim ch)) (cb_data out))))"

lemma proj_inv_step:
  assumes inv: "proj_inv cfg ch P k (out, clamped, q, a)" and wf: "ChunkView_wf ch"
    and k: "k < unat (cv_horizon ch)" and nb: "box_dims cfg obs (unat (cv_dim ch)) \<le> unat (cv_dim ch)"
    and P: "\<And>row. row = proj_row cfg (ov_pos obs) (Arm_resolve cfg obs)
        (Arm_leash (Arm_resolve cfg obs) (fc_step_max cfg)) (box_dims cfg obs (unat (cv_dim ch)))
        (unat (cv_dim ch)) (k = 0) q (blit (unat (cv_dim ch)) (raw_row ch (unat (cv_dim ch)) k) a) \<Longrightarrow>
        P k (take (unat (cv_dim ch)) row)"
  shows "proj_inv cfg ch P (Suc k) (project_step cfg obs ch (unat (cv_dim ch)) (out, clamped, q, a) k)"
proof -
  let ?d = "unat (cv_dim ch)" and ?h = "unat (cv_horizon ch)"
  define row where "row = proj_row cfg (ov_pos obs) (Arm_resolve cfg obs)
        (Arm_leash (Arm_resolve cfg obs) (fc_step_max cfg)) (box_dims cfg obs ?d) ?d (k = 0) q
        (blit ?d (raw_row ch ?d k) a)"
  have d: "?d \<le> 32" "?h * ?d = length (cv_data ch)" "?h \<le> 64"
    using wf by (simp_all add: ChunkView_wf_def chunk_consts)
  have o: "ChunkBuf_wf out" "cb_filled out" "cb_horizon out = cv_horizon ch" "cb_dim out = cv_dim ch"
    "cb_seq out = cv_seq ch" "cb_t_emit out = cv_t_emit ch" "cb_exec_steps out = cv_exec_steps ch"
    "length q = 32" "length a = 32" "\<And>j. j < k \<Longrightarrow> P j (slice (j * ?d) ?d (cb_data out))"
    using inv by (simp_all add: proj_inv_def MAX_D_def)
  have raw: "length (raw_row ch ?d k) = ?d"
    using row_end_le [OF k, of ?d] d by (simp add: raw_row_def length_slice)
  then have bl: "length (blit ?d (raw_row ch ?d k) a) = 32" using d o by simp
  have row_len: "length row = 32"
    unfolding row_def using nb bl d by (simp add: length_proj_row)
  then have tl: "length (take ?d row) = ?d" using d by simp
  have h0: "?h \<noteq> 0" "?d \<noteq> 0" using wf by (auto simp: ChunkView_wf_def)
  have len: "?h * ?d \<le> length (cb_data out)"
    using o(1-4) area_le [of ?h ?d] by (auto simp: ChunkBuf_wf_def)
  have data: "cb_data (ChunkBuf_set_row out k (take ?d row))
      = take (k * ?d) (cb_data out) @ take ?d row @ drop (k * ?d + ?d) (cb_data out)"
    using k h0 o(3,4) by (simp add: ChunkBuf_set_row_def Let_def)
  have hdr: "cb_filled (ChunkBuf_set_row out k (take ?d row))"
    "cb_horizon (ChunkBuf_set_row out k (take ?d row)) = cv_horizon ch"
    "cb_dim (ChunkBuf_set_row out k (take ?d row)) = cv_dim ch"
    "cb_seq (ChunkBuf_set_row out k (take ?d row)) = cv_seq ch"
    "cb_t_emit (ChunkBuf_set_row out k (take ?d row)) = cv_t_emit ch"
    "cb_exec_steps (ChunkBuf_set_row out k (take ?d row)) = cv_exec_steps ch"
    using o by (simp_all add: ChunkBuf_set_row_def Let_def)
  have wf': "ChunkBuf_wf (ChunkBuf_set_row out k (take ?d row))"
    using o(1,2,4) tl by (intro ChunkBuf_set_row_wf) simp_all
  have rows: "P j (slice (j * ?d) ?d (cb_data (ChunkBuf_set_row out k (take ?d row))))" if "j < Suc k" for j
  proof -
    have "slice (j * ?d) ?d (cb_data (ChunkBuf_set_row out k (take ?d row)))
        = (if j = k then take ?d row else slice (j * ?d) ?d (cb_data out))"
      unfolding data using that k by (intro slice_update [OF tl _ _ len]) simp_all
    then show ?thesis using that o(10) P [OF row_def] by (auto simp: less_Suc_eq)
  qed
  show ?thesis
    unfolding project_step_def Let_def prod.case row_def [symmetric] proj_inv_def
    using wf' hdr rows row_len by (simp add: MAX_D_def)
qed

lemma proj_inv_loop:
  assumes wf: "ChunkView_wf ch" and init: "proj_inv cfg ch P 0 st" "Q 0 st"
    and step: "\<And>k out clamped q a. k < unat (cv_horizon ch) \<Longrightarrow> proj_inv cfg ch P k (out, clamped, q, a) \<Longrightarrow>
      Q k (out, clamped, q, a) \<Longrightarrow>
      proj_inv cfg ch P (Suc k) (project_step cfg obs ch (unat (cv_dim ch)) (out, clamped, q, a) k) \<and>
      Q (Suc k) (project_step cfg obs ch (unat (cv_dim ch)) (out, clamped, q, a) k)"
    and n: "n \<le> unat (cv_horizon ch)"
  shows "proj_inv cfg ch P n (foldl (project_step cfg obs ch (unat (cv_dim ch))) st [0..<n]) \<and>
    Q n (foldl (project_step cfg obs ch (unat (cv_dim ch))) st [0..<n])"
  using n
proof (induction n)
  case (Suc n)
  obtain out clamped q a where st: "foldl (project_step cfg obs ch (unat (cv_dim ch))) st [0..<n] = (out, clamped, q, a)"
    by (metis prod_cases4)
  show ?case using Suc step [of n out clamped q a] by (simp add: st)
qed (use init in simp)

lemma chunk_rows_wf:
  assumes "ChunkView_wf ch"
  shows "chunk_rows ch = unat (cv_horizon ch)" "min (unat (cv_dim ch)) MAX_D = unat (cv_dim ch)"
    "unat (cv_dim ch) \<noteq> 0" "unat (cv_horizon ch) \<noteq> 0"
  using assms by (auto simp: ChunkView_wf_def chunk_rows_def Let_def)

lemma proj_inv_init:
  assumes "ChunkView_wf ch" "ChunkBuf_wf out0" "length q = MAX_D"
  shows "proj_inv cfg ch P 0 (ChunkBuf_copy_from out0 ch, 0, q, replicate MAX_D 0)"
  unfolding proj_inv_def prod.case
  using ChunkBuf_copy_from_wf [OF assms(2,1)] assms(3) by (simp add: ChunkBuf_copy_from_def Let_def)

lemma proj_inv_view:
  assumes "proj_inv cfg ch P (unat (cv_horizon ch)) (out, clamped, q, a)"
  obtains v where "ChunkBuf_view out = Some v" "ChunkView_wf v" "cv_horizon v = cv_horizon ch"
    "cv_dim v = cv_dim ch" "\<And>i. i < unat (cv_horizon ch) \<Longrightarrow> P i (ChunkView_action v i)"
proof -
  have o: "ChunkBuf_wf out" "cb_filled out" "cb_horizon out = cv_horizon ch" "cb_dim out = cv_dim ch"
    "\<And>j. j < unat (cv_horizon ch) \<Longrightarrow> P j (slice (j * unat (cv_dim ch)) (unat (cv_dim ch)) (cb_data out))"
    using assms by (simp_all add: proj_inv_def)
  obtain v where v: "ChunkBuf_view out = Some v" "cv_horizon v = cv_horizon ch" "cv_dim v = cv_dim ch"
    using o(2-4) by (auto simp: ChunkBuf_view_def Let_def)
  have "unat (cb_horizon out) * unat (cb_dim out) \<le> length (cb_data out)"
    using o(1-2) area_le [of "unat (cb_horizon out)" "unat (cb_dim out)"] by (auto simp: ChunkBuf_wf_def)
  then have "P i (ChunkView_action v i)" if "i < unat (cv_horizon ch)" for i
    using ChunkBuf_view_action [OF v(1), of i] o(3-5) that by simp
  then show ?thesis using that v ChunkBuf_view_wf [OF o(1) v(1)] by blast
qed

lemma in_box_blit:
  "n \<le> length src \<Longrightarrow> n \<le> length dst \<Longrightarrow> in_box lo hi n src \<Longrightarrow> in_box lo hi n (blit n src dst)"
  by (simp add: in_box_def nth_blit)

lemma in_box_take [simp]: "in_box lo hi n (take n a) \<longleftrightarrow> in_box lo hi n a"
  by (simp add: in_box_def)

lemma raw_row_length:
  assumes "ChunkView_wf ch" "i < unat (cv_horizon ch)"
  shows "length (raw_row ch (unat (cv_dim ch)) i) = unat (cv_dim ch)"
  using row_end_le [OF assms(2), of "unat (cv_dim ch)"] assms(1)
  by (simp add: raw_row_def length_slice ChunkView_wf_def)

lemma raw_row_finite:
  "ChunkView_all_finite ch \<Longrightarrow> all_finite (raw_row ch d i)"
  unfolding raw_row_def ChunkView_all_finite_def all_finite_def slice_def list_all_iff
  by (auto dest!: in_set_takeD in_set_dropD)

lemma chunk_q0_length: "nb \<le> length (ov_pos obs) \<Longrightarrow> nb \<le> MAX_D \<Longrightarrow> d \<le> length (raw_row ch d 0) \<Longrightarrow> d \<le> MAX_D \<Longrightarrow>
    length (chunk_q0 obs ch d nb) = MAX_D"
  by (simp add: chunk_q0_def)

lemma check_chunk_keeps_box:
  assumes cfg: "FuseConfig_wf cfg" "has_bit (fc_tier0_enabled cfg) TRIP_WORKSPACE" "fc_clamp cfg = Project"
      "width_ok (fc_box_lo cfg) (fc_box_hi cfg) (fc_dim cfg)" "leash_ok cfg"
    and ch: "ChunkView_wf ch" "unat (cv_dim ch) = fc_dim cfg" "ChunkView_all_finite ch"
    and pos: "length (ov_pos obs) = fc_dim cfg" "in_box (fc_box_lo cfg) (fc_box_hi cfg) (fc_dim cfg) (ov_pos obs)"
    and out0: "ChunkBuf_wf out0"
    and i: "i < unat (cv_horizon ch)"
  shows "\<exists>v. ChunkBuf_view (snd (check_chunk cfg obs ch out0)) = Some v \<and>
    in_box (fc_box_lo cfg) (fc_box_hi cfg) (fc_dim cfg) (ChunkView_action v i)"
proof -
  let ?d = "unat (cv_dim ch)" and ?h = "unat (cv_horizon ch)" and ?arm = "Arm_resolve cfg obs"
  let ?in = "in_box (fc_box_lo cfg) (fc_box_hi cfg) ?d"
  note rw = chunk_rows_wf [OF ch(1)]
  have d: "?d \<le> 32" "fc_pos_dim cfg = ?d" "box_ok (fc_box_lo cfg) (fc_box_hi cfg) ?d"
    using cfg(1) ch(2) unfolding FuseConfig_wf_def MAX_D_def by auto
  have nb: "box_dims cfg obs ?d = ?d" using d pos(1) ch(2) by (simp add: box_dims_def chunk_consts)
  have arm: "arm_workspace ?arm" using cfg(2) by (simp add: Arm_resolve_def Let_def split: prod.splits)
  have r0: "length (raw_row ch ?d 0) = ?d" using raw_row_length [OF ch(1)] rw(4) by simp
  define q0 where "q0 = chunk_q0 obs ch ?d ?d"
  have q0: "length q0 = MAX_D" "?in q0"
    unfolding q0_def chunk_q0_def using d(1) pos ch(2) r0 by (simp_all add: MAX_D_def in_box_blit)
  define fin where "fin = foldl (project_step cfg obs ch ?d) (ChunkBuf_copy_from out0 ch, 0, q0, replicate MAX_D 0) [0..<?h]"
  have "proj_inv cfg ch (\<lambda>_. ?in) ?h fin \<and> (\<lambda>k (out, clamped, q, a). ?in q) ?h fin"
    unfolding fin_def
  proof (rule proj_inv_loop [OF ch(1) proj_inv_init [OF ch(1) out0 q0(1)] _ _ order_refl])
    fix k out clamped q a
    assume k: "k < ?h" and inv: "proj_inv cfg ch (\<lambda>_. ?in) k (out, clamped, q, a)"
      and q: "case (out, clamped, q, a) of (out, clamped, q, a) \<Rightarrow> ?in q"
    let ?row = "proj_row cfg (ov_pos obs) ?arm (Arm_leash ?arm (fc_step_max cfg)) (box_dims cfg obs ?d) ?d (k = 0) q
        (blit ?d (raw_row ch ?d k) a)"
    have l: "length q = 32" "length a = 32" using inv by (simp_all add: proj_inv_def MAX_D_def)
    have rl: "length (raw_row ch ?d k) = ?d" by (rule raw_row_length [OF ch(1) k])
    have b: "?d \<le> length (blit ?d (raw_row ch ?d k) a)" "all_finite (take ?d (blit ?d (raw_row ch ?d k) a))"
      using rl l d raw_row_finite [OF ch(3), of ?d k] by (simp_all add: blit_def)
    have row: "?in ?row"
      unfolding nb
      by (rule proj_row_in_box [OF d(3) _ arm _ _ _ _ _ _ b])
        (use cfg(4,5) ch(2) q l d pos Arm_leash_ok [OF cfg(5)] in \<open>auto simp: leash_ok_def\<close>)
    show "proj_inv cfg ch (\<lambda>_. ?in) (Suc k) (project_step cfg obs ch ?d (out, clamped, q, a) k) \<and>
        (\<lambda>k (out, clamped, q, a). ?in q) (Suc k) (project_step cfg obs ch ?d (out, clamped, q, a) k)"
      using proj_inv_step [OF inv ch(1) k, of obs] nb row
      by (simp add: project_step_def Let_def)
  qed (use q0 in simp)
  then have inv: "proj_inv cfg ch (\<lambda>_. ?in) ?h fin" by simp
  have "snd (check_chunk cfg obs ch out0) = fst fin"
    using rw nb cfg(3) unfolding check_chunk_def Let_def fin_def q0_def by (simp split: prod.split)
  moreover obtain out clamped q a where "fin = (out, clamped, q, a)" by (metis prod_cases4)
  ultimately show ?thesis using inv proj_inv_view i ch(2) by (metis fst_conv)
qed


lemma check_action_keeps_box:
  assumes cfg: "FuseConfig_wf cfg" "has_bit (fc_tier0_enabled cfg) TRIP_WORKSPACE" "fc_clamp cfg = Project"
      "width_ok (fc_box_lo cfg) (fc_box_hi cfg) (fc_dim cfg)" "leash_ok cfg"
    and a: "length a = fc_dim cfg" "all_finite a"
    and prev: "length prev = fc_dim cfg" "in_box (fc_box_lo cfg) (fc_box_hi cfg) (fc_dim cfg) prev"
    and pos: "length (ov_pos obs) = fc_dim cfg" "in_box (fc_box_lo cfg) (fc_box_hi cfg) (fc_dim cfg) (ov_pos obs)"
    and out: "length out = fc_dim cfg"
  shows "in_box (fc_box_lo cfg) (fc_box_hi cfg) (fc_dim cfg) (snd (check_action cfg obs prev a out))"
proof -
  let ?d = "fc_dim cfg" and ?arm = "Arm_resolve cfg obs"
  have d: "0 < ?d" "?d \<le> 32" "fc_pos_dim cfg = ?d" "box_ok (fc_box_lo cfg) (fc_box_hi cfg) ?d"
    using cfg(1) unfolding FuseConfig_wf_def MAX_D_def by auto
  have nb: "box_dims cfg obs ?d = ?d" using d pos(1) by (simp add: box_dims_def chunk_consts)
  have arm: "arm_workspace ?arm" using cfg(2) by (simp add: Arm_resolve_def Let_def split: prod.splits)
  let ?q = "blit ?d prev (replicate MAX_D 0)" and ?p = "blit ?d a (replicate MAX_D 0)"
  have q: "in_box (fc_box_lo cfg) (fc_box_hi cfg) ?d ?q" "?d \<le> length ?q"
    using prev d by (simp_all add: in_box_blit MAX_D_def)
  have p: "?d \<le> length ?p" "all_finite (take ?d ?p)"
    using a d by (simp_all add: MAX_D_def blit_def)
  let ?row = "proj_row cfg (ov_pos obs) ?arm (Arm_leash ?arm (fc_step_max cfg)) ?d ?d True ?q ?p"
  have row: "in_box (fc_box_lo cfg) (fc_box_hi cfg) ?d ?row"
    by (rule proj_row_in_box [OF d(4) cfg(4) arm _ _ q _ _ p])
      (use cfg(5) pos Arm_leash_ok [OF cfg(5)] in \<open>auto simp: leash_ok_def\<close>)
  have "length ?row = 32" using d a by (simp add: length_proj_row MAX_D_def)
  then have "in_box (fc_box_lo cfg) (fc_box_hi cfg) ?d (blit ?d ?row out)"
    using row out d by (intro in_box_blit) simp_all
  moreover have "min (min ?d MAX_D) (min (length a) (min (length prev) (length out))) = ?d"
    using a prev out d by (simp add: MAX_D_def)
  ultimately show ?thesis
    unfolding check_action_def Let_def using d(1) nb cfg(3) by (simp only: snd_conv if_False if_True) simp
qed

subsection \<open>What each trip bit says\<close>

lemma has_bit_foldl_or_if:
  "has_bit (foldl (\<lambda>m i. or_if (P i) b m) t xs) b' \<longleftrightarrow> has_bit t b' \<or> ((\<exists>i \<in> set xs. P i) \<and> has_bit b b')"
  by (induction xs arbitrary: t) (auto simp: has_bit_or_if)

lemma has_bit_trip_step:
  "has_bit (fst (trip_step cfg arm q0 ch d nb st i)) b \<longleftrightarrow> has_bit (fst st) b \<or>
     (arm_speed arm \<and> step_len q0 ch d i > fc_step_max cfg \<and> has_bit TRIP_SPEED b) \<or>
     (arm_contact arm \<and> step_len q0 ch d i > arm_step_contact arm \<and> has_bit TRIP_CONTACT b) \<or>
     (arm_workspace arm \<and> outside_box cfg (raw_row ch d i) nb \<and> has_bit TRIP_WORKSPACE b)"
  by (cases st) (auto simp: trip_step_def Let_def has_bit_or_if)

lemma has_bit_trip_steps:
  "has_bit (fst (foldl (trip_step cfg arm q0 ch d nb) st xs)) b \<longleftrightarrow> has_bit (fst st) b \<or>
     (\<exists>i \<in> set xs. (arm_speed arm \<and> step_len q0 ch d i > fc_step_max cfg \<and> has_bit TRIP_SPEED b) \<or>
        (arm_contact arm \<and> step_len q0 ch d i > arm_step_contact arm \<and> has_bit TRIP_CONTACT b) \<or>
        (arm_workspace arm \<and> outside_box cfg (raw_row ch d i) nb \<and> has_bit TRIP_WORKSPACE b))"
  by (induction xs arbitrary: st) (simp_all add: has_bit_trip_step disj_assoc)

lemma trip_bits_disjoint:
  "has_bit TRIP_WORKSPACE TRIP_WORKSPACE" "has_bit TRIP_SPEED TRIP_SPEED" "has_bit TRIP_ACCEL TRIP_ACCEL"
  "has_bit TRIP_JERK TRIP_JERK" "has_bit TRIP_REACH TRIP_REACH" "has_bit TRIP_CONTACT TRIP_CONTACT"
  "\<not> has_bit TRIP_WORKSPACE TRIP_SPEED" "\<not> has_bit TRIP_WORKSPACE TRIP_ACCEL" "\<not> has_bit TRIP_WORKSPACE TRIP_JERK"
  "\<not> has_bit TRIP_WORKSPACE TRIP_REACH" "\<not> has_bit TRIP_WORKSPACE TRIP_CONTACT"
  "\<not> has_bit TRIP_SPEED TRIP_WORKSPACE" "\<not> has_bit TRIP_SPEED TRIP_ACCEL" "\<not> has_bit TRIP_SPEED TRIP_JERK"
  "\<not> has_bit TRIP_SPEED TRIP_REACH" "\<not> has_bit TRIP_SPEED TRIP_CONTACT"
  "\<not> has_bit TRIP_ACCEL TRIP_WORKSPACE" "\<not> has_bit TRIP_ACCEL TRIP_SPEED" "\<not> has_bit TRIP_ACCEL TRIP_JERK"
  "\<not> has_bit TRIP_ACCEL TRIP_REACH" "\<not> has_bit TRIP_ACCEL TRIP_CONTACT"
  "\<not> has_bit TRIP_JERK TRIP_WORKSPACE" "\<not> has_bit TRIP_JERK TRIP_SPEED" "\<not> has_bit TRIP_JERK TRIP_ACCEL"
  "\<not> has_bit TRIP_JERK TRIP_REACH" "\<not> has_bit TRIP_JERK TRIP_CONTACT"
  "\<not> has_bit TRIP_REACH TRIP_WORKSPACE" "\<not> has_bit TRIP_REACH TRIP_SPEED" "\<not> has_bit TRIP_REACH TRIP_ACCEL"
  "\<not> has_bit TRIP_REACH TRIP_JERK" "\<not> has_bit TRIP_REACH TRIP_CONTACT"
  "\<not> has_bit TRIP_CONTACT TRIP_WORKSPACE" "\<not> has_bit TRIP_CONTACT TRIP_SPEED" "\<not> has_bit TRIP_CONTACT TRIP_ACCEL"
  "\<not> has_bit TRIP_CONTACT TRIP_JERK" "\<not> has_bit TRIP_CONTACT TRIP_REACH"
  by (simp_all add: has_bit_def trip_bit_defs)

text \<open>The documented meaning of the six soft bits, each as a predicate on the raw chunk.\<close>

definition breaks_workspace :: "FuseConfig \<Rightarrow> ObsView \<Rightarrow> ChunkView \<Rightarrow> bool" where
  "breaks_workspace cfg obs ch \<longleftrightarrow> arm_workspace (Arm_resolve cfg obs) \<and>
     (\<exists>i < unat (cv_horizon ch). \<exists>c < box_dims cfg obs (unat (cv_dim ch)).
        ChunkView_action ch i ! c < fc_box_lo cfg ! c \<or> ChunkView_action ch i ! c > fc_box_hi cfg ! c)"

definition raw_q0 :: "FuseConfig \<Rightarrow> ObsView \<Rightarrow> ChunkView \<Rightarrow> f64 list" where
  "raw_q0 cfg obs ch = chunk_q0 obs ch (unat (cv_dim ch)) (box_dims cfg obs (unat (cv_dim ch)))"

definition breaks_speed :: "FuseConfig \<Rightarrow> ObsView \<Rightarrow> ChunkView \<Rightarrow> bool" where
  "breaks_speed cfg obs ch \<longleftrightarrow> arm_speed (Arm_resolve cfg obs) \<and>
     (\<exists>i < unat (cv_horizon ch). step_len (raw_q0 cfg obs ch) ch (unat (cv_dim ch)) i > fc_step_max cfg)"

definition breaks_contact :: "FuseConfig \<Rightarrow> ObsView \<Rightarrow> ChunkView \<Rightarrow> bool" where
  "breaks_contact cfg obs ch \<longleftrightarrow> arm_contact (Arm_resolve cfg obs) \<and>
     (\<exists>i < unat (cv_horizon ch). step_len (raw_q0 cfg obs ch) ch (unat (cv_dim ch)) i
        > arm_step_contact (Arm_resolve cfg obs))"

definition breaks_accel :: "FuseConfig \<Rightarrow> ObsView \<Rightarrow> ChunkView \<Rightarrow> bool" where
  "breaks_accel cfg obs ch \<longleftrightarrow> arm_accel (Arm_resolve cfg obs) \<and>
     (\<exists>i. i + 1 < unat (cv_horizon ch) \<and>
        accel_norm (raw_q0 cfg obs ch) ch (unat (cv_dim ch)) i * fc_inv_dt2 cfg > fc_a_max cfg)"

definition breaks_jerk :: "FuseConfig \<Rightarrow> ObsView \<Rightarrow> ChunkView \<Rightarrow> bool" where
  "breaks_jerk cfg obs ch \<longleftrightarrow> arm_jerk (Arm_resolve cfg obs) \<and>
     (\<exists>i. i + 2 < unat (cv_horizon ch) \<and>
        jerk_norm (raw_q0 cfg obs ch) ch (unat (cv_dim ch)) i * fc_inv_dt3 cfg > fc_j_max cfg)"

definition breaks_reach :: "FuseConfig \<Rightarrow> ObsView \<Rightarrow> ChunkView \<Rightarrow> bool" where
  "breaks_reach cfg obs ch \<longleftrightarrow> arm_reach (Arm_resolve cfg obs) \<and> 0 < box_dims cfg obs (unat (cv_dim ch)) \<and>
     fmath_dist (ChunkView_action ch 0) (ov_pos obs) (box_dims cfg obs (unat (cv_dim ch))) > fc_reach_max cfg"

lemma raw_row_action:
  "ChunkView_wf ch \<Longrightarrow> i < unat (cv_horizon ch) \<Longrightarrow> raw_row ch (unat (cv_dim ch)) i = ChunkView_action ch i"
  by (simp add: ChunkView_action_row raw_row_def)

lemma outside_box_iff:
  "outside_box cfg a nb \<longleftrightarrow> (\<exists>c < nb. a ! c < fc_box_lo cfg ! c \<or> a ! c > fc_box_hi cfg ! c)"
  by (auto simp: outside_box_def list_ex_iff)

lemma check_chunk_trips:
  assumes "ChunkView_wf ch"
  shows "t0_trips (fst (check_chunk cfg obs ch out0)) = fst (chunk_trips cfg obs ch (unat (cv_dim ch)) (unat (cv_horizon ch)))"
  using chunk_rows_wf [OF assms] unfolding check_chunk_def Let_def by (simp split: prod.split)

lemma chunk_trip_bits:
  assumes wf: "ChunkView_wf ch"
  shows "has_bit (t0_trips (fst (check_chunk cfg obs ch out0))) b \<longleftrightarrow>
      (breaks_workspace cfg obs ch \<and> has_bit TRIP_WORKSPACE b) \<or> (breaks_speed cfg obs ch \<and> has_bit TRIP_SPEED b) \<or>
      (breaks_accel cfg obs ch \<and> has_bit TRIP_ACCEL b) \<or> (breaks_jerk cfg obs ch \<and> has_bit TRIP_JERK b) \<or>
      (breaks_reach cfg obs ch \<and> has_bit TRIP_REACH b) \<or> (breaks_contact cfg obs ch \<and> has_bit TRIP_CONTACT b)"
proof -
  let ?d = "unat (cv_dim ch)" and ?h = "unat (cv_horizon ch)" and ?arm = "Arm_resolve cfg obs"
  let ?q = "raw_q0 cfg obs ch" and ?nb = "box_dims cfg obs ?d"
  have r0: "raw_row ch ?d 0 = ChunkView_action ch 0"
    using raw_row_action [OF wf, of 0] chunk_rows_wf [OF wf] by simp
  obtain t1 p where tp: "foldl (trip_step cfg ?arm ?q ch ?d ?nb) (0, 0) [0..<?h] = (t1, p)" by fastforce
  have t1: "has_bit t1 b \<longleftrightarrow> (breaks_speed cfg obs ch \<and> has_bit TRIP_SPEED b) \<or>
      (breaks_contact cfg obs ch \<and> has_bit TRIP_CONTACT b) \<or> (breaks_workspace cfg obs ch \<and> has_bit TRIP_WORKSPACE b)"
  proof -
    have ws: "breaks_workspace cfg obs ch \<longleftrightarrow> arm_workspace ?arm \<and> (\<exists>i < ?h. outside_box cfg (raw_row ch ?d i) ?nb)"
      unfolding breaks_workspace_def outside_box_iff using raw_row_action [OF wf] by (simp cong: conj_cong)
    show ?thesis
      using has_bit_trip_steps [of cfg ?arm ?q ch ?d ?nb "(0, 0)" "[0..<?h]" b] unfolding tp ws
      by (auto simp: breaks_speed_def breaks_contact_def)
  qed
  define t where "t = t0_trips (fst (check_chunk cfg obs ch out0))"
  have t: "t = or_if (arm_reach ?arm \<and> 0 < ?nb \<and> fmath_dist (raw_row ch ?d 0) (ov_pos obs) ?nb > fc_reach_max cfg) TRIP_REACH
     (foldl (\<lambda>m i. or_if (jerk_norm ?q ch ?d i * fc_inv_dt3 cfg > fc_j_max cfg) TRIP_JERK m)
       (foldl (\<lambda>m i. or_if (accel_norm ?q ch ?d i * fc_inv_dt2 cfg > fc_a_max cfg) TRIP_ACCEL m) t1
         (if arm_accel ?arm \<and> 2 \<le> ?h then [0..<?h - 1] else []))
       (if arm_jerk ?arm \<and> 3 \<le> ?h then [0..<?h - 2] else []))"
    unfolding t_def check_chunk_trips [OF wf] chunk_trips_def Let_def
    using tp unfolding raw_q0_def by simp
  have acc: "breaks_accel cfg obs ch \<longleftrightarrow>
      (\<exists>i \<in> set (if arm_accel ?arm \<and> 2 \<le> ?h then [0..<?h - 1] else []).
        accel_norm ?q ch ?d i * fc_inv_dt2 cfg > fc_a_max cfg)"
  proof -
    have "set (if arm_accel ?arm \<and> 2 \<le> ?h then [0..<?h - 1] else []) = {i. arm_accel ?arm \<and> i + 1 < ?h}" by auto
    then show ?thesis by (simp add: breaks_accel_def)
  qed
  have jrk: "breaks_jerk cfg obs ch \<longleftrightarrow>
      (\<exists>i \<in> set (if arm_jerk ?arm \<and> 3 \<le> ?h then [0..<?h - 2] else []).
        jerk_norm ?q ch ?d i * fc_inv_dt3 cfg > fc_j_max cfg)"
  proof -
    have "set (if arm_jerk ?arm \<and> 3 \<le> ?h then [0..<?h - 2] else []) = {i. arm_jerk ?arm \<and> i + 2 < ?h}" by auto
    then show ?thesis by (simp add: breaks_jerk_def)
  qed
  show ?thesis
    unfolding t_def [symmetric] t has_bit_or_if has_bit_foldl_or_if t1 acc [symmetric] jrk [symmetric]
      breaks_reach_def r0 by argo
qed


subsection \<open>A chunk within the limits is not moved\<close>

lemma f_key_inj: "f_key x = f_key y \<Longrightarrow> f_key x \<noteq> 0 \<Longrightarrow> x = y"
  using f_mag_range(1) [of x] f_mag_range(1) [of y]
  by (intro f64_eqI; simp add: f_key_def split: if_splits; linarith)

lemma all_finite_take: "all_finite v \<Longrightarrow> all_finite (take n v)"
  by (auto simp: all_finite_def list_all_iff dest: in_set_takeD)

text \<open>Clamping is the identity inside the interval, a zero upper bound excepted (signed zeros).\<close>

lemma fmath_clamp_same: "lo \<le> x \<Longrightarrow> x \<le> hi \<Longrightarrow> f_key hi \<noteq> 0 \<Longrightarrow> fmath_clamp x lo hi = x"
  using f_key_inj [of hi x] by (auto simp: fmath_clamp_def fmath_max_def fmath_min_def f_cmp)

lemma set_prefix_same: "n \<le> length a \<Longrightarrow> (\<And>c. c < n \<Longrightarrow> f c = a ! c) \<Longrightarrow> set_prefix n f a = a"
  by (intro nth_equalityI) (simp_all add: nth_set_prefix)

lemma proj_row_same:
  assumes "nb \<le> length a"
    "arm_workspace arm \<Longrightarrow> \<forall>c < nb. fc_box_lo cfg ! c \<le> a ! c \<and> a ! c \<le> fc_box_hi cfg ! c \<and> f_key (fc_box_hi cfg ! c) \<noteq> 0"
    "\<forall>s. leash = Some s \<longrightarrow> \<not> s < fmath_dist a q d"
    "first \<Longrightarrow> arm_reach arm \<Longrightarrow> 0 < nb \<Longrightarrow> \<not> fc_reach_max cfg < fmath_dist a pos nb"
  shows "proj_row cfg pos arm leash nb d first q a = a"
proof -
  have 1: "proj_box cfg arm nb a = a"
    using assms(1,2) by (auto simp: proj_box_def fmath_clamp_same intro!: set_prefix_same)
  have 2: "proj_leash leash d q a = a" using assms(3) by (simp add: proj_leash_def Let_def split: option.split)
  show ?thesis unfolding proj_row_def 1 2 proj_reach_def Let_def using assms(4) by auto
qed

lemma rows_eq:
  "(\<forall>j < h. slice (j * d) d xs = slice (j * d) d ys) \<Longrightarrow> take (h * d) xs = take (h * d) ys"
proof (induction h)
  case (Suc h)
  have "take (Suc h * d) zs = take (h * d) zs @ slice (h * d) d zs" for zs :: "'a list"
    by (simp add: slice_def take_add [symmetric] add.commute)
  then show ?case using Suc by simp
qed simp

lemma moved_dims_same:
  assumes "\<And>c. c < d \<Longrightarrow> a ! c = raw ! c \<and> \<not> is_nan (raw ! c)" shows "moved_dims raw a d = 0"
proof -
  have "foldl (\<lambda>m c. or_if (\<not> f_eq (a ! c) (raw ! c)) (push_bit c 1) m) 0 cs = (0 :: u32)"
    if "set cs \<subseteq> {..<d}" for cs
    using that assms by (induction cs) (auto simp: or_if_def f_eq_def)
  then show ?thesis by (simp add: moved_dims_def atLeast_upt)
qed

lemma leash_not_less:
  assumes "Arm_leash arm sm = Some s" "\<not> is_nan n"
    "arm_speed arm \<Longrightarrow> \<not> sm < n" "arm_contact arm \<Longrightarrow> \<not> arm_step_contact arm < n"
  shows "\<not> s < n"
  using assms by (auto simp: Arm_leash_def fmath_min_def split: bool.splits if_splits)

lemma check_chunk_unmoved:
  assumes ch: "ChunkView_wf ch" "ChunkView_all_finite ch" and out0: "ChunkBuf_wf out0"
    and pos: "all_finite (ov_pos obs)"
    and hi: "\<forall>c < box_dims cfg obs (unat (cv_dim ch)). f_key (fc_box_hi cfg ! c) \<noteq> 0 \<and>
        \<not> is_nan (fc_box_lo cfg ! c) \<and> \<not> is_nan (fc_box_hi cfg ! c)"
    and ok: "\<not> breaks_workspace cfg obs ch" "\<not> breaks_speed cfg obs ch" "\<not> breaks_contact cfg obs ch"
      "\<not> breaks_reach cfg obs ch"
  shows "ChunkBuf_view (snd (check_chunk cfg obs ch out0)) = Some ch \<and>
    t0_clamped_dims (fst (check_chunk cfg obs ch out0)) = 0"
proof (cases "fc_clamp cfg = Project")
  case False
  then show ?thesis
    using chunk_rows_wf [OF ch(1)] ChunkBuf_copy_from_view [OF ch(1), of out0]
    unfolding check_chunk_def Let_def by (simp add: Tier0Out_default_def split: prod.split)
next
  case True
  let ?d = "unat (cv_dim ch)" and ?h = "unat (cv_horizon ch)" and ?arm = "Arm_resolve cfg obs"
  let ?nb = "box_dims cfg obs ?d" and ?q0 = "raw_q0 cfg obs ch"
  let ?P = "\<lambda>j r. r = raw_row ch ?d j"
  define Q where "Q = (\<lambda>(k :: nat) (st :: ChunkBuf \<times> u32 \<times> f64 list \<times> f64 list). fst (snd st) = 0 \<and>
      (k < ?h \<longrightarrow> fmath_dist (raw_row ch ?d k) (fst (snd (snd st))) ?d = step_len ?q0 ch ?d k))"
  note rw = chunk_rows_wf [OF ch(1)]
  have d: "?d \<le> 32" "?nb \<le> ?d" "?nb \<le> length (ov_pos obs)" using ch(1) by (auto simp: ChunkView_wf_def box_dims_def MAX_D_def)
  have rl: "length (raw_row ch ?d k) = ?d" if "k < ?h" for k using raw_row_length [OF ch(1) that] .
  have q0: "length ?q0 = MAX_D"
    unfolding raw_q0_def using d rl [of 0] rw(4) by (intro chunk_q0_length) (simp_all add: MAX_D_def)
  have q0f: "all_finite (take ?d ?q0)"
  proof -
    have "all_finite (take ?d (blit ?nb (ov_pos obs) (blit ?d (raw_row ch ?d 0) (replicate MAX_D 0))))"
      using pos raw_row_finite [OF ch(2), of ?d 0] fval_0(2)
      unfolding all_finite_def list_all_iff blit_def
      by (auto dest!: in_set_takeD in_set_dropD split: if_splits)
    then show ?thesis by (simp add: raw_q0_def chunk_q0_def)
  qed
  define fin where "fin = foldl (project_step cfg obs ch ?d) (ChunkBuf_copy_from out0 ch, 0, ?q0, replicate MAX_D 0) [0..<?h]"
  have PQ: "proj_inv cfg ch ?P ?h fin \<and> Q ?h fin"
    unfolding fin_def
  proof (rule proj_inv_loop [OF ch(1) proj_inv_init [OF ch(1) out0 q0] _ _ order_refl])
    show "Q 0 (ChunkBuf_copy_from out0 ch, 0, ?q0, replicate MAX_D 0)"
      by (simp add: Q_def step_len_def)
    fix k out clamped q a
    assume k: "k < ?h" and inv: "proj_inv cfg ch ?P k (out, clamped, q, a)"
      and Q: "Q k (out, clamped, q, a)"
    let ?raw = "raw_row ch ?d k" and ?arr = "blit ?d (raw_row ch ?d k) a"
    let ?row = "proj_row cfg (ov_pos obs) ?arm (Arm_leash ?arm (fc_step_max cfg)) ?nb ?d (k = 0) q ?arr"
    have l: "length q = 32" "length a = 32" using inv by (simp_all add: proj_inv_def MAX_D_def)
    have arr: "length ?arr = 32" "take ?d ?arr = ?raw" using rl [OF k] l d by (simp_all add: blit_def)
    have nth: "?arr ! c = ?raw ! c" if "c < ?d" for c using that rl [OF k] l d by (simp add: nth_blit)
    have rawf: "all_finite ?raw" by (rule raw_row_finite [OF ch(2)])
    have dist: "fmath_dist ?arr q ?d = step_len ?q0 ch ?d k"
      using Q k arr(2) rl [OF k] by (simp add: Q_def fmath_dist_def)
    have nn: "\<not> is_nan (step_len ?q0 ch ?d k)"
      using f_nonneg_dist [of ?d ?raw] q0f all_finite_take [OF rawf]
        all_finite_take [OF raw_row_finite [OF ch(2), of ?d "k - 1"]]
      unfolding step_len_def f_nonneg_def by auto
    have row: "?row = ?arr"
    proof (rule proj_row_same)
      show "?nb \<le> length ?arr" using arr d by simp
      show "\<forall>c < ?nb. fc_box_lo cfg ! c \<le> ?arr ! c \<and> ?arr ! c \<le> fc_box_hi cfg ! c \<and> f_key (fc_box_hi cfg ! c) \<noteq> 0"
        if "arm_workspace ?arm"
      proof (intro allI impI)
        fix c assume c: "c < ?nb"
        then have "\<not> ?raw ! c < fc_box_lo cfg ! c" "\<not> fc_box_hi cfg ! c < ?raw ! c"
          using ok(1) that k raw_row_action [OF ch(1) k] unfolding breaks_workspace_def by auto
        moreover have "\<not> is_nan (?raw ! c)"
          using all_finite_nth [OF rawf, of c] rl [OF k] c d by simp
        ultimately show "fc_box_lo cfg ! c \<le> ?arr ! c \<and> ?arr ! c \<le> fc_box_hi cfg ! c \<and> f_key (fc_box_hi cfg ! c) \<noteq> 0"
          using hi c nth [of c] d f_not_less by simp
      qed
      show "\<forall>s. Arm_leash ?arm (fc_step_max cfg) = Some s \<longrightarrow> \<not> s < fmath_dist ?arr q ?d"
      proof (intro allI impI)
        fix s assume "Arm_leash ?arm (fc_step_max cfg) = Some s"
        then show "\<not> s < fmath_dist ?arr q ?d" unfolding dist
          by (rule leash_not_less) (use nn ok(2,3) k in \<open>auto simp: breaks_speed_def breaks_contact_def\<close>)
      qed
      show "\<not> fc_reach_max cfg < fmath_dist ?arr (ov_pos obs) ?nb" if "k = 0" "arm_reach ?arm" "0 < ?nb"
      proof -
        have "take ?nb (take ?d ?arr) = take ?nb ?arr" unfolding take_take min.absorb1 [OF d(2)] ..
        then have "take ?nb ?arr = take ?nb ?raw" unfolding arr(2) by (rule sym)
        then have "fmath_dist ?arr (ov_pos obs) ?nb = fmath_dist ?raw (ov_pos obs) ?nb"
          by (simp add: fmath_dist_def)
        then show ?thesis
          using ok(4) that k raw_row_action [OF ch(1) k] by (auto simp: breaks_reach_def)
      qed
    qed
    have mv: "moved_dims ?raw ?arr ?d = 0"
      using nth all_finite_nth [OF rawf] rl [OF k] by (intro moved_dims_same) simp
    have next_dist: "fmath_dist (raw_row ch ?d (Suc k)) ?arr ?d = step_len ?q0 ch ?d (Suc k)"
      using arr(2) rl [OF k] by (simp add: step_len_def fmath_dist_def)
    show "proj_inv cfg ch ?P (Suc k) (project_step cfg obs ch ?d (out, clamped, q, a) k) \<and>
        Q (Suc k) (project_step cfg obs ch ?d (out, clamped, q, a) k)"
      using proj_inv_step [OF inv ch(1) k d(2)] row arr(2) Q mv next_dist
      by (simp add: project_step_def Let_def Q_def)
  qed
  then have inv: "proj_inv cfg ch ?P ?h fin" and cl: "fst (snd fin) = 0" by (simp_all add: Q_def)
  obtain out clamped q a where fin: "fin = (out, clamped, q, a)" by (metis prod_cases4)
  have cc: "snd (check_chunk cfg obs ch out0) = out" "t0_clamped_dims (fst (check_chunk cfg obs ch out0)) = clamped"
    using rw True fin unfolding check_chunk_def Let_def fin_def raw_q0_def by (simp_all split: prod.splits)
  have o: "ChunkBuf_wf out" "cb_filled out" "cb_horizon out = cv_horizon ch" "cb_dim out = cv_dim ch"
      "cb_seq out = cv_seq ch" "cb_t_emit out = cv_t_emit ch" "cb_exec_steps out = cv_exec_steps ch"
      "\<forall>j < ?h. slice (j * ?d) ?d (cb_data out) = slice (j * ?d) ?d (cv_data ch)"
    using inv unfolding fin proj_inv_def raw_row_def by simp_all
  have "take (?h * ?d) (cb_data out) = cv_data ch"
    using rows_eq [OF o(8)] ch(1) by (simp add: ChunkView_wf_def)
  then have "ChunkBuf_view out = Some ch" using o by (simp add: ChunkBuf_view_def)
  moreover have "clamped = 0" using cl unfolding fin by simp
  ultimately show ?thesis unfolding cc by (rule conjI)
qed

end
