(* ===== verification/Window.thy ===== *)
theory Window
  imports Chunk
begin

text \<open>
  \<open>lictor-detect/src/window.rs\<close>: the K-of-N hit window, a shift register in one \<open>u64\<close>, and the
  position trail, a ring buffer of the last 32 positions.  Both are implementations of one
  abstract object, the list of the last few samples, newest first; the locale \<open>history\<close> states
  that contract, and both interpretations below prove it, so that what either holds after any
  sequence of pushes follows from the same lemma.
\<close>

subsection \<open>The contract: the last few samples\<close>

locale history =
  fixes inv :: "'s \<Rightarrow> bool" and ok :: "'a \<Rightarrow> bool" and push :: "'s \<Rightarrow> 'a \<Rightarrow> 's"
    and sample :: "'a \<Rightarrow> 'b" and hist :: "'s \<Rightarrow> 'b list" and cap :: nat
  assumes inv_push: "inv s \<Longrightarrow> ok x \<Longrightarrow> inv (push s x)"
    and hist_push: "inv s \<Longrightarrow> ok x \<Longrightarrow> hist (push s x) = take cap (sample x # hist s)"
begin

lemma pushes_inv: "inv s \<Longrightarrow> list_all ok xs \<Longrightarrow> inv (foldl push s xs)"
  by (induction xs arbitrary: s) (simp_all add: inv_push)

lemma pushes_hist:
  "inv s \<Longrightarrow> list_all ok xs \<Longrightarrow> length (hist s) \<le> cap \<Longrightarrow>
     hist (foldl push s xs) = take cap (rev (map sample xs) @ hist s)"
proof (induction xs arbitrary: s)
  case (Cons x xs)
  then have h: "hist (push s x) = take cap (sample x # hist s)" by (simp add: hist_push)
  have "hist (foldl push (push s x) xs) = take cap (rev (map sample xs) @ hist (push s x))"
    using Cons.prems h by (intro Cons.IH) (simp_all add: inv_push)
  also have "\<dots> = take cap (rev (map sample xs) @ sample x # hist s)"
    unfolding h by (simp add: take_append min_def)
  finally show ?case by simp
qed simp

end

subsection \<open>The hit window\<close>

record Window =
  win_bits :: u64

definition Window_new :: Window where
  "Window_new = \<lparr> win_bits = 0 \<rparr>"

definition Window_push :: "Window \<Rightarrow> bool \<Rightarrow> u64 \<Rightarrow> Window" where
  "Window_push w hit m = w \<lparr> win_bits := (push_bit 1 (win_bits w) OR (if hit then 1 else 0)) AND m \<rparr>"

text \<open>\<open>count_ones\<close>.\<close>

definition count_ones :: "'a::len word \<Rightarrow> nat" where
  "count_ones w = length (filter (bit w) [0..<LENGTH('a)])"

definition Window_hits :: "Window \<Rightarrow> u8" where
  "Window_hits w = of_nat (count_ones (win_bits w))"

definition Window_clear :: "Window \<Rightarrow> Window" where
  "Window_clear w = w \<lparr> win_bits := 0 \<rparr>"

text \<open>The last \<open>n\<close> outcomes, newest first.\<close>

definition Window_hist :: "nat \<Rightarrow> Window \<Rightarrow> bool list" where
  "Window_hist n w = map (bit (win_bits w)) [0..<n]"

definition Window_inv :: "nat \<Rightarrow> Window \<Rightarrow> bool" where
  "Window_inv n w \<longleftrightarrow> take_bit n (win_bits w) = win_bits w"

lemma Window_push_bits:
  assumes "n \<le> 63" "i < 64"
  shows "bit (win_bits (Window_push w hit (mask n))) i \<longleftrightarrow>
    i < n \<and> (if i = 0 then hit else bit (win_bits w) (i - 1))"
proof -
  have "bit (push_bit 1 (win_bits w)) i \<longleftrightarrow> 0 < i \<and> bit (win_bits w) (i - 1)"
    using assms(2) by (simp add: bit_push_bit_iff Suc_le_eq del: push_bit_Suc push_bit_of_1)
  then show ?thesis
    unfolding Window_push_def using assms
    by (auto simp: bit_and_iff bit_or_iff bit_mask_iff bit_1_iff simp del: push_bit_Suc)
qed

lemma Window_push_inv: "Window_inv n (Window_push w hit (mask n))"
  by (simp add: Window_inv_def Window_push_def take_bit_eq_mask and.assoc)

lemma Window_push_hist:
  assumes "n \<le> 63"
  shows "Window_hist n (Window_push w hit (mask n)) = take n (hit # Window_hist n w)"
proof (rule nth_equalityI)
  fix i assume "i < length (Window_hist n (Window_push w hit (mask n)))"
  then show "Window_hist n (Window_push w hit (mask n)) ! i = take n (hit # Window_hist n w) ! i"
    using assms by (simp add: Window_hist_def Window_push_bits nth_Cons')
qed (simp add: Window_hist_def)

interpretation win: history "Window_inv (min n 63)" "\<lambda>_. True" "\<lambda>w hit. Window_push w hit (mask (min n 63))"
  "\<lambda>hit. hit" "Window_hist (min n 63)" "min n 63" for n
  by unfold_locales (simp_all only: Window_push_inv Window_push_hist min.cobounded2)

lemma Window_hits_hist:
  assumes "Window_inv n w" "n \<le> 63"
  shows "unat (Window_hits w) = length (filter id (Window_hist n w))"
proof -
  have z: "\<not> bit (win_bits w) i" if "n \<le> i" for i
    using assms(1) that unfolding Window_inv_def by (metis bit_take_bit_iff not_less)
  have "[0..<64] = [0..<n] @ [n..<64]"
    using assms(2) upt_add_eq_append [of 0 n "64 - n"] by simp
  then have "filter (bit (win_bits w)) [0..<64] = filter (bit (win_bits w)) ([0..<n] @ [n..<64])"
    by (simp only:)
  also have "\<dots> = filter (bit (win_bits w)) [0..<n]"
    using z by (simp add: filter_empty_conv)
  finally have c: "count_ones (win_bits w) = length (filter (bit (win_bits w)) [0..<n])"
    by (simp add: count_ones_def)
  have "length (filter (bit (win_bits w)) [0..<n]) \<le> n"
    by (metis length_filter_le length_upt diff_zero)
  then have "unat (Window_hits w) = length (filter (bit (win_bits w)) [0..<n])"
    unfolding Window_hits_def c using assms(2) by (simp add: unat_of_nat)
  also have "\<dots> = length (filter id (Window_hist n w))"
    by (simp add: Window_hist_def filter_map comp_def)
  finally show ?thesis .
qed

lemma Window_hits_le: "Window_inv n w \<Longrightarrow> n \<le> 63 \<Longrightarrow> unat (Window_hits w) \<le> n"
  using length_filter_le [of id "Window_hist n w"] by (simp add: Window_hits_hist Window_hist_def)

lemma Window_clear_inv [simp]: "Window_inv n (Window_clear w)"
  by (simp add: Window_inv_def Window_clear_def)

lemma Window_clear_hits [simp]: "Window_hits (Window_clear w) = 0"
  by (simp add: Window_hits_def Window_clear_def count_ones_def)

subsection \<open>The position trail\<close>

definition TRAIL_W :: nat where "TRAIL_W = 32"

record Trail =
  tr_buf :: "f64 list list"
  tr_head :: u8
  tr_len :: u8

definition Trail_new :: Trail where
  "Trail_new = \<lparr> tr_buf = replicate TRAIL_W (replicate MAX_POS 0), tr_head = 0, tr_len = 0 \<rparr>"

definition Trail_clear :: "Trail \<Rightarrow> Trail" where
  "Trail_clear t = t \<lparr> tr_head := 0, tr_len := 0 \<rparr>"

definition dim_of :: "f64 list \<Rightarrow> nat \<Rightarrow> nat" where
  "dim_of p d = (let d = (if MAX_POS < d then MAX_POS else d) in if length p < d then length p else d)"

definition Trail_push :: "Trail \<Rightarrow> f64 list \<Rightarrow> nat \<Rightarrow> Trail" where
  "Trail_push t p d0 =
     (let d = dim_of p d0; slot = unat (tr_head t) in
      t \<lparr> tr_buf := (tr_buf t)[slot := blit d p (tr_buf t ! slot)],
          tr_head := of_nat ((slot + 1) mod TRAIL_W),
          tr_len := (if unat (tr_len t) < TRAIL_W then tr_len t + 1 else tr_len t) \<rparr>)"

definition Trail_len :: "Trail \<Rightarrow> nat" where
  "Trail_len t = unat (tr_len t)"

definition slot_back :: "Trail \<Rightarrow> nat \<Rightarrow> nat" where
  "slot_back t k = (unat (tr_head t) + TRAIL_W - 1 - k) mod TRAIL_W"

definition Trail_net :: "Trail \<Rightarrow> nat \<Rightarrow> nat \<Rightarrow> f64" where
  "Trail_net t d0 w =
     (if w = 0 \<or> TRAIL_W < w \<or> Trail_len t < w then 0
      else let d = (if MAX_POS < d0 then MAX_POS else d0) in
        fmath_dist (tr_buf t ! slot_back t 0) (tr_buf t ! slot_back t (w - 1)) d)"

text \<open>The loop \<open>while k >= 1\<close>, from the oldest pair of the window to the newest.\<close>

fun path_loop :: "Trail \<Rightarrow> nat \<Rightarrow> nat \<Rightarrow> f64 \<Rightarrow> f64" where
  "path_loop t d 0 acc = acc"
| "path_loop t d (Suc k) acc =
     path_loop t d k (acc + fmath_dist (tr_buf t ! slot_back t (Suc k)) (tr_buf t ! slot_back t k) d)"

definition Trail_path :: "Trail \<Rightarrow> nat \<Rightarrow> nat \<Rightarrow> f64" where
  "Trail_path t d0 w =
     (if \<not> (2 \<le> w \<and> w \<le> TRAIL_W) \<or> Trail_len t < w then 0
      else path_loop t (if MAX_POS < d0 then MAX_POS else d0) (w - 1) 0)"

definition Trail_inv :: "Trail \<Rightarrow> bool" where
  "Trail_inv t \<longleftrightarrow> length (tr_buf t) = TRAIL_W \<and> (\<forall>r \<in> set (tr_buf t). length r = MAX_POS) \<and>
     unat (tr_head t) < TRAIL_W \<and> unat (tr_len t) \<le> TRAIL_W"

text \<open>The samples the ring holds, newest first, in their first \<open>d\<close> coordinates.\<close>

definition Trail_hist :: "nat \<Rightarrow> Trail \<Rightarrow> f64 list list" where
  "Trail_hist d t = map (\<lambda>k. take d (tr_buf t ! slot_back t k)) [0..<Trail_len t]"

lemma Trail_new_inv: "Trail_inv Trail_new"
  by (simp add: Trail_inv_def Trail_new_def TRAIL_W_def)

lemma Trail_clear_inv: "Trail_inv t \<Longrightarrow> Trail_inv (Trail_clear t)"
  by (simp add: Trail_inv_def Trail_clear_def TRAIL_W_def)

lemma Trail_clear_hist [simp]: "Trail_hist d (Trail_clear t) = []"
  by (simp add: Trail_hist_def Trail_clear_def Trail_len_def)

lemma slot_back_less: "slot_back t k < TRAIL_W"
  by (simp add: slot_back_def TRAIL_W_def)

lemma Trail_push_inv:
  assumes "Trail_inv t" shows "Trail_inv (Trail_push t p d)"
proof -
  have h: "unat (tr_head t) < 32" "unat (tr_len t) \<le> 32" "length (tr_buf t) = 32"
    using assms by (simp_all add: Trail_inv_def TRAIL_W_def)
  have r: "length (tr_buf t ! unat (tr_head t)) = MAX_POS"
    using assms h by (auto simp: Trail_inv_def)
  have d: "dim_of p d \<le> length p" "dim_of p d \<le> MAX_POS"
    by (auto simp: dim_of_def Let_def)
  have "unat (of_nat ((unat (tr_head t) + 1) mod 32) :: u8) < 32"
    by (simp add: unat_of_nat)
  moreover have "unat (tr_len t + 1) = Suc (unat (tr_len t))" if "unat (tr_len t) < 32"
    using that by (simp add: unat_word_ariths)
  ultimately show ?thesis
    using assms h r d unfolding Trail_inv_def Trail_push_def Let_def TRAIL_W_def
    by (auto dest!: set_update_subset_insert [THEN subsetD])
qed

lemma slot_back_push:
  assumes "unat (tr_head t) < 32" "unat (tr_head t') = (unat (tr_head t) + 1) mod 32"
  shows "slot_back t' 0 = unat (tr_head t)"
    and "k < 31 \<Longrightarrow> slot_back t' (Suc k) = slot_back t k"
    and "k < 31 \<Longrightarrow> slot_back t k \<noteq> unat (tr_head t)"
proof -
  obtain a where a: "unat (tr_head t) = a" "a < 32" using assms(1) by auto
  consider "a = 31" | "a < 31" using a(2) by linarith
  then have "(((a + 1) mod 32 + 31) mod 32 = a) \<and> (k < 31 \<longrightarrow>
     ((a + 1) mod 32 + 31 - Suc k) mod 32 = (a + 31 - k) mod 32 \<and> (a + 31 - k) mod 32 \<noteq> a)"
  proof cases
    case 1
    then show ?thesis by (auto simp: mod_if) 
  next
    case 2
    then show ?thesis by (auto simp: mod_if)
  qed
  then show "slot_back t' 0 = unat (tr_head t)" "k < 31 \<Longrightarrow> slot_back t' (Suc k) = slot_back t k"
    "k < 31 \<Longrightarrow> slot_back t k \<noteq> unat (tr_head t)"
    unfolding slot_back_def assms(2) TRAIL_W_def a(1) by (simp_all add: ac_simps)
qed

lemma Trail_push_hist:
  assumes "Trail_inv t" "d \<le> MAX_POS" "d \<le> length p"
  shows "Trail_hist d (Trail_push t p d) = take TRAIL_W (take d p # Trail_hist d t)"
proof -
  let ?t = "Trail_push t p d" and ?s = "unat (tr_head t)"
  have h: "?s < 32" "unat (tr_len t) \<le> 32" "length (tr_buf t) = 32"
    using assms by (simp_all add: Trail_inv_def TRAIL_W_def)
  have dd: "dim_of p d = d" using assms(2,3) by (simp add: dim_of_def)
  have hd: "unat (tr_head ?t) = (?s + 1) mod 32"
    by (simp add: Trail_push_def Let_def TRAIL_W_def unat_of_nat)
  have ln: "Trail_len ?t = min 32 (Suc (Trail_len t))"
    using h(2) by (auto simp: Trail_push_def Trail_len_def Let_def TRAIL_W_def unat_word_ariths min_def)
  note sb = slot_back_push [OF h(1) hd]
  have bl: "take d (blit d p r) = take d p" for r
    using assms(3) by (simp add: blit_def)
  have b0: "take d (tr_buf ?t ! slot_back ?t 0) = take d p"
    unfolding sb(1) using h by (simp add: Trail_push_def Let_def dd bl)
  have bS: "tr_buf ?t ! slot_back ?t (Suc k) = tr_buf t ! slot_back t k" if "k < 31" for k
    unfolding sb(2) [OF that] using sb(3) [OF that] by (simp add: Trail_push_def Let_def)
  show ?thesis
  proof (rule nth_equalityI)
    show "length (Trail_hist d ?t) = length (take TRAIL_W (take d p # Trail_hist d t))"
      using h(2) by (simp add: Trail_hist_def ln TRAIL_W_def)
    fix i assume "i < length (Trail_hist d ?t)"
    then have n: "Trail_hist d ?t ! i = take d (tr_buf ?t ! slot_back ?t i)"
      and i: "i < min 32 (Suc (Trail_len t))"
      by (simp_all add: Trail_hist_def ln del: upt_Suc)
    show "Trail_hist d ?t ! i = take TRAIL_W (take d p # Trail_hist d t) ! i"
      unfolding n using i by (cases i) (simp_all add: Trail_hist_def TRAIL_W_def b0 bS)
  qed
qed

interpretation trail: history Trail_inv "\<lambda>p. min d MAX_POS \<le> length p" "\<lambda>t p. Trail_push t p (min d MAX_POS)"
  "take (min d MAX_POS)" "Trail_hist (min d MAX_POS)" TRAIL_W for d
  by unfold_locales (simp_all only: Trail_push_inv Trail_push_hist min.cobounded2)

text \<open>\<open>net\<close> is the distance from the newest to the \<open>w\<close>-th newest sample.\<close>

lemma fmath_dist_take: "fmath_dist (take d a) (take d b) d = fmath_dist a b d"
  by (simp add: fmath_dist_def)

lemma Trail_net_hist:
  assumes "0 < w" "w \<le> TRAIL_W" "w \<le> Trail_len t" "d \<le> MAX_POS"
  shows "Trail_net t d w = fmath_dist (Trail_hist d t ! 0) (Trail_hist d t ! (w - 1)) d"
proof -
  have "w - 1 < Trail_len t" using assms by simp
  then show ?thesis using assms by (simp add: Trail_net_def Trail_hist_def fmath_dist_take)
qed

lemma path_loop_hist:
  "k < Trail_len t \<Longrightarrow> path_loop t d k acc
     = foldl (+) acc (map (\<lambda>j. fmath_dist (Trail_hist d t ! Suc j) (Trail_hist d t ! j) d) (rev [0..<k]))"
  by (induction k arbitrary: acc) (simp_all add: Trail_hist_def fmath_dist_take)

text \<open>\<open>path\<close> sums the steps between consecutive samples, oldest first.\<close>

lemma Trail_path_hist:
  assumes "2 \<le> w" "w \<le> TRAIL_W" "w \<le> Trail_len t" "d \<le> MAX_POS"
  shows "Trail_path t d w =
    foldl (+) 0 (map (\<lambda>j. fmath_dist (Trail_hist d t ! Suc j) (Trail_hist d t ! j) d) (rev [0..<w - 1]))"
  using assms by (simp add: Trail_path_def path_loop_hist)

end
