(* ===== verification/Tier1.thy ===== *)
theory Tier1
  imports Tier0 Window
begin

text \<open>
  \<open>lictor-detect/src/tier1.rs\<close>: the Tier-1 failure features.  The six chunk-boundary features are
  recomputed on a delivery and held in between; the trail and external features are recomputed
  every tick.  The row accessors \<open>abar_new\<close> and \<open>abar_prev\<close> normalise a coordinate; the sums run
  row by row, coordinate by coordinate.  The lemmas state the contract with \<open>decide\<close>: \<open>features\<close>
  alone writes the previous chunk, keeps the raw delivered one, and never touches the trail; and
  on a tick without a delivery the boundary features are those of the last delivery.
\<close>

record Tier1Rt =
  t1_prev :: ChunkBuf
  t1_have_prev :: bool
  t1_trail :: Trail
  t1_held :: "f64 list"
  t1_held_valid :: u32

definition Tier1Rt_new :: Tier1Rt where
  "Tier1Rt_new = \<lparr> t1_prev = ChunkBuf_new, t1_have_prev = False, t1_trail = Trail_new,
     t1_held = replicate NFEAT 0, t1_held_valid = 0 \<rparr>"

definition Tier1Rt_reset :: "Tier1Rt \<Rightarrow> Tier1Rt" where
  "Tier1Rt_reset rt = rt \<lparr> t1_prev := ChunkBuf_clear (t1_prev rt), t1_have_prev := False,
     t1_trail := Trail_clear (t1_trail rt), t1_held := replicate NFEAT 0, t1_held_valid := 0 \<rparr>"

definition PE_WINDOW :: nat where "PE_WINDOW = 20"

text \<open>\<open>0.05\<close> and \<open>1e-9\<close>.\<close>

definition STALL_VREF_FRAC :: f64 where "STALL_VREF_FRAC = F64 0x3fa999999999999a"
definition EPS :: f64 where "EPS = F64 0x3e112e0be826d695"
definition PE_WINDOW_F :: f64 where "PE_WINDOW_F = f_of_int (int PE_WINDOW)"

text \<open>\<open>for i in is { for c in 0..d { acc += e(i,c) * e(i,c) } }\<close>.\<close>

definition sum_sq :: "nat \<Rightarrow> (nat \<Rightarrow> nat \<Rightarrow> f64) \<Rightarrow> nat list \<Rightarrow> f64" where
  "sum_sq d e is = foldl (\<lambda>acc i. foldl (\<lambda>acc c. let x = e i c in acc + x * x) acc [0..<d]) 0 is"

text \<open>\<open>data.len().checked_div(d).map_or(0, |n| min(min(horizon, MAX_H), n))\<close>.\<close>

definition view_rows :: "ChunkView \<Rightarrow> nat \<Rightarrow> nat" where
  "view_rows v d = (if d = 0 then 0 else min (min (unat (cv_horizon v)) MAX_H) (length (cv_data v) div d))"

definition abar :: "FuseConfig \<Rightarrow> ChunkView \<Rightarrow> nat \<Rightarrow> nat \<Rightarrow> nat \<Rightarrow> f64" where
  "abar cfg v d i c = (cv_data v ! (i * d + c) - fc_norm_center cfg ! c) * (fc_inv_norm_scale cfg ! c)"

text \<open>The overlap of the previous and the new chunk: shift and length, when there is one.\<close>

definition overlap :: "Tier1Rt \<Rightarrow> ChunkView \<Rightarrow> nat \<Rightarrow> nat \<Rightarrow> (ChunkView \<times> nat \<times> nat) option" where
  "overlap rt new d h =
     (if 1 \<le> h \<and> t1_have_prev rt then
       (case ChunkBuf_view (t1_prev rt) of None \<Rightarrow> None
        | Some prev \<Rightarrow>
            (let pd = min (unat (cv_dim prev)) MAX_D; ph = view_rows prev pd in
             if pd = d \<and> cv_t_emit new \<ge> cv_t_emit prev then
               (let s = unat (cv_t_emit new - cv_t_emit prev) in
                if s < ph then (let l = min (ph - s) h in if 2 \<le> l then Some (prev, s, l) else None) else None)
             else None))
      else None)"

definition put :: "Feat \<Rightarrow> f64 \<Rightarrow> f64 list \<times> u32 \<Rightarrow> f64 list \<times> u32" where
  "put f x hv = (case hv of (held, valid) \<Rightarrow> (held[Feat_id f := x], valid OR Feat_bit f))"

definition ext_step :: "f64 list \<Rightarrow> f64 list \<times> u32 \<Rightarrow> nat \<Rightarrow> f64 list \<times> u32" where
  "ext_step ext fv k = (case fv of (f, valid) \<Rightarrow>
     (f[Feat_id Ext0 + k := ext ! k], valid OR push_bit (Feat_id Ext0 + k) 1))"

definition boundary_features :: "FuseConfig \<Rightarrow> Tier1Rt \<Rightarrow> ObsView \<Rightarrow> ChunkView \<Rightarrow> f64 list \<times> u32" where
  "boundary_features cfg rt obs new =
     (let d = min (unat (cv_dim new)) MAX_D; h = view_rows new d;
          nb = min (min d (fc_pos_dim cfg)) (min (length (ov_pos obs)) MAX_POS);
          iso = fc_norm_scale_iso cfg;
          hv = (replicate NFEAT 0, 0);
          hv = (case overlap rt new d h of None \<Rightarrow> hv
                | Some (prev, s, l) \<Rightarrow>
                    (let num = sum_sq d (\<lambda>i c. abar cfg prev d (s + i) c - abar cfg new d i c) [0..<l];
                         den = sum_sq d (\<lambda>i c. abar cfg new d i c - abar cfg new d (i - 1) c) [1..<l] in
                     put Acc (fmath_sqrt (num / (den + EPS)))
                       (put Tce (fmath_sqrt (num / f_of_int (int (l * d)))) hv)));
          hv = (if 2 \<le> h then
                  (let acc = foldl (\<lambda>acc i. acc + fmath_norm (map (\<lambda>c. abar cfg new d i c - abar cfg new d (i - 1) c) [0..<d]) d)
                              0 [1..<h] in
                   put AcmNeg (- (acc / f_of_int (int (h - 1)))) hv) else hv);
          hv = (if 4 \<le> h then
                  (let num = sum_sq d (\<lambda>i c. ((abar cfg new d (i + 3) c - f_three * abar cfg new d (i + 2) c)
                                + f_three * abar cfg new d (i + 1) c) - abar cfg new d i c) [0..<h - 3];
                       den = sum_sq d (\<lambda>i c. abar cfg new d (i + 1) c - abar cfg new d i c) [0..<h - 1] in
                   put Njr ((num / f_of_int (int (h - 3))) / (EPS + den / f_of_int (int (h - 1)))) hv) else hv);
          hv = (if 1 \<le> h \<and> 0 < nb then put Reach (fmath_dist (take d (cv_data new)) (ov_pos obs) nb / iso) hv else hv) in
      (if 1 \<le> h then
         (let q0 = chunk_q0 obs new d nb;
              peak = foldl (\<lambda>peak i. fmath_max peak (step_len q0 new d i)) 0 [0..<h] in
          put SpeedPeak (peak / iso) hv)
       else hv))"

definition boundary :: "FuseConfig \<Rightarrow> Tier1Rt \<Rightarrow> ObsView \<Rightarrow> ChunkView \<Rightarrow> Tier1Rt" where
  "boundary cfg rt obs new =
     (case boundary_features cfg rt obs new of (held, valid) \<Rightarrow>
        rt \<lparr> t1_held := held, t1_held_valid := valid,
             t1_prev := ChunkBuf_copy_from (t1_prev rt) new, t1_have_prev := True \<rparr>)"

definition features :: "FuseConfig \<Rightarrow> Tier1Rt \<Rightarrow> ObsView \<Rightarrow> ChunkView option \<Rightarrow> Scores \<Rightarrow> Tier1Rt \<times> Scores" where
  "features cfg rt obs chunk sc =
     (let rt = (case chunk of Some new \<Rightarrow> boundary cfg rt obs new | None \<Rightarrow> rt);
          valid = t1_held_valid rt AND CHUNK_BOUNDARY_MASK;
          f = map (\<lambda>j. if has_bit valid (push_bit j 1) then t1_held rt ! j else 0) [0..<NFEAT];
          pd = min (fc_pos_dim cfg) MAX_POS;
          fv = (if PE_WINDOW \<le> Trail_len (t1_trail rt) then
                  (let n = Trail_net (t1_trail rt) pd PE_WINDOW; p = Trail_path (t1_trail rt) pd PE_WINDOW;
                       v_ref = STALL_VREF_FRAC * fc_norm_scale_iso cfg / fc_dt cfg;
                       denom = v_ref * PE_WINDOW_F * fc_dt cfg in
                   put Stall (f_one - fmath_min f_one (n / denom))
                     (put PathIneff (f_one - n / fmath_max p EPS) (f, valid)))
                else (f, valid));
          n_ext = min (length (ov_ext obs)) MAX_EXT;
          (f, valid) = foldl (ext_step (ov_ext obs)) fv [0..<n_ext] in
      (rt, sc \<lparr> sc_f := f, sc_valid := valid \<rparr>))"

subsection \<open>The contract with the decision rule\<close>

lemma boundary_fields [simp]:
  "t1_prev (boundary cfg rt obs new) = ChunkBuf_copy_from (t1_prev rt) new"
  "t1_have_prev (boundary cfg rt obs new)" "t1_trail (boundary cfg rt obs new) = t1_trail rt"
  by (simp_all add: boundary_def split: prod.split)

lemma features_trail: "t1_trail (fst (features cfg rt obs chunk sc)) = t1_trail rt"
  by (simp add: features_def Let_def split: option.split prod.split)

lemma features_rt:
  "fst (features cfg rt obs chunk sc) = (case chunk of Some new \<Rightarrow> boundary cfg rt obs new | None \<Rightarrow> rt)"
  by (simp add: features_def Let_def split: option.split prod.split)

lemma features_prev:
  assumes "ChunkView_wf new"
  shows "ChunkBuf_view (t1_prev (fst (features cfg rt obs (Some new) sc))) = Some new"
    and "t1_have_prev (fst (features cfg rt obs (Some new) sc))"
  using ChunkBuf_copy_from_view [OF assms] by (simp_all add: features_rt)

lemma features_prev_wf:
  "ChunkBuf_wf (t1_prev rt) \<Longrightarrow> (\<And>new. chunk = Some new \<Longrightarrow> ChunkView_wf new) \<Longrightarrow>
     ChunkBuf_wf (t1_prev (fst (features cfg rt obs chunk sc)))"
  by (auto simp: features_rt ChunkBuf_copy_from_wf split: option.split)

text \<open>Features written after the boundary ones leave those alone.\<close>

lemma foldl_ext_nth: "j < 8 \<Longrightarrow> fst (foldl (ext_step ext) fv ks) ! j = fst fv ! j"
  by (induction ks arbitrary: fv) (simp_all add: ext_step_def split: prod.split)

lemma put_nth: "j \<noteq> Feat_id f \<Longrightarrow> fst (put f x hv) ! j = fst hv ! j"
  by (simp add: put_def split: prod.split)

lemma fst_case_prod: "fst (case p of (f, v) \<Rightarrow> (a, s f v)) = a"
  by (simp split: prod.split)

lemma features_boundary:
  assumes "j \<in> {0, 1, 2, 3, 4, 7}"
  shows "sc_f (snd (features cfg rt obs chunk sc)) ! j =
    (let rt' = fst (features cfg rt obs chunk sc) in
     if has_bit (t1_held_valid rt' AND CHUNK_BOUNDARY_MASK) (push_bit j 1) then t1_held rt' ! j else 0)"
proof -
  let ?rt = "case chunk of Some new \<Rightarrow> boundary cfg rt obs new | None \<Rightarrow> rt"
  let ?f = "map (\<lambda>j. if has_bit (t1_held_valid ?rt AND CHUNK_BOUNDARY_MASK) (push_bit j 1) then t1_held ?rt ! j else 0) [0..<NFEAT]"
  have j: "j < NFEAT" "j < 8" "j \<noteq> 5" "j \<noteq> 6" using assms by (auto simp: NFEAT_def)
  have "sc_f (snd (features cfg rt obs chunk sc)) ! j = ?f ! j"
    unfolding features_def Let_def
    using j by (simp add: split_beta foldl_ext_nth put_nth del: map_upt_eqI)
  then show ?thesis using j(1) by (simp add: features_rt Let_def)
qed

text \<open>Without a delivery the held features and the previous chunk are those of the last delivery.\<close>

lemma features_held: "fst (features cfg rt obs None sc) = rt"
  by (simp add: features_rt)

end
