(* ===== verification/Brake.thy ===== *)
theory Brake
  imports Tier0
begin

text \<open>
  \<open>lictor-detect/src/brake.rs\<close>: the checked stopping condition and the brake and hold actions.  A
  \<open>Plant\<close> keeps the live coordinates only (the source keeps them in front of a fixed array); the
  control loops are folds over the committed rows and iterated substeps.  \<open>pd_trace\<close> lists the
  plant states a rollout visits; the lemmas show that the margin is the minimum of their slacks,
  that a feasible verdict keeps every finite visited position inside the box, and that the
  setpoints of the brake and hold actions lie in the box.
\<close>

text \<open>\<open>1e-9\<close>, the denominator guard of the velocity ramp.\<close>

definition EPS :: f64 where "EPS = F64 0x3e112e0be826d695"

record BrakeOut =
  bo_feasible :: bool
  bo_margin :: f64
  bo_stop_dist :: f64

record Plant =
  pl_p :: "f64 list"
  pl_v :: "f64 list"

definition plant_dim :: "FuseConfig \<Rightarrow> f64 list \<Rightarrow> f64 list \<Rightarrow> ChunkView \<Rightarrow> nat" where
  "plant_dim cfg p0 v0 ch =
     (let n = min (min (fc_pos_dim cfg) (fc_dim cfg)) (min (length p0) (length v0)) in
      min (min n (unat (cv_dim ch))) MAX_POS)"

subsection \<open>The second-order rollout\<close>

definition pd_coord :: "f64 \<Rightarrow> f64 \<Rightarrow> f64 \<Rightarrow> f64 \<Rightarrow> f64 \<times> f64 \<Rightarrow> f64 \<times> f64" where
  "pd_coord k_p k_v dt a pv =
     (case pv of (p, v) \<Rightarrow>
        (let acc = k_p * (a - p) - k_v * v; v' = v + acc * dt; p' = p + v' * dt in (p', v')))"

definition pd_substep :: "f64 \<Rightarrow> f64 \<Rightarrow> f64 \<Rightarrow> f64 list \<Rightarrow> Plant \<Rightarrow> Plant" where
  "pd_substep k_p k_v dt a pl =
     (let step = (\<lambda>c. if c < length a then pd_coord k_p k_v dt (a ! c) (pl_p pl ! c, pl_v pl ! c)
                       else (pl_p pl ! c, pl_v pl ! c));
          pvs = map step [0..<length (pl_p pl)] in
      \<lparr> pl_p = map fst pvs, pl_v = map snd pvs \<rparr>)"

definition slack :: "FuseConfig \<Rightarrow> Plant \<Rightarrow> f64" where
  "slack cfg pl = foldl (\<lambda>m c. fmath_min m
      (fmath_min (pl_p pl ! c - fc_box_lo cfg ! c) (fc_box_hi cfg ! c - pl_p pl ! c))) f_inf [0..<length (pl_p pl)]"

definition slack_r :: "FuseConfig \<Rightarrow> Plant \<Rightarrow> f64 \<Rightarrow> f64" where
  "slack_r cfg pl r = foldl (\<lambda>m c. fmath_min m
      (fmath_min ((pl_p pl ! c - r) - fc_box_lo cfg ! c) ((fc_box_hi cfg ! c - pl_p pl ! c) - r)))
      f_inf [0..<length (pl_p pl)]"

text \<open>One substep of the rollout and the margin it leaves.\<close>

definition pd_tick :: "FuseConfig \<Rightarrow> f64 list \<Rightarrow> Plant \<times> f64 \<Rightarrow> Plant \<times> f64" where
  "pd_tick cfg a st =
     (case st of (pl, margin) \<Rightarrow>
        (let b = fc_brake cfg; pl' = pd_substep (bm_k_p b) (bm_k_v b) (bm_dt b) a pl in
         (pl', fmath_min margin (slack cfg pl'))))"

definition pd_prefix :: "FuseConfig \<Rightarrow> ChunkView \<Rightarrow> nat \<Rightarrow> Plant \<times> f64 \<Rightarrow> Plant \<times> f64" where
  "pd_prefix cfg ch from st =
     foldl (\<lambda>st i. (pd_tick cfg (ChunkView_action ch i) ^^ unat (bm_substeps (fc_brake cfg))) st) st
       [from..<unat (bm_commit_steps (fc_brake cfg))]"

definition pd_hold :: "FuseConfig \<Rightarrow> Plant \<Rightarrow> f64 list" where
  "pd_hold cfg pl = map (\<lambda>c. fmath_clamp (pl_p pl ! c) (fc_box_lo cfg ! c) (fc_box_hi cfg ! c))
     [0..<length (pl_p pl)] @ replicate (MAX_POS - length (pl_p pl)) 0"

definition pd_rollout :: "FuseConfig \<Rightarrow> Plant \<Rightarrow> ChunkView \<Rightarrow> nat \<Rightarrow> Plant \<times> f64" where
  "pd_rollout cfg pl ch from =
     (let st = pd_prefix cfg ch from (pl, f_inf);
          tail = unat (bm_brake_steps (fc_brake cfg)) * unat (bm_substeps (fc_brake cfg)) in
      (pd_tick cfg (pd_hold cfg (fst st)) ^^ tail) st)"

subsection \<open>The closed forms\<close>

definition radius :: "FuseConfig \<Rightarrow> f64 list \<Rightarrow> nat \<Rightarrow> f64 \<Rightarrow> f64" where
  "radius cfg v n react =
     (let nv = fmath_norm v n;
          d_stop = (case bm_kind (fc_brake cfg) of
              FirstOrderDecay \<Rightarrow> nv / bm_k_v (fc_brake cfg)
            | BoundedAccel \<Rightarrow> nv * nv / (f_two * fc_a_max cfg)
            | ZeroVelocityHold \<Rightarrow> nv * nv / (f_two * fc_a_max cfg)
            | JerkLimited \<Rightarrow> nv * nv / (f_two * fc_a_max cfg) + nv * fc_a_max cfg / (f_two * fc_j_max cfg)
            | PdSecondOrder \<Rightarrow> 0) in
      d_stop + nv * react)"

definition commanded_velocity :: "FuseConfig \<Rightarrow> f64 list \<Rightarrow> Plant \<Rightarrow> f64 \<Rightarrow> Plant" where
  "commanded_velocity cfg a pl g =
     (let vel = (\<lambda>c. case fc_kind cfg of
            JointVelocity \<Rightarrow> a ! c
          | EeDelta \<Rightarrow> a ! c / fc_dt cfg
          | _ \<Rightarrow> g * (a ! c - pl_p pl ! c)) in
      pl \<lparr> pl_v := map (\<lambda>c. if c < length a then vel c else pl_v pl ! c) [0..<length (pl_v pl)] \<rparr>)"

definition closed_step :: "FuseConfig \<Rightarrow> ChunkView \<Rightarrow> f64 \<Rightarrow> f64 \<Rightarrow> Plant \<times> f64 \<Rightarrow> nat \<Rightarrow> Plant \<times> f64" where
  "closed_step cfg ch react g st i =
     (case st of (pl, margin) \<Rightarrow>
        (let pl = commanded_velocity cfg (ChunkView_action ch i) pl g;
             r = radius cfg (pl_v pl) (length (pl_p pl)) react;
             margin = fmath_min margin (slack_r cfg pl r) in
         (pl \<lparr> pl_p := map (\<lambda>c. pl_p pl ! c + pl_v pl ! c * fc_dt cfg) [0..<length (pl_p pl)] \<rparr>, margin)))"

definition closed_form :: "FuseConfig \<Rightarrow> Plant \<Rightarrow> ChunkView \<Rightarrow> nat \<Rightarrow> Plant \<times> f64 \<times> f64" where
  "closed_form cfg pl ch from =
     (let b = fc_brake cfg; react = f_of_int (uint (bm_react_ticks b)) * fc_dt cfg;
          g = bm_k_p b / bm_k_v b; n = length (pl_p pl);
          margin = slack_r cfg pl (radius cfg (pl_v pl) n react);
          (pl, margin) = foldl (closed_step cfg ch react g) (pl, margin) [from..<unat (bm_commit_steps b)] in
      (pl, margin, radius cfg (pl_v pl) n react))"

definition brake_feasible :: "FuseConfig \<Rightarrow> f64 list \<Rightarrow> f64 list \<Rightarrow> ChunkView \<Rightarrow> nat \<Rightarrow> BrakeOut" where
  "brake_feasible cfg p0 v0 ch from =
     (let n = plant_dim cfg p0 v0 ch; pl = \<lparr> pl_p = take n p0, pl_v = take n v0 \<rparr>;
          (pl, margin, beyond) =
            (if bm_kind (fc_brake cfg) = PdSecondOrder
             then (case pd_rollout cfg pl ch from of (pl, margin) \<Rightarrow> (pl, margin, 0))
             else closed_form cfg pl ch from) in
      \<lparr> bo_feasible = (margin \<ge> 0), bo_margin = margin, bo_stop_dist = fmath_dist (pl_p pl) p0 n + beyond \<rparr>)"

subsection \<open>The brake and hold actions\<close>

text \<open>Both write the first \<open>n\<close> entries of \<open>out\<close> and return it.\<close>

definition brake_action :: "FuseConfig \<Rightarrow> f64 list \<Rightarrow> f64 list \<Rightarrow> f64 list \<Rightarrow> f64 list" where
  "brake_action cfg p v out =
     (let n = min (min (fc_dim cfg) (length out)) MAX_POS in
      if fc_kind cfg = JointVelocity \<or> fc_kind cfg = EeDelta then
        (let nv = fmath_norm v (min n (length v));
             f = fmath_max 0 (f_one - fc_a_max cfg * fc_dt cfg / (nv + EPS));
             scale = (if fc_kind cfg = EeDelta then f * fc_dt cfg else f) in
         set_prefix n (\<lambda>c. if c < length v then v ! c * scale else 0) out)
      else
        set_prefix n (\<lambda>c. fmath_clamp (if c < length p then p ! c else 0) (fc_box_lo cfg ! c) (fc_box_hi cfg ! c)) out)"

definition hold_action :: "FuseConfig \<Rightarrow> f64 list \<Rightarrow> f64 list \<Rightarrow> f64 list" where
  "hold_action cfg p_latch out =
     (let n = min (min (fc_dim cfg) (length out)) MAX_POS in
      if fc_kind cfg = JointVelocity \<or> fc_kind cfg = EeDelta then set_prefix n (\<lambda>_. 0) out
      else
        set_prefix n (\<lambda>c. fmath_clamp (if c < length p_latch then p_latch ! c else 0)
          (fc_box_lo cfg ! c) (fc_box_hi cfg ! c)) out)"

text \<open>The kinds whose action rows are positions.\<close>

definition position_kind :: "ActionKind \<Rightarrow> bool" where
  "position_kind k \<longleftrightarrow> k \<noteq> JointVelocity \<and> k \<noteq> EeDelta"

lemma length_brake_action [simp]: "length (brake_action cfg p v out) = length out"
  by (simp add: brake_action_def Let_def)

lemma length_hold_action [simp]: "length (hold_action cfg p out) = length out"
  by (simp add: hold_action_def Let_def)

lemma clamp_write_in_box:
  assumes "box_ok lo hi n" "n \<le> length out" "\<And>c. c < n \<Longrightarrow> is_finite (x c)"
  shows "in_box lo hi n (set_prefix n (\<lambda>c. fmath_clamp (x c) (lo ! c) (hi ! c)) out)"
  using assms fmath_clamp_in f_less_imp_le unfolding in_box_def box_ok_def
  by (simp add: nth_set_prefix)

lemma brake_action_in_box:
  assumes "position_kind (fc_kind cfg)" "box_ok (fc_box_lo cfg) (fc_box_hi cfg) (fc_dim cfg)"
    "fc_dim cfg \<le> length out" "fc_dim cfg \<le> MAX_POS" "all_finite p"
  shows "in_box (fc_box_lo cfg) (fc_box_hi cfg) (fc_dim cfg) (brake_action cfg p v out)"
  using assms all_finite_nth [OF assms(5)]
  by (auto simp: brake_action_def position_kind_def Let_def intro!: clamp_write_in_box)

lemma hold_action_in_box:
  assumes "position_kind (fc_kind cfg)" "box_ok (fc_box_lo cfg) (fc_box_hi cfg) (fc_dim cfg)"
    "fc_dim cfg \<le> length out" "fc_dim cfg \<le> MAX_POS" "all_finite p"
  shows "in_box (fc_box_lo cfg) (fc_box_hi cfg) (fc_dim cfg) (hold_action cfg p out)"
  using assms all_finite_nth [OF assms(5)]
  by (auto simp: hold_action_def position_kind_def Let_def intro!: clamp_write_in_box)

text \<open>Velocity kinds hold by commanding zero.\<close>

lemma hold_action_zero:
  assumes "\<not> position_kind (fc_kind cfg)" "c < fc_dim cfg" "fc_dim cfg \<le> length out" "fc_dim cfg \<le> MAX_POS"
  shows "hold_action cfg p out ! c = 0"
  using assms by (auto simp: hold_action_def position_kind_def Let_def nth_set_prefix)

subsection \<open>The trace of a rollout\<close>

text \<open>The states visited by \<open>k\<close> substeps towards \<open>a\<close>, in order.\<close>

fun pd_states :: "FuseConfig \<Rightarrow> f64 list \<Rightarrow> nat \<Rightarrow> Plant \<Rightarrow> Plant list" where
  "pd_states cfg a 0 pl = []"
| "pd_states cfg a (Suc k) pl =
     (let b = fc_brake cfg; pl' = pd_substep (bm_k_p b) (bm_k_v b) (bm_dt b) a pl in pl' # pd_states cfg a k pl')"

fun pd_rows :: "FuseConfig \<Rightarrow> ChunkView \<Rightarrow> nat list \<Rightarrow> Plant \<Rightarrow> Plant list" where
  "pd_rows cfg ch [] pl = []"
| "pd_rows cfg ch (i # is) pl =
     (let s = pd_states cfg (ChunkView_action ch i) (unat (bm_substeps (fc_brake cfg))) pl in
      s @ pd_rows cfg ch is (last (pl # s)))"

definition pd_trace :: "FuseConfig \<Rightarrow> Plant \<Rightarrow> ChunkView \<Rightarrow> nat \<Rightarrow> Plant list" where
  "pd_trace cfg pl ch from =
     (let s = pd_rows cfg ch [from..<unat (bm_commit_steps (fc_brake cfg))] pl; pl' = last (pl # s) in
      s @ pd_states cfg (pd_hold cfg pl') (unat (bm_brake_steps (fc_brake cfg)) * unat (bm_substeps (fc_brake cfg))) pl')"

definition min_slack :: "FuseConfig \<Rightarrow> f64 \<Rightarrow> Plant list \<Rightarrow> f64" where
  "min_slack cfg m pls = foldl (\<lambda>m pl. fmath_min m (slack cfg pl)) m pls"

lemma pd_tick_states:
  "(pd_tick cfg a ^^ k) (pl, m)
     = (last (pl # pd_states cfg a k pl), min_slack cfg m (pd_states cfg a k pl))"
proof (induction k arbitrary: pl m)
  case 0
  show ?case by (simp add: min_slack_def)
next
  case (Suc k)
  let ?pl = "pd_substep (bm_k_p (fc_brake cfg)) (bm_k_v (fc_brake cfg)) (bm_dt (fc_brake cfg)) a pl"
  have "(pd_tick cfg a ^^ Suc k) (pl, m) = (pd_tick cfg a ^^ k) (?pl, fmath_min m (slack cfg ?pl))"
    by (simp add: funpow_Suc_right pd_tick_def Let_def del: funpow.simps)
  then show ?case by (simp add: Suc Let_def min_slack_def)
qed

lemma pd_prefix_states:
  "foldl (\<lambda>st i. (pd_tick cfg (ChunkView_action ch i) ^^ unat (bm_substeps (fc_brake cfg))) st) (pl, m) is
     = (last (pl # pd_rows cfg ch is pl), min_slack cfg m (pd_rows cfg ch is pl))"
proof (induction "is" arbitrary: pl m)
  case Nil
  show ?case by (simp add: min_slack_def)
next
  case (Cons i "is")
  show ?case
    by (simp add: pd_tick_states Cons Let_def min_slack_def last_append)
qed

text \<open>The margin of a rollout is the smallest slack over the states it visits.\<close>

lemma pd_rollout_trace:
  "pd_rollout cfg pl ch from = (last (pl # pd_trace cfg pl ch from), min_slack cfg f_inf (pd_trace cfg pl ch from))"
  unfolding pd_rollout_def pd_prefix_def pd_prefix_states pd_trace_def Let_def
  by (simp add: pd_tick_states min_slack_def last_append)

lemma fmath_min_ge:
  "\<not> is_nan a \<Longrightarrow> \<not> is_nan b \<Longrightarrow> x \<le> fmath_min a b \<longleftrightarrow> x \<le> a \<and> x \<le> b"
  by (auto simp: fmath_min_def f_cmp)

lemma foldl_min_ge:
  assumes "\<not> is_nan m" "\<And>y. y \<in> set ys \<Longrightarrow> \<not> is_nan (g y)"
  shows "x \<le> foldl (\<lambda>m y. fmath_min m (g y)) m ys \<longleftrightarrow> x \<le> m \<and> (\<forall>y \<in> set ys. x \<le> g y)"
    and "\<not> is_nan (foldl (\<lambda>m y. fmath_min m (g y)) m ys)"
  using assms by (induction ys arbitrary: m) (auto simp: fmath_min_ge fmath_not_nan)

lemma f_inf_top: "\<not> is_nan x \<Longrightarrow> x \<le> f_inf" "\<not> is_nan f_inf"
  by (auto simp: f_cmp f_inf_def is_nan_def inf_mag_def f_mag_def f_key_def f_sign_def)

text \<open>A difference of finite floats is nonnegative exactly when they are so ordered.\<close>

lemma minus_nonneg_iff:
  assumes "is_finite x" "is_finite y" shows "0 \<le> x - y \<longleftrightarrow> y \<le> x"
proof -
  have rs: "rounds_to (fval x - fval y) (x - y)" by (rule rounds_to_minus [OF assms])
  show ?thesis
  proof
    assume "y \<le> x"
    then show "0 \<le> x - y" using rounds_to_ge [OF rs, of 0] assms by (simp add: f_le_fval)
  next
    assume *: "0 \<le> x - y"
    show "y \<le> x"
    proof (rule ccontr)
      assume "\<not> y \<le> x"
      then have neg: "fval x - fval y < 0" using assms by (simp add: f_le_fval)
      then have sg: "f_sign (x - y)" using rs by (simp add: rounds_to_def)
      have "f_mag (x - y) = 0"
      proof -
        have "0 \<le> - f_mag (x - y)" using * sg by (simp add: less_eq_f64_def f_key_def f_sign_def f_mag_def zero_f64_def)
        then show ?thesis using f_mag_range(1) [of "x - y"] by linarith
      qed
      then have n0: "rne \<bar>fval x - fval y\<bar> 0" using rounds_to_finiteD(1) [OF rs] by (simp add: is_finite_def inf_mag_def)
      obtain j j' where j: "fval x = of_int j * 2 powi (- 1074)" "fval y = of_int j' * 2 powi (- 1074)"
        using fval_grid assms by metis
      have "\<bar>fval x - fval y\<bar> = of_int \<bar>j - j'\<bar> * 2 powi (- 1074)"
      proof -
        define u :: real where "u = 2 powi (- 1074)"
        have "0 < u" by (simp add: u_def)
        then show ?thesis unfolding j u_def [symmetric] by (simp add: abs_mult flip: left_diff_distrib)
      qed
      then have "mag_val 0 = \<bar>fval x - fval y\<bar>"
        by (rule rne_fine [OF n0 abs_ge_zero, rotated]) simp
      then show False using neg by simp
    qed
  qed
qed

lemma slack_nonneg:
  assumes "box_ok (fc_box_lo cfg) (fc_box_hi cfg) (length (pl_p pl))" "all_finite (pl_p pl)"
  shows "0 \<le> slack cfg pl \<longleftrightarrow> in_box (fc_box_lo cfg) (fc_box_hi cfg) (length (pl_p pl)) (pl_p pl)"
    and "\<not> is_nan (slack cfg pl)"
proof -
  let ?g = "\<lambda>c. fmath_min (pl_p pl ! c - fc_box_lo cfg ! c) (fc_box_hi cfg ! c - pl_p pl ! c)"
  have fin: "is_finite (pl_p pl ! c)" "is_finite (fc_box_lo cfg ! c)" "is_finite (fc_box_hi cfg ! c)"
    if "c < length (pl_p pl)" for c
    using that assms all_finite_nth unfolding box_ok_def by blast+
  have nn: "\<not> is_nan (pl_p pl ! c - fc_box_lo cfg ! c)" "\<not> is_nan (fc_box_hi cfg ! c - pl_p pl ! c)"
    if "c < length (pl_p pl)" for c
    using fin that by (simp_all add: minus_not_nan)
  then have g: "\<not> is_nan (?g c)" if "c \<in> set [0..<length (pl_p pl)]" for c
    using that by (simp add: fmath_not_nan)
  show "\<not> is_nan (slack cfg pl)" unfolding slack_def by (rule foldl_min_ge(2) [OF f_inf_top(2) g])
  have "0 \<le> slack cfg pl \<longleftrightarrow> 0 \<le> f_inf \<and> (\<forall>c \<in> set [0..<length (pl_p pl)]. 0 \<le> ?g c)"
    unfolding slack_def by (rule foldl_min_ge(1) [OF f_inf_top(2) g])
  also have "\<dots> \<longleftrightarrow> (\<forall>c < length (pl_p pl). 0 \<le> ?g c)"
    using f_inf_top(1) [of 0] f_finite_not_nan [OF fval_0(2)] by auto
  also have "\<dots> \<longleftrightarrow> (\<forall>c < length (pl_p pl). fc_box_lo cfg ! c \<le> pl_p pl ! c \<and> pl_p pl ! c \<le> fc_box_hi cfg ! c)"
    using fin nn by (simp add: fmath_min_ge minus_nonneg_iff)
  finally show "0 \<le> slack cfg pl \<longleftrightarrow> in_box (fc_box_lo cfg) (fc_box_hi cfg) (length (pl_p pl)) (pl_p pl)"
    by (simp add: in_box_def)
qed

lemma last_all: "P x \<Longrightarrow> (\<forall>y \<in> set ys. P y) \<Longrightarrow> P (last (x # ys))"
  by (cases ys) auto

lemma length_pd_states: "\<forall>pl' \<in> set (pd_states cfg a k pl). length (pl_p pl') = length (pl_p pl)"
proof (induction k arbitrary: pl)
  case (Suc k)
  let ?pl = "pd_substep (bm_k_p (fc_brake cfg)) (bm_k_v (fc_brake cfg)) (bm_dt (fc_brake cfg)) a pl"
  have "length (pl_p ?pl) = length (pl_p pl)" by (simp add: pd_substep_def Let_def)
  then show ?case using Suc [of ?pl] by (simp add: Let_def)
qed simp

lemma length_pd_rows: "\<forall>pl' \<in> set (pd_rows cfg ch is pl). length (pl_p pl') = length (pl_p pl)"
proof (induction "is" arbitrary: pl)
  case (Cons i "is")
  let ?s = "pd_states cfg (ChunkView_action ch i) (unat (bm_substeps (fc_brake cfg))) pl"
  have s: "\<forall>pl' \<in> set ?s. length (pl_p pl') = length (pl_p pl)" by (rule length_pd_states)
  have "length (pl_p (last (pl # ?s))) = length (pl_p pl)"
    by (rule last_all [where P = "\<lambda>q. length (pl_p q) = length (pl_p pl)", OF refl s])
  then show ?case using s Cons [of "last (pl # ?s)"] by (simp add: Let_def ball_Un del: last.simps)
qed simp

lemma length_pd_trace: "\<forall>pl' \<in> set (pd_trace cfg pl ch from). length (pl_p pl') = length (pl_p pl)"
proof -
  let ?s = "pd_rows cfg ch [from..<unat (bm_commit_steps (fc_brake cfg))] pl"
  have s: "\<forall>pl' \<in> set ?s. length (pl_p pl') = length (pl_p pl)" by (rule length_pd_rows)
  have l: "length (pl_p (last (pl # ?s))) = length (pl_p pl)"
    by (rule last_all [where P = "\<lambda>q. length (pl_p q) = length (pl_p pl)", OF refl s])
  show ?thesis
    unfolding pd_trace_def Let_def set_append ball_Un using s l length_pd_states by (metis (lifting))
qed

text \<open>A feasible rollout stays inside the box, and one that stays inside is feasible.\<close>

lemma pd_feasible_iff:
  assumes kind: "bm_kind (fc_brake cfg) = PdSecondOrder" and n: "plant_dim cfg p0 v0 ch = length p0"
    and box: "box_ok (fc_box_lo cfg) (fc_box_hi cfg) (length p0)"
    and fin: "\<forall>pl \<in> set (pd_trace cfg \<lparr> pl_p = p0, pl_v = take (length p0) v0 \<rparr> ch from). all_finite (pl_p pl)"
  shows "bo_feasible (brake_feasible cfg p0 v0 ch from) \<longleftrightarrow>
    (\<forall>pl \<in> set (pd_trace cfg \<lparr> pl_p = p0, pl_v = take (length p0) v0 \<rparr> ch from).
       in_box (fc_box_lo cfg) (fc_box_hi cfg) (length p0) (pl_p pl))"
proof -
  let ?pl = "\<lparr> pl_p = p0, pl_v = take (length p0) v0 \<rparr>"
  let ?t = "pd_trace cfg ?pl ch from"
  have "bo_feasible (brake_feasible cfg p0 v0 ch from) \<longleftrightarrow> 0 \<le> min_slack cfg f_inf ?t"
    using kind by (simp add: brake_feasible_def n Let_def pd_rollout_trace)
  also have "\<dots> \<longleftrightarrow> (\<forall>pl \<in> set ?t. 0 \<le> slack cfg pl)"
  proof -
    have nn: "\<not> is_nan (slack cfg pl)" if "pl \<in> set ?t" for pl
      using slack_nonneg(2) [of cfg pl] fin that length_pd_trace [of cfg ?pl ch "from"] box by simp
    have "0 \<le> min_slack cfg f_inf ?t \<longleftrightarrow> 0 \<le> f_inf \<and> (\<forall>pl \<in> set ?t. 0 \<le> slack cfg pl)"
      unfolding min_slack_def by (rule foldl_min_ge(1) [OF f_inf_top(2) nn])
    then show ?thesis using f_inf_top(1) [of 0] f_finite_not_nan [OF fval_0(2)] by auto
  qed
  also have "\<dots> \<longleftrightarrow> (\<forall>pl \<in> set ?t. in_box (fc_box_lo cfg) (fc_box_hi cfg) (length p0) (pl_p pl))"
  proof (rule ball_cong [OF refl])
    fix pl assume "pl \<in> set ?t"
    then have "length (pl_p pl) = length p0" "all_finite (pl_p pl)"
      using length_pd_trace [of cfg ?pl ch "from"] fin by simp_all
    then show "0 \<le> slack cfg pl \<longleftrightarrow> in_box (fc_box_lo cfg) (fc_box_hi cfg) (length p0) (pl_p pl)"
      using slack_nonneg(1) [of cfg pl] box by simp
  qed
  finally show ?thesis .
qed

end
