(* ===== verification/Tally.thy ===== *)
theory Tally
  imports Tier1 Brake
begin

text \<open>
  The per-tick verdict \<open>SafetyVerdict\<close> (\<open>lictor-core/src/verdict.rs\<close>), the per-episode counters
  \<open>Tally\<close> (\<open>lictor-fuse/src/tally.rs\<close>) and the pre-allocated runtime state \<open>FuseRt\<close> with its
  \<open>reset\<close> (\<open>lictor-fuse/src/fuse.rs\<close>).  The lemmas show that one call of \<open>record\<close> bumps exactly one
  of the eight state counters and that the first-event fields keep the first value they take.
\<close>

record SafetyVerdict =
  sv_seq :: u32
  sv_t :: u32
  sv_status :: Status
  sv_state :: FuseState
  sv_prev_state :: FuseState
  sv_trips :: u32
  sv_action :: "f64 list"
  sv_action_dim :: u16
  sv_action_src :: ActionSource
  sv_substituted :: bool
  sv_clamped_dims :: u32
  sv_scores :: Scores
  sv_tau :: f64
  sv_window :: u64
  sv_window_hits :: u8
  sv_brake_margin :: f64
  sv_reason :: ReasonCode
  sv_handoff_seq :: "u32 option"
  sv_ack_consumed :: bool
  sv_violation_reached_env :: bool

record Tally =
  ta_ticks :: u32
  ta_nominal :: u32
  ta_watching :: u32
  ta_clamped :: u32
  ta_braking :: u32
  ta_held :: u32
  ta_escalated :: u32
  ta_fault :: u32
  ta_terminated :: u32
  ta_substituted :: u32
  ta_chunks_seen :: u32
  ta_chunks_rejected :: u32
  ta_clamps :: u32
  ta_holds :: u32
  ta_rearms :: u32
  ta_escalations :: u32
  ta_trips_by_bit :: "u32 list"
  ta_fired_by_feat :: "u32 list"
  ta_first_trip_tick :: "u32 option"
  ta_first_trip_reason :: "ReasonCode option"
  ta_first_stop_tick :: "u32 option"
  ta_handoff_tick :: "u32 option"
  ta_violations_reached_env :: u32
  ta_max_s :: f64
  ta_max_z :: "f64 list"
  ta_terminal_state :: FuseState

definition Tally_default :: Tally where
  "Tally_default = \<lparr> ta_ticks = 0, ta_nominal = 0, ta_watching = 0, ta_clamped = 0, ta_braking = 0,
     ta_held = 0, ta_escalated = 0, ta_fault = 0, ta_terminated = 0, ta_substituted = 0,
     ta_chunks_seen = 0, ta_chunks_rejected = 0, ta_clamps = 0, ta_holds = 0, ta_rearms = 0,
     ta_escalations = 0, ta_trips_by_bit = replicate 16 0, ta_fired_by_feat = replicate NFEAT 0,
     ta_first_trip_tick = None, ta_first_trip_reason = None, ta_first_stop_tick = None,
     ta_handoff_tick = None, ta_violations_reached_env = 0, ta_max_s = f_neg_inf,
     ta_max_z = replicate NFEAT f_neg_inf, ta_terminal_state = Idle \<rparr>"

record TickEvents =
  te_entered_hold :: bool
  te_entered_escalated :: bool
  te_rearmed :: bool
  te_clamped :: bool
  te_live_z :: u32

definition TickEvents_default :: TickEvents where
  "TickEvents_default = \<lparr> te_entered_hold = False, te_entered_escalated = False, te_rearmed = False,
     te_clamped = False, te_live_z = 0 \<rparr>"

definition inc_if :: "bool \<Rightarrow> u32 \<Rightarrow> u32" where
  "inc_if c x = (if c then sat_inc x else x)"

text \<open>The eight state counters.\<close>

fun count_state :: "FuseState \<Rightarrow> Tally \<Rightarrow> Tally" where
  "count_state Idle t = t \<lparr> ta_nominal := sat_inc (ta_nominal t) \<rparr>"
| "count_state Armed t = t \<lparr> ta_nominal := sat_inc (ta_nominal t) \<rparr>"
| "count_state Watching t = t \<lparr> ta_watching := sat_inc (ta_watching t) \<rparr>"
| "count_state Clamped t = t \<lparr> ta_clamped := sat_inc (ta_clamped t) \<rparr>"
| "count_state Braking t = t \<lparr> ta_braking := sat_inc (ta_braking t) \<rparr>"
| "count_state Held t = t \<lparr> ta_held := sat_inc (ta_held t) \<rparr>"
| "count_state Escalated t = t \<lparr> ta_escalated := sat_inc (ta_escalated t) \<rparr>"
| "count_state Fault t = t \<lparr> ta_fault := sat_inc (ta_fault t) \<rparr>"
| "count_state Terminated t = t \<lparr> ta_terminated := sat_inc (ta_terminated t) \<rparr>"

definition Tally_record :: "Tally \<Rightarrow> SafetyVerdict \<Rightarrow> TickEvents \<Rightarrow> Tally" where
  "Tally_record t0 v ev =
     (let t = count_state (sv_state v) (t0 \<lparr> ta_ticks := sat_inc (ta_ticks t0) \<rparr>);
          t = t \<lparr> ta_substituted := inc_if (sv_substituted v) (ta_substituted t) \<rparr>;
          t = t \<lparr> ta_trips_by_bit := map (\<lambda>b. inc_if (has_bit (sv_trips v) (push_bit b 1)) (ta_trips_by_bit t ! b)) [0..<16] \<rparr>;
          t = t \<lparr> ta_fired_by_feat := map (\<lambda>j. inc_if (has_bit (sc_fired (sv_scores v)) (push_bit j 1))
                                              (ta_fired_by_feat t ! j)) [0..<NFEAT],
                 ta_max_z := map (\<lambda>j. if has_bit (te_live_z ev) (push_bit j 1)
                                     then fmath_max (ta_max_z t ! j) (sc_z (sv_scores v) ! j) else ta_max_z t ! j) [0..<NFEAT] \<rparr>;
          t = (if sv_trips v \<noteq> 0 \<and> ta_first_trip_tick t = None
               then t \<lparr> ta_first_trip_tick := Some (sv_t v), ta_first_trip_reason := Some (sv_reason v) \<rparr> else t);
          t = (if is_stop (sv_state v) \<and> ta_first_stop_tick t = None
               then t \<lparr> ta_first_stop_tick := Some (sv_t v) \<rparr> else t);
          t = (if te_entered_escalated ev
               then t \<lparr> ta_escalations := sat_inc (ta_escalations t),
                      ta_handoff_tick := (if ta_handoff_tick t = None then Some (sv_t v) else ta_handoff_tick t) \<rparr> else t);
          t = t \<lparr> ta_holds := inc_if (te_entered_hold ev) (ta_holds t),
                 ta_rearms := inc_if (te_rearmed ev) (ta_rearms t),
                 ta_clamps := inc_if (te_clamped ev) (ta_clamps t),
                 ta_violations_reached_env := inc_if (sv_violation_reached_env v) (ta_violations_reached_env t) \<rparr> in
      t \<lparr> ta_max_s := fmath_max (ta_max_s t) (sc_s (sv_scores v)), ta_terminal_state := sv_state v \<rparr>)"

definition Tally_record_chunk :: "Tally \<Rightarrow> bool \<Rightarrow> Tally" where
  "Tally_record_chunk t rejected =
     t \<lparr> ta_chunks_seen := sat_inc (ta_chunks_seen t), ta_chunks_rejected := inc_if rejected (ta_chunks_rejected t) \<rparr>"

subsection \<open>The counters add up\<close>

definition state_total :: "Tally \<Rightarrow> nat" where
  "state_total t = unat (ta_nominal t) + unat (ta_watching t) + unat (ta_clamped t) + unat (ta_braking t)
     + unat (ta_held t) + unat (ta_escalated t) + unat (ta_fault t) + unat (ta_terminated t)"

lemma state_total_count:
  assumes "state_total t < 2 ^ 32 - 1" shows "state_total (count_state s t) = Suc (state_total t)"
proof -
  have u: "unat (sat_inc x) = Suc (unat x)" if "unat x < 2 ^ 32 - 1" for x :: u32
    using that by (simp add: unat_sat_inc)
  show ?thesis using assms by (cases s) (simp_all add: state_total_def u)
qed

lemma Tally_record_totals:
  "ta_ticks (Tally_record t v ev) = sat_inc (ta_ticks t)"
  "state_total (Tally_record t v ev) = state_total (count_state (sv_state v) t)"
  "ta_terminal_state (Tally_record t v ev) = sv_state v"
  by (cases "sv_state v"; simp add: Tally_record_def Let_def state_total_def)+

text \<open>Until a counter saturates, the eight state counters add up to the number of ticks.\<close>

lemma Tally_record_sum:
  assumes "state_total t = unat (ta_ticks t)" "unat (ta_ticks t) < 2 ^ 32 - 1"
  shows "state_total (Tally_record t v ev) = unat (ta_ticks (Tally_record t v ev))"
  using assms state_total_count [of t "sv_state v"]
  by (simp add: Tally_record_totals unat_sat_inc)

lemma Tally_record_first_trip:
  "ta_first_trip_tick t = Some x \<Longrightarrow> ta_first_trip_tick (Tally_record t v ev) = Some x \<and>
     ta_first_trip_reason (Tally_record t v ev) = ta_first_trip_reason t"
  by (cases "sv_state v"; simp add: Tally_record_def Let_def)

subsection \<open>The runtime state\<close>

record FuseRt =
  rt_cur :: ChunkBuf
  rt_scratch :: ChunkBuf
  rt_t1 :: Tier1Rt
  rt_window :: Window
  rt_state :: FuseState
  rt_seq :: u32
  rt_last_t :: u32
  rt_next_chunk_seq :: u32
  rt_pos :: "f64 list"
  rt_prev_pos :: "f64 list"
  rt_vel :: "f64 list"
  rt_have_prev_pos :: bool
  rt_last_cmd :: "f64 list"
  rt_hold :: "f64 list"
  rt_clean_run :: u16
  rt_clamp_streak :: u8
  rt_clamps :: u16
  rt_brake_ticks :: u16
  rt_stopped_ticks :: u8
  rt_held_ticks :: u16
  rt_held_clean :: u16
  rt_escalated_ticks :: u32
  rt_rearms :: u8
  rt_handoff_seq :: u32
  rt_handoff_pending :: bool
  rt_chunk_ok_this_tick :: bool
  rt_last_nonce :: "u64 list"
  rt_tally :: Tally

definition FuseRt_new :: FuseRt where
  "FuseRt_new = \<lparr> rt_cur = ChunkBuf_new, rt_scratch = ChunkBuf_new, rt_t1 = Tier1Rt_new,
     rt_window = Window_new, rt_state = Idle, rt_seq = 0, rt_last_t = 0, rt_next_chunk_seq = 0,
     rt_pos = replicate MAX_POS 0, rt_prev_pos = replicate MAX_POS 0, rt_vel = replicate MAX_POS 0,
     rt_have_prev_pos = False, rt_last_cmd = replicate MAX_D 0, rt_hold = replicate MAX_POS 0,
     rt_clean_run = 0, rt_clamp_streak = 0, rt_clamps = 0, rt_brake_ticks = 0, rt_stopped_ticks = 0,
     rt_held_ticks = 0, rt_held_clean = 0, rt_escalated_ticks = 0, rt_rearms = 0, rt_handoff_seq = 0,
     rt_handoff_pending = False, rt_chunk_ok_this_tick = False,
     rt_last_nonce = replicate MAX_OPERATORS 0, rt_tally = Tally_default \<rparr>"

definition FuseRt_reset :: "FuseRt \<Rightarrow> EpisodeInit \<Rightarrow> FuseRt" where
  "FuseRt_reset rt init = \<lparr> rt_cur = ChunkBuf_clear (rt_cur rt), rt_scratch = ChunkBuf_clear (rt_scratch rt),
     rt_t1 = Tier1Rt_reset (rt_t1 rt), rt_window = Window_clear (rt_window rt), rt_state = Armed,
     rt_seq = 0, rt_last_t = 0, rt_next_chunk_seq = 0, rt_pos = replicate MAX_POS 0,
     rt_prev_pos = replicate MAX_POS 0, rt_vel = replicate MAX_POS 0, rt_have_prev_pos = False,
     rt_last_cmd = replicate MAX_D 0, rt_hold = replicate MAX_POS 0, rt_clean_run = 0,
     rt_clamp_streak = 0, rt_clamps = 0, rt_brake_ticks = 0, rt_stopped_ticks = 0, rt_held_ticks = 0,
     rt_held_clean = 0, rt_escalated_ticks = 0, rt_rearms = 0, rt_handoff_seq = 0,
     rt_handoff_pending = False, rt_chunk_ok_this_tick = False,
     rt_last_nonce = replicate MAX_OPERATORS 0, rt_tally = Tally_default \<rparr>"

end
