(* ===== verification/Fsm.thy ===== *)
theory Fsm
  imports Tally
begin

text \<open>
  \<open>lictor-fuse/src/fsm.rs\<close>: the escalation state machine.  \<open>transition\<close> is the table, rows from the
  top, with every counter side effect; \<open>fsm_next\<close> wraps it as \<open>next\<close> does.  The state is passed
  explicitly.  The edge relation \<open>fsm_edge\<close> is the abstract machine that the code refines; the
  lemmas give, per state, when each row fires, that faults latch, that acknowledgements are
  consumed once, and how many ticks the fuse can stay in each stop state.
\<close>

record FsmInput =
  fi_trips :: u32
  fi_predictive :: bool
  fi_warn :: bool
  fi_soft_clampable :: bool
  fi_stopped :: bool
  fi_chunk_boundary :: bool
  fi_chunk_ok :: bool
  fi_ack :: "VerifiedAck option"

definition FAULT_BITS :: u32 where
  "FAULT_BITS = TRIP_NONFINITE OR TRIP_SCHEMA OR TRIP_WATCHDOG"

definition accepted_ack :: "FuseRt \<Rightarrow> VerifiedAck option \<Rightarrow> VerifiedAck option" where
  "accepted_ack rt ack = (case ack of None \<Rightarrow> None
     | Some a \<Rightarrow>
         (let slot = unat (va_operator_slot a) in
          if MAX_OPERATORS \<le> slot then None
          else if va_handoff_seq a \<noteq> rt_handoff_seq rt \<or> va_nonce a \<le> rt_last_nonce rt ! slot then None
          else Some a))"

definition latch_hold :: "FuseConfig \<Rightarrow> FuseRt \<Rightarrow> FuseRt" where
  "latch_hold cfg rt =
     (let n = (if fc_pos_dim cfg < MAX_POS then fc_pos_dim cfg else MAX_POS) in
      rt \<lparr> rt_hold := set_prefix n (\<lambda>c. fmath_clamp (rt_pos rt ! c) (fc_box_lo cfg ! c) (fc_box_hi cfg ! c)) (rt_hold rt) \<rparr>)"

definition enter_braking :: "FuseRt \<Rightarrow> FuseRt" where
  "enter_braking rt = rt \<lparr> rt_brake_ticks := 0, rt_stopped_ticks := 0 \<rparr>"

definition consume_nonce :: "FuseRt \<Rightarrow> VerifiedAck \<Rightarrow> FuseRt" where
  "consume_nonce rt a =
     (let slot = unat (va_operator_slot a) in
      if slot < MAX_OPERATORS then rt \<lparr> rt_last_nonce := (rt_last_nonce rt)[slot := va_nonce a] \<rparr> else rt)"

definition rearm_ack :: "FuseRt \<Rightarrow> VerifiedAck \<Rightarrow> FuseRt" where
  "rearm_ack rt a =
     (let rt = consume_nonce rt a in
      rt \<lparr> rt_rearms := sat_inc (rt_rearms rt), rt_window := Window_clear (rt_window rt), rt_clean_run := 0,
          rt_clamp_streak := 0, rt_held_ticks := 0, rt_held_clean := 0, rt_escalated_ticks := 0,
          rt_handoff_pending := False \<rparr>)"

definition fault_reason :: "u32 \<Rightarrow> ReasonCode" where
  "fault_reason trips = (if has_bit trips TRIP_NONFINITE then RC_FaultNonFinite
     else if has_bit trips TRIP_SCHEMA then RC_FaultSchema else RC_FaultWatchdog)"

definition clamp_reason :: "u32 \<Rightarrow> ReasonCode" where
  "clamp_reason trips = (if has_bit trips TRIP_WORKSPACE then RC_ClampWorkspace
     else if has_bit trips TRIP_SPEED then RC_ClampSpeed
     else if has_bit trips TRIP_ACCEL then RC_ClampAccel
     else if has_bit trips TRIP_JERK then RC_ClampJerk
     else if has_bit trips TRIP_REACH then RC_ClampReach else RC_ClampContact)"

type_synonym fsm_out = "FuseState \<times> u32 \<times> ReasonCode"

text \<open>Rows 4 to 8.\<close>

definition from_escalated :: "FuseConfig \<Rightarrow> FuseRt \<Rightarrow> VerifiedAck option \<Rightarrow> FuseRt \<times> fsm_out" where
  "from_escalated cfg rt ack = (case ack of
      Some a \<Rightarrow> (case va_decision a of
          Abort \<Rightarrow> (consume_nonce rt a \<lparr> rt_handoff_pending := False \<rparr>, Terminated, TRIP_OPERATOR_ABORT, RC_TerminatedAbort)
        | Retune \<Rightarrow> (consume_nonce rt a \<lparr> rt_handoff_pending := False \<rparr>, Terminated, 0, RC_TerminatedRetune)
        | Resume \<Rightarrow> (rearm_ack rt a, Armed, 0, RC_RearmedAck))
    | None \<Rightarrow>
        if hy_handoff_timeout_ticks (fc_hyst cfg) \<le> rt_escalated_ticks rt
        then (rt \<lparr> rt_handoff_pending := False \<rparr>, Terminated, TRIP_HANDOFF_TIMEOUT, RC_TerminatedTimeout)
        else (rt \<lparr> rt_escalated_ticks := sat_inc (rt_escalated_ticks rt) \<rparr>, Escalated, 0, RC_HeldStandstill))"

text \<open>Rows 11 to 13.\<close>

definition from_held_no_ack :: "FuseConfig \<Rightarrow> FuseRt \<Rightarrow> bool \<Rightarrow> FsmInput \<Rightarrow> FuseRt \<times> fsm_out" where
  "from_held_no_ack cfg rt clean inp =
     (let h = fc_hyst cfg in
      if hy_rearm h = AutoRearm \<and> hy_rearm_hold h \<le> rt_held_clean rt \<and> fi_chunk_ok inp \<and> rt_rearms rt < hy_max_rearms h
      then (rt \<lparr> rt_rearms := sat_inc (rt_rearms rt), rt_window := Window_clear (rt_window rt) \<rparr>, Armed, 0, RC_RearmedAuto)
      else if hy_escalate_after_hold_ticks h \<le> rt_held_ticks rt then
        (let rt' = rt \<lparr> rt_handoff_seq := rt_handoff_seq rt + 1, rt_handoff_pending := True, rt_escalated_ticks := 0 \<rparr> in
         if hy_max_rearms h \<le> rt_rearms rt then (rt', Escalated, TRIP_REARM_BUDGET, RC_EscalateRearmBudget)
         else if fi_predictive inp then (rt', Escalated, 0, RC_EscalateTier1Persistent)
         else (rt', Escalated, 0, RC_EscalateHoldTimeout))
      else
        (rt \<lparr> rt_held_ticks := sat_inc (rt_held_ticks rt),
             rt_held_clean := (if clean then sat_inc (rt_held_clean rt) else 0) \<rparr>, Held, 0, RC_HeldStandstill))"

text \<open>Rows 9 to 13: an accepted \<open>Retune\<close> is not a row of Held and falls through.\<close>

definition from_held :: "FuseConfig \<Rightarrow> FuseRt \<Rightarrow> bool \<Rightarrow> VerifiedAck option \<Rightarrow> FsmInput \<Rightarrow> FuseRt \<times> fsm_out" where
  "from_held cfg rt clean ack inp = (case ack of
      Some a \<Rightarrow> (case va_decision a of
          Resume \<Rightarrow> (rearm_ack rt a, Armed, 0, RC_RearmedAck)
        | Abort \<Rightarrow> (consume_nonce rt a \<lparr> rt_handoff_pending := False \<rparr>, Terminated, TRIP_OPERATOR_ABORT, RC_TerminatedAbort)
        | Retune \<Rightarrow> from_held_no_ack cfg rt clean inp)
    | None \<Rightarrow> from_held_no_ack cfg rt clean inp)"

text \<open>Rows 14 to 16.\<close>

definition from_braking :: "FuseConfig \<Rightarrow> FuseRt \<Rightarrow> FsmInput \<Rightarrow> FuseRt \<times> fsm_out" where
  "from_braking cfg rt inp =
     (let h = fc_hyst cfg in
      if hy_brake_timeout_ticks h \<le> rt_brake_ticks rt
      then (latch_hold cfg rt, Fault, TRIP_BRAKE_TIMEOUT, RC_FaultBrakeTimeout)
      else if fi_stopped inp \<and> (ucast (hy_stop_confirm_ticks h) :: u16) \<le> sat_inc (ucast (rt_stopped_ticks rt))
      then (latch_hold cfg rt \<lparr> rt_held_ticks := 0, rt_held_clean := 0 \<rparr>, Held, 0, RC_HeldStandstill)
      else (rt \<lparr> rt_brake_ticks := sat_inc (rt_brake_ticks rt),
                 rt_stopped_ticks := (if fi_stopped inp then sat_inc (rt_stopped_ticks rt) else 0) \<rparr>,
            Braking, 0, RC_Stopping))"

text \<open>Rows 17 to 23, and the two rows that stay while a clear-down is in progress.\<close>

definition from_running :: "FuseConfig \<Rightarrow> FuseRt \<Rightarrow> FuseState \<Rightarrow> FsmInput \<Rightarrow> FuseRt \<times> fsm_out" where
  "from_running cfg rt s inp =
     (let h = fc_hyst cfg; soft = fi_trips inp AND TRIP_TIER0_SOFT in
      if has_bit (fi_trips inp) TRIP_BRAKE then (enter_braking rt, Braking, 0, RC_BrakeInfeasible)
      else if soft \<noteq> 0 \<and> \<not> fi_soft_clampable inp then (enter_braking rt, Braking, 0, clamp_reason soft)
      else if fi_predictive inp then (enter_braking rt, Braking, TRIP_TIER1_CP, RC_BrakeTier1Cp)
      else if hy_clamp_streak_to_brake h \<le> rt_clamp_streak rt \<or> hy_max_clamps_per_episode h < rt_clamps rt
      then (enter_braking rt, Braking, TRIP_CLAMP_BUDGET, RC_BrakeClampBudget)
      else if soft \<noteq> 0 then
        (rt \<lparr> rt_clamps := sat_inc (rt_clamps rt),
             rt_clamp_streak := (if fi_chunk_boundary inp then sat_inc (rt_clamp_streak rt) else rt_clamp_streak rt) \<rparr>,
         Clamped, 0, clamp_reason soft)
      else if s \<noteq> Armed \<and> ucast (hy_clear_ticks h) \<le> rt_clean_run rt
      then (rt \<lparr> rt_window := Window_clear (rt_window rt), rt_clamp_streak := 0 \<rparr>, Armed, 0, RC_Ok)
      else if fi_warn inp \<or> 1 \<le> Window_hits (rt_window rt) then (rt, Watching, 0, RC_WatchBand)
      else if s = Armed then (rt, Armed, 0, if fc_mode cfg = Observe then RC_ObserveOnly else RC_Ok)
      else if s = Watching then (rt, Watching, 0, RC_WatchBand)
      else (rt, Clamped, 0, RC_Ok))"

definition transition :: "FuseConfig \<Rightarrow> FuseRt \<Rightarrow> FuseState \<Rightarrow> bool \<Rightarrow> VerifiedAck option \<Rightarrow> FsmInput \<Rightarrow> FuseRt \<times> fsm_out" where
  "transition cfg rt s clean ack inp =
     (if has_bit (fi_trips inp) FAULT_BITS
      then (if s \<noteq> Fault then latch_hold cfg rt else rt, Fault, 0, fault_reason (fi_trips inp))
      else (case s of
          Terminated \<Rightarrow> (rt, Terminated, 0, RC_HeldStandstill)
        | Fault \<Rightarrow> (rt, Fault, 0, RC_HeldStandstill)
        | Escalated \<Rightarrow> from_escalated cfg rt ack
        | Held \<Rightarrow> from_held cfg rt clean ack inp
        | Braking \<Rightarrow> from_braking cfg rt inp
        | Armed \<Rightarrow> from_running cfg rt s inp
        | Watching \<Rightarrow> from_running cfg rt s inp
        | Clamped \<Rightarrow> from_running cfg rt s inp
        | Idle \<Rightarrow> (latch_hold cfg rt, Fault, 0, RC_FaultInternal)))"

definition clean_tick :: "FsmInput \<Rightarrow> bool" where
  "clean_tick inp \<longleftrightarrow> fi_trips inp = 0 \<and> \<not> fi_warn inp \<and> \<not> fi_predictive inp"

definition fsm_next :: "FuseConfig \<Rightarrow> FuseRt \<Rightarrow> FsmInput \<Rightarrow> FuseRt \<times> fsm_out" where
  "fsm_next cfg rt inp =
     (let clean = clean_tick inp;
          rt = rt \<lparr> rt_clean_run := (if clean then sat_inc (rt_clean_run rt) else 0) \<rparr>;
          ack = accepted_ack rt (fi_ack inp) in
      (case transition cfg rt (rt_state rt) clean ack inp of
         (rt, out) \<Rightarrow> (rt \<lparr> rt_state := fst out \<rparr>, out)))"

lemmas fsm_rows = from_escalated_def from_held_no_ack_def from_held_def from_braking_def from_running_def


subsection \<open>One tick, opened up\<close>

text \<open>The runtime state the table sees: the incoming one with \<open>clean_run\<close> updated.\<close>

definition ticked :: "FuseRt \<Rightarrow> FsmInput \<Rightarrow> FuseRt" where
  "ticked rt inp = rt \<lparr> rt_clean_run := (if clean_tick inp then sat_inc (rt_clean_run rt) else 0) \<rparr>"

lemma ticked_fields [simp]:
  "rt_state (ticked rt inp) = rt_state rt" "rt_brake_ticks (ticked rt inp) = rt_brake_ticks rt"
  "rt_stopped_ticks (ticked rt inp) = rt_stopped_ticks rt" "rt_held_ticks (ticked rt inp) = rt_held_ticks rt"
  "rt_held_clean (ticked rt inp) = rt_held_clean rt" "rt_escalated_ticks (ticked rt inp) = rt_escalated_ticks rt"
  "rt_rearms (ticked rt inp) = rt_rearms rt" "rt_handoff_seq (ticked rt inp) = rt_handoff_seq rt"
  "rt_last_nonce (ticked rt inp) = rt_last_nonce rt" "rt_pos (ticked rt inp) = rt_pos rt"
  "rt_hold (ticked rt inp) = rt_hold rt" "rt_window (ticked rt inp) = rt_window rt"
  "rt_clamp_streak (ticked rt inp) = rt_clamp_streak rt" "rt_clamps (ticked rt inp) = rt_clamps rt"
  "rt_cur (ticked rt inp) = rt_cur rt" "rt_scratch (ticked rt inp) = rt_scratch rt"
  "rt_t1 (ticked rt inp) = rt_t1 rt" "rt_last_cmd (ticked rt inp) = rt_last_cmd rt"
  "rt_seq (ticked rt inp) = rt_seq rt" "rt_last_t (ticked rt inp) = rt_last_t rt"
  "rt_next_chunk_seq (ticked rt inp) = rt_next_chunk_seq rt" "rt_vel (ticked rt inp) = rt_vel rt"
  "rt_tally (ticked rt inp) = rt_tally rt" "rt_prev_pos (ticked rt inp) = rt_prev_pos rt"
  "rt_have_prev_pos (ticked rt inp) = rt_have_prev_pos rt"
  by (simp_all add: ticked_def)

lemma accepted_ack_ticked [simp]: "accepted_ack (ticked rt inp) a = accepted_ack rt a"
  unfolding accepted_ack_def ticked_fields ..

definition tick_table :: "FuseConfig \<Rightarrow> FuseRt \<Rightarrow> FsmInput \<Rightarrow> FuseRt \<times> fsm_out" where
  "tick_table cfg rt inp =
     transition cfg (ticked rt inp) (rt_state rt) (clean_tick inp) (accepted_ack rt (fi_ack inp)) inp"

lemma fsm_next_eq:
  "fst (fsm_next cfg rt inp) = fst (tick_table cfg rt inp) \<lparr> rt_state := fst (snd (tick_table cfg rt inp)) \<rparr>"
  "snd (fsm_next cfg rt inp) = snd (tick_table cfg rt inp)"
  using accepted_ack_ticked [of rt inp "fi_ack inp"]
  unfolding fsm_next_def Let_def ticked_def [symmetric] tick_table_def
  by (simp_all add: split_beta)

lemma fsm_next_state: "rt_state (fst (fsm_next cfg rt inp)) = fst (snd (fsm_next cfg rt inp))"
  by (simp add: fsm_next_eq)

subsection \<open>The abstract machine\<close>

inductive fsm_edge :: "FuseState \<Rightarrow> FuseState \<Rightarrow> bool" where
  to_fault: "fsm_edge s Fault"
| stay_terminated: "fsm_edge Terminated Terminated"
| escalated: "s' \<in> {Terminated, Armed, Escalated} \<Longrightarrow> fsm_edge Escalated s'"
| held: "s' \<in> {Armed, Terminated, Escalated, Held} \<Longrightarrow> fsm_edge Held s'"
| braking: "s' \<in> {Held, Braking} \<Longrightarrow> fsm_edge Braking s'"
| running: "s \<in> {Armed, Watching, Clamped} \<Longrightarrow> s' \<in> {Braking, Clamped, Armed, Watching} \<Longrightarrow> fsm_edge s s'"

inductive_cases fsm_edge_FaultE: "fsm_edge Fault s'"
inductive_cases fsm_edge_TerminatedE: "fsm_edge Terminated s'"
inductive_cases fsm_edge_BrakingE: "fsm_edge Braking s'"
inductive_simps fsm_edge_simps: "fsm_edge s s'"

lemma from_running_edge:
  "fst (snd (from_running cfg rt s inp)) \<in> {Braking, Clamped, Armed, Watching}"
  by (simp add: from_running_def Let_def)

lemma from_braking_edge: "fst (snd (from_braking cfg rt inp)) \<in> {Fault, Held, Braking}"
  by (simp add: from_braking_def Let_def)

lemma from_held_edge: "fst (snd (from_held cfg rt clean ack inp)) \<in> {Armed, Terminated, Escalated, Held}"
  by (simp add: from_held_def from_held_no_ack_def Let_def split: option.split AckDecision.split)

lemma from_escalated_edge: "fst (snd (from_escalated cfg rt ack)) \<in> {Terminated, Armed, Escalated}"
  by (simp add: from_escalated_def split: option.split AckDecision.split)

lemma transition_edge: "fsm_edge s (fst (snd (transition cfg rt s clean ack inp)))"
  using from_running_edge [of cfg rt s inp] from_braking_edge [of cfg rt inp]
    from_held_edge [of cfg rt clean ack inp] from_escalated_edge [of cfg rt ack]
  by (cases s) (auto simp: transition_def fsm_edge_simps)

text \<open>Every tick of the code is an edge of the abstract machine.\<close>

lemma fsm_next_edge: "fsm_edge (rt_state rt) (rt_state (fst (fsm_next cfg rt inp)))"
  unfolding fsm_next_eq tick_table_def by (simp add: transition_edge)

subsection \<open>Accepted acknowledgements\<close>

lemma accepted_ack_Some:
  "accepted_ack rt ack = Some a \<longleftrightarrow> ack = Some a \<and> unat (va_operator_slot a) < MAX_OPERATORS \<and>
     va_handoff_seq a = rt_handoff_seq rt \<and> rt_last_nonce rt ! unat (va_operator_slot a) < va_nonce a"
  by (auto simp: accepted_ack_def Let_def not_le not_less split: option.splits if_splits)

subsection \<open>Faults latch\<close>

lemma fsm_next_fault_bits:
  assumes "has_bit (fi_trips inp) FAULT_BITS"
  shows "rt_state (fst (fsm_next cfg rt inp)) = Fault" "snd (fsm_next cfg rt inp) = (Fault, 0, fault_reason (fi_trips inp))"
  using assms by (simp_all add: fsm_next_eq tick_table_def transition_def)

lemma fsm_next_from_fault:
  "rt_state rt = Fault \<Longrightarrow> rt_state (fst (fsm_next cfg rt inp)) = Fault \<and> rt_hold (fst (fsm_next cfg rt inp)) = rt_hold rt"
  by (simp add: fsm_next_eq tick_table_def transition_def)

lemma fsm_next_terminal:
  "is_terminal (rt_state rt) \<Longrightarrow> is_terminal (rt_state (fst (fsm_next cfg rt inp)))"
  using fsm_next_edge [of rt cfg inp] by (cases "rt_state rt") (auto simp: fsm_edge_simps)

subsection \<open>How a stop ends\<close>

text \<open>Control returns to the policy only through an accepted resume or within the re-arm budget.\<close>

lemma fsm_next_rearm:
  assumes stop: "is_stop (rt_state rt)" and run: "\<not> is_stop (rt_state (fst (fsm_next cfg rt inp)))"
  shows "rt_state rt \<in> {Held, Escalated} \<and> rt_state (fst (fsm_next cfg rt inp)) = Armed \<and>
    ((\<exists>a. fi_ack inp = Some a \<and> accepted_ack rt (Some a) = Some a \<and> va_decision a = Resume) \<or>
     (rt_state rt = Held \<and> hy_rearm (fc_hyst cfg) = AutoRearm \<and> fi_chunk_ok inp \<and>
        hy_rearm_hold (fc_hyst cfg) \<le> rt_held_clean rt \<and> rt_rearms rt < hy_max_rearms (fc_hyst cfg)))"
proof -
  have edge: "fsm_edge (rt_state rt) (rt_state (fst (fsm_next cfg rt inp)))" by (rule fsm_next_edge)
  have s: "rt_state rt \<in> {Held, Escalated}" and a: "rt_state (fst (fsm_next cfg rt inp)) = Armed"
    using edge stop run by (auto simp: fsm_edge_simps)
  have nf: "\<not> has_bit (fi_trips inp) FAULT_BITS" using fsm_next_fault_bits(1) a by fastforce
  have ack: "\<And>x. accepted_ack rt (fi_ack inp) = Some x \<Longrightarrow> fi_ack inp = Some x \<and> accepted_ack rt (Some x) = Some x"
    by (auto simp: accepted_ack_Some)
  show ?thesis
  proof (cases "rt_state rt = Held")
    case True
    then show ?thesis
      using a nf ack unfolding fsm_next_eq tick_table_def transition_def
      by (auto simp: from_held_def from_held_no_ack_def Let_def split: option.splits AckDecision.splits if_splits)
  next
    case False
    then have "rt_state rt = Escalated" using s by simp
    then show ?thesis
      using a nf ack unfolding fsm_next_eq tick_table_def transition_def
      by (auto simp: from_escalated_def Let_def split: option.splits AckDecision.splits if_splits)
  qed
qed

subsection \<open>How long a stop lasts\<close>

text \<open>
  An upper bound on the ticks the fuse may still spend in Braking, Held and Escalated, whatever
  the inputs: every tick that stays in one of the three decreases it.
\<close>

definition pausing :: "FuseState \<Rightarrow> bool" where
  "pausing s \<longleftrightarrow> s \<in> {Braking, Held, Escalated}"

definition stop_budget :: "FuseConfig \<Rightarrow> FuseRt \<Rightarrow> nat" where
  "stop_budget cfg rt =
     (let h = fc_hyst cfg; bt = unat (hy_brake_timeout_ticks h); eh = unat (hy_escalate_after_hold_ticks h);
          ht = unat (hy_handoff_timeout_ticks h) in
      (case rt_state rt of
         Braking \<Rightarrow> (bt - unat (rt_brake_ticks rt)) + eh + ht + 3
       | Held \<Rightarrow> (eh - unat (rt_held_ticks rt)) + ht + 2
       | Escalated \<Rightarrow> (ht - unat (rt_escalated_ticks rt)) + 1
       | _ \<Rightarrow> 0))"

lemma sat_inc_budget:
  fixes x y :: "'a::len word"
  assumes "\<not> y \<le> x" shows "unat y - unat (sat_inc x) < unat y - unat x"
  using sat_inc_le_iff(1) [of x y] assms by (simp add: not_le word_less_nat_alt)

lemma latch_hold_fields [simp]:
  "rt_state (latch_hold cfg rt) = rt_state rt" "rt_held_ticks (latch_hold cfg rt) = rt_held_ticks rt"
  "rt_last_nonce (latch_hold cfg rt) = rt_last_nonce rt" "rt_handoff_seq (latch_hold cfg rt) = rt_handoff_seq rt"
  "rt_pos (latch_hold cfg rt) = rt_pos rt" "rt_window (latch_hold cfg rt) = rt_window rt"
  "rt_cur (latch_hold cfg rt) = rt_cur rt" "rt_scratch (latch_hold cfg rt) = rt_scratch rt"
  "rt_t1 (latch_hold cfg rt) = rt_t1 rt" "rt_last_cmd (latch_hold cfg rt) = rt_last_cmd rt"
  "rt_seq (latch_hold cfg rt) = rt_seq rt" "rt_last_t (latch_hold cfg rt) = rt_last_t rt"
  "rt_next_chunk_seq (latch_hold cfg rt) = rt_next_chunk_seq rt" "rt_vel (latch_hold cfg rt) = rt_vel rt"
  "rt_rearms (latch_hold cfg rt) = rt_rearms rt" "rt_tally (latch_hold cfg rt) = rt_tally rt"
  by (simp_all add: latch_hold_def Let_def)

lemma stop_budget_decreases:
  assumes "pausing (rt_state rt)" "pausing (rt_state (fst (fsm_next cfg rt inp)))"
  shows "stop_budget cfg (fst (fsm_next cfg rt inp)) < stop_budget cfg rt"
proof -
  have nf: "\<not> has_bit (fi_trips inp) FAULT_BITS"
    using fsm_next_fault_bits(1) assms(2) by (fastforce simp: pausing_def)
  consider "rt_state rt = Braking" | "rt_state rt = Held" | "rt_state rt = Escalated"
    using assms(1) by (auto simp: pausing_def)
  then show ?thesis
  proof cases
    case 1
    then show ?thesis
      using assms(2) nf unfolding fsm_next_eq tick_table_def transition_def
      by (auto simp: from_braking_def stop_budget_def Let_def pausing_def sat_inc_budget split: if_splits)
  next
    case 2
    then show ?thesis
      using assms(2) nf unfolding fsm_next_eq tick_table_def transition_def
      by (auto simp: from_held_def from_held_no_ack_def stop_budget_def Let_def pausing_def sat_inc_budget
          split: option.splits AckDecision.splits if_splits)
  next
    case 3
    then show ?thesis
      using assms(2) nf unfolding fsm_next_eq tick_table_def transition_def
      by (auto simp: from_escalated_def stop_budget_def Let_def pausing_def sat_inc_budget
          split: option.splits AckDecision.splits if_splits)
  qed
qed

lemma budget_arith:
  "(bt :: nat) - x + eh + ht + 3 \<le> bt + eh + ht + 3" "eh - x + ht + 2 \<le> bt + eh + ht + 3"
  "ht - x + 1 \<le> bt + eh + ht + 3"
  by linarith+

lemma stop_budget_le:
  "stop_budget cfg rt \<le> unat (hy_brake_timeout_ticks (fc_hyst cfg)) + unat (hy_escalate_after_hold_ticks (fc_hyst cfg))
     + unat (hy_handoff_timeout_ticks (fc_hyst cfg)) + 3"
  by (cases "rt_state rt") (simp_all only: stop_budget_def Let_def FuseState.case budget_arith le0)

subsection \<open>Acknowledgements are used once\<close>

definition nonce_le :: "u64 list \<Rightarrow> u64 list \<Rightarrow> bool" where
  "nonce_le ns ns' \<longleftrightarrow> length ns' = length ns \<and> (\<forall>i < length ns. ns ! i \<le> ns' ! i)"

lemma nonce_le_refl [simp]: "nonce_le ns ns"
  by (simp add: nonce_le_def)

lemma nonce_le_trans: "nonce_le a b \<Longrightarrow> nonce_le b c \<Longrightarrow> nonce_le a c"
  by (simp add: nonce_le_def) (blast intro: order_trans)

lemma consume_nonce_fields [simp]:
  "rt_state (consume_nonce rt a) = rt_state rt" "rt_hold (consume_nonce rt a) = rt_hold rt"
  "rt_pos (consume_nonce rt a) = rt_pos rt" "rt_cur (consume_nonce rt a) = rt_cur rt"
  "rt_scratch (consume_nonce rt a) = rt_scratch rt" "rt_t1 (consume_nonce rt a) = rt_t1 rt"
  "rt_last_cmd (consume_nonce rt a) = rt_last_cmd rt" "rt_window (consume_nonce rt a) = rt_window rt"
  "rt_seq (consume_nonce rt a) = rt_seq rt" "rt_last_t (consume_nonce rt a) = rt_last_t rt"
  "rt_next_chunk_seq (consume_nonce rt a) = rt_next_chunk_seq rt"
  "rt_handoff_seq (consume_nonce rt a) = rt_handoff_seq rt"
  by (simp_all add: consume_nonce_def Let_def)

lemmas nonce_simps = rearm_ack_def consume_nonce_def Let_def enter_braking_def

lemma fsm_next_nonce: "nonce_le (rt_last_nonce rt) (rt_last_nonce (fst (fsm_next cfg rt inp)))"
proof -
  have upd: "nonce_le (rt_last_nonce rt) ((rt_last_nonce rt)[unat (va_operator_slot a) := va_nonce a])"
    if "accepted_ack rt (fi_ack inp) = Some a" for a
    unfolding nonce_le_def
  proof (intro conjI allI impI)
    fix i assume i: "i < length (rt_last_nonce rt)"
    have "rt_last_nonce rt ! unat (va_operator_slot a) \<le> va_nonce a"
      using that by (auto simp: accepted_ack_Some)
    then show "rt_last_nonce rt ! i \<le> (rt_last_nonce rt)[unat (va_operator_slot a) := va_nonce a] ! i"
      using i by (cases "i = unat (va_operator_slot a)") simp_all
  qed simp
  show ?thesis
    unfolding fsm_next_eq tick_table_def transition_def
    using upd
    by (cases "rt_state rt")
      (auto simp: from_running_def from_braking_def from_held_def from_held_no_ack_def from_escalated_def nonce_simps
        split: option.split AckDecision.split)
qed

text \<open>An acknowledgement that changed the state is stale from then on.\<close>

lemma fsm_next_ack_used:
  assumes r: "snd (snd (snd (fsm_next cfg rt inp))) \<in> {RC_RearmedAck, RC_TerminatedAbort, RC_TerminatedRetune}"
    and len: "length (rt_last_nonce rt) = MAX_OPERATORS"
  obtains a where "fi_ack inp = Some a" "accepted_ack rt (Some a) = Some a"
    "rt_last_nonce (fst (fsm_next cfg rt inp)) ! unat (va_operator_slot a) = va_nonce a"
proof -
  have nf: "\<not> has_bit (fi_trips inp) FAULT_BITS"
    using fsm_next_fault_bits(2) [of inp cfg rt] r by (auto simp: fault_reason_def split: if_splits)
  have run: "snd (snd (snd (from_running cfg rt' s inp))) \<notin> {RC_RearmedAck, RC_TerminatedAbort, RC_TerminatedRetune}" for rt' s
    by (simp add: from_running_def Let_def clamp_reason_def)
  have ns: "rt_state rt \<notin> {Armed, Watching, Clamped}"
    using r nf run unfolding fsm_next_eq tick_table_def transition_def by auto
  have "\<exists>a. accepted_ack rt (fi_ack inp) = Some a \<and>
      rt_last_nonce (fst (fsm_next cfg rt inp)) = (rt_last_nonce rt)[unat (va_operator_slot a) := va_nonce a]"
  proof (cases "accepted_ack rt (fi_ack inp)")
    case None
    then show ?thesis
      using r nf ns unfolding fsm_next_eq tick_table_def transition_def
      by (cases "rt_state rt")
        (auto simp: from_braking_def from_held_def from_held_no_ack_def from_escalated_def Let_def split: if_splits)
  next
    case (Some a)
    then have slot: "unat (va_operator_slot a) < MAX_OPERATORS" by (simp add: accepted_ack_Some)
    show ?thesis
      using r nf ns Some slot unfolding fsm_next_eq tick_table_def transition_def
      by (cases "rt_state rt"; cases "va_decision a")
        (auto simp: from_braking_def from_held_def from_held_no_ack_def from_escalated_def nonce_simps split: if_splits)
  qed
  then obtain a where a: "accepted_ack rt (fi_ack inp) = Some a"
    "rt_last_nonce (fst (fsm_next cfg rt inp)) = (rt_last_nonce rt)[unat (va_operator_slot a) := va_nonce a]" by blast
  then have "rt_last_nonce (fst (fsm_next cfg rt inp)) ! unat (va_operator_slot a) = va_nonce a"
    using len by (simp add: accepted_ack_Some)
  then show ?thesis using that a(1) by (auto simp: accepted_ack_Some)
qed

lemma used_ack_rejected:
  assumes "nonce_le ns (rt_last_nonce rt)" "ns ! unat (va_operator_slot a) = va_nonce a"
    "unat (va_operator_slot a) < length ns"
  shows "accepted_ack rt (Some a) = None"
  using assms by (auto simp: nonce_le_def accepted_ack_def Let_def)

end
