(* ===== verification/Conformal.thy ===== *)
theory Conformal
  imports Tier0
begin

text \<open>
  \<open>lictor-detect/src/conformal.rs\<close>: the runtime half of the split-conformal detector.
  \<open>standardise\<close> turns raw features into z-scores with the table row of the tick's time bin,
  \<open>aggregate\<close> evaluates the gate formula as a maximum of minima, and \<open>trip\<close> compares strictly.
  The main lemma says what that arithmetic decides: the detector trips exactly when some gate term
  is fully available and every one of its channels exceeds the threshold.
\<close>

definition standardise :: "CalibrationC \<Rightarrow> u32 \<Rightarrow> Scores \<Rightarrow> Scores" where
  "standardise cal t sc =
     (let b0 = CalibrationC_bin cal t; b = (if T_GRID \<le> b0 then T_GRID - 1 else b0);
          live = cc_mask cal AND sc_valid sc in
      sc \<lparr> sc_z := map (\<lambda>j. if has_bit live (push_bit j 1)
                          then (sc_f sc ! j - cc_center cal ! b ! j) / (cc_scale cal ! b ! j) else 0)
                        [0..<NFEAT] \<rparr>)"

text \<open>The minimum over the channels of one term.\<close>

definition term_min :: "f64 list \<Rightarrow> u32 \<Rightarrow> f64" where
  "term_min z tm = foldl (\<lambda>v j. if has_bit tm (push_bit j 1) then fmath_min v (z ! j) else v) f_inf [0..<NFEAT]"

definition aggregate_terms :: "CalibrationC \<Rightarrow> u32 \<Rightarrow> f64 list \<Rightarrow> f64" where
  "aggregate_terms cal live z =
     (let n = unat (gs_n_terms (cc_gate cal)); n_terms = (if MAX_TERMS < n then MAX_TERMS else n) in
      foldl (\<lambda>s i. let tm = gs_terms (cc_gate cal) ! i in
               if tm \<noteq> 0 \<and> tm AND live = tm then fmath_max s (term_min z tm) else s)
        f_neg_inf [0..<n_terms])"

definition fired_mask :: "CalibrationC \<Rightarrow> u32 \<Rightarrow> f64 list \<Rightarrow> u32" where
  "fired_mask cal live z =
     foldl (\<lambda>m j. or_if (has_bit live (push_bit j 1) \<and> z ! j > cc_tau cal) (push_bit j 1) m) 0 [0..<NFEAT]"

definition aggregate :: "CalibrationC \<Rightarrow> Scores \<Rightarrow> Scores \<times> f64" where
  "aggregate cal sc =
     (let live = cc_mask cal AND sc_valid sc; s = aggregate_terms cal live (sc_z sc) in
      (sc \<lparr> sc_fired := fired_mask cal live (sc_z sc), sc_s := s \<rparr>, s))"

definition trip :: "CalibrationC \<Rightarrow> Scores \<Rightarrow> bool" where
  "trip cal sc \<longleftrightarrow> sc_s sc > cc_tau cal"

subsection \<open>What the detector decides\<close>

lemma fmath_min_less: "\<not> is_nan a \<Longrightarrow> \<not> is_nan b \<Longrightarrow> x < fmath_min a b \<longleftrightarrow> x < a \<and> x < b"
  by (auto simp: fmath_min_def f_cmp)

lemma fmath_max_less: "\<not> is_nan a \<Longrightarrow> \<not> is_nan b \<Longrightarrow> x < fmath_max a b \<longleftrightarrow> x < a \<or> x < b"
  by (auto simp: fmath_max_def f_cmp)

lemma foldl_sel_min:
  assumes "\<not> is_nan m" "\<And>j. j \<in> set js \<Longrightarrow> P j \<Longrightarrow> \<not> is_nan (g j)"
  shows "x < foldl (\<lambda>v j. if P j then fmath_min v (g j) else v) m js \<longleftrightarrow> x < m \<and> (\<forall>j \<in> set js. P j \<longrightarrow> x < g j)"
    and "\<not> is_nan (foldl (\<lambda>v j. if P j then fmath_min v (g j) else v) m js)"
  using assms by (induction js arbitrary: m) (auto simp: fmath_min_less fmath_not_nan)

lemma foldl_sel_max:
  assumes "\<not> is_nan m" "\<And>j. j \<in> set js \<Longrightarrow> P j \<Longrightarrow> \<not> is_nan (g j)"
  shows "x < foldl (\<lambda>v j. if P j then fmath_max v (g j) else v) m js \<longleftrightarrow> x < m \<or> (\<exists>j \<in> set js. P j \<and> x < g j)"
  using assms by (induction js arbitrary: m) (auto simp: fmath_max_less fmath_not_nan)

lemma f_inf_not_nan [simp]: "\<not> is_nan f_inf" "\<not> is_nan f_neg_inf"
  by (simp_all add: is_nan_def f_inf_def f_neg_inf_def f_mag_def inf_mag_def)

lemma f_neg_inf_bot: "\<not> x < f_neg_inf"
proof -
  have "\<not> is_nan x \<Longrightarrow> - inf_mag \<le> f_key x"
    using f_key_bound [of x] by simp
  moreover have "f_key f_neg_inf = - inf_mag"
    by (simp add: f_key_def f_neg_inf_def f_sign_def f_mag_def inf_mag_def)
  ultimately show ?thesis by (auto simp: less_f64_def)
qed

lemma f_less_inf: "\<not> is_nan x \<Longrightarrow> y < x \<Longrightarrow> y < f_inf"
proof -
  have "\<not> is_nan x \<Longrightarrow> f_key x \<le> inf_mag"
    using f_key_bound [of x] by simp
  moreover have "f_key f_inf = inf_mag"
    by (simp add: f_key_def f_inf_def f_sign_def f_mag_def inf_mag_def)
  ultimately show "\<not> is_nan x \<Longrightarrow> y < x \<Longrightarrow> y < f_inf" by (auto simp: less_f64_def)
qed

text \<open>The channels of a mask.\<close>

definition channels :: "u32 \<Rightarrow> nat set" where
  "channels m = {j. j < NFEAT \<and> has_bit m (push_bit j 1)}"

lemma channels_nonempty:
  assumes "m \<noteq> 0" "m < 4096" shows "channels m \<noteq> {}"
proof
  assume "channels m = {}"
  then have "filter (\<lambda>i. has_bit m (2 ^ i)) [0..<NFEAT] = []"
    by (auto simp: channels_def filter_empty_conv)
  then have "take_bit NFEAT m = 0" using or_all_bits [of NFEAT m] by (simp add: NFEAT_def)
  moreover have "take_bit NFEAT m = m"
    using assms(2) by (simp add: take_bit_word_iff NFEAT_def word_less_nat_alt)
  ultimately show False using assms(1) by simp
qed

lemma term_min_less:
  assumes "tm \<noteq> 0" "tm < 4096" "\<forall>j \<in> channels tm. \<not> is_nan (z ! j)"
  shows "x < term_min z tm \<longleftrightarrow> (\<forall>j \<in> channels tm. x < z ! j)" and "\<not> is_nan (term_min z tm)"
proof -
  have nn: "\<not> is_nan (z ! j)" if "j \<in> set [0..<NFEAT]" "has_bit tm (push_bit j 1)" for j
    using assms(3) that by (simp add: channels_def)
  show "\<not> is_nan (term_min z tm)"
    unfolding term_min_def by (rule foldl_sel_min(2) [OF f_inf_not_nan(1) nn])
  have "x < term_min z tm \<longleftrightarrow> x < f_inf \<and> (\<forall>j \<in> set [0..<NFEAT]. has_bit tm (push_bit j 1) \<longrightarrow> x < z ! j)"
    unfolding term_min_def by (rule foldl_sel_min(1) [OF f_inf_not_nan(1) nn])
  also have "\<dots> \<longleftrightarrow> (\<forall>j \<in> channels tm. x < z ! j)"
  proof -
    obtain j where "j \<in> channels tm" using channels_nonempty [OF assms(1,2)] by blast
    then show ?thesis using assms(3) f_less_inf unfolding channels_def by auto
  qed
  finally show "x < term_min z tm \<longleftrightarrow> (\<forall>j \<in> channels tm. x < z ! j)" .
qed

lemma trip_aggregate_iff:
  assumes gate: "GateSpec_wf (cc_gate cal)"
    and z: "\<forall>j \<in> channels (cc_mask cal AND sc_valid sc). \<not> is_nan (sc_z sc ! j)"
  shows "trip cal (fst (aggregate cal sc)) \<longleftrightarrow>
    (\<exists>i < unat (gs_n_terms (cc_gate cal)).
       gs_terms (cc_gate cal) ! i AND (cc_mask cal AND sc_valid sc) = gs_terms (cc_gate cal) ! i \<and>
       (\<forall>j \<in> channels (gs_terms (cc_gate cal) ! i). cc_tau cal < sc_z sc ! j))"
proof -
  let ?live = "cc_mask cal AND sc_valid sc" and ?tm = "\<lambda>i. gs_terms (cc_gate cal) ! i"
  let ?n = "unat (gs_n_terms (cc_gate cal))"
  let ?P = "\<lambda>i. ?tm i \<noteq> 0 \<and> ?tm i AND ?live = ?tm i"
  have n: "(if MAX_TERMS < ?n then MAX_TERMS else ?n) = ?n" using gate by (simp add: GateSpec_wf_def)
  have t: "?tm i \<noteq> 0" "?tm i < 4096" if "i < ?n" for i
    using gate that unfolding GateSpec_wf_def by (metis less_le_trans)+
  have sub: "channels tm \<subseteq> channels ?live" if "tm AND ?live = tm" for tm
  proof
    fix j assume "j \<in> channels tm"
    then have j: "j < 12" "bit tm j"
      using has_bit_exp [of j tm] by (simp_all add: channels_def NFEAT_def)
    have "bit (tm AND ?live) j" using that j(2) by simp
    then have "bit ?live j" by (simp add: bit_and_iff)
    then show "j \<in> channels ?live" using j(1) has_bit_exp [of j ?live] by (simp add: channels_def NFEAT_def)
  qed
  have nn: "\<not> is_nan (term_min (sc_z sc) (?tm i))" if "i \<in> set [0..<?n]" "?P i" for i
  proof -
    have i: "i < ?n" using that(1) by simp
    have "channels (?tm i) \<subseteq> channels ?live" using that(2) sub by blast
    then have "\<forall>j \<in> channels (?tm i). \<not> is_nan (sc_z sc ! j)" using z by blast
    then show ?thesis by (rule term_min_less(2) [OF t [OF i]])
  qed
  have "trip cal (fst (aggregate cal sc)) \<longleftrightarrow>
      cc_tau cal < foldl (\<lambda>s i. if ?P i then fmath_max s (term_min (sc_z sc) (?tm i)) else s) f_neg_inf [0..<?n]"
    by (simp add: trip_def aggregate_def aggregate_terms_def Let_def n)
  also have "\<dots> \<longleftrightarrow> cc_tau cal < f_neg_inf \<or>
      (\<exists>i \<in> set [0..<?n]. ?P i \<and> cc_tau cal < term_min (sc_z sc) (?tm i))"
    by (rule foldl_sel_max [OF f_inf_not_nan(2) nn])
  also have "\<dots> \<longleftrightarrow> (\<exists>i < ?n. ?tm i AND ?live = ?tm i \<and> (\<forall>j \<in> channels (?tm i). cc_tau cal < sc_z sc ! j))"
  proof -
    have "?P i \<and> cc_tau cal < term_min (sc_z sc) (?tm i) \<longleftrightarrow>
        ?tm i AND ?live = ?tm i \<and> (\<forall>j \<in> channels (?tm i). cc_tau cal < sc_z sc ! j)" if "i < ?n" for i
      using term_min_less(1) [OF t [OF that]] t [OF that] z sub by blast
    then show ?thesis using f_neg_inf_bot by (auto simp: atLeast_upt [symmetric])
  qed
  finally show ?thesis .
qed

text \<open>With the threshold at \<open>+inf\<close>, as in an uncalibrated configuration, the detector never trips.\<close>

lemma trip_inf: "cc_tau cal = f_inf \<Longrightarrow> \<not> trip cal sc"
proof -
  have "\<not> f_inf < x" for x
  proof -
    have "\<not> is_nan x \<Longrightarrow> f_key x \<le> inf_mag"
      using f_key_bound [of x] by simp
    moreover have "f_key f_inf = inf_mag"
      by (simp add: f_key_def f_inf_def f_sign_def f_mag_def inf_mag_def)
    ultimately show ?thesis by (auto simp: less_f64_def)
  qed
  then show "cc_tau cal = f_inf \<Longrightarrow> \<not> trip cal sc" by (simp add: trip_def)
qed

end
