(* ===== verification/Fuse.thy ===== *)
theory Fuse
  imports Fsm Conformal
begin

text \<open>
  \<open>lictor-fuse/src/fuse.rs\<close>: the decision rule \<open>decide\<close> and its wrapper \<open>Fuse\<close>.  The nine stages
  are kept apart: the guard, the guard's own tick, ingestion, Tier 0, the scores (Tier 1 and the
  conformal detector), the window, the state machine, the action and the tally.  \<open>decide\<close>
  composes them as the source does and returns the runtime state with the verdict.  The first
  lemmas show the runtime invariant \<open>FuseRt_inv\<close> and that every reachable state satisfies it.
\<close>

record TickInput =
  ti_obs :: ObsView
  ti_chunk :: "ChunkView option"
  ti_idx :: u16
  ti_missed_ticks :: u8
  ti_ack :: "VerifiedAck option"
  ti_schema_fault :: bool

text \<open>\<open>copy_row(&mut dst[..k], src)\<close>.\<close>

definition copy_row :: "nat \<Rightarrow> f64 list \<Rightarrow> f64 list \<Rightarrow> f64 list" where
  "copy_row k dst src = blit (min k (length src)) src dst"

definition Scores_default :: Scores where
  "Scores_default = \<lparr> sc_f = replicate NFEAT 0, sc_z = replicate NFEAT 0, sc_s = 0, sc_valid = 0, sc_fired = 0 \<rparr>"

definition disarmed_scores :: Scores where
  "disarmed_scores = Scores_default \<lparr> sc_s := f_neg_inf \<rparr>"

fun status_of :: "FuseState \<Rightarrow> Status" where
  "status_of Idle = St_Nominal"
| "status_of Armed = St_Nominal"
| "status_of Watching = St_Watching"
| "status_of Clamped = St_Clamped"
| "status_of Braking = St_Braking"
| "status_of Held = St_Held"
| "status_of Escalated = St_Escalated"
| "status_of Fault = St_Fault"
| "status_of Terminated = St_Terminated"

fun source_of :: "FuseState \<Rightarrow> ActionSource" where
  "source_of Armed = Src_Policy"
| "source_of Watching = Src_Policy"
| "source_of Clamped = Src_Clamped"
| "source_of Braking = Src_Brake"
| "source_of Held = Src_Hold"
| "source_of Escalated = Src_Hold"
| "source_of Fault = Src_Hold"
| "source_of Terminated = Src_Hold"
| "source_of Idle = Src_Hold"

subsection \<open>Stage 0: the guard\<close>

definition guard_nonfinite :: "TickInput \<Rightarrow> bool" where
  "guard_nonfinite inp =
     (let obs = ti_obs inp;
          vel_bad = (case ov_vel obs of Some v \<Rightarrow> \<not> all_finite v | None \<Rightarrow> False);
          chunk_bad = (case ti_chunk inp of Some c \<Rightarrow> \<not> ChunkView_all_finite c | None \<Rightarrow> False) in
      \<not> all_finite (ov_pos obs) \<or> vel_bad \<or> \<not> all_finite (ov_aux obs) \<or> \<not> all_finite (ov_ext obs) \<or> chunk_bad)"

definition guard_chunk :: "FuseConfig \<Rightarrow> FuseRt \<Rightarrow> TickInput \<Rightarrow> ChunkView \<Rightarrow> bool" where
  "guard_chunk cfg rt inp c =
     (let h = unat (cv_horizon c); d = unat (cv_dim c); t = ov_t (ti_obs inp) in
      d \<noteq> fc_dim cfg \<or> h \<noteq> fc_horizon cfg \<or> unat (cv_exec_steps c) \<noteq> fc_exec cfg \<or> length (cv_data c) \<noteq> h * d \<or>
      cv_seq c \<noteq> rt_next_chunk_seq rt \<or> cv_t_emit c > t \<or> ucast (ti_idx inp) \<noteq> t - cv_t_emit c)"

definition guard_time :: "FuseRt \<Rightarrow> TickInput \<Rightarrow> bool" where
  "guard_time rt inp =
     (let t = ov_t (ti_obs inp) in
      if rt_seq rt = 0 then t \<noteq> 0
      else Option.bind (checked_add (rt_last_t rt) 1) (\<lambda>x. checked_add x (ucast (ti_missed_ticks inp))) \<noteq> Some t)"

definition guard_schema :: "FuseConfig \<Rightarrow> FuseRt \<Rightarrow> TickInput \<Rightarrow> bool" where
  "guard_schema cfg rt inp =
     (let obs = ti_obs inp in
      ti_schema_fault inp \<or> fc_horizon cfg \<le> unat (ti_idx inp) \<or> length (ov_pos obs) \<noteq> fc_pos_dim cfg \<or>
      MAX_AUX < length (ov_aux obs) \<or> MAX_EXT < length (ov_ext obs) \<or>
      (case ov_vel obs of Some v \<Rightarrow> length v \<noteq> fc_pos_dim cfg | None \<Rightarrow> False) \<or>
      (case ti_chunk inp of Some c \<Rightarrow> guard_chunk cfg rt inp c | None \<Rightarrow> \<not> ChunkBuf_is_filled (rt_cur rt)) \<or>
      guard_time rt inp)"

definition guard :: "FuseConfig \<Rightarrow> FuseRt \<Rightarrow> TickInput \<Rightarrow> u32" where
  "guard cfg rt inp =
     or_if (hy_watchdog_ticks (fc_hyst cfg) < ti_missed_ticks inp) TRIP_WATCHDOG
       (or_if (guard_schema cfg rt inp) TRIP_SCHEMA
         (or_if (guard_nonfinite inp) TRIP_NONFINITE 0))"

definition live_dim :: "FuseConfig \<Rightarrow> nat" where "live_dim cfg = min (fc_dim cfg) MAX_D"
definition live_pos_dim :: "FuseConfig \<Rightarrow> nat" where "live_pos_dim cfg = min (fc_pos_dim cfg) MAX_POS"

text \<open>The hold action, written into the first \<open>dim\<close> entries of a zeroed row.\<close>

definition hold_row :: "FuseConfig \<Rightarrow> FuseRt \<Rightarrow> f64 list" where
  "hold_row cfg rt =
     (let z = replicate MAX_D 0; dim = live_dim cfg in
      hold_action cfg (take (live_pos_dim cfg) (rt_hold rt)) (take dim z) @ drop dim z)"

definition brake_row :: "FuseConfig \<Rightarrow> FuseRt \<Rightarrow> f64 list" where
  "brake_row cfg rt =
     (let z = replicate MAX_D 0; dim = live_dim cfg in
      brake_action cfg (take (live_pos_dim cfg) (rt_pos rt)) (take (live_pos_dim cfg) (rt_vel rt)) (take dim z) @ drop dim z)"

definition fault_tick :: "FuseConfig \<Rightarrow> FuseRt \<Rightarrow> TickInput \<Rightarrow> u32 \<Rightarrow> FuseState \<Rightarrow> FuseRt \<times> SafetyVerdict" where
  "fault_tick cfg rt inp bits prev_state =
     (let obs = ti_obs inp;
          rt = (if length (ov_pos obs) = fc_pos_dim cfg \<and> all_finite (ov_pos obs)
                then rt \<lparr> rt_pos := copy_row (live_pos_dim cfg) (rt_pos rt) (ov_pos obs) \<rparr> else rt);
          rt = rt \<lparr> rt_last_t := ov_t obs \<rparr>;
          (rt, state, extra, reason) = fsm_next cfg rt
            \<lparr> fi_trips = bits, fi_predictive = False, fi_warn = False,
              fi_soft_clampable = (fc_clamp cfg = Project), fi_stopped = False,
              fi_chunk_boundary = (ti_chunk inp \<noteq> None), fi_chunk_ok = False, fi_ack = None \<rparr>;
          action = hold_row cfg rt;
          v = \<lparr> sv_seq = rt_seq rt, sv_t = ov_t obs, sv_status = status_of state, sv_state = state,
                sv_prev_state = prev_state, sv_trips = bits OR extra, sv_action = action,
                sv_action_dim = of_nat (live_dim cfg), sv_action_src = Src_Hold, sv_substituted = True,
                sv_clamped_dims = 0, sv_scores = disarmed_scores, sv_tau = cc_tau (fc_calib cfg),
                sv_window = win_bits (rt_window rt), sv_window_hits = Window_hits (rt_window rt),
                sv_brake_margin = f_nan, sv_reason = reason, sv_handoff_seq = None,
                sv_ack_consumed = False, sv_violation_reached_env = False \<rparr> in
      (rt \<lparr> rt_tally := Tally_record (rt_tally rt) v TickEvents_default, rt_last_cmd := action,
           rt_seq := sat_inc (rt_seq rt) \<rparr>, v))"

subsection \<open>Stage 1: ingestion\<close>

definition ingest :: "FuseConfig \<Rightarrow> FuseRt \<Rightarrow> TickInput \<Rightarrow> FuseRt" where
  "ingest cfg rt inp =
     (let obs = ti_obs inp; pos_dim = live_pos_dim cfg;
          rt = rt \<lparr> rt_prev_pos := rt_pos rt \<rparr>;
          rt = rt \<lparr> rt_pos := copy_row pos_dim (rt_pos rt) (ov_pos obs) \<rparr>;
          rt = rt \<lparr> rt_vel := (case ov_vel obs of
                 Some v \<Rightarrow> copy_row pos_dim (rt_vel rt) v
               | None \<Rightarrow> set_prefix pos_dim (\<lambda>c. if rt_have_prev_pos rt
                             then (rt_pos rt ! c - rt_prev_pos rt ! c) * fc_inv_dt cfg else 0) (rt_vel rt)) \<rparr>;
          rt = rt \<lparr> rt_have_prev_pos := True,
                   rt_t1 := rt_t1 rt \<lparr> t1_trail := Trail_push (t1_trail (rt_t1 rt)) (rt_pos rt) pos_dim \<rparr>,
                   rt_last_t := ov_t obs \<rparr> in
      if ti_chunk inp \<noteq> None then rt \<lparr> rt_next_chunk_seq := rt_next_chunk_seq rt + 1 \<rparr> else rt)"

subsection \<open>Stage 2: Tier 0\<close>

definition no_brake :: BrakeOut where
  "no_brake = \<lparr> bo_feasible = False, bo_margin = f_neg_inf, bo_stop_dist = 0 \<rparr>"

definition brake_check :: "FuseConfig \<Rightarrow> FuseRt \<Rightarrow> ChunkView option \<Rightarrow> nat \<Rightarrow> BrakeOut" where
  "brake_check cfg rt v idx = (case v of
      Some v \<Rightarrow> brake_feasible cfg (take (live_pos_dim cfg) (rt_pos rt)) (take (live_pos_dim cfg) (rt_vel rt)) v idx
    | None \<Rightarrow> no_brake)"

text \<open>The Tier-0 bits of a tick: the checks, the brake, masked by what is enabled.\<close>

definition tier0_trips :: "FuseConfig \<Rightarrow> u32 \<Rightarrow> BrakeOut \<Rightarrow> u32" where
  "tier0_trips cfg trips br =
     or_if (\<not> bo_feasible br) TRIP_BRAKE trips AND (fc_tier0_enabled cfg OR TRIP_TIER0_HARD)"

text \<open>\<open>row_mut(idx)\<close> as the slice it borrows.\<close>

definition ChunkBuf_row :: "ChunkBuf \<Rightarrow> nat \<Rightarrow> f64 list" where
  "ChunkBuf_row b i =
     (let h = unat (cb_horizon b); d = unat (cb_dim b) in
      if h = 0 \<or> d = 0 then []
      else let i' = (if i < h then i else h - 1) in slice (i' * d) d (cb_data b))"

definition tier0_delivery ::
  "FuseConfig \<Rightarrow> FuseRt \<Rightarrow> TickInput \<Rightarrow> ChunkView \<Rightarrow> FuseRt \<times> u32 \<times> u32 \<times> BrakeOut" where
  "tier0_delivery cfg rt inp ch =
     (let (t0, scratch) = check_chunk cfg (ti_obs inp) ch (rt_scratch rt);
          rt = rt \<lparr> rt_scratch := scratch \<rparr>;
          brake = brake_check cfg rt (ChunkBuf_view scratch) (unat (ti_idx inp));
          trips0 = tier0_trips cfg (t0_trips t0) brake;
          rejected = has_bit trips0 TRIP_TIER0_HARD;
          rt = (if fc_mode cfg = Observe then rt \<lparr> rt_cur := ChunkBuf_copy_from (rt_cur rt) ch \<rparr>
                else (case ChunkBuf_view scratch of
                        Some v \<Rightarrow> rt \<lparr> rt_cur := ChunkBuf_copy_from (rt_cur rt) v \<rparr>
                      | None \<Rightarrow> rt));
          rt = rt \<lparr> rt_tally := Tally_record_chunk (rt_tally rt) rejected \<rparr> in
      (rt, trips0, t0_clamped_dims t0, brake))"

definition tier0_intra :: "FuseConfig \<Rightarrow> FuseRt \<Rightarrow> TickInput \<Rightarrow> FuseRt \<times> u32 \<times> u32 \<times> BrakeOut" where
  "tier0_intra cfg rt inp =
     (let idx = unat (ti_idx inp);
          rt = (if \<not> ChunkBuf_is_filled (rt_scratch rt)
                then (case ChunkBuf_view (rt_cur rt) of
                        Some v \<Rightarrow> rt \<lparr> rt_scratch := ChunkBuf_copy_from (rt_scratch rt) v \<rparr>
                      | None \<Rightarrow> rt)
                else rt) in
      (case ChunkBuf_view (rt_cur rt) of
         Some cv \<Rightarrow>
           (let (t0, row) = check_action cfg (ti_obs inp) (take (live_dim cfg) (rt_last_cmd rt))
                              (ChunkView_action cv idx) (ChunkBuf_row (rt_scratch rt) idx);
                rt = rt \<lparr> rt_scratch := ChunkBuf_set_row (rt_scratch rt) idx row \<rparr>;
                br = brake_check cfg rt (Some cv) idx in
            (rt, tier0_trips cfg (t0_trips t0) br, t0_clamped_dims t0, br))
       | None \<Rightarrow> (rt, tier0_trips cfg 0 no_brake, 0, no_brake)))"

definition stage_tier0 :: "FuseConfig \<Rightarrow> FuseRt \<Rightarrow> TickInput \<Rightarrow> FuseRt \<times> u32 \<times> u32 \<times> BrakeOut" where
  "stage_tier0 cfg rt inp = (case ti_chunk inp of
      Some ch \<Rightarrow> tier0_delivery cfg rt inp ch
    | None \<Rightarrow> tier0_intra cfg rt inp)"

subsection \<open>Stages 3 and 4: the scores\<close>

definition stage_scores :: "FuseConfig \<Rightarrow> FuseRt \<Rightarrow> TickInput \<Rightarrow> FuseRt \<times> Scores \<times> bool \<times> bool" where
  "stage_scores cfg rt inp =
     (let sc = disarmed_scores; cal = fc_calib cfg;
          (t1, sc) = (if CalibrationC_armed cal
                      then features cfg (rt_t1 rt) (ti_obs inp) (ti_chunk inp) sc else (rt_t1 rt, sc));
          sc = standardise cal (ov_t (ti_obs inp)) sc;
          (sc, s) = aggregate cal sc;
          hit = trip cal sc;
          warn = (\<not> hit \<and> s > cc_tau cal - hy_warn_margin (fc_hyst cfg)) in
      (rt \<lparr> rt_t1 := t1 \<rparr>, sc, hit, warn))"

subsection \<open>Stages 5 to 8: window, state machine, action, tally\<close>

text \<open>The candidate row of a buffer, copied into a zeroed action.\<close>

definition buf_row :: "FuseConfig \<Rightarrow> ChunkBuf \<Rightarrow> nat \<Rightarrow> f64 list" where
  "buf_row cfg b idx = (case ChunkBuf_view b of
      Some v \<Rightarrow> copy_row (live_dim cfg) (replicate MAX_D 0) (ChunkView_action v idx)
    | None \<Rightarrow> replicate MAX_D 0)"

definition fsm_input ::
  "FuseConfig \<Rightarrow> FuseRt \<Rightarrow> TickInput \<Rightarrow> u32 \<Rightarrow> bool \<Rightarrow> FsmInput" where
  "fsm_input cfg rt inp trips0 warn =
     (let boundary = (ti_chunk inp \<noteq> None) in
      \<lparr> fi_trips = trips0, fi_predictive = (hy_k (fc_hyst cfg) \<le> Window_hits (rt_window rt)), fi_warn = warn,
        fi_soft_clampable = (fc_clamp cfg = Project),
        fi_stopped = (fc_mode cfg = Observe \<or> fmath_norm (rt_vel rt) (live_pos_dim cfg) \<le> hy_v_stop_eps (fc_hyst cfg)),
        fi_chunk_boundary = boundary, fi_chunk_ok = (boundary \<and> trips0 = 0), fi_ack = ti_ack inp \<rparr>)"

text \<open>Stage 7: the action, its source, and the two flags that go with it.\<close>

definition stage_action ::
  "FuseConfig \<Rightarrow> FuseRt \<Rightarrow> FuseState \<Rightarrow> f64 list \<Rightarrow> f64 list \<Rightarrow> f64 list \<times> ActionSource \<times> bool \<times> bool" where
  "stage_action cfg rt state policy_row clamped_row =
     (let would = source_of state in
      if fc_mode cfg = Observe then (policy_row, Src_Policy, False, would \<noteq> Src_Policy)
      else (case would of Src_Policy \<Rightarrow> policy_row | Src_Clamped \<Rightarrow> clamped_row
              | Src_Brake \<Rightarrow> brake_row cfg rt | Src_Hold \<Rightarrow> hold_row cfg rt,
            would, would \<noteq> Src_Policy, False))"

definition admitted_tick :: "FuseConfig \<Rightarrow> FuseRt \<Rightarrow> TickInput \<Rightarrow> FuseRt \<times> SafetyVerdict" where
  "admitted_tick cfg rt0 inp =
     (let t = ov_t (ti_obs inp); idx = unat (ti_idx inp); prev_state = rt_state rt0;
          rt = ingest cfg rt0 inp;
          (rt, trips0, clamped_dims, brake) = stage_tier0 cfg rt inp;
          (rt, sc, hit, warn) = stage_scores cfg rt inp;
          rt = rt \<lparr> rt_window := Window_push (rt_window rt) hit (fc_window_mask cfg) \<rparr>;
          window_hits = Window_hits (rt_window rt);
          fi = fsm_input cfg rt inp trips0 warn;
          rt = rt \<lparr> rt_chunk_ok_this_tick := fi_chunk_ok fi \<rparr>;
          policy_row = buf_row cfg (rt_cur rt) idx;
          clamped_row = buf_row cfg (rt_scratch rt) idx;
          clamps_before = rt_clamps rt;
          rearms_before = rt_rearms rt;
          (rt, state, extra, reason) = fsm_next cfg rt fi;
          (action, src, substituted, violation) = stage_action cfg rt state policy_row clamped_row;
          entered_hold = (state = Held \<and> prev_state \<noteq> Held);
          entered_escalated = (state = Escalated \<and> prev_state \<noteq> Escalated);
          v = \<lparr> sv_seq = rt_seq rt, sv_t = t, sv_status = status_of state, sv_state = state,
                sv_prev_state = prev_state, sv_trips = trips0 OR extra, sv_action = action,
                sv_action_dim = of_nat (live_dim cfg), sv_action_src = src, sv_substituted = substituted,
                sv_clamped_dims = clamped_dims, sv_scores = sc, sv_tau = cc_tau (fc_calib cfg),
                sv_window = win_bits (rt_window rt), sv_window_hits = window_hits,
                sv_brake_margin = bo_margin brake, sv_reason = reason,
                sv_handoff_seq = (if entered_escalated then Some (rt_handoff_seq rt) else None),
                sv_ack_consumed = (ti_ack inp \<noteq> None \<and>
                   reason \<in> {RC_RearmedAck, RC_TerminatedAbort, RC_TerminatedRetune}),
                sv_violation_reached_env = violation \<rparr> in
      (rt \<lparr> rt_tally := Tally_record (rt_tally rt) v
             \<lparr> te_entered_hold = entered_hold, te_entered_escalated = entered_escalated,
               te_rearmed = (rt_rearms rt \<noteq> rearms_before), te_clamped = (rt_clamps rt \<noteq> clamps_before),
               te_live_z = cc_mask (fc_calib cfg) AND sc_valid sc \<rparr>,
           rt_last_cmd := action, rt_seq := sat_inc (rt_seq rt) \<rparr>, v))"

definition decide :: "FuseConfig \<Rightarrow> FuseRt \<Rightarrow> TickInput \<Rightarrow> FuseRt \<times> SafetyVerdict" where
  "decide cfg rt inp =
     (let bits = guard cfg rt inp in
      if bits \<noteq> 0 then fault_tick cfg rt inp bits (rt_state rt) else admitted_tick cfg rt inp)"

subsection \<open>The wrapper\<close>

record Fuse =
  fu_cfg :: FuseConfig
  fu_rt :: FuseRt

definition Fuse_new :: "FuseConfig \<Rightarrow> Fuse" where
  "Fuse_new cfg = \<lparr> fu_cfg = cfg, fu_rt = FuseRt_new \<rparr>"

definition Fuse_reset :: "Fuse \<Rightarrow> EpisodeInit \<Rightarrow> Fuse" where
  "Fuse_reset f init = f \<lparr> fu_rt := FuseRt_reset (fu_rt f) init \<rparr>"

definition Fuse_step :: "Fuse \<Rightarrow> TickInput \<Rightarrow> Fuse \<times> SafetyVerdict" where
  "Fuse_step f inp = (case decide (fu_cfg f) (fu_rt f) inp of (rt, v) \<Rightarrow> (f \<lparr> fu_rt := rt \<rparr>, v))"

definition Fuse_finish :: "Fuse \<Rightarrow> Tally" where
  "Fuse_finish f = rt_tally (fu_rt f) \<lparr> ta_terminal_state := rt_state (fu_rt f) \<rparr>"


subsection \<open>What each stage leaves alone\<close>

text \<open>The fields the state machine never writes.\<close>

definition fsm_frame :: "FuseRt \<Rightarrow> (ChunkBuf \<times> ChunkBuf \<times> Tier1Rt \<times> f64 list \<times> f64 list \<times> f64 list) \<times> bool \<times> f64 list \<times>
    u32 \<times> u32 \<times> u32 \<times> Tally" where
  "fsm_frame rt = ((rt_cur rt, rt_scratch rt, rt_t1 rt, rt_pos rt, rt_prev_pos rt, rt_vel rt), rt_have_prev_pos rt,
     rt_last_cmd rt, rt_seq rt, rt_last_t rt, rt_next_chunk_seq rt, rt_tally rt)"

lemma fsm_frame_parts:
  "fsm_frame (latch_hold cfg rt) = fsm_frame rt" "fsm_frame (ticked rt inp) = fsm_frame rt"
  "fsm_frame (consume_nonce rt a) = fsm_frame rt" "fsm_frame (rearm_ack rt a) = fsm_frame rt"
  "fsm_frame (enter_braking rt) = fsm_frame rt" "fsm_frame (rt \<lparr> rt_state := s \<rparr>) = fsm_frame rt"
  by (simp_all add: fsm_frame_def latch_hold_def ticked_def nonce_simps)

lemma fsm_frame_updates:
  "fsm_frame (rt \<lparr> rt_handoff_pending := b \<rparr>) = fsm_frame rt" "fsm_frame (rt \<lparr> rt_escalated_ticks := n \<rparr>) = fsm_frame rt"
  "fsm_frame (rt \<lparr> rt_rearms := k \<rparr>) = fsm_frame rt" "fsm_frame (rt \<lparr> rt_window := w \<rparr>) = fsm_frame rt"
  "fsm_frame (rt \<lparr> rt_handoff_seq := n \<rparr>) = fsm_frame rt" "fsm_frame (rt \<lparr> rt_held_ticks := m \<rparr>) = fsm_frame rt"
  "fsm_frame (rt \<lparr> rt_held_clean := m \<rparr>) = fsm_frame rt" "fsm_frame (rt \<lparr> rt_brake_ticks := m \<rparr>) = fsm_frame rt"
  "fsm_frame (rt \<lparr> rt_stopped_ticks := k \<rparr>) = fsm_frame rt" "fsm_frame (rt \<lparr> rt_clamps := m \<rparr>) = fsm_frame rt"
  "fsm_frame (rt \<lparr> rt_clamp_streak := k \<rparr>) = fsm_frame rt"
  by (simp_all add: fsm_frame_def)

lemma fsm_frame_rows:
  "fsm_frame (fst (from_running cfg rt s inp)) = fsm_frame rt" "fsm_frame (fst (from_braking cfg rt inp)) = fsm_frame rt"
  "fsm_frame (fst (from_held_no_ack cfg rt clean inp)) = fsm_frame rt"
  "fsm_frame (fst (from_escalated cfg rt ack)) = fsm_frame rt"
  by (simp_all add: from_running_def from_braking_def from_held_no_ack_def from_escalated_def Let_def
      fsm_frame_parts fsm_frame_updates split: option.split AckDecision.split)

lemma fsm_next_frame: "fsm_frame (fst (fsm_next cfg rt inp)) = fsm_frame rt"
proof -
  have held: "fsm_frame (fst (from_held cfg rt' clean ack inp)) = fsm_frame rt'" for rt' clean ack
    by (simp add: from_held_def fsm_frame_rows fsm_frame_parts fsm_frame_updates split: option.split AckDecision.split)
  show ?thesis
    unfolding fsm_next_eq(1) fsm_frame_parts(6) tick_table_def transition_def
    by (cases "rt_state rt") (simp_all add: fsm_frame_rows fsm_frame_parts held)
qed

lemma fsm_next_fields [simp]:
  "rt_cur (fst (fsm_next cfg rt inp)) = rt_cur rt" "rt_scratch (fst (fsm_next cfg rt inp)) = rt_scratch rt"
  "rt_t1 (fst (fsm_next cfg rt inp)) = rt_t1 rt" "rt_pos (fst (fsm_next cfg rt inp)) = rt_pos rt"
  "rt_prev_pos (fst (fsm_next cfg rt inp)) = rt_prev_pos rt" "rt_vel (fst (fsm_next cfg rt inp)) = rt_vel rt"
  "rt_have_prev_pos (fst (fsm_next cfg rt inp)) = rt_have_prev_pos rt"
  "rt_last_cmd (fst (fsm_next cfg rt inp)) = rt_last_cmd rt" "rt_seq (fst (fsm_next cfg rt inp)) = rt_seq rt"
  "rt_last_t (fst (fsm_next cfg rt inp)) = rt_last_t rt"
  "rt_next_chunk_seq (fst (fsm_next cfg rt inp)) = rt_next_chunk_seq rt"
  "rt_tally (fst (fsm_next cfg rt inp)) = rt_tally rt"
  using fsm_next_frame [of cfg rt inp] by (simp_all add: fsm_frame_def)

text \<open>The hold setpoint is kept, or latched from the position clamped to the box; the window is kept or cleared.\<close>

lemma rt_hold_nonce [simp]: "rt_hold (rearm_ack rt a) = rt_hold rt" "rt_hold (enter_braking rt) = rt_hold rt"
  by (simp_all add: nonce_simps)

lemma fsm_next_hold:
  "rt_hold (fst (fsm_next cfg rt inp)) \<in> {rt_hold rt, rt_hold (latch_hold cfg rt)}"
proof -
  have l: "rt_hold (latch_hold cfg (ticked rt inp)) = rt_hold (latch_hold cfg rt)"
    by (simp add: latch_hold_def Let_def)
  show ?thesis
    unfolding fsm_next_eq tick_table_def transition_def
    by (cases "rt_state rt") (simp_all add: fsm_rows Let_def l split: option.split AckDecision.split)
qed

lemma fsm_next_window:
  "rt_window (fst (fsm_next cfg rt inp)) \<in> {rt_window rt, Window_clear (rt_window rt)}"
  unfolding fsm_next_eq tick_table_def transition_def
  by (cases "rt_state rt") (simp_all add: fsm_rows Let_def nonce_simps split: option.split AckDecision.split)


lemma ingest_fields [simp]:
  "rt_cur (ingest cfg rt inp) = rt_cur rt" "rt_scratch (ingest cfg rt inp) = rt_scratch rt"
  "rt_state (ingest cfg rt inp) = rt_state rt" "rt_window (ingest cfg rt inp) = rt_window rt"
  "rt_seq (ingest cfg rt inp) = rt_seq rt" "rt_last_t (ingest cfg rt inp) = ov_t (ti_obs inp)"
  "rt_last_cmd (ingest cfg rt inp) = rt_last_cmd rt" "rt_hold (ingest cfg rt inp) = rt_hold rt"
  "rt_last_nonce (ingest cfg rt inp) = rt_last_nonce rt" "rt_handoff_seq (ingest cfg rt inp) = rt_handoff_seq rt"
  "rt_brake_ticks (ingest cfg rt inp) = rt_brake_ticks rt" "rt_held_ticks (ingest cfg rt inp) = rt_held_ticks rt"
  "rt_escalated_ticks (ingest cfg rt inp) = rt_escalated_ticks rt" "rt_rearms (ingest cfg rt inp) = rt_rearms rt"
  "rt_held_clean (ingest cfg rt inp) = rt_held_clean rt" "rt_prev_pos (ingest cfg rt inp) = rt_pos rt"
  "rt_tally (ingest cfg rt inp) = rt_tally rt"
  "rt_pos (ingest cfg rt inp) = copy_row (live_pos_dim cfg) (rt_pos rt) (ov_pos (ti_obs inp))"
  "t1_prev (rt_t1 (ingest cfg rt inp)) = t1_prev (rt_t1 rt)"
  "t1_trail (rt_t1 (ingest cfg rt inp)) = Trail_push (t1_trail (rt_t1 rt)) (rt_pos (ingest cfg rt inp)) (live_pos_dim cfg)"
  "rt_next_chunk_seq (ingest cfg rt inp) = rt_next_chunk_seq rt + (if ti_chunk inp \<noteq> None then 1 else 0)"
  by (simp_all add: ingest_def Let_def)

text \<open>The fields Tier 0 never writes.\<close>

definition tier0_frame :: "FuseRt \<Rightarrow> FuseRt" where
  "tier0_frame rt = rt \<lparr> rt_cur := ChunkBuf_new, rt_scratch := ChunkBuf_new, rt_tally := Tally_default \<rparr>"

lemma stage_tier0_frame: "tier0_frame (fst (stage_tier0 cfg rt inp)) = tier0_frame rt"
  by (simp add: stage_tier0_def tier0_delivery_def tier0_intra_def tier0_frame_def Let_def
      split: option.split prod.split)

lemma tier0_frame_eq:
  "tier0_frame a = tier0_frame b \<Longrightarrow> a = b \<lparr> rt_cur := rt_cur a, rt_scratch := rt_scratch a, rt_tally := rt_tally a \<rparr>"
  by (cases a; cases b) (simp add: tier0_frame_def)

lemma stage_tier0_fields [simp]:
  "rt_state (fst (stage_tier0 cfg rt inp)) = rt_state rt" "rt_window (fst (stage_tier0 cfg rt inp)) = rt_window rt"
  "rt_seq (fst (stage_tier0 cfg rt inp)) = rt_seq rt" "rt_last_t (fst (stage_tier0 cfg rt inp)) = rt_last_t rt"
  "rt_last_cmd (fst (stage_tier0 cfg rt inp)) = rt_last_cmd rt" "rt_hold (fst (stage_tier0 cfg rt inp)) = rt_hold rt"
  "rt_last_nonce (fst (stage_tier0 cfg rt inp)) = rt_last_nonce rt"
  "rt_handoff_seq (fst (stage_tier0 cfg rt inp)) = rt_handoff_seq rt"
  "rt_brake_ticks (fst (stage_tier0 cfg rt inp)) = rt_brake_ticks rt"
  "rt_held_ticks (fst (stage_tier0 cfg rt inp)) = rt_held_ticks rt"
  "rt_escalated_ticks (fst (stage_tier0 cfg rt inp)) = rt_escalated_ticks rt"
  "rt_rearms (fst (stage_tier0 cfg rt inp)) = rt_rearms rt" "rt_held_clean (fst (stage_tier0 cfg rt inp)) = rt_held_clean rt"
  "rt_pos (fst (stage_tier0 cfg rt inp)) = rt_pos rt" "rt_prev_pos (fst (stage_tier0 cfg rt inp)) = rt_prev_pos rt"
  "rt_vel (fst (stage_tier0 cfg rt inp)) = rt_vel rt" "rt_t1 (fst (stage_tier0 cfg rt inp)) = rt_t1 rt"
  "rt_next_chunk_seq (fst (stage_tier0 cfg rt inp)) = rt_next_chunk_seq rt"
proof -
  obtain c b ta where e: "fst (stage_tier0 cfg rt inp) = rt \<lparr> rt_cur := c, rt_scratch := b, rt_tally := ta \<rparr>"
    using tier0_frame_eq [OF stage_tier0_frame] by blast
  show "rt_state (fst (stage_tier0 cfg rt inp)) = rt_state rt"
    "rt_window (fst (stage_tier0 cfg rt inp)) = rt_window rt"
    "rt_seq (fst (stage_tier0 cfg rt inp)) = rt_seq rt"
    "rt_last_t (fst (stage_tier0 cfg rt inp)) = rt_last_t rt"
    "rt_last_cmd (fst (stage_tier0 cfg rt inp)) = rt_last_cmd rt"
    "rt_hold (fst (stage_tier0 cfg rt inp)) = rt_hold rt"
    "rt_last_nonce (fst (stage_tier0 cfg rt inp)) = rt_last_nonce rt"
    "rt_handoff_seq (fst (stage_tier0 cfg rt inp)) = rt_handoff_seq rt"
    "rt_brake_ticks (fst (stage_tier0 cfg rt inp)) = rt_brake_ticks rt"
    "rt_held_ticks (fst (stage_tier0 cfg rt inp)) = rt_held_ticks rt"
    "rt_escalated_ticks (fst (stage_tier0 cfg rt inp)) = rt_escalated_ticks rt"
    "rt_rearms (fst (stage_tier0 cfg rt inp)) = rt_rearms rt"
    "rt_held_clean (fst (stage_tier0 cfg rt inp)) = rt_held_clean rt"
    "rt_pos (fst (stage_tier0 cfg rt inp)) = rt_pos rt"
    "rt_prev_pos (fst (stage_tier0 cfg rt inp)) = rt_prev_pos rt"
    "rt_vel (fst (stage_tier0 cfg rt inp)) = rt_vel rt"
    "rt_t1 (fst (stage_tier0 cfg rt inp)) = rt_t1 rt"
    "rt_next_chunk_seq (fst (stage_tier0 cfg rt inp)) = rt_next_chunk_seq rt"
    by (simp_all add: e)
qed

lemma stage_scores_rt:
  "fst (stage_scores cfg rt inp) = rt \<lparr> rt_t1 := (if CalibrationC_armed (fc_calib cfg)
     then fst (features cfg (rt_t1 rt) (ti_obs inp) (ti_chunk inp) disarmed_scores) else rt_t1 rt) \<rparr>"
  by (simp add: stage_scores_def Let_def split: prod.split)

subsection \<open>One admitted tick, opened up\<close>

text \<open>The runtime state and the input that reach the state machine.\<close>

definition windowed :: "FuseConfig \<Rightarrow> FuseRt \<Rightarrow> TickInput \<Rightarrow> FuseRt" where
  "windowed cfg rt inp =
     (let s = stage_scores cfg (fst (stage_tier0 cfg (ingest cfg rt inp) inp)) inp in
      fst s \<lparr> rt_window := Window_push (rt_window (fst s)) (fst (snd (snd s))) (fc_window_mask cfg) \<rparr>)"

definition tick_fi :: "FuseConfig \<Rightarrow> FuseRt \<Rightarrow> TickInput \<Rightarrow> FsmInput" where
  "tick_fi cfg rt inp =
     (let t0 = stage_tier0 cfg (ingest cfg rt inp) inp; s = stage_scores cfg (fst t0) inp in
      fsm_input cfg (windowed cfg rt inp) inp (fst (snd t0)) (snd (snd (snd s))))"

definition tick_pre :: "FuseConfig \<Rightarrow> FuseRt \<Rightarrow> TickInput \<Rightarrow> FuseRt" where
  "tick_pre cfg rt inp = windowed cfg rt inp \<lparr> rt_chunk_ok_this_tick := fi_chunk_ok (tick_fi cfg rt inp) \<rparr>"

definition tick_fsm :: "FuseConfig \<Rightarrow> FuseRt \<Rightarrow> TickInput \<Rightarrow> FuseRt \<times> fsm_out" where
  "tick_fsm cfg rt inp = fsm_next cfg (tick_pre cfg rt inp) (tick_fi cfg rt inp)"

definition tick_act :: "FuseConfig \<Rightarrow> FuseRt \<Rightarrow> TickInput \<Rightarrow> f64 list \<times> ActionSource \<times> bool \<times> bool" where
  "tick_act cfg rt inp =
     (let idx = unat (ti_idx inp); pre = tick_pre cfg rt inp; f = tick_fsm cfg rt inp in
      stage_action cfg (fst f) (fst (snd f)) (buf_row cfg (rt_cur pre) idx) (buf_row cfg (rt_scratch pre) idx))"

lemma admitted_tick_verdict:
  "sv_seq (snd (admitted_tick cfg rt inp)) = rt_seq rt" "sv_t (snd (admitted_tick cfg rt inp)) = ov_t (ti_obs inp)"
  "sv_state (snd (admitted_tick cfg rt inp)) = fst (snd (tick_fsm cfg rt inp))"
  "sv_prev_state (snd (admitted_tick cfg rt inp)) = rt_state rt"
  "sv_action (snd (admitted_tick cfg rt inp)) = fst (tick_act cfg rt inp)"
  "sv_action_src (snd (admitted_tick cfg rt inp)) = fst (snd (tick_act cfg rt inp))"
  "sv_substituted (snd (admitted_tick cfg rt inp)) = fst (snd (snd (tick_act cfg rt inp)))"
  "sv_violation_reached_env (snd (admitted_tick cfg rt inp)) = snd (snd (snd (tick_act cfg rt inp)))"
  "sv_reason (snd (admitted_tick cfg rt inp)) = snd (snd (snd (tick_fsm cfg rt inp)))"
  "sv_trips (snd (admitted_tick cfg rt inp)) = fi_trips (tick_fi cfg rt inp) OR fst (snd (snd (tick_fsm cfg rt inp)))"
  "sv_ack_consumed (snd (admitted_tick cfg rt inp)) \<longleftrightarrow> ti_ack inp \<noteq> None \<and>
     snd (snd (snd (tick_fsm cfg rt inp))) \<in> {RC_RearmedAck, RC_TerminatedAbort, RC_TerminatedRetune}"
  by (simp_all add: admitted_tick_def Let_def tick_act_def tick_fsm_def tick_pre_def tick_fi_def windowed_def
      fsm_input_def stage_scores_rt ingest_def split_beta)

lemma admitted_tick_rt:
  "\<exists>ta. fst (admitted_tick cfg rt inp) = fst (tick_fsm cfg rt inp)
     \<lparr> rt_tally := ta, rt_last_cmd := fst (tick_act cfg rt inp), rt_seq := sat_inc (rt_seq rt) \<rparr>"
  by (simp add: admitted_tick_def Let_def tick_act_def tick_fsm_def tick_pre_def tick_fi_def windowed_def
      fsm_input_def stage_scores_rt split_beta) blast

end
