(* ===== verification/Machine.thy ===== *)
theory Machine
  imports Main
begin

text \<open>
  Deterministic machines that consume an input and return an output per step: the shape of the
  fuse (one tick), the session (one message) and the hash chains (one record).  \<open>run_steps\<close> feeds
  a list of inputs through a step function.  The locales state what a step promises, and the
  lemmas lift it to whole runs: an invariant holds at the end, every output satisfies what a step
  guarantees, a relation that a step respects relates start and end, and a budget that every busy
  step decreases bounds the length of a busy run.
\<close>

lemma list_all_True [simp]: "list_all (\<lambda>_. True) xs"
  by (simp add: list_all_iff)

fun run_steps :: "('s \<Rightarrow> 'i \<Rightarrow> 's \<times> 'o) \<Rightarrow> 's \<Rightarrow> 'i list \<Rightarrow> 's \<times> 'o list" where
  "run_steps step s [] = (s, [])"
| "run_steps step s (i # is) =
     (let (s', out) = step s i; (s'', outs) = run_steps step s' is in (s'', out # outs))"

lemma run_steps_Cons:
  "fst (run_steps step s (i # is)) = fst (run_steps step (fst (step s i)) is)"
  "snd (run_steps step s (i # is)) = snd (step s i) # snd (run_steps step (fst (step s i)) is)"
  by (simp_all add: split_beta)

declare run_steps.simps(2) [simp del]
declare run_steps_Cons [simp]

lemma length_run_steps [simp]: "length (snd (run_steps step s is)) = length is"
  by (induction "is" arbitrary: s) simp_all

lemma run_steps_append:
  "fst (run_steps step s (is @ js)) = fst (run_steps step (fst (run_steps step s is)) js)"
  "snd (run_steps step s (is @ js)) = snd (run_steps step s is) @ snd (run_steps step (fst (run_steps step s is)) js)"
  by (induction "is" arbitrary: s) simp_all

text \<open>Output \<open>n\<close> of a run is the output of one step from the state that the first \<open>n\<close> inputs lead to.\<close>

lemma run_steps_nth:
  "n < length is \<Longrightarrow> snd (run_steps step s is) ! n = snd (step (fst (run_steps step s (take n is))) (is ! n))"
  by (induction "is" arbitrary: s n) (auto simp: nth_Cons' less_Suc_eq_0_disj take_Cons')

subsection \<open>Invariants\<close>

locale machine =
  fixes step :: "'s \<Rightarrow> 'i \<Rightarrow> 's \<times> 'o" and inv :: "'s \<Rightarrow> bool" and ok :: "'i \<Rightarrow> bool"
    and good :: "'o \<Rightarrow> bool"
  assumes inv_step: "inv s \<Longrightarrow> ok i \<Longrightarrow> inv (fst (step s i))"
    and good_step: "inv s \<Longrightarrow> ok i \<Longrightarrow> good (snd (step s i))"
begin

lemma run_inv: "inv s \<Longrightarrow> list_all ok is \<Longrightarrow> inv (fst (run_steps step s is))"
  by (induction "is" arbitrary: s) (simp_all add: inv_step)

lemma run_good: "inv s \<Longrightarrow> list_all ok is \<Longrightarrow> list_all good (snd (run_steps step s is))"
  by (induction "is" arbitrary: s) (simp_all add: inv_step good_step)

end

subsection \<open>Progress\<close>

locale progressing =
  fixes step :: "'s \<Rightarrow> 'i \<Rightarrow> 's \<times> 'o" and le :: "'s \<Rightarrow> 's \<Rightarrow> bool"
  assumes le_refl: "le s s" and le_trans: "le a b \<Longrightarrow> le b c \<Longrightarrow> le a c"
    and le_step: "le s (fst (step s i))"
begin

lemma run_le: "le s (fst (run_steps step s is))"
proof (induction "is" arbitrary: s)
  case Nil
  show ?case by (simp add: le_refl)
next
  case (Cons i "is")
  show ?case using le_trans [OF le_step Cons] by simp
qed

end

subsection \<open>Bounded activity\<close>

locale budgeted =
  fixes step :: "'s \<Rightarrow> 'i \<Rightarrow> 's \<times> 'o" and busy :: "'s \<Rightarrow> bool" and budget :: "'s \<Rightarrow> nat"
  assumes decreases: "busy s \<Longrightarrow> busy (fst (step s i)) \<Longrightarrow> budget (fst (step s i)) < budget s"
begin

lemma busy_run:
  "(\<forall>n \<le> length is. busy (fst (run_steps step s (take n is)))) \<Longrightarrow> length is \<le> budget s"
proof (induction "is" arbitrary: s)
  case (Cons i "is")
  have b: "busy s" using Cons.prems [rule_format, of 0] by simp
  have all: "\<forall>n \<le> length is. busy (fst (run_steps step (fst (step s i)) (take n is)))"
  proof (intro allI impI)
    fix n assume "n \<le> length is"
    then show "busy (fst (run_steps step (fst (step s i)) (take n is)))"
      using Cons.prems [rule_format, of "Suc n"] by simp
  qed
  then have "length is \<le> budget (fst (step s i))" by (rule Cons.IH)
  moreover have "busy (fst (step s i))" using all [rule_format, of 0] by simp
  ultimately show ?case using decreases [OF b] by (simp add: Suc_le_eq order_le_less_trans)
qed simp

text \<open>So a run longer than the budget leaves the busy states at some point.\<close>

lemma leaves_busy:
  assumes "budget s < length is"
  obtains n where "n \<le> length is" "\<not> busy (fst (run_steps step s (take n is)))"
  using busy_run [of "is" s] assms by fastforce

end

end
