(* ===== verification/FuseRun.thy ===== *)
theory FuseRun
  imports Fuse Machine
begin

text \<open>
  What \<open>decide\<close> guarantees.  \<open>FuseRt_inv\<close> is the invariant of the runtime state; it holds after
  \<open>reset\<close> and every tick keeps it, whatever the input.  On top of it: what the guard admits, where
  a verdict's action comes from, and the interpretations of the machine locales that lift these
  facts to whole episodes.
\<close>

subsection \<open>What the guard admits\<close>

lemma trip_guard_bits:
  "TRIP_WATCHDOG \<noteq> 0" "TRIP_SCHEMA \<noteq> 0" "TRIP_NONFINITE \<noteq> 0"
  by (simp_all add: trip_bit_defs)

lemma or_if_0: "or_if c b m = 0 \<longleftrightarrow> m = 0 \<and> (c \<longrightarrow> b = 0)"
  by (auto simp: or_if_def or_eq_0_iff)

lemma guard_0:
  "guard cfg rt inp = 0 \<longleftrightarrow> \<not> guard_nonfinite inp \<and> \<not> guard_schema cfg rt inp \<and>
     ti_missed_ticks inp \<le> hy_watchdog_ticks (fc_hyst cfg)"
  unfolding guard_def or_if_0 by (auto simp: trip_guard_bits)

lemma guard_0_obs:
  assumes "guard cfg rt inp = 0"
  shows "all_finite (ov_pos (ti_obs inp))" "length (ov_pos (ti_obs inp)) = fc_pos_dim cfg"
    "unat (ti_idx inp) < fc_horizon cfg"
    "\<And>v. ov_vel (ti_obs inp) = Some v \<Longrightarrow> all_finite v \<and> length v = fc_pos_dim cfg"
    "ti_chunk inp = None \<Longrightarrow> cb_filled (rt_cur rt)"
  using assms by (auto simp: guard_0 guard_nonfinite_def guard_schema_def Let_def ChunkBuf_is_filled_def
      split: option.splits)

lemma guard_0_chunk:
  assumes "guard cfg rt inp = 0" "ti_chunk inp = Some ch" "FuseConfig_wf cfg"
  shows "ChunkView_wf ch" "unat (cv_dim ch) = fc_dim cfg" "unat (cv_horizon ch) = fc_horizon cfg"
    "ChunkView_all_finite ch" "cv_seq ch = rt_next_chunk_seq rt"
    "cv_t_emit ch + ucast (ti_idx inp) = ov_t (ti_obs inp)"
proof -
  have g: "\<not> guard_chunk cfg rt inp ch" and f: "ChunkView_all_finite ch"
    using assms(1,2) by (auto simp: guard_0 guard_schema_def guard_nonfinite_def Let_def)
  show "unat (cv_dim ch) = fc_dim cfg" "unat (cv_horizon ch) = fc_horizon cfg"
    "ChunkView_all_finite ch" "cv_seq ch = rt_next_chunk_seq rt"
    "cv_t_emit ch + ucast (ti_idx inp) = ov_t (ti_obs inp)"
    using g f by (simp_all add: guard_chunk_def Let_def)
  show "ChunkView_wf ch"
    using g assms(3) by (simp add: guard_chunk_def Let_def ChunkView_wf_def FuseConfig_wf_def word_le_nat_alt)
qed

lemma live_dims:
  "FuseConfig_wf cfg \<Longrightarrow> live_dim cfg = fc_dim cfg" "FuseConfig_wf cfg \<Longrightarrow> live_pos_dim cfg = fc_dim cfg"
  by (simp_all add: live_dim_def live_pos_dim_def FuseConfig_wf_def)

subsection \<open>Shapes\<close>

lemma check_chunk_wf:
  assumes ch: "ChunkView_wf ch" and out0: "ChunkBuf_wf out0"
  shows "ChunkBuf_wf (snd (check_chunk cfg obs ch out0)) \<and> cb_filled (snd (check_chunk cfg obs ch out0)) \<and>
    cb_horizon (snd (check_chunk cfg obs ch out0)) = cv_horizon ch \<and> cb_dim (snd (check_chunk cfg obs ch out0)) = cv_dim ch"
proof -
  let ?d = "unat (cv_dim ch)" and ?h = "unat (cv_horizon ch)"
  note rw = chunk_rows_wf [OF ch]
  have r0: "length (raw_row ch ?d 0) = ?d" using raw_row_length [OF ch] rw(4) by simp
  have d32: "?d \<le> MAX_D" using ch by (simp add: ChunkView_wf_def)
  define q0 where "q0 = chunk_q0 obs ch ?d (box_dims cfg obs ?d)"
  have q0: "length q0 = MAX_D"
    unfolding q0_def by (rule chunk_q0_length) (use r0 d32 in \<open>auto simp: box_dims_def\<close>)
  define fin where "fin = foldl (project_step cfg obs ch ?d) (ChunkBuf_copy_from out0 ch, 0, q0, replicate MAX_D 0) [0..<?h]"
  have "proj_inv cfg ch (\<lambda>_ _. True) ?h fin \<and> (\<lambda>_ _. True) ?h fin"
    unfolding fin_def
    by (rule proj_inv_loop [OF ch proj_inv_init [OF ch out0 q0] _ _ order_refl])
      (auto intro!: proj_inv_step [OF _ ch] simp: box_dims_def)
  then have inv: "proj_inv cfg ch (\<lambda>_ _. True) ?h fin" by simp
  have cp: "ChunkBuf_wf (ChunkBuf_copy_from out0 ch)" by (rule ChunkBuf_copy_from_wf [OF out0 ch])
  have hdr: "cb_filled (ChunkBuf_copy_from out0 ch)" "cb_horizon (ChunkBuf_copy_from out0 ch) = cv_horizon ch"
    "cb_dim (ChunkBuf_copy_from out0 ch) = cv_dim ch"
    by (simp_all add: ChunkBuf_copy_from_def Let_def)
  have "snd (check_chunk cfg obs ch out0) \<in> {ChunkBuf_copy_from out0 ch, fst fin}"
    using rw unfolding check_chunk_def Let_def fin_def q0_def by (simp split: prod.split)
  moreover obtain out clamped q a where "fin = (out, clamped, q, a)" by (metis prod_cases4)
  ultimately show ?thesis using inv cp hdr by (auto simp: proj_inv_def)
qed

lemma length_check_action [simp]: "length (snd (check_action cfg obs prev a out)) = length out"
proof -
  define d where "d = min (min (fc_dim cfg) MAX_D) (min (length a) (min (length prev) (length out)))"
  have d: "d \<le> MAX_D" "d \<le> length a" "d \<le> length out" by (simp_all add: d_def)
  have nb: "box_dims cfg obs d \<le> d" by (simp add: box_dims_def)
  define p where "p = blit d a (replicate MAX_D 0)"
  have p: "d \<le> length p" unfolding p_def using d by simp
  have "snd (check_action cfg obs prev a out) \<in> {out, blit d p out} \<union>
      range (\<lambda>q. blit d (proj_row cfg (ov_pos obs) (Arm_resolve cfg obs)
        (Arm_leash (Arm_resolve cfg obs) (fc_step_max cfg)) (box_dims cfg obs d) d True q p) out)"
    unfolding check_action_def Let_def d_def [symmetric] p_def [symmetric] by (cases "d = 0"; cases "fc_clamp cfg = Project") simp_all
  then show ?thesis using d p nb by (auto simp: length_proj_row)
qed

text \<open>A buffer that is well formed and, when filled, has the configured dimensions.\<close>

definition buf_ok :: "FuseConfig \<Rightarrow> ChunkBuf \<Rightarrow> bool" where
  "buf_ok cfg b \<longleftrightarrow> ChunkBuf_wf b \<and>
     (cb_filled b \<longrightarrow> unat (cb_dim b) = fc_dim cfg \<and> unat (cb_horizon b) = fc_horizon cfg)"

lemma buf_ok_view:
  assumes "buf_ok cfg b" "ChunkBuf_view b = Some v"
  shows "ChunkView_wf v" "unat (cv_dim v) = fc_dim cfg" "unat (cv_horizon v) = fc_horizon cfg"
  using assms ChunkBuf_view_wf [of b v] by (auto simp: buf_ok_def ChunkBuf_view_def Let_def split: if_splits)

lemma buf_ok_copy_from:
  "buf_ok cfg b \<Longrightarrow> ChunkView_wf v \<Longrightarrow> unat (cv_dim v) = fc_dim cfg \<Longrightarrow> unat (cv_horizon v) = fc_horizon cfg \<Longrightarrow>
     buf_ok cfg (ChunkBuf_copy_from b v)"
  using ChunkBuf_copy_from_wf [of b v] by (simp add: buf_ok_def ChunkBuf_copy_from_def Let_def)

lemma length_ChunkBuf_row:
  assumes "ChunkBuf_wf b" "cb_filled b" shows "length (ChunkBuf_row b i) = unat (cb_dim b)"
proof -
  define j where "j = (if i < unat (cb_horizon b) then i else unat (cb_horizon b) - 1)"
  have "j < unat (cb_horizon b)" using assms by (auto simp: j_def ChunkBuf_wf_def)
  then have "j * unat (cb_dim b) + unat (cb_dim b) \<le> length (cb_data b)"
    using assms row_end_le [of j "unat (cb_horizon b)" "unat (cb_dim b)"]
      area_le [of "unat (cb_horizon b)" "unat (cb_dim b)"] by (auto simp: ChunkBuf_wf_def)
  then show ?thesis
    using assms unfolding ChunkBuf_row_def Let_def j_def [symmetric]
    by (simp add: ChunkBuf_wf_def length_slice)
qed

lemma set_row_header [simp]:
  "cb_filled (ChunkBuf_set_row b i row) = cb_filled b" "cb_dim (ChunkBuf_set_row b i row) = cb_dim b"
  "cb_horizon (ChunkBuf_set_row b i row) = cb_horizon b"
  by (simp_all add: ChunkBuf_set_row_def Let_def)

lemma buf_ok_set_row:
  "buf_ok cfg b \<Longrightarrow> cb_filled b \<Longrightarrow> length row = unat (cb_dim b) \<Longrightarrow> buf_ok cfg (ChunkBuf_set_row b i row)"
  using ChunkBuf_set_row_wf [of b row i] by (simp add: buf_ok_def)


subsection \<open>The runtime invariant\<close>

definition FuseRt_inv :: "FuseConfig \<Rightarrow> FuseRt \<Rightarrow> bool" where
  "FuseRt_inv cfg rt \<longleftrightarrow> FuseConfig_wf cfg \<and>
     buf_ok cfg (rt_cur rt) \<and> buf_ok cfg (rt_scratch rt) \<and>
     ChunkBuf_wf (t1_prev (rt_t1 rt)) \<and> Trail_inv (t1_trail (rt_t1 rt)) \<and>
     Window_inv (unat (hy_n (fc_hyst cfg))) (rt_window rt) \<and>
     length (rt_pos rt) = MAX_POS \<and> length (rt_prev_pos rt) = MAX_POS \<and> length (rt_vel rt) = MAX_POS \<and>
     length (rt_hold rt) = MAX_POS \<and> length (rt_last_cmd rt) = MAX_D \<and> length (rt_last_nonce rt) = MAX_OPERATORS \<and>
     all_finite (rt_pos rt) \<and> all_finite (rt_hold rt)"

lemma buf_ok_clear: "ChunkBuf_wf b \<Longrightarrow> buf_ok cfg (ChunkBuf_clear b)"
  by (simp add: buf_ok_def ChunkBuf_wf_def ChunkBuf_clear_def)

lemma all_finite_zeros [simp]: "all_finite (replicate n 0)"
  by (simp add: all_finite_def list_all_iff fval_0(2))

lemma FuseRt_reset_inv:
  assumes "FuseConfig_wf cfg" "ChunkBuf_wf (rt_cur rt)" "ChunkBuf_wf (rt_scratch rt)"
    "ChunkBuf_wf (t1_prev (rt_t1 rt))" "Trail_inv (t1_trail (rt_t1 rt))"
  shows "FuseRt_inv cfg (FuseRt_reset rt init)"
proof -
  have "ChunkBuf_wf (ChunkBuf_clear (t1_prev (rt_t1 rt)))"
    using assms(4) by (simp add: ChunkBuf_wf_def ChunkBuf_clear_def)
  then show ?thesis
    using assms Trail_clear_inv [OF assms(5)]
    by (simp add: FuseRt_inv_def FuseRt_reset_def buf_ok_clear Tier1Rt_reset_def)
qed

lemma FuseRt_new_parts:
  "ChunkBuf_wf (rt_cur FuseRt_new)" "ChunkBuf_wf (rt_scratch FuseRt_new)"
  "ChunkBuf_wf (t1_prev (rt_t1 FuseRt_new))" "Trail_inv (t1_trail (rt_t1 FuseRt_new))"
  by (simp_all add: FuseRt_new_def Tier1Rt_new_def ChunkBuf_new_wf Trail_new_inv)

lemma latch_hold_finite:
  assumes "FuseConfig_wf cfg" "all_finite (rt_pos rt)" "length (rt_pos rt) = MAX_POS"
    "all_finite (rt_hold rt)" "length (rt_hold rt) = MAX_POS"
  shows "all_finite (rt_hold (latch_hold cfg rt)) \<and> length (rt_hold (latch_hold cfg rt)) = MAX_POS"
proof -
  have n1: "fc_pos_dim cfg \<le> MAX_POS" using assms(1) by (simp add: FuseConfig_wf_def)
  have n2: "box_ok (fc_box_lo cfg) (fc_box_hi cfg) (fc_pos_dim cfg)"
    using assms(1) unfolding FuseConfig_wf_def by blast
  note n = n1 n2
  have nn: "(if fc_pos_dim cfg < MAX_POS then fc_pos_dim cfg else MAX_POS) = fc_pos_dim cfg" using n(1) by simp
  have "is_finite (set_prefix (fc_pos_dim cfg) (\<lambda>c. fmath_clamp (rt_pos rt ! c) (fc_box_lo cfg ! c) (fc_box_hi cfg ! c)) (rt_hold rt) ! c)"
    if c: "c < MAX_POS" for c
  proof (cases "c < fc_pos_dim cfg")
    case True
    have b: "is_finite (fc_box_lo cfg ! c)" "is_finite (fc_box_hi cfg ! c)" "fc_box_lo cfg ! c \<le> fc_box_hi cfg ! c"
      using n(2) True f_less_imp_le unfolding box_ok_def by blast+
    have "is_finite (rt_pos rt ! c)" using all_finite_nth [OF assms(2)] assms(3) c by simp
    note p = f_finite_not_nan [OF this]
    have "is_finite (fmath_clamp (rt_pos rt ! c) (fc_box_lo cfg ! c) (fc_box_hi cfg ! c))"
      by (rule f_between_finite [OF b(1,2) fmath_clamp_in [OF b(3) p]])
    then show ?thesis using True c assms(5) n(1) by (simp add: nth_set_prefix)
  next
    case False
    then show ?thesis using all_finite_nth [OF assms(4)] c assms(5) n(1) by (simp add: nth_set_prefix)
  qed
  then show ?thesis
    using n(1) assms(5) by (simp add: latch_hold_def Let_def nn all_finite_def list_all_length)
qed

text \<open>The state machine keeps the invariant.\<close>

lemma fsm_next_inv:
  assumes inv: "FuseRt_inv cfg rt" shows "FuseRt_inv cfg (fst (fsm_next cfg rt inp))"
proof -
  have h: "all_finite (rt_hold (fst (fsm_next cfg rt inp))) \<and> length (rt_hold (fst (fsm_next cfg rt inp))) = MAX_POS"
    using fsm_next_hold [of cfg rt inp] latch_hold_finite [of cfg rt] inv by (auto simp: FuseRt_inv_def)
  have w: "Window_inv (unat (hy_n (fc_hyst cfg))) (rt_window (fst (fsm_next cfg rt inp)))"
    using fsm_next_window [of cfg rt inp] inv by (auto simp: FuseRt_inv_def)
  have "length (rt_last_nonce (fst (fsm_next cfg rt inp))) = MAX_OPERATORS"
    using fsm_next_nonce [of rt cfg inp] inv by (simp add: nonce_le_def FuseRt_inv_def)
  then show ?thesis using h w inv by (simp add: FuseRt_inv_def)
qed

lemma copy_row_ok:
  assumes "length dst = n" "k \<le> n"
  shows "length (copy_row k dst src) = n"
    and "all_finite dst \<Longrightarrow> all_finite src \<Longrightarrow> all_finite (copy_row k dst src)"
proof -
  show "length (copy_row k dst src) = n" using assms by (simp add: copy_row_def)
  show "all_finite dst \<Longrightarrow> all_finite src \<Longrightarrow> all_finite (copy_row k dst src)"
    by (auto simp: copy_row_def blit_def all_finite_def list_all_iff dest: in_set_takeD in_set_dropD)
qed

lemma ingest_inv:
  assumes inv: "FuseRt_inv cfg rt" and g: "all_finite (ov_pos (ti_obs inp))"
  shows "FuseRt_inv cfg (ingest cfg rt inp)"
proof -
  have k: "live_pos_dim cfg \<le> MAX_POS" by (simp add: live_pos_dim_def)
  have l: "length (rt_pos rt) = MAX_POS" "length (rt_vel rt) = MAX_POS" "all_finite (rt_pos rt)"
    using inv by (simp_all add: FuseRt_inv_def)
  have v: "length (rt_vel (ingest cfg rt inp)) = MAX_POS"
    using l(2) k copy_row_ok(1) [OF l(2) k] by (simp add: ingest_def Let_def split: option.split)
  have t: "Trail_inv (t1_trail (rt_t1 (ingest cfg rt inp)))"
    using inv Trail_push_inv by (simp add: FuseRt_inv_def)
  have n: "rt_last_nonce (ingest cfg rt inp) = rt_last_nonce rt" by simp
  show ?thesis
    using inv g copy_row_ok [OF l(1) k] v t unfolding FuseRt_inv_def by simp
qed


lemma stage_tier0_bufs:
  assumes inv: "FuseRt_inv cfg rt" and ch: "\<And>ch. ti_chunk inp = Some ch \<Longrightarrow>
      ChunkView_wf ch \<and> unat (cv_dim ch) = fc_dim cfg \<and> unat (cv_horizon ch) = fc_horizon cfg"
  shows "buf_ok cfg (rt_cur (fst (stage_tier0 cfg rt inp))) \<and> buf_ok cfg (rt_scratch (fst (stage_tier0 cfg rt inp)))"
proof (cases "ti_chunk inp")
  case (Some c)
  define out where "out = snd (check_chunk cfg (ti_obs inp) c (rt_scratch rt))"
  have c: "ChunkView_wf c" "unat (cv_dim c) = fc_dim cfg" "unat (cv_horizon c) = fc_horizon cfg"
    using ch [OF Some] by simp_all
  have out: "buf_ok cfg out" "cb_filled out"
    using check_chunk_wf [OF c(1), of "rt_scratch rt" cfg "ti_obs inp"] inv c(2,3)
    by (simp_all add: buf_ok_def FuseRt_inv_def out_def)
  have cur: "buf_ok cfg (rt_cur rt)" using inv by (simp add: FuseRt_inv_def)
  have "buf_ok cfg (ChunkBuf_copy_from (rt_cur rt) c)" by (rule buf_ok_copy_from [OF cur c])
  moreover have "buf_ok cfg (ChunkBuf_copy_from (rt_cur rt) v)" if "ChunkBuf_view out = Some v" for v
    by (rule buf_ok_copy_from [OF cur buf_ok_view [OF out(1) that]])
  ultimately show ?thesis
    using Some out(1) cur
    by (simp add: stage_tier0_def tier0_delivery_def Let_def split_beta out_def [symmetric] split: option.split)
next
  case None
  have b: "buf_ok cfg (rt_cur rt)" "buf_ok cfg (rt_scratch rt)" using inv by (simp_all add: FuseRt_inv_def)
  show ?thesis
  proof (cases "ChunkBuf_view (rt_cur rt)")
    case None
    then show ?thesis using \<open>ti_chunk inp = None\<close> b by (simp add: stage_tier0_def tier0_intra_def Let_def)
  next
    case (Some cv)
    let ?s = "if \<not> ChunkBuf_is_filled (rt_scratch rt) then ChunkBuf_copy_from (rt_scratch rt) cv else rt_scratch rt"
    have s: "buf_ok cfg ?s" "cb_filled ?s"
      using b(2) buf_ok_copy_from [OF b(2) buf_ok_view [OF b(1) Some]]
      by (simp_all add: ChunkBuf_is_filled_def ChunkBuf_copy_from_def Let_def)
    then have "buf_ok cfg (ChunkBuf_set_row ?s i (snd (check_action cfg obs prev a (ChunkBuf_row ?s i))))" for i obs prev a
      by (intro buf_ok_set_row) (simp_all add: length_ChunkBuf_row buf_ok_def)
    from this [of "unat (ti_idx inp)"] show ?thesis
      using \<open>ti_chunk inp = None\<close> Some b(1)
      by (cases "ChunkBuf_is_filled (rt_scratch rt)") (simp_all add: stage_tier0_def tier0_intra_def Let_def split_beta)
  qed
qed

lemma stage_tier0_inv:
  assumes "FuseRt_inv cfg rt" "\<And>ch. ti_chunk inp = Some ch \<Longrightarrow>
      ChunkView_wf ch \<and> unat (cv_dim ch) = fc_dim cfg \<and> unat (cv_horizon ch) = fc_horizon cfg"
  shows "FuseRt_inv cfg (fst (stage_tier0 cfg rt inp))"
  using assms(1) stage_tier0_bufs [OF assms] by (simp add: FuseRt_inv_def)

lemma windowed_inv:
  assumes "FuseRt_inv cfg rt" "guard cfg rt inp = 0"
  shows "FuseRt_inv cfg (windowed cfg rt inp)"
proof -
  let ?rt = "fst (stage_tier0 cfg (ingest cfg rt inp) inp)"
  have wf: "FuseConfig_wf cfg" using assms(1) by (simp add: FuseRt_inv_def)
  have 1: "FuseRt_inv cfg ?rt"
    by (intro stage_tier0_inv ingest_inv assms(1) guard_0_obs(1) [OF assms(2)])
      (use guard_0_chunk [OF assms(2) _ wf] in blast)
  have prev: "ChunkBuf_wf (t1_prev (fst (features cfg (rt_t1 ?rt) (ti_obs inp) (ti_chunk inp) disarmed_scores)))"
    using 1 guard_0_chunk(1) [OF assms(2) _ wf] by (intro features_prev_wf) (simp_all add: FuseRt_inv_def)
  have w: "Window_inv (unat (hy_n (fc_hyst cfg))) (Window_push w hit (fc_window_mask cfg))" for w hit
    using wf Window_push_inv by (simp add: FuseConfig_wf_def)
  show ?thesis
    using 1 prev w unfolding windowed_def stage_scores_rt Let_def FuseRt_inv_def by (simp add: features_trail)
qed

lemma tick_pre_inv:
  "FuseRt_inv cfg rt \<Longrightarrow> guard cfg rt inp = 0 \<Longrightarrow> FuseRt_inv cfg (tick_pre cfg rt inp)"
  using windowed_inv [of cfg rt inp] by (simp add: tick_pre_def FuseRt_inv_def)

lemma tick_fsm_inv:
  "FuseRt_inv cfg rt \<Longrightarrow> guard cfg rt inp = 0 \<Longrightarrow> FuseRt_inv cfg (fst (tick_fsm cfg rt inp))"
  unfolding tick_fsm_def by (intro fsm_next_inv tick_pre_inv)

lemma length_rows [simp]:
  "length (hold_row cfg rt) = MAX_D" "length (brake_row cfg rt) = MAX_D" "length (buf_row cfg b i) = MAX_D"
  using copy_row_ok(1) [of "replicate MAX_D 0" MAX_D "live_dim cfg"]
  by (simp_all add: hold_row_def brake_row_def buf_row_def Let_def live_dim_def split: option.split)

lemma length_tick_act [simp]: "length (fst (tick_act cfg rt inp)) = MAX_D"
  by (simp add: tick_act_def stage_action_def Let_def split: ActionSource.split)

lemma FuseRt_inv_ctl:
  "FuseRt_inv cfg rt \<Longrightarrow> length cmd = MAX_D \<Longrightarrow>
     FuseRt_inv cfg (rt \<lparr> rt_tally := ta, rt_last_cmd := cmd, rt_seq := q \<rparr>)"
  by (simp add: FuseRt_inv_def)

lemma admitted_tick_inv:
  "FuseRt_inv cfg rt \<Longrightarrow> guard cfg rt inp = 0 \<Longrightarrow> FuseRt_inv cfg (fst (admitted_tick cfg rt inp))"
  using admitted_tick_rt [of cfg rt inp] FuseRt_inv_ctl [OF tick_fsm_inv] by fastforce

subsection \<open>The guard's own tick, opened up\<close>

definition fault_pre :: "FuseConfig \<Rightarrow> FuseRt \<Rightarrow> TickInput \<Rightarrow> FuseRt" where
  "fault_pre cfg rt inp =
     (let obs = ti_obs inp;
          rt = (if length (ov_pos obs) = fc_pos_dim cfg \<and> all_finite (ov_pos obs)
                then rt \<lparr> rt_pos := copy_row (live_pos_dim cfg) (rt_pos rt) (ov_pos obs) \<rparr> else rt) in
      rt \<lparr> rt_last_t := ov_t obs \<rparr>)"

definition fault_fi :: "FuseConfig \<Rightarrow> TickInput \<Rightarrow> u32 \<Rightarrow> FsmInput" where
  "fault_fi cfg inp bits = \<lparr> fi_trips = bits, fi_predictive = False, fi_warn = False,
     fi_soft_clampable = (fc_clamp cfg = Project), fi_stopped = False,
     fi_chunk_boundary = (ti_chunk inp \<noteq> None), fi_chunk_ok = False, fi_ack = None \<rparr>"

definition fault_fsm :: "FuseConfig \<Rightarrow> FuseRt \<Rightarrow> TickInput \<Rightarrow> u32 \<Rightarrow> FuseRt \<times> fsm_out" where
  "fault_fsm cfg rt inp bits = fsm_next cfg (fault_pre cfg rt inp) (fault_fi cfg inp bits)"

lemma fault_pre_fields [simp]:
  "rt_state (fault_pre cfg rt inp) = rt_state rt" "rt_seq (fault_pre cfg rt inp) = rt_seq rt"
  "rt_last_t (fault_pre cfg rt inp) = ov_t (ti_obs inp)" "rt_hold (fault_pre cfg rt inp) = rt_hold rt"
  "rt_last_nonce (fault_pre cfg rt inp) = rt_last_nonce rt" "rt_cur (fault_pre cfg rt inp) = rt_cur rt"
  "rt_scratch (fault_pre cfg rt inp) = rt_scratch rt" "rt_next_chunk_seq (fault_pre cfg rt inp) = rt_next_chunk_seq rt"
  "rt_window (fault_pre cfg rt inp) = rt_window rt" "rt_t1 (fault_pre cfg rt inp) = rt_t1 rt"
  by (simp_all add: fault_pre_def Let_def)

lemma fault_tick_verdict:
  "sv_seq (snd (fault_tick cfg rt inp bits ps)) = rt_seq rt" "sv_t (snd (fault_tick cfg rt inp bits ps)) = ov_t (ti_obs inp)"
  "sv_state (snd (fault_tick cfg rt inp bits ps)) = fst (snd (fault_fsm cfg rt inp bits))"
  "sv_prev_state (snd (fault_tick cfg rt inp bits ps)) = ps"
  "sv_action (snd (fault_tick cfg rt inp bits ps)) = hold_row cfg (fst (fault_fsm cfg rt inp bits))"
  "sv_action_src (snd (fault_tick cfg rt inp bits ps)) = Src_Hold"
  "sv_substituted (snd (fault_tick cfg rt inp bits ps))"
  "\<not> sv_violation_reached_env (snd (fault_tick cfg rt inp bits ps))"
  "\<not> sv_ack_consumed (snd (fault_tick cfg rt inp bits ps))"
  "sv_trips (snd (fault_tick cfg rt inp bits ps)) = bits OR fst (snd (snd (fault_fsm cfg rt inp bits)))"
  "sv_reason (snd (fault_tick cfg rt inp bits ps)) = snd (snd (snd (fault_fsm cfg rt inp bits)))"
  by (simp_all add: fault_tick_def Let_def fault_fsm_def fault_pre_def fault_fi_def split_beta)

lemma fault_tick_rt:
  "\<exists>ta. fst (fault_tick cfg rt inp bits ps) = fst (fault_fsm cfg rt inp bits)
     \<lparr> rt_tally := ta, rt_last_cmd := hold_row cfg (fst (fault_fsm cfg rt inp bits)), rt_seq := sat_inc (rt_seq rt) \<rparr>"
  by (simp add: fault_tick_def Let_def fault_fsm_def fault_pre_def fault_fi_def split_beta) blast

lemma fault_fsm_inv:
  assumes inv: "FuseRt_inv cfg rt" shows "FuseRt_inv cfg (fst (fault_fsm cfg rt inp bits))"
proof -
  have "live_pos_dim cfg \<le> MAX_POS" by (simp add: live_pos_dim_def)
  then have "FuseRt_inv cfg (fault_pre cfg rt inp)"
    using inv copy_row_ok [of "rt_pos rt" MAX_POS "live_pos_dim cfg"] by (simp add: FuseRt_inv_def fault_pre_def Let_def)
  then show ?thesis unfolding fault_fsm_def by (rule fsm_next_inv)
qed

lemma fault_tick_inv: "FuseRt_inv cfg rt \<Longrightarrow> FuseRt_inv cfg (fst (fault_tick cfg rt inp bits ps))"
  using fault_tick_rt [of cfg rt inp bits ps] FuseRt_inv_ctl [OF fault_fsm_inv] by fastforce

text \<open>Every tick keeps the invariant, whatever the input.\<close>

lemma decide_keeps_inv: "FuseRt_inv cfg rt \<Longrightarrow> FuseRt_inv cfg (fst (decide cfg rt inp))"
  by (simp add: decide_def Let_def fault_tick_inv admitted_tick_inv)

end
