(* ===== verification/FuseSafety.thy ===== *)
theory FuseSafety
  imports FuseRun
begin

text \<open>
  The safety argument for the fuse.  First what a single verdict says about the state machine and
  the source of its action; then the interpretations of the machine locales that turn the
  one-tick facts into facts about episodes: the runtime invariant, the box, the latched
  states, the length of a stop and the single use of acknowledgements.
\<close>

subsection \<open>The verdict and the state\<close>

text \<open>The input of the state machine on either kind of tick, and the state it starts from.\<close>

definition fsm_pre :: "FuseConfig \<Rightarrow> FuseRt \<Rightarrow> TickInput \<Rightarrow> FuseRt" where
  "fsm_pre cfg rt inp = (if guard cfg rt inp \<noteq> 0 then fault_pre cfg rt inp else tick_pre cfg rt inp)"

definition fsm_fi :: "FuseConfig \<Rightarrow> FuseRt \<Rightarrow> TickInput \<Rightarrow> FsmInput" where
  "fsm_fi cfg rt inp = (if guard cfg rt inp \<noteq> 0 then fault_fi cfg inp (guard cfg rt inp) else tick_fi cfg rt inp)"

definition decide_fsm :: "FuseConfig \<Rightarrow> FuseRt \<Rightarrow> TickInput \<Rightarrow> FuseRt \<times> fsm_out" where
  "decide_fsm cfg rt inp = fsm_next cfg (fsm_pre cfg rt inp) (fsm_fi cfg rt inp)"

lemma decide_fsm_cases:
  "guard cfg rt inp \<noteq> 0 \<Longrightarrow> decide_fsm cfg rt inp = fault_fsm cfg rt inp (guard cfg rt inp)"
  "guard cfg rt inp = 0 \<Longrightarrow> decide_fsm cfg rt inp = tick_fsm cfg rt inp"
  by (simp_all add: decide_fsm_def fsm_pre_def fsm_fi_def fault_fsm_def tick_fsm_def)

lemma decide_verdict:
  "sv_state (snd (decide cfg rt inp)) = fst (snd (decide_fsm cfg rt inp))"
  "sv_reason (snd (decide cfg rt inp)) = snd (snd (snd (decide_fsm cfg rt inp)))"
  "sv_prev_state (snd (decide cfg rt inp)) = rt_state rt" "sv_seq (snd (decide cfg rt inp)) = rt_seq rt"
  "sv_t (snd (decide cfg rt inp)) = ov_t (ti_obs inp)"
  "sv_trips (snd (decide cfg rt inp)) = fi_trips (fsm_fi cfg rt inp) OR fst (snd (snd (decide_fsm cfg rt inp)))"
  by (cases "guard cfg rt inp = 0";
      simp add: decide_def Let_def decide_fsm_cases fault_tick_verdict admitted_tick_verdict fsm_fi_def fault_fi_def)+

lemma decide_rt:
  "\<exists>ta. fst (decide cfg rt inp) = fst (decide_fsm cfg rt inp)
     \<lparr> rt_tally := ta, rt_last_cmd := sv_action (snd (decide cfg rt inp)), rt_seq := sat_inc (rt_seq rt) \<rparr>"
proof (cases "guard cfg rt inp = 0")
  case True
  then show ?thesis
    using admitted_tick_rt [of cfg rt inp] by (simp add: decide_def Let_def decide_fsm_cases admitted_tick_verdict)
next
  case False
  then show ?thesis
    using fault_tick_rt [of cfg rt inp "guard cfg rt inp" "rt_state rt"]
    by (simp add: decide_def Let_def decide_fsm_cases fault_tick_verdict)
qed

lemma windowed_fields [simp]:
  "rt_state (windowed cfg rt inp) = rt_state rt" "rt_seq (windowed cfg rt inp) = rt_seq rt"
  "rt_last_t (windowed cfg rt inp) = ov_t (ti_obs inp)" "rt_last_nonce (windowed cfg rt inp) = rt_last_nonce rt"
  "rt_handoff_seq (windowed cfg rt inp) = rt_handoff_seq rt" "rt_brake_ticks (windowed cfg rt inp) = rt_brake_ticks rt"
  "rt_held_ticks (windowed cfg rt inp) = rt_held_ticks rt" "rt_escalated_ticks (windowed cfg rt inp) = rt_escalated_ticks rt"
  "rt_rearms (windowed cfg rt inp) = rt_rearms rt" "rt_held_clean (windowed cfg rt inp) = rt_held_clean rt"
  "rt_hold (windowed cfg rt inp) = rt_hold rt" "rt_last_cmd (windowed cfg rt inp) = rt_last_cmd rt"
  "rt_pos (windowed cfg rt inp) = copy_row (live_pos_dim cfg) (rt_pos rt) (ov_pos (ti_obs inp))"
  "rt_cur (windowed cfg rt inp) = rt_cur (fst (stage_tier0 cfg (ingest cfg rt inp) inp))"
  "rt_scratch (windowed cfg rt inp) = rt_scratch (fst (stage_tier0 cfg (ingest cfg rt inp) inp))"
  "rt_next_chunk_seq (windowed cfg rt inp) = rt_next_chunk_seq rt + (if ti_chunk inp \<noteq> None then 1 else 0)"
  by (simp_all add: windowed_def Let_def stage_scores_rt)

lemma fsm_pre_fields [simp]:
  "rt_state (fsm_pre cfg rt inp) = rt_state rt" "rt_seq (fsm_pre cfg rt inp) = rt_seq rt"
  "rt_last_t (fsm_pre cfg rt inp) = ov_t (ti_obs inp)" "rt_last_nonce (fsm_pre cfg rt inp) = rt_last_nonce rt"
  "rt_hold (fsm_pre cfg rt inp) = rt_hold rt"
  by (simp_all add: fsm_pre_def tick_pre_def)

lemma fault_pre_counters:
  "rt_brake_ticks (fault_pre cfg rt inp) = rt_brake_ticks rt" "rt_held_ticks (fault_pre cfg rt inp) = rt_held_ticks rt"
  "rt_escalated_ticks (fault_pre cfg rt inp) = rt_escalated_ticks rt" "rt_rearms (fault_pre cfg rt inp) = rt_rearms rt"
  "rt_held_clean (fault_pre cfg rt inp) = rt_held_clean rt" "rt_handoff_seq (fault_pre cfg rt inp) = rt_handoff_seq rt"
  by (simp_all add: fault_pre_def Let_def)

lemma fsm_pre_counters [simp]:
  "rt_brake_ticks (fsm_pre cfg rt inp) = rt_brake_ticks rt" "rt_held_ticks (fsm_pre cfg rt inp) = rt_held_ticks rt"
  "rt_escalated_ticks (fsm_pre cfg rt inp) = rt_escalated_ticks rt" "rt_rearms (fsm_pre cfg rt inp) = rt_rearms rt"
  "rt_held_clean (fsm_pre cfg rt inp) = rt_held_clean rt" "rt_handoff_seq (fsm_pre cfg rt inp) = rt_handoff_seq rt"
  by (simp_all add: fsm_pre_def tick_pre_def fault_pre_counters)

lemma stop_budget_ctl [simp]:
  "stop_budget cfg (rt \<lparr> rt_tally := ta, rt_last_cmd := cmd, rt_seq := q \<rparr>) = stop_budget cfg rt"
  by (cases "rt_state rt") (simp_all add: stop_budget_def Let_def)

lemma decide_fields:
  "rt_state (fst (decide cfg rt inp)) = fst (snd (decide_fsm cfg rt inp))"
  "rt_seq (fst (decide cfg rt inp)) = sat_inc (rt_seq rt)" "rt_last_t (fst (decide cfg rt inp)) = ov_t (ti_obs inp)"
  "rt_last_nonce (fst (decide cfg rt inp)) = rt_last_nonce (fst (decide_fsm cfg rt inp))"
  "rt_last_cmd (fst (decide cfg rt inp)) = sv_action (snd (decide cfg rt inp))"
  "rt_cur (fst (decide cfg rt inp)) = rt_cur (fsm_pre cfg rt inp)"
  "rt_scratch (fst (decide cfg rt inp)) = rt_scratch (fsm_pre cfg rt inp)"
  "rt_hold (fst (decide cfg rt inp)) = rt_hold (fst (decide_fsm cfg rt inp))"
  "rt_next_chunk_seq (fst (decide cfg rt inp)) = rt_next_chunk_seq (fsm_pre cfg rt inp)"
  "stop_budget cfg (fst (decide cfg rt inp)) = stop_budget cfg (fst (decide_fsm cfg rt inp))"
proof -
  obtain ta where e: "fst (decide cfg rt inp) = fst (decide_fsm cfg rt inp)
     \<lparr> rt_tally := ta, rt_last_cmd := sv_action (snd (decide cfg rt inp)), rt_seq := sat_inc (rt_seq rt) \<rparr>"
    using decide_rt by blast
  show "rt_state (fst (decide cfg rt inp)) = fst (snd (decide_fsm cfg rt inp))"
    "rt_seq (fst (decide cfg rt inp)) = sat_inc (rt_seq rt)" "rt_last_t (fst (decide cfg rt inp)) = ov_t (ti_obs inp)"
    "rt_last_nonce (fst (decide cfg rt inp)) = rt_last_nonce (fst (decide_fsm cfg rt inp))"
    "rt_last_cmd (fst (decide cfg rt inp)) = sv_action (snd (decide cfg rt inp))"
    "rt_cur (fst (decide cfg rt inp)) = rt_cur (fsm_pre cfg rt inp)"
    "rt_scratch (fst (decide cfg rt inp)) = rt_scratch (fsm_pre cfg rt inp)"
    "rt_hold (fst (decide cfg rt inp)) = rt_hold (fst (decide_fsm cfg rt inp))"
    "rt_next_chunk_seq (fst (decide cfg rt inp)) = rt_next_chunk_seq (fsm_pre cfg rt inp)"
    "stop_budget cfg (fst (decide cfg rt inp)) = stop_budget cfg (fst (decide_fsm cfg rt inp))"
    unfolding e by (simp_all add: decide_fsm_def fsm_next_state)
qed

lemma decide_state: "sv_state (snd (decide cfg rt inp)) = rt_state (fst (decide cfg rt inp))"
  by (simp add: decide_verdict decide_fields)

text \<open>Every tick of the fuse is an edge of the abstract machine.\<close>

lemma decide_edge: "fsm_edge (rt_state rt) (rt_state (fst (decide cfg rt inp)))"
  using fsm_next_edge [of "fsm_pre cfg rt inp" cfg "fsm_fi cfg rt inp"]
  by (simp add: decide_fields decide_fsm_def fsm_next_state)

lemma guard_fault_bits: "guard cfg rt inp \<noteq> 0 \<Longrightarrow> has_bit (guard cfg rt inp) FAULT_BITS"
  by (auto simp: guard_def has_bit_or_if FAULT_BITS_def or_if_def has_bit_def trip_bit_defs split: if_splits)

lemma decide_guarded:
  assumes "guard cfg rt inp \<noteq> 0"
  shows "rt_state (fst (decide cfg rt inp)) = Fault" "sv_action_src (snd (decide cfg rt inp)) = Src_Hold"
    "sv_substituted (snd (decide cfg rt inp))" "\<not> sv_violation_reached_env (snd (decide cfg rt inp))"
    "sv_trips (snd (decide cfg rt inp)) = guard cfg rt inp"
    "sv_reason (snd (decide cfg rt inp)) = fault_reason (guard cfg rt inp)"
proof -
  have b: "has_bit (fi_trips (fsm_fi cfg rt inp)) FAULT_BITS"
    using assms guard_fault_bits by (simp add: fsm_fi_def fault_fi_def)
  note f = fsm_next_fault_bits [OF b, of cfg "fsm_pre cfg rt inp"]
  show "rt_state (fst (decide cfg rt inp)) = Fault" "sv_trips (snd (decide cfg rt inp)) = guard cfg rt inp"
    "sv_reason (snd (decide cfg rt inp)) = fault_reason (guard cfg rt inp)"
    using f assms by (simp_all add: decide_fields decide_verdict decide_fsm_def fsm_fi_def fault_fi_def)
  show "sv_action_src (snd (decide cfg rt inp)) = Src_Hold"
    "sv_substituted (snd (decide cfg rt inp))" "\<not> sv_violation_reached_env (snd (decide cfg rt inp))"
    using assms by (simp_all add: decide_def Let_def fault_tick_verdict)
qed

lemma decide_enforce_src:
  assumes "fc_mode cfg = Enforce"
  shows "sv_action_src (snd (decide cfg rt inp)) = source_of (sv_state (snd (decide cfg rt inp)))"
    and "sv_substituted (snd (decide cfg rt inp)) \<longleftrightarrow> sv_action_src (snd (decide cfg rt inp)) \<noteq> Src_Policy"
    and "\<not> sv_violation_reached_env (snd (decide cfg rt inp))"
proof -
  have g: "sv_action_src (snd (decide cfg rt inp)) = source_of (sv_state (snd (decide cfg rt inp))) \<and>
      (sv_substituted (snd (decide cfg rt inp)) \<longleftrightarrow> sv_action_src (snd (decide cfg rt inp)) \<noteq> Src_Policy) \<and>
      \<not> sv_violation_reached_env (snd (decide cfg rt inp))"
  proof (cases "guard cfg rt inp = 0")
    case True
    then show ?thesis
      using assms by (simp add: decide_def Let_def admitted_tick_verdict tick_act_def stage_action_def)
  next
    case False
    then show ?thesis using decide_guarded [OF False] by (simp add: decide_state)
  qed
  then show "sv_action_src (snd (decide cfg rt inp)) = source_of (sv_state (snd (decide cfg rt inp)))"
    and "sv_substituted (snd (decide cfg rt inp)) \<longleftrightarrow> sv_action_src (snd (decide cfg rt inp)) \<noteq> Src_Policy"
    and "\<not> sv_violation_reached_env (snd (decide cfg rt inp))" by simp_all
qed


subsection \<open>Stop actions lie in the box\<close>

lemma in_box_append: "n \<le> length a \<Longrightarrow> in_box lo hi n (a @ b) \<longleftrightarrow> in_box lo hi n a"
  by (simp add: in_box_def nth_append)

lemma FuseConfig_wf_dims:
  assumes "FuseConfig_wf cfg"
  shows "fc_dim cfg \<le> MAX_D" "fc_dim cfg \<le> MAX_POS" "box_ok (fc_box_lo cfg) (fc_box_hi cfg) (fc_dim cfg)"
    "fc_pos_dim cfg = fc_dim cfg" "0 < fc_dim cfg"
  using assms unfolding FuseConfig_wf_def by auto

lemma row_in_box:
  assumes inv: "FuseRt_inv cfg rt" and k: "position_kind (fc_kind cfg)"
  shows "in_box (fc_box_lo cfg) (fc_box_hi cfg) (fc_dim cfg) (hold_row cfg rt)"
    and "in_box (fc_box_lo cfg) (fc_box_hi cfg) (fc_dim cfg) (brake_row cfg rt)"
proof -
  have wf: "FuseConfig_wf cfg" and f: "all_finite (rt_hold rt)" "all_finite (rt_pos rt)"
    using inv by (simp_all add: FuseRt_inv_def)
  note d = FuseConfig_wf_dims [OF wf]
  have l: "fc_dim cfg \<le> length (take (fc_dim cfg) (replicate MAX_D 0 :: f64 list))" using d(1) by simp
  have "in_box (fc_box_lo cfg) (fc_box_hi cfg) (fc_dim cfg)
      (hold_action cfg (take (fc_dim cfg) (rt_hold rt)) (take (fc_dim cfg) (replicate MAX_D 0)))"
    by (rule hold_action_in_box [OF k d(3) l d(2) all_finite_take [OF f(1)]])
  then show "in_box (fc_box_lo cfg) (fc_box_hi cfg) (fc_dim cfg) (hold_row cfg rt)"
    unfolding hold_row_def Let_def live_dims [OF wf] using in_box_append l by (metis length_hold_action)
  have "in_box (fc_box_lo cfg) (fc_box_hi cfg) (fc_dim cfg)
      (brake_action cfg (take (fc_dim cfg) (rt_pos rt)) (take (fc_dim cfg) (rt_vel rt)) (take (fc_dim cfg) (replicate MAX_D 0)))"
    by (rule brake_action_in_box [OF k d(3) l d(2) all_finite_take [OF f(2)]])
  then show "in_box (fc_box_lo cfg) (fc_box_hi cfg) (fc_dim cfg) (brake_row cfg rt)"
    unfolding brake_row_def Let_def live_dims [OF wf] using in_box_append l by (metis length_brake_action)
qed

lemma hold_row_zero:
  assumes "FuseConfig_wf cfg" "\<not> position_kind (fc_kind cfg)" "c < MAX_D"
  shows "hold_row cfg rt ! c = 0"
proof -
  note d = FuseConfig_wf_dims [OF assms(1)]
  have l: "fc_dim cfg \<le> length (take (fc_dim cfg) (replicate MAX_D 0 :: f64 list))" using d(1) by simp
  show ?thesis
    using assms d hold_action_zero [OF assms(2) _ l d(2)]
    unfolding hold_row_def Let_def live_dims [OF assms(1)]
    by (cases "c < fc_dim cfg") (simp_all add: nth_append min_def)
qed

definition stop_safe :: "FuseConfig \<Rightarrow> SafetyVerdict \<Rightarrow> bool" where
  "stop_safe cfg v \<longleftrightarrow>
     (sv_action_src v \<in> {Src_Brake, Src_Hold} \<and> position_kind (fc_kind cfg) \<longrightarrow>
        in_box (fc_box_lo cfg) (fc_box_hi cfg) (fc_dim cfg) (sv_action v)) \<and>
     (sv_action_src v = Src_Hold \<and> \<not> position_kind (fc_kind cfg) \<longrightarrow> (\<forall>c < MAX_D. sv_action v ! c = 0))"

lemma stop_safe_decide:
  assumes inv: "FuseRt_inv cfg rt" shows "stop_safe cfg (snd (decide cfg rt inp))"
proof (cases "guard cfg rt inp = 0")
  case True
  have i: "FuseRt_inv cfg (fst (tick_fsm cfg rt inp))" by (rule tick_fsm_inv [OF inv True])
  then have wf: "FuseConfig_wf cfg" by (simp add: FuseRt_inv_def)
  show ?thesis
    using True row_in_box [OF i] hold_row_zero [OF wf]
    by (auto simp: stop_safe_def decide_def Let_def admitted_tick_verdict tick_act_def stage_action_def
        split: ActionSource.split)
next
  case False
  have i: "FuseRt_inv cfg (fst (fault_fsm cfg rt inp (guard cfg rt inp)))" by (rule fault_fsm_inv [OF inv])
  then have wf: "FuseConfig_wf cfg" by (simp add: FuseRt_inv_def)
  show ?thesis
    using False row_in_box [OF i] hold_row_zero [OF wf]
    by (auto simp: stop_safe_def decide_def Let_def fault_tick_verdict)
qed

interpretation fuse: machine "decide cfg" "FuseRt_inv cfg" "\<lambda>_. True" "stop_safe cfg" for cfg
  by unfold_locales (simp_all add: decide_keeps_inv stop_safe_decide)

subsection \<open>Reachable runtime states\<close>

text \<open>Every state a process can bring the runtime into: construction, ticks and episode resets in any order.\<close>

inductive fuse_reach :: "FuseConfig \<Rightarrow> FuseRt \<Rightarrow> bool" for cfg where
  reach_new: "fuse_reach cfg FuseRt_new"
| reach_tick: "fuse_reach cfg rt \<Longrightarrow> fuse_reach cfg (fst (decide cfg rt inp))"
| reach_reset: "fuse_reach cfg rt \<Longrightarrow> fuse_reach cfg (FuseRt_reset rt init)"

lemma FuseRt_new_inv: "FuseConfig_wf cfg \<Longrightarrow> FuseRt_inv cfg FuseRt_new"
  using FuseRt_new_parts
  by (simp add: FuseRt_inv_def buf_ok_def FuseRt_new_def ChunkBuf_new_def Window_inv_def Window_new_def)

lemma reach_inv: "fuse_reach cfg rt \<Longrightarrow> FuseConfig_wf cfg \<Longrightarrow> FuseRt_inv cfg rt"
proof (induction rule: fuse_reach.induct)
  case (reach_reset rt init)
  then show ?case using FuseRt_reset_inv [of cfg rt init] by (simp add: FuseRt_inv_def buf_ok_def)
qed (simp_all add: FuseRt_new_inv decide_keeps_inv)

subsection \<open>Latched states\<close>

text \<open>What a verdict of a latched fuse shows: the state, and in Enforce mode a hold.\<close>

definition latched_verdict :: "FuseConfig \<Rightarrow> SafetyVerdict \<Rightarrow> bool" where
  "latched_verdict cfg v \<longleftrightarrow> is_terminal (sv_state v) \<and> (fc_mode cfg = Enforce \<longrightarrow> sv_action_src v = Src_Hold)"

lemma is_terminal_source: "is_terminal s \<Longrightarrow> source_of s = Src_Hold"
  by (cases s) simp_all

interpretation latched: machine "decide cfg" "\<lambda>rt. is_terminal (rt_state rt)" "\<lambda>_. True" "latched_verdict cfg" for cfg
proof
  fix rt :: FuseRt and inp assume t: "is_terminal (rt_state rt)"
  show s: "is_terminal (rt_state (fst (decide cfg rt inp)))"
    using decide_edge [of rt cfg inp] t by (cases "rt_state rt") (auto simp: fsm_edge_simps)
  show "latched_verdict cfg (snd (decide cfg rt inp))"
    using s decide_enforce_src(1) [of cfg rt inp] by (simp add: latched_verdict_def decide_state is_terminal_source)
qed

interpretation faulted: machine "decide cfg" "\<lambda>rt. rt_state rt = Fault" "\<lambda>_. True" "\<lambda>v. sv_state v = Fault" for cfg
proof
  fix rt :: FuseRt and inp assume "rt_state rt = Fault"
  then show s: "rt_state (fst (decide cfg rt inp)) = Fault"
    using decide_edge [of rt cfg inp] by (auto elim: fsm_edge_FaultE)
  then show "sv_state (snd (decide cfg rt inp)) = Fault" by (simp add: decide_state)
qed

text \<open>A faulted fuse in Enforce mode repeats one action: the hold latched at the fault.\<close>

lemma hold_row_cong: "rt_hold rt = rt_hold rt' \<Longrightarrow> hold_row cfg rt = hold_row cfg rt'"
  by (simp add: hold_row_def)

lemma fault_step_hold:
  assumes "rt_state rt = Fault"
  shows "rt_hold (fst (decide cfg rt inp)) = rt_hold rt"
    and "fc_mode cfg = Enforce \<Longrightarrow> sv_action (snd (decide cfg rt inp)) = hold_row cfg rt"
proof -
  have s: "rt_state (fst (decide cfg rt inp)) = Fault"
    using decide_edge [of rt cfg inp] assms by (auto elim: fsm_edge_FaultE)
  have h: "rt_hold (fst (decide_fsm cfg rt inp)) = rt_hold rt"
    using fsm_next_from_fault [of "fsm_pre cfg rt inp" cfg "fsm_fi cfg rt inp"] assms by (simp add: decide_fsm_def)
  then show "rt_hold (fst (decide cfg rt inp)) = rt_hold rt" by (simp add: decide_fields)
  assume e: "fc_mode cfg = Enforce"
  have t: "fst (snd (decide_fsm cfg rt inp)) = Fault" using s by (simp add: decide_fields)
  show "sv_action (snd (decide cfg rt inp)) = hold_row cfg rt"
    using h hold_row_cong [of "fst (decide_fsm cfg rt inp)" rt cfg] e t
    by (cases "guard cfg rt inp = 0")
      (simp_all add: decide_def Let_def fault_tick_verdict admitted_tick_verdict decide_fsm_cases tick_act_def stage_action_def)
qed

interpretation frozen: machine "decide cfg" "\<lambda>rt. rt_state rt = Fault \<and> rt_hold rt = h \<and> fc_mode cfg = Enforce"
  "\<lambda>_. True" "\<lambda>v. sv_action v = hold_row cfg (FuseRt_new \<lparr> rt_hold := h \<rparr>)" for cfg h
proof
  fix rt :: FuseRt and inp
  assume a: "rt_state rt = Fault \<and> rt_hold rt = h \<and> fc_mode cfg = Enforce"
  then show "rt_state (fst (decide cfg rt inp)) = Fault \<and> rt_hold (fst (decide cfg rt inp)) = h \<and> fc_mode cfg = Enforce"
    using fault_step_hold(1) [of rt cfg inp] decide_edge [of rt cfg inp] by (auto elim: fsm_edge_FaultE)
  show "sv_action (snd (decide cfg rt inp)) = hold_row cfg (FuseRt_new \<lparr> rt_hold := h \<rparr>)"
    using a fault_step_hold(2) [of rt cfg inp] hold_row_cong [of rt "FuseRt_new \<lparr> rt_hold := h \<rparr>" cfg] by simp
qed

subsection \<open>How long a stop lasts\<close>

lemma decide_budget:
  assumes "pausing (rt_state rt)" "pausing (rt_state (fst (decide cfg rt inp)))"
  shows "stop_budget cfg (fst (decide cfg rt inp)) < stop_budget cfg rt"
proof -
  have p: "pausing (rt_state (fst (fsm_next cfg (fsm_pre cfg rt inp) (fsm_fi cfg rt inp))))"
    using assms(2) by (simp add: decide_fields decide_fsm_def fsm_next_state)
  have "stop_budget cfg (fsm_pre cfg rt inp) = stop_budget cfg rt"
    by (cases "rt_state rt") (simp_all add: stop_budget_def Let_def)
  then show ?thesis
    using stop_budget_decreases [OF _ p] assms(1) by (simp add: decide_fields decide_fsm_def)
qed

interpretation stopping: budgeted "decide cfg" "\<lambda>rt. pausing (rt_state rt)" "stop_budget cfg" for cfg
  by unfold_locales (rule decide_budget)

subsection \<open>Acknowledgements\<close>

lemma decide_nonce: "nonce_le (rt_last_nonce rt) (rt_last_nonce (fst (decide cfg rt inp)))"
  using fsm_next_nonce [of "fsm_pre cfg rt inp" cfg "fsm_fi cfg rt inp"] by (simp add: decide_fields decide_fsm_def)

interpretation nonces: progressing "decide cfg" "\<lambda>a b. nonce_le (rt_last_nonce a) (rt_last_nonce b)" for cfg
proof
  fix a b c :: FuseRt assume "nonce_le (rt_last_nonce a) (rt_last_nonce b)" "nonce_le (rt_last_nonce b) (rt_last_nonce c)"
  then show "nonce_le (rt_last_nonce a) (rt_last_nonce c)" by (rule nonce_le_trans)
qed (simp_all add: decide_nonce)

lemma accepted_ack_pre [simp]: "accepted_ack (fsm_pre cfg rt inp) a = accepted_ack rt a"
  by (cases a) (simp_all add: accepted_ack_def Let_def)

lemma decide_ack_used:
  assumes inv: "FuseRt_inv cfg rt"
    and r: "sv_reason (snd (decide cfg rt inp)) \<in> {RC_RearmedAck, RC_TerminatedAbort, RC_TerminatedRetune}"
  obtains a where "ti_ack inp = Some a" "accepted_ack rt (Some a) = Some a"
    "rt_last_nonce (fst (decide cfg rt inp)) ! unat (va_operator_slot a) = va_nonce a"
proof -
  have len: "length (rt_last_nonce (fsm_pre cfg rt inp)) = MAX_OPERATORS" using inv by (simp add: FuseRt_inv_def)
  have r': "snd (snd (snd (fsm_next cfg (fsm_pre cfg rt inp) (fsm_fi cfg rt inp))))
      \<in> {RC_RearmedAck, RC_TerminatedAbort, RC_TerminatedRetune}"
    using r by (simp add: decide_verdict decide_fsm_def)
  obtain a where a: "fi_ack (fsm_fi cfg rt inp) = Some a" "accepted_ack (fsm_pre cfg rt inp) (Some a) = Some a"
    "rt_last_nonce (fst (fsm_next cfg (fsm_pre cfg rt inp) (fsm_fi cfg rt inp))) ! unat (va_operator_slot a) = va_nonce a"
    using fsm_next_ack_used [OF r' len] by blast
  have "ti_ack inp = Some a"
    using a(1) by (cases "guard cfg rt inp = 0") (simp_all add: fsm_fi_def fault_fi_def tick_fi_def fsm_input_def Let_def)
  then show ?thesis using that a by (simp add: decide_fields decide_fsm_def)
qed


text \<open>The state machine's input carries the tick's acknowledgement exactly when the guard passes.\<close>

lemma fsm_fi_ack: "fi_ack (fsm_fi cfg rt inp) = (if guard cfg rt inp = 0 then ti_ack inp else None)"
  by (simp add: fsm_fi_def fault_fi_def tick_fi_def fsm_input_def Let_def)

lemma decide_rearm:
  assumes stop: "is_stop (rt_state rt)" and run: "\<not> is_stop (rt_state (fst (decide cfg rt inp)))"
  shows "rt_state rt \<in> {Held, Escalated} \<and> rt_state (fst (decide cfg rt inp)) = Armed \<and>
    ((\<exists>a. ti_ack inp = Some a \<and> accepted_ack rt (Some a) = Some a \<and> va_decision a = Resume) \<or>
     (rt_state rt = Held \<and> hy_rearm (fc_hyst cfg) = AutoRearm \<and> ti_chunk inp \<noteq> None \<and>
        fi_trips (fsm_fi cfg rt inp) = 0 \<and> hy_rearm_hold (fc_hyst cfg) \<le> rt_held_clean rt \<and>
        rt_rearms rt < hy_max_rearms (fc_hyst cfg)))"
proof -
  have s: "rt_state (fst (decide cfg rt inp)) = rt_state (fst (fsm_next cfg (fsm_pre cfg rt inp) (fsm_fi cfg rt inp)))"
    by (simp add: decide_fields decide_fsm_def fsm_next_state)
  have g: "guard cfg rt inp = 0" using decide_guarded(1) [of cfg rt inp] run by (cases "guard cfg rt inp = 0") auto
  have ok: "fi_chunk_ok (fsm_fi cfg rt inp) \<longleftrightarrow> ti_chunk inp \<noteq> None \<and> fi_trips (fsm_fi cfg rt inp) = 0"
    using g by (simp add: fsm_fi_def tick_fi_def fsm_input_def Let_def)
  have "is_stop (rt_state (fsm_pre cfg rt inp))" using stop by simp
  from fsm_next_rearm [OF this run [unfolded s]] show ?thesis
    unfolding s ok fsm_fi_ack using g by simp
qed

end
