(* ===== verification/FuseBox.thy ===== *)
theory FuseBox
  imports FuseSafety
begin

text \<open>
  The box theorem for whole episodes and the transparency of Observe mode.  With the workspace
  check armed, projection on and Enforce mode, every action the fuse emits lies in the box, as long
  as the observed positions do: the projection of a delivered chunk, the leashed row of an
  intra-chunk tick, the brake setpoint and the hold setpoint all do, and the previous command they
  are leashed to did.  In Observe mode the action is the raw row of the chunk in flight.
\<close>

subsection \<open>The box invariant\<close>

definition in_fuse_box :: "FuseConfig \<Rightarrow> f64 list \<Rightarrow> bool" where
  "in_fuse_box cfg a \<longleftrightarrow> in_box (fc_box_lo cfg) (fc_box_hi cfg) (fc_dim cfg) a"

definition box_armed :: "FuseConfig \<Rightarrow> bool" where
  "box_armed cfg \<longleftrightarrow> fc_mode cfg = Enforce \<and> position_kind (fc_kind cfg) \<and> fc_clamp cfg = Project \<and>
     has_bit (fc_tier0_enabled cfg) TRIP_WORKSPACE \<and>
     width_ok (fc_box_lo cfg) (fc_box_hi cfg) (fc_dim cfg) \<and> leash_ok cfg"

definition rows_in_box :: "FuseConfig \<Rightarrow> ChunkBuf \<Rightarrow> bool" where
  "rows_in_box cfg b \<longleftrightarrow> (case ChunkBuf_view b of None \<Rightarrow> True
     | Some v \<Rightarrow> (\<forall>i < fc_horizon cfg. in_fuse_box cfg (ChunkView_action v i)))"

definition box_inv :: "FuseConfig \<Rightarrow> FuseRt \<Rightarrow> bool" where
  "box_inv cfg rt \<longleftrightarrow> FuseRt_inv cfg rt \<and> box_armed cfg \<and>
     (cb_filled (rt_cur rt) \<longrightarrow> rows_in_box cfg (rt_cur rt) \<and> in_fuse_box cfg (rt_last_cmd rt))"

lemma buf_row_in_box:
  assumes "FuseConfig_wf cfg" "buf_ok cfg b" "ChunkBuf_view b = Some v" "in_fuse_box cfg (ChunkView_action v i)"
    "i < fc_horizon cfg"
  shows "in_fuse_box cfg (buf_row cfg b i)"
proof -
  note v = buf_ok_view [OF assms(2,3)] and d = FuseConfig_wf_dims [OF assms(1)]
  have l: "length (ChunkView_action v i) = fc_dim cfg"
    using ChunkView_action_row(2) [OF v(1), of i] v(2,3) assms(5) by simp
  show ?thesis
    using assms(3,4) l d(1) in_box_blit [of "fc_dim cfg" "ChunkView_action v i" "replicate MAX_D 0"]
    by (simp add: buf_row_def copy_row_def live_dims [OF assms(1)] in_fuse_box_def)
qed

text \<open>The two ways Tier 0 prepares the candidate rows.\<close>

lemma delivery_in_box:
  assumes inv: "FuseRt_inv cfg rt" and arm: "box_armed cfg" and g: "guard cfg rt0 inp = 0"
    and ch: "ti_chunk inp = Some ch" and pos: "in_fuse_box cfg (ov_pos (ti_obs inp))"
  defines "rt' \<equiv> fst (stage_tier0 cfg rt inp)"
  shows "rows_in_box cfg (rt_cur rt')" "rows_in_box cfg (rt_scratch rt')" "cb_filled (rt_cur rt')" "cb_filled (rt_scratch rt')"
proof -
  have wf: "FuseConfig_wf cfg" using inv by (simp add: FuseRt_inv_def)
  note c = guard_0_chunk [OF g ch wf] and o = guard_0_obs(2) [OF g]
  define out where "out = snd (check_chunk cfg (ti_obs inp) ch (rt_scratch rt))"
  have s: "ChunkBuf_wf (rt_scratch rt)" using inv by (simp add: FuseRt_inv_def buf_ok_def)
  have pl: "length (ov_pos (ti_obs inp)) = fc_dim cfg" using o FuseConfig_wf_dims(4) [OF wf] by simp
  have arm': "has_bit (fc_tier0_enabled cfg) TRIP_WORKSPACE" "fc_clamp cfg = Project"
    "width_ok (fc_box_lo cfg) (fc_box_hi cfg) (fc_dim cfg)" "leash_ok cfg" "fc_mode cfg \<noteq> Observe"
    using arm by (simp_all add: box_armed_def)
  have row: "\<exists>v. ChunkBuf_view out = Some v \<and> in_fuse_box cfg (ChunkView_action v i)" if "i < fc_horizon cfg" for i
    unfolding out_def in_fuse_box_def
    by (rule check_chunk_keeps_box [OF wf arm'(1-4) c(1,2,4) pl _ s])
      (use pos that c(3) in \<open>simp_all add: in_fuse_box_def\<close>)
  have "cb_filled out" using check_chunk_wf [OF c(1) s] by (simp add: out_def)
  then obtain v where v: "ChunkBuf_view out = Some v" by (auto simp: ChunkBuf_view_def Let_def)
  have ob: "buf_ok cfg out"
    using check_chunk_wf [OF c(1) s, of cfg "ti_obs inp"] c(2,3) by (simp add: buf_ok_def out_def)
  have out: "rows_in_box cfg out" using row v by (auto simp: rows_in_box_def)
  have e: "rt_scratch rt' = out" "rt_cur rt' = ChunkBuf_copy_from (rt_cur rt) v"
    using ch arm'(5) v
    by (simp_all add: rt'_def stage_tier0_def tier0_delivery_def Let_def split_beta out_def [symmetric])
  show "rows_in_box cfg (rt_scratch rt')" "cb_filled (rt_scratch rt')" using out \<open>cb_filled out\<close> by (simp_all add: e)
  show "rows_in_box cfg (rt_cur rt')"
    using out v ChunkBuf_copy_from_view [OF buf_ok_view(1) [OF ob v]] by (simp add: e rows_in_box_def)
  show "cb_filled (rt_cur rt')" by (simp add: e ChunkBuf_copy_from_def Let_def)
qed

lemma intra_in_box:
  assumes inv: "FuseRt_inv cfg rt" and arm: "box_armed cfg" and g: "guard cfg rt0 inp = 0"
    and ch: "ti_chunk inp = None" and pos: "in_fuse_box cfg (ov_pos (ti_obs inp))"
    and cur: "cb_filled (rt_cur rt)" "rows_in_box cfg (rt_cur rt)" and last: "in_fuse_box cfg (rt_last_cmd rt)"
  defines "rt' \<equiv> fst (stage_tier0 cfg rt inp)"
  shows "rt_cur rt' = rt_cur rt"
    and "\<exists>v. ChunkBuf_view (rt_scratch rt') = Some v \<and> in_fuse_box cfg (ChunkView_action v (unat (ti_idx inp)))"
proof -
  let ?i = "unat (ti_idx inp)"
  have wf: "FuseConfig_wf cfg" and ok: "buf_ok cfg (rt_cur rt)" "buf_ok cfg (rt_scratch rt)"
    and ll: "length (rt_last_cmd rt) = MAX_D"
    using inv by (simp_all add: FuseRt_inv_def)
  note o = guard_0_obs [OF g] and d = FuseConfig_wf_dims [OF wf]
  have pl: "length (ov_pos (ti_obs inp)) = fc_dim cfg" using o(2) d(4) by simp
  have arm': "has_bit (fc_tier0_enabled cfg) TRIP_WORKSPACE" "fc_clamp cfg = Project"
    "width_ok (fc_box_lo cfg) (fc_box_hi cfg) (fc_dim cfg)" "leash_ok cfg"
    using arm by (simp_all add: box_armed_def)
  obtain cv where cv: "ChunkBuf_view (rt_cur rt) = Some cv" using cur(1) by (auto simp: ChunkBuf_view_def Let_def)
  note v = buf_ok_view [OF ok(1) cv]
  have a: "length (ChunkView_action cv ?i) = fc_dim cfg" "in_fuse_box cfg (ChunkView_action cv ?i)"
    using ChunkView_action_row(2) [OF v(1), of ?i] v(2,3) o(3) cur(2) cv by (simp_all add: rows_in_box_def)
  have af: "all_finite (ChunkView_action cv ?i)"
    using in_box_all_finite [OF d(3), of "ChunkView_action cv ?i"] a by (simp add: in_fuse_box_def)
  define s where "s = (if \<not> ChunkBuf_is_filled (rt_scratch rt) then ChunkBuf_copy_from (rt_scratch rt) cv else rt_scratch rt)"
  have s: "buf_ok cfg s" "cb_filled s"
    using ok(2) buf_ok_copy_from [OF ok(2) v]
    by (simp_all add: s_def ChunkBuf_is_filled_def ChunkBuf_copy_from_def Let_def)
  define row where "row = snd (check_action cfg (ti_obs inp) (take (live_dim cfg) (rt_last_cmd rt))
      (ChunkView_action cv ?i) (ChunkBuf_row s ?i))"
  have sd: "unat (cb_dim s) = fc_dim cfg" "unat (cb_horizon s) = fc_horizon cfg" "ChunkBuf_wf s"
    using s by (simp_all add: buf_ok_def)
  have rl: "length (ChunkBuf_row s ?i) = fc_dim cfg" using length_ChunkBuf_row [OF sd(3) s(2)] sd(1) by simp
  have row: "in_fuse_box cfg row" "length row = unat (cb_dim s)"
    unfolding row_def in_fuse_box_def
    using check_action_keeps_box [OF wf arm' a(1) af _ _ pl _ rl, of "take (live_dim cfg) (rt_last_cmd rt)"]
      live_dims [OF wf] last pos ll d(1) rl sd(1) by (simp_all add: in_fuse_box_def)
  have e: "rt_scratch rt' = ChunkBuf_set_row s ?i row" "rt_cur rt' = rt_cur rt"
    using ch cv
    by (simp_all add: rt'_def stage_tier0_def tier0_intra_def Let_def split_beta s_def row_def)
  show "rt_cur rt' = rt_cur rt" by (rule e(2))
  obtain w where w: "ChunkBuf_view s = Some w" using s(2) by (auto simp: ChunkBuf_view_def Let_def)
  obtain w' where w': "ChunkBuf_view (ChunkBuf_set_row s ?i row) = Some w'" using s(2) by (auto simp: ChunkBuf_view_def Let_def)
  have "ChunkView_action w' ?i = row"
    using ChunkBuf_set_row_action [OF sd(3) s(2) row(2) _ _ w w', of ?i] sd(2) o(3) by simp
  then show "\<exists>v. ChunkBuf_view (rt_scratch rt') = Some v \<and> in_fuse_box cfg (ChunkView_action v ?i)"
    using w' row(1) by (simp add: e(1))
qed

text \<open>Every tick of an armed fuse emits an action in the box and keeps the invariant.\<close>

lemma box_step:
  assumes inv: "box_inv cfg rt" and pos: "in_fuse_box cfg (ov_pos (ti_obs inp))"
  shows "in_fuse_box cfg (sv_action (snd (decide cfg rt inp)))" "box_inv cfg (fst (decide cfg rt inp))"
proof -
  have i: "FuseRt_inv cfg rt" and arm: "box_armed cfg"
    and cur: "cb_filled (rt_cur rt) \<Longrightarrow> rows_in_box cfg (rt_cur rt) \<and> in_fuse_box cfg (rt_last_cmd rt)"
    using inv by (simp_all add: box_inv_def)
  have wf: "FuseConfig_wf cfg" using i by (simp add: FuseRt_inv_def)
  have i': "FuseRt_inv cfg (fst (decide cfg rt inp))" by (rule decide_keeps_inv [OF i])
  have "in_fuse_box cfg (sv_action (snd (decide cfg rt inp))) \<and>
    (cb_filled (rt_cur (fst (decide cfg rt inp))) \<longrightarrow> rows_in_box cfg (rt_cur (fst (decide cfg rt inp))))"
  proof (cases "guard cfg rt inp = 0")
    case False
    then have "stop_safe cfg (snd (decide cfg rt inp))" "sv_action_src (snd (decide cfg rt inp)) = Src_Hold"
      using stop_safe_decide [OF i] decide_guarded(2) [OF False] by simp_all
    moreover have "rt_cur (fst (decide cfg rt inp)) = rt_cur rt"
      using False by (simp add: decide_fields fsm_pre_def)
    ultimately show ?thesis using arm cur by (simp add: stop_safe_def box_armed_def in_fuse_box_def)
  next
    case True
    let ?rt = "ingest cfg rt inp" and ?i = "unat (ti_idx inp)"
    let ?rt' = "fst (stage_tier0 cfg ?rt inp)"
    have ing: "FuseRt_inv cfg ?rt" by (rule ingest_inv [OF i guard_0_obs(1) [OF True]])
    have idx: "?i < fc_horizon cfg" by (rule guard_0_obs(3) [OF True])
    have rows: "rows_in_box cfg (rt_cur ?rt') \<and> cb_filled (rt_cur ?rt') \<and>
        (\<exists>v. ChunkBuf_view (rt_scratch ?rt') = Some v \<and> in_fuse_box cfg (ChunkView_action v ?i))"
    proof (cases "ti_chunk inp")
      case (Some ch)
      note dv = delivery_in_box [OF ing arm True Some pos]
      then show ?thesis using idx by (auto simp: rows_in_box_def ChunkBuf_view_def Let_def split: if_splits)
    next
      case None
      have f: "cb_filled (rt_cur rt)" by (rule guard_0_obs(5) [OF True None])
      then show ?thesis using intra_in_box [OF ing arm True None pos] cur by simp
    qed
    have ok: "buf_ok cfg (rt_cur ?rt')" "buf_ok cfg (rt_scratch ?rt')"
      using stage_tier0_inv [OF ing] guard_0_chunk [OF True _ wf] by (simp_all add: FuseRt_inv_def)
    obtain v where v: "ChunkBuf_view (rt_cur ?rt') = Some v" using rows by (auto simp: ChunkBuf_view_def Let_def)
    have p: "in_fuse_box cfg (buf_row cfg (rt_cur ?rt') ?i)"
      using buf_row_in_box [OF wf ok(1) v _ idx] rows v idx by (simp add: rows_in_box_def)
    have c: "in_fuse_box cfg (buf_row cfg (rt_scratch ?rt') ?i)"
      using buf_row_in_box [OF wf ok(2) _ _ idx] rows by blast
    have bh: "in_fuse_box cfg (brake_row cfg (fst (tick_fsm cfg rt inp)))" "in_fuse_box cfg (hold_row cfg (fst (tick_fsm cfg rt inp)))"
      using row_in_box [OF tick_fsm_inv [OF i True]] arm by (simp_all add: box_armed_def in_fuse_box_def)
    have "in_fuse_box cfg (fst (tick_act cfg rt inp))"
      using p c bh arm
      by (simp add: tick_act_def stage_action_def Let_def tick_pre_def box_armed_def split: ActionSource.split)
    moreover have "sv_action (snd (decide cfg rt inp)) = fst (tick_act cfg rt inp)"
      using True by (simp add: decide_def Let_def admitted_tick_verdict)
    moreover have "rt_cur (fst (decide cfg rt inp)) = rt_cur ?rt'"
      using True by (simp add: decide_fields fsm_pre_def tick_pre_def)
    ultimately show ?thesis using rows by simp
  qed
  then show "in_fuse_box cfg (sv_action (snd (decide cfg rt inp)))" "box_inv cfg (fst (decide cfg rt inp))"
    using i' arm by (simp_all add: box_inv_def decide_fields)
qed

interpretation boxed: machine "decide cfg" "box_inv cfg" "\<lambda>inp. in_fuse_box cfg (ov_pos (ti_obs inp))"
  "\<lambda>v. in_fuse_box cfg (sv_action v)" for cfg
  by unfold_locales (simp_all add: box_step)

lemma FuseRt_reset_box:
  "FuseRt_inv cfg (FuseRt_reset rt init) \<Longrightarrow> box_armed cfg \<Longrightarrow> box_inv cfg (FuseRt_reset rt init)"
  by (simp add: box_inv_def FuseRt_reset_def ChunkBuf_clear_def)

end
