(* ===== verification/FuseView.thy ===== *)
theory FuseView
  imports FuseBox
begin

text \<open>
  What the policy gets through the fuse.  In Observe mode every admitted tick passes the raw row of
  the chunk in flight, whatever the would-be state; in Enforce mode the policy row is the row of the
  projected chunk, which is the raw row when the chunk breaks no limit.  Then the two ways a running
  fuse stops the policy: the brake check, and the window of detector hits.  Last, the totals of the
  tally over an episode.
\<close>

subsection \<open>Rows of the chunk in flight\<close>

text \<open>A row written into a zeroed action.\<close>

definition action_of_row :: "f64 list \<Rightarrow> f64 list" where
  "action_of_row row = row @ replicate (MAX_D - length row) 0"

lemma buf_row_view:
  assumes "FuseConfig_wf cfg" "buf_ok cfg b" "ChunkBuf_view b = Some v" "i < fc_horizon cfg"
  shows "buf_row cfg b i = action_of_row (ChunkView_action v i)"
proof -
  note v = buf_ok_view [OF assms(2,3)] and d = FuseConfig_wf_dims [OF assms(1)]
  have "length (ChunkView_action v i) = fc_dim cfg"
    using ChunkView_action_row(2) [OF v(1), of i] v(2,3) assms(4) by simp
  then show ?thesis
    using assms(3) by (simp add: buf_row_def copy_row_def live_dims [OF assms(1)] blit_def action_of_row_def)
qed

lemma tier0_cur_observe:
  assumes "fc_mode cfg = Observe" "\<And>ch. ti_chunk inp = Some ch \<Longrightarrow> ChunkView_wf ch"
  shows "ChunkBuf_view (rt_cur (fst (stage_tier0 cfg rt inp))) =
    (case ti_chunk inp of Some ch \<Rightarrow> Some ch | None \<Rightarrow> ChunkBuf_view (rt_cur rt))"
  using assms ChunkBuf_copy_from_view
  by (simp add: stage_tier0_def tier0_delivery_def tier0_intra_def Let_def split_beta split: option.split)

lemma tier0_cur_enforce:
  assumes "fc_mode cfg = Enforce" "FuseRt_inv cfg rt" "\<And>ch. ti_chunk inp = Some ch \<Longrightarrow> ChunkView_wf ch"
  shows "ChunkBuf_view (rt_cur (fst (stage_tier0 cfg rt inp))) =
    (case ti_chunk inp of Some ch \<Rightarrow> ChunkBuf_view (snd (check_chunk cfg (ti_obs inp) ch (rt_scratch rt)))
     | None \<Rightarrow> ChunkBuf_view (rt_cur rt))"
proof (cases "ti_chunk inp")
  case (Some ch)
  have s: "ChunkBuf_wf (rt_scratch rt)" using assms(2) by (simp add: FuseRt_inv_def buf_ok_def)
  note w = check_chunk_wf [OF assms(3) [OF Some] s, of cfg "ti_obs inp"]
  then obtain v where v: "ChunkBuf_view (snd (check_chunk cfg (ti_obs inp) ch (rt_scratch rt))) = Some v"
    by (auto simp: ChunkBuf_view_def Let_def)
  then have "ChunkView_wf v" using ChunkBuf_view_wf w by blast
  then show ?thesis
    using Some v assms(1) ChunkBuf_copy_from_view
    by (simp add: stage_tier0_def tier0_delivery_def Let_def split_beta)
next
  case None
  then show ?thesis
    by (simp add: stage_tier0_def tier0_intra_def Let_def split_beta split: option.split)
qed

lemma decide_cur:
  assumes "guard cfg rt inp = 0"
  shows "rt_cur (fst (decide cfg rt inp)) = rt_cur (fst (stage_tier0 cfg (ingest cfg rt inp) inp))"
  using assms by (simp add: decide_fields fsm_pre_def tick_pre_def)

lemma decide_buf_ok:
  assumes "FuseRt_inv cfg rt" shows "FuseConfig_wf cfg" "buf_ok cfg (rt_cur (fst (decide cfg rt inp)))"
  using decide_keeps_inv [OF assms, of inp] by (simp_all add: FuseRt_inv_def)

text \<open>The chunk the policy row is taken from, as the tick leaves it in \<open>cur\<close>.\<close>

lemma decide_policy_row:
  assumes inv: "FuseRt_inv cfg rt" and g: "guard cfg rt inp = 0"
    and v: "ChunkBuf_view (rt_cur (fst (decide cfg rt inp))) = Some v"
    and p: "sv_action_src (snd (decide cfg rt inp)) = Src_Policy"
  shows "sv_action (snd (decide cfg rt inp)) = action_of_row (ChunkView_action v (unat (ti_idx inp)))"
proof -
  have "sv_action (snd (decide cfg rt inp)) = buf_row cfg (rt_cur (fst (decide cfg rt inp))) (unat (ti_idx inp))"
    using g p unfolding decide_cur [OF g]
    by (auto simp: decide_def Let_def admitted_tick_verdict tick_act_def stage_action_def tick_pre_def
        split: if_splits ActionSource.splits)
  then show ?thesis
    using buf_row_view [OF decide_buf_ok(1) [OF inv] decide_buf_ok(2) [OF inv] v guard_0_obs(3) [OF g]] by simp
qed

lemma decide_observe:
  assumes "FuseRt_inv cfg rt" "guard cfg rt inp = 0" "fc_mode cfg = Observe"
  shows "sv_action_src (snd (decide cfg rt inp)) = Src_Policy" "\<not> sv_substituted (snd (decide cfg rt inp))"
    "sv_violation_reached_env (snd (decide cfg rt inp)) \<longleftrightarrow> source_of (sv_state (snd (decide cfg rt inp))) \<noteq> Src_Policy"
  using assms(2,3)
  by (simp_all add: decide_def Let_def admitted_tick_verdict tick_act_def stage_action_def)

lemma decide_observe_cur:
  assumes "FuseRt_inv cfg rt" "guard cfg rt inp = 0" "fc_mode cfg = Observe"
  shows "ChunkBuf_view (rt_cur (fst (decide cfg rt inp))) =
    (case ti_chunk inp of Some ch \<Rightarrow> Some ch | None \<Rightarrow> ChunkBuf_view (rt_cur rt))"
proof -
  have wf: "FuseConfig_wf cfg" using assms(1) by (simp add: FuseRt_inv_def)
  show ?thesis
    unfolding decide_cur [OF assms(2)]
    using tier0_cur_observe [OF assms(3), of inp "ingest cfg rt inp"] guard_0_chunk(1) [OF assms(2) _ wf]
    by (cases "ti_chunk inp") simp_all
qed

text \<open>The chunk in flight after a list of inputs: the last one delivered.\<close>

definition in_flight :: "TickInput list \<Rightarrow> ChunkView option \<Rightarrow> ChunkView option" where
  "in_flight inps v = foldl (\<lambda>v inp. case ti_chunk inp of Some ch \<Rightarrow> Some ch | None \<Rightarrow> v) v inps"

text \<open>An Observe fuse along inputs that all pass the guard.\<close>

fun admitted :: "FuseConfig \<Rightarrow> FuseRt \<Rightarrow> TickInput list \<Rightarrow> bool" where
  "admitted cfg rt [] = True"
| "admitted cfg rt (inp # inps) = (guard cfg rt inp = 0 \<and> admitted cfg (fst (decide cfg rt inp)) inps)"

lemma observe_run_cur:
  assumes "FuseRt_inv cfg rt" "fc_mode cfg = Observe" "admitted cfg rt inps"
  shows "ChunkBuf_view (rt_cur (fst (run_steps (decide cfg) rt inps))) = in_flight inps (ChunkBuf_view (rt_cur rt))"
  using assms
proof (induction inps arbitrary: rt)
  case (Cons inp inps)
  then show ?case
    using decide_observe_cur [of cfg rt inp] decide_keeps_inv [of cfg rt inp] by (simp add: in_flight_def)
qed (simp add: in_flight_def)

lemma admitted_append:
  "admitted cfg rt (inps @ inps') \<longleftrightarrow> admitted cfg rt inps \<and> admitted cfg (fst (run_steps (decide cfg) rt inps)) inps'"
  by (induction inps arbitrary: rt) simp_all

lemma observe_cur_filled:
  assumes "FuseRt_inv cfg rt" "guard cfg rt inp = 0" "fc_mode cfg = Observe"
  shows "\<exists>ch. ChunkBuf_view (rt_cur (fst (decide cfg rt inp))) = Some ch"
  using decide_observe_cur [OF assms] guard_0_obs(5) [OF assms(2)]
  by (cases "ti_chunk inp") (simp_all add: ChunkBuf_view_def Let_def)

text \<open>In Enforce mode a chunk that breaks no limit is executed as it came.\<close>

lemma decide_enforce_raw:
  assumes inv: "FuseRt_inv cfg rt" and g: "guard cfg rt inp = 0" and m: "fc_mode cfg = Enforce"
    and ch: "ti_chunk inp = Some ch" and p: "sv_action_src (snd (decide cfg rt inp)) = Src_Policy"
    and ok: "\<not> breaks_workspace cfg (ti_obs inp) ch" "\<not> breaks_speed cfg (ti_obs inp) ch"
      "\<not> breaks_contact cfg (ti_obs inp) ch" "\<not> breaks_reach cfg (ti_obs inp) ch"
    and hi: "\<forall>c < fc_dim cfg. f_key (fc_box_hi cfg ! c) \<noteq> 0"
  shows "sv_action (snd (decide cfg rt inp)) = action_of_row (ChunkView_action ch (unat (ti_idx inp)))"
proof -
  have wf: "FuseConfig_wf cfg" using inv by (simp add: FuseRt_inv_def)
  note c = guard_0_chunk [OF g ch wf] and o = guard_0_obs [OF g] and d = FuseConfig_wf_dims [OF wf]
  have ing: "FuseRt_inv cfg (ingest cfg rt inp)" by (rule ingest_inv [OF inv o(1)])
  have s: "ChunkBuf_wf (rt_scratch rt)" using inv by (simp add: FuseRt_inv_def buf_ok_def)
  have b: "\<forall>k < box_dims cfg (ti_obs inp) (unat (cv_dim ch)). f_key (fc_box_hi cfg ! k) \<noteq> 0 \<and>
      \<not> is_nan (fc_box_lo cfg ! k) \<and> \<not> is_nan (fc_box_hi cfg ! k)"
    using hi d(3) c(2) by (auto simp: box_dims_def box_ok_def)
  have "ChunkBuf_view (rt_cur (fst (decide cfg rt inp))) = Some ch"
    unfolding decide_cur [OF g]
    using tier0_cur_enforce [OF m ing, of inp] ch c(1) check_chunk_unmoved [OF c(1,4) s o(1) b ok] by simp
  then show ?thesis by (rule decide_policy_row [OF inv g _ p])
qed

text \<open>
  Without a cause the fuse does not interfere: a running fuse that gets a chunk inside every limit,
  with a feasible brake, fewer than \<open>k\<close> hits in the window and a clamp budget left, emits the raw row.
\<close>

lemma no_breaks_no_trips:
  assumes "ChunkView_wf ch" "\<not> breaks_workspace cfg obs ch" "\<not> breaks_speed cfg obs ch" "\<not> breaks_accel cfg obs ch"
    "\<not> breaks_jerk cfg obs ch" "\<not> breaks_reach cfg obs ch" "\<not> breaks_contact cfg obs ch"
  shows "t0_trips (fst (check_chunk cfg obs ch out)) = 0"
proof -
  have "\<not> has_bit (t0_trips (fst (check_chunk cfg obs ch out))) (- 1)"
    using chunk_trip_bits [OF assms(1)] assms(2-) by blast
  then show ?thesis by (simp add: has_bit_def)
qed

subsection \<open>How a running fuse stops\<close>

definition running_state :: "FuseState \<Rightarrow> bool" where
  "running_state s \<longleftrightarrow> s \<in> {Armed, Watching, Clamped}"

lemma soft_no_fault:
  "\<not> has_bit TRIP_WORKSPACE FAULT_BITS" "\<not> has_bit TRIP_SPEED FAULT_BITS" "\<not> has_bit TRIP_ACCEL FAULT_BITS"
  "\<not> has_bit TRIP_JERK FAULT_BITS" "\<not> has_bit TRIP_REACH FAULT_BITS" "\<not> has_bit TRIP_CONTACT FAULT_BITS"
  "\<not> has_bit TRIP_BRAKE FAULT_BITS"
  by (simp_all add: has_bit_def FAULT_BITS_def trip_bit_defs)

lemma has_bit_masked: "has_bit (x AND m) b \<Longrightarrow> has_bit x b"
proof -
  assume "has_bit (x AND m) b"
  moreover have "(x AND m) AND b = (x AND b) AND m" by (simp only: and.assoc and.commute [of m b])
  ultimately show "has_bit x b" by (auto simp: has_bit_def)
qed

lemma tier0_trips_no_fault: "\<not> has_bit t FAULT_BITS \<Longrightarrow> \<not> has_bit (tier0_trips cfg t br) FAULT_BITS"
  unfolding tier0_trips_def using soft_no_fault(7) by (auto dest!: has_bit_masked simp: has_bit_or_if)

lemma check_action_no_fault: "\<not> has_bit (t0_trips (fst (check_action cfg obs prev a out))) FAULT_BITS"
  unfolding check_action_def Let_def by (simp add: has_bit_or_if soft_no_fault Tier0Out_default_def)

text \<open>The checks of Tier 0 never raise one of the bits that fault.\<close>

lemma stage_tier0_no_fault:
  assumes "\<And>ch. ti_chunk inp = Some ch \<Longrightarrow> ChunkView_wf ch"
  shows "\<not> has_bit (fst (snd (stage_tier0 cfg rt inp))) FAULT_BITS"
proof (cases "ti_chunk inp")
  case (Some ch)
  have "\<not> has_bit (t0_trips (fst (check_chunk cfg (ti_obs inp) ch (rt_scratch rt)))) FAULT_BITS"
    using chunk_trip_bits [OF assms [OF Some]] soft_no_fault by blast
  then show ?thesis
    using Some tier0_trips_no_fault by (simp add: stage_tier0_def tier0_delivery_def Let_def split_beta)
next
  case None
  then show ?thesis
    using tier0_trips_no_fault check_action_no_fault
    by (simp add: stage_tier0_def tier0_intra_def Let_def split_beta split: option.split)
qed

lemma running_brakes:
  assumes "running_state (rt_state rt)"
    "has_bit (fi_trips inp) TRIP_BRAKE \<or> fi_predictive inp" "\<not> has_bit (fi_trips inp) FAULT_BITS"
  shows "rt_state (fst (fsm_next cfg rt inp)) = Braking"
  using assms unfolding fsm_next_eq tick_table_def transition_def running_state_def
  by (auto simp: from_running_def Let_def)

lemma decide_trips_bits:
  assumes "guard cfg rt inp = 0"
  shows "fi_trips (fsm_fi cfg rt inp) = fst (snd (stage_tier0 cfg (ingest cfg rt inp) inp))"
    and "fi_predictive (fsm_fi cfg rt inp) \<longleftrightarrow> hy_k (fc_hyst cfg) \<le> Window_hits (rt_window (windowed cfg rt inp))"
    and "sv_window_hits (snd (decide cfg rt inp)) = Window_hits (rt_window (windowed cfg rt inp))"
    and "sv_brake_margin (snd (decide cfg rt inp)) = bo_margin (snd (snd (snd (stage_tier0 cfg (ingest cfg rt inp) inp))))"
  using assms
  by (simp_all add: fsm_fi_def tick_fi_def fsm_input_def Let_def decide_def admitted_tick_def windowed_def split_beta)

lemma decide_stops:
  assumes inv: "FuseRt_inv cfg rt" and g: "guard cfg rt inp = 0" and r: "running_state (rt_state rt)"
    and t: "has_bit (fi_trips (fsm_fi cfg rt inp)) TRIP_BRAKE \<or> hy_k (fc_hyst cfg) \<le> sv_window_hits (snd (decide cfg rt inp))"
  shows "sv_state (snd (decide cfg rt inp)) = Braking"
proof -
  have wf: "FuseConfig_wf cfg" using inv by (simp add: FuseRt_inv_def)
  have "\<not> has_bit (fi_trips (fsm_fi cfg rt inp)) FAULT_BITS"
    unfolding decide_trips_bits(1) [OF g] by (rule stage_tier0_no_fault) (rule guard_0_chunk(1) [OF g _ wf])
  then show ?thesis
    using running_brakes [of "fsm_pre cfg rt inp" "fsm_fi cfg rt inp" cfg] r t
    by (simp add: decide_verdict decide_fsm_def decide_trips_bits [OF g] fsm_next_state)
qed

text \<open>An accepted resume re-arms the fuse on the tick that carries it.\<close>

lemma decide_resume:
  assumes inv: "FuseRt_inv cfg rt" and g: "guard cfg rt inp = 0" and s: "rt_state rt \<in> {Held, Escalated}"
    and a: "ti_ack inp = Some a" "accepted_ack rt (Some a) = Some a" "va_decision a = Resume"
  shows "sv_state (snd (decide cfg rt inp)) = Armed" "sv_reason (snd (decide cfg rt inp)) = RC_RearmedAck"
proof -
  have wf: "FuseConfig_wf cfg" using inv by (simp add: FuseRt_inv_def)
  have nf: "\<not> has_bit (fi_trips (fsm_fi cfg rt inp)) FAULT_BITS"
    unfolding decide_trips_bits(1) [OF g] by (rule stage_tier0_no_fault) (rule guard_0_chunk(1) [OF g _ wf])
  have "snd (fsm_next cfg (fsm_pre cfg rt inp) (fsm_fi cfg rt inp)) = (Armed, 0, RC_RearmedAck)"
    unfolding fsm_next_eq tick_table_def transition_def fsm_fi_ack
    using nf s a g by (auto simp: from_held_def from_escalated_def)
  then show "sv_state (snd (decide cfg rt inp)) = Armed" "sv_reason (snd (decide cfg rt inp)) = RC_RearmedAck"
    by (simp_all add: decide_verdict decide_fsm_def)
qed

text \<open>The window after a tick: the new outcome in front of the last \<open>n - 1\<close>.\<close>

definition tick_hit :: "FuseConfig \<Rightarrow> FuseRt \<Rightarrow> TickInput \<Rightarrow> bool" where
  "tick_hit cfg rt inp = fst (snd (snd (stage_scores cfg (fst (stage_tier0 cfg (ingest cfg rt inp) inp)) inp)))"

lemma windowed_window:
  assumes "FuseRt_inv cfg rt" "guard cfg rt inp = 0"
  defines "n \<equiv> unat (hy_n (fc_hyst cfg))"
  shows "unat (sv_window_hits (snd (decide cfg rt inp)))
    = length (filter id (take n (tick_hit cfg rt inp # Window_hist n (rt_window rt))))"
proof -
  have wf: "FuseConfig_wf cfg" using assms(1) by (simp add: FuseRt_inv_def)
  then have n: "n \<le> 63" "fc_window_mask cfg = mask n" by (simp_all add: FuseConfig_wf_def n_def word_le_nat_alt)
  have w: "rt_window (windowed cfg rt inp) = Window_push (rt_window rt) (tick_hit cfg rt inp) (mask n)"
    by (simp add: windowed_def Let_def stage_scores_rt tick_hit_def n(2))
  have i: "Window_inv n (rt_window (windowed cfg rt inp))" unfolding w by (rule Window_push_inv)
  show ?thesis
    using Window_hits_hist [OF i n(1)] Window_push_hist [OF n(1)]
    unfolding decide_trips_bits(3) [OF assms(2)] w by simp
qed

subsection \<open>Continuity\<close>

lemma guard_0_time:
  assumes "guard cfg rt inp = 0"
  shows "rt_seq rt = 0 \<Longrightarrow> ov_t (ti_obs inp) = 0"
    and "rt_seq rt \<noteq> 0 \<Longrightarrow> unat (ov_t (ti_obs inp)) = unat (rt_last_t rt) + 1 + unat (ti_missed_ticks inp)"
proof -
  have t: "\<not> guard_time rt inp" using assms by (simp add: guard_0 guard_schema_def Let_def)
  show "rt_seq rt = 0 \<Longrightarrow> ov_t (ti_obs inp) = 0" using t by (simp add: guard_time_def Let_def)
  assume "rt_seq rt \<noteq> 0"
  then obtain x where x: "checked_add (rt_last_t rt) 1 = Some x"
    "checked_add x (ucast (ti_missed_ticks inp)) = Some (ov_t (ti_obs inp))"
    using t by (auto simp: guard_time_def Let_def Option.bind_eq_Some_conv)
  have "unat (ucast (ti_missed_ticks inp) :: u32) = unat (ti_missed_ticks inp)" by (simp add: unat_ucast_widen)
  then show "unat (ov_t (ti_obs inp)) = unat (rt_last_t rt) + 1 + unat (ti_missed_ticks inp)"
    using checked_add_Some [OF x(1)] checked_add_Some [OF x(2)] by simp
qed

subsection \<open>The tally\<close>

text \<open>The counters of a tick: what \<open>record\<close> is called on after \<open>record_chunk\<close>.\<close>

definition tally_sound :: "FuseRt \<Rightarrow> bool" where
  "tally_sound rt \<longleftrightarrow> state_total (rt_tally rt) = unat (ta_ticks (rt_tally rt)) \<and> ta_ticks (rt_tally rt) = rt_seq rt"

lemma tally_chunk:
  "ta_ticks (Tally_record_chunk t r) = ta_ticks t" "state_total (Tally_record_chunk t r) = state_total t"
  by (simp_all add: Tally_record_chunk_def state_total_def)

lemma tier0_tally:
  "ta_ticks (rt_tally (fst (stage_tier0 cfg rt inp))) = ta_ticks (rt_tally rt)"
  "state_total (rt_tally (fst (stage_tier0 cfg rt inp))) = state_total (rt_tally rt)"
  by (simp_all add: stage_tier0_def tier0_delivery_def tier0_intra_def Let_def tally_chunk split_beta split: option.split)

lemma admitted_tick_tally:
  "\<exists>ev. rt_tally (fst (admitted_tick cfg rt inp)) =
     Tally_record (rt_tally (fst (stage_tier0 cfg (ingest cfg rt inp) inp))) (snd (admitted_tick cfg rt inp)) ev"
  unfolding admitted_tick_def Let_def split_beta
  by (simp add: stage_scores_rt split del: if_split) (rule exI, rule refl)

lemma fault_tick_tally:
  "rt_tally (fst (fault_tick cfg rt inp bits ps)) =
     Tally_record (rt_tally rt) (snd (fault_tick cfg rt inp bits ps)) TickEvents_default"
  unfolding fault_tick_def Let_def split_beta by simp

lemma decide_tally:
  "\<exists>t v ev. rt_tally (fst (decide cfg rt inp)) = Tally_record t v ev \<and> ta_ticks t = ta_ticks (rt_tally rt) \<and>
     state_total t = state_total (rt_tally rt) \<and> sv_state v = sv_state (snd (decide cfg rt inp))"
proof (cases "guard cfg rt inp = 0")
  case True
  then show ?thesis
    using admitted_tick_tally [of cfg rt inp] tier0_tally [of cfg "ingest cfg rt inp" inp]
    by (simp add: decide_def Let_def) metis
next
  case False
  then show ?thesis
    using fault_tick_tally [of cfg rt inp "guard cfg rt inp" "rt_state rt"]
    by (simp add: decide_def Let_def) metis
qed

lemma decide_tally_sound:
  assumes "tally_sound rt" "unat (rt_seq rt) < 2 ^ 32 - 1"
  shows "tally_sound (fst (decide cfg rt inp))"
proof -
  obtain t v ev where t: "rt_tally (fst (decide cfg rt inp)) = Tally_record t v ev" "ta_ticks t = ta_ticks (rt_tally rt)"
    "state_total t = state_total (rt_tally rt)"
    using decide_tally by blast
  have "state_total (Tally_record t v ev) = unat (ta_ticks (Tally_record t v ev))"
    by (rule Tally_record_sum) (use assms t in \<open>simp_all add: tally_sound_def\<close>)
  then show ?thesis
    using assms(1) t by (simp add: tally_sound_def decide_fields Tally_record_totals)
qed

lemma run_tally_sound:
  "tally_sound rt \<Longrightarrow> unat (rt_seq rt) + length inps < 2 ^ 32 \<Longrightarrow>
     tally_sound (fst (run_steps (decide cfg) rt inps)) \<and>
     unat (rt_seq (fst (run_steps (decide cfg) rt inps))) = unat (rt_seq rt) + length inps"
proof (induction inps arbitrary: rt)
  case (Cons inp inps)
  have "unat (rt_seq (fst (decide cfg rt inp))) = Suc (unat (rt_seq rt))"
    using Cons.prems(2) by (simp add: decide_fields unat_sat_inc)
  then show ?case
    using Cons.IH [of "fst (decide cfg rt inp)"] decide_tally_sound [of rt cfg inp] Cons.prems by simp
qed simp


subsection \<open>No interference without a cause\<close>

definition breaks_nothing :: "FuseConfig \<Rightarrow> ObsView \<Rightarrow> ChunkView \<Rightarrow> bool" where
  "breaks_nothing cfg obs ch \<longleftrightarrow> \<not> breaks_workspace cfg obs ch \<and> \<not> breaks_speed cfg obs ch \<and>
     \<not> breaks_accel cfg obs ch \<and> \<not> breaks_jerk cfg obs ch \<and> \<not> breaks_reach cfg obs ch \<and> \<not> breaks_contact cfg obs ch"

lemma running_quiet:
  assumes "s \<in> {Armed, Watching, Clamped}" "fi_trips inp = 0" "\<not> fi_predictive inp"
    "rt_clamp_streak rt < hy_clamp_streak_to_brake (fc_hyst cfg)" "rt_clamps rt \<le> hy_max_clamps_per_episode (fc_hyst cfg)"
  shows "fst (snd (from_running cfg rt s inp)) \<in> {Armed, Watching, Clamped}"
    and "s \<noteq> Clamped \<Longrightarrow> fst (snd (from_running cfg rt s inp)) \<in> {Armed, Watching}"
  using assms by (auto simp: from_running_def Let_def not_le not_less)

lemma windowed_counters:
  "rt_clamp_streak (windowed cfg rt inp) = rt_clamp_streak rt" "rt_clamps (windowed cfg rt inp) = rt_clamps rt"
proof -
  obtain c b ta where e: "fst (stage_tier0 cfg (ingest cfg rt inp) inp)
      = ingest cfg rt inp \<lparr> rt_cur := c, rt_scratch := b, rt_tally := ta \<rparr>"
    using tier0_frame_eq [OF stage_tier0_frame] by blast
  have i: "rt_clamp_streak (ingest cfg rt inp) = rt_clamp_streak rt" "rt_clamps (ingest cfg rt inp) = rt_clamps rt"
    by (simp_all add: ingest_def Let_def)
  show "rt_clamp_streak (windowed cfg rt inp) = rt_clamp_streak rt" "rt_clamps (windowed cfg rt inp) = rt_clamps rt"
    by (simp_all add: windowed_def Let_def stage_scores_rt e i)
qed

lemma delivery_tier0:
  assumes "ti_chunk inp = Some ch" "fc_mode cfg = Enforce" "FuseRt_inv cfg rt" "ChunkView_wf ch"
    "ChunkBuf_view (snd (check_chunk cfg (ti_obs inp) ch (rt_scratch rt))) = Some ch"
  shows "ChunkBuf_view (rt_scratch (fst (stage_tier0 cfg rt inp))) = Some ch"
    and "ChunkBuf_view (rt_cur (fst (stage_tier0 cfg rt inp))) = Some ch"
    and "snd (snd (snd (stage_tier0 cfg rt inp))) = brake_check cfg rt (Some ch) (unat (ti_idx inp))"
    and "fst (snd (stage_tier0 cfg rt inp)) = tier0_trips cfg
      (t0_trips (fst (check_chunk cfg (ti_obs inp) ch (rt_scratch rt)))) (brake_check cfg rt (Some ch) (unat (ti_idx inp)))"
  using assms ChunkBuf_copy_from_view [OF assms(4)]
  by (simp_all add: stage_tier0_def tier0_delivery_def Let_def split_beta brake_check_def)

lemma decide_quiet:
  assumes inv: "FuseRt_inv cfg rt" and g: "guard cfg rt inp = 0" and m: "fc_mode cfg = Enforce"
    and ch: "ti_chunk inp = Some ch" and ok: "breaks_nothing cfg (ti_obs inp) ch"
    and hi: "\<forall>c < fc_dim cfg. f_key (fc_box_hi cfg ! c) \<noteq> 0"
    and br: "bo_feasible (brake_check cfg (ingest cfg rt inp) (Some ch) (unat (ti_idx inp)))"
    and r: "running_state (rt_state rt)"
    and k: "sv_window_hits (snd (decide cfg rt inp)) < hy_k (fc_hyst cfg)"
    and b: "rt_clamp_streak rt < hy_clamp_streak_to_brake (fc_hyst cfg)" "rt_clamps rt \<le> hy_max_clamps_per_episode (fc_hyst cfg)"
  shows "sv_action (snd (decide cfg rt inp)) = action_of_row (ChunkView_action ch (unat (ti_idx inp)))"
    and "sv_state (snd (decide cfg rt inp)) \<in> {Armed, Watching, Clamped}"
    and "rt_state rt \<noteq> Clamped \<Longrightarrow> sv_action_src (snd (decide cfg rt inp)) = Src_Policy"
proof -
  have wf: "FuseConfig_wf cfg" using inv by (simp add: FuseRt_inv_def)
  note c = guard_0_chunk [OF g ch wf] and o = guard_0_obs [OF g] and d = FuseConfig_wf_dims [OF wf]
  let ?rt = "ingest cfg rt inp"
  have ing: "FuseRt_inv cfg ?rt" by (rule ingest_inv [OF inv o(1)])
  have s: "ChunkBuf_wf (rt_scratch rt)" using inv by (simp add: FuseRt_inv_def buf_ok_def)
  have bx: "\<forall>k < box_dims cfg (ti_obs inp) (unat (cv_dim ch)). f_key (fc_box_hi cfg ! k) \<noteq> 0 \<and>
      \<not> is_nan (fc_box_lo cfg ! k) \<and> \<not> is_nan (fc_box_hi cfg ! k)"
    using hi d(3) c(2) by (auto simp: box_dims_def box_ok_def)
  have v: "ChunkBuf_view (snd (check_chunk cfg (ti_obs inp) ch (rt_scratch ?rt))) = Some ch"
    using check_chunk_unmoved [OF c(1,4) s o(1) bx] ok by (simp add: breaks_nothing_def)
  note t0 = delivery_tier0 [OF ch m ing c(1) v]
  have "t0_trips (fst (check_chunk cfg (ti_obs inp) ch (rt_scratch ?rt))) = 0"
    using no_breaks_no_trips [OF c(1)] ok by (simp add: breaks_nothing_def)
  then have trips: "fi_trips (fsm_fi cfg rt inp) = 0"
    unfolding decide_trips_bits(1) [OF g] t0(4) using br by (simp add: tier0_trips_def or_if_def)
  have np: "\<not> fi_predictive (fsm_fi cfg rt inp)"
    using k by (simp add: decide_trips_bits [OF g] not_le)
  have b': "rt_clamp_streak (ticked (fsm_pre cfg rt inp) (fsm_fi cfg rt inp)) < hy_clamp_streak_to_brake (fc_hyst cfg)"
    "rt_clamps (ticked (fsm_pre cfg rt inp) (fsm_fi cfg rt inp)) \<le> hy_max_clamps_per_episode (fc_hyst cfg)"
    using b g by (simp_all add: fsm_pre_def tick_pre_def windowed_counters)
  have st: "fst (snd (decide_fsm cfg rt inp))
      = fst (snd (from_running cfg (ticked (fsm_pre cfg rt inp) (fsm_fi cfg rt inp)) (rt_state rt) (fsm_fi cfg rt inp)))"
    using r trips unfolding decide_fsm_def fsm_next_eq tick_table_def transition_def running_state_def by auto
  have run: "rt_state rt \<in> {Armed, Watching, Clamped}" using r by (simp add: running_state_def)
  note q = running_quiet [OF run trips np b', folded st]
  show st': "sv_state (snd (decide cfg rt inp)) \<in> {Armed, Watching, Clamped}" using q(1) by (simp add: decide_verdict)
  show "rt_state rt \<noteq> Clamped \<Longrightarrow> sv_action_src (snd (decide cfg rt inp)) = Src_Policy"
    using q(2) by (auto simp: decide_enforce_src(1) [OF m] decide_verdict)
  have ok': "buf_ok cfg (rt_cur (fst (stage_tier0 cfg ?rt inp)))" "buf_ok cfg (rt_scratch (fst (stage_tier0 cfg ?rt inp)))"
    using stage_tier0_inv [OF ing] guard_0_chunk [OF g _ wf] by (simp_all add: FuseRt_inv_def)
  have rows: "buf_row cfg (rt_cur (tick_pre cfg rt inp)) (unat (ti_idx inp)) = action_of_row (ChunkView_action ch (unat (ti_idx inp)))"
    "buf_row cfg (rt_scratch (tick_pre cfg rt inp)) (unat (ti_idx inp)) = action_of_row (ChunkView_action ch (unat (ti_idx inp)))"
    using buf_row_view [OF wf ok'(1) t0(2) o(3)] buf_row_view [OF wf ok'(2) t0(1) o(3)] by (simp_all add: tick_pre_def)
  have "source_of (fst (snd (tick_fsm cfg rt inp))) \<in> {Src_Policy, Src_Clamped}"
    using q(1) g by (auto simp: decide_fsm_cases)
  then show "sv_action (snd (decide cfg rt inp)) = action_of_row (ChunkView_action ch (unat (ti_idx inp)))"
    using g m rows by (auto simp: decide_def Let_def admitted_tick_verdict tick_act_def stage_action_def)
qed

subsection \<open>The brake margin of a verdict\<close>

lemma brake_check_feasible: "bo_feasible (brake_check cfg rt v i) \<longleftrightarrow> 0 \<le> bo_margin (brake_check cfg rt v i)"
proof -
  have "\<not> 0 \<le> f_neg_inf" by code_simp
  then show ?thesis
    by (simp add: brake_check_def no_brake_def brake_feasible_def Let_def split_beta split: option.split)
qed

lemma has_bit_brake_mask: "has_bit (tier0_trips cfg t br) TRIP_BRAKE \<longleftrightarrow> has_bit t TRIP_BRAKE \<or> \<not> bo_feasible br"
proof -
  have e: "(x AND (m OR TRIP_TIER0_HARD)) AND TRIP_BRAKE = x AND TRIP_BRAKE" for x m :: u32
  proof -
    have "TRIP_TIER0_HARD AND TRIP_BRAKE = TRIP_BRAKE" by (simp add: TRIP_TIER0_HARD_def trip_bit_defs)
    then have "(m OR TRIP_TIER0_HARD) AND TRIP_BRAKE = TRIP_BRAKE" by (simp add: word_ao_dist word_ao_absorbs)
    then show ?thesis by (simp add: and.assoc)
  qed
  have h: "has_bit TRIP_BRAKE TRIP_BRAKE" by (simp add: has_bit_def trip_bit_defs)
  show ?thesis
    unfolding tier0_trips_def has_bit_def e using h by (simp add: has_bit_def [symmetric] has_bit_or_if)
qed

lemma stage_tier0_brake:
  assumes "\<not> 0 \<le> bo_margin (snd (snd (snd (stage_tier0 cfg rt inp))))"
  shows "has_bit (fst (snd (stage_tier0 cfg rt inp))) TRIP_BRAKE"
proof (cases "ti_chunk inp")
  case (Some ch)
  then show ?thesis
    using assms by (simp add: stage_tier0_def tier0_delivery_def Let_def split_beta has_bit_brake_mask brake_check_feasible)
next
  case None
  then show ?thesis
    using assms
    by (cases "ChunkBuf_view (rt_cur rt)"; cases "ChunkBuf_is_filled (rt_scratch rt)")
      (simp_all add: stage_tier0_def tier0_intra_def Let_def split_beta has_bit_brake_mask brake_check_feasible no_brake_def)
qed

lemma tick_brake_intra:
  assumes "ti_chunk inp = None" "ChunkBuf_view (rt_cur rt) = Some cv"
  shows "snd (snd (snd (stage_tier0 cfg (ingest cfg rt inp) inp))) = brake_check cfg (ingest cfg rt inp) (Some cv) (unat (ti_idx inp))"
  using assms by (simp add: stage_tier0_def tier0_intra_def Let_def split_beta brake_check_def)

subsection \<open>Two ticks in a row\<close>

text \<open>The guard looks at four fields of the runtime state only.\<close>

lemma guard_cong:
  assumes "cb_filled (rt_cur rt) = cb_filled (rt_cur rt')" "rt_next_chunk_seq rt = rt_next_chunk_seq rt'"
    "rt_seq rt = rt_seq rt'" "rt_last_t rt = rt_last_t rt'"
  shows "guard cfg rt inp = guard cfg rt' inp"
proof -
  have "guard_chunk cfg rt inp = guard_chunk cfg rt' inp" using assms(2) by (intro ext) (simp add: guard_chunk_def)
  then show ?thesis
    using assms
    by (cases "ti_chunk inp") (simp_all add: guard_def guard_schema_def guard_time_def ChunkBuf_is_filled_def Let_def)
qed

lemma sat_inc_nonzero: "sat_inc x \<noteq> (0 :: 'a::len word)"
  by (simp add: sat_inc_def flip: eq_neg_iff_add_eq_0)

lemma decide_time:
  assumes "guard cfg (fst (decide cfg rt inp)) inp' = 0"
  shows "unat (ov_t (ti_obs inp')) = unat (ov_t (ti_obs inp)) + 1 + unat (ti_missed_ticks inp')"
proof -
  have "rt_seq (fst (decide cfg rt inp)) \<noteq> 0" by (simp add: decide_fields sat_inc_nonzero)
  then show ?thesis using guard_0_time(2) [OF assms] by (simp add: decide_fields)
qed

subsection \<open>The wrapper\<close>

lemma Fuse_step_eq:
  "fst (Fuse_step f inp) = f \<lparr> fu_rt := fst (decide (fu_cfg f) (fu_rt f) inp) \<rparr>"
  "snd (Fuse_step f inp) = snd (decide (fu_cfg f) (fu_rt f) inp)"
  by (simp_all add: Fuse_step_def split_beta)

lemma Fuse_run:
  "fst (run_steps Fuse_step f inps) = f \<lparr> fu_rt := fst (run_steps (decide (fu_cfg f)) (fu_rt f) inps) \<rparr> \<and>
   snd (run_steps Fuse_step f inps) = snd (run_steps (decide (fu_cfg f)) (fu_rt f) inps)"
  by (induction inps arbitrary: f) (simp_all add: Fuse_step_eq)

end
