(* ===== verification/Demo.thy ===== *)
theory Demo
  imports FuseView
begin

text \<open>
  One concrete configuration, with the episode start and the inputs that the witnesses run: a
  one-dimensional robot on the box from -16 to 16 with a step limit of 1, chunks of three rows, a
  window of 3 with threshold 2 and all timeouts at two or three ticks.
\<close>

definition demo_hyst :: Hysteresis where
  "demo_hyst = \<lparr> hy_k = 2, hy_n = 3, hy_warn_margin = 0, hy_clear_ticks = 1, hy_clamp_streak_to_brake = 3,
     hy_max_clamps_per_episode = 10, hy_stop_confirm_ticks = 1, hy_v_stop_eps = f_one, hy_brake_timeout_ticks = 3,
     hy_rearm = AckOnly, hy_rearm_hold = 1, hy_max_rearms = 1, hy_escalate_after_hold_ticks = 2,
     hy_handoff_timeout_ticks = 2, hy_watchdog_ticks = 1 \<rparr>"

definition demo_brake :: BrakeModel where
  "demo_brake = \<lparr> bm_kind = BoundedAccel, bm_k_p = f_one, bm_k_v = f_one, bm_substeps = 1, bm_dt = f_one,
     bm_commit_steps = 1, bm_brake_steps = 1, bm_react_ticks = 0 \<rparr>"

definition f_16 :: f64 where "f_16 = F64 0x4030000000000000"
definition f_m16 :: f64 where "f_m16 = F64 0xc030000000000000"
definition f_ten :: f64 where "f_ten = F64 0x4024000000000000"

definition demo_cfg :: "FuseMode \<Rightarrow> FuseConfig" where
  "demo_cfg mode = \<lparr> fc_envelope_digest = replicate 32 0, fc_embodiment_digest = replicate 32 0, fc_calib_digest = None,
     fc_mode = mode, fc_kind = EePosition, fc_dim = 1, fc_pos_dim = 1, fc_horizon = 3, fc_exec = 3, fc_overlap = 0,
     fc_dt = f_one, fc_inv_dt = f_one, fc_inv_dt2 = f_one, fc_inv_dt3 = f_one,
     fc_norm_center = replicate 32 0, fc_inv_norm_scale = replicate 32 f_one, fc_norm_scale_iso = f_one,
     fc_box_lo = f_m16 # replicate 31 0, fc_box_hi = f_16 # replicate 31 0,
     fc_v_max = f_one, fc_a_max = f_16, fc_j_max = f_16, fc_reach_max = f_16, fc_step_max = f_one,
     fc_contact = None, fc_brake = demo_brake, fc_clamp = Project, fc_hyst = demo_hyst, fc_window_mask = 7,
     fc_tier0_enabled = TRIP_WORKSPACE OR TRIP_SPEED OR TRIP_BRAKE, fc_n_operators = 1,
     fc_calib = CalibrationC_DISARMED \<rparr>"

definition demo_init :: EpisodeInit where
  "demo_init = \<lparr> ei_episode_index = 0, ei_seed = 0, ei_delay_steps = 0, ei_exec = Sync \<rparr>"

definition demo_rt :: FuseRt where "demo_rt = FuseRt_reset FuseRt_new demo_init"

definition demo_obs :: "u32 \<Rightarrow> f64 \<Rightarrow> ObsView" where
  "demo_obs t p = \<lparr> ov_t = t, ov_pos = [p], ov_vel = Some [0], ov_aux = [], ov_ext = [] \<rparr>"

definition demo_chunk :: "f64 list \<Rightarrow> ChunkView" where
  "demo_chunk rows = \<lparr> cv_seq = 0, cv_t_emit = 0, cv_horizon = 3, cv_dim = 1, cv_exec_steps = 3, cv_data = rows \<rparr>"

definition demo_deliver :: "f64 list \<Rightarrow> TickInput" where
  "demo_deliver rows = \<lparr> ti_obs = demo_obs 0 0, ti_chunk = Some (demo_chunk rows), ti_idx = 0, ti_missed_ticks = 0,
     ti_ack = None, ti_schema_fault = False \<rparr>"

definition demo_tick :: "u32 \<Rightarrow> TickInput" where
  "demo_tick t = \<lparr> ti_obs = demo_obs t 0, ti_chunk = None, ti_idx = ucast t, ti_missed_ticks = 0,
     ti_ack = None, ti_schema_fault = False \<rparr>"

lemma demo_cfg_mode [simp]: "fc_mode (demo_cfg m) = m"
  by (simp add: demo_cfg_def)

lemma demo_cfg_wf: "FuseConfig_wf (demo_cfg m)"
proof -
  have "box_ok (f_m16 # replicate 31 0) (f_16 # replicate 31 0) 1"
    by (simp add: box_ok_def is_finite_def f_m16_def f_16_def f_mag_def inf_mag_def less_f64_def f_key_def f_sign_def is_nan_def)
  moreover have "CalibrationC_wf CalibrationC_DISARMED" by code_simp
  moreover have "(7 :: u64) = mask 3" by (simp add: mask_eq_exp_minus_1)
  ultimately show ?thesis
    unfolding FuseConfig_wf_def demo_cfg_def demo_hyst_def demo_brake_def
    by (simp add: chunk_consts ARMABLE_def TRIP_TIER0_SOFT_def trip_bit_defs)
qed

lemma demo_inv: "FuseRt_inv (demo_cfg m) demo_rt"
  unfolding demo_rt_def by (rule FuseRt_reset_inv [OF demo_cfg_wf FuseRt_new_parts])


lemma demo_box: "box_armed (demo_cfg Enforce)"
  by code_simp

lemma demo_pos_in_box: "in_fuse_box (demo_cfg m) [0]"
  unfolding in_fuse_box_def demo_cfg_def by code_simp

text \<open>A delivery with an acknowledgement, one with a broken schema, and one that starts outside the box.\<close>

definition demo_ack :: VerifiedAck where
  "demo_ack = \<lparr> va_decision = Resume, va_operator_slot = 0, va_nonce = 1, va_handoff_seq = 0 \<rparr>"

definition demo_resume :: TickInput where
  "demo_resume = demo_deliver [0, 0, 0] \<lparr> ti_ack := Some demo_ack \<rparr>"

definition demo_broken :: TickInput where
  "demo_broken = demo_tick 0 \<lparr> ti_schema_fault := True \<rparr>"

definition demo_held :: FuseRt where "demo_held = demo_rt \<lparr> rt_state := Held \<rparr>"

lemma demo_rt_fields [simp]:
  "rt_state demo_rt = Armed" "rt_seq demo_rt = 0" "rt_last_t demo_rt = 0" "rt_next_chunk_seq demo_rt = 0"
  "rt_handoff_seq demo_rt = 0" "rt_last_nonce demo_rt = replicate 8 0" "rt_rearms demo_rt = 0"
  "rt_clamp_streak demo_rt = 0" "rt_clamps demo_rt = 0" "win_bits (rt_window demo_rt) = 0"
  "ta_ticks (rt_tally demo_rt) = 0" "state_total (rt_tally demo_rt) = 0"
  by (simp_all add: demo_rt_def FuseRt_reset_def Window_clear_def MAX_OPERATORS_def Tally_default_def state_total_def)

lemma demo_reach: "fuse_reach cfg demo_rt"
  unfolding demo_rt_def by (rule reach_reset [OF reach_new])

lemma demo_held_inv: "FuseRt_inv (demo_cfg m) demo_held"
  using demo_inv [of m] by (simp add: demo_held_def FuseRt_inv_def)

lemma demo_guard_deliver: "guard (demo_cfg m) demo_rt (demo_deliver [0, 0, 0]) = 0"
  unfolding demo_cfg_def by code_simp

lemma demo_guard_resume: "guard (demo_cfg m) demo_held demo_resume = 0"
  unfolding demo_cfg_def by code_simp

lemma demo_guard_broken: "guard (demo_cfg m) demo_rt demo_broken \<noteq> 0"
  unfolding demo_cfg_def by code_simp

lemma demo_accepted: "accepted_ack demo_held (Some demo_ack) = Some demo_ack"
  by (simp add: accepted_ack_Some demo_held_def demo_ack_def MAX_OPERATORS_def)

lemma demo_second:
  "guard (demo_cfg Observe) (fst (decide (demo_cfg Observe) demo_rt (demo_deliver [0, 0, 0]))) (demo_tick 1) = 0"
proof -
  let ?rt = "fst (decide (demo_cfg Observe) demo_rt (demo_deliver [0, 0, 0]))"
  let ?q = "demo_rt \<lparr> rt_cur := rt_cur demo_rt \<lparr> cb_filled := True \<rparr>, rt_seq := 1, rt_next_chunk_seq := 1 \<rparr>"
  have g: "guard (demo_cfg Observe) demo_rt (demo_deliver [0, 0, 0]) = 0" by (rule demo_guard_deliver)
  have "ChunkBuf_view (rt_cur ?rt) \<noteq> None"
    using decide_observe_cur [OF demo_inv g] by (simp add: demo_deliver_def)
  then have "cb_filled (rt_cur ?rt)" by (auto simp: ChunkBuf_view_def split: if_splits)
  then have "guard (demo_cfg Observe) ?rt (demo_tick 1) = guard (demo_cfg Observe) ?q (demo_tick 1)"
    using g by (intro guard_cong) (simp_all add: decide_fields sat_inc_def fsm_pre_def tick_pre_def demo_deliver_def demo_obs_def)
  also have "guard (demo_cfg Observe) ?q (demo_tick 1) = 0"
  proof -
    have "\<not> guard_nonfinite (demo_tick 1)" by code_simp
    moreover have "\<not> guard_time ?q (demo_tick 1)"
      by (simp add: guard_time_def demo_tick_def demo_obs_def checked_add_def)
    ultimately show ?thesis
      by (simp add: guard_0 guard_schema_def demo_tick_def demo_obs_def demo_cfg_def demo_hyst_def
          ChunkBuf_is_filled_def chunk_consts)
  qed
  finally show ?thesis .
qed


text \<open>A chunk in flight, and a tick that finds the robot outside the box.\<close>

definition demo_ran :: FuseRt where
  "demo_ran = demo_rt \<lparr> rt_cur := ChunkBuf_copy_from (rt_cur demo_rt) (demo_chunk [0, 0, 0]) \<rparr>"

definition f_twenty :: f64 where "f_twenty = F64 0x4034000000000000"

definition demo_outside :: TickInput where
  "demo_outside = demo_tick 1 \<lparr> ti_obs := demo_obs 0 f_twenty \<rparr>"

lemma demo_chunk_wf: "ChunkView_wf (demo_chunk [a, b, c])"
  by (simp add: ChunkView_wf_def demo_chunk_def chunk_consts)

lemma demo_ran_view: "ChunkBuf_view (rt_cur demo_ran) = Some (demo_chunk [0, 0, 0])"
  using ChunkBuf_copy_from_view [OF demo_chunk_wf] by (simp add: demo_ran_def)

lemma demo_ran_inv: "FuseRt_inv (demo_cfg m) demo_ran"
proof -
  have "buf_ok (demo_cfg m) (ChunkBuf_copy_from (rt_cur demo_rt) (demo_chunk [0, 0, 0]))"
  proof (rule buf_ok_copy_from [OF _ demo_chunk_wf])
    show "buf_ok (demo_cfg m) (rt_cur demo_rt)" using demo_inv [of m] by (simp add: FuseRt_inv_def)
  qed (simp_all add: demo_chunk_def demo_cfg_def)
  then show ?thesis using demo_inv [of m] by (simp add: FuseRt_inv_def demo_ran_def)
qed

lemma demo_ran_guard: "guard (demo_cfg m) demo_ran demo_outside = 0"
proof -
  have "\<not> guard_nonfinite demo_outside" by code_simp
  moreover have "\<not> guard_time demo_ran demo_outside"
    by (simp add: guard_time_def demo_outside_def demo_obs_def demo_ran_def)
  moreover have "cb_filled (rt_cur demo_ran)" by (simp add: demo_ran_def ChunkBuf_copy_from_def Let_def)
  ultimately show ?thesis
    by (simp add: guard_0 guard_schema_def demo_outside_def demo_tick_def demo_obs_def demo_cfg_def demo_hyst_def
        ChunkBuf_is_filled_def chunk_consts)
qed

lemma demo_pos_field: "rt_pos demo_rt = replicate 32 0"
  by (simp add: demo_rt_def FuseRt_reset_def MAX_POS_def)

lemma demo_vel_field: "rt_vel demo_rt = replicate 32 0"
  by (simp add: demo_rt_def FuseRt_reset_def MAX_POS_def)

lemma demo_ingested:
  assumes "rt_pos rt = replicate 32 0" "rt_vel rt = replicate 32 0" "ti_obs inp = demo_obs t x"
  shows "take (live_pos_dim (demo_cfg m)) (rt_pos (ingest (demo_cfg m) rt inp)) = [x]"
    "take (live_pos_dim (demo_cfg m)) (rt_vel (ingest (demo_cfg m) rt inp)) = [0]"
proof -
  have l: "live_pos_dim (demo_cfg m) = 1" by (simp add: live_pos_dim_def demo_cfg_def MAX_POS_def)
  show "take (live_pos_dim (demo_cfg m)) (rt_pos (ingest (demo_cfg m) rt inp)) = [x]"
    using assms by (simp add: l copy_row_def blit_def demo_obs_def)
  show "take (live_pos_dim (demo_cfg m)) (rt_vel (ingest (demo_cfg m) rt inp)) = [0]"
    using assms by (simp add: ingest_def Let_def l copy_row_def blit_def demo_obs_def)
qed

text \<open>The float operations that the brake checks below perform.\<close>

lemma demo_ops [simp]:
  "(0 :: f64) + 0 = 0" "(0 :: f64) - 0 = 0" "(0 :: f64) * 0 = 0" "f_one * 0 = 0" "0 * f_one = 0" "fmath_sqrt 0 = 0"
  "0 / (f_two * f_16) = 0" "f_of_int 0 = 0" "0 - f_m16 = f_16" "f_16 - 0 = f_16" "\<not> f_16 < f_16" "f_16 < f_inf"
  "0 \<le> f_16" "\<not> f_inf < f_16" "f_one / f_one = f_one"
  by code_simp+

definition f_m4 :: f64 where "f_m4 = F64 0xc010000000000000"
definition f_36 :: f64 where "f_36 = F64 0x4042000000000000"

lemma demo_ops_outside [simp]:
  "f_twenty - 0 = f_twenty" "f_twenty - f_m16 = f_36" "f_16 - f_twenty = f_m4" "f_m4 - 0 = f_m4"
  "\<not> f_36 < f_m4" "\<not> f_inf < f_m4" "\<not> 0 \<le> f_m4"
  by code_simp+

lemmas demo_brake_simps = brake_feasible_def closed_form_def radius_def slack_r_def plant_dim_def demo_cfg_def demo_brake_def
  demo_chunk_def fmath_norm_def fmath_min_def closed_step_def commanded_velocity_def ChunkView_action_def slice_def chunk_consts

lemma demo_brake_outside: "\<not> bo_feasible (brake_feasible (demo_cfg m) [f_twenty] [0] (demo_chunk [0, 0, 0]) 1)"
  by (simp add: demo_brake_simps)

lemma demo_brake_inside: "bo_feasible (brake_feasible (demo_cfg m) [0] [0] (demo_chunk [0, 0, 0]) 0)"
  by (simp add: demo_brake_simps)

lemma demo_ran_margin: "\<not> 0 \<le> sv_brake_margin (snd (decide (demo_cfg m) demo_ran demo_outside))"
proof -
  have n: "ti_chunk demo_outside = None" by (simp add: demo_outside_def demo_tick_def)
  have p: "take (live_pos_dim (demo_cfg m)) (rt_pos (ingest (demo_cfg m) demo_ran demo_outside)) = [f_twenty]"
    "take (live_pos_dim (demo_cfg m)) (rt_vel (ingest (demo_cfg m) demo_ran demo_outside)) = [0]"
    by (rule demo_ingested; simp add: demo_ran_def demo_pos_field demo_vel_field demo_outside_def)+
  have "\<not> bo_feasible (brake_check (demo_cfg m) (ingest (demo_cfg m) demo_ran demo_outside) (Some (demo_chunk [0, 0, 0])) 1)"
    using demo_brake_outside [of m] by (simp add: brake_check_def p del: ingest_fields)
  moreover have "unat (ti_idx demo_outside) = 1" by (simp add: demo_outside_def demo_tick_def)
  ultimately show ?thesis
    using tick_brake_intra [OF n demo_ran_view, of "demo_cfg m"]
    by (simp add: decide_trips_bits(4) [OF demo_ran_guard] brake_check_feasible del: ingest_fields)
qed

lemma demo_ran_running: "running_state (rt_state demo_ran)"
  by (simp add: demo_ran_def running_state_def)

text \<open>A delivery that gives the fuse no cause.\<close>

lemma demo_quiet:
  "breaks_nothing (demo_cfg m) (demo_obs 0 0) (demo_chunk [0, 0, 0])"
  "bo_feasible (brake_check (demo_cfg m) (ingest (demo_cfg m) demo_rt (demo_deliver [0, 0, 0])) (Some (demo_chunk [0, 0, 0])) 0)"
  "f_key f_16 \<noteq> 0"
proof -
  have arm: "\<not> arm_accel (Arm_resolve (demo_cfg m) (demo_obs 0 0))" "\<not> arm_jerk (Arm_resolve (demo_cfg m) (demo_obs 0 0))"
    "\<not> arm_reach (Arm_resolve (demo_cfg m) (demo_obs 0 0))" "\<not> arm_contact (Arm_resolve (demo_cfg m) (demo_obs 0 0))"
    by (simp_all add: Arm_resolve_def Let_def demo_cfg_def demo_obs_def has_bit_def trip_bit_defs)
  have b: "box_dims (demo_cfg m) (demo_obs 0 0) 1 = 1"
    by (simp add: box_dims_def demo_cfg_def demo_obs_def MAX_POS_def)
  have row: "ChunkView_action (demo_chunk [0, 0, 0]) i = [0]" if "i < 3" for i
  proof -
    have "i = 0 \<or> i = 1 \<or> i = 2" using that by arith
    then show ?thesis by (auto simp: ChunkView_action_def slice_def demo_chunk_def)
  qed
  have dims: "unat (cv_horizon (demo_chunk [0, 0, 0])) = 3" "unat (cv_dim (demo_chunk [0, 0, 0])) = 1"
    by (simp_all add: demo_chunk_def)
  have rr: "raw_row (demo_chunk [0, 0, 0]) 1 i = [0]" if "i < 3" for i
    using that row raw_row_action [OF demo_chunk_wf, of i 0 0 0] by (simp add: dims)
  have q: "take 1 (raw_q0 (demo_cfg m) (demo_obs 0 0) (demo_chunk [0, 0, 0])) = [0]"
    unfolding raw_q0_def dims b chunk_q0_def blit_def by (simp add: demo_obs_def)
  have step: "step_len (raw_q0 (demo_cfg m) (demo_obs 0 0) (demo_chunk [0, 0, 0])) (demo_chunk [0, 0, 0]) 1 i = 0" if "i < 3" for i
    using that rr [of i] rr [of "i - 1"] rr [of 0] q by (cases i) (simp_all add: step_len_def fmath_dist_def)
  have l: "fc_box_lo (demo_cfg m) ! 0 = f_m16" "fc_box_hi (demo_cfg m) ! 0 = f_16" "fc_step_max (demo_cfg m) = f_one"
    by (simp_all add: demo_cfg_def)
  have z: "\<not> (0 :: f64) < f_m16" "\<not> f_16 < (0 :: f64)" "\<not> f_one < (0 :: f64)" by code_simp+
  have "\<not> breaks_workspace (demo_cfg m) (demo_obs 0 0) (demo_chunk [0, 0, 0])"
    using z row by (auto simp: breaks_workspace_def dims b [simplified] l)
  moreover have "\<not> breaks_speed (demo_cfg m) (demo_obs 0 0) (demo_chunk [0, 0, 0])"
    using z step [simplified] by (auto simp: breaks_speed_def dims l)
  ultimately show "breaks_nothing (demo_cfg m) (demo_obs 0 0) (demo_chunk [0, 0, 0])"
    by (simp add: breaks_nothing_def breaks_accel_def breaks_jerk_def breaks_reach_def breaks_contact_def arm)
  have p: "take (live_pos_dim (demo_cfg m)) (rt_pos (ingest (demo_cfg m) demo_rt (demo_deliver [0, 0, 0]))) = [0]"
    "take (live_pos_dim (demo_cfg m)) (rt_vel (ingest (demo_cfg m) demo_rt (demo_deliver [0, 0, 0]))) = [0]"
    by (rule demo_ingested; simp add: demo_pos_field demo_vel_field demo_deliver_def)+
  show "bo_feasible (brake_check (demo_cfg m) (ingest (demo_cfg m) demo_rt (demo_deliver [0, 0, 0])) (Some (demo_chunk [0, 0, 0])) 0)"
    using demo_brake_inside [of m] by (simp add: brake_check_def p del: ingest_fields)
  show "f_key f_16 \<noteq> 0" by code_simp
qed

subsection \<open>A detector\<close>

definition demo_cal :: CalibrationC where
  "demo_cal = CalibrationC_DISARMED \<lparr> cc_mask := 3, cc_gate := \<lparr> gs_n_terms = 1, gs_terms = 3 # replicate 7 0 \<rparr>, cc_tau := f_one \<rparr>"

definition demo_scores :: Scores where
  "demo_scores = Scores_default \<lparr> sc_z := [f_ten, f_16] @ replicate 10 0, sc_valid := 3 \<rparr>"

lemma demo_gate_wf: "GateSpec_wf (cc_gate demo_cal)"
proof -
  have "(if i < 1 then (3 # replicate 7 0) ! i \<noteq> (0 :: u32) \<and> (3 # replicate 7 0) ! i < (4096 :: u32)
      else (3 # replicate 7 0) ! i = (0 :: u32))" if "i < 8" for i :: nat
    using that by (cases i) (simp_all add: nth_Cons')
  then show ?thesis by (simp add: GateSpec_wf_def demo_cal_def MAX_TERMS_def)
qed

lemma demo_scores_ok: "\<forall>j \<in> channels (cc_mask demo_cal AND sc_valid demo_scores). \<not> is_nan (sc_z demo_scores ! j)"
proof -
  have "list_all (\<lambda>x. \<not> is_nan x) (sc_z demo_scores)" "length (sc_z demo_scores) = NFEAT" by code_simp+
  then show ?thesis by (simp add: channels_def list_all_length)
qed

subsection \<open>An envelope\<close>

definition demo_embodiment :: EmbodimentManifest where
  "demo_embodiment = \<lparr> em_id = ''demo'', em_units = ''m'', em_action_kind = EePosition, em_action_dim = 1, em_pos_dim = 1,
     em_horizon = 3, em_exec_steps = 3, em_control_hz_num = 1, em_control_hz_den = 1, em_provides_vel = True,
     em_horizon_ticks = 300, em_norm_center = [0], em_norm_scale = [f_one], em_aux_layout = [], em_ext_names = [] \<rparr>"

definition demo_env :: SafetyEnvelope where
  "demo_env = \<lparr> se_schema = SCHEMA, se_envelope_id = ''demo'', se_embodiment = demo_embodiment,
     se_box_lo = [f_m16], se_box_hi = [f_16], se_margin = f_one, se_v_max = f_one, se_a_max = f_16, se_j_max = f_16,
     se_reach_max = f_16, se_contact = None, se_brake = demo_brake, se_clamp_mode = Project, se_hysteresis = demo_hyst,
     se_tier0_enabled = [''workspace'', ''speed'', ''brake''], se_gate = [''acc|path_ineff'', ''tce''], se_operators = [],
     se_fit = None, se_fail_closed = True \<rparr>"

text \<open>Stand-ins for the two digests.\<close>

definition demo_digest :: "SafetyEnvelope \<Rightarrow> string" where "demo_digest e = replicate 64 (CHR ''a'')"
definition demo_digest' :: "EmbodimentManifest \<Rightarrow> string" where "demo_digest' m = replicate 64 (CHR ''b'')"

lemma demo_env_valid: "SafetyEnvelope_validate demo_env = Inr ()"
  by code_simp

lemma demo_env_compiles: "\<exists>cfg. SafetyEnvelope_compile demo_digest demo_digest' demo_env Enforce None = Inr cfg"
proof -
  have "\<not> isl (GateSpec_parse (se_gate demo_env))" "\<not> isl (tier0_mask demo_env)" by code_simp+
  then obtain g t where "GateSpec_parse (se_gate demo_env) = Inr g" "tier0_mask demo_env = Inr t"
    by (cases "GateSpec_parse (se_gate demo_env)"; cases "tier0_mask demo_env") auto
  then show ?thesis
    using demo_env_valid by (simp add: SafetyEnvelope_compile_def Let_def map_gate_err_def)
qed

subsection \<open>A second-order plant\<close>

definition demo_pd :: FuseConfig where
  "demo_pd = demo_cfg Enforce \<lparr> fc_brake := demo_brake \<lparr> bm_kind := PdSecondOrder \<rparr> \<rparr>"

lemma demo_pd_states: "pd_states demo_pd (0 # a) k \<lparr> pl_p = [0], pl_v = [0] \<rparr> = replicate k \<lparr> pl_p = [0], pl_v = [0] \<rparr>"
  by (induction k) (simp_all add: pd_substep_def pd_coord_def demo_pd_def demo_brake_def Let_def)

lemma demo_zero_finite: "all_finite [0]" by code_simp

lemma demo_pd_trace:
  "pd_trace demo_pd \<lparr> pl_p = [0], pl_v = [0] \<rparr> (demo_chunk [0, 0, 0]) 0 = replicate 2 \<lparr> pl_p = [0], pl_v = [0] \<rparr>"
proof -
  have h: "pd_hold demo_pd \<lparr> pl_p = [0], pl_v = [0] \<rparr> = 0 # replicate 31 0"
    unfolding demo_pd_def demo_cfg_def by code_simp
  have r: "ChunkView_action (demo_chunk [0, 0, 0]) 0 = [0]" by (simp add: ChunkView_action_def slice_def demo_chunk_def)
  have k: "unat (bm_substeps (fc_brake demo_pd)) = 1" "[0..<unat (bm_commit_steps (fc_brake demo_pd))] = [0]"
    "unat (bm_brake_steps (fc_brake demo_pd)) = 1"
    by (simp_all add: demo_pd_def demo_brake_def)
  have s: "pd_states demo_pd (0 # a) 1 \<lparr> pl_p = [0], pl_v = [0] \<rparr> = [\<lparr> pl_p = [0], pl_v = [0] \<rparr>]" for a
    using demo_pd_states [of a 1] by (simp del: pd_states.simps)
  show ?thesis
    unfolding pd_trace_def Let_def k pd_rows.simps r s
    by (simp add: h s numeral_2_eq_2 del: pd_states.simps One_nat_def)
qed

end
