(* ===== verification/Canon.thy ===== *)
theory Canon
  imports Float64 "HOL-Library.Char_ord" "HOL-Library.List_Lexorder"
begin

text \<open>
  \<open>lictor-canon\<close>: the canonical JSON of the profile \<open>jcs-floatfree/v1\<close> (\<open>jcs.rs\<close>), the text
  encoding of floats and \<open>floatify\<close> (\<open>f64enc.rs\<close>) and the digests over canonical bytes
  (\<open>digest.rs\<close>).  A Rust \<open>String\<close> is the list of its UTF-8 bytes, as a char list.  A \<open>serde_json\<close>
  map is an ordered map: here an association list whose keys increase in byte order, which
  \<open>Value_wf\<close> states.  SHA-256 with its hexadecimal output (\<open>sha2\<close>, \<open>hex\<close>) and the base64 engine are
  arguments of the definitions that use them.  The main lemma says that canonical bytes determine
  the value: two well-formed values with the same canonical text are equal.
\<close>

subsection \<open>Values\<close>

datatype Number = NInt int | NFloat f64

datatype Value = VNull | VBool bool | VNum Number | VStr string | VArr "Value list" | VObj "(string \<times> Value) list"

datatype CanonError = FloatInBody string | IntegerOutOfRange string | BadKey string | BadF64 string | Serialize string

fun CanonError_text :: "CanonError \<Rightarrow> string" where
  "CanonError_text (FloatInBody s) = ''float in canonical body at '' @ s"
| "CanonError_text (IntegerOutOfRange s) = ''integer out of +-2^53-1 at '' @ s"
| "CanonError_text (BadKey s) = ''key not printable ascii [!-~]+: '' @ s"
| "CanonError_text (BadF64 s) = ''bad f64 encoding: '' @ s"
| "CanonError_text (Serialize s) = ''serialize: '' @ s"

definition CANONICAL_ID :: string where "CANONICAL_ID = ''jcs-floatfree/v1''"

definition MAX_SAFE_INTEGER :: int where "MAX_SAFE_INTEGER = 2 ^ 53 - 1"

fun Value_wf :: "Value \<Rightarrow> bool" where
  "Value_wf (VArr a) = list_all Value_wf a"
| "Value_wf (VObj m) = (sorted_wrt (<) (map fst m) \<and> list_all (\<lambda>(k, c). Value_wf c) m)"
| "Value_wf v = True"

subsection \<open>Strings and integers\<close>

text \<open>\<open>to_string\<close> on integers.\<close>

fun digits :: "nat \<Rightarrow> string" where
  "digits n = (if n < 10 then [char_of (48 + n)] else digits (n div 10) @ [char_of (48 + n mod 10)])"

declare digits.simps [simp del]

definition show_int :: "int \<Rightarrow> string" where
  "show_int i = (if i < 0 then CHR ''-'' # digits (nat (- i)) else digits (nat i))"

definition hex_digit :: "nat \<Rightarrow> char" where
  "hex_digit n = (if n < 10 then char_of (48 + n) else char_of (87 + n))"

definition QUOTE :: char where "QUOTE = CHR 0x22"
definition BACKSLASH :: char where "BACKSLASH = CHR 0x5C"

definition escape :: "char \<Rightarrow> string" where
  "escape c =
     (if c = QUOTE then [BACKSLASH, QUOTE]
      else if c = BACKSLASH then [BACKSLASH, BACKSLASH]
      else if c = CHR 0x08 then [BACKSLASH, CHR ''b'']
      else if c = CHR 0x0C then [BACKSLASH, CHR ''f'']
      else if c = CHR 0x0A then [BACKSLASH, CHR ''n'']
      else if c = CHR 0x0D then [BACKSLASH, CHR ''r'']
      else if c = CHR 0x09 then [BACKSLASH, CHR ''t'']
      else if of_char c < (32 :: nat) then
        [BACKSLASH, CHR ''u'', CHR ''0'', CHR ''0'', hex_digit (of_char c div 16), hex_digit (of_char c mod 16)]
      else [c])"

definition write_string :: "string \<Rightarrow> string" where
  "write_string s = QUOTE # concat (map escape s) @ [QUOTE]"

text \<open>\<open>k.encode_utf16()\<close>: the code points of the UTF-8 bytes, then their 16-bit units.\<close>

fun utf8_points :: "nat list \<Rightarrow> nat list" where
  "utf8_points (b # c # d # e # r) =
     (if b < 0x80 then b # utf8_points (c # d # e # r)
      else if b < 0xE0 then (b mod 32 * 64 + c mod 64) # utf8_points (d # e # r)
      else if b < 0xF0 then (b mod 16 * 4096 + c mod 64 * 64 + d mod 64) # utf8_points (e # r)
      else (b mod 8 * 262144 + c mod 64 * 4096 + d mod 64 * 64 + e mod 64) # utf8_points r)"
| "utf8_points [b, c, d] =
     (if b < 0x80 then b # utf8_points [c, d]
      else if b < 0xE0 then (b mod 32 * 64 + c mod 64) # utf8_points [d]
      else [b mod 16 * 4096 + c mod 64 * 64 + d mod 64])"
| "utf8_points [b, c] =
     (if b < 0x80 then b # utf8_points [c] else [b mod 32 * 64 + c mod 64])"
| "utf8_points [b] = [b]"
| "utf8_points [] = []"

definition utf16_units :: "nat \<Rightarrow> nat list" where
  "utf16_units p = (if p < 0x10000 then [p]
     else [0xD800 + (p - 0x10000) div 0x400, 0xDC00 + (p - 0x10000) mod 0x400])"

definition encode_utf16 :: "string \<Rightarrow> nat list" where
  "encode_utf16 s = concat (map utf16_units (utf8_points (map of_char s)))"

subsection \<open>The canonical writer\<close>

text \<open>The first error of a list of results, or all the values.\<close>

fun collect :: "('e + 'a) list \<Rightarrow> 'e + 'a list" where
  "collect [] = Inr []"
| "collect (Inl e # rs) = Inl e"
| "collect (Inr x # rs) = (case collect rs of Inl e \<Rightarrow> Inl e | Inr xs \<Rightarrow> Inr (x # xs))"

definition map_ok :: "('a \<Rightarrow> 'b) \<Rightarrow> 'e + 'a \<Rightarrow> 'e + 'b" where
  "map_ok f r = (case r of Inl e \<Rightarrow> Inl e | Inr x \<Rightarrow> Inr (f x))"

definition index_path :: "string \<Rightarrow> nat \<Rightarrow> string" where
  "index_path path i = path @ ''['' @ digits i @ '']''"

definition key_path :: "string \<Rightarrow> string \<Rightarrow> string" where
  "key_path path k = path @ ''.'' @ k"

text \<open>
  The source appends to one output vector and stops at the first error, which discards the vector;
  here each child is written to a string of its own and the first error in writing order wins.
\<close>

definition key_text :: "string \<Rightarrow> string \<Rightarrow> string" where
  "key_text k s = write_string k @ CHR '':'' # s"

function write_value :: "string \<Rightarrow> Value \<Rightarrow> CanonError + string" where
  "write_value path VNull = Inr ''null''"
| "write_value path (VBool b) = Inr (if b then ''true'' else ''false'')"
| "write_value path (VNum (NInt i)) =
     (if MAX_SAFE_INTEGER < \<bar>i\<bar> then Inl (IntegerOutOfRange path) else Inr (show_int i))"
| "write_value path (VNum (NFloat x)) = Inl (FloatInBody path)"
| "write_value path (VStr s) = Inr (write_string s)"
| "write_value path (VArr a) =
     map_ok (\<lambda>ps. CHR ''['' # join_with (CHR '','') ps @ '']'')
       (collect (map (\<lambda>i. write_value (index_path path i) (a ! i)) [0..<length a]))"
| "write_value path (VObj m) =
     map_ok (\<lambda>ps. CHR ''{'' # join_with (CHR '','') ps @ ''}'')
       (collect (map (\<lambda>(k, c). map_ok (key_text k) (write_value (key_path path k) c))
          (sort_key (\<lambda>(k, c). encode_utf16 k) m)))"
  by pat_completeness auto
termination
proof (relation "measure (\<lambda>(path, v). size v)", goal_cases)
  case (2 path a i)
  then have "a ! i \<in> set a" by simp
  then have "size (a ! i) \<le> size_list size a" by (simp add: size_list_estimation')
  then show ?case by simp
next
  case (3 path m z k c)
  then have "(k, c) \<in> set m" by (simp add: prod_eq_iff)
  then have "size_prod (\<lambda>_. 0) size (k, c) \<le> size_list (size_prod (\<lambda>_. 0) size) m"
    by (rule size_list_estimation') simp
  then show ?case by simp
qed simp

definition canon :: "Value \<Rightarrow> CanonError + string" where
  "canon v = write_value ''$'' v"

subsection \<open>Keys\<close>

definition key_ok :: "string \<Rightarrow> bool" where
  "key_ok k \<longleftrightarrow> k \<noteq> [] \<and> list_all (\<lambda>c. CHR 0x21 \<le> c \<and> c \<le> CHR 0x7E) k"

function walk_keys :: "string \<Rightarrow> Value \<Rightarrow> CanonError + unit" where
  "walk_keys path (VObj m) =
     map_ok (\<lambda>_. ()) (collect (map (\<lambda>(k, c).
       if \<not> key_ok k then Inl (BadKey (key_path path k)) else walk_keys (key_path path k) c) m))"
| "walk_keys path (VArr a) =
     map_ok (\<lambda>_. ()) (collect (map (\<lambda>i. walk_keys (index_path path i) (a ! i)) [0..<length a]))"
| "walk_keys path VNull = Inr ()"
| "walk_keys path (VBool b) = Inr ()"
| "walk_keys path (VNum n) = Inr ()"
| "walk_keys path (VStr s) = Inr ()"
  by pat_completeness auto
termination
proof (relation "measure (\<lambda>(path, v). size v)", goal_cases)
  case (2 path m z k c)
  then have "(k, c) \<in> set m" by (simp add: prod_eq_iff)
  then have "size_prod (\<lambda>_. 0) size (k, c) \<le> size_list (size_prod (\<lambda>_. 0) size) m"
    by (rule size_list_estimation') simp
  then show ?case by simp
next
  case (3 path a i)
  then have "a ! i \<in> set a" by simp
  then have "size (a ! i) \<le> size_list size a" by (simp add: size_list_estimation')
  then show ?case by simp
qed simp

definition check_keys :: "Value \<Rightarrow> CanonError + unit" where
  "check_keys v = walk_keys ''$'' v"

text \<open>\<open>canon_of\<close> and \<open>digest_of\<close> after \<open>serde_json::to_value\<close>; \<open>sha\<close> is SHA-256 as hexadecimal text.\<close>

definition canon_of :: "Value \<Rightarrow> CanonError + string" where
  "canon_of v = (case check_keys v of Inl e \<Rightarrow> Inl e | Inr _ \<Rightarrow> canon v)"

definition digest_of :: "(string \<Rightarrow> string) \<Rightarrow> Value \<Rightarrow> CanonError + string" where
  "digest_of sha v = map_ok sha (canon_of v)"

definition sha256_jcs :: "(string \<Rightarrow> string) \<Rightarrow> Value \<Rightarrow> CanonError + string" where
  "sha256_jcs sha v = map_ok sha (canon v)"

subsection \<open>Floats as text\<close>

definition f64_to_hex :: "f64 \<Rightarrow> string" where
  "f64_to_hex x = map (\<lambda>i. hex_digit (unat (to_bits x) div 16 ^ (15 - i) mod 16)) [0..<16]"

definition hex_val :: "char \<Rightarrow> nat" where
  "hex_val c = (if c \<le> CHR ''9'' then of_char c - 48 else of_char c - 87)"

definition is_lower_hex :: "char \<Rightarrow> bool" where
  "is_lower_hex c \<longleftrightarrow> (CHR ''0'' \<le> c \<and> c \<le> CHR ''9'') \<or> (CHR ''a'' \<le> c \<and> c \<le> CHR ''f'')"

definition f64_from_hex :: "string \<Rightarrow> CanonError + f64" where
  "f64_from_hex s =
     (if length s \<noteq> 16 \<or> \<not> list_all is_lower_hex s then Inl (BadF64 s)
      else Inr (F64 (of_nat (foldl (\<lambda>a c. 16 * a + hex_val c) 0 s))))"

fun floatify :: "Value \<Rightarrow> Value" where
  "floatify (VNum (NFloat x)) = VObj [(''f64'', VStr (f64_to_hex x))]"
| "floatify (VNum (NInt i)) = VNum (NInt i)"
| "floatify (VArr a) = VArr (map floatify a)"
| "floatify (VObj m) = VObj (map (\<lambda>(k, c). (k, floatify c)) m)"
| "floatify VNull = VNull"
| "floatify (VBool b) = VBool b"
| "floatify (VStr s) = VStr s"

subsection \<open>Decimal text\<close>

definition is_digit :: "char \<Rightarrow> bool" where
  "is_digit c \<longleftrightarrow> CHR ''0'' \<le> c \<and> c \<le> CHR ''9''"

lemma is_digit_code: "is_digit c \<longleftrightarrow> 48 \<le> (of_char c :: nat) \<and> (of_char c :: nat) \<le> 57"
  by (simp add: is_digit_def less_eq_char_def)

lemma digits_all: "list_all is_digit (digits n)"
proof (induction n rule: digits.induct)
  case (1 n)
  then show ?case
    by (subst digits.simps) (cases "n < 10"; simp add: is_digit_code [of "char_of m" for m])
qed

lemma digits_nonempty [simp]: "digits n \<noteq> []"
  by (subst digits.simps) simp

definition digits_val :: "string \<Rightarrow> nat" where
  "digits_val s = foldl (\<lambda>a c. 10 * a + (of_char c - 48)) 0 s"

lemma digits_val [simp]: "digits_val (digits n) = n"
proof (induction n rule: digits.induct)
  case (1 n)
  then show ?case by (subst digits.simps) (auto simp: digits_val_def)
qed

text \<open>What may follow a value in canonical text: the end, a comma or a closing bracket.\<close>

definition stops :: "string \<Rightarrow> bool" where
  "stops r \<longleftrightarrow> r = [] \<or> hd r \<in> {CHR '','', CHR '']'', CHR ''}''}"

lemma takeWhile_digits:
  assumes "stops r" shows "takeWhile is_digit (digits n @ r) = digits n"
proof -
  have "takeWhile is_digit r = []"
    using assms by (cases r) (auto simp: stops_def is_digit_code)
  then show ?thesis
    using digits_all [of n] by (simp add: takeWhile_append2 list_all_iff)
qed

lemma digits_unique:
  assumes "digits n @ r = digits m @ s" "stops r" "stops s"
  shows "n = m \<and> r = s"
proof -
  have "digits n = digits m"
    using takeWhile_digits [OF assms(2), of n] takeWhile_digits [OF assms(3), of m] assms(1) by simp
  moreover from this have "n = m" by (metis digits_val)
  ultimately show ?thesis using assms(1) by simp
qed

lemma hd_digits: "is_digit (hd (digits n))"
  using digits_all [of n] by (cases "digits n") auto

lemma show_int_hd: "show_int i = c # r \<Longrightarrow> c = CHR ''-'' \<or> is_digit c"
  using hd_digits [of "nat i"] by (auto simp: show_int_def split: if_splits)

lemma digits_not_minus: "digits k @ x \<noteq> CHR ''-'' # y"
  using hd_digits [of k] by (cases "digits k") (auto simp: is_digit_code)

lemma show_int_unique:
  assumes "show_int i @ r = show_int j @ s" "stops r" "stops s"
  shows "i = j \<and> r = s"
proof (cases "i < 0")
  case True
  then have "j < 0" using assms(1) digits_not_minus [of "nat j" s, symmetric] by (auto simp: show_int_def split: if_splits)
  with True show ?thesis
    using assms(1) \<open>j < 0\<close> digits_unique [OF _ assms(2,3), of "nat (- i)" "nat (- j)"]
    by (simp add: show_int_def nat_eq_iff)
next
  case False
  then have "\<not> j < 0" using assms(1) digits_not_minus [of "nat i" r] by (auto simp: show_int_def split: if_splits)
  with False show ?thesis
    using assms(1) digits_unique [OF _ assms(2,3), of "nat i" "nat j"] by (simp add: show_int_def nat_eq_iff)
qed

subsection \<open>Escaped strings\<close>

lemma hex_val_digit: "k < 16 \<Longrightarrow> hex_val (hex_digit k) = k"
proof -
  have "\<forall>k \<in> set [0..<16]. hex_val (hex_digit k) = k" by code_simp
  then show "k < 16 \<Longrightarrow> hex_val (hex_digit k) = k" by simp
qed

lemma hex_digit_inj: "hex_digit m = hex_digit n \<Longrightarrow> m < 16 \<Longrightarrow> n < 16 \<Longrightarrow> m = n"
  by (metis hex_val_digit)

text \<open>The three shapes of an escaped character.\<close>

definition SHORT :: "(char \<times> char) list" where
  "SHORT = [(QUOTE, QUOTE), (BACKSLASH, BACKSLASH), (CHR 0x08, CHR ''b''), (CHR 0x0C, CHR ''f''), (CHR 0x0A, CHR ''n''),
     (CHR 0x0D, CHR ''r''), (CHR 0x09, CHR ''t'')]"

lemma escape_cases:
  obtains (short) x where "(c, x) \<in> set SHORT" "escape c = [BACKSLASH, x]"
  | (unicode) "c \<notin> fst ` set SHORT" "of_char c < (32 :: nat)"
      "escape c = [BACKSLASH, CHR ''u'', CHR ''0'', CHR ''0'', hex_digit (of_char c div 16), hex_digit (of_char c mod 16)]"
  | (plain) "c \<notin> fst ` set SHORT" "escape c = [c]"
proof (cases "c \<in> fst ` set SHORT")
  case True
  then obtain x where x: "(c, x) \<in> set SHORT" by auto
  have "\<forall>(c, x) \<in> set SHORT. escape c = [BACKSLASH, x]" by code_simp
  then show ?thesis using x by (intro short) auto
next
  case False
  then have n: "c \<noteq> QUOTE" "c \<noteq> BACKSLASH" "c \<noteq> CHR 0x08" "c \<noteq> CHR 0x0C" "c \<noteq> CHR 0x0A" "c \<noteq> CHR 0x0D" "c \<noteq> CHR 0x09"
    unfolding SHORT_def by force+
  show ?thesis
  proof (cases "of_char c < (32 :: nat)")
    case True
    with n show ?thesis by (intro unicode [OF False]) (simp_all add: escape_def)
  next
    case f: False
    with n show ?thesis by (intro plain [OF False]) (simp add: escape_def)
  qed
qed

text \<open>Reading one escaped character back.\<close>

definition unescape :: "string \<Rightarrow> char \<times> string" where
  "unescape s = (if hd s \<noteq> BACKSLASH then (hd s, tl s)
     else if s ! 1 = CHR ''u'' then (char_of (16 * hex_val (s ! 4) + hex_val (s ! 5)), drop 6 s)
     else (fst (SHORT ! the (position (\<lambda>(c, x). x = s ! 1) SHORT)), drop 2 s))"

lemma unescape_escape: "unescape (escape c @ r) = (c, r)"
proof (cases c rule: escape_cases)
  case (short x)
  have "\<forall>(c, x) \<in> set SHORT. x \<noteq> CHR ''u'' \<and> fst (SHORT ! the (position (\<lambda>(c, y). y = x) SHORT)) = c" by code_simp
  then show ?thesis using short by (auto simp: unescape_def)
next
  case unicode
  have "BACKSLASH = hd (escape c @ r)" using unicode by simp
  moreover have "16 * hex_val (hex_digit (of_char c div 16)) + hex_val (hex_digit (of_char c mod 16)) = of_char c"
    using unicode(2) by (subst (1 2) hex_val_digit) simp_all
  ultimately show ?thesis using unicode(3) by (simp add: unescape_def)
next
  case plain
  then have "c \<noteq> BACKSLASH" unfolding SHORT_def by force
  with plain show ?thesis by (simp add: unescape_def)
qed

lemma escape_unique: "escape c @ x = escape d @ y \<Longrightarrow> c = d \<and> x = y"
  by (metis prod.inject unescape_escape)

lemma escape_not_quote: "escape c @ x \<noteq> QUOTE # y"
proof -
  have q: "BACKSLASH \<noteq> QUOTE" by (simp add: QUOTE_def BACKSLASH_def)
  have "(QUOTE, QUOTE) \<in> set SHORT" by (simp add: SHORT_def)
  then show ?thesis using q by (cases c rule: escape_cases) force+
qed

lemma escapes_unique:
  "concat (map escape s) @ QUOTE # r = concat (map escape t) @ QUOTE # u \<Longrightarrow> s = t \<and> r = u"
proof (induction s arbitrary: t)
  case Nil
  show ?case
  proof (cases t)
    case (Cons d t')
    with Nil show ?thesis using escape_not_quote [of d "concat (map escape t') @ QUOTE # u" r] by simp
  qed (use Nil in simp)
next
  case (Cons c s)
  show ?case
  proof (cases t)
    case Nil
    with Cons.prems show ?thesis using escape_not_quote [of c] by simp
  next
    case t: (Cons d t')
    have "escape c @ (concat (map escape s) @ QUOTE # r) = escape d @ (concat (map escape t') @ QUOTE # u)"
      using Cons.prems t by simp
    from escape_unique [OF this] Cons.IH [of t'] t show ?thesis by simp
  qed
qed

lemma write_string_unique:
  assumes "write_string s @ r = write_string t @ u"
  shows "s = t \<and> r = u"
  using assms escapes_unique [of s r t u] by (simp add: write_string_def)

subsection \<open>Canonical bytes determine the value\<close>

lemma collect_Inr: "collect rs = Inr xs \<longleftrightarrow> rs = map Inr xs"
proof (induction rs arbitrary: xs rule: collect.induct)
  case (3 x rs)
  have "collect (Inr x # rs) = Inr xs \<longleftrightarrow> (\<exists>ys. collect rs = Inr ys \<and> xs = x # ys)"
    by (auto split: sum.split)
  then show ?case using 3 by (auto simp: Cons_eq_map_conv)
qed auto

lemma map_ok_Inr: "map_ok f r = Inr y \<longleftrightarrow> (\<exists>x. r = Inr x \<and> y = f x)"
  by (cases r) (auto simp: map_ok_def)

lemma join_with_Cons: "join_with c (p # ps) = p @ concat (map ((#) c) ps)"
  by (induction c "p # ps" arbitrary: p ps rule: join_with.induct) auto

text \<open>
  A list whose items are written unambiguously is itself written unambiguously between commas and
  a closing bracket.
\<close>

lemma tail_unique:
  assumes u: "\<And>x a y b r s. x \<in> set xs \<Longrightarrow> W x a \<Longrightarrow> W y b \<Longrightarrow> stops r \<Longrightarrow> stops s \<Longrightarrow> a @ r = b @ s \<Longrightarrow> x = y \<and> r = s"
    and w: "list_all2 W xs as" "list_all2 W ys bs" and c: "c = CHR '']'' \<or> c = CHR ''}''"
    and e: "concat (map ((#) (CHR '','')) as) @ c # r = concat (map ((#) (CHR '','')) bs) @ c # s"
  shows "xs = ys \<and> r = s"
  using assms
proof (induction xs arbitrary: as ys bs)
  case Nil
  then show ?case by (cases bs) auto
next
  case (Cons x xs)
  obtain a as' where as: "as = a # as'" "W x a" "list_all2 W xs as'" using Cons.prems(2) by (auto simp: list_all2_Cons1)
  have "bs \<noteq> []" using Cons.prems(4,5) as by auto
  then obtain b bs' y ys' where bs: "bs = b # bs'" "ys = y # ys'" "W y b" "list_all2 W ys' bs'"
    using Cons.prems(3) by (cases bs) (auto simp: list_all2_Cons2)
  let ?r = "concat (map ((#) (CHR '','')) as') @ c # r" and ?s = "concat (map ((#) (CHR '','')) bs') @ c # s"
  have st: "stops ?r" "stops ?s"
    using Cons.prems(4) by (cases as'; cases bs'; auto simp: stops_def)+
  have "a @ ?r = b @ ?s" using Cons.prems(5) as bs by simp
  then have "x = y \<and> ?r = ?s" using Cons.prems(1) [of x a y b, OF _ as(2) bs(3) st] by simp
  moreover have "xs = ys' \<and> r = s"
  proof (rule Cons.IH [OF _ as(3) bs(4) Cons.prems(4)], rule Cons.prems(1))
    show "?r = ?s" using calculation by simp
  qed auto
  ultimately show ?case using bs by simp
qed

lemma items_unique:
  assumes u: "\<And>x a y b r s. x \<in> set xs \<Longrightarrow> W x a \<Longrightarrow> W y b \<Longrightarrow> stops r \<Longrightarrow> stops s \<Longrightarrow> a @ r = b @ s \<Longrightarrow> x = y \<and> r = s"
    and ne: "\<And>x a. W x a \<Longrightarrow> \<not> stops a"
    and w: "list_all2 W xs as" "list_all2 W ys bs" and c: "c = CHR '']'' \<or> c = CHR ''}''"
    and e: "join_with (CHR '','') as @ c # r = join_with (CHR '','') bs @ c # s"
  shows "xs = ys \<and> r = s"
proof -
  have first: "join_with (CHR '','') ps @ c # r' \<noteq> c # s'" if z: "list_all2 W zs ps" "ps \<noteq> []" for zs ps r' s'
  proof -
    obtain p ps' z where p: "ps = p # ps'" "W z p" using z by (cases ps) (auto simp: list_all2_Cons2)
    then have "\<not> stops p" by (simp add: ne)
    then obtain d p' where "p = d # p'" "\<not> stops [d]" by (cases p) (auto simp: stops_def)
    then show ?thesis using p c by (auto simp: join_with_Cons stops_def)
  qed
  have em: "as = [] \<longleftrightarrow> bs = []"
    using e first [OF w(1), of r s] first [OF w(2), of s r] by (metis append_Nil join_with.simps(1))
  show ?thesis
  proof (cases xs)
    case Nil
    then show ?thesis using w e em by auto
  next
    case (Cons x xs')
    then obtain a as' b bs' y ys' where l: "as = a # as'" "bs = b # bs'" "ys = y # ys'" "W x a" "W y b"
      "list_all2 W xs' as'" "list_all2 W ys' bs'"
      using w em by (cases bs) (auto simp: list_all2_Cons1 list_all2_Cons2)
    let ?r = "concat (map ((#) (CHR '','')) as') @ c # r" and ?s = "concat (map ((#) (CHR '','')) bs') @ c # s"
    have st: "stops ?r" "stops ?s" using c by (cases as'; cases bs'; auto simp: stops_def)+
    have "a @ ?r = b @ ?s" using e l by (simp add: join_with_Cons)
    then have "x = y \<and> ?r = ?s" using u [of x a y b, OF _ l(4,5) st] Cons by simp
    moreover have "xs' = ys' \<and> r = s"
    proof (rule tail_unique [OF _ l(6,7) c], rule u)
      show "?r = ?s" using calculation by simp
    qed (auto simp: Cons)
    ultimately show ?thesis using l Cons by simp
  qed
qed


text \<open>The first character of a value's text tells its constructor, and is none of the closing ones.\<close>

lemma write_value_hd:
  assumes "write_value p v = Inr a"
  shows "\<exists>c r. a = c # r \<and> (case v of VNull \<Rightarrow> c = CHR ''n'' | VBool b \<Rightarrow> c = (if b then CHR ''t'' else CHR ''f'')
    | VNum n \<Rightarrow> c = CHR ''-'' \<or> is_digit c | VStr s \<Rightarrow> c = QUOTE | VArr as \<Rightarrow> c = CHR ''['' | VObj m \<Rightarrow> c = CHR ''{'')"
proof (cases v)
  case (VNum n)
  then obtain i where i: "a = show_int i" using assms by (cases n) (auto split: if_splits)
  have "show_int i \<noteq> []" by (simp add: show_int_def)
  then obtain c r where "show_int i = c # r" by (cases "show_int i") auto
  then show ?thesis using i show_int_hd [of i c r] VNum by simp
qed (use assms in \<open>auto simp: map_ok_Inr write_string_def\<close>)

lemma write_value_stops:
  assumes "write_value p v = Inr a" shows "\<not> stops a"
  using write_value_hd [OF assms] by (cases v) (auto simp: stops_def is_digit_code QUOTE_def split: if_splits)

definition written :: "Value \<Rightarrow> string \<Rightarrow> bool" where
  "written v a \<longleftrightarrow> Value_wf v \<and> (\<exists>p. write_value p v = Inr a)"

fun tag :: "Value \<Rightarrow> nat" where
  "tag VNull = 0" | "tag (VBool b) = (if b then 1 else 2)" | "tag (VNum n) = 3" | "tag (VStr s) = 4" | "tag (VArr a) = 5"
| "tag (VObj m) = 6"

definition char_tag :: "char \<Rightarrow> nat" where
  "char_tag c = (if c = CHR ''n'' then 0 else if c = CHR ''t'' then 1 else if c = CHR ''f'' then 2
     else if c = QUOTE then 4 else if c = CHR ''['' then 5 else if c = CHR ''{'' then 6 else 3)"

lemma written_tag:
  assumes "written v a" shows "a \<noteq> []" "tag v = char_tag (hd a)"
proof -
  obtain c r where c: "a = c # r" "case v of VNull \<Rightarrow> c = CHR ''n'' | VBool b \<Rightarrow> c = (if b then CHR ''t'' else CHR ''f'')
    | VNum n \<Rightarrow> c = CHR ''-'' \<or> is_digit c | VStr s \<Rightarrow> c = QUOTE | VArr as \<Rightarrow> c = CHR ''['' | VObj m \<Rightarrow> c = CHR ''{''"
    using assms write_value_hd [of _ v a] unfolding written_def by blast
  have n: "\<not> is_digit (CHR ''n'')" "\<not> is_digit (CHR ''t'')" "\<not> is_digit (CHR ''f'')" "\<not> is_digit QUOTE"
    "\<not> is_digit (CHR ''['')" "\<not> is_digit (CHR ''{'')" by code_simp+
  have t: "char_tag (CHR ''n'') = 0" "char_tag (CHR ''t'') = 1" "char_tag (CHR ''f'') = 2" "char_tag QUOTE = 4"
    "char_tag (CHR ''['') = 5" "char_tag (CHR ''{'') = 6" "char_tag (CHR ''-'') = 3" by code_simp+
  have d: "char_tag x = 3" if i: "is_digit x" for x
  proof -
    have "x \<noteq> CHR ''n''" "x \<noteq> CHR ''t''" "x \<noteq> CHR ''f''" "x \<noteq> QUOTE" "x \<noteq> CHR ''[''" "x \<noteq> CHR ''{''"
      using i n by blast+
    then show ?thesis by (simp add: char_tag_def)
  qed
  show "a \<noteq> []" using c(1) by simp
  show "tag v = char_tag (hd a)" using c t d by (cases v) auto
qed

lemma written_same_tag:
  assumes "written v a" "written w b" "a @ r = b @ s" shows "tag v = tag w"
  using written_tag [OF assms(1)] written_tag [OF assms(2)] assms(3) by (metis hd_append2)

lemma same_tag:
  "tag (VArr a) = tag w \<Longrightarrow> \<exists>b. w = VArr b" "tag (VObj m) = tag w \<Longrightarrow> \<exists>m'. w = VObj m'"
  "tag (VNum n) = tag w \<Longrightarrow> \<exists>n'. w = VNum n'" "tag (VStr t) = tag w \<Longrightarrow> \<exists>t'. w = VStr t'"
  "tag VNull = tag w \<Longrightarrow> w = VNull" "tag (VBool b) = tag w \<Longrightarrow> w = VBool b"
  by (cases w; simp split: if_splits)+

lemma written_stops: "written v a \<Longrightarrow> \<not> stops a"
  using write_value_stops unfolding written_def by blast

lemma Value_wf_obj_eq:
  assumes "sorted_wrt (<) (map fst m)" "sorted_wrt (<) (map fst m')" "set m = set (m' :: (string \<times> 'a) list)"
  shows "m = m'"
  using assms by (intro map_sorted_distinct_set_unique [of fst]) (auto simp: strict_sorted_iff distinct_map)

definition unambiguous :: "Value \<Rightarrow> bool" where
  "unambiguous v \<longleftrightarrow> (\<forall>a w b r s. written v a \<longrightarrow> written w b \<longrightarrow> stops r \<longrightarrow> stops s \<longrightarrow> a @ r = b @ s \<longrightarrow> v = w \<and> r = s)"

lemma written_arr:
  assumes "written (VArr a) t"
  obtains ps where "t = CHR ''['' # join_with (CHR '','') ps @ '']''" "list_all2 written a ps"
proof -
  obtain p ps where p: "map (\<lambda>i. write_value (index_path p i) (a ! i)) [0..<length a] = map Inr ps"
    "t = CHR ''['' # join_with (CHR '','') ps @ '']''" "list_all Value_wf a"
    using assms by (auto simp: written_def map_ok_Inr collect_Inr)
  have l: "length ps = length a" using arg_cong [OF p(1), of length] by simp
  have "write_value (index_path p i) (a ! i) = Inr (ps ! i)" if "i < length a" for i
    using arg_cong [OF p(1), of "\<lambda>xs. xs ! i"] that l by simp
  then have "list_all2 written a ps"
    using p(3) l by (auto simp: list_all2_conv_all_nth written_def list_all_length)
  with p(2) show thesis by (rule that)
qed

lemma written_obj:
  assumes "written (VObj m) t"
  obtains ps where "t = CHR ''{'' # join_with (CHR '','') ps @ ''}''" "sorted_wrt (<) (map fst m)"
    "list_all2 (\<lambda>(k, c) x. \<exists>y. written c y \<and> x = key_text k y) (sort_key (\<lambda>(k, c). encode_utf16 k) m) ps"
proof -
  let ?m = "sort_key (\<lambda>(k, c). encode_utf16 k) m"
  obtain p ps where p: "map (\<lambda>(k, c). map_ok (key_text k) (write_value (key_path p k) c)) ?m = map Inr ps"
    "t = CHR ''{'' # join_with (CHR '','') ps @ ''}''" "list_all (\<lambda>(k, c). Value_wf c) m" "sorted_wrt (<) (map fst m)"
    using assms by (auto simp: written_def map_ok_Inr collect_Inr)
  have l: "length ps = length ?m" using arg_cong [OF p(1), of length] by simp
  have "\<exists>y. written (snd (?m ! i)) y \<and> ps ! i = key_text (fst (?m ! i)) y" if "i < length ?m" for i
  proof -
    have "?m ! i \<in> set m" using nth_mem [OF that] by simp
    then have "Value_wf (snd (?m ! i))" using p(3) by (auto simp: list_all_iff split_beta)
    then show ?thesis
      using arg_cong [OF p(1), of "\<lambda>xs. xs ! i"] that l by (auto simp: split_beta map_ok_Inr written_def)
  qed
  then have "list_all2 (\<lambda>(k, c) x. \<exists>y. written c y \<and> x = key_text k y) ?m ps"
    using l by (auto simp: list_all2_conv_all_nth split_beta)
  with p(2,4) show thesis by (rule that)
qed

lemma unambiguous_num: "unambiguous (VNum n)"
  unfolding unambiguous_def
proof (intro allI impI)
  fix x w y r s assume h: "written (VNum n) x" "written w y" "stops r" "stops s" "x @ r = y @ s"
  then obtain n' where w: "w = VNum n'"
    using same_tag(3) [OF written_same_tag [OF h(1,2,5)]] by blast
  show "VNum n = w \<and> r = s"
    using h w by (cases n; cases n') (auto simp: written_def split: if_splits dest: show_int_unique)
qed

lemma unambiguous_str: "unambiguous (VStr t)"
  unfolding unambiguous_def
proof (intro allI impI)
  fix x w y r s assume h: "written (VStr t) x" "written w y" "stops r" "stops s" "x @ r = y @ s"
  then obtain t' where w: "w = VStr t'"
    using same_tag(4) [OF written_same_tag [OF h(1,2,5)]] by blast
  have "x = write_string t" "y = write_string t'" using h(1,2) w by (auto simp: written_def)
  then show "VStr t = w \<and> r = s" using write_string_unique [of t r t' s] h(5) w by simp
qed

lemma unambiguous_null: "unambiguous VNull"
  unfolding unambiguous_def
proof (intro allI impI)
  fix x w y r s assume h: "written VNull x" "written w y" "stops r" "stops s" "x @ r = y @ s"
  then have "w = VNull" using same_tag(5) [OF written_same_tag [OF h(1,2,5)]] by blast
  then show "VNull = w \<and> r = s" using h by (auto simp: written_def)
qed

lemma unambiguous_bool: "unambiguous (VBool b)"
  unfolding unambiguous_def
proof (intro allI impI)
  fix x w y r s assume h: "written (VBool b) x" "written w y" "stops r" "stops s" "x @ r = y @ s"
  then have "w = VBool b" using same_tag(6) [OF written_same_tag [OF h(1,2,5)]] by blast
  then show "VBool b = w \<and> r = s" using h by (auto simp: written_def)
qed

lemma written_unambiguous: "unambiguous v"
proof (induction v)
  case (VArr a)
  show ?case unfolding unambiguous_def
  proof (intro allI impI)
    fix x w y r s assume h: "written (VArr a) x" "written w y" "stops r" "stops s" "x @ r = y @ s"
    then obtain b where w: "w = VArr b"
      using same_tag(1) [OF written_same_tag [OF h(1,2,5)]] by blast
    obtain ps where p: "x = CHR ''['' # join_with (CHR '','') ps @ '']''" "list_all2 written a ps"
      using h(1) by (rule written_arr)
    obtain qs where q: "y = CHR ''['' # join_with (CHR '','') qs @ '']''" "list_all2 written b qs"
      using h(2) unfolding w by (rule written_arr)
    have u: "c = d \<and> r = s" if "c \<in> set a" "written c x" "written d y" "stops r" "stops s" "x @ r = y @ s" for c d x y r s
      using VArr that unfolding unambiguous_def by blast
    have "a = b \<and> r = s"
      by (rule items_unique [where W = written, OF u written_stops p(2) q(2)]) (use h(5) p(1) q(1) in simp_all)
    then show "VArr a = w \<and> r = s" using w by simp
  qed
next
  case (VObj m)
  show ?case unfolding unambiguous_def
  proof (intro allI impI)
    fix x w y r s assume h: "written (VObj m) x" "written w y" "stops r" "stops s" "x @ r = y @ s"
    then obtain m' where w: "w = VObj m'"
      using same_tag(2) [OF written_same_tag [OF h(1,2,5)]] by blast
    let ?W = "\<lambda>(k, c) x. \<exists>y. written c y \<and> x = key_text k y" and ?s = "sort_key (\<lambda>(k, c). encode_utf16 k)"
    obtain ps where p: "x = CHR ''{'' # join_with (CHR '','') ps @ ''}''" "sorted_wrt (<) (map fst m)" "list_all2 ?W (?s m) ps"
      using h(1) by (rule written_obj)
    obtain qs where q: "y = CHR ''{'' # join_with (CHR '','') qs @ ''}''" "sorted_wrt (<) (map fst m')" "list_all2 ?W (?s m') qs"
      using h(2) unfolding w by (rule written_obj)
    have u: "kc = kc' \<and> r = s"
      if k: "kc \<in> set (?s m)" "?W kc a" "?W kc' b" "stops r" "stops s" "a @ r = b @ s" for kc kc' a b r s
    proof -
      obtain k c k' c' x y where kc: "kc = (k, c)" "kc' = (k', c')" "written c x" "written c' y" "a = key_text k x" "b = key_text k' y"
        using k(2,3) by (cases kc; cases kc') auto
      have "write_string k @ (CHR '':'' # x @ r) = write_string k' @ (CHR '':'' # y @ s)"
        using k(6) kc by (simp add: key_text_def)
      from write_string_unique [OF this] have "k = k'" "x @ r = y @ s" by simp_all
      moreover have "unambiguous c" using VObj k(1) kc(1) by auto
      ultimately show ?thesis using kc k(4,5) by (auto simp: unambiguous_def)
    qed
    have "?s m = ?s m' \<and> r = s"
      by (rule items_unique [where W = ?W, OF u _ p(3) q(3)])
        (use h(5) p(1) q(1) in \<open>auto simp: key_text_def write_string_def stops_def QUOTE_def\<close>)
    moreover from this have "set m = set m'" by (metis set_sort)
    ultimately show "VObj m = w \<and> r = s" using w Value_wf_obj_eq [OF p(2) q(2)] by simp
  qed
next
  case (VNum n)
  show ?case by (rule unambiguous_num)
next
  case (VStr t)
  show ?case by (rule unambiguous_str)
next
  case VNull
  show ?case by (rule unambiguous_null)
next
  case (VBool b)
  show ?case by (rule unambiguous_bool)
qed

lemma canon_injective:
  assumes "canon v = Inr a" "canon w = Inr a" "Value_wf v" "Value_wf w"
  shows "v = w"
proof -
  have "written v a" "written w a" "stops []" using assms by (auto simp: written_def canon_def stops_def)
  then show ?thesis using written_unambiguous [of v] unfolding unambiguous_def by blast
qed

subsection \<open>Which values have a canonical form\<close>

text \<open>No float anywhere, and every integer is safe.\<close>

fun floatfree :: "Value \<Rightarrow> bool" where
  "floatfree (VNum (NFloat x)) = False"
| "floatfree (VNum (NInt i)) = (\<bar>i\<bar> \<le> MAX_SAFE_INTEGER)"
| "floatfree (VArr a) = list_all floatfree a"
| "floatfree (VObj m) = list_all (\<lambda>(k, c). floatfree c) m"
| "floatfree v = True"

lemma collect_ok: "(\<exists>xs. collect rs = Inr xs) \<longleftrightarrow> (\<forall>r \<in> set rs. \<exists>x. r = Inr x)"
  by (induction rs rule: collect.induct) (auto split: sum.split)

lemma write_value_ok: "(\<exists>a. write_value p v = Inr a) \<longleftrightarrow> floatfree v"
proof (induction p v rule: write_value.induct)
  case (6 path a)
  have "(\<exists>t. write_value path (VArr a) = Inr t) \<longleftrightarrow> (\<forall>i < length a. \<exists>t. write_value (index_path path i) (a ! i) = Inr t)"
    by (auto simp: map_ok_Inr collect_ok)
  then show ?case using 6 by (simp add: list_all_length)
next
  case (7 path m)
  have "(\<exists>t. write_value path (VObj m) = Inr t) \<longleftrightarrow> (\<forall>(k, c) \<in> set m. \<exists>t. write_value (key_path path k) c = Inr t)"
    by (auto simp: map_ok_Inr collect_ok split_beta)
  moreover have "\<forall>(k, c) \<in> set m. (\<exists>t. write_value (key_path path k) c = Inr t) \<longleftrightarrow> floatfree c"
    using 7 [OF _ refl] by (auto simp del: write_value.simps)
  ultimately show ?case unfolding floatfree.simps list_all_iff by fastforce
qed (auto simp: not_le)

text \<open>Every key is printable ASCII.\<close>

fun keys_clean :: "Value \<Rightarrow> bool" where
  "keys_clean (VArr a) = list_all keys_clean a"
| "keys_clean (VObj m) = list_all (\<lambda>(k, c). key_ok k \<and> keys_clean c) m"
| "keys_clean v = True"

lemma walk_keys_ok: "(\<exists>u. walk_keys p v = Inr u) \<longleftrightarrow> keys_clean v"
proof (induction p v rule: walk_keys.induct)
  case (1 path m)
  let ?f = "\<lambda>(k, c). if \<not> key_ok k then Inl (BadKey (key_path path k)) else walk_keys (key_path path k) c"
  have "(\<exists>u. walk_keys path (VObj m) = Inr u) \<longleftrightarrow> (\<forall>x \<in> set m. \<exists>u. ?f x = Inr u)"
    by (simp only: walk_keys.simps map_ok_Inr) (simp add: collect_ok)
  also have "\<dots> \<longleftrightarrow> (\<forall>(k, c) \<in> set m. key_ok k \<and> (\<exists>u. walk_keys (key_path path k) c = Inr u))"
    by (fastforce split: if_splits)
  finally have "(\<exists>u. walk_keys path (VObj m) = Inr u) \<longleftrightarrow>
      (\<forall>(k, c) \<in> set m. key_ok k \<and> (\<exists>u. walk_keys (key_path path k) c = Inr u))" .
  moreover have "\<forall>(k, c) \<in> set m. key_ok k \<longrightarrow> ((\<exists>u. walk_keys (key_path path k) c = Inr u) \<longleftrightarrow> keys_clean c)"
    using 1 [OF _ refl] by (auto simp del: walk_keys.simps)
  ultimately show ?case unfolding keys_clean.simps list_all_iff by fastforce
next
  case (2 path a)
  have "(\<exists>u. walk_keys path (VArr a) = Inr u) \<longleftrightarrow> (\<forall>i < length a. \<exists>u. walk_keys (index_path path i) (a ! i) = Inr u)"
    by (auto simp: map_ok_Inr collect_ok)
  then show ?case using 2 by (simp add: list_all_length)
qed auto

text \<open>So a value has canonical bytes exactly when its keys are clean and it carries no float and no unsafe integer.\<close>

lemma canon_of_ok: "(\<exists>a. canon_of v = Inr a) \<longleftrightarrow> keys_clean v \<and> floatfree v"
  unfolding canon_of_def canon_def check_keys_def
  using walk_keys_ok [of "''$''" v] write_value_ok [of "''$''" v] by (auto split: sum.split)

lemma canon_of_Inr: "canon_of v = Inr a \<Longrightarrow> canon v = Inr a"
  by (auto simp: canon_of_def split: sum.splits)

subsection \<open>Key order\<close>

lemma utf8_points_ascii: "list_all (\<lambda>b. b < 128) bs \<Longrightarrow> utf8_points bs = bs"
  by (induction bs rule: utf8_points.induct) auto

lemma encode_utf16_ascii:
  assumes "key_ok k" shows "encode_utf16 k = map of_char k"
proof -
  have a: "list_all (\<lambda>b. b < (128 :: nat)) (map of_char k)"
    using assms by (auto simp: key_ok_def list_all_iff less_eq_char_def)
  have "concat (map utf16_units bs) = bs" if "list_all (\<lambda>b. b < 128) bs" for bs
    using that by (induction bs) (auto simp: utf16_units_def)
  from this [OF a] show ?thesis using a by (simp only: encode_utf16_def utf8_points_ascii)
qed

lemma codes_less_iff: "map of_char s < (map of_char t :: nat list) \<longleftrightarrow> s < t"
  unfolding list_less_def by (induction s t rule: list_induct2') (auto simp: less_char_def)

text \<open>For the keys that \<open>check_keys\<close> accepts, the order of the UTF-16 units is the byte order of the map.\<close>

lemma ascii_key_order: "key_ok k \<Longrightarrow> key_ok l \<Longrightarrow> encode_utf16 k < encode_utf16 l \<longleftrightarrow> k < l"
  by (simp add: encode_utf16_ascii codes_less_iff)

lemma sorted_keys_id:
  assumes "sorted_wrt (<) (map fst m)" "\<forall>(k, c) \<in> set m. key_ok k"
  shows "sort_key (\<lambda>(k, c). encode_utf16 k) m = m"
proof (rule sort_key_id_if_sorted)
  have "sorted_wrt (\<lambda>x y. fst x < fst y) m" using assms(1) by (simp add: sorted_wrt_map)
  then have "sorted_wrt (\<lambda>x y. (case x of (k, c) \<Rightarrow> encode_utf16 k) \<le> (case y of (k, c) \<Rightarrow> encode_utf16 k)) m"
    by (rule sorted_wrt_mono_rel [rotated]) (use assms(2) ascii_key_order in \<open>force simp: less_imp_le\<close>)
  then show "sorted (map (\<lambda>(k, c). encode_utf16 k) m)" by (simp add: sorted_wrt_map)
qed

subsection \<open>Floats as text, and floatify\<close>

fun ints_safe :: "Value \<Rightarrow> bool" where
  "ints_safe (VNum (NInt i)) = (\<bar>i\<bar> \<le> MAX_SAFE_INTEGER)"
| "ints_safe (VArr a) = list_all ints_safe a"
| "ints_safe (VObj m) = list_all (\<lambda>(k, c). ints_safe c) m"
| "ints_safe v = True"

lemma floatify_floatfree: "floatfree (floatify v) \<longleftrightarrow> ints_safe v"
proof (induction v rule: floatify.induct)
  case (4 m)
  then show ?case by (fastforce simp: list_all_iff)
qed (auto simp: list_all_iff)

lemma floatify_wf: "Value_wf v \<Longrightarrow> Value_wf (floatify v)"
proof (induction v rule: floatify.induct)
  case (4 m)
  have "fst \<circ> (\<lambda>(k, c). (k, floatify c)) = (fst :: string \<times> Value \<Rightarrow> string)" by auto
  moreover have "\<forall>(k, c) \<in> set m. Value_wf (floatify c)" using 4 by (fastforce simp: list_all_iff)
  ultimately show ?case using 4(2) by (simp add: list_all_iff split_beta)
qed (auto simp: list_all_iff)

lemma hex_digits_val:
  "foldl (\<lambda>a c. 16 * a + hex_val c) 0 (map (\<lambda>i. hex_digit (n div 16 ^ (m - 1 - i) mod 16)) [0..<m]) = n mod 16 ^ m"
proof (induction m arbitrary: n)
  case (Suc m)
  have e: "map (\<lambda>i. hex_digit (n div 16 ^ (Suc m - 1 - i) mod 16)) [0..<m]
      = map (\<lambda>i. hex_digit (n div 16 div 16 ^ (m - 1 - i) mod 16)) [0..<m]"
  proof (rule map_cong [OF refl])
    fix i assume "i \<in> set [0..<m]"
    then have "Suc m - 1 - i = Suc (m - 1 - i)" by simp
    then show "hex_digit (n div 16 ^ (Suc m - 1 - i) mod 16) = hex_digit (n div 16 div 16 ^ (m - 1 - i) mod 16)"
      by (simp add: div_mult2_eq)
  qed
  show ?case
    unfolding upt_Suc_append [OF le0] map_append e foldl_append Suc
    by (simp add: hex_val_digit mod_mult2_eq)
qed simp

lemma f64_hex_round_trip: "f64_from_hex (f64_to_hex x) = Inr x"
proof -
  have d: "is_lower_hex (hex_digit k)" if "k < 16" for k
  proof -
    have "\<forall>k \<in> set [0..<16]. is_lower_hex (hex_digit k)" by code_simp
    then show ?thesis using that by simp
  qed
  have "unat (to_bits x) < 16 ^ 16" using unsigned_less [of "to_bits x", where 'a = nat] by simp
  then have "foldl (\<lambda>a c. 16 * a + hex_val c) 0 (f64_to_hex x) = unat (to_bits x)"
    using hex_digits_val [of "unat (to_bits x)" 16] by (simp add: f64_to_hex_def)
  moreover have "length (f64_to_hex x) = 16" "list_all is_lower_hex (f64_to_hex x)"
    by (simp_all add: f64_to_hex_def list_all_iff d)
  ultimately show ?thesis by (simp add: f64_from_hex_def)
qed

lemma hex_val_less:
  assumes "is_lower_hex c" shows "hex_val c < 16" "hex_digit (hex_val c) = c"
proof -
  have "c \<in> set ''0123456789abcdef''"
  proof -
    have "(of_char c :: nat) \<in> set ([48..<58] @ [97..<103])"
      unfolding set_append set_upt using assms by (auto simp: is_lower_hex_def less_eq_char_def)
    then have "c \<in> char_of ` set ([48..<58] @ [97..<103 :: nat])" by (metis char_of_char image_eqI)
    moreover have "map char_of ([48..<58] @ [97..<103 :: nat]) = ''0123456789abcdef''" by code_simp
    ultimately show ?thesis by (metis set_map)
  qed
  moreover have "\<forall>c \<in> set ''0123456789abcdef''. hex_val c < 16 \<and> hex_digit (hex_val c) = c" by code_simp
  ultimately show "hex_val c < 16" "hex_digit (hex_val c) = c" by blast+
qed

lemma hex_text_of_val:
  "list_all is_lower_hex s \<Longrightarrow> foldl (\<lambda>a c. 16 * a + hex_val c) 0 s = n \<Longrightarrow>
     n < 16 ^ length s \<and> map (\<lambda>i. hex_digit (n div 16 ^ (length s - 1 - i) mod 16)) [0..<length s] = s"
proof (induction s arbitrary: n rule: rev_induct)
  case (snoc c s)
  let ?m = "foldl (\<lambda>a c. 16 * a + hex_val c) 0 s"
  have c: "hex_val c < 16" "hex_digit (hex_val c) = c" using snoc.prems(1) hex_val_less by auto
  have n: "n = 16 * ?m + hex_val c" "n div 16 = ?m" using snoc.prems(2) c by auto
  have ih: "?m < 16 ^ length s" "map (\<lambda>i. hex_digit (?m div 16 ^ (length s - 1 - i) mod 16)) [0..<length s] = s"
    using snoc by auto
  have e: "map (\<lambda>i. hex_digit (n div 16 ^ (length s - i) mod 16)) [0..<length s]
      = map (\<lambda>i. hex_digit (?m div 16 ^ (length s - 1 - i) mod 16)) [0..<length s]"
  proof (rule map_cong [OF refl])
    fix i assume "i \<in> set [0..<length s]"
    then have "length s - i = Suc (length s - 1 - i)" by simp
    then show "hex_digit (n div 16 ^ (length s - i) mod 16) = hex_digit (?m div 16 ^ (length s - 1 - i) mod 16)"
      using n(2) by (simp add: div_mult2_eq)
  qed
  show ?case using n(1) c ih e by simp
qed simp

lemma f64_text_round_trip:
  assumes "f64_from_hex s = Inr x" shows "f64_to_hex x = s"
proof -
  let ?n = "foldl (\<lambda>a c. 16 * a + hex_val c) 0 s"
  have s: "length s = 16" "list_all is_lower_hex s" "x = F64 (of_nat ?n)"
    using assms by (auto simp: f64_from_hex_def split: if_splits)
  have n: "?n < 16 ^ 16" "map (\<lambda>i. hex_digit (?n div 16 ^ (16 - 1 - i) mod 16)) [0..<16] = s"
    using hex_text_of_val [OF s(2) refl] s(1) by auto
  have "unat (of_nat ?n :: u64) = ?n" using n(1) by (simp add: unat_of_nat)
  then show ?thesis using n(2) s(3) by (simp add: f64_to_hex_def)
qed

end
