(* ===== verification/Serial.thy ===== *)
theory Serial
  imports Canon Scores Tally
begin

text \<open>
  How the records of the receipts become \<open>serde_json\<close> values.  The source derives \<open>Serialize\<close>: a
  struct is the object of its fields, an enum variant its name in snake case, an \<open>Option\<close> the value
  or \<open>null\<close>, an integer a number; \<open>F64Hex\<close> and \<open>F64Array\<close> (\<open>f64enc.rs\<close>) write floats as text.  The
  base64 engine is the parameter \<open>b64\<close>.  The lemmas show that each of these encodings loses nothing.
\<close>

subsection \<open>Structs\<close>

definition struct_value :: "(string \<times> Value) list \<Rightarrow> Value" where
  "struct_value fs = VObj (sort_key fst fs)"

lemma struct_value_inj:
  assumes "struct_value fs = struct_value gs" "map fst fs = map fst gs" "distinct (map fst fs)"
  shows "map snd fs = map snd gs"
proof -
  have s: "set fs = set gs" using assms(1) unfolding struct_value_def by (metis Value.inject(5) set_sort)
  show ?thesis
  proof (rule nth_equalityI)
    show l: "length (map snd fs) = length (map snd gs)" using arg_cong [OF assms(2), of length] by simp
    fix i assume i: "i < length (map snd fs)"
    have "gs ! i \<in> set fs" using i l s by simp
    moreover have "fst (gs ! i) = fst (fs ! i)" using arg_cong [OF assms(2), of "\<lambda>xs. xs ! i"] i l by simp
    ultimately have "gs ! i = fs ! i"
      using i assms(3) by (metis eq_key_imp_eq_value length_map nth_mem prod.collapse)
    then show "map snd fs ! i = map snd gs ! i" using i l by simp
  qed
qed

lemma struct_value_wf:
  "distinct (map fst fs) \<Longrightarrow> list_all Value_wf (map snd fs) \<Longrightarrow> Value_wf (struct_value fs)"
  by (auto simp: struct_value_def strict_sorted_iff list_all_iff distinct_map)

lemma struct_value_floatfree: "list_all floatfree (map snd fs) \<Longrightarrow> floatfree (struct_value fs)"
  by (auto simp: struct_value_def list_all_iff)

subsection \<open>Scalars\<close>

definition num :: "'a::len word \<Rightarrow> Value" where "num w = VNum (NInt (uint w))"
definition strings :: "string list \<Rightarrow> Value" where "strings xs = VArr (map VStr xs)"

definition opt :: "('a \<Rightarrow> Value) \<Rightarrow> 'a option \<Rightarrow> Value" where
  "opt f x = (case x of None \<Rightarrow> VNull | Some y \<Rightarrow> f y)"

definition F64Hex :: "f64 \<Rightarrow> Value" where
  "F64Hex x = VObj [(''f64'', VStr (f64_to_hex x))]"

lemma num_inj [simp]: "num v = num w \<longleftrightarrow> v = w"
  by (simp add: num_def word_uint_eq_iff)

lemma strings_inj [simp]: "strings xs = strings ys \<longleftrightarrow> xs = ys"
  by (simp add: strings_def inj_map_eq_map inj_on_def)

lemma opt_num_inj [simp]: "opt num v = opt num w \<longleftrightarrow> v = w"
  by (auto simp: opt_def split: option.splits) (simp add: num_def)+

lemma opt_str_inj [simp]: "opt VStr v = opt VStr w \<longleftrightarrow> v = w"
  by (auto simp: opt_def split: option.splits)

lemma F64Hex_inj [simp]: "F64Hex x = F64Hex y \<longleftrightarrow> x = y"
  by (auto simp: F64Hex_def) (metis f64_hex_round_trip sum.inject(2))

subsection \<open>Float arrays\<close>

record F64Array =
  fa_shape :: "u32 list"
  fa_data :: "f64 list"

definition F64Array_from_slice :: "f64 list \<Rightarrow> u32 list \<Rightarrow> F64Array" where
  "F64Array_from_slice d shape = \<lparr> fa_shape = shape, fa_data = d \<rparr>"

definition to_le_bytes :: "f64 \<Rightarrow> u8 list" where
  "to_le_bytes x = map (\<lambda>i. ucast (drop_bit (8 * i) (to_bits x))) [0..<8]"

definition from_le_bytes :: "u8 list \<Rightarrow> f64" where
  "from_le_bytes bs = F64 (foldr (\<lambda>b a. push_bit 8 a OR ucast b) bs 0)"

definition payload_base64 :: "(u8 list \<Rightarrow> string) \<Rightarrow> F64Array \<Rightarrow> string" where
  "payload_base64 b64 a = b64 (concat (map to_le_bytes (fa_data a)))"

definition F64Array_value :: "(u8 list \<Rightarrow> string) \<Rightarrow> F64Array \<Rightarrow> Value" where
  "F64Array_value b64 a =
     struct_value [(''f64a'', VStr (payload_base64 b64 a)), (''shape'', VArr (map num (fa_shape a)))]"

text \<open>\<open>checked_mul\<close> on a 64-bit \<open>usize\<close>.\<close>

definition shape_product :: "u32 list \<Rightarrow> nat option" where
  "shape_product shape = foldl (\<lambda>acc d. Option.bind acc (\<lambda>n. if n * unat d < 2 ^ 64 then Some (n * unat d) else None))
     (Some 1) shape"

fun chunks8 :: "u8 list \<Rightarrow> u8 list list" where
  "chunks8 (a # b # c # d # e # f # g # h # r) = [a, b, c, d, e, f, g, h] # chunks8 r"
| "chunks8 _ = []"

text \<open>\<open>dec\<close> is the base64 decoder, \<^term>\<open>None\<close> its error.\<close>

definition F64Array_from_wire :: "(string \<Rightarrow> u8 list option) \<Rightarrow> string \<Rightarrow> u32 list \<Rightarrow> CanonError + F64Array" where
  "F64Array_from_wire dec f64a shape = (case dec f64a of None \<Rightarrow> Inl (BadF64 ''f64a base64'')
     | Some bytes \<Rightarrow>
         fail_if (length bytes mod 8 \<noteq> 0) (BadF64 ''f64a payload: not a multiple of 8'') (
         let data = map from_le_bytes (chunks8 bytes) in
         if shape_product shape = Some (length data) then Inr \<lparr> fa_shape = shape, fa_data = data \<rparr>
         else Inl (BadF64 ''shape does not describe the values'')))"

lemma le_byte_step:
  "(push_bit 8 (take_bit (8 * m) (drop_bit (8 * Suc j) w)) OR ucast (ucast (drop_bit (8 * j) w) :: u8) :: u64) = take_bit (8 * Suc m) (drop_bit (8 * j) w)"
proof (rule bit_word_eqI)
  fix n assume n: "n < LENGTH(64)"
  show "bit (push_bit 8 (take_bit (8 * m) (drop_bit (8 * Suc j) w)) OR ucast (ucast (drop_bit (8 * j) w) :: u8) :: u64) n = bit (take_bit (8 * Suc m) (drop_bit (8 * j) w)) n"
  proof (cases "n < 8")
    case True
    then show ?thesis using n by (simp add: bit_or_iff bit_push_bit_iff bit_take_bit_iff bit_drop_bit_eq bit_ucast_iff)
  next
    case False
    then have "8 * Suc j + (n - 8) = 8 * j + n" "n - 8 < 8 * m \<longleftrightarrow> n < 8 * Suc m" by auto
    then show ?thesis using n False by (simp add: bit_or_iff bit_push_bit_iff bit_take_bit_iff bit_drop_bit_eq bit_ucast_iff)
  qed
qed

lemma le_bytes_fold:
  "foldr (\<lambda>b a. push_bit 8 a OR ucast b) (map (\<lambda>i. ucast (drop_bit (8 * (i + j)) w) :: u8) [0..<m]) 0
     = (take_bit (8 * m) (drop_bit (8 * j) w) :: u64)"
proof (induction m arbitrary: j)
  case (Suc m)
  have u: "[0..<Suc m] = 0 # map Suc [0..<m]" by (metis map_Suc_upt upt_conv_Cons zero_less_Suc)
  have c: "(\<lambda>i. ucast (drop_bit (8 * (i + j)) w) :: u8) \<circ> Suc = (\<lambda>i. ucast (drop_bit (8 * (i + Suc j)) w))" by (rule ext) (simp add: ac_simps)
  show ?case
    unfolding u list.map map_map c foldr.simps comp_apply Suc.IH add_0 by (rule le_byte_step)
qed simp

lemma le_bytes_round_trip: "from_le_bytes (to_le_bytes x) = x"
  using le_bytes_fold [of 0 "to_bits x" 8] by (simp add: from_le_bytes_def to_le_bytes_def take_bit_word_eq_self)

lemma to_le_bytes_shape: "\<exists>a b c d e f g h. to_le_bytes x = [a, b, c, d, e, f, g, h]"
  by (simp add: to_le_bytes_def upt_rec)

lemma chunks8_bytes: "chunks8 (concat (map to_le_bytes xs)) = map to_le_bytes xs"
proof (induction xs)
  case (Cons x xs)
  obtain a b c d e f g h where "to_le_bytes x = [a, b, c, d, e, f, g, h]" using to_le_bytes_shape by blast
  with Cons show ?case by simp
qed simp

lemma length_le_bytes: "length (concat (map to_le_bytes xs)) = 8 * length xs"
  by (induction xs) (simp_all add: to_le_bytes_def)

lemma F64Array_round_trip:
  assumes "\<And>bs. dec (b64 bs) = Some bs" "shape_product (fa_shape a) = Some (length (fa_data a))"
  shows "F64Array_from_wire dec (payload_base64 b64 a) (fa_shape a) = Inr a"
  using assms by (simp add: F64Array_from_wire_def payload_base64_def length_le_bytes chunks8_bytes fail_if_def
      le_bytes_round_trip comp_def)

lemma bytes_inj: "concat (map to_le_bytes xs) = concat (map to_le_bytes ys) \<Longrightarrow> xs = ys"
  by (metis chunks8_bytes le_bytes_round_trip map_idI map_map comp_apply)

lemma F64Array_value_inj:
  assumes "inj b64" "F64Array_value b64 a = F64Array_value b64 b" shows "a = b"
proof -
  have "payload_base64 b64 a = payload_base64 b64 b" "map num (fa_shape a) = map num (fa_shape b)"
    using struct_value_inj [OF assms(2) [unfolded F64Array_value_def]] by simp_all
  then have "concat (map to_le_bytes (fa_data a)) = concat (map to_le_bytes (fa_data b))" "fa_shape a = fa_shape b"
    using assms(1) by (auto simp: payload_base64_def inj_on_def dest!: map_inj_on)
  then show ?thesis using bytes_inj by simp
qed

subsection \<open>Well-formed, clean and free of floats\<close>

named_theorems serial "what the serialised scalars and arrays are"

lemma num_wf [serial]: "Value_wf (num w)" "keys_clean (num w)"
  by (simp_all add: num_def)

lemma num_floatfree: "floatfree (num w) \<longleftrightarrow> uint w \<le> MAX_SAFE_INTEGER"
  by (simp add: num_def)

lemma num_safe [serial]: "floatfree (num (a :: u8))" "floatfree (num (b :: u16))" "floatfree (num (c :: u32))"
  using uint_bounded [of a] uint_bounded [of b] uint_bounded [of c] by (simp_all add: num_floatfree MAX_SAFE_INTEGER_def)

lemma opt_num_safe [serial]: "Value_wf (opt num x)" "keys_clean (opt num x)" "floatfree (opt num (y :: u32 option))"
  by (simp_all add: opt_def serial split: option.split)

lemma opt_str_safe [serial]: "Value_wf (opt VStr x)" "keys_clean (opt VStr x)" "floatfree (opt VStr x)"
  by (simp_all add: opt_def split: option.split)

lemma strings_safe [serial]: "Value_wf (strings xs)" "keys_clean (strings xs)" "floatfree (strings xs)"
  by (simp_all add: strings_def list_all_iff)

lemma F64Hex_safe [serial]: "Value_wf (F64Hex x)" "keys_clean (F64Hex x)" "floatfree (F64Hex x)"
  by (simp_all add: F64Hex_def key_ok_def less_eq_char_def)

lemma struct_value_clean:
  "list_all key_ok (map fst fs) \<Longrightarrow> list_all keys_clean (map snd fs) \<Longrightarrow> keys_clean (struct_value fs)"
  by (auto simp: struct_value_def list_all_iff)

lemma F64Array_safe [serial]:
  "Value_wf (F64Array_value b64 a)" "keys_clean (F64Array_value b64 a)" "floatfree (F64Array_value b64 a)"
  unfolding F64Array_value_def
  by (rule struct_value_wf struct_value_clean struct_value_floatfree;
      simp add: serial list_all_iff key_ok_def less_eq_char_def)+

subsection \<open>Enums\<close>

fun FuseState_name :: "FuseState \<Rightarrow> string" where
  "FuseState_name Idle = ''idle''"
| "FuseState_name Armed = ''armed''"
| "FuseState_name Watching = ''watching''"
| "FuseState_name Clamped = ''clamped''"
| "FuseState_name Braking = ''braking''"
| "FuseState_name Held = ''held''"
| "FuseState_name Escalated = ''escalated''"
| "FuseState_name Fault = ''fault''"
| "FuseState_name Terminated = ''terminated''"

fun Status_name :: "Status \<Rightarrow> string" where
  "Status_name St_Nominal = ''nominal''"
| "Status_name St_Watching = ''watching''"
| "Status_name St_Clamped = ''clamped''"
| "Status_name St_Braking = ''braking''"
| "Status_name St_Held = ''held''"
| "Status_name St_Escalated = ''escalated''"
| "Status_name St_Fault = ''fault''"
| "Status_name St_Terminated = ''terminated''"

fun ActionSource_name :: "ActionSource \<Rightarrow> string" where
  "ActionSource_name Src_Policy = ''policy''"
| "ActionSource_name Src_Clamped = ''clamped''"
| "ActionSource_name Src_Brake = ''brake''"
| "ActionSource_name Src_Hold = ''hold''"

fun AckDecision_name :: "AckDecision \<Rightarrow> string" where
  "AckDecision_name Resume = ''resume''"
| "AckDecision_name Abort = ''abort''"
| "AckDecision_name Retune = ''retune''"

fun FuseMode_name :: "FuseMode \<Rightarrow> string" where
  "FuseMode_name Observe = ''observe''"
| "FuseMode_name Enforce = ''enforce''"

fun ExecMode_name :: "ExecMode \<Rightarrow> string" where
  "ExecMode_name Sync = ''sync''"
| "ExecMode_name Async = ''async''"

fun reason_name :: "ReasonCode \<Rightarrow> string" where
  "reason_name RC_Ok = ''ok''"
| "reason_name RC_ObserveOnly = ''observe_only''"
| "reason_name RC_WatchBand = ''watch_band''"
| "reason_name RC_ClampWorkspace = ''clamp_workspace''"
| "reason_name RC_ClampSpeed = ''clamp_speed''"
| "reason_name RC_ClampAccel = ''clamp_accel''"
| "reason_name RC_ClampJerk = ''clamp_jerk''"
| "reason_name RC_ClampReach = ''clamp_reach''"
| "reason_name RC_ClampContact = ''clamp_contact''"
| "reason_name RC_BrakeInfeasible = ''brake_infeasible''"
| "reason_name RC_BrakeTier1Cp = ''brake_tier1_cp''"
| "reason_name RC_BrakeClampBudget = ''brake_clamp_budget''"
| "reason_name RC_Stopping = ''stopping''"
| "reason_name RC_HeldStandstill = ''held_standstill''"
| "reason_name RC_EscalateHoldTimeout = ''escalate_hold_timeout''"
| "reason_name RC_EscalateRearmBudget = ''escalate_rearm_budget''"
| "reason_name RC_EscalateTier1Persistent = ''escalate_tier1_persistent''"
| "reason_name RC_FaultNonFinite = ''fault_non_finite''"
| "reason_name RC_FaultSchema = ''fault_schema''"
| "reason_name RC_FaultWatchdog = ''fault_watchdog''"
| "reason_name RC_FaultBrakeTimeout = ''fault_brake_timeout''"
| "reason_name RC_FaultInternal = ''fault_internal''"
| "reason_name RC_RearmedAuto = ''rearmed_auto''"
| "reason_name RC_RearmedAck = ''rearmed_ack''"
| "reason_name RC_TerminatedAbort = ''terminated_abort''"
| "reason_name RC_TerminatedTimeout = ''terminated_timeout''"
| "reason_name RC_TerminatedRetune = ''terminated_retune''"
| "reason_name RC_EpisodeEnd = ''episode_end''"

lemma FuseState_name_inj [simp]: "FuseState_name a = FuseState_name b \<longleftrightarrow> a = b"
  by (cases a; cases b) simp_all

lemma Status_name_inj [simp]: "Status_name a = Status_name b \<longleftrightarrow> a = b"
  by (cases a; cases b) simp_all

lemma ActionSource_name_inj [simp]: "ActionSource_name a = ActionSource_name b \<longleftrightarrow> a = b"
  by (cases a; cases b) simp_all

lemma AckDecision_name_inj [simp]: "AckDecision_name a = AckDecision_name b \<longleftrightarrow> a = b"
  by (cases a; cases b) simp_all

text \<open>The snake-case names of the reasons are pairwise different.\<close>

lemma reason_name_inj [simp]: "reason_name a = reason_name b \<longleftrightarrow> a = b"
proof -
  have "distinct (map reason_name ReasonCode_ALL)" by code_simp
  then have "inj_on reason_name (set ReasonCode_ALL)" by (simp add: distinct_map)
  then show ?thesis using ReasonCode_ALL_complete by (simp add: inj_on_eq_iff)
qed

end
