(* ===== verification/Chain.thy ===== *)
theory Chain
  imports Serial
begin

text \<open>
  \<open>lictor-receipt/src/tick.rs\<close>: the verdict chain and the timing chain.  An event carries the hash
  of its predecessor and its own hash, \<open>sha256(canon(self with hash = ""))\<close>; \<open>walk\<close> checks a slice of
  events.  A panicking \<open>expect\<close> is \<^term>\<open>None\<close>.  The locale \<open>hash_chain\<close> states what a kind of event
  must provide, namely that equal hashes mean equal events unless the hash function collides; both
  kinds of event provide it, and the ledger does too.  Its lemmas say what a successful walk means,
  where a failed one reports the break, and that the head determines the whole chain.
\<close>

subsection \<open>Events\<close>

record TickEvent =
  te_seq :: u32
  te_t :: u32
  te_state :: FuseState
  te_prev_state :: FuseState
  te_status :: Status
  te_trips :: u32
  te_action_src :: ActionSource
  te_substituted :: bool
  te_clamped_dims :: u32
  te_action :: F64Array
  te_f :: F64Array
  te_z :: F64Array
  te_valid :: u32
  te_fired :: u32
  te_s :: f64
  te_tau :: f64
  te_window_hits :: u8
  te_brake_margin :: f64
  te_reason :: ReasonCode
  te_handoff_seq :: "u32 option"
  te_violation_reached_env :: bool
  te_prev :: string
  te_hash :: string

record TimingEvent =
  tm_seq :: u32
  tm_decide_ns :: u64
  tm_io_ns :: u64
  tm_prev :: string
  tm_hash :: string

definition ZERO_HASH :: string where "ZERO_HASH = replicate 64 (CHR ''0'')"

definition TickEvent_fields :: "(u8 list \<Rightarrow> string) \<Rightarrow> TickEvent \<Rightarrow> (string \<times> Value) list" where
  "TickEvent_fields b64 e =
     [(''seq'', num (te_seq e)), (''t'', num (te_t e)), (''state'', VStr (FuseState_name (te_state e))),
      (''prev_state'', VStr (FuseState_name (te_prev_state e))), (''status'', VStr (Status_name (te_status e))),
      (''trips'', num (te_trips e)), (''action_src'', VStr (ActionSource_name (te_action_src e))),
      (''substituted'', VBool (te_substituted e)), (''clamped_dims'', num (te_clamped_dims e)),
      (''action'', F64Array_value b64 (te_action e)), (''f'', F64Array_value b64 (te_f e)),
      (''z'', F64Array_value b64 (te_z e)), (''valid'', num (te_valid e)), (''fired'', num (te_fired e)),
      (''s'', F64Hex (te_s e)), (''tau'', F64Hex (te_tau e)), (''window_hits'', num (te_window_hits e)),
      (''brake_margin'', F64Hex (te_brake_margin e)), (''reason'', VStr (reason_name (te_reason e))),
      (''handoff_seq'', opt num (te_handoff_seq e)), (''violation_reached_env'', VBool (te_violation_reached_env e)),
      (''prev'', VStr (te_prev e)), (''hash'', VStr (te_hash e))]"

definition TickEvent_value :: "(u8 list \<Rightarrow> string) \<Rightarrow> TickEvent \<Rightarrow> Value" where
  "TickEvent_value b64 e = struct_value (TickEvent_fields b64 e)"

definition TimingEvent_fields :: "TimingEvent \<Rightarrow> (string \<times> Value) list" where
  "TimingEvent_fields e =
     [(''seq'', num (tm_seq e)), (''decide_ns'', num (tm_decide_ns e)), (''io_ns'', num (tm_io_ns e)),
      (''prev'', VStr (tm_prev e)), (''hash'', VStr (tm_hash e))]"

definition TimingEvent_value :: "TimingEvent \<Rightarrow> Value" where
  "TimingEvent_value e = struct_value (TimingEvent_fields e)"

subsection \<open>Hashes\<close>

definition chained_hash :: "(string \<Rightarrow> string) \<Rightarrow> Value \<Rightarrow> string option" where
  "chained_hash sha v = (case digest_of sha v of Inl _ \<Rightarrow> None | Inr d \<Rightarrow> Some d)"

definition TickEvent_recompute :: "(string \<Rightarrow> string) \<Rightarrow> (u8 list \<Rightarrow> string) \<Rightarrow> TickEvent \<Rightarrow> string option" where
  "TickEvent_recompute sha b64 e = chained_hash sha (TickEvent_value b64 (e \<lparr> te_hash := [] \<rparr>))"

definition TimingEvent_recompute :: "(string \<Rightarrow> string) \<Rightarrow> TimingEvent \<Rightarrow> string option" where
  "TimingEvent_recompute sha e = chained_hash sha (TimingEvent_value (e \<lparr> tm_hash := [] \<rparr>))"

definition tick_event ::
  "(string \<Rightarrow> string) \<Rightarrow> (u8 list \<Rightarrow> string) \<Rightarrow> string \<Rightarrow> SafetyVerdict \<Rightarrow> TickEvent option" where
  "tick_event sha b64 prev v =
     (let dim = min (unat (sv_action_dim v)) (length (sv_action v));
          e = \<lparr> te_seq = sv_seq v, te_t = sv_t v, te_state = sv_state v, te_prev_state = sv_prev_state v,
                te_status = sv_status v, te_trips = sv_trips v, te_action_src = sv_action_src v,
                te_substituted = sv_substituted v, te_clamped_dims = sv_clamped_dims v,
                te_action = F64Array_from_slice (take dim (sv_action v)) [of_nat dim],
                te_f = F64Array_from_slice (sc_f (sv_scores v)) [of_nat NFEAT],
                te_z = F64Array_from_slice (sc_z (sv_scores v)) [of_nat NFEAT],
                te_valid = sc_valid (sv_scores v), te_fired = sc_fired (sv_scores v), te_s = sc_s (sv_scores v),
                te_tau = sv_tau v, te_window_hits = sv_window_hits v, te_brake_margin = sv_brake_margin v,
                te_reason = sv_reason v, te_handoff_seq = sv_handoff_seq v,
                te_violation_reached_env = sv_violation_reached_env v, te_prev = prev, te_hash = [] \<rparr> in
      map_option (\<lambda>h. e \<lparr> te_hash := h \<rparr>) (chained_hash sha (TickEvent_value b64 e)))"

definition timing_event :: "(string \<Rightarrow> string) \<Rightarrow> string \<Rightarrow> u32 \<Rightarrow> u64 \<Rightarrow> u64 \<Rightarrow> TimingEvent option" where
  "timing_event sha prev seq decide_ns io_ns =
     (let e = \<lparr> tm_seq = seq, tm_decide_ns = decide_ns, tm_io_ns = io_ns, tm_prev = prev, tm_hash = [] \<rparr> in
      map_option (\<lambda>h. e \<lparr> tm_hash := h \<rparr>) (chained_hash sha (TimingEvent_value e)))"

subsection \<open>The walk\<close>

record ChainReport =
  cr_ok :: bool
  cr_break_at :: "u32 option"
  cr_head :: string
  cr_n :: u32

text \<open>One turn of the loop; the hash is recomputed only when the two cheaper checks pass.\<close>

fun walk_loop :: "('e \<Rightarrow> u32) \<Rightarrow> ('e \<Rightarrow> string) \<Rightarrow> ('e \<Rightarrow> string) \<Rightarrow> ('e \<Rightarrow> string option) \<Rightarrow>
    u32 \<Rightarrow> nat \<Rightarrow> string \<times> u32 option \<Rightarrow> 'e list \<Rightarrow> (string \<times> u32 option) option" where
  "walk_loop seq_of prev_of hash_of recompute first_seq i st [] = Some st"
| "walk_loop seq_of prev_of hash_of recompute first_seq i (prev, break_at) (e # es) =
     (let expected_seq = first_seq + of_nat i in
      Option.bind
        (if seq_of e = expected_seq \<and> prev_of e = prev
         then map_option (\<lambda>h. h = hash_of e) (recompute e) else Some False)
        (\<lambda>good.
         let break_at = (if \<not> good \<and> break_at = None
                         then Some (if seq_of e = expected_seq then seq_of e else expected_seq) else break_at) in
         walk_loop seq_of prev_of hash_of recompute first_seq (Suc i) (hash_of e, break_at) es))"

definition walk :: "('e \<Rightarrow> u32) \<Rightarrow> ('e \<Rightarrow> string) \<Rightarrow> ('e \<Rightarrow> string) \<Rightarrow> ('e \<Rightarrow> string option) \<Rightarrow>
    'e list \<Rightarrow> string \<Rightarrow> ChainReport option" where
  "walk seq_of prev_of hash_of recompute es genesis_prev =
     (let first_seq = (case es of [] \<Rightarrow> 0 | e # _ \<Rightarrow> seq_of e) in
      map_option (\<lambda>(prev, break_at).
          \<lparr> cr_ok = (break_at = None), cr_break_at = break_at, cr_head = prev, cr_n = of_nat (length es) \<rparr>)
        (walk_loop seq_of prev_of hash_of recompute first_seq 0 (genesis_prev, None) es))"

definition verify_tick_chain ::
  "(string \<Rightarrow> string) \<Rightarrow> (u8 list \<Rightarrow> string) \<Rightarrow> TickEvent list \<Rightarrow> string \<Rightarrow> ChainReport option" where
  "verify_tick_chain sha b64 es genesis_prev = walk te_seq te_prev te_hash (TickEvent_recompute sha b64) es genesis_prev"

definition verify_timing_chain :: "(string \<Rightarrow> string) \<Rightarrow> TimingEvent list \<Rightarrow> ChainReport option" where
  "verify_timing_chain sha es = walk tm_seq tm_prev tm_hash (TimingEvent_recompute sha) es ZERO_HASH"

subsection \<open>The contract of a chained event\<close>

text \<open>A hash function collides when two different inputs have one output.\<close>

definition collides :: "('a \<Rightarrow> 'b) \<Rightarrow> bool" where
  "collides f \<longleftrightarrow> (\<exists>x y. x \<noteq> y \<and> f x = f y)"

lemma not_collides_inj: "\<not> collides f \<longleftrightarrow> inj f"
  by (auto simp: collides_def inj_on_def)

locale hash_chain =
  fixes seq_of :: "'e \<Rightarrow> u32" and prev_of :: "'e \<Rightarrow> string" and hash_of :: "'e \<Rightarrow> string"
    and recompute :: "'e \<Rightarrow> string option" and broken :: bool
  assumes hash_binds: "recompute e = Some (hash_of e) \<Longrightarrow> recompute e' = Some (hash_of e') \<Longrightarrow>
    hash_of e = hash_of e' \<Longrightarrow> e = e' \<or> broken"
begin

definition good :: "u32 \<Rightarrow> nat \<Rightarrow> string \<Rightarrow> 'e \<Rightarrow> bool" where
  "good first i prev e \<longleftrightarrow> seq_of e = first + of_nat i \<and> prev_of e = prev \<and> recompute e = Some (hash_of e)"

fun linked :: "u32 \<Rightarrow> nat \<Rightarrow> string \<Rightarrow> 'e list \<Rightarrow> bool" where
  "linked first i prev [] = True"
| "linked first i prev (e # es) = (good first i prev e \<and> linked first (Suc i) (hash_of e) es)"

fun head_of :: "string \<Rightarrow> 'e list \<Rightarrow> string" where
  "head_of prev [] = prev"
| "head_of prev (e # es) = head_of (hash_of e) es"

lemma walk_loop_good:
  "linked first i prev es \<Longrightarrow>
     walk_loop seq_of prev_of hash_of recompute first i (prev, b) es = Some (head_of prev es, b)"
  by (induction es arbitrary: i prev) (auto simp: good_def)

lemma walk_loop_head:
  "walk_loop seq_of prev_of hash_of recompute first i (prev, b) es = Some (h, b') \<Longrightarrow> h = head_of prev es"
  by (induction es arbitrary: i prev b) (auto simp: Let_def bind_eq_Some_conv)

lemma walk_loop_broken:
  "walk_loop seq_of prev_of hash_of recompute first i (prev, Some b) es = Some (h, b') \<Longrightarrow> b' = Some b"
  by (induction es arbitrary: i prev) (auto simp: Let_def bind_eq_Some_conv)

lemma walk_loop_ok:
  "walk_loop seq_of prev_of hash_of recompute first i (prev, None) es = Some (h, None) \<Longrightarrow> linked first i prev es"
proof (induction es arbitrary: i prev)
  case (Cons e es)
  then show ?case
    by (auto simp: Let_def bind_eq_Some_conv good_def split: if_splits dest: walk_loop_broken)
qed simp

text \<open>A reported break is the expected number of the first bad event; everything before it is linked.\<close>

lemma walk_loop_break:
  "walk_loop seq_of prev_of hash_of recompute first i (prev, None) es = Some (h, Some b) \<Longrightarrow>
     \<exists>pre e post. es = pre @ e # post \<and> linked first i prev pre \<and>
       \<not> good first (i + length pre) (head_of prev pre) e \<and> b = first + of_nat (i + length pre)"
proof (induction es arbitrary: i prev)
  case (Cons e es)
  show ?case
  proof (cases "good first i prev e")
    case True
    then have "walk_loop seq_of prev_of hash_of recompute first (Suc i) (hash_of e, None) es = Some (h, Some b)"
      using Cons.prems by (simp add: good_def Let_def)
    then obtain pre e' post where "es = pre @ e' # post" "linked first (Suc i) (hash_of e) pre"
      "\<not> good first (Suc i + length pre) (head_of (hash_of e) pre) e'" "b = first + of_nat (Suc i + length pre)"
      using Cons.IH by blast
    then show ?thesis using True by (intro exI [of _ "e # pre"] exI [of _ e'] exI [of _ post]) simp
  next
    case False
    then have "b = first + of_nat i"
      using Cons.prems
      by (auto simp: good_def Let_def bind_eq_Some_conv split: if_splits dest!: walk_loop_broken)
    with False show ?thesis by (intro exI [of _ "[]"] exI [of _ e] exI [of _ es]) simp
  qed
qed simp

lemma linked_append:
  "linked first i prev (es @ es') \<longleftrightarrow> linked first i prev es \<and> linked first (i + length es) (head_of prev es) es'"
  by (induction es arbitrary: i prev) auto

lemma head_of_append [simp]: "head_of prev (es @ es') = head_of (head_of prev es) es'"
  by (induction es arbitrary: prev) auto

text \<open>The head determines the chain, up to a broken hash.\<close>

lemma head_binds:
  "linked f i g es \<Longrightarrow> linked f' i g es' \<Longrightarrow> length es = length es' \<Longrightarrow> head_of g es = head_of g es' \<Longrightarrow> es = es' \<or> broken"
proof (induction es arbitrary: es' rule: rev_induct)
  case (snoc e es)
  obtain ds d where d: "es' = ds @ [d]" using snoc.prems(3) by (cases es' rule: rev_cases) auto
  have g: "good f (i + length es) (head_of g es) e" "good f' (i + length ds) (head_of g ds) d"
    and l: "linked f i g es" "linked f' i g ds"
    using snoc.prems(1,2) d by (simp_all add: linked_append)
  have "e = d \<or> broken"
    by (rule hash_binds) (use g snoc.prems(4) d in \<open>auto simp: good_def\<close>)
  then show ?case
  proof
    assume ed: "e = d"
    then have "es = ds \<or> broken"
      using snoc.IH [OF l] snoc.prems(3) d g by (simp add: good_def)
    then show ?thesis using ed d by blast
  qed simp
qed simp

lemma linked_nth:
  "linked f i g es \<longleftrightarrow> (\<forall>k < length es. good f (i + k) (if k = 0 then g else hash_of (es ! (k - 1))) (es ! k))"
proof (induction es arbitrary: i g)
  case (Cons e es)
  have "(\<forall>k < length (e # es). good f (i + k) (if k = 0 then g else hash_of ((e # es) ! (k - 1))) ((e # es) ! k))
      \<longleftrightarrow> good f i g e \<and> (\<forall>k < length es. good f (Suc i + k) (if k = 0 then hash_of e else hash_of (es ! (k - 1))) (es ! k))"
    by (auto simp: All_less_Suc2 nth_Cons')
  then show ?case using Cons by simp
qed simp

lemma head_of_last: "head_of g es = (if es = [] then g else hash_of (last es))"
  by (induction es arbitrary: g) auto

text \<open>A walk that finishes, in one statement.\<close>

definition first_seq :: "'e list \<Rightarrow> u32" where
  "first_seq es = (case es of [] \<Rightarrow> 0 | e # _ \<Rightarrow> seq_of e)"

lemma walk_cases:
  assumes "walk seq_of prev_of hash_of recompute es g = Some r"
  shows "cr_ok r \<longleftrightarrow> linked (first_seq es) 0 g es" "cr_ok r \<longleftrightarrow> cr_break_at r = None" "cr_head r = head_of g es"
    "cr_n r = of_nat (length es)"
proof -
  obtain h b where w: "walk_loop seq_of prev_of hash_of recompute (first_seq es) 0 (g, None) es = Some (h, b)"
    and r: "r = \<lparr> cr_ok = (b = None), cr_break_at = b, cr_head = h, cr_n = of_nat (length es) \<rparr>"
    using assms by (auto simp: walk_def first_seq_def Let_def)
  show "cr_ok r \<longleftrightarrow> linked (first_seq es) 0 g es"
    using walk_loop_ok [of "first_seq es" 0 g es h] walk_loop_good [of "first_seq es" 0 g es None] w r by (cases b) auto
  show "cr_ok r \<longleftrightarrow> cr_break_at r = None" "cr_n r = of_nat (length es)" using r by simp_all
  show "cr_head r = head_of g es" using walk_loop_head [OF w] r by simp
qed

lemma walk_linked:
  assumes "linked (first_seq es) 0 g es"
  shows "walk seq_of prev_of hash_of recompute es g
    = Some \<lparr> cr_ok = True, cr_break_at = None, cr_head = head_of g es, cr_n = of_nat (length es) \<rparr>"
  using walk_loop_good [OF assms, of None] by (simp add: walk_def first_seq_def Let_def)

lemma walk_breaks:
  assumes "walk seq_of prev_of hash_of recompute es g = Some r" "cr_break_at r = Some b"
  shows "\<exists>pre e post. es = pre @ e # post \<and> linked (first_seq es) 0 g pre \<and>
    \<not> good (first_seq es) (length pre) (head_of g pre) e \<and> b = first_seq es + of_nat (length pre)"
proof -
  obtain h where "walk_loop seq_of prev_of hash_of recompute (first_seq es) 0 (g, None) es = Some (h, Some b)"
    using assms by (auto simp: walk_def first_seq_def Let_def)
  from walk_loop_break [OF this] show ?thesis by simp
qed

end

subsection \<open>Both kinds of event keep it\<close>

lemma chained_hash_Some: "chained_hash sha v = Some h \<longleftrightarrow> (\<exists>a. canon_of v = Inr a \<and> h = sha a)"
  by (auto simp: chained_hash_def digest_of_def map_ok_def split: sum.splits)

lemma chained_hash_binds:
  assumes "chained_hash sha v = Some h" "chained_hash sha w = Some h" "Value_wf v" "Value_wf w"
  shows "v = w \<or> collides sha"
  using assms canon_injective [OF canon_of_Inr canon_of_Inr] unfolding chained_hash_Some collides_def by metis

lemma chained_hash_ok: "keys_clean v \<Longrightarrow> floatfree v \<Longrightarrow> \<exists>h. chained_hash sha v = Some h"
  using canon_of_ok [of v] by (auto simp: chained_hash_Some)

lemma key_ok_names: "list_all key_ok (map fst (TickEvent_fields b64 e))" "list_all key_ok (map fst (TimingEvent_fields m))"
  by (simp_all add: TickEvent_fields_def TimingEvent_fields_def key_ok_def less_eq_char_def)

lemma distinct_names: "distinct (map fst (TickEvent_fields b64 e))" "distinct (map fst (TimingEvent_fields m))"
  by (simp_all add: TickEvent_fields_def TimingEvent_fields_def)

lemma TickEvent_value_wf: "Value_wf (TickEvent_value b64 e)"
  unfolding TickEvent_value_def
  by (rule struct_value_wf [OF distinct_names(1)]) (simp add: TickEvent_fields_def serial)

lemma TimingEvent_value_wf: "Value_wf (TimingEvent_value e)"
  unfolding TimingEvent_value_def
  by (rule struct_value_wf [OF distinct_names(2)]) (simp add: TimingEvent_fields_def serial)

text \<open>The \<open>expect\<close> in the tick chain never fires; the one in the timing chain fires on huge durations.\<close>

lemma TickEvent_hash_total: "\<exists>h. chained_hash sha (TickEvent_value b64 e) = Some h"
  unfolding TickEvent_value_def
  by (rule chained_hash_ok [OF struct_value_clean struct_value_floatfree])
    (use key_ok_names in \<open>simp_all add: TickEvent_fields_def serial\<close>)

lemma TimingEvent_hash_total:
  "(\<exists>h. chained_hash sha (TimingEvent_value e) = Some h) \<longleftrightarrow>
     uint (tm_decide_ns e) \<le> MAX_SAFE_INTEGER \<and> uint (tm_io_ns e) \<le> MAX_SAFE_INTEGER"
proof -
  have "keys_clean (TimingEvent_value e)"
    unfolding TimingEvent_value_def
    by (rule struct_value_clean) (use key_ok_names in \<open>simp_all add: TimingEvent_fields_def serial\<close>)
  moreover have "floatfree (TimingEvent_value e) \<longleftrightarrow>
      uint (tm_decide_ns e) \<le> MAX_SAFE_INTEGER \<and> uint (tm_io_ns e) \<le> MAX_SAFE_INTEGER"
    by (auto simp: TimingEvent_value_def TimingEvent_fields_def struct_value_def list_all_iff serial num_floatfree)
  ultimately show ?thesis using canon_of_ok [of "TimingEvent_value e"] by (auto simp: chained_hash_Some)
qed

lemma TickEvent_value_inj:
  assumes "inj b64" "TickEvent_value b64 e = TickEvent_value b64 e'" shows "e = e'"
proof -
  have n: "map fst (TickEvent_fields b64 e) = map fst (TickEvent_fields b64 e')" by (simp add: TickEvent_fields_def)
  have "map snd (TickEvent_fields b64 e) = map snd (TickEvent_fields b64 e')"
    by (rule struct_value_inj [OF assms(2) [unfolded TickEvent_value_def] n distinct_names(1)])
  then show ?thesis
    using F64Array_value_inj [OF assms(1)]
    by (intro TickEvent.equality) (auto simp: TickEvent_fields_def)
qed

lemma TimingEvent_value_inj:
  assumes "TimingEvent_value e = TimingEvent_value e'" shows "e = e'"
proof -
  have n: "map fst (TimingEvent_fields e) = map fst (TimingEvent_fields e')" by (simp add: TimingEvent_fields_def)
  have "map snd (TimingEvent_fields e) = map snd (TimingEvent_fields e')"
    by (rule struct_value_inj [OF assms [unfolded TimingEvent_value_def] n distinct_names(2)])
  then show ?thesis by (intro TimingEvent.equality) (auto simp: TimingEvent_fields_def)
qed

interpretation ticks: hash_chain te_seq te_prev te_hash "TickEvent_recompute sha b64" "collides sha \<or> collides b64"
  for sha b64
proof
  fix e e' :: TickEvent
  assume h: "TickEvent_recompute sha b64 e = Some (te_hash e)" "TickEvent_recompute sha b64 e' = Some (te_hash e')"
    "te_hash e = te_hash e'"
  show "e = e' \<or> collides sha \<or> collides b64"
  proof (cases "collides sha \<or> collides b64")
    case False
    then have i: "inj b64" using not_collides_inj by blast
    have "TickEvent_value b64 (e \<lparr> te_hash := [] \<rparr>) = TickEvent_value b64 (e' \<lparr> te_hash := [] \<rparr>)"
      using chained_hash_binds [OF _ _ TickEvent_value_wf TickEvent_value_wf] h False
      unfolding TickEvent_recompute_def by metis
    from TickEvent_value_inj [OF i this] show ?thesis using h(3) by (cases e; cases e') simp
  qed simp
qed

interpretation timing: hash_chain tm_seq tm_prev tm_hash "TimingEvent_recompute sha" "collides sha" for sha
proof
  fix e e' :: TimingEvent
  assume h: "TimingEvent_recompute sha e = Some (tm_hash e)" "TimingEvent_recompute sha e' = Some (tm_hash e')"
    "tm_hash e = tm_hash e'"
  show "e = e' \<or> collides sha"
  proof (cases "collides sha")
    case False
    have "TimingEvent_value (e \<lparr> tm_hash := [] \<rparr>) = TimingEvent_value (e' \<lparr> tm_hash := [] \<rparr>)"
      using chained_hash_binds [OF _ _ TimingEvent_value_wf TimingEvent_value_wf] h False
      unfolding TimingEvent_recompute_def by metis
    from TimingEvent_value_inj [OF this] show ?thesis using h(3) by (cases e; cases e') simp
  qed simp
qed

subsection \<open>Building a chain\<close>

text \<open>What the session does with the verdicts of an episode: one event each, linked to the last head.\<close>

fun tick_chain :: "(string \<Rightarrow> string) \<Rightarrow> (u8 list \<Rightarrow> string) \<Rightarrow> string \<Rightarrow> SafetyVerdict list \<Rightarrow> TickEvent list option" where
  "tick_chain sha b64 head [] = Some []"
| "tick_chain sha b64 head (v # vs) =
     Option.bind (tick_event sha b64 head v) (\<lambda>e. map_option ((#) e) (tick_chain sha b64 (te_hash e) vs))"

lemma tick_event_good:
  assumes "tick_event sha b64 prev v = Some e"
  shows "te_seq e = sv_seq v" "te_prev e = prev" "TickEvent_recompute sha b64 e = Some (te_hash e)"
  using assms by (auto simp: tick_event_def Let_def TickEvent_recompute_def)

lemma tick_event_total: "\<exists>e. tick_event sha b64 prev v = Some e"
  unfolding tick_event_def Let_def map_option_eq_Some using TickEvent_hash_total by blast

lemma tick_chain_total: "\<exists>es. tick_chain sha b64 head vs = Some es"
proof (induction vs arbitrary: head)
  case (Cons v vs)
  obtain e where "tick_event sha b64 head v = Some e" using tick_event_total by blast
  moreover obtain es where "tick_chain sha b64 (te_hash e) vs = Some es" using Cons by blast
  ultimately show ?case by simp
qed simp

lemma tick_chain_linked:
  "tick_chain sha b64 head vs = Some es \<Longrightarrow> (\<forall>k < length vs. sv_seq (vs ! k) = f + of_nat (i + k)) \<Longrightarrow>
     length es = length vs \<and> ticks.linked sha b64 f i head es"
proof (induction vs arbitrary: head es i)
  case (Cons v vs)
  obtain e es' where e: "tick_event sha b64 head v = Some e" "tick_chain sha b64 (te_hash e) vs = Some es'" "es = e # es'"
    using Cons.prems(1) by (auto simp: bind_eq_Some_conv)
  have "sv_seq v = f + of_nat i" "\<forall>k < length vs. sv_seq (vs ! k) = f + of_nat (Suc i + k)"
    using Cons.prems(2) by (force simp: All_less_Suc2)+
  then show ?case using Cons.IH [OF e(2), of "Suc i"] e(3) tick_event_good [OF e(1)] by (simp add: ticks.good_def)
qed simp

lemma tick_chain_verifies:
  assumes "tick_chain sha b64 g vs = Some es" "\<forall>k < length vs. sv_seq (vs ! k) = f + of_nat k"
  shows "verify_tick_chain sha b64 es g = Some \<lparr> cr_ok = True, cr_break_at = None,
    cr_head = (if es = [] then g else te_hash (last es)), cr_n = of_nat (length vs) \<rparr>"
proof -
  have l: "length es = length vs" "ticks.linked sha b64 f 0 g es"
    using tick_chain_linked [OF assms(1), of f 0] assms(2) by simp_all
  have "ticks.first_seq es = f \<or> es = []"
    using l(2) by (cases es) (auto simp: ticks.first_seq_def ticks.good_def)
  then have "ticks.linked sha b64 (ticks.first_seq es) 0 g es" using l(2) by auto
  from ticks.walk_linked [OF this] show ?thesis
    using l(1) by (simp add: verify_tick_chain_def ticks.head_of_last)
qed

end
