(* ===== verification/Handoff.thy ===== *)
theory Handoff
  imports Chain
begin

text \<open>
  \<open>lictor-receipt/src/handoff.rs\<close> with the signature helpers of \<open>sign.rs\<close>: the handoff record the
  fuse emits when it escalates, the acknowledgement token an operator signs, and \<open>verify_ack\<close>.
  Ed25519, SHA-256, the hexadecimal and the base64 codec belong to other crates: the record
  \<open>Crypto\<close> collects them as parameters, and \<open>signs\<close> states what the source relies on, that a
  signature verifies under its own key and that hexadecimal text decodes to what it encodes.  The
  nonce files are input/output.
\<close>

subsection \<open>The cryptographic parameters\<close>

record Crypto =
  cy_sha :: "string \<Rightarrow> string"
  cy_b64 :: "u8 list \<Rightarrow> string"
  cy_to_hex :: "u8 list \<Rightarrow> string"
  cy_of_hex :: "string \<Rightarrow> u8 list option"
  cy_public :: "u8 list \<Rightarrow> u8 list"
  cy_sign :: "u8 list \<Rightarrow> string \<Rightarrow> u8 list"
  cy_point :: "u8 list \<Rightarrow> bool"
  cy_verify :: "u8 list \<Rightarrow> string \<Rightarrow> u8 list \<Rightarrow> bool"

definition signs :: "Crypto \<Rightarrow> u8 list \<Rightarrow> bool" where
  "signs cy seed \<longleftrightarrow> (\<forall>bs. cy_of_hex cy (cy_to_hex cy bs) = Some bs) \<and> length (cy_public cy seed) = 32 \<and>
     cy_point cy (cy_public cy seed) \<and>
     (\<forall>m. length (cy_sign cy seed m) = 64 \<and> cy_verify cy (cy_public cy seed) m (cy_sign cy seed m))"

definition pubkey_hex :: "Crypto \<Rightarrow> u8 list \<Rightarrow> string" where
  "pubkey_hex cy seed = cy_to_hex cy (cy_public cy seed)"

definition sign_bytes :: "Crypto \<Rightarrow> u8 list \<Rightarrow> string \<Rightarrow> string \<times> string" where
  "sign_bytes cy seed bytes = (cy_to_hex cy (cy_public cy seed), cy_to_hex cy (cy_sign cy seed bytes))"

definition hex_bytes :: "Crypto \<Rightarrow> nat \<Rightarrow> string \<Rightarrow> u8 list option" where
  "hex_bytes cy n s = (case cy_of_hex cy s of None \<Rightarrow> None | Some b \<Rightarrow> if length b = n then Some b else None)"

definition verify_bytes :: "Crypto \<Rightarrow> string \<Rightarrow> string \<Rightarrow> string \<Rightarrow> string + unit" where
  "verify_bytes cy pubkey sg bytes = (case hex_bytes cy 32 pubkey of
       None \<Rightarrow> Inl ''public key is not 32 hex bytes''
     | Some pk \<Rightarrow>
         fail_if (\<not> cy_point cy pk) ''public key is not a valid Ed25519 point'' (
         case hex_bytes cy 64 sg of
           None \<Rightarrow> Inl ''signature is not 64 hex bytes''
         | Some s \<Rightarrow>
             fail_if (\<not> cy_verify cy pk bytes s) ''Ed25519 signature does not verify against the canonical bytes'' (Inr ())))"

lemma verify_sign_bytes:
  assumes "signs cy seed"
  shows "verify_bytes cy (fst (sign_bytes cy seed bytes)) (snd (sign_bytes cy seed bytes)) bytes = Inr ()"
  using assms by (simp add: signs_def verify_bytes_def sign_bytes_def hex_bytes_def fail_if_def)

subsection \<open>Tokens and records\<close>

definition HANDOFF_SCHEMA :: string where "HANDOFF_SCHEMA = ''lictor-handoff/v1''"
definition MAX_NOTE_CHARS :: nat where "MAX_NOTE_CHARS = 200"

record AckToken =
  ak_schema :: string
  ak_handoff_digest :: string
  ak_decision :: AckDecision
  ak_operator :: string
  ak_nonce :: u64
  ak_note :: string
  ak_sig :: string

record HandoffRecord =
  hr_schema :: string
  hr_run_id :: string
  hr_arm_id :: string
  hr_episode_index :: u32
  hr_seq :: u32
  hr_tick :: u32
  hr_reason :: ReasonCode
  hr_reason_text :: string
  hr_reasons :: "string list"
  hr_trips :: u32
  hr_fired :: u32
  hr_window_hits :: u8
  hr_top_z :: "(string \<times> f64) list"
  hr_chain_at :: string
  hr_envelope_digest :: string
  hr_calibration_digest :: "string option"
  hr_digest :: string
  hr_ack :: "AckToken option"
  hr_resolved_tick :: "u32 option"
  hr_outcome :: string

definition AckToken_value :: "AckToken \<Rightarrow> Value" where
  "AckToken_value t = struct_value
     [(''schema'', VStr (ak_schema t)), (''handoff_digest'', VStr (ak_handoff_digest t)),
      (''decision'', VStr (AckDecision_name (ak_decision t))), (''operator'', VStr (ak_operator t)),
      (''nonce'', num (ak_nonce t)), (''note'', VStr (ak_note t)), (''sig'', VStr (ak_sig t))]"

definition HandoffRecord_fields :: "HandoffRecord \<Rightarrow> (string \<times> Value) list" where
  "HandoffRecord_fields h =
     [(''schema'', VStr (hr_schema h)), (''run_id'', VStr (hr_run_id h)), (''arm_id'', VStr (hr_arm_id h)),
      (''episode_index'', num (hr_episode_index h)), (''seq'', num (hr_seq h)), (''tick'', num (hr_tick h)),
      (''reason'', VStr (reason_name (hr_reason h))), (''reason_text'', VStr (hr_reason_text h)),
      (''reasons'', strings (hr_reasons h)), (''trips'', num (hr_trips h)), (''fired'', num (hr_fired h)),
      (''window_hits'', num (hr_window_hits h)),
      (''top_z'', VArr (map (\<lambda>(n, z). VArr [VStr n, F64Hex z]) (hr_top_z h))), (''chain_at'', VStr (hr_chain_at h)),
      (''envelope_digest'', VStr (hr_envelope_digest h)), (''calibration_digest'', opt VStr (hr_calibration_digest h)),
      (''digest'', VStr (hr_digest h)), (''ack'', opt AckToken_value (hr_ack h)),
      (''resolved_tick'', opt num (hr_resolved_tick h)), (''outcome'', VStr (hr_outcome h))]"

definition HandoffRecord_value :: "HandoffRecord \<Rightarrow> Value" where
  "HandoffRecord_value h = struct_value (HandoffRecord_fields h)"

text \<open>The record without its resolution: what the operator signs.\<close>

definition unresolved :: "HandoffRecord \<Rightarrow> HandoffRecord" where
  "unresolved h = h \<lparr> hr_digest := [], hr_ack := None, hr_resolved_tick := None, hr_outcome := [] \<rparr>"

definition compute_digest :: "Crypto \<Rightarrow> HandoffRecord \<Rightarrow> CanonError + string" where
  "compute_digest cy h = digest_of (cy_sha cy) (HandoffRecord_value (unresolved h))"

definition with_digest :: "Crypto \<Rightarrow> HandoffRecord \<Rightarrow> CanonError + HandoffRecord" where
  "with_digest cy h = map_ok (\<lambda>d. h \<lparr> hr_digest := d \<rparr>) (compute_digest cy h)"

definition ack_core :: "AckToken \<Rightarrow> (string \<times> Value) list" where
  "ack_core t =
     [(''schema'', VStr (ak_schema t)), (''handoff_digest'', VStr (ak_handoff_digest t)),
      (''decision'', VStr (AckDecision_name (ak_decision t))), (''operator'', VStr (ak_operator t)),
      (''nonce'', num (ak_nonce t)), (''note'', VStr (ak_note t))]"

definition ack_signing_bytes :: "AckToken \<Rightarrow> CanonError + string" where
  "ack_signing_bytes t = canon_of (struct_value (ack_core t))"

text \<open>\<open>note.chars().count()\<close> on UTF-8 bytes: continuation bytes do not count.\<close>

definition chars_count :: "string \<Rightarrow> nat" where
  "chars_count s = length (filter (\<lambda>c. \<not> (128 \<le> (of_char c :: nat) \<and> of_char c < (192 :: nat))) s)"

datatype SignError = SignKey string | SignCanon CanonError

definition sign_ack :: "Crypto \<Rightarrow> string \<Rightarrow> AckDecision \<Rightarrow> u64 \<Rightarrow> string \<Rightarrow> u8 list \<Rightarrow> SignError + AckToken" where
  "sign_ack cy digest decision nonce note seed =
     fail_if (MAX_NOTE_CHARS < chars_count note) (SignKey ''ack note longer than 200 characters'') (
     let t = \<lparr> ak_schema = HANDOFF_SCHEMA, ak_handoff_digest = digest, ak_decision = decision,
               ak_operator = pubkey_hex cy seed, ak_nonce = nonce, ak_note = note, ak_sig = [] \<rparr> in
     case ack_signing_bytes t of Inl e \<Rightarrow> Inl (SignCanon e)
     | Inr bytes \<Rightarrow> Inr (t \<lparr> ak_sig := snd (sign_bytes cy seed bytes) \<rparr>))"

datatype AckError = UnknownOperator | BadSignature | WrongHandoff | NonceReplay | NoPendingHandoff | TooLongNote

definition verify_ack ::
  "Crypto \<Rightarrow> AckToken \<Rightarrow> string list \<Rightarrow> string option \<Rightarrow> u32 \<Rightarrow> u64 list \<Rightarrow> AckError + VerifiedAck" where
  "verify_ack cy t operators pending_digest pending_seq last_nonce =
     (case position (\<lambda>o'. o' = ak_operator t) operators of None \<Rightarrow> Inl UnknownOperator
      | Some slot \<Rightarrow>
        fail_if (MAX_NOTE_CHARS < chars_count (ak_note t)) TooLongNote (
        fail_if (ak_schema t \<noteq> HANDOFF_SCHEMA) BadSignature (
        case ack_signing_bytes t of Inl _ \<Rightarrow> Inl BadSignature
        | Inr bytes \<Rightarrow>
          fail_if (isl (verify_bytes cy (ak_operator t) (ak_sig t) bytes)) BadSignature (
          case pending_digest of None \<Rightarrow> Inl NoPendingHandoff
          | Some pending \<Rightarrow>
            fail_if (ak_handoff_digest t \<noteq> pending) WrongHandoff (
            let last = (if slot < length last_nonce then last_nonce ! slot else 0) in
            fail_if (ak_nonce t \<le> last) NonceReplay (
            fail_if (256 \<le> slot) UnknownOperator (
            Inr \<lparr> va_decision = ak_decision t, va_operator_slot = of_nat slot, va_nonce = ak_nonce t,
                  va_handoff_seq = pending_seq \<rparr>)))))))"

subsection \<open>What an accepted acknowledgement guarantees\<close>

lemma isl_unit: "isl r \<longleftrightarrow> r \<noteq> Inr ()" for r :: "'e + unit"
  by (cases r) auto

lemma verify_ack_iff:
  "verify_ack cy t ops pd ps nonces = Inr va \<longleftrightarrow>
     (\<exists>slot bytes. position (\<lambda>o'. o' = ak_operator t) ops = Some slot \<and> slot < 256 \<and>
        chars_count (ak_note t) \<le> MAX_NOTE_CHARS \<and> ak_schema t = HANDOFF_SCHEMA \<and>
        ack_signing_bytes t = Inr bytes \<and> verify_bytes cy (ak_operator t) (ak_sig t) bytes = Inr () \<and>
        pd = Some (ak_handoff_digest t) \<and> (if slot < length nonces then nonces ! slot else 0) < ak_nonce t \<and>
        va = \<lparr> va_decision = ak_decision t, va_operator_slot = of_nat slot, va_nonce = ak_nonce t, va_handoff_seq = ps \<rparr>)"
proof (cases "position (\<lambda>o'. o' = ak_operator t) ops")
  case (Some slot)
  show ?thesis
  proof (cases "ack_signing_bytes t")
    case (Inr bytes)
    show ?thesis
    proof (cases pd)
      case (Some pending)
      with Inr \<open>position _ _ = _\<close> show ?thesis
        by (auto simp: verify_ack_def fail_if_Inr isl_unit not_le not_less Let_def)
    qed (use Inr Some in \<open>simp add: verify_ack_def fail_if_Inr\<close>)
  qed (use Some in \<open>simp add: verify_ack_def fail_if_Inr\<close>)
qed (simp add: verify_ack_def)

text \<open>A token signed for the pending handoff by a listed operator, with a fresh nonce, is accepted.\<close>

lemma ack_core_sig [simp]: "ack_core (t \<lparr> ak_sig := s \<rparr>) = ack_core t"
  by (simp add: ack_core_def)

lemma sign_ack_verifies:
  assumes s: "signs cy seed" and t: "sign_ack cy digest decision nonce note seed = Inr t"
    and p: "position (\<lambda>o'. o' = pubkey_hex cy seed) operators = Some slot" "slot < 256"
    and n: "(if slot < length nonces then nonces ! slot else 0) < nonce"
  shows "verify_ack cy t operators (Some digest) pending_seq nonces
    = Inr \<lparr> va_decision = decision, va_operator_slot = of_nat slot, va_nonce = nonce, va_handoff_seq = pending_seq \<rparr>"
proof -
  let ?t = "\<lparr> ak_schema = HANDOFF_SCHEMA, ak_handoff_digest = digest, ak_decision = decision,
               ak_operator = pubkey_hex cy seed, ak_nonce = nonce, ak_note = note, ak_sig = [] \<rparr>"
  obtain bytes where b: "ack_signing_bytes ?t = Inr bytes" "t = ?t \<lparr> ak_sig := snd (sign_bytes cy seed bytes) \<rparr>"
    "chars_count note \<le> MAX_NOTE_CHARS"
    using t by (auto simp: sign_ack_def fail_if_Inr Let_def not_less split: sum.splits)
  have "verify_bytes cy (pubkey_hex cy seed) (snd (sign_bytes cy seed bytes)) bytes = Inr ()"
    using verify_sign_bytes [OF s, of bytes] by (simp add: sign_bytes_def pubkey_hex_def)
  moreover have "ack_signing_bytes t = Inr bytes" using b by (simp add: ack_signing_bytes_def ack_core_def)
  ultimately show ?thesis using b p n by (simp add: verify_ack_iff)
qed

end
