(* ===== verification/Receipt.thy ===== *)
theory Receipt
  imports Handoff
begin

text \<open>
  \<open>lictor-receipt/src/body.rs\<close> and \<open>sign.rs\<close>: the receipt body with its bindings, the honest
  evaluation of the record (\<open>evaluate_fuse\<close>), signing, and \<open>verify\<close> with the check of the embedded
  ticks.  A string map is the ordered association list of a \<open>BTreeMap\<close>.  The lemmas show
  that a consistent body signed here verifies as intact, what an intact report guarantees, and
  what \<open>fuse_ok\<close> rests on.
\<close>

subsection \<open>The body\<close>

record RunBinding =
  rb_run_id :: string
  rb_arm_id :: string
  rb_episode_index :: u32
  rb_seed :: u64
  rb_seed_pool :: string
  rb_init_state_digest :: string
  rb_env :: "(string \<times> string) list"
  rb_policy :: "(string \<times> string) list"
  rb_host :: "(string \<times> string) list"

record BudgetBinding =
  bb_mode :: FuseMode
  bb_delay_steps :: u16
  bb_tick_ms :: u32
  bb_exec_mode :: ExecMode
  bb_stitch :: string
  bb_on_escalate :: string
  bb_tier0_armed :: "string list"
  bb_tier1_armed :: bool
  bb_gate :: "string list"
  bb_alpha_num :: u32
  bb_alpha_den :: u32
  bb_kn :: "u8 \<times> u8"

record FaultBinding =
  fb_kind :: string
  fb_params :: "(string \<times> string) list"
  fb_stream_seed :: u64

record VerdictCounts =
  vc_ticks :: u32
  vc_nominal :: u32
  vc_watching :: u32
  vc_clamped :: u32
  vc_braking :: u32
  vc_held :: u32
  vc_escalated :: u32
  vc_fault :: u32
  vc_terminated :: u32
  vc_substituted :: u32
  vc_chunks_seen :: u32
  vc_chunks_rejected :: u32
  vc_clamps :: u32
  vc_holds :: u32
  vc_rearms :: u32
  vc_escalations :: u32
  vc_trips_by_bit :: "u32 list"
  vc_fired_by_feat :: "u32 list"
  vc_first_trip_tick :: "u32 option"
  vc_first_trip_reason :: "string option"
  vc_first_stop_tick :: "u32 option"
  vc_handoff_tick :: "u32 option"
  vc_violations_reached_env :: u32
  vc_terminal_state :: FuseState

record EpisodeOutcome =
  eo_steps :: u32
  eo_success :: bool
  eo_terminated :: bool
  eo_truncated :: bool
  eo_max_coverage :: f64
  eo_final_coverage :: f64
  eo_reward_sum :: f64
  eo_ended_by :: string
  eo_max_s :: f64
  eo_max_z :: F64Array

record LatencySummary =
  ls_n :: u32
  ls_p50_ns :: u64
  ls_p90_ns :: u64
  ls_p99_ns :: u64
  ls_p999_ns :: u64
  ls_max_ns :: u64
  ls_label :: string

record ReceiptBody =
  bo_schema :: string
  bo_canonical :: string
  bo_created_epoch :: u64
  bo_lictor_version :: string
  bo_lictor_git :: string
  bo_lictor_sha256 :: string
  bo_client :: string
  bo_run :: RunBinding
  bo_budget :: BudgetBinding
  bo_fault_injection :: "FaultBinding option"
  bo_envelope :: Value
  bo_envelope_digest :: string
  bo_calibration_digest :: "string option"
  bo_inputs :: "(string \<times> string) list"
  bo_counts :: VerdictCounts
  bo_outcome :: EpisodeOutcome
  bo_handoffs :: "HandoffRecord list"
  bo_verdict_events :: u32
  bo_verdict_chain_head :: string
  bo_timing_events :: u32
  bo_timing_chain_head :: string
  bo_latency :: LatencySummary
  bo_ticks_policy :: string
  bo_ticks :: "TickEvent list"
  bo_fuse_ok :: bool
  bo_fuse_notes :: "string list"
  bo_ledger_prev :: "string option"

definition string_map :: "(string \<times> string) list \<Rightarrow> Value" where
  "string_map m = VObj (map (\<lambda>(k, v). (k, VStr v)) m)"

definition RunBinding_value :: "RunBinding \<Rightarrow> Value" where
  "RunBinding_value r = struct_value
     [(''run_id'', VStr (rb_run_id r)), (''arm_id'', VStr (rb_arm_id r)),
      (''episode_index'', num (rb_episode_index r)), (''seed'', num (rb_seed r)),
      (''seed_pool'', VStr (rb_seed_pool r)), (''init_state_digest'', VStr (rb_init_state_digest r)),
      (''env'', string_map (rb_env r)), (''policy'', string_map (rb_policy r)),
      (''host'', string_map (rb_host r))]"

definition BudgetBinding_value :: "BudgetBinding \<Rightarrow> Value" where
  "BudgetBinding_value b = struct_value
     [(''mode'', VStr (FuseMode_name (bb_mode b))), (''delay_steps'', num (bb_delay_steps b)),
      (''tick_ms'', num (bb_tick_ms b)), (''exec_mode'', VStr (ExecMode_name (bb_exec_mode b))),
      (''stitch'', VStr (bb_stitch b)), (''on_escalate'', VStr (bb_on_escalate b)),
      (''tier0_armed'', strings (bb_tier0_armed b)), (''tier1_armed'', VBool (bb_tier1_armed b)),
      (''gate'', strings (bb_gate b)), (''alpha_num'', num (bb_alpha_num b)),
      (''alpha_den'', num (bb_alpha_den b)), (''kn'', VArr [num (fst (bb_kn b)), num (snd (bb_kn b))])]"

definition FaultBinding_value :: "FaultBinding \<Rightarrow> Value" where
  "FaultBinding_value f = struct_value
     [(''kind'', VStr (fb_kind f)), (''params'', string_map (fb_params f)),
      (''stream_seed'', num (fb_stream_seed f))]"

definition VerdictCounts_value :: "VerdictCounts \<Rightarrow> Value" where
  "VerdictCounts_value c = struct_value
     [(''ticks'', num (vc_ticks c)), (''nominal'', num (vc_nominal c)),
      (''watching'', num (vc_watching c)), (''clamped'', num (vc_clamped c)),
      (''braking'', num (vc_braking c)), (''held'', num (vc_held c)),
      (''escalated'', num (vc_escalated c)), (''fault'', num (vc_fault c)),
      (''terminated'', num (vc_terminated c)), (''substituted'', num (vc_substituted c)),
      (''chunks_seen'', num (vc_chunks_seen c)), (''chunks_rejected'', num (vc_chunks_rejected c)),
      (''clamps'', num (vc_clamps c)), (''holds'', num (vc_holds c)), (''rearms'', num (vc_rearms c)),
      (''escalations'', num (vc_escalations c)), (''trips_by_bit'', VArr (map num (vc_trips_by_bit c))),
      (''fired_by_feat'', VArr (map num (vc_fired_by_feat c))),
      (''first_trip_tick'', opt num (vc_first_trip_tick c)),
      (''first_trip_reason'', opt VStr (vc_first_trip_reason c)),
      (''first_stop_tick'', opt num (vc_first_stop_tick c)),
      (''handoff_tick'', opt num (vc_handoff_tick c)),
      (''violations_reached_env'', num (vc_violations_reached_env c)),
      (''terminal_state'', VStr (FuseState_name (vc_terminal_state c)))]"

definition EpisodeOutcome_value :: "(u8 list \<Rightarrow> string) \<Rightarrow> EpisodeOutcome \<Rightarrow> Value" where
  "EpisodeOutcome_value b64 e = struct_value
     [(''steps'', num (eo_steps e)), (''success'', VBool (eo_success e)),
      (''terminated'', VBool (eo_terminated e)), (''truncated'', VBool (eo_truncated e)),
      (''max_coverage'', F64Hex (eo_max_coverage e)), (''final_coverage'', F64Hex (eo_final_coverage e)),
      (''reward_sum'', F64Hex (eo_reward_sum e)), (''ended_by'', VStr (eo_ended_by e)),
      (''max_s'', F64Hex (eo_max_s e)), (''max_z'', F64Array_value b64 (eo_max_z e))]"

definition LatencySummary_value :: "LatencySummary \<Rightarrow> Value" where
  "LatencySummary_value l = struct_value
     [(''n'', num (ls_n l)), (''p50_ns'', num (ls_p50_ns l)), (''p90_ns'', num (ls_p90_ns l)),
      (''p99_ns'', num (ls_p99_ns l)), (''p999_ns'', num (ls_p999_ns l)), (''max_ns'', num (ls_max_ns l)),
      (''label'', VStr (ls_label l))]"

definition ReceiptBody_value :: "(u8 list \<Rightarrow> string) \<Rightarrow> ReceiptBody \<Rightarrow> Value" where
  "ReceiptBody_value b64 b = struct_value
     [(''schema'', VStr (bo_schema b)), (''canonical'', VStr (bo_canonical b)),
      (''created_epoch'', num (bo_created_epoch b)), (''lictor_version'', VStr (bo_lictor_version b)),
      (''lictor_git'', VStr (bo_lictor_git b)), (''lictor_sha256'', VStr (bo_lictor_sha256 b)),
      (''client'', VStr (bo_client b)), (''run'', RunBinding_value (bo_run b)),
      (''budget'', BudgetBinding_value (bo_budget b)),
      (''fault_injection'', opt FaultBinding_value (bo_fault_injection b)),
      (''envelope'', (bo_envelope b)), (''envelope_digest'', VStr (bo_envelope_digest b)),
      (''calibration_digest'', opt VStr (bo_calibration_digest b)), (''inputs'', string_map (bo_inputs b)),
      (''counts'', VerdictCounts_value (bo_counts b)),
      (''outcome'', EpisodeOutcome_value b64 (bo_outcome b)),
      (''handoffs'', VArr (map HandoffRecord_value (bo_handoffs b))),
      (''verdict_events'', num (bo_verdict_events b)),
      (''verdict_chain_head'', VStr (bo_verdict_chain_head b)),
      (''timing_events'', num (bo_timing_events b)),
      (''timing_chain_head'', VStr (bo_timing_chain_head b)),
      (''latency'', LatencySummary_value (bo_latency b)), (''ticks_policy'', VStr (bo_ticks_policy b)),
      (''ticks'', VArr (map (TickEvent_value b64) (bo_ticks b))), (''fuse_ok'', VBool (bo_fuse_ok b)),
      (''fuse_notes'', strings (bo_fuse_notes b)), (''ledger_prev'', opt VStr (bo_ledger_prev b))]"

definition VerdictCounts_from :: "Tally \<Rightarrow> VerdictCounts" where
  "VerdictCounts_from t = \<lparr>
     vc_ticks = ta_ticks t, vc_nominal = ta_nominal t, vc_watching = ta_watching t,
     vc_clamped = ta_clamped t, vc_braking = ta_braking t, vc_held = ta_held t,
     vc_escalated = ta_escalated t, vc_fault = ta_fault t, vc_terminated = ta_terminated t,
     vc_substituted = ta_substituted t, vc_chunks_seen = ta_chunks_seen t,
     vc_chunks_rejected = ta_chunks_rejected t, vc_clamps = ta_clamps t, vc_holds = ta_holds t,
     vc_rearms = ta_rearms t, vc_escalations = ta_escalations t, vc_trips_by_bit = ta_trips_by_bit t,
     vc_fired_by_feat = ta_fired_by_feat t, vc_first_trip_tick = ta_first_trip_tick t,
     vc_first_trip_reason = map_option reason_name (ta_first_trip_reason t),
     vc_first_stop_tick = ta_first_stop_tick t, vc_handoff_tick = ta_handoff_tick t,
     vc_violations_reached_env = ta_violations_reached_env t,
     vc_terminal_state = ta_terminal_state t \<rparr>"

definition RECEIPT_SCHEMA :: string where "RECEIPT_SCHEMA = ''lictor-receipt/v1''"

definition ReceiptBody_canonical :: "(u8 list \<Rightarrow> string) \<Rightarrow> ReceiptBody \<Rightarrow> CanonError + string" where
  "ReceiptBody_canonical b64 b = canon_of (ReceiptBody_value b64 b)"

definition ReceiptBody_digest :: "Crypto \<Rightarrow> ReceiptBody \<Rightarrow> CanonError + string" where
  "ReceiptBody_digest cy b = map_ok (cy_sha cy) (ReceiptBody_canonical (cy_b64 cy) b)"

subsection \<open>The honest verdict on the record\<close>

definition NOTE_EPHEMERAL_KEY :: string where "NOTE_EPHEMERAL_KEY = ''ephemeral signing key''"
definition NOTE_OBSERVE :: string where
  "NOTE_OBSERVE = ''the fuse observed but did not enforce -- this receipt does not attest protection''"
definition NOTE_TIER1_UNCALIBRATED :: string where
  "NOTE_TIER1_UNCALIBRATED = ''tier 1 armed without a calibration digest''"
definition NOTE_FAULT :: string where "NOTE_FAULT = ''fuse latched Fault''"
definition NOTE_DELAY_WITHOUT_EXEC :: string where
  "NOTE_DELAY_WITHOUT_EXEC = ''delay injected without an exec mode''"

definition exec_mode_missing :: "BudgetBinding \<Rightarrow> bool" where
  "exec_mode_missing b \<longleftrightarrow> bb_exec_mode b \<noteq> Sync \<and> bb_exec_mode b \<noteq> Async"

definition note_if :: "bool \<Rightarrow> string \<Rightarrow> string list" where
  "note_if c n = (if c then [n] else [])"

definition violations_note :: "u32 \<Rightarrow> string" where
  "violations_note n = digits (unat n) @ '' tier-0 violations reached the environment''"

definition evaluate_fuse ::
  "BudgetBinding \<Rightarrow> VerdictCounts \<Rightarrow> string option \<Rightarrow> bool \<Rightarrow> bool \<times> string list" where
  "evaluate_fuse budget counts calibration_digest ephemeral_key =
     (let notes =
        note_if (bb_mode budget = Observe) NOTE_OBSERVE
        @ note_if (0 < vc_violations_reached_env counts) (violations_note (vc_violations_reached_env counts))
        @ note_if (bb_tier1_armed budget \<and> (case calibration_digest of None \<Rightarrow> True | Some d \<Rightarrow> d = [])) NOTE_TIER1_UNCALIBRATED
        @ note_if (vc_terminal_state counts = Fault) NOTE_FAULT
        @ note_if (0 < bb_delay_steps budget \<and> exec_mode_missing budget) NOTE_DELAY_WITHOUT_EXEC
        @ note_if ephemeral_key NOTE_EPHEMERAL_KEY in
      (notes = [], notes))"

subsection \<open>Signing and verifying\<close>

record SignedReceipt =
  sr_body :: ReceiptBody
  sr_body_digest :: string
  sr_pubkey :: string
  sr_sig :: string

definition sign_receipt :: "Crypto \<Rightarrow> ReceiptBody \<Rightarrow> u8 list \<Rightarrow> CanonError + SignedReceipt" where
  "sign_receipt cy body seed = map_ok (\<lambda>canonical.
     let (pubkey, sg) = sign_bytes cy seed canonical in
     \<lparr> sr_body = body, sr_body_digest = cy_sha cy canonical, sr_pubkey = pubkey, sr_sig = sg \<rparr>)
     (ReceiptBody_canonical (cy_b64 cy) body)"

record VerifyReport =
  vr_schema_ok :: bool
  vr_sig_ok :: bool
  vr_digest_ok :: bool
  vr_ticks_ok :: bool
  vr_pubkey_ok :: bool
  vr_envelope_digest_ok :: bool
  vr_counts_ok :: bool
  vr_fuse_ok :: bool
  vr_break_at :: "u32 option"
  vr_notes :: "string list"

definition intact :: "VerifyReport \<Rightarrow> bool" where
  "intact r \<longleftrightarrow> vr_schema_ok r \<and> vr_sig_ok r \<and> vr_digest_ok r \<and> vr_ticks_ok r \<and> vr_pubkey_ok r \<and>
     vr_envelope_digest_ok r \<and> vr_counts_ok r"

text \<open>
  The formatting of the notes.  \<open>{:?}\<close> of a string also escapes control and other characters; the
  model only adds the quotes.
\<close>

definition debug_str :: "string \<Rightarrow> string" where
  "debug_str s = [QUOTE] @ s @ [QUOTE]"

definition debug_opt :: "u32 option \<Rightarrow> string" where
  "debug_opt x = (case x of None \<Rightarrow> ''None'' | Some n \<Rightarrow> ''Some('' @ digits (unat n) @ '')'')"

definition show_bool :: "bool \<Rightarrow> string" where
  "show_bool b = (if b then ''true'' else ''false'')"

text \<open>\<open>VerifyReport::from_signature_checks\<close>: the report and the notes it appends.\<close>

definition from_signature_checks ::
  "Crypto \<Rightarrow> bool \<Rightarrow> CanonError + string \<Rightarrow> string \<Rightarrow> string \<Rightarrow> string \<Rightarrow> string option \<Rightarrow> VerifyReport \<times> string list" where
  "from_signature_checks cy schema_ok canonical body_digest pubkey sg expect_pubkey =
     (let (digest_ok, sig_ok, notes) = (case canonical of
            Inr bytes \<Rightarrow>
              (let digest_ok = (cy_sha cy bytes = body_digest) in
               (digest_ok, \<not> isl (verify_bytes cy pubkey sg bytes),
                note_if (\<not> digest_ok) ''body_digest does not match the recomputed canonical bytes''
                @ (case verify_bytes cy pubkey sg bytes of Inl e \<Rightarrow> [e] | Inr _ \<Rightarrow> [])))
          | Inl e \<Rightarrow> (False, False, [''body is not canonicalisable: '' @ CanonError_text e]));
          pubkey_ok = (case expect_pubkey of None \<Rightarrow> True | Some p \<Rightarrow> p = pubkey) in
      (\<lparr> vr_schema_ok = schema_ok, vr_sig_ok = sig_ok, vr_digest_ok = digest_ok, vr_ticks_ok = True,
         vr_pubkey_ok = pubkey_ok, vr_envelope_digest_ok = True, vr_counts_ok = True, vr_fuse_ok = True,
         vr_break_at = None, vr_notes = [] \<rparr>,
       notes @ note_if (\<not> pubkey_ok) ''pubkey mismatch: the receipt was signed by a different key than expected''
       @ note_if (\<not> schema_ok) ''schema or canonical profile id is not the one this verifier understands''))"

text \<open>\<open>saturating_sub\<close>.\<close>

definition sat_sub :: "'a::len word \<Rightarrow> 'a word \<Rightarrow> 'a word" where
  "sat_sub a b = (if a \<le> b then 0 else a - b)"

text \<open>The expected number of embedded ticks; \<^term>\<open>None\<close> for an unknown policy.\<close>

definition embedded_len :: "string \<Rightarrow> nat \<Rightarrow> nat option" where
  "embedded_len policy n_events =
     (if policy = ''all'' then Some n_events
      else if policy = ''tail32'' then Some (min n_events 32)
      else if policy = ''none'' then Some 0
      else None)"

definition check_embedded_ticks ::
  "Crypto \<Rightarrow> ReceiptBody \<Rightarrow> ((bool \<times> u32 option) \<times> string list) option" where
  "check_embedded_ticks cy body =
     (let ticks = bo_ticks body; n_events = bo_verdict_events body; policy = bo_ticks_policy body in
      case embedded_len policy (unat n_events) of
        None \<Rightarrow> Some ((False, None), [''unknown ticks_policy '' @ debug_str policy])
      | Some expected_len \<Rightarrow>
          if length ticks \<noteq> expected_len then Some ((False, None), 
              [''ticks_policy '' @ policy @ '' implies '' @ digits expected_len @ '' embedded ticks, found ''
                @ digits (length ticks)])
          else if ticks = [] then
            (if n_events = 0 \<and> bo_verdict_chain_head body \<noteq> ZERO_HASH
             then Some ((False, None), [''verdict_events == 0 but verdict_chain_head is not the genesis''])
             else Some ((True, None), []))
          else
            (let genesis = (if policy = ''all'' then ZERO_HASH else te_prev (ticks ! 0)) in
             Option.bind (verify_tick_chain (cy_sha cy) (cy_b64 cy) ticks genesis) (\<lambda>report.
               if \<not> cr_ok report then Some ((False, cr_break_at report), 
                 [''embedded tick chain breaks at seq '' @ debug_opt (cr_break_at report)])
               else if policy = ''tail32'' \<and> te_seq (ticks ! 0) \<noteq> sat_sub n_events (of_nat (length ticks))
               then Some ((False, Some (te_seq (ticks ! 0))), [''embedded tail does not end at verdict_events''])
               else if cr_head report \<noteq> bo_verdict_chain_head body
               then Some ((False, Some (te_seq (ticks ! (length ticks - 1)))),
                          [''embedded tick chain head differs from verdict_chain_head''])
               else Some ((True, None), []))))"

definition verify_receipt :: "Crypto \<Rightarrow> SignedReceipt \<Rightarrow> string option \<Rightarrow> VerifyReport option" where
  "verify_receipt cy sr expect_pubkey =
     (let body = sr_body sr;
          schema_ok = (bo_schema body = RECEIPT_SCHEMA \<and> bo_canonical body = CANONICAL_ID);
          (base, notes) = from_signature_checks cy schema_ok (ReceiptBody_canonical (cy_b64 cy) body)
                            (sr_body_digest sr) (sr_pubkey sr) (sr_sig sr) expect_pubkey;
          envelope_digest_ok = (case canon_of (bo_envelope body) of
              Inr bytes \<Rightarrow> cy_sha cy bytes = bo_envelope_digest body | Inl _ \<Rightarrow> False);
          notes = notes @ note_if (\<not> envelope_digest_ok) ''envelope_digest does not match sha256(canon(envelope))'';
          c = bo_counts body;
          counts_ok = (vc_ticks c = bo_verdict_events body \<and> bo_verdict_events body = bo_timing_events body \<and>
                       bo_timing_events body = eo_steps (bo_outcome body));
          notes = notes @ note_if (\<not> counts_ok)
            (''counts disagree: counts.ticks '' @ digits (unat (vc_ticks c)) @ '' verdict_events ''
             @ digits (unat (bo_verdict_events body)) @ '' timing_events '' @ digits (unat (bo_timing_events body))
             @ '' outcome.steps '' @ digits (unat (eo_steps (bo_outcome body)))) in
      Option.bind (check_embedded_ticks cy body) (\<lambda>((ticks_ok, break_at), tick_notes).
        let ephemeral = list_ex (\<lambda>n. n = NOTE_EPHEMERAL_KEY) (bo_fuse_notes body);
            (recomputed_ok, recomputed_notes) =
              evaluate_fuse (bo_budget body) c (bo_calibration_digest body) ephemeral;
            notes = notes @ tick_notes
              @ note_if (recomputed_ok \<noteq> bo_fuse_ok body) 
                  (''fuse_ok flag '' @ show_bool (bo_fuse_ok body) @ '' disagrees with the recomputed evaluation ''
                   @ show_bool recomputed_ok)
              @ note_if (recomputed_notes \<noteq> bo_fuse_notes body) ''fuse_notes differ from the recomputed evaluation''
              @ recomputed_notes in
        Some \<lparr> vr_schema_ok = schema_ok, vr_sig_ok = vr_sig_ok base, vr_digest_ok = vr_digest_ok base,
               vr_ticks_ok = ticks_ok, vr_pubkey_ok = vr_pubkey_ok base,
               vr_envelope_digest_ok = envelope_digest_ok, vr_counts_ok = counts_ok,
               vr_fuse_ok = (recomputed_ok \<and> bo_fuse_ok body), vr_break_at = break_at, vr_notes = notes \<rparr>))"

definition verify_ticks_file :: "Crypto \<Rightarrow> SignedReceipt \<Rightarrow> TickEvent list \<Rightarrow> ChainReport option" where
  "verify_ticks_file cy sr ticks = verify_tick_chain (cy_sha cy) (cy_b64 cy) ticks ZERO_HASH"

subsection \<open>The verifier never panics\<close>

lemma walk_loop_total:
  "\<forall>e. \<exists>h. rec e = Some h \<Longrightarrow> \<exists>st'. walk_loop sq pv hs rec f i st es = Some st'"
proof (induction es arbitrary: i st)
  case (Cons e es)
  obtain h where "rec e = Some h" using Cons.prems by blast
  then show ?case using Cons by (cases st) (auto simp: Let_def)
qed simp

lemma verify_tick_chain_total: "\<exists>r. verify_tick_chain sha b64 es g = Some r"
  using walk_loop_total [of "TickEvent_recompute sha b64" te_seq te_prev te_hash] TickEvent_hash_total [of sha b64]
  unfolding verify_tick_chain_def walk_def TickEvent_recompute_def Let_def map_option_eq_Some by blast

lemma check_embedded_total: "\<exists>r. check_embedded_ticks cy body = Some r"
proof -
  obtain r where "verify_tick_chain (cy_sha cy) (cy_b64 cy) (bo_ticks body)
      (if bo_ticks_policy body = ''all'' then ZERO_HASH else te_prev (bo_ticks body ! 0)) = Some r"
    using verify_tick_chain_total by blast
  then have "check_embedded_ticks cy body \<noteq> None"
    by (cases "embedded_len (bo_ticks_policy body) (unat (bo_verdict_events body))")
      (auto simp: check_embedded_ticks_def Let_def)
  then show ?thesis by simp
qed

lemma verify_receipt_total: "\<exists>r. verify_receipt cy sr expect = Some r"
proof -
  obtain r where "check_embedded_ticks cy (sr_body sr) = Some r" using check_embedded_total by blast
  then show ?thesis by (simp add: verify_receipt_def Let_def split_beta)
qed

subsection \<open>What the embedded ticks show\<close>

lemma check_embedded_ok:
  assumes "check_embedded_ticks cy body = Some ((True, b), ns)"
  shows "embedded_len (bo_ticks_policy body) (unat (bo_verdict_events body)) = Some (length (bo_ticks body))"
    and "bo_ticks body \<noteq> [] \<Longrightarrow> te_hash (last (bo_ticks body)) = bo_verdict_chain_head body"
    and "bo_ticks_policy body = ''all'' \<Longrightarrow> bo_ticks body \<noteq> [] \<Longrightarrow>
      ticks.linked (cy_sha cy) (cy_b64 cy) (te_seq (hd (bo_ticks body))) 0 ZERO_HASH (bo_ticks body)"
    and "bo_ticks_policy body = ''tail32'' \<Longrightarrow> bo_ticks body \<noteq> [] \<Longrightarrow>
      ticks.linked (cy_sha cy) (cy_b64 cy) (te_seq (hd (bo_ticks body))) 0 (te_prev (hd (bo_ticks body))) (bo_ticks body) \<and>
      te_seq (hd (bo_ticks body)) = sat_sub (bo_verdict_events body) (of_nat (length (bo_ticks body)))"
proof -
  let ?t = "bo_ticks body" and ?g = "if bo_ticks_policy body = ''all'' then ZERO_HASH else te_prev (bo_ticks body ! 0)"
  show l: "embedded_len (bo_ticks_policy body) (unat (bo_verdict_events body)) = Some (length (bo_ticks body))"
    using assms by (auto simp: check_embedded_ticks_def Let_def split: option.splits if_splits)
  have ne: "\<exists>r. verify_tick_chain (cy_sha cy) (cy_b64 cy) ?t ?g = Some r \<and> cr_ok r \<and> cr_head r = bo_verdict_chain_head body \<and>
      (bo_ticks_policy body = ''tail32'' \<longrightarrow> te_seq (?t ! 0) = sat_sub (bo_verdict_events body) (of_nat (length ?t)))"
    if "?t \<noteq> []"
    using assms that l by (auto simp: check_embedded_ticks_def Let_def bind_eq_Some_conv split: if_splits)
  then have lk: "ticks.linked (cy_sha cy) (cy_b64 cy) (te_seq (hd ?t)) 0 ?g ?t" if "?t \<noteq> []"
    using that ticks.walk_cases(1) by (fastforce simp: verify_tick_chain_def ticks.first_seq_def split: list.splits)
  show "te_hash (last ?t) = bo_verdict_chain_head body" if "?t \<noteq> []"
    using ne [OF that] that ticks.walk_cases(3) by (fastforce simp: verify_tick_chain_def ticks.head_of_last)
  show "ticks.linked (cy_sha cy) (cy_b64 cy) (te_seq (hd ?t)) 0 ZERO_HASH ?t" if "bo_ticks_policy body = ''all''" "?t \<noteq> []"
    using lk [OF that(2)] that(1) by simp
  show "ticks.linked (cy_sha cy) (cy_b64 cy) (te_seq (hd ?t)) 0 (te_prev (hd ?t)) ?t \<and>
      te_seq (hd ?t) = sat_sub (bo_verdict_events body) (of_nat (length ?t))"
    if "bo_ticks_policy body = ''tail32''" "?t \<noteq> []"
    using lk [OF that(2)] ne [OF that(2)] that by (auto simp: hd_conv_nth)
qed

lemma check_embedded_all:
  assumes "check_embedded_ticks cy body = Some ((True, b), ns)" "bo_ticks_policy body = ''all''" "bo_ticks body \<noteq> []"
  shows "\<exists>c. verify_tick_chain (cy_sha cy) (cy_b64 cy) (bo_ticks body) ZERO_HASH = Some c \<and> cr_ok c \<and>
    cr_head c = bo_verdict_chain_head body \<and> length (bo_ticks body) = unat (bo_verdict_events body)"
  using assms
  by (auto simp: check_embedded_ticks_def embedded_len_def Let_def bind_eq_Some_conv split: if_splits)

subsection \<open>Signed, verified\<close>

lemma verify_receipt_parts:
  assumes "verify_receipt cy sr expect = Some r"
  shows "vr_schema_ok r \<longleftrightarrow> bo_schema (sr_body sr) = RECEIPT_SCHEMA \<and> bo_canonical (sr_body sr) = CANONICAL_ID"
    and "vr_sig_ok r \<and> vr_digest_ok r \<longleftrightarrow> (\<exists>bytes. ReceiptBody_canonical (cy_b64 cy) (sr_body sr) = Inr bytes \<and>
      verify_bytes cy (sr_pubkey sr) (sr_sig sr) bytes = Inr () \<and> cy_sha cy bytes = sr_body_digest sr)"
    and "vr_pubkey_ok r \<longleftrightarrow> (\<forall>p. expect = Some p \<longrightarrow> p = sr_pubkey sr)"
    and "vr_envelope_digest_ok r \<longleftrightarrow> (\<exists>bytes. canon_of (bo_envelope (sr_body sr)) = Inr bytes \<and>
      cy_sha cy bytes = bo_envelope_digest (sr_body sr))"
    and "vr_counts_ok r \<longleftrightarrow> vc_ticks (bo_counts (sr_body sr)) = bo_verdict_events (sr_body sr) \<and>
      bo_verdict_events (sr_body sr) = bo_timing_events (sr_body sr) \<and>
      bo_timing_events (sr_body sr) = eo_steps (bo_outcome (sr_body sr))"
    and "\<exists>ns. check_embedded_ticks cy (sr_body sr) = Some ((vr_ticks_ok r, vr_break_at r), ns)"
    and "vr_fuse_ok r \<longleftrightarrow> bo_fuse_ok (sr_body sr) \<and>
      fst (evaluate_fuse (bo_budget (sr_body sr)) (bo_counts (sr_body sr)) (bo_calibration_digest (sr_body sr))
        (NOTE_EPHEMERAL_KEY \<in> set (bo_fuse_notes (sr_body sr))))"
proof -
  have e: "list_ex (\<lambda>n. n = NOTE_EPHEMERAL_KEY) ns \<longleftrightarrow> NOTE_EPHEMERAL_KEY \<in> set ns" for ns
    by (auto simp: list_ex_iff)
  note d = assms [unfolded verify_receipt_def Let_def split_beta bind_eq_Some_conv e]
  show "vr_schema_ok r \<longleftrightarrow> bo_schema (sr_body sr) = RECEIPT_SCHEMA \<and> bo_canonical (sr_body sr) = CANONICAL_ID"
    "vr_envelope_digest_ok r \<longleftrightarrow> (\<exists>bytes. canon_of (bo_envelope (sr_body sr)) = Inr bytes \<and>
      cy_sha cy bytes = bo_envelope_digest (sr_body sr))"
    "vr_counts_ok r \<longleftrightarrow> vc_ticks (bo_counts (sr_body sr)) = bo_verdict_events (sr_body sr) \<and>
      bo_verdict_events (sr_body sr) = bo_timing_events (sr_body sr) \<and>
      bo_timing_events (sr_body sr) = eo_steps (bo_outcome (sr_body sr))"
    using d by (auto split: sum.splits)
  show "vr_sig_ok r \<and> vr_digest_ok r \<longleftrightarrow> (\<exists>bytes. ReceiptBody_canonical (cy_b64 cy) (sr_body sr) = Inr bytes \<and>
      verify_bytes cy (sr_pubkey sr) (sr_sig sr) bytes = Inr () \<and> cy_sha cy bytes = sr_body_digest sr)"
    using d by (auto simp: from_signature_checks_def Let_def isl_unit split: sum.splits)
  show "vr_pubkey_ok r \<longleftrightarrow> (\<forall>p. expect = Some p \<longrightarrow> p = sr_pubkey sr)"
    using d by (auto simp: from_signature_checks_def Let_def split: option.splits sum.splits)
  show "\<exists>ns. check_embedded_ticks cy (sr_body sr) = Some ((vr_ticks_ok r, vr_break_at r), ns)"
    using d by auto
  show "vr_fuse_ok r \<longleftrightarrow> bo_fuse_ok (sr_body sr) \<and>
      fst (evaluate_fuse (bo_budget (sr_body sr)) (bo_counts (sr_body sr)) (bo_calibration_digest (sr_body sr))
        (NOTE_EPHEMERAL_KEY \<in> set (bo_fuse_notes (sr_body sr))))"
    using d by auto
qed

text \<open>\<open>fuse_ok\<close> means enforcement, no violation in the environment, no fault, a calibrated detector, a persistent key.\<close>

lemma evaluate_fuse_ok:
  "fst (evaluate_fuse b c cd eph) \<longleftrightarrow> bb_mode b \<noteq> Observe \<and> vc_violations_reached_env c = 0 \<and>
     (bb_tier1_armed b \<longrightarrow> cd \<noteq> None \<and> cd \<noteq> Some []) \<and> vc_terminal_state c \<noteq> Fault \<and> \<not> eph"
proof -
  have "\<not> exec_mode_missing b" by (cases "bb_exec_mode b") (simp_all add: exec_mode_missing_def)
  then show ?thesis
    by (auto simp: evaluate_fuse_def note_if_def word_gt_0 split: option.splits)
qed

text \<open>A consistent body: what the verifier checks beyond the signature.\<close>

definition consistent :: "Crypto \<Rightarrow> ReceiptBody \<Rightarrow> bool" where
  "consistent cy b \<longleftrightarrow> bo_schema b = RECEIPT_SCHEMA \<and> bo_canonical b = CANONICAL_ID \<and>
     digest_of (cy_sha cy) (bo_envelope b) = Inr (bo_envelope_digest b) \<and>
     vc_ticks (bo_counts b) = bo_verdict_events b \<and> bo_verdict_events b = bo_timing_events b \<and>
     bo_timing_events b = eo_steps (bo_outcome b) \<and>
     (\<exists>ns. check_embedded_ticks cy b = Some ((True, None), ns))"

lemma sign_receipt_verifies:
  assumes s: "signs cy seed" and b: "consistent cy body" and r: "sign_receipt cy body seed = Inr sr"
  shows "\<exists>r. verify_receipt cy sr (Some (pubkey_hex cy seed)) = Some r \<and> intact r"
proof -
  obtain bytes where c: "ReceiptBody_canonical (cy_b64 cy) body = Inr bytes" "sr_body sr = body"
    "sr_body_digest sr = cy_sha cy bytes" "sr_pubkey sr = fst (sign_bytes cy seed bytes)"
    "sr_sig sr = snd (sign_bytes cy seed bytes)"
    using r by (auto simp: sign_receipt_def map_ok_Inr split_beta)
  obtain r where v: "verify_receipt cy sr (Some (pubkey_hex cy seed)) = Some r" using verify_receipt_total by blast
  note parts = verify_receipt_parts [OF v]
  have "vr_schema_ok r" "vr_counts_ok r" using parts(1,5) b c by (simp_all add: consistent_def)
  moreover have "vr_sig_ok r \<and> vr_digest_ok r"
    unfolding parts(2) using c verify_sign_bytes [OF s, of bytes] by simp
  moreover have "vr_pubkey_ok r" unfolding parts(3) using c by (simp add: pubkey_hex_def sign_bytes_def)
  moreover have "vr_envelope_digest_ok r"
    unfolding parts(4) using b c by (auto simp: consistent_def digest_of_def map_ok_Inr)
  moreover have "vr_ticks_ok r" using parts(6) b c by (auto simp: consistent_def)
  ultimately show ?thesis using v by (auto simp: intact_def)
qed

end
