(* ===== verification/Ledger.thy ===== *)
theory Ledger
  imports Receipt
begin

text \<open>
  \<open>lictor-receipt/src/ledger.rs\<close>: the hash chain of one arm's episodes.  An entry summarises a
  signed receipt and names the hash of its predecessor; \<open>verify_ledger\<close> checks linkage from the
  genesis, numbering from 0 and every hash, and counts what the entries say.  The file is the list
  of its parsed entries; reading and writing lines is input and output.  The entry's contract is the
  one of the tick chain (\<open>hash_chain\<close>): the interpretation \<open>ledger\<close> gives its lemmas, once the loop
  of \<open>verify_ledger\<close> is shown to be the walk from sequence number 0 with four counters.
\<close>

subsection \<open>Entries\<close>

record LedgerEntry =
  le_seq :: u32
  le_run_id :: string
  le_arm_id :: string
  le_episode_index :: u32
  le_seed :: u64
  le_init_state_digest :: string
  le_receipt_digest :: string
  le_verdict_chain_head :: string
  le_success :: bool
  le_fuse_ok :: bool
  le_tripped :: bool
  le_stopped :: bool
  le_escalated :: bool
  le_prev :: string
  le_hash :: string

definition LedgerEntry_fields :: "LedgerEntry \<Rightarrow> (string \<times> Value) list" where
  "LedgerEntry_fields e =
     [(''seq'', num (le_seq e)), (''run_id'', VStr (le_run_id e)), (''arm_id'', VStr (le_arm_id e)),
      (''episode_index'', num (le_episode_index e)), (''seed'', num (le_seed e)),
      (''init_state_digest'', VStr (le_init_state_digest e)), (''receipt_digest'', VStr (le_receipt_digest e)),
      (''verdict_chain_head'', VStr (le_verdict_chain_head e)), (''success'', VBool (le_success e)),
      (''fuse_ok'', VBool (le_fuse_ok e)), (''tripped'', VBool (le_tripped e)), (''stopped'', VBool (le_stopped e)),
      (''escalated'', VBool (le_escalated e)), (''prev'', VStr (le_prev e)), (''hash'', VStr (le_hash e))]"

definition LedgerEntry_value :: "LedgerEntry \<Rightarrow> Value" where
  "LedgerEntry_value e = struct_value (LedgerEntry_fields e)"

definition LedgerEntry_recompute :: "(string \<Rightarrow> string) \<Rightarrow> LedgerEntry \<Rightarrow> string option" where
  "LedgerEntry_recompute sha e = chained_hash sha (LedgerEntry_value (e \<lparr> le_hash := [] \<rparr>))"

definition ledger_entry :: "(string \<Rightarrow> string) \<Rightarrow> string \<Rightarrow> u32 \<Rightarrow> SignedReceipt \<Rightarrow> LedgerEntry option" where
  "ledger_entry sha prev seq sr =
     (let b = sr_body sr;
          e = \<lparr> le_seq = seq, le_run_id = rb_run_id (bo_run b), le_arm_id = rb_arm_id (bo_run b),
                le_episode_index = rb_episode_index (bo_run b), le_seed = rb_seed (bo_run b),
                le_init_state_digest = rb_init_state_digest (bo_run b), le_receipt_digest = sr_body_digest sr,
                le_verdict_chain_head = bo_verdict_chain_head b, le_success = eo_success (bo_outcome b),
                le_fuse_ok = bo_fuse_ok b, le_tripped = (vc_first_trip_tick (bo_counts b) \<noteq> None),
                le_stopped = (vc_first_stop_tick (bo_counts b) \<noteq> None),
                le_escalated = (0 < vc_escalations (bo_counts b) \<or> vc_handoff_tick (bo_counts b) \<noteq> None),
                le_prev = prev, le_hash = [] \<rparr> in
      map_option (\<lambda>h. e \<lparr> le_hash := h \<rparr>) (LedgerEntry_recompute sha e))"

subsection \<open>The check\<close>

record LedgerReport =
  lr_chain_ok :: bool
  lr_break_at :: "u32 option"
  lr_episodes :: u32
  lr_successes :: u32
  lr_trips :: u32
  lr_stops :: u32
  lr_escalations :: u32
  lr_head :: string

record LedgerState =
  lg_prev :: string
  lg_break_at :: "u32 option"
  lg_successes :: u32
  lg_trips :: u32
  lg_stops :: u32
  lg_escalations :: u32

text \<open>
  One turn of the loop.  The three tests are joined by \<open>||\<close>, so the hash, whose computation can
  panic, is recomputed only after the other two passed.
\<close>

definition ledger_step :: "(string \<Rightarrow> string) \<Rightarrow> nat \<Rightarrow> LedgerState \<Rightarrow> LedgerEntry \<Rightarrow> LedgerState option" where
  "ledger_step sha i st e =
     (let expected_seq = of_nat i in
      Option.bind
        (if le_seq e \<noteq> expected_seq \<or> le_prev e \<noteq> lg_prev st then Some True
         else map_option (\<lambda>h. le_hash e \<noteq> h) (LedgerEntry_recompute sha e))
        (\<lambda>bad. Some
          \<lparr> lg_prev = le_hash e,
            lg_break_at = (if bad \<and> lg_break_at st = None
                           then Some (if le_seq e = expected_seq then le_seq e else expected_seq) else lg_break_at st),
            lg_successes = lg_successes st + of_bool (le_success e), lg_trips = lg_trips st + of_bool (le_tripped e),
            lg_stops = lg_stops st + of_bool (le_stopped e),
            lg_escalations = lg_escalations st + of_bool (le_escalated e) \<rparr>))"

fun ledger_loop :: "(string \<Rightarrow> string) \<Rightarrow> nat \<Rightarrow> LedgerState \<Rightarrow> LedgerEntry list \<Rightarrow> LedgerState option" where
  "ledger_loop sha i st [] = Some st"
| "ledger_loop sha i st (e # es) = Option.bind (ledger_step sha i st e) (\<lambda>st. ledger_loop sha (Suc i) st es)"

definition verify_ledger :: "(string \<Rightarrow> string) \<Rightarrow> LedgerEntry list \<Rightarrow> LedgerReport option" where
  "verify_ledger sha entries = map_option (\<lambda>st.
     \<lparr> lr_chain_ok = (lg_break_at st = None), lr_break_at = lg_break_at st, lr_episodes = of_nat (length entries),
       lr_successes = lg_successes st, lr_trips = lg_trips st, lr_stops = lg_stops st,
       lr_escalations = lg_escalations st, lr_head = lg_prev st \<rparr>)
     (ledger_loop sha 0 \<lparr> lg_prev = ZERO_HASH, lg_break_at = None, lg_successes = 0, lg_trips = 0, lg_stops = 0,
                          lg_escalations = 0 \<rparr> entries)"

text \<open>\<open>append_ledger\<close> on the entries already in the file; its result is the new contents and the new entry.\<close>

definition append_ledger ::
  "(string \<Rightarrow> string) \<Rightarrow> LedgerEntry list \<Rightarrow> SignedReceipt \<Rightarrow> (LedgerEntry list \<times> LedgerEntry) option" where
  "append_ledger sha existing sr =
     (let head = (if existing = [] then ZERO_HASH else le_hash (last existing)) in
      map_option (\<lambda>e. (existing @ [e], e)) (ledger_entry sha head (of_nat (length existing)) sr))"

subsection \<open>The entries are a hash chain\<close>

lemma ledger_names: "distinct (map fst (LedgerEntry_fields e))" "list_all key_ok (map fst (LedgerEntry_fields e))"
  by (simp_all add: LedgerEntry_fields_def key_ok_def less_eq_char_def)

lemma LedgerEntry_value_wf: "Value_wf (LedgerEntry_value e)"
  unfolding LedgerEntry_value_def
  by (rule struct_value_wf [OF ledger_names(1)]) (simp add: LedgerEntry_fields_def serial)

lemma LedgerEntry_value_inj:
  assumes "LedgerEntry_value e = LedgerEntry_value e'" shows "e = e'"
proof -
  have n: "map fst (LedgerEntry_fields e) = map fst (LedgerEntry_fields e')" by (simp add: LedgerEntry_fields_def)
  have "map snd (LedgerEntry_fields e) = map snd (LedgerEntry_fields e')"
    by (rule struct_value_inj [OF assms [unfolded LedgerEntry_value_def] n ledger_names(1)])
  then show ?thesis by (intro LedgerEntry.equality) (auto simp: LedgerEntry_fields_def)
qed

text \<open>The entry is not float-free by construction: a seed above \<open>2^53 - 1\<close> makes the hash panic.\<close>

lemma LedgerEntry_hash_total:
  "(\<exists>h. LedgerEntry_recompute sha e = Some h) \<longleftrightarrow> uint (le_seed e) \<le> MAX_SAFE_INTEGER"
proof -
  let ?e = "e \<lparr> le_hash := [] \<rparr>"
  have "keys_clean (LedgerEntry_value ?e)"
    unfolding LedgerEntry_value_def
    by (rule struct_value_clean) (use ledger_names in \<open>simp_all add: LedgerEntry_fields_def serial\<close>)
  moreover have "floatfree (LedgerEntry_value ?e) \<longleftrightarrow> uint (le_seed e) \<le> MAX_SAFE_INTEGER"
    by (auto simp: LedgerEntry_value_def LedgerEntry_fields_def struct_value_def list_all_iff serial num_floatfree)
  ultimately show ?thesis
    using canon_of_ok [of "LedgerEntry_value ?e"] by (auto simp: LedgerEntry_recompute_def chained_hash_Some)
qed

interpretation ledger: hash_chain le_seq le_prev le_hash "LedgerEntry_recompute sha" "collides sha" for sha
proof
  fix e e' :: LedgerEntry
  assume h: "LedgerEntry_recompute sha e = Some (le_hash e)" "LedgerEntry_recompute sha e' = Some (le_hash e')"
    "le_hash e = le_hash e'"
  show "e = e' \<or> collides sha"
  proof (cases "collides sha")
    case False
    have "LedgerEntry_value (e \<lparr> le_hash := [] \<rparr>) = LedgerEntry_value (e' \<lparr> le_hash := [] \<rparr>)"
      using chained_hash_binds [OF _ _ LedgerEntry_value_wf LedgerEntry_value_wf] h False
      unfolding LedgerEntry_recompute_def by metis
    from LedgerEntry_value_inj [OF this] show ?thesis using h(3) by (cases e; cases e') simp
  qed simp
qed

subsection \<open>The loop is the walk\<close>

text \<open>The counters are sums over the entries read.\<close>

definition tally_of :: "(LedgerEntry \<Rightarrow> bool) \<Rightarrow> LedgerEntry list \<Rightarrow> u32" where
  "tally_of p es = of_nat (length (filter p es))"

lemma tally_of_simps [simp]: "tally_of p [] = 0" "tally_of p (e # es) = of_bool (p e) + tally_of p es"
  by (simp_all add: tally_of_def)

lemma ledger_loop_walk:
  "ledger_loop sha i st es = map_option (\<lambda>(prev, break_at).
     \<lparr> lg_prev = prev, lg_break_at = break_at, lg_successes = lg_successes st + tally_of le_success es,
       lg_trips = lg_trips st + tally_of le_tripped es, lg_stops = lg_stops st + tally_of le_stopped es,
       lg_escalations = lg_escalations st + tally_of le_escalated es \<rparr>)
     (walk_loop le_seq le_prev le_hash (LedgerEntry_recompute sha) 0 i (lg_prev st, lg_break_at st) es)"
proof (induction es arbitrary: i st)
  case (Cons e es)
  let ?ok = "le_seq e = of_nat i \<and> le_prev e = lg_prev st"
  show ?case
  proof (cases "?ok \<and> LedgerEntry_recompute sha e = None")
    case True
    then show ?thesis by (simp add: ledger_step_def)
  next
    case False
    define good where "good \<longleftrightarrow> ?ok \<and> LedgerEntry_recompute sha e = Some (le_hash e)"
    have g: "(if ?ok then map_option (\<lambda>h. h = le_hash e) (LedgerEntry_recompute sha e) else Some False) = Some good"
      using False by (auto simp: good_def)
    have b: "(if le_seq e \<noteq> of_nat i \<or> le_prev e \<noteq> lg_prev st then Some True
         else map_option (\<lambda>h. le_hash e \<noteq> h) (LedgerEntry_recompute sha e)) = Some (\<not> good)"
      using False by (auto simp: good_def)
    show ?thesis using g b by (simp add: ledger_step_def Cons Let_def add_ac option.map_comp split_beta comp_def)
  qed
qed simp

theorem verify_ledger_walk:
  "verify_ledger sha es = map_option (\<lambda>(prev, break_at).
     \<lparr> lr_chain_ok = (break_at = None), lr_break_at = break_at, lr_episodes = of_nat (length es),
       lr_successes = tally_of le_success es, lr_trips = tally_of le_tripped es, lr_stops = tally_of le_stopped es,
       lr_escalations = tally_of le_escalated es, lr_head = prev \<rparr>)
     (walk_loop le_seq le_prev le_hash (LedgerEntry_recompute sha) 0 0 (ZERO_HASH, None) es)"
  by (simp add: verify_ledger_def ledger_loop_walk option.map_comp comp_def case_prod_unfold)

lemma verify_ledger_linked:
  assumes "ledger.linked sha 0 0 ZERO_HASH es"
  shows "verify_ledger sha es = Some
     \<lparr> lr_chain_ok = True, lr_break_at = None, lr_episodes = of_nat (length es),
       lr_successes = tally_of le_success es, lr_trips = tally_of le_tripped es, lr_stops = tally_of le_stopped es,
       lr_escalations = tally_of le_escalated es, lr_head = ledger.head_of ZERO_HASH es \<rparr>"
  using ledger.walk_loop_good [OF assms, of None] by (simp add: verify_ledger_walk)

lemma verify_ledger_ok:
  assumes "verify_ledger sha es = Some r" "lr_chain_ok r"
  shows "ledger.linked sha 0 0 ZERO_HASH es" "lr_head r = ledger.head_of ZERO_HASH es"
proof -
  obtain h where w: "walk_loop le_seq le_prev le_hash (LedgerEntry_recompute sha) 0 0 (ZERO_HASH, None) es = Some (h, None)"
    "lr_head r = h"
    using assms by (auto simp: verify_ledger_walk)
  show "ledger.linked sha 0 0 ZERO_HASH es" by (rule ledger.walk_loop_ok [OF w(1)])
  show "lr_head r = ledger.head_of ZERO_HASH es" using ledger.walk_loop_head [OF w(1)] w(2) by simp
qed

lemma verify_ledger_break:
  assumes "verify_ledger sha es = Some r" "lr_break_at r = Some b"
  shows "\<exists>pre e post. es = pre @ e # post \<and> ledger.linked sha 0 0 ZERO_HASH pre \<and>
    \<not> ledger.good sha 0 (length pre) (ledger.head_of ZERO_HASH pre) e \<and> b = of_nat (length pre)"
proof -
  obtain h where "walk_loop le_seq le_prev le_hash (LedgerEntry_recompute sha) 0 0 (ZERO_HASH, None) es = Some (h, Some b)"
    using assms by (auto simp: verify_ledger_walk)
  from ledger.walk_loop_break [OF this] show ?thesis by simp
qed

text \<open>The same, written out entry by entry.\<close>

definition bad_entry :: "(string \<Rightarrow> string) \<Rightarrow> LedgerEntry list \<Rightarrow> nat \<Rightarrow> bool" where
  "bad_entry sha es k \<longleftrightarrow> le_seq (es ! k) \<noteq> of_nat k \<or>
     le_prev (es ! k) \<noteq> (if k = 0 then ZERO_HASH else le_hash (es ! (k - 1))) \<or>
     LedgerEntry_recompute sha (es ! k) \<noteq> Some (le_hash (es ! k))"

lemma ledger_linked_bad: "ledger.linked sha 0 0 ZERO_HASH es \<longleftrightarrow> (\<forall>k < length es. \<not> bad_entry sha es k)"
  by (auto simp: ledger.linked_nth ledger.good_def bad_entry_def)

lemma verify_ledger_exact:
  assumes "verify_ledger sha es = Some r"
  shows "lr_break_at r = (if \<exists>k < length es. bad_entry sha es k
      then Some (of_nat (LEAST k. k < length es \<and> bad_entry sha es k)) else None)"
proof (cases "lr_break_at r")
  case None
  then have "lr_chain_ok r" using assms by (auto simp: verify_ledger_def)
  then have "\<forall>k < length es. \<not> bad_entry sha es k" using verify_ledger_ok(1) [OF assms] ledger_linked_bad by blast
  with None show ?thesis by auto
next
  case (Some b)
  obtain pre e post where s: "es = pre @ e # post" "ledger.linked sha 0 0 ZERO_HASH pre"
    "\<not> ledger.good sha 0 (length pre) (ledger.head_of ZERO_HASH pre) e" "b = of_nat (length pre)"
    using verify_ledger_break [OF assms Some] by blast
  have bad: "bad_entry sha es (length pre)"
    using s(3) by (auto simp: s(1) bad_entry_def ledger.good_def ledger.head_of_last nth_append last_conv_nth split: if_splits)
  have ok: "\<not> bad_entry sha es k" if "k < length pre" for k
  proof -
    have "bad_entry sha es k = bad_entry sha pre k"
      using that by (simp add: s(1) bad_entry_def nth_append less_imp_diff_less)
    then show ?thesis using s(2) that unfolding ledger_linked_bad by blast
  qed
  have "(LEAST k. k < length es \<and> bad_entry sha es k) = length pre"
    by (rule Least_equality) (use bad ok s(1) in \<open>auto simp: not_less [symmetric]\<close>)
  moreover have "\<exists>k < length es. bad_entry sha es k"
    by (rule exI [of _ "length pre"]) (use bad s(1) in simp)
  ultimately show ?thesis using Some s(4) by simp
qed

lemma verify_ledger_counts:
  assumes "verify_ledger sha es = Some r"
  shows "lr_chain_ok r \<longleftrightarrow> lr_break_at r = None" "lr_successes r = of_nat (length (filter le_success es))"
    "lr_trips r = of_nat (length (filter le_tripped es))" "lr_stops r = of_nat (length (filter le_stopped es))"
    "lr_escalations r = of_nat (length (filter le_escalated es))"
  using assms by (auto simp: verify_ledger_walk tally_of_def)

subsection \<open>Appending\<close>

lemma ledger_entry_good:
  assumes "ledger_entry sha prev seq sr = Some e"
  shows "le_seq e = seq" "le_prev e = prev" "LedgerEntry_recompute sha e = Some (le_hash e)"
    "le_receipt_digest e = sr_body_digest sr" "le_verdict_chain_head e = bo_verdict_chain_head (sr_body sr)"
  using assms by (auto simp: ledger_entry_def Let_def LedgerEntry_recompute_def)

lemma ledger_entry_total:
  "(\<exists>e. ledger_entry sha prev seq sr = Some e) \<longleftrightarrow> uint (rb_seed (bo_run (sr_body sr))) \<le> MAX_SAFE_INTEGER"
  unfolding ledger_entry_def Let_def map_option_eq_Some by (subst ex_comm) (simp add: LedgerEntry_hash_total)

lemma append_ledger_linked:
  assumes "ledger.linked sha 0 0 ZERO_HASH es" "append_ledger sha es sr = Some (es', e)"
  shows "es' = es @ [e] \<and> ledger.linked sha 0 0 ZERO_HASH es'"
proof -
  have e: "ledger_entry sha (ledger.head_of ZERO_HASH es) (of_nat (length es)) sr = Some e" "es' = es @ [e]"
    using assms(2) by (auto simp: append_ledger_def Let_def ledger.head_of_last split: if_splits)
  show ?thesis using assms(1) e ledger_entry_good [OF e(1)] by (simp add: ledger.linked_append ledger.good_def)
qed

text \<open>Appending receipt after receipt to an empty file.\<close>

fun append_all :: "(string \<Rightarrow> string) \<Rightarrow> LedgerEntry list \<Rightarrow> SignedReceipt list \<Rightarrow> LedgerEntry list option" where
  "append_all sha es [] = Some es"
| "append_all sha es (sr # srs) = Option.bind (append_ledger sha es sr) (\<lambda>(es, e). append_all sha es srs)"

lemma append_all_linked:
  "ledger.linked sha 0 0 ZERO_HASH es \<Longrightarrow> append_all sha es srs = Some es' \<Longrightarrow>
     ledger.linked sha 0 0 ZERO_HASH es' \<and> length es' = length es + length srs"
proof (induction srs arbitrary: es)
  case (Cons sr srs)
  obtain es1 e where a: "append_ledger sha es sr = Some (es1, e)" "append_all sha es1 srs = Some es'"
    using Cons.prems(2) by (auto simp: bind_eq_Some_conv)
  have l: "es1 = es @ [e]" "ledger.linked sha 0 0 ZERO_HASH es1"
    using append_ledger_linked [OF Cons.prems(1) a(1)] by blast+
  show ?case using Cons.IH [OF l(2) a(2)] l(1) by simp
qed simp

end
