(* ===== verification/Signable.thy ===== *)
theory Signable
  imports Receipt
begin

text \<open>
  When a receipt can be signed.  \<open>sign\<close> fails exactly when the body has no canonical form; the lemmas
  compute that condition struct by struct: the free-form maps need printable keys, the embedded
  envelope must be float-free, and every \<open>u64\<close> must be at most \<open>2^53 - 1\<close>.
\<close>

lemma floatfree_struct: "floatfree (struct_value fs) \<longleftrightarrow> list_all floatfree (map snd fs)"
  by (auto simp: struct_value_def list_all_iff)

lemma keys_clean_struct:
  "keys_clean (struct_value fs) \<longleftrightarrow> list_all key_ok (map fst fs) \<and> list_all keys_clean (map snd fs)"
  by (auto simp: struct_value_def list_all_iff)

definition keys_ok :: "(string \<times> string) list \<Rightarrow> bool" where
  "keys_ok m \<longleftrightarrow> list_all (\<lambda>(k, v). key_ok k) m"

definition safe :: "u64 \<Rightarrow> bool" where "safe n \<longleftrightarrow> uint n \<le> MAX_SAFE_INTEGER"

lemma string_map_ok: "floatfree (string_map m)" "keys_clean (string_map m) \<longleftrightarrow> keys_ok m"
  by (auto simp: string_map_def keys_ok_def list_all_iff)

lemma opt_ok:
  "floatfree (opt f x) \<longleftrightarrow> (\<forall>y. x = Some y \<longrightarrow> floatfree (f y))" "keys_clean (opt f x) \<longleftrightarrow> (\<forall>y. x = Some y \<longrightarrow> keys_clean (f y))"
  by (auto simp: opt_def split: option.split)

lemma num_safe64: "floatfree (num n) \<longleftrightarrow> safe n"
  by (simp add: num_floatfree safe_def)

lemma num_arr: "floatfree (VArr (map num (xs :: u32 list)))" "keys_clean (VArr (map num xs))"
  by (simp_all add: list_all_iff serial)

lemmas safe_simps = floatfree_struct keys_clean_struct string_map_ok num_safe64 num_arr opt_ok serial

lemma name_ok:
  "list_all key_ok [''run_id'', ''arm_id'', ''episode_index'', ''seed'', ''seed_pool'', ''init_state_digest'', ''env'', ''policy'', ''host'']"
  "list_all key_ok [''mode'', ''delay_steps'', ''tick_ms'', ''exec_mode'', ''stitch'', ''on_escalate'', ''tier0_armed'', ''tier1_armed'', ''gate'', ''alpha_num'', ''alpha_den'', ''kn'']"
  "list_all key_ok [''kind'', ''params'', ''stream_seed'']"
  "list_all key_ok [''n'', ''p50_ns'', ''p90_ns'', ''p99_ns'', ''p999_ns'', ''max_ns'', ''label'']"
  "list_all key_ok [''schema'', ''handoff_digest'', ''decision'', ''operator'', ''nonce'', ''note'', ''sig'']"
  by (simp_all add: key_ok_def less_eq_char_def)

lemma RunBinding_safe:
  "floatfree (RunBinding_value r) \<longleftrightarrow> safe (rb_seed r)"
  "keys_clean (RunBinding_value r) \<longleftrightarrow> keys_ok (rb_env r) \<and> keys_ok (rb_policy r) \<and> keys_ok (rb_host r)"
  using name_ok(1) by (simp_all add: RunBinding_value_def safe_simps)

lemma BudgetBinding_safe: "floatfree (BudgetBinding_value b)" "keys_clean (BudgetBinding_value b)"
  using name_ok(2) by (simp_all add: BudgetBinding_value_def safe_simps)

lemma FaultBinding_safe:
  "floatfree (FaultBinding_value f) \<longleftrightarrow> safe (fb_stream_seed f)" "keys_clean (FaultBinding_value f) \<longleftrightarrow> keys_ok (fb_params f)"
  using name_ok(3) by (simp_all add: FaultBinding_value_def safe_simps)

lemma VerdictCounts_safe: "floatfree (VerdictCounts_value c)" "keys_clean (VerdictCounts_value c)"
  by (simp_all add: VerdictCounts_value_def safe_simps key_ok_def less_eq_char_def del: floatfree.simps(3) keys_clean.simps(1))

lemma EpisodeOutcome_safe: "floatfree (EpisodeOutcome_value b64 e)" "keys_clean (EpisodeOutcome_value b64 e)"
  by (simp_all add: EpisodeOutcome_value_def safe_simps key_ok_def less_eq_char_def)

lemma LatencySummary_safe:
  "floatfree (LatencySummary_value l) \<longleftrightarrow>
     safe (ls_p50_ns l) \<and> safe (ls_p90_ns l) \<and> safe (ls_p99_ns l) \<and> safe (ls_p999_ns l) \<and> safe (ls_max_ns l)"
  "keys_clean (LatencySummary_value l)"
  using name_ok(4) by (simp_all add: LatencySummary_value_def safe_simps)

lemma AckToken_safe: "floatfree (AckToken_value t) \<longleftrightarrow> safe (ak_nonce t)" "keys_clean (AckToken_value t)"
  using name_ok(5) by (simp_all add: AckToken_value_def safe_simps)

lemma HandoffRecord_safe:
  "floatfree (HandoffRecord_value h) \<longleftrightarrow> (\<forall>t. hr_ack h = Some t \<longrightarrow> safe (ak_nonce t))" "keys_clean (HandoffRecord_value h)"
  by (simp_all add: HandoffRecord_value_def HandoffRecord_fields_def safe_simps AckToken_safe list_all_iff split_beta
      key_ok_def less_eq_char_def)

lemma TickEvent_safe: "floatfree (TickEvent_value b64 e)" "keys_clean (TickEvent_value b64 e)"
proof -
  obtain h where "chained_hash id (TickEvent_value b64 e) = Some h" using TickEvent_hash_total by blast
  then have "\<exists>a. canon_of (TickEvent_value b64 e) = Inr a" by (auto simp: chained_hash_Some)
  then show "floatfree (TickEvent_value b64 e)" "keys_clean (TickEvent_value b64 e)" by (simp_all add: canon_of_ok)
qed

definition signable :: "ReceiptBody \<Rightarrow> bool" where
  "signable b \<longleftrightarrow> safe (bo_created_epoch b) \<and> safe (rb_seed (bo_run b)) \<and>
     keys_ok (rb_env (bo_run b)) \<and> keys_ok (rb_policy (bo_run b)) \<and> keys_ok (rb_host (bo_run b)) \<and>
     (\<forall>f. bo_fault_injection b = Some f \<longrightarrow> safe (fb_stream_seed f) \<and> keys_ok (fb_params f)) \<and>
     floatfree (bo_envelope b) \<and> keys_clean (bo_envelope b) \<and> keys_ok (bo_inputs b) \<and>
     (\<forall>h \<in> set (bo_handoffs b). \<forall>t. hr_ack h = Some t \<longrightarrow> safe (ak_nonce t)) \<and>
     safe (ls_p50_ns (bo_latency b)) \<and> safe (ls_p90_ns (bo_latency b)) \<and> safe (ls_p99_ns (bo_latency b)) \<and>
     safe (ls_p999_ns (bo_latency b)) \<and> safe (ls_max_ns (bo_latency b))"

lemma body_names: "list_all key_ok
  [''schema'', ''canonical'', ''created_epoch'', ''lictor_version'', ''lictor_git'', ''lictor_sha256'', ''client'', ''run'',
   ''budget'', ''fault_injection'', ''envelope'', ''envelope_digest'', ''calibration_digest'', ''inputs'', ''counts'',
   ''outcome'', ''handoffs'', ''verdict_events'', ''verdict_chain_head'', ''timing_events'', ''timing_chain_head'',
   ''latency'', ''ticks_policy'', ''ticks'', ''fuse_ok'', ''fuse_notes'', ''ledger_prev'']"
  by (simp add: key_ok_def less_eq_char_def)

lemma ReceiptBody_safe:
  "floatfree (ReceiptBody_value b64 b) \<and> keys_clean (ReceiptBody_value b64 b) \<longleftrightarrow> signable b"
proof -
  have "list_all floatfree (map HandoffRecord_value hs) \<longleftrightarrow> (\<forall>h \<in> set hs. \<forall>t. hr_ack h = Some t \<longrightarrow> safe (ak_nonce t))"
    "list_all keys_clean (map HandoffRecord_value hs)" "list_all floatfree (map (TickEvent_value b64) ts)"
    "list_all keys_clean (map (TickEvent_value b64) ts)" for hs ts
    by (auto simp: list_all_iff HandoffRecord_safe TickEvent_safe)
  then show ?thesis
    using body_names
    by (auto simp: ReceiptBody_value_def safe_simps RunBinding_safe BudgetBinding_safe FaultBinding_safe VerdictCounts_safe
        EpisodeOutcome_safe LatencySummary_safe signable_def)
qed

lemma sign_receipt_iff: "(\<exists>sr. sign_receipt cy b seed = Inr sr) \<longleftrightarrow> signable b"
  using ReceiptBody_safe [of "cy_b64 cy" b] canon_of_ok [of "ReceiptBody_value (cy_b64 cy) b"]
  by (auto simp: sign_receipt_def map_ok_Inr ReceiptBody_canonical_def)

end
