(* ===== verification/DemoReceipt.thy ===== *)
theory DemoReceipt
  imports Demo Ledger Signable
begin

text \<open>
  Concrete values for the receipt, handoff and ledger theorems: a small JSON value, a verdict, a
  receipt body without ticks, and a toy instance of the cryptographic parameters in which the hash
  is the identity and a signature is 64 zero bytes.  It satisfies \<open>signs\<close>, so the hypotheses about
  the parameters can hold.
\<close>

definition demo_value :: Value where
  "demo_value = VObj [(''a'', VNum (NInt (- 7))), (''b'', VArr [VStr [QUOTE], VNull])]"

lemma demo_value_wf: "Value_wf demo_value"
  by code_simp

lemma demo_value_canon: "\<exists>a. canon_of demo_value = Inr a"
  unfolding canon_of_ok by code_simp

text \<open>Any injective encoding of bytes as text.\<close>

definition demo_b64 :: "u8 list \<Rightarrow> string" where
  "demo_b64 bs = map (\<lambda>b. char_of (unat b)) bs"

lemma demo_hex: "map (\<lambda>c. of_char c) (demo_b64 bs) = bs"
proof (induction bs)
  case (Cons b bs)
  have "unat b < 256" using unsigned_less [of b, where 'a = nat] by simp
  then have "(of_char (char_of (unat b)) :: u8) = b"
    using of_nat_of_char [of "char_of (unat b)", where 'a = u8] by (simp add: of_char_of)
  then show ?case using Cons by (simp add: demo_b64_def)
qed (simp add: demo_b64_def)

lemma demo_b64_inj: "inj demo_b64"
  by (metis demo_hex injI)

definition demo_verdict :: SafetyVerdict where
  "demo_verdict = snd (decide (demo_cfg Enforce) demo_rt demo_broken)"

definition demo_crypto :: Crypto where
  "demo_crypto = \<lparr> cy_sha = id, cy_b64 = demo_b64, cy_to_hex = demo_b64,
     cy_of_hex = (\<lambda>s. Some (map (\<lambda>c. of_char c) s)), cy_public = (\<lambda>_. replicate 32 0),
     cy_sign = (\<lambda>_ _. replicate 64 0), cy_point = (\<lambda>_. True), cy_verify = (\<lambda>_ _ _. True) \<rparr>"

lemma demo_signs: "signs demo_crypto seed"
  by (simp add: signs_def demo_crypto_def demo_hex)

lemma ack_core_safe: "floatfree (struct_value (ack_core t)) \<longleftrightarrow> safe (ak_nonce t)" "keys_clean (struct_value (ack_core t))"
  using name_ok(5) by (simp_all add: ack_core_def safe_simps)

lemma demo_ack_signed: "\<exists>t. sign_ack demo_crypto ''d'' Resume 3 ''ok'' [] = Inr t"
proof -
  have "\<exists>a. ack_signing_bytes t = Inr a" if "ak_nonce t = 3" for t
    using that unfolding ack_signing_bytes_def canon_of_ok by (simp add: ack_core_safe safe_def MAX_SAFE_INTEGER_def)
  moreover have "chars_count ''ok'' \<le> MAX_NOTE_CHARS" by code_simp
  ultimately show ?thesis
    by (auto simp: sign_ack_def fail_if_def Let_def not_less [symmetric] split: sum.split)
      (metis AckToken.select_convs(5) Inl_Inr_False)+
qed

definition demo_run :: RunBinding where
  "demo_run = \<lparr> rb_run_id = ''r'', rb_arm_id = ''a'', rb_episode_index = 0, rb_seed = 7, rb_seed_pool = ''p'',
     rb_init_state_digest = ''i'', rb_env = [], rb_policy = [], rb_host = [] \<rparr>"

definition demo_budget :: BudgetBinding where
  "demo_budget = \<lparr> bb_mode = Observe, bb_delay_steps = 0, bb_tick_ms = 100, bb_exec_mode = Sync, bb_stitch = ''s'',
     bb_on_escalate = ''e'', bb_tier0_armed = [], bb_tier1_armed = False, bb_gate = [], bb_alpha_num = 0,
     bb_alpha_den = 1, bb_kn = (1, 1) \<rparr>"

definition demo_body :: ReceiptBody where
  "demo_body = \<lparr> bo_schema = RECEIPT_SCHEMA, bo_canonical = CANONICAL_ID, bo_created_epoch = 0,
     bo_lictor_version = ''v'', bo_lictor_git = ''g'', bo_lictor_sha256 = ''h'', bo_client = ''c'',
     bo_run = demo_run, bo_budget = demo_budget, bo_fault_injection = None, bo_envelope = VNull,
     bo_envelope_digest = ''null'', bo_calibration_digest = None, bo_inputs = [],
     bo_counts = VerdictCounts_from Tally_default,
     bo_outcome = \<lparr> eo_steps = 0, eo_success = False, eo_terminated = False, eo_truncated = False,
       eo_max_coverage = 0, eo_final_coverage = 0, eo_reward_sum = 0, eo_ended_by = ''x'', eo_max_s = 0,
       eo_max_z = F64Array_from_slice [] [0] \<rparr>,
     bo_handoffs = [], bo_verdict_events = 0, bo_verdict_chain_head = ZERO_HASH, bo_timing_events = 0,
     bo_timing_chain_head = ZERO_HASH,
     bo_latency = \<lparr> ls_n = 0, ls_p50_ns = 0, ls_p90_ns = 0, ls_p99_ns = 0, ls_p999_ns = 0, ls_max_ns = 0,
       ls_label = ''l'' \<rparr>,
     bo_ticks_policy = ''all'', bo_ticks = [], bo_fuse_ok = False, bo_fuse_notes = [NOTE_OBSERVE],
     bo_ledger_prev = None \<rparr>"

lemma demo_body_signed: "\<exists>sr. sign_receipt demo_crypto demo_body [] = Inr sr"
  unfolding sign_receipt_iff by (simp add: signable_def demo_body_def demo_run_def keys_ok_def safe_def MAX_SAFE_INTEGER_def)

lemma demo_body_consistent: "consistent demo_crypto demo_body"
  by (simp add: consistent_def demo_body_def demo_crypto_def digest_of_def canon_of_def check_keys_def canon_def map_ok_def
      VerdictCounts_from_def Tally_default_def check_embedded_ticks_def embedded_len_def)

lemma demo_body_intact:
  assumes "sign_receipt demo_crypto demo_body [] = Inr sr"
  shows "\<exists>r. verify_receipt demo_crypto sr None = Some r \<and> intact r"
proof -
  obtain r where r: "verify_receipt demo_crypto sr (Some (pubkey_hex demo_crypto [])) = Some r" "intact r"
    using sign_receipt_verifies [OF demo_signs demo_body_consistent assms] by blast
  obtain r' where r': "verify_receipt demo_crypto sr None = Some r'" using verify_receipt_total by blast
  note p = verify_receipt_parts [OF r(1)] verify_receipt_parts [OF r']
  have "intact r'" using r(2) p by (auto simp: intact_def)
  with r' show ?thesis by blast
qed

lemma demo_body_observes:
  assumes "sign_receipt demo_crypto demo_body [] = Inr sr" shows "bb_mode (bo_budget (sr_body sr)) = Observe"
proof -
  have "sr_body sr = demo_body" using assms by (auto simp: sign_receipt_def map_ok_Inr split_beta)
  then show ?thesis by (simp add: demo_body_def demo_budget_def)
qed

definition demo_signed :: SignedReceipt where
  "demo_signed = \<lparr> sr_body = demo_body, sr_body_digest = ''d'', sr_pubkey = ''k'', sr_sig = ''s'' \<rparr>"

lemma demo_entry: "\<exists>e. ledger_entry sha prev seq demo_signed = Some e"
  unfolding ledger_entry_total by (simp add: demo_signed_def demo_body_def demo_run_def MAX_SAFE_INTEGER_def)

lemma demo_append: "\<exists>e. append_ledger sha es demo_signed = Some (es @ [e], e)"
  using demo_entry by (simp add: append_ledger_def Let_def)

lemma demo_ledger: "\<exists>es. append_all sha [] [demo_signed, demo_signed] = Some es"
proof -
  obtain e where "append_ledger sha [] demo_signed = Some ([e], e)" using demo_append [of sha "[]"] by auto
  moreover obtain d where "append_ledger sha [e] demo_signed = Some ([e, d], d)" using demo_append [of sha "[e]"] by auto
  ultimately show ?thesis by simp
qed

lemma demo_ledger_seq:
  assumes "append_all sha [] [demo_signed, demo_signed] = Some es"
  shows "le_seq (es ! 1) = 1"
proof -
  have "ledger.linked sha 0 0 ZERO_HASH es" "length es = 2" using append_all_linked [OF _ assms] by simp_all
  then show ?thesis by (simp add: ledger.linked_nth ledger.good_def)
qed

end
