(* ===== verification/Wire.thy ===== *)
theory Wire
  imports FuseView Ledger
begin

text \<open>
  The messages of \<open>lictor-runtime/src/wire.rs\<close> as data, and \<open>Staging\<close> of \<open>session.rs\<close>, the only
  conversion from a wire tick to a fuse input.  A real-valued request field is an option whose
  absence (JSON null) becomes NaN.  The JSON reader and writer (serde) are not modelled.  The lemmas
  show that a staged tick is the request with null read as NaN, and that a rejected one hands over
  no chunk.
\<close>

subsection \<open>Requests\<close>

definition PROTO :: string where "PROTO = ''lictor-wire/v1''"

record HelloReq =
  hq_id :: u64
  hq_proto :: string
  hq_client :: string
  hq_mode :: FuseMode
  hq_embodiment_id :: string
  hq_action_dim :: u16
  hq_pos_dim :: u16
  hq_horizon :: u16
  hq_exec_steps :: u16
  hq_envelope_digest :: string
  hq_calibration_digest :: "string option"

record RunMsg =
  rm_run_id :: string
  rm_arm_id :: string
  rm_episode_index :: u32
  rm_seed :: u64
  rm_seed_pool :: string
  rm_init_state_digest :: string

record BudgetMsg =
  bg_delay_steps :: u16
  bg_tick_ms :: u32
  bg_exec_mode :: ExecMode
  bg_stitch :: string
  bg_on_escalate :: string

record BindingMsg =
  bi_env :: "(string \<times> string) list"
  bi_policy :: "(string \<times> string) list"
  bi_host :: "(string \<times> string) list"

record FaultInjectionMsg =
  fm_kind :: string
  fm_params :: "(string \<times> string) list"
  fm_stream_seed :: u64

record EpisodeBeginReq =
  eb_id :: u64
  eb_run :: RunMsg
  eb_budget :: BudgetMsg
  eb_binding :: BindingMsg
  eb_fault_injection :: "FaultInjectionMsg option"
  eb_inputs :: "(string \<times> string) list"

record ObsMsg =
  om_pos :: "f64 option list"
  om_vel :: "f64 option list option"
  om_aux :: "f64 option list"
  om_ext :: "f64 option list"

record ChunkMsg =
  cm_seq :: u32
  cm_t_emit :: u32
  cm_h :: u16
  cm_d :: u16
  cm_exec :: u16
  cm_a :: "f64 option list list"

record TickReq =
  tq_id :: u64
  tq_t :: u32
  tq_idx :: u16
  tq_missed_ticks :: u8
  tq_obs :: ObsMsg
  tq_chunk :: "ChunkMsg option"
  tq_ack :: "AckToken option"

record OutcomeMsg =
  oc_steps :: u32
  oc_success :: bool
  oc_terminated :: bool
  oc_truncated :: bool
  oc_max_coverage :: "f64 option"
  oc_final_coverage :: "f64 option"
  oc_reward_sum :: "f64 option"
  oc_ended_by :: string

record EpisodeEndReq =
  ee_id :: u64
  ee_t :: u32
  ee_outcome :: OutcomeMsg

datatype Request = Req_Hello HelloReq | Req_EpisodeBegin EpisodeBeginReq | Req_Tick TickReq
  | Req_EpisodeEnd EpisodeEndReq | Req_Bye u64

fun req_id :: "Request \<Rightarrow> u64" where
  "req_id (Req_Hello h) = hq_id h"
| "req_id (Req_EpisodeBegin b) = eb_id b"
| "req_id (Req_Tick t) = tq_id t"
| "req_id (Req_EpisodeEnd e) = ee_id e"
| "req_id (Req_Bye i) = i"

subsection \<open>Responses\<close>

record CalibrationInfo =
  ci_method :: CalMethod
  ci_alpha_num :: u32
  ci_alpha_den :: u32
  ci_n_calib :: u32
  ci_tau :: f64
  ci_kn :: "u8 \<times> u8"
  ci_gate :: "string list"
  ci_digest :: string

record HelloOk =
  ho_id :: u64
  ho_proto :: string
  ho_lictor :: string
  ho_git :: string
  ho_lictor_sha256 :: string
  ho_envelope_digest :: string
  ho_embodiment_digest :: string
  ho_calibration_digest :: "string option"
  ho_pubkey :: string
  ho_ephemeral_key :: bool
  ho_mode :: FuseMode
  ho_tier0_armed :: "string list"
  ho_tier1_armed :: bool
  ho_calibration :: "CalibrationInfo option"
  ho_features :: "string list"
  ho_trip_names :: "string list"
  ho_latency_label :: string

record EpisodeOk =
  eo_id :: u64
  eo_state :: FuseState
  eo_seq :: u32

record ScoresMsg =
  sm_f :: "f64 list"
  sm_z :: "f64 list"
  sm_s :: f64
  sm_valid :: u32
  sm_fired :: u32

record VerdictMsg =
  vm_id :: u64
  vm_t :: u32
  vm_seq :: u32
  vm_status :: Status
  vm_state :: FuseState
  vm_prev_state :: FuseState
  vm_trips :: "string list"
  vm_trip_mask :: u32
  vm_action :: "f64 list"
  vm_action_src :: ActionSource
  vm_substituted :: bool
  vm_clamped_dims :: u32
  vm_scores :: ScoresMsg
  vm_tau :: f64
  vm_window_hits :: u8
  vm_brake_margin :: f64
  vm_reason :: ReasonCode
  vm_reason_text :: string
  vm_handoff :: "HandoffRecord option"
  vm_ack_result :: "string option"
  vm_violation_reached_env :: bool
  vm_verdict_ns :: u64
  vm_chain :: string

record EpisodeReceiptMsg =
  er_id :: u64
  er_receipt_path :: string
  er_ticks_path :: string
  er_body_digest :: string
  er_verdict_chain_head :: string
  er_timing_chain_head :: string
  er_fuse_ok :: bool
  er_fuse_notes :: "string list"
  er_counts :: VerdictCounts
  er_ledger_seq :: u32
  er_ledger_head :: string

record ErrorMsg =
  em_err_id :: u64
  em_code :: string
  em_message :: string
  em_fatal :: bool

datatype Response = Resp_HelloOk HelloOk | Resp_EpisodeOk EpisodeOk | Resp_Verdict VerdictMsg
  | Resp_EpisodeReceipt EpisodeReceiptMsg | Resp_ByeOk u64 | Resp_Error ErrorMsg

subsection \<open>Staging\<close>

record Staging =
  sg_pos :: "f64 list"
  sg_vel :: "f64 list"
  sg_aux :: "f64 list"
  sg_ext :: "f64 list"
  sg_n_pos :: nat
  sg_n_vel :: nat
  sg_n_aux :: nat
  sg_n_ext :: nat
  sg_have_vel :: bool
  sg_flat :: "f64 list"
  sg_chunk :: ChunkBuf
  sg_have_chunk :: bool
  sg_next_seq :: u32

definition nan_or :: "f64 option \<Rightarrow> f64" where
  "nan_or x = (case x of None \<Rightarrow> f_nan | Some v \<Rightarrow> v)"

definition copy_opt :: "f64 list \<Rightarrow> f64 option list \<Rightarrow> f64 list \<times> nat" where
  "copy_opt dst src = (let n = min (length src) (length dst) in (blit n (map nan_or src) dst, n))"

definition Staging_new :: Staging where
  "Staging_new = \<lparr> sg_pos = replicate MAX_POS 0, sg_vel = replicate MAX_POS 0, sg_aux = replicate MAX_AUX 0,
     sg_ext = replicate MAX_EXT 0, sg_n_pos = 0, sg_n_vel = 0, sg_n_aux = 0, sg_n_ext = 0, sg_have_vel = False,
     sg_flat = replicate (MAX_H * MAX_D) 0, sg_chunk = ChunkBuf_new, sg_have_chunk = False, sg_next_seq = 0 \<rparr>"

text \<open>The first half of \<open>stage\<close>: the observation is copied before any check.\<close>

definition stage_obs :: "Staging \<Rightarrow> TickReq \<Rightarrow> Staging" where
  "stage_obs s req =
     (let ob = tq_obs req;
          (pos, n_pos) = copy_opt (sg_pos s) (om_pos ob);
          (vel, n_vel) = (case om_vel ob of Some v \<Rightarrow> copy_opt (sg_vel s) v | None \<Rightarrow> (sg_vel s, 0));
          (aux, n_aux) = copy_opt (sg_aux s) (om_aux ob);
          (ext, n_ext) = copy_opt (sg_ext s) (om_ext ob) in
      s \<lparr> sg_pos := pos, sg_n_pos := n_pos, sg_have_vel := (om_vel ob \<noteq> None), sg_vel := vel, sg_n_vel := n_vel,
          sg_aux := aux, sg_n_aux := n_aux, sg_ext := ext, sg_n_ext := n_ext, sg_have_chunk := False,
          sg_next_seq := (if tq_t req = 0 then 0 else sg_next_seq s) \<rparr>)"

text \<open>The loop over the rows stops at the first row of a wrong width.\<close>

fun check_rows :: "nat \<Rightarrow> nat \<Rightarrow> f64 option list list \<Rightarrow> string + unit" where
  "check_rows d i [] = Inr ()"
| "check_rows d i (row # rows) =
     fail_if (length row \<noteq> d) (''tick.chunk.a['' @ digits i @ ''] has '' @ digits (length row)
       @ '' entries, expected d='' @ digits d) (check_rows d (Suc i) rows)"

definition check_obs :: "FuseConfig \<Rightarrow> TickReq \<Rightarrow> string + unit" where
  "check_obs cfg req =
     (let ob = tq_obs req in
      fail_if (length (om_pos ob) \<noteq> fc_pos_dim cfg)
        (''tick.obs.pos has '' @ digits (length (om_pos ob)) @ '' entries, expected pos_dim='' @ digits (fc_pos_dim cfg)) (
      fail_if (case om_vel ob of Some v \<Rightarrow> length v \<noteq> fc_pos_dim cfg | None \<Rightarrow> False)
        (''tick.obs.vel has '' @ digits (length (the (om_vel ob))) @ '' entries, expected pos_dim='' @ digits (fc_pos_dim cfg)) (
      fail_if (MAX_AUX < length (om_aux ob))
        (''tick.obs.aux has '' @ digits (length (om_aux ob)) @ '' entries, at most '' @ digits MAX_AUX @ '' allowed'') (
      fail_if (MAX_EXT < length (om_ext ob))
        (''tick.obs.ext has '' @ digits (length (om_ext ob)) @ '' entries, at most '' @ digits MAX_EXT @ '' allowed'') (
      fail_if (fc_horizon cfg \<le> unat (tq_idx req))
        (''tick.idx '' @ digits (unat (tq_idx req)) @ '' is not below horizon='' @ digits (fc_horizon cfg)) (Inr ()))))))"

definition check_chunk_msg :: "FuseConfig \<Rightarrow> u32 \<Rightarrow> TickReq \<Rightarrow> ChunkMsg \<Rightarrow> string + unit" where
  "check_chunk_msg cfg next_seq req c =
     fail_if (unat (cm_h c) \<noteq> fc_horizon cfg)
       (''tick.chunk.h is '' @ digits (unat (cm_h c)) @ '', expected h='' @ digits (fc_horizon cfg)) (
     fail_if (unat (cm_d c) \<noteq> fc_dim cfg)
       (''tick.chunk.d is '' @ digits (unat (cm_d c)) @ '', expected action_dim='' @ digits (fc_dim cfg)) (
     fail_if (unat (cm_exec c) \<noteq> fc_exec cfg)
       (''tick.chunk.exec is '' @ digits (unat (cm_exec c)) @ '', expected exec_steps='' @ digits (fc_exec cfg)) (
     fail_if (length (cm_a c) \<noteq> fc_horizon cfg)
       (''tick.chunk.a has '' @ digits (length (cm_a c)) @ '' rows, expected h='' @ digits (fc_horizon cfg)) (
     case check_rows (fc_dim cfg) 0 (cm_a c) of Inl e \<Rightarrow> Inl e
     | Inr _ \<Rightarrow>
       fail_if (tq_t req < cm_t_emit c)
         (''tick.chunk.t_emit '' @ digits (unat (cm_t_emit c)) @ '' is after t='' @ digits (unat (tq_t req))) (
       fail_if (ucast (tq_idx req) \<noteq> tq_t req - cm_t_emit c)
         (''tick.idx '' @ digits (unat (tq_idx req)) @ '' is not t - t_emit = '' @ digits (unat (tq_t req)) @ '' - ''
          @ digits (unat (cm_t_emit c)) @ '' = '' @ digits (unat (tq_t req - cm_t_emit c))) (
       fail_if (cm_seq c \<noteq> next_seq)
         (''tick.chunk.seq is '' @ digits (unat (cm_seq c)) @ '', expected next_chunk_seq='' @ digits (unat next_seq)) (Inr ())))))))"

fun ChunkError_debug :: "ChunkError \<Rightarrow> string" where
  "ChunkError_debug TooLong = ''TooLong''"
| "ChunkError_debug TooWide = ''TooWide''"
| "ChunkError_debug LenMismatch = ''LenMismatch''"
| "ChunkError_debug ExecExceedsHorizon = ''ExecExceedsHorizon''"
| "ChunkError_debug EmptyChunk = ''EmptyChunk''"

text \<open>
  \<open>Staging::stage\<close>: the buffers are updated even when a check fails.  The two nested loops write
  row \<open>i\<close>, column \<open>j\<close> to \<open>flat[i * dim + j]\<close>: the concatenation of the rows.
\<close>

definition stage :: "FuseConfig \<Rightarrow> Staging \<Rightarrow> TickReq \<Rightarrow> Staging \<times> (string + unit)" where
  "stage cfg s req =
     (let s = stage_obs s req in
      case check_obs cfg req of Inl e \<Rightarrow> (s, Inl e)
      | Inr _ \<Rightarrow> (case tq_chunk req of None \<Rightarrow> (s, Inr ())
        | Some c \<Rightarrow> (case check_chunk_msg cfg (sg_next_seq s) req c of Inl e \<Rightarrow> (s, Inl e)
          | Inr _ \<Rightarrow>
              (let n = fc_horizon cfg * fc_dim cfg;
                   s = s \<lparr> sg_flat := blit n (concat (map (map nan_or) (cm_a c))) (sg_flat s) \<rparr> in
               case ChunkBuf_fill (sg_chunk s) (cm_seq c) (cm_t_emit c) (cm_h c) (cm_d c) (cm_exec c) (take n (sg_flat s)) of
                 Inl e \<Rightarrow> (s, Inl (''tick.chunk rejected by ChunkBuf: '' @ ChunkError_debug e))
               | Inr b \<Rightarrow> (s \<lparr> sg_chunk := b, sg_have_chunk := True, sg_next_seq := cm_seq c + 1 \<rparr>, Inr ())))))"

definition Staging_input :: "Staging \<Rightarrow> TickReq \<Rightarrow> VerifiedAck option \<Rightarrow> bool \<Rightarrow> TickInput" where
  "Staging_input s req ack schema_fault =
     \<lparr> ti_obs = \<lparr> ov_t = tq_t req, ov_pos = take (sg_n_pos s) (sg_pos s),
                  ov_vel = (if sg_have_vel s then Some (take (sg_n_vel s) (sg_vel s)) else None),
                  ov_aux = take (sg_n_aux s) (sg_aux s), ov_ext = take (sg_n_ext s) (sg_ext s) \<rparr>,
       ti_chunk = (if sg_have_chunk s then ChunkBuf_view (sg_chunk s) else None), ti_idx = tq_idx req,
       ti_missed_ticks = tq_missed_ticks req, ti_ack = ack, ti_schema_fault = schema_fault \<rparr>"

subsection \<open>A staged tick is the request\<close>

definition Staging_wf :: "Staging \<Rightarrow> bool" where
  "Staging_wf s \<longleftrightarrow> length (sg_pos s) = MAX_POS \<and> length (sg_vel s) = MAX_POS \<and> length (sg_aux s) = MAX_AUX \<and>
     length (sg_ext s) = MAX_EXT \<and> length (sg_flat s) = MAX_H * MAX_D \<and> ChunkBuf_wf (sg_chunk s)"

lemma copy_opt_parts:
  "length (fst (copy_opt dst src)) = length dst"
  "take (snd (copy_opt dst src)) (fst (copy_opt dst src)) = map nan_or (take (length dst) src)"
  by (simp_all add: copy_opt_def Let_def blit_def min_def take_map)

lemma Staging_new_wf: "Staging_wf Staging_new"
  by (simp add: Staging_wf_def Staging_new_def ChunkBuf_new_wf)

lemma stage_obs_wf: "Staging_wf s \<Longrightarrow> Staging_wf (stage_obs s req)"
  by (simp add: Staging_wf_def stage_obs_def Let_def split_beta copy_opt_parts split: option.split)

lemma stage_obs_chunk [simp]: "\<not> sg_have_chunk (stage_obs s req)" "sg_chunk (stage_obs s req) = sg_chunk s"
  "sg_flat (stage_obs s req) = sg_flat s"
  by (simp_all add: stage_obs_def Let_def split_beta)

lemma check_rows_Inr: "check_rows d i rows = Inr () \<longleftrightarrow> (\<forall>row \<in> set rows. length row = d)"
  by (induction d i rows rule: check_rows.induct) auto

text \<open>A rejected tick hands over no chunk.\<close>

lemma stage_error_no_chunk:
  "snd (stage cfg s req) = Inl e \<Longrightarrow> \<not> sg_have_chunk (fst (stage cfg s req))"
  by (auto simp: stage_def Let_def split: sum.splits option.splits)

text \<open>The dimensions of a compiled configuration fit the buffers.\<close>

definition fits :: "FuseConfig \<Rightarrow> bool" where
  "fits cfg \<longleftrightarrow> fc_pos_dim cfg \<le> MAX_POS \<and> fc_horizon cfg \<le> MAX_H \<and> fc_dim cfg \<le> MAX_D"

lemma check_chunk_msg_rows:
  assumes "check_chunk_msg cfg n req c = Inr ()"
  shows "length (cm_a c) = fc_horizon cfg" "\<forall>row \<in> set (cm_a c). length row = fc_dim cfg"
  using assms by (auto simp: check_chunk_msg_def check_rows_Inr split: sum.splits)

lemma length_rows_concat:
  "\<forall>row \<in> set rows. length row = d \<Longrightarrow> length (concat (map (map f) rows)) = length rows * d"
  by (induction rows) auto

lemma staged_flat:
  assumes "fits cfg" "length flat = MAX_H * MAX_D" "check_chunk_msg cfg n req c = Inr ()"
  shows "take (fc_horizon cfg * fc_dim cfg) (blit (fc_horizon cfg * fc_dim cfg) (concat (map (map nan_or) (cm_a c))) flat)
      = concat (map (map nan_or) (cm_a c))"
    "length (blit (fc_horizon cfg * fc_dim cfg) (concat (map (map nan_or) (cm_a c))) flat) = MAX_H * MAX_D"
proof -
  note r = check_chunk_msg_rows [OF assms(3)]
  have l: "length (concat (map (map nan_or) (cm_a c))) = fc_horizon cfg * fc_dim cfg"
    using length_rows_concat [OF r(2)] r(1) by simp
  have "fc_horizon cfg * fc_dim cfg \<le> MAX_H * MAX_D" using assms(1) by (auto simp: fits_def intro: area_le)
  then show "length (blit (fc_horizon cfg * fc_dim cfg) (concat (map (map nan_or) (cm_a c))) flat) = MAX_H * MAX_D"
    using l assms(2) by simp
  show "take (fc_horizon cfg * fc_dim cfg) (blit (fc_horizon cfg * fc_dim cfg) (concat (map (map nan_or) (cm_a c))) flat)
      = concat (map (map nan_or) (cm_a c))"
    using l by (simp add: blit_def)
qed

text \<open>The three ways \<open>stage\<close> can go, after the observation is in.\<close>

lemma stage_cases:
  assumes "Staging_wf s" "fits cfg"
  obtains (rejected) e where "snd (stage cfg s req) = Inl e" "\<not> sg_have_chunk (fst (stage cfg s req))"
      "Staging_wf (fst (stage cfg s req))"
    | (held) "stage cfg s req = (stage_obs s req, Inr ())" "check_obs cfg req = Inr ()" "tq_chunk req = None"
    | (delivered) c b where "tq_chunk req = Some c" "check_obs cfg req = Inr ()"
        "check_chunk_msg cfg (sg_next_seq (stage_obs s req)) req c = Inr ()"
        "ChunkBuf_fill (sg_chunk s) (cm_seq c) (cm_t_emit c) (cm_h c) (cm_d c) (cm_exec c)
           (concat (map (map nan_or) (cm_a c))) = Inr b"
        "stage cfg s req = (stage_obs s req \<lparr> sg_flat := blit (fc_horizon cfg * fc_dim cfg)
           (concat (map (map nan_or) (cm_a c))) (sg_flat s), sg_chunk := b, sg_have_chunk := True,
           sg_next_seq := cm_seq c + 1 \<rparr>, Inr ())"
proof -
  have w: "Staging_wf (stage_obs s req)" by (rule stage_obs_wf [OF assms(1)])
  have fl: "length (sg_flat s) = MAX_H * MAX_D" using assms(1) by (simp add: Staging_wf_def)
  show thesis
  proof (cases "check_obs cfg req")
    case (Inl e)
    then show thesis by (intro rejected [of e]) (use w in \<open>simp_all add: stage_def\<close>)
  next
    case o: (Inr u)
    show thesis
    proof (cases "tq_chunk req")
      case None
      then show thesis using o by (intro held) (simp_all add: stage_def)
    next
      case c: (Some c)
      show thesis
      proof (cases "check_chunk_msg cfg (sg_next_seq (stage_obs s req)) req c")
        case (Inl e)
        then show thesis by (intro rejected [of e]) (use w o c in \<open>simp_all add: stage_def\<close>)
      next
        case k: (Inr u')
        note f = staged_flat [OF assms(2) fl, of "sg_next_seq (stage_obs s req)" req c]
        show thesis
        proof (cases "ChunkBuf_fill (sg_chunk s) (cm_seq c) (cm_t_emit c) (cm_h c) (cm_d c) (cm_exec c)
            (concat (map (map nan_or) (cm_a c)))")
          case (Inl e)
          then show thesis
            by (intro rejected [of "''tick.chunk rejected by ChunkBuf: '' @ ChunkError_debug e"])
              (use w o c k f in \<open>simp_all add: stage_def Let_def Staging_wf_def\<close>)
        next
          case (Inr b)
          then show thesis by (intro delivered [of c b]) (use o c k f in \<open>simp_all add: stage_def Let_def\<close>)
        qed
      qed
    qed
  qed
qed

lemma stage_wf:
  assumes "Staging_wf s" "fits cfg" shows "Staging_wf (fst (stage cfg s req))"
  using assms(1,2)
proof (cases rule: stage_cases [of s cfg req])
  case (delivered c b)
  then show ?thesis
    using stage_obs_wf [OF assms(1), of req] ChunkBuf_fill_wf [OF _ delivered(4)] assms(1)
      staged_flat(2) [OF assms(2) _ delivered(3), of "sg_flat s"]
    by (simp add: Staging_wf_def)
qed (use stage_obs_wf [OF assms(1)] in simp_all)

definition obs_of :: "TickReq \<Rightarrow> ObsView" where
  "obs_of req = (let ob = tq_obs req in
     \<lparr> ov_t = tq_t req, ov_pos = map nan_or (om_pos ob), ov_vel = map_option (map nan_or) (om_vel ob),
       ov_aux = map nan_or (om_aux ob), ov_ext = map nan_or (om_ext ob) \<rparr>)"

definition view_of :: "ChunkMsg \<Rightarrow> ChunkView" where
  "view_of c = \<lparr> cv_seq = cm_seq c, cv_t_emit = cm_t_emit c, cv_horizon = cm_h c, cv_dim = cm_d c,
     cv_exec_steps = cm_exec c, cv_data = concat (map (map nan_or) (cm_a c)) \<rparr>"

lemma stage_obs_input:
  assumes "Staging_wf s" "fits cfg" "check_obs cfg req = Inr ()"
  shows "ti_obs (Staging_input (stage_obs s req) req ack fault) = obs_of req"
  using assms
  by (auto simp: check_obs_def Let_def fits_def Staging_wf_def Staging_input_def stage_obs_def obs_of_def copy_opt_def
      blit_def min_def not_less split: option.splits)

lemma stage_input:
  assumes "Staging_wf s" "fits cfg" "snd (stage cfg s req) = Inr ()"
  shows "Staging_input (fst (stage cfg s req)) req ack fault
    = \<lparr> ti_obs = obs_of req, ti_chunk = map_option view_of (tq_chunk req), ti_idx = tq_idx req,
        ti_missed_ticks = tq_missed_ticks req, ti_ack = ack, ti_schema_fault = fault \<rparr>"
  using assms(1,2)
proof (cases rule: stage_cases [of s cfg req])
  case (rejected e)
  then show ?thesis using assms(3) by simp
next
  case held
  then show ?thesis
    using stage_obs_input [OF assms(1,2) held(2), of ack fault] by (simp add: Staging_input_def)
next
  case (delivered c b)
  then show ?thesis
    using stage_obs_input [OF assms(1,2) delivered(2), of ack fault] ChunkBuf_fill_view [OF delivered(4)]
    by (cases "sg_have_vel (stage_obs s req)") (simp_all add: Staging_input_def view_of_def)
qed

end
