(* ===== verification/Session.thy ===== *)
theory Session
  imports Wire Signable "HOL-Library.Product_Lexorder"
begin

text \<open>
  \<open>lictor-runtime/src/session.rs\<close> with the parts of \<open>episode.rs\<close> and \<open>latency.rs\<close> it calls: one fuse,
  one episode at a time.  A request is handled by \<open>handle\<close>, which returns the updated session and
  the response, or \<^term>\<open>None\<close> where the source panics.  \<open>Host\<close> collects what comes from other
  crates and from the serialiser, \<open>World\<close> what the clock and the file system answer during one
  request; \<open>Disk\<close> is the content of the files under the output directory, each file as the list of
  values written to it.  A \<open>BTreeMap\<close> of strings is an ordered association list, the one of nonces a map.
\<close>

subsection \<open>Parameters\<close>

record Host =
  ht_crypto :: Crypto
  ht_envelope_json :: "SafetyEnvelope \<Rightarrow> Value"
  ht_embodiment_json :: "EmbodimentManifest \<Rightarrow> Value"
  ht_quantile :: "u64 list \<Rightarrow> nat \<Rightarrow> u64"
  ht_max :: "u64 list \<Rightarrow> u64"
  ht_keygen :: "u8 list"

text \<open>\<open>wd_io p\<close> is the error that input or output on path \<open>p\<close> meets, if any; \<open>wd_json p\<close> the
JSON value in the file at \<open>p\<close>, if it can be read and parsed.\<close>

record World =
  wd_decide_ns :: u64
  wd_now :: u64
  wd_io :: "string \<Rightarrow> string option"
  wd_json :: "string \<Rightarrow> Value option"

definition LICTOR_VERSION :: string where "LICTOR_VERSION = ''0.1.0''"

text \<open>\<open>canonical_digest\<close> of \<open>envelope.rs\<close>; \<open>expect\<close> on a value that is not canonical panics.\<close>

definition canonical_digest :: "Crypto \<Rightarrow> Value \<Rightarrow> string option" where
  "canonical_digest cy v = (case canon (floatify v) of Inl _ \<Rightarrow> None | Inr bytes \<Rightarrow> Some (cy_sha cy bytes))"

subsection \<open>Paths\<close>

text \<open>\<open>Path::join\<close> on Unix: an absolute second path replaces the first.\<close>

definition path_join :: "string \<Rightarrow> string \<Rightarrow> string" where
  "path_join a b = (if b \<noteq> [] \<and> hd b = CHR ''/'' then b
     else if a = [] \<or> last a = CHR ''/'' then a @ b else a @ ''/'' @ b)"

definition pad6 :: "nat \<Rightarrow> string" where
  "pad6 n = (let d = digits n in replicate (6 - length d) (CHR ''0'') @ d)"

record EpisodePaths =
  pa_receipt :: string
  pa_ticks :: string
  pa_timing :: string
  pa_ledger :: string

definition episode_paths :: "string \<Rightarrow> string \<Rightarrow> string \<Rightarrow> u32 \<Rightarrow> EpisodePaths" where
  "episode_paths out_dir run_id arm_id episode_index =
     (let arm = path_join (path_join out_dir run_id) arm_id; n = pad6 (unat episode_index) in
      \<lparr> pa_receipt = path_join (path_join arm ''receipts'') (n @ ''.json''),
        pa_ticks = path_join (path_join arm ''ticks'') (n @ ''.jsonl''),
        pa_timing = path_join (path_join arm ''timing'') (n @ ''.jsonl''),
        pa_ledger = path_join arm ''ledger.jsonl'' \<rparr>)"

definition path_str :: "string \<Rightarrow> string" where
  "path_str p = map (\<lambda>c. if c = BACKSLASH then CHR ''/'' else c) p"

definition paths_display :: "EpisodePaths \<Rightarrow> string \<times> string" where
  "paths_display p = (path_str (pa_receipt p), path_str (pa_ticks p))"

definition NONCE_FILE :: string where "NONCE_FILE = ''.lictor/verifier_nonce.json''"

subsection \<open>The files\<close>

record Disk =
  dk_nonces :: "string \<Rightarrow> (string \<Rightarrow> u64 option) option"
  dk_receipt :: "string \<Rightarrow> SignedReceipt option"
  dk_ticks :: "string \<Rightarrow> TickEvent list option"
  dk_timing :: "string \<Rightarrow> TimingEvent list option"
  dk_ledger :: "string \<Rightarrow> LedgerEntry list option"

definition ledger_head :: "World \<Rightarrow> Disk \<Rightarrow> string \<Rightarrow> string + string option" where
  "ledger_head w dk p = (case dk_ledger dk p of None \<Rightarrow> Inr None
     | Some es \<Rightarrow> (case wd_io w p of Some e \<Rightarrow> Inl e
         | None \<Rightarrow> Inr (if es = [] then None else Some (le_hash (last es)))))"

text \<open>Receipt, ticks, timing, and the ledger last; a failure leaves what was written before it.\<close>

definition write_episode ::
  "Crypto \<Rightarrow> World \<Rightarrow> Disk \<Rightarrow> EpisodePaths \<Rightarrow> SignedReceipt \<Rightarrow> TickEvent list \<Rightarrow> TimingEvent list \<Rightarrow>
     (Disk \<times> (string + LedgerEntry)) option" where
  "write_episode cy w dk p sr ts tms =
     (case wd_io w (pa_receipt p) of Some e \<Rightarrow> Some (dk, Inl e) | None \<Rightarrow>
      let dk = dk \<lparr> dk_receipt := (dk_receipt dk)(pa_receipt p \<mapsto> sr) \<rparr> in
      case wd_io w (pa_ticks p) of Some e \<Rightarrow> Some (dk, Inl e) | None \<Rightarrow>
      let dk = dk \<lparr> dk_ticks := (dk_ticks dk)(pa_ticks p \<mapsto> ts) \<rparr> in
      case wd_io w (pa_timing p) of Some e \<Rightarrow> Some (dk, Inl e) | None \<Rightarrow>
      let dk = dk \<lparr> dk_timing := (dk_timing dk)(pa_timing p \<mapsto> tms) \<rparr> in
      case wd_io w (pa_ledger p) of Some e \<Rightarrow> Some (dk, Inl e) | None \<Rightarrow>
      map_option (\<lambda>(es, e). (dk \<lparr> dk_ledger := (dk_ledger dk)(pa_ledger p \<mapsto> es) \<rparr>, Inr e))
        (append_ledger (cy_sha cy) (case dk_ledger dk (pa_ledger p) of None \<Rightarrow> [] | Some es \<Rightarrow> es) sr))"

subsection \<open>Ordered maps\<close>

fun btree_insert :: "string \<Rightarrow> string \<Rightarrow> (string \<times> string) list \<Rightarrow> (string \<times> string) list" where
  "btree_insert k v [] = [(k, v)]"
| "btree_insert k v ((l, u) # m) =
     (if k < l then (k, v) # (l, u) # m else if k = l then (k, v) # m else (l, u) # btree_insert k v m)"

definition btree_extend :: "(string \<times> string) list \<Rightarrow> (string \<times> string) list \<Rightarrow> (string \<times> string) list" where
  "btree_extend m kvs = foldl (\<lambda>m (k, v). btree_insert k v m) m kvs"

subsection \<open>Latency\<close>

text \<open>\<open>Hist\<close>: the recorded samples.  Buckets, quantiles and the maximum belong to \<open>hdrhistogram\<close>.\<close>

definition MIN_NS :: u64 where "MIN_NS = 1"

definition Hist_record :: "u64 list \<Rightarrow> u64 \<Rightarrow> u64 list" where
  "Hist_record h ns = h @ [max ns MIN_NS]"

definition Hist_summary :: "Host \<Rightarrow> u64 list \<Rightarrow> string \<Rightarrow> LatencySummary" where
  "Hist_summary ht h label =
     (if h = [] then \<lparr> ls_n = 0, ls_p50_ns = 0, ls_p90_ns = 0, ls_p99_ns = 0, ls_p999_ns = 0, ls_max_ns = 0, ls_label = label \<rparr>
      else \<lparr> ls_n = of_nat (min (length h) (2 ^ 32 - 1)), ls_p50_ns = ht_quantile ht h 500,
             ls_p90_ns = ht_quantile ht h 900, ls_p99_ns = ht_quantile ht h 990, ls_p999_ns = ht_quantile ht h 999,
             ls_max_ns = ht_max ht h, ls_label = label \<rparr>)"

subsection \<open>The session\<close>

record CalibrationLoaded =
  cl_c :: CalibrationC
  cl_digest :: string
  cl_embodiment_digest :: string
  cl_file_sha256 :: string
  cl_path :: string

record SessionConfig =
  cg_envelope :: SafetyEnvelope
  cg_envelope_toml_sha :: string
  cg_calibration :: "CalibrationLoaded option"
  cg_mode :: FuseMode
  cg_tier0_override :: "u32 option"
  cg_tier1 :: bool
  cg_ticks_policy :: string
  cg_key :: "u8 list option"
  cg_out_dir :: "string option"
  cg_lictor_git :: string
  cg_lictor_sha256 :: string
  cg_latency_label :: string

record PendingTiming =
  pt_seq :: u32
  pt_decide_ns :: u64
  pt_io_ns :: u64

record Episode =
  ep_run :: RunBinding
  ep_budget :: BudgetBinding
  ep_fault_injection :: "FaultBinding option"
  ep_inputs :: "(string \<times> string) list"
  ep_paths :: "EpisodePaths option"
  ep_verdict_head :: string
  ep_timing_head :: string
  ep_ticks :: "TickEvent list"
  ep_timing :: "TimingEvent list"
  ep_pending_timing :: "PendingTiming option"
  ep_handoffs :: "HandoffRecord list"
  ep_pending_handoff :: "nat option"

record Session =
  ss_cfg :: SessionConfig
  ss_fuse :: Fuse
  ss_staging :: Staging
  ss_key :: "u8 list"
  ss_ephemeral :: bool
  ss_pubkey :: string
  ss_envelope_digest :: string
  ss_embodiment_digest :: string
  ss_calibration_digest :: "string option"
  ss_policy_digest :: "string option"
  ss_envelope_json :: Value
  ss_last_id :: u64
  ss_hello_ok :: bool
  ss_client :: string
  ss_ep :: "Episode option"
  ss_faulted :: bool
  ss_phantom :: bool
  ss_last_nonce :: "string \<Rightarrow> u64 option"
  ss_hist :: "u64 list"
  ss_disk :: Disk

definition fuse_inputs :: "SessionConfig \<Rightarrow> (string \<times> string) list" where
  "fuse_inputs cfg = btree_extend []
     ([(''lictor:bin'', cg_lictor_sha256 cfg), (''lictor:envelope'', cg_envelope_toml_sha cfg)]
      @ (case cg_calibration cfg of Some c \<Rightarrow> [(''lictor:calibration'', cl_file_sha256 c)] | None \<Rightarrow> []))"

definition err :: "u64 \<Rightarrow> string \<Rightarrow> string \<Rightarrow> Response" where
  "err i code message = Resp_Error \<lparr> em_err_id = i, em_code = code, em_message = message, em_fatal = True \<rparr>"

fun ack_error_name :: "AckError \<Rightarrow> string" where
  "ack_error_name UnknownOperator = ''unknown_operator''"
| "ack_error_name BadSignature = ''bad_signature''"
| "ack_error_name WrongHandoff = ''wrong_handoff''"
| "ack_error_name NonceReplay = ''nonce_replay''"
| "ack_error_name NoPendingHandoff = ''no_pending_handoff''"
| "ack_error_name TooLongNote = ''too_long_note''"

definition fail :: "Session \<Rightarrow> u64 \<Rightarrow> string \<Rightarrow> string \<Rightarrow> Session \<times> Response" where
  "fail s i code message = (if ss_ep s \<noteq> None then s \<lparr> ss_faulted := True \<rparr> else s, err i code message)"

definition fold_pending_timing :: "Crypto \<Rightarrow> Session \<Rightarrow> Session option" where
  "fold_pending_timing cy s = (case ss_ep s of None \<Rightarrow> Some s
     | Some ep \<Rightarrow> (case ep_pending_timing ep of None \<Rightarrow> Some s
         | Some p \<Rightarrow> map_option (\<lambda>e. s \<lparr> ss_ep := Some (ep \<lparr> ep_pending_timing := None,
               ep_timing_head := tm_hash e, ep_timing := ep_timing ep @ [e] \<rparr>) \<rparr>)
             (timing_event (cy_sha cy) (ep_timing_head ep) (pt_seq p) (pt_decide_ns p) (pt_io_ns p))))"

definition tier1_armed :: "Session \<Rightarrow> bool" where
  "tier1_armed s \<longleftrightarrow> ss_calibration_digest s \<noteq> None"

definition budget_binding :: "Session \<Rightarrow> BudgetMsg \<Rightarrow> BudgetBinding" where
  "budget_binding s b =
     (let fc = fu_cfg (ss_fuse s);
          (alpha_num, alpha_den) = (if tier1_armed s then (cc_alpha_num (fc_calib fc), cc_alpha_den (fc_calib fc)) else (0, 1)) in
      \<lparr> bb_mode = cg_mode (ss_cfg s), bb_delay_steps = bg_delay_steps b, bb_tick_ms = bg_tick_ms b,
        bb_exec_mode = bg_exec_mode b, bb_stitch = bg_stitch b, bb_on_escalate = bg_on_escalate b,
        bb_tier0_armed = TripMask_names (fc_tier0_enabled fc), bb_tier1_armed = tier1_armed s,
        bb_gate = GateSpec_names (cc_gate (fc_calib fc)), bb_alpha_num = alpha_num, bb_alpha_den = alpha_den,
        bb_kn = (hy_k (fc_hyst fc), hy_n (fc_hyst fc)) \<rparr>)"

subsection \<open>Construction\<close>

datatype StartError = StartEnvelope EnvelopeError | StartBinding string | StartCompile EnvelopeError | StartNonces string

definition with_tier0 :: "u32 option \<Rightarrow> FuseConfig \<Rightarrow> FuseConfig" where
  "with_tier0 ov fc = (case ov of None \<Rightarrow> fc | Some m \<Rightarrow> fc \<lparr> fc_tier0_enabled := m \<rparr>)"

definition load_nonces :: "World \<Rightarrow> Disk \<Rightarrow> string \<Rightarrow> string + (string \<Rightarrow> u64 option)" where
  "load_nonces w dk p = (case dk_nonces dk p of None \<Rightarrow> Inr (\<lambda>_. None)
     | Some m \<Rightarrow> (case wd_io w p of Some e \<Rightarrow> Inl e | None \<Rightarrow> Inr m))"

definition calibration_policy_digest :: "World \<Rightarrow> CalibrationLoaded \<Rightarrow> string option" where
  "calibration_policy_digest w c =
     (if cl_path c = [] then None
      else (case wd_json w (cl_path c) of
          Some (VObj m) \<Rightarrow> (case map_of m ''policy_digest'' of Some (VStr s) \<Rightarrow> Some s | _ \<Rightarrow> None)
        | _ \<Rightarrow> None))"

definition Session_new :: "Host \<Rightarrow> World \<Rightarrow> Disk \<Rightarrow> SessionConfig \<Rightarrow> (StartError + Session) option" where
  "Session_new ht w dk cfg =
     (case SafetyEnvelope_validate (cg_envelope cfg) of Inl e \<Rightarrow> Some (Inl (StartEnvelope e))
      | Inr _ \<Rightarrow>
     Option.bind (canonical_digest (ht_crypto ht) (ht_embodiment_json ht (se_embodiment (cg_envelope cfg)))) (\<lambda>embodiment_digest.
     Option.bind (canonical_digest (ht_crypto ht) (ht_envelope_json ht (cg_envelope cfg))) (\<lambda>envelope_digest.
     if (case cg_calibration cfg of Some c \<Rightarrow> cl_embodiment_digest c \<noteq> embodiment_digest | None \<Rightarrow> False)
     then Some (Inl (StartBinding embodiment_digest))
     else (case SafetyEnvelope_compile (\<lambda>_. envelope_digest) (\<lambda>_. embodiment_digest) (cg_envelope cfg) (cg_mode cfg)
             (if cg_tier1 cfg then map_option cl_c (cg_calibration cfg) else None) of
        Inl e \<Rightarrow> Some (Inl (StartCompile e))
      | Inr fcfg \<Rightarrow>
        (case (case cg_out_dir cfg of Some d \<Rightarrow> load_nonces w dk (path_join d NONCE_FILE) | None \<Rightarrow> Inr (\<lambda>_. None)) of
           Inl e \<Rightarrow> Some (Inl (StartNonces e))
         | Inr last_nonce \<Rightarrow>
             let (key, ephemeral) = (case cg_key cfg of Some k \<Rightarrow> (k, False) | None \<Rightarrow> (ht_keygen ht, True)) in
             Some (Inr \<lparr> ss_cfg = cfg, ss_fuse = Fuse_new (with_tier0 (cg_tier0_override cfg) fcfg),
               ss_staging = Staging_new, ss_key = key, ss_ephemeral = ephemeral,
               ss_pubkey = pubkey_hex (ht_crypto ht) key, ss_envelope_digest = envelope_digest,
               ss_embodiment_digest = embodiment_digest,
               ss_calibration_digest = (if cg_tier1 cfg then map_option cl_digest (cg_calibration cfg) else None),
               ss_policy_digest = (if cg_tier1 cfg then Option.bind (cg_calibration cfg) (calibration_policy_digest w) else None),
               ss_envelope_json = floatify (ht_envelope_json ht (cg_envelope cfg)), ss_last_id = 0,
               ss_hello_ok = False, ss_client = [], ss_ep = None, ss_faulted = False, ss_phantom = False,
               ss_last_nonce = last_nonce, ss_hist = [], ss_disk = dk \<rparr>))))))"

subsection \<open>hello\<close>

fun FuseMode_debug :: "FuseMode \<Rightarrow> string" where
  "FuseMode_debug Observe = ''Observe''"
| "FuseMode_debug Enforce = ''Enforce''"

definition debug_opt_str :: "string option \<Rightarrow> string" where
  "debug_opt_str x = (case x of None \<Rightarrow> ''None'' | Some s \<Rightarrow> ''Some('' @ debug_str s @ '')'')"

definition show_word :: "'a::len word \<Rightarrow> string" where "show_word n = digits (unat n)"

definition hello_mismatch :: "Session \<Rightarrow> HelloReq \<Rightarrow> string list" where
  "hello_mismatch s h =
     (let m = se_embodiment (cg_envelope (ss_cfg s)) in
      note_if (hq_mode h \<noteq> cg_mode (ss_cfg s))
        (''mode '' @ FuseMode_debug (hq_mode h) @ '' != served '' @ FuseMode_debug (cg_mode (ss_cfg s)))
      @ note_if (hq_embodiment_id h \<noteq> em_id m)
        (''embodiment_id '' @ debug_str (hq_embodiment_id h) @ '' != envelope '' @ debug_str (em_id m))
      @ note_if (hq_action_dim h \<noteq> em_action_dim m)
        (''action_dim '' @ show_word (hq_action_dim h) @ '' != envelope '' @ show_word (em_action_dim m))
      @ note_if (hq_pos_dim h \<noteq> em_pos_dim m)
        (''pos_dim '' @ show_word (hq_pos_dim h) @ '' != envelope '' @ show_word (em_pos_dim m))
      @ note_if (hq_horizon h \<noteq> em_horizon m)
        (''horizon '' @ show_word (hq_horizon h) @ '' != envelope '' @ show_word (em_horizon m))
      @ note_if (hq_exec_steps h \<noteq> em_exec_steps m)
        (''exec_steps '' @ show_word (hq_exec_steps h) @ '' != envelope '' @ show_word (em_exec_steps m))
      @ note_if (hq_envelope_digest h \<noteq> ss_envelope_digest s)
        (''envelope_digest '' @ hq_envelope_digest h @ '' != loaded '' @ ss_envelope_digest s)
      @ note_if (hq_calibration_digest h \<noteq> ss_calibration_digest s)
        (''calibration_digest '' @ debug_opt_str (hq_calibration_digest h) @ '' != loaded ''
         @ debug_opt_str (ss_calibration_digest s)))"

fun join_str :: "string \<Rightarrow> string list \<Rightarrow> string" where
  "join_str sep [] = []"
| "join_str sep [p] = p"
| "join_str sep (p # q # ps) = p @ sep @ join_str sep (q # ps)"

definition hello :: "Session \<Rightarrow> HelloReq \<Rightarrow> Session \<times> Response" where
  "hello s h =
     (if ss_ep s \<noteq> None then fail s (hq_id h) ''state'' ''hello during an episode''
      else if hq_proto h \<noteq> PROTO
      then (s, err (hq_id h) ''protocol'' (''proto '' @ debug_str (hq_proto h) @ '' is not '' @ debug_str PROTO))
      else if hello_mismatch s h \<noteq> []
      then (s \<lparr> ss_hello_ok := False \<rparr>, err (hq_id h) ''envelope'' (join_str ''; '' (hello_mismatch s h)))
      else
        (let s = s \<lparr> ss_hello_ok := True, ss_client := hq_client h \<rparr>; fc = fu_cfg (ss_fuse s); cal = fc_calib fc in
         (s, Resp_HelloOk \<lparr> ho_id = hq_id h, ho_proto = PROTO, ho_lictor = LICTOR_VERSION,
            ho_git = cg_lictor_git (ss_cfg s), ho_lictor_sha256 = cg_lictor_sha256 (ss_cfg s),
            ho_envelope_digest = ss_envelope_digest s, ho_embodiment_digest = ss_embodiment_digest s,
            ho_calibration_digest = ss_calibration_digest s, ho_pubkey = ss_pubkey s,
            ho_ephemeral_key = ss_ephemeral s, ho_mode = cg_mode (ss_cfg s),
            ho_tier0_armed = TripMask_names (fc_tier0_enabled fc), ho_tier1_armed = tier1_armed s,
            ho_calibration = (if tier1_armed s
              then Some \<lparr> ci_method = cc_method cal, ci_alpha_num = cc_alpha_num cal, ci_alpha_den = cc_alpha_den cal,
                     ci_n_calib = cc_n_calib cal, ci_tau = cc_tau cal, ci_kn = (hy_k (fc_hyst fc), hy_n (fc_hyst fc)),
                     ci_gate = GateSpec_names (cc_gate cal),
                     ci_digest = (case ss_calibration_digest s of Some d \<Rightarrow> d | None \<Rightarrow> []) \<rparr>
              else None),
            ho_features = Feat_NAMES, ho_trip_names = TripMask_NAMES,
            ho_latency_label = cg_latency_label (ss_cfg s) \<rparr>)))"

subsection \<open>episode\_begin\<close>

definition episode_begin :: "Session \<Rightarrow> EpisodeBeginReq \<Rightarrow> Session \<times> Response" where
  "episode_begin s b =
     (let w = (case map_of (bi_policy (eb_binding b)) ''weights_sha256'' of Some w \<Rightarrow> w | None \<Rightarrow> []) in
      if ss_ep s \<noteq> None then fail s (eb_id b) ''state'' ''episode_begin while an episode is open''
      else if (case ss_policy_digest s of Some pd \<Rightarrow> w \<noteq> pd | None \<Rightarrow> False)
      then (s, err (eb_id b) ''envelope'' (''binding.policy.weights_sha256 '' @ debug_str w
              @ '' != calibration policy_digest '' @ debug_str (the (ss_policy_digest s))))
      else
        (let r = eb_run b;
             run = \<lparr> rb_run_id = rm_run_id r, rb_arm_id = rm_arm_id r, rb_episode_index = rm_episode_index r,
                     rb_seed = rm_seed r, rb_seed_pool = rm_seed_pool r, rb_init_state_digest = rm_init_state_digest r,
                     rb_env = bi_env (eb_binding b), rb_policy = bi_policy (eb_binding b), rb_host = bi_host (eb_binding b) \<rparr>;
             budget = budget_binding s (eb_budget b);
             fault_injection = map_option (\<lambda>f. \<lparr> fb_kind = fm_kind f, fb_params = fm_params f,
                 fb_stream_seed = fm_stream_seed f \<rparr>) (eb_fault_injection b);
             inputs = btree_extend (eb_inputs b) (fuse_inputs (ss_cfg s));
             paths = map_option (\<lambda>d. episode_paths d (rb_run_id run) (rb_arm_id run) (rb_episode_index run)) (cg_out_dir (ss_cfg s));
             s = s \<lparr> ss_fuse := Fuse_reset (ss_fuse s) \<lparr> ei_episode_index = rb_episode_index run, ei_seed = rb_seed run,
                       ei_delay_steps = bb_delay_steps budget, ei_exec = bb_exec_mode budget \<rparr>,
                     ss_staging := Staging_new, ss_hist := [], ss_faulted := False, ss_phantom := False,
                     ss_ep := Some \<lparr> ep_run = run, ep_budget = budget, ep_fault_injection = fault_injection,
                       ep_inputs = inputs, ep_paths = paths, ep_verdict_head = ZERO_HASH, ep_timing_head = ZERO_HASH,
                       ep_ticks = [], ep_timing = [], ep_pending_timing = None, ep_handoffs = [],
                       ep_pending_handoff = None \<rparr> \<rparr> in
         (s, Resp_EpisodeOk \<lparr> eo_id = eb_id b, eo_state = rt_state (fu_rt (ss_fuse s)), eo_seq = rt_seq (fu_rt (ss_fuse s)) \<rparr>)))"

subsection \<open>tick\<close>

definition pending_record :: "Session \<Rightarrow> HandoffRecord option" where
  "pending_record s = Option.bind (ss_ep s) (\<lambda>ep. Option.bind (ep_pending_handoff ep)
     (\<lambda>i. if i < length (ep_handoffs ep) then Some (ep_handoffs ep ! i) else None))"

definition check_ack :: "Crypto \<Rightarrow> Session \<Rightarrow> TickReq \<Rightarrow> VerifiedAck option \<times> string option" where
  "check_ack cy s t = (case tq_ack t of None \<Rightarrow> (None, None)
     | Some tok \<Rightarrow>
         (let ops = se_operators (cg_envelope (ss_cfg s));
              slots = map (\<lambda>p. case ss_last_nonce s p of Some n \<Rightarrow> n | None \<Rightarrow> 0) ops;
              (pending_digest, pending_seq) = (case pending_record s of Some h \<Rightarrow> (Some (hr_digest h), hr_seq h) | None \<Rightarrow> (None, 0)) in
          case verify_ack cy tok ops pending_digest pending_seq slots of
            Inr v \<Rightarrow> (Some v, Some ''accepted'')
          | Inl e \<Rightarrow> (None, Some (''rejected:'' @ ack_error_name e))))"

text \<open>\<open>f64::total_cmp\<close> as an integer key.\<close>

definition total_key :: "f64 \<Rightarrow> int" where
  "total_key x = (if f_sign x then - f_mag x - 1 else f_mag x)"

definition top_z :: "FuseConfig \<Rightarrow> Scores \<Rightarrow> (string \<times> f64) list" where
  "top_z fc sc = take 3 (sort_key (\<lambda>(n, z). (- total_key z, n))
     (map (\<lambda>j. (Feat_NAMES ! j, sc_z sc ! j))
        (filter (\<lambda>j. sc_valid sc AND cc_mask (fc_calib fc) AND push_bit j 1 \<noteq> 0) [0..<NFEAT])))"

definition handoff_record :: "Crypto \<Rightarrow> Session \<Rightarrow> RunBinding \<Rightarrow> SafetyVerdict \<Rightarrow> u32 \<Rightarrow> string \<Rightarrow> HandoffRecord option" where
  "handoff_record cy s run v seq chain_at =
     (case with_digest cy
        \<lparr> hr_schema = HANDOFF_SCHEMA, hr_run_id = rb_run_id run, hr_arm_id = rb_arm_id run,
          hr_episode_index = rb_episode_index run, hr_seq = seq, hr_tick = sv_t v, hr_reason = sv_reason v,
          hr_reason_text = reason_text (sv_reason v), hr_reasons = TripMask_names (sv_trips v), hr_trips = sv_trips v,
          hr_fired = sc_fired (sv_scores v), hr_window_hits = sv_window_hits v,
          hr_top_z = top_z (fu_cfg (ss_fuse s)) (sv_scores v), hr_chain_at = chain_at,
          hr_envelope_digest = ss_envelope_digest s, hr_calibration_digest = ss_calibration_digest s,
          hr_digest = [], hr_ack = None, hr_resolved_tick = None, hr_outcome = ''unacked'' \<rparr> of
        Inr r \<Rightarrow> Some r | Inl _ \<Rightarrow> None)"

definition verdict_msg ::
  "TickReq \<Rightarrow> SafetyVerdict \<Rightarrow> HandoffRecord option \<Rightarrow> string option \<Rightarrow> u64 \<Rightarrow> string \<Rightarrow> VerdictMsg" where
  "verdict_msg t v handoff ack_result verdict_ns chain =
     \<lparr> vm_id = tq_id t, vm_t = sv_t v, vm_seq = sv_seq v, vm_status = sv_status v, vm_state = sv_state v,
       vm_prev_state = sv_prev_state v, vm_trips = TripMask_names (sv_trips v), vm_trip_mask = sv_trips v,
       vm_action = take (min (unat (sv_action_dim v)) MAX_D) (sv_action v), vm_action_src = sv_action_src v,
       vm_substituted = sv_substituted v, vm_clamped_dims = sv_clamped_dims v,
       vm_scores = \<lparr> sm_f = sc_f (sv_scores v), sm_z = sc_z (sv_scores v), sm_s = sc_s (sv_scores v),
                     sm_valid = sc_valid (sv_scores v), sm_fired = sc_fired (sv_scores v) \<rparr>,
       vm_tau = sv_tau v, vm_window_hits = sv_window_hits v, vm_brake_margin = sv_brake_margin v,
       vm_reason = sv_reason v, vm_reason_text = reason_text (sv_reason v), vm_handoff = handoff,
       vm_ack_result = ack_result, vm_violation_reached_env = sv_violation_reached_env v,
       vm_verdict_ns = verdict_ns, vm_chain = chain \<rparr>"

text \<open>A tick without an episode: one error, then only schema faults.\<close>

definition phantom_tick :: "Session \<Rightarrow> TickReq \<Rightarrow> Session \<times> Response" where
  "phantom_tick s t =
     (if \<not> ss_phantom s then
        (s \<lparr> ss_phantom := True, ss_faulted := True,
             ss_fuse := Fuse_reset (ss_fuse s) \<lparr> ei_episode_index = 0, ei_seed = 0, ei_delay_steps = 0, ei_exec = Sync \<rparr> \<rparr>,
         err (tq_id t) ''state'' ''tick before episode_begin'')
      else
        (let sg = fst (stage (fu_cfg (ss_fuse s)) (ss_staging s) t);
             (fu, v) = Fuse_step (ss_fuse s) (Staging_input sg t None True) in
         (s \<lparr> ss_staging := sg, ss_fuse := fu \<rparr>, Resp_Verdict (verdict_msg t v None None 0 ZERO_HASH))))"

text \<open>The nonce of an accepted token is remembered; writing the file may fail with a warning only.\<close>

definition remember_nonce :: "World \<Rightarrow> Session \<Rightarrow> TickReq \<Rightarrow> VerifiedAck option \<Rightarrow> string option \<Rightarrow> Session" where
  "remember_nonce w s t ack ack_result = (case (tq_ack t, ack) of
       (Some tok, Some va) \<Rightarrow>
         if ack_result = Some ''accepted'' then
           (let s = s \<lparr> ss_last_nonce := (ss_last_nonce s)(ak_operator tok \<mapsto> va_nonce va) \<rparr> in
            case cg_out_dir (ss_cfg s) of None \<Rightarrow> s
            | Some d \<Rightarrow> (let p = path_join d NONCE_FILE in
                if wd_io w p \<noteq> None then s
                else s \<lparr> ss_disk := ss_disk s \<lparr> dk_nonces := (dk_nonces (ss_disk s))(p \<mapsto> ss_last_nonce s) \<rparr> \<rparr>))
         else s
     | _ \<Rightarrow> s)"

definition resolution :: "TickReq \<Rightarrow> SafetyVerdict \<Rightarrow> string option" where
  "resolution t v =
     (if sv_ack_consumed v then
        (case map_option ak_decision (tq_ack t) of Some Resume \<Rightarrow> Some ''resumed'' | Some Abort \<Rightarrow> Some ''aborted''
         | Some Retune \<Rightarrow> Some ''retune'' | None \<Rightarrow> None)
      else if sv_prev_state v = Escalated \<and> sv_state v = Terminated then Some ''timeout'' else None)"

definition resolve_pending :: "TickReq \<Rightarrow> SafetyVerdict \<Rightarrow> Episode \<Rightarrow> Episode" where
  "resolve_pending t v ep = (case ep_pending_handoff ep of None \<Rightarrow> ep
     | Some i \<Rightarrow> (case resolution t v of None \<Rightarrow> ep
         | Some outcome \<Rightarrow> ep \<lparr> ep_handoffs := (ep_handoffs ep)[i := (ep_handoffs ep ! i)
               \<lparr> hr_ack := (if sv_ack_consumed v then tq_ack t else None), hr_resolved_tick := Some (sv_t v), hr_outcome := outcome \<rparr>],
             ep_pending_handoff := None \<rparr>))"

definition episode_tick :: "Crypto \<Rightarrow> World \<Rightarrow> Session \<Rightarrow> Episode \<Rightarrow> TickReq \<Rightarrow> (Session \<times> Response) option" where
  "episode_tick cy w s ep t =
     (let (ack, ack_result) = check_ack cy s t;
          (sg, staged) = stage (fu_cfg (ss_fuse s)) (ss_staging s) t;
          s = s \<lparr> ss_staging := sg, ss_faulted := (ss_faulted s \<or> isl staged) \<rparr>;
          (fu, v) = Fuse_step (ss_fuse s) (Staging_input sg t ack (ss_faulted s));
          s = s \<lparr> ss_fuse := fu, ss_hist := Hist_record (ss_hist s) (wd_decide_ns w) \<rparr>;
          s = remember_nonce w s t ack ack_result in
      Option.bind (tick_event (cy_sha cy) (cy_b64 cy) (ep_verdict_head ep) v) (\<lambda>event.
      let ep = ep \<lparr> ep_verdict_head := te_hash event, ep_ticks := ep_ticks ep @ [event],
                   ep_pending_timing := Some \<lparr> pt_seq = sv_seq v, pt_decide_ns = wd_decide_ns w, pt_io_ns = 0 \<rparr> \<rparr>;
          ep = resolve_pending t v ep in
      Option.bind (case sv_handoff_seq v of None \<Rightarrow> Some (ep, None)
          | Some seq \<Rightarrow> map_option (\<lambda>r. (ep \<lparr> ep_handoffs := ep_handoffs ep @ [r],
                ep_pending_handoff := Some (length (ep_handoffs ep)) \<rparr>, Some r))
              (handoff_record cy s (ep_run ep) v seq (te_hash event))) (\<lambda>(ep, handoff).
      Some (s \<lparr> ss_ep := Some ep \<rparr>,
        case staged of Inl message \<Rightarrow> err (tq_id t) ''schema'' message
        | Inr _ \<Rightarrow> Resp_Verdict (verdict_msg t v handoff ack_result (wd_decide_ns w) (te_hash event))))))"

definition tick :: "Crypto \<Rightarrow> World \<Rightarrow> Session \<Rightarrow> TickReq \<Rightarrow> (Session \<times> Response) option" where
  "tick cy w s t = (case ss_ep s of None \<Rightarrow> Some (phantom_tick s t) | Some ep \<Rightarrow> episode_tick cy w s ep t)"

subsection \<open>episode\_end\<close>

definition embed_ticks :: "string \<Rightarrow> TickEvent list \<Rightarrow> TickEvent list" where
  "embed_ticks policy ts = (if policy = ''all'' then ts else if policy = ''none'' then []
     else drop (length ts - 32) ts)"

definition receipt_body :: "Host \<Rightarrow> World \<Rightarrow> Session \<Rightarrow> Episode \<Rightarrow> OutcomeMsg \<Rightarrow> string option \<Rightarrow> ReceiptBody" where
  "receipt_body ht w s ep oc ledger_prev =
     (let tally = Fuse_finish (ss_fuse s); counts = VerdictCounts_from tally;
          (fuse_ok, fuse_notes) = evaluate_fuse (ep_budget ep) counts (ss_calibration_digest s) (ss_ephemeral s) in
      \<lparr> bo_schema = RECEIPT_SCHEMA, bo_canonical = CANONICAL_ID, bo_created_epoch = wd_now w,
        bo_lictor_version = LICTOR_VERSION, bo_lictor_git = cg_lictor_git (ss_cfg s),
        bo_lictor_sha256 = cg_lictor_sha256 (ss_cfg s), bo_client = ss_client s, bo_run = ep_run ep,
        bo_budget = ep_budget ep, bo_fault_injection = ep_fault_injection ep, bo_envelope = ss_envelope_json s,
        bo_envelope_digest = ss_envelope_digest s, bo_calibration_digest = ss_calibration_digest s,
        bo_inputs = ep_inputs ep, bo_counts = counts,
        bo_outcome = \<lparr> eo_steps = oc_steps oc, eo_success = oc_success oc, eo_terminated = oc_terminated oc,
          eo_truncated = oc_truncated oc, eo_max_coverage = nan_or (oc_max_coverage oc),
          eo_final_coverage = nan_or (oc_final_coverage oc), eo_reward_sum = nan_or (oc_reward_sum oc),
          eo_ended_by = oc_ended_by oc, eo_max_s = ta_max_s tally,
          eo_max_z = F64Array_from_slice (ta_max_z tally) [of_nat NFEAT] \<rparr>,
        bo_handoffs = ep_handoffs ep, bo_verdict_events = of_nat (length (ep_ticks ep)),
        bo_verdict_chain_head = ep_verdict_head ep, bo_timing_events = of_nat (length (ep_timing ep)),
        bo_timing_chain_head = ep_timing_head ep,
        bo_latency = Hist_summary ht (ss_hist s) (cg_latency_label (ss_cfg s)),
        bo_ticks_policy = cg_ticks_policy (ss_cfg s),
        bo_ticks = embed_ticks (cg_ticks_policy (ss_cfg s)) (ep_ticks ep), bo_fuse_ok = fuse_ok,
        bo_fuse_notes = fuse_notes, bo_ledger_prev = ledger_prev \<rparr>)"

definition sign_error :: "CanonError \<Rightarrow> string" where
  "sign_error e = ''canon: '' @ CanonError_text e"

definition episode_end :: "Host \<Rightarrow> World \<Rightarrow> Session \<Rightarrow> EpisodeEndReq \<Rightarrow> (Session \<times> Response) option" where
  "episode_end ht w s0 e =
     (let cy = ht_crypto ht in
      if ss_ep s0 = None then Some (fail s0 (ee_id e) ''state'' ''episode_end without an open episode'')
      else Option.bind (fold_pending_timing cy s0) (\<lambda>s.
        let ep = the (ss_ep s); s = s \<lparr> ss_ep := None, ss_faulted := False \<rparr> in
        case (case ep_paths ep of Some p \<Rightarrow> ledger_head w (ss_disk s) (pa_ledger p) | None \<Rightarrow> Inr None) of
          Inl m \<Rightarrow> Some (s, err (ee_id e) ''internal'' (''ledger: '' @ m))
        | Inr ledger_prev \<Rightarrow>
            (let body = receipt_body ht w s ep (ee_outcome e) ledger_prev in
             case sign_receipt cy body (ss_key s) of
               Inl c \<Rightarrow> Some (s, err (ee_id e) ''internal'' (''sign: '' @ sign_error c))
             | Inr sr \<Rightarrow>
                 (let reply = (\<lambda>receipt_path ticks_path ledger_seq head.
                        Resp_EpisodeReceipt \<lparr> er_id = ee_id e, er_receipt_path = receipt_path, er_ticks_path = ticks_path,
                          er_body_digest = sr_body_digest sr, er_verdict_chain_head = bo_verdict_chain_head (sr_body sr),
                          er_timing_chain_head = bo_timing_chain_head (sr_body sr), er_fuse_ok = bo_fuse_ok body,
                          er_fuse_notes = bo_fuse_notes body, er_counts = bo_counts body, er_ledger_seq = ledger_seq,
                          er_ledger_head = head \<rparr>) in
                  case ep_paths ep of None \<Rightarrow> Some (s, reply [] [] 0 ZERO_HASH)
                  | Some p \<Rightarrow> map_option (\<lambda>(dk, r).
                        (s \<lparr> ss_disk := dk \<rparr>,
                         case r of Inl m \<Rightarrow> err (ee_id e) ''internal'' (''write episode: '' @ m)
                         | Inr entry \<Rightarrow> reply (fst (paths_display p)) (snd (paths_display p)) (le_seq entry) (le_hash entry)))
                      (write_episode cy w (ss_disk s) p sr (ep_ticks ep) (ep_timing ep))))))"

subsection \<open>Requests\<close>

definition handle :: "Host \<Rightarrow> World \<Rightarrow> Session \<Rightarrow> Request \<Rightarrow> (Session \<times> Response) option" where
  "handle ht w s0 req =
     Option.bind (fold_pending_timing (ht_crypto ht) s0) (\<lambda>s.
       if req_id req \<le> ss_last_id s
       then Some (fail s (req_id req) ''protocol'' (''request id '' @ show_word (req_id req)
              @ '' is not greater than the previous id '' @ show_word (ss_last_id s)))
       else
         (let s = s \<lparr> ss_last_id := req_id req \<rparr> in
          case req of Req_Hello h \<Rightarrow> Some (hello s h) | Req_EpisodeBegin b \<Rightarrow> Some (episode_begin s b)
          | Req_Tick t \<Rightarrow> tick (ht_crypto ht) w s t | Req_EpisodeEnd e \<Rightarrow> episode_end ht w s e
          | Req_Bye i \<Rightarrow> Some (s, Resp_ByeOk i)))"

definition handle_bad_line :: "Crypto \<Rightarrow> Session \<Rightarrow> u64 option \<Rightarrow> string \<Rightarrow> (Session \<times> Response) option" where
  "handle_bad_line cy s0 i message = map_option (\<lambda>s.
     fail s (case i of Some n \<Rightarrow> n | None \<Rightarrow> ss_last_id s) ''schema'' message) (fold_pending_timing cy s0)"

definition note_io_ns :: "Session \<Rightarrow> u32 \<Rightarrow> u64 \<Rightarrow> Session" where
  "note_io_ns s seq ns = (case ss_ep s of None \<Rightarrow> s | Some ep \<Rightarrow>
     (case ep_pending_timing ep of None \<Rightarrow> s | Some p \<Rightarrow>
        if pt_seq p = seq then s \<lparr> ss_ep := Some (ep \<lparr> ep_pending_timing := Some (p \<lparr> pt_io_ns := ns \<rparr>) \<rparr>) \<rparr> else s))"

end
