(* ===== verification/SessionInv.thy ===== *)
theory SessionInv
  imports Session
begin

text \<open>
  What a session keeps: the staging buffers fit the compiled dimensions, the two chains of the open
  episode are linked from the genesis with one event per tick, the fuse's sequence number is the
  number of ticks, and the latched fault reaches every later tick.  \<open>session_reach\<close> is the
  set of sessions a process can reach by requests, bad lines and flush notes in any order.
\<close>

subsection \<open>What the parts of a tick change\<close>

lemma resolve_pending_fields [simp]:
  "ep_ticks (resolve_pending t v ep) = ep_ticks ep" "ep_verdict_head (resolve_pending t v ep) = ep_verdict_head ep"
  "ep_timing (resolve_pending t v ep) = ep_timing ep" "ep_timing_head (resolve_pending t v ep) = ep_timing_head ep"
  "ep_pending_timing (resolve_pending t v ep) = ep_pending_timing ep" "ep_run (resolve_pending t v ep) = ep_run ep"
  "ep_paths (resolve_pending t v ep) = ep_paths ep"
  by (simp_all add: resolve_pending_def split: option.split)

lemma remember_nonce_fields [simp]:
  "ss_cfg (remember_nonce w s t a r) = ss_cfg s" "ss_fuse (remember_nonce w s t a r) = ss_fuse s"
  "ss_staging (remember_nonce w s t a r) = ss_staging s" "ss_key (remember_nonce w s t a r) = ss_key s"
  "ss_pubkey (remember_nonce w s t a r) = ss_pubkey s" "ss_faulted (remember_nonce w s t a r) = ss_faulted s"
  "ss_phantom (remember_nonce w s t a r) = ss_phantom s" "ss_envelope_digest (remember_nonce w s t a r) = ss_envelope_digest s"
  "ss_envelope_json (remember_nonce w s t a r) = ss_envelope_json s" "ss_last_id (remember_nonce w s t a r) = ss_last_id s"
  "ss_ep (remember_nonce w s t a r) = ss_ep s"
  "dk_ledger (ss_disk (remember_nonce w s t a r)) = dk_ledger (ss_disk s)"
  by (simp_all add: remember_nonce_def Let_def split: option.split)

text \<open>The fields that only \<open>new\<close> sets.\<close>

definition fixed :: "Session \<Rightarrow> SessionConfig \<times> FuseConfig \<times> u8 list \<times> string \<times> string \<times> Value" where
  "fixed s = (ss_cfg s, fu_cfg (ss_fuse s), ss_key s, ss_pubkey s, ss_envelope_digest s, ss_envelope_json s)"

lemma fixed_update [simp]: "fixed (s \<lparr> ss_ep := e \<rparr>) = fixed s" "fixed (s \<lparr> ss_last_id := i \<rparr>) = fixed s"
  by (simp_all add: fixed_def)

lemma Fuse_cfg [simp]: "fu_cfg (fst (Fuse_step f inp)) = fu_cfg f" "fu_cfg (Fuse_reset f i) = fu_cfg f"
  "fu_rt (fst (Fuse_step f inp)) = fst (decide (fu_cfg f) (fu_rt f) inp)" "fu_rt (Fuse_reset f i) = FuseRt_reset (fu_rt f) i"
  by (simp_all add: Fuse_step_eq Fuse_reset_def)

text \<open>A tick inside an episode, in parts.\<close>

definition tick_input :: "Crypto \<Rightarrow> Session \<Rightarrow> TickReq \<Rightarrow> TickInput" where
  "tick_input cy s t = (let (sg, staged) = stage (fu_cfg (ss_fuse s)) (ss_staging s) t in
     Staging_input sg t (fst (check_ack cy s t)) (ss_faulted s \<or> isl staged))"

definition tick_verdict :: "Crypto \<Rightarrow> Session \<Rightarrow> TickReq \<Rightarrow> SafetyVerdict" where
  "tick_verdict cy s t = snd (decide (fu_cfg (ss_fuse s)) (fu_rt (ss_fuse s)) (tick_input cy s t))"

definition after_decide :: "Crypto \<Rightarrow> World \<Rightarrow> Session \<Rightarrow> TickReq \<Rightarrow> Session" where
  "after_decide cy w s t = (let (sg, staged) = stage (fu_cfg (ss_fuse s)) (ss_staging s) t in
     remember_nonce w (s \<lparr> ss_staging := sg, ss_faulted := (ss_faulted s \<or> isl staged),
       ss_fuse := fst (Fuse_step (ss_fuse s) (tick_input cy s t)), ss_hist := Hist_record (ss_hist s) (wd_decide_ns w) \<rparr>)
       t (fst (check_ack cy s t)) (snd (check_ack cy s t)))"

definition after_tick :: "World \<Rightarrow> TickReq \<Rightarrow> SafetyVerdict \<Rightarrow> TickEvent \<Rightarrow> Episode \<Rightarrow> Episode" where
  "after_tick w t v event ep = resolve_pending t v (ep \<lparr> ep_verdict_head := te_hash event, ep_ticks := ep_ticks ep @ [event],
     ep_pending_timing := Some \<lparr> pt_seq = sv_seq v, pt_decide_ns = wd_decide_ns w, pt_io_ns = 0 \<rparr> \<rparr>)"

definition tick_reply :: "Crypto \<Rightarrow> World \<Rightarrow> Session \<Rightarrow> TickReq \<Rightarrow> SafetyVerdict \<Rightarrow> TickEvent \<Rightarrow> HandoffRecord option \<Rightarrow> Response" where
  "tick_reply cy w s t v event h = (case snd (stage (fu_cfg (ss_fuse s)) (ss_staging s) t) of Inl m \<Rightarrow> err (tq_id t) ''schema'' m
      | Inr _ \<Rightarrow> Resp_Verdict (verdict_msg t v h (snd (check_ack cy s t)) (wd_decide_ns w) (te_hash event)))"

lemma after_decide_fields [simp]:
  "ss_fuse (after_decide cy w s t) = fst (Fuse_step (ss_fuse s) (tick_input cy s t))"
  "ss_staging (after_decide cy w s t) = fst (stage (fu_cfg (ss_fuse s)) (ss_staging s) t)"
  "ss_faulted (after_decide cy w s t) = (ss_faulted s \<or> isl (snd (stage (fu_cfg (ss_fuse s)) (ss_staging s) t)))"
  "fixed (after_decide cy w s t) = fixed s" "ss_last_id (after_decide cy w s t) = ss_last_id s"
  "ss_phantom (after_decide cy w s t) = ss_phantom s" "dk_ledger (ss_disk (after_decide cy w s t)) = dk_ledger (ss_disk s)"
  by (simp_all add: after_decide_def fixed_def split_beta)

lemma after_tick_fields [simp]:
  "ep_ticks (after_tick w t v event ep) = ep_ticks ep @ [event]" "ep_verdict_head (after_tick w t v event ep) = te_hash event"
  "ep_timing (after_tick w t v event ep) = ep_timing ep" "ep_timing_head (after_tick w t v event ep) = ep_timing_head ep"
  "ep_run (after_tick w t v event ep) = ep_run ep" "ep_paths (after_tick w t v event ep) = ep_paths ep"
  "ep_pending_timing (after_tick w t v event ep) = Some \<lparr> pt_seq = sv_seq v, pt_decide_ns = wd_decide_ns w, pt_io_ns = 0 \<rparr>"
  by (simp_all add: after_tick_def)

lemma episode_tick_eq:
  "episode_tick cy w s ep t =
     Option.bind (tick_event (cy_sha cy) (cy_b64 cy) (ep_verdict_head ep) (tick_verdict cy s t)) (\<lambda>event.
     Option.bind (case sv_handoff_seq (tick_verdict cy s t) of None \<Rightarrow> Some (after_tick w t (tick_verdict cy s t) event ep, None)
          | Some seq \<Rightarrow> map_option (\<lambda>r. (after_tick w t (tick_verdict cy s t) event ep
                \<lparr> ep_handoffs := ep_handoffs (after_tick w t (tick_verdict cy s t) event ep) @ [r],
                  ep_pending_handoff := Some (length (ep_handoffs (after_tick w t (tick_verdict cy s t) event ep))) \<rparr>, Some r))
              (handoff_record cy (after_decide cy w s t) (ep_run ep) (tick_verdict cy s t) seq (te_hash event))) (\<lambda>(ep, handoff).
     Some (after_decide cy w s t \<lparr> ss_ep := Some ep \<rparr>, tick_reply cy w s t (tick_verdict cy s t) event handoff)))"
proof -
  let ?st = "stage (fu_cfg (ss_fuse s)) (ss_staging s) t"
  have inp: "Staging_input (fst ?st) t (fst (check_ack cy s t)) (ss_faulted s \<or> isl (snd ?st)) = tick_input cy s t"
    by (simp add: tick_input_def split_beta)
  have v: "snd (Fuse_step (ss_fuse s) (tick_input cy s t)) = tick_verdict cy s t" by (simp add: tick_verdict_def Fuse_step_eq)
  have inr: "Staging_input (fst ?st) t (fst (check_ack cy s t)) (ss_faulted s) = tick_input cy s t" if "snd ?st = Inr x" for x
    using inp that by simp
  have run: "ep_run (resolve_pending t x e) = ep_run e" for x e by simp
  show ?thesis
    unfolding episode_tick_def after_decide_def tick_reply_def after_tick_def Let_def split_beta
    by (simp add: inp inr v run cong: option.case_cong sum.case_cong)
qed

lemma episode_tick_parts:
  assumes "episode_tick cy w s ep t = Some (s', r)"
  obtains event ep' h where
    "tick_event (cy_sha cy) (cy_b64 cy) (ep_verdict_head ep) (tick_verdict cy s t) = Some event"
    "ss_ep s' = Some ep'" "ep_ticks ep' = ep_ticks ep @ [event]" "ep_verdict_head ep' = te_hash event"
    "ep_timing ep' = ep_timing ep" "ep_timing_head ep' = ep_timing_head ep" "ep_run ep' = ep_run ep" "ep_paths ep' = ep_paths ep"
    "ep_pending_timing ep' = Some \<lparr> pt_seq = sv_seq (tick_verdict cy s t), pt_decide_ns = wd_decide_ns w, pt_io_ns = 0 \<rparr>"
    "ss_fuse s' = fst (Fuse_step (ss_fuse s) (tick_input cy s t))"
    "ss_staging s' = fst (stage (fu_cfg (ss_fuse s)) (ss_staging s) t)"
    "ss_faulted s' = (ss_faulted s \<or> isl (snd (stage (fu_cfg (ss_fuse s)) (ss_staging s) t)))"
    "fixed s' = fixed s" "ss_last_id s' = ss_last_id s" "ss_last_nonce s' = ss_last_nonce (after_decide cy w s t)"
    "dk_ledger (ss_disk s') = dk_ledger (ss_disk s)"
    "r = (case snd (stage (fu_cfg (ss_fuse s)) (ss_staging s) t) of Inl m \<Rightarrow> err (tq_id t) ''schema'' m
      | Inr _ \<Rightarrow> Resp_Verdict (verdict_msg t (tick_verdict cy s t) h (snd (check_ack cy s t)) (wd_decide_ns w) (te_hash event)))"
proof -
  let ?v = "tick_verdict cy s t"
  obtain event where ev: "tick_event (cy_sha cy) (cy_b64 cy) (ep_verdict_head ep) ?v = Some event"
    using assms by (auto simp: episode_tick_eq bind_eq_Some_conv)
  let ?ep = "after_tick w t ?v event ep"
  show thesis
  proof (cases "sv_handoff_seq ?v")
    case None
    then have "s' = after_decide cy w s t \<lparr> ss_ep := Some ?ep \<rparr>" "r = tick_reply cy w s t ?v event None"
      using assms by (simp_all add: episode_tick_eq ev)
    then show thesis by (intro that [of event ?ep None]) (simp_all add: ev tick_reply_def)
  next
    case (Some seq)
    then obtain hr where "handoff_record cy (after_decide cy w s t) (ep_run ep) ?v seq (te_hash event) = Some hr"
      using assms
      by (cases "handoff_record cy (after_decide cy w s t) (ep_run ep) ?v seq (te_hash event)") (simp_all add: episode_tick_eq ev)
    with Some have "s' = after_decide cy w s t \<lparr> ss_ep := Some (?ep \<lparr> ep_handoffs := ep_handoffs ?ep @ [hr],
          ep_pending_handoff := Some (length (ep_handoffs ?ep)) \<rparr>) \<rparr>" "r = tick_reply cy w s t ?v event (Some hr)"
      using assms by (simp_all add: episode_tick_eq ev)
    then show thesis
      by (intro that [of event "?ep \<lparr> ep_handoffs := ep_handoffs ?ep @ [hr],
          ep_pending_handoff := Some (length (ep_handoffs ?ep)) \<rparr>" "Some hr"]) (simp_all add: ev tick_reply_def)
  qed
qed

subsection \<open>The invariant\<close>

definition episode_inv :: "Crypto \<Rightarrow> FuseRt \<Rightarrow> Episode \<Rightarrow> bool" where
  "episode_inv cy rt ep \<longleftrightarrow>
     ep_verdict_head ep = ticks.head_of ZERO_HASH (ep_ticks ep) \<and>
     ep_timing_head ep = timing.head_of ZERO_HASH (ep_timing ep) \<and>
     length (ep_ticks ep) = length (ep_timing ep) + (if ep_pending_timing ep = None then 0 else 1) \<and>
     (length (ep_ticks ep) < 2 ^ 32 \<longrightarrow>
        unat (rt_seq rt) = length (ep_ticks ep) \<and> tally_sound rt \<and>
        ticks.linked (cy_sha cy) (cy_b64 cy) 0 0 ZERO_HASH (ep_ticks ep) \<and>
        timing.linked (cy_sha cy) 0 0 ZERO_HASH (ep_timing ep) \<and>
        (\<forall>p. ep_pending_timing ep = Some p \<longrightarrow> pt_seq p = of_nat (length (ep_timing ep))))"

definition session_inv :: "Crypto \<Rightarrow> Session \<Rightarrow> bool" where
  "session_inv cy s \<longleftrightarrow> fits (fu_cfg (ss_fuse s)) \<and> Staging_wf (ss_staging s) \<and>
     (\<forall>ep. ss_ep s = Some ep \<longrightarrow> episode_inv cy (fu_rt (ss_fuse s)) ep)"

lemma sv_seq_decide: "sv_seq (snd (decide cfg rt inp)) = rt_seq rt"
  by (simp add: decide_verdict)

lemma episode_inv_fold:
  assumes "episode_inv cy rt ep" "ep_pending_timing ep = Some p"
    "timing_event (cy_sha cy) (ep_timing_head ep) (pt_seq p) d io = Some e"
  shows "episode_inv cy rt (ep \<lparr> ep_pending_timing := None, ep_timing_head := tm_hash e, ep_timing := ep_timing ep @ [e] \<rparr>)"
proof -
  have e: "tm_seq e = pt_seq p" "tm_prev e = ep_timing_head ep" "TimingEvent_recompute (cy_sha cy) e = Some (tm_hash e)"
    using assms(3) by (auto simp: timing_event_def Let_def TimingEvent_recompute_def)
  show ?thesis
    using assms(1,2) e by (auto simp: episode_inv_def timing.linked_append timing.good_def)
qed

lemma fold_pending_parts:
  assumes "fold_pending_timing cy s = Some s'" "session_inv cy s"
  shows "session_inv cy s'" "fixed s' = fixed s" "ss_last_id s' = ss_last_id s" "ss_faulted s' = ss_faulted s"
    "ss_fuse s' = ss_fuse s" "ss_staging s' = ss_staging s" "ss_phantom s' = ss_phantom s"
    "ss_last_nonce s' = ss_last_nonce s" "ss_disk s' = ss_disk s"
    "(ss_ep s' = None) = (ss_ep s = None)"
    "\<And>ep'. ss_ep s' = Some ep' \<Longrightarrow> ep_pending_timing ep' = None \<and>
       (\<exists>ep. ss_ep s = Some ep \<and> ep_ticks ep' = ep_ticks ep \<and> ep_paths ep' = ep_paths ep)"
  using assms
  by (auto simp: fold_pending_timing_def session_inv_def fixed_def episode_inv_fold split: option.splits)

lemma episode_inv_tick:
  assumes "episode_inv cy rt ep" "ep_pending_timing ep = None"
    "tick_event (cy_sha cy) (cy_b64 cy) (ep_verdict_head ep) (snd (decide cfg rt inp)) = Some event"
    "ep_ticks ep' = ep_ticks ep @ [event]" "ep_verdict_head ep' = te_hash event"
    "ep_timing ep' = ep_timing ep" "ep_timing_head ep' = ep_timing_head ep"
    "ep_pending_timing ep' = Some \<lparr> pt_seq = sv_seq (snd (decide cfg rt inp)), pt_decide_ns = d, pt_io_ns = 0 \<rparr>"
  shows "episode_inv cy (fst (decide cfg rt inp)) ep'"
proof -
  note ev = tick_event_good [OF assms(3)]
  have len: "length (ep_ticks ep) = length (ep_timing ep)" using assms(1,2) by (simp add: episode_inv_def)
  have head: "ep_verdict_head ep = ticks.head_of ZERO_HASH (ep_ticks ep)" using assms(1) by (simp add: episode_inv_def)
  show ?thesis
  proof (cases "length (ep_ticks ep) + 1 < 2 ^ 32")
    case True
    then have b: "unat (rt_seq rt) = length (ep_ticks ep)" "tally_sound rt"
      "ticks.linked (cy_sha cy) (cy_b64 cy) 0 0 ZERO_HASH (ep_ticks ep)" "timing.linked (cy_sha cy) 0 0 ZERO_HASH (ep_timing ep)"
      using assms(1) by (simp_all add: episode_inv_def)
    have seq: "of_nat (length (ep_ticks ep)) = rt_seq rt" "of_nat (length (ep_timing ep)) = rt_seq rt"
      by (simp flip: b(1)) (simp flip: b(1) len)
    show ?thesis
      using assms(1,4-) b True ev len head decide_tally_sound [OF b(2), of cfg inp]
      by (simp add: episode_inv_def ticks.linked_append ticks.good_def sv_seq_decide seq decide_fields unat_sat_inc)
  next
    case False
    then show ?thesis using assms(1,4-) len by (simp add: episode_inv_def)
  qed
qed

lemma episode_inv_new:
  "episode_inv cy (FuseRt_reset rt init) \<lparr> ep_run = run, ep_budget = b, ep_fault_injection = f, ep_inputs = inp, ep_paths = p,
     ep_verdict_head = ZERO_HASH, ep_timing_head = ZERO_HASH, ep_ticks = [], ep_timing = [], ep_pending_timing = None,
     ep_handoffs = [], ep_pending_handoff = None \<rparr>"
  by (simp add: episode_inv_def tally_sound_def FuseRt_reset_def Tally_default_def state_total_def)

lemma session_inv_tick:
  assumes "session_inv cy s" "ss_ep s = Some ep" "ep_pending_timing ep = None" "episode_tick cy w s ep t = Some (s', r)"
  shows "session_inv cy s' \<and> fixed s' = fixed s \<and> ss_last_id s' = ss_last_id s"
proof -
  obtain event ep' h where p:
    "tick_event (cy_sha cy) (cy_b64 cy) (ep_verdict_head ep) (tick_verdict cy s t) = Some event"
    "ss_ep s' = Some ep'" "ep_ticks ep' = ep_ticks ep @ [event]" "ep_verdict_head ep' = te_hash event"
    "ep_timing ep' = ep_timing ep" "ep_timing_head ep' = ep_timing_head ep"
    "ep_pending_timing ep' = Some \<lparr> pt_seq = sv_seq (tick_verdict cy s t), pt_decide_ns = wd_decide_ns w, pt_io_ns = 0 \<rparr>"
    "ss_fuse s' = fst (Fuse_step (ss_fuse s) (tick_input cy s t))"
    "ss_staging s' = fst (stage (fu_cfg (ss_fuse s)) (ss_staging s) t)" "fixed s' = fixed s" "ss_last_id s' = ss_last_id s"
    by (rule episode_tick_parts [OF assms(4)]) blast
  have "episode_inv cy (fst (decide (fu_cfg (ss_fuse s)) (fu_rt (ss_fuse s)) (tick_input cy s t))) ep'"
    using episode_inv_tick [OF _ assms(3) p(1) [unfolded tick_verdict_def] p(3-6) p(7) [unfolded tick_verdict_def]]
      assms(1,2) by (simp add: session_inv_def)
  then show ?thesis using assms(1) p by (simp add: session_inv_def stage_wf)
qed

subsection \<open>Every request keeps it\<close>

lemma session_inv_cong:
  "session_inv cy s \<Longrightarrow> ss_fuse s' = ss_fuse s \<Longrightarrow> ss_staging s' = ss_staging s \<Longrightarrow> ss_ep s' = ss_ep s \<or> ss_ep s' = None \<Longrightarrow>
     session_inv cy s'"
  by (auto simp: session_inv_def)

lemma fail_fields [simp]:
  "ss_cfg (fst (fail s i c m)) = ss_cfg s" "ss_fuse (fst (fail s i c m)) = ss_fuse s"
  "ss_staging (fst (fail s i c m)) = ss_staging s" "ss_key (fst (fail s i c m)) = ss_key s"
  "ss_pubkey (fst (fail s i c m)) = ss_pubkey s" "ss_envelope_digest (fst (fail s i c m)) = ss_envelope_digest s"
  "ss_envelope_json (fst (fail s i c m)) = ss_envelope_json s" "ss_ep (fst (fail s i c m)) = ss_ep s"
  "ss_last_nonce (fst (fail s i c m)) = ss_last_nonce s" "ss_last_id (fst (fail s i c m)) = ss_last_id s"
  "ss_phantom (fst (fail s i c m)) = ss_phantom s" "snd (fail s i c m) = err i c m"
  by (simp_all add: fail_def)

lemma fail_inv: "session_inv cy s \<Longrightarrow> session_inv cy (fst (fail s i c m))" "fixed (fst (fail s i c m)) = fixed s"
  by (simp_all add: session_inv_def fixed_def)

lemma hello_inv: "session_inv cy s \<Longrightarrow> session_inv cy (fst (hello s h))" "fixed (fst (hello s h)) = fixed s"
  by (simp_all add: hello_def Let_def fixed_def session_inv_def)

lemma episode_begin_inv:
  "session_inv cy s \<Longrightarrow> session_inv cy (fst (episode_begin s b))" "fixed (fst (episode_begin s b)) = fixed s"
  by (simp_all add: episode_begin_def Let_def fixed_def session_inv_def Staging_new_wf episode_inv_new)

lemma phantom_tick_inv:
  "session_inv cy s \<Longrightarrow> ss_ep s = None \<Longrightarrow> session_inv cy (fst (phantom_tick s t))" "fixed (fst (phantom_tick s t)) = fixed s"
  by (simp_all add: phantom_tick_def Let_def fixed_def session_inv_def split_beta stage_wf)

lemma episode_end_closes:
  assumes "episode_end ht w s e = Some (s', r)" "ss_ep s = Some ep" "fold_pending_timing (ht_crypto ht) s = Some s1"
  shows "ss_ep s' = None \<and> ss_fuse s' = ss_fuse s1 \<and> ss_staging s' = ss_staging s1 \<and> fixed s' = fixed s1 \<and>
    ss_last_nonce s' = ss_last_nonce s1 \<and> \<not> ss_faulted s'"
proof -
  let ?s = "s1 \<lparr> ss_ep := None, ss_faulted := False \<rparr>" and ?ep = "the (ss_ep s1)" and ?cy = "ht_crypto ht"
  note d = assms(1) [unfolded episode_end_def Let_def assms(3) bind.simps assms(2), simplified]
  show ?thesis
  proof (cases "case ep_paths ?ep of Some p \<Rightarrow> ledger_head w (ss_disk ?s) (pa_ledger p) | None \<Rightarrow> Inr None")
    case (Inl m)
    then show ?thesis using d by (auto simp: fixed_def)
  next
    case (Inr prev)
    then show ?thesis using d
      by (cases "sign_receipt ?cy (receipt_body ht w ?s ?ep (ee_outcome e) prev) (ss_key s1)"; cases "ep_paths ?ep")
        (auto simp: case_prod_unfold fixed_def)
  qed
qed

lemma episode_end_inv:
  assumes "session_inv (ht_crypto ht) s" "episode_end ht w s e = Some (s', r)"
  shows "session_inv (ht_crypto ht) s' \<and> fixed s' = fixed s"
proof (cases "ss_ep s")
  case None
  then have "s' = fst (fail s (ee_id e) ''state'' ''episode_end without an open episode'')"
    using assms(2) by (simp add: episode_end_def Let_def)
  then show ?thesis using fail_inv assms(1) by simp
next
  case (Some ep)
  then obtain s1 where f: "fold_pending_timing (ht_crypto ht) s = Some s1"
    using assms(2) by (auto simp: episode_end_def Let_def bind_eq_Some_conv)
  show ?thesis
    using episode_end_closes [OF assms(2) Some f] fold_pending_parts(1,2) [OF f assms(1)] by (auto intro: session_inv_cong)
qed

lemma handle_inv:
  assumes "session_inv (ht_crypto ht) s" "handle ht w s req = Some (s', r)"
  shows "session_inv (ht_crypto ht) s' \<and> fixed s' = fixed s"
proof -
  let ?cy = "ht_crypto ht"
  obtain s1 where f: "fold_pending_timing ?cy s = Some s1" using assms(2) by (auto simp: handle_def bind_eq_Some_conv)
  note p = fold_pending_parts [OF f assms(1)]
  let ?s2 = "s1 \<lparr> ss_last_id := req_id req \<rparr>"
  have s2: "session_inv ?cy ?s2" "fixed ?s2 = fixed s1" using p(1) by (auto simp: fixed_def intro: session_inv_cong)
  show ?thesis
  proof (cases "req_id req \<le> ss_last_id s1")
    case True
    then have "s' = fst (fail s1 (req_id req) ''protocol'' (''request id '' @ show_word (req_id req)
        @ '' is not greater than the previous id '' @ show_word (ss_last_id s1)))"
      using assms(2) f by (simp add: handle_def)
    then show ?thesis using fail_inv p(1,2) by simp
  next
    case False
    note h = assms(2) [unfolded handle_def f bind.simps, simplified False if_False Let_def]
    show ?thesis
    proof (cases req)
      case (Req_Hello q)
      then have "s' = fst (hello ?s2 q)" using h False by simp
      then show ?thesis using hello_inv s2 p(2) by simp
    next
      case (Req_EpisodeBegin q)
      then have "s' = fst (episode_begin ?s2 q)" using h False by simp
      then show ?thesis using episode_begin_inv s2 p(2) by simp
    next
      case (Req_Tick q)
      then have t: "tick ?cy w ?s2 q = Some (s', r)" using h False by simp
      show ?thesis
      proof (cases "ss_ep s1")
        case None
        then have "s' = fst (phantom_tick ?s2 q)" using t by (simp add: tick_def)
        then show ?thesis using phantom_tick_inv s2 p(2) None by simp
      next
        case (Some ep)
        then have "episode_tick ?cy w ?s2 ep q = Some (s', r)" using t by (simp add: tick_def)
        from session_inv_tick [OF s2(1) _ _ this] show ?thesis using p(2) p(11) [OF Some] Some s2(2) by simp
      qed
    next
      case (Req_EpisodeEnd q)
      then have "episode_end ht w ?s2 q = Some (s', r)" using h False by simp
      from episode_end_inv [OF s2(1) this] show ?thesis using s2(2) p(2) by simp
    next
      case (Req_Bye i)
      then show ?thesis using h False s2 p(2) by simp
    qed
  qed
qed

lemma note_io_inv: "session_inv cy s \<Longrightarrow> session_inv cy (note_io_ns s q ns) \<and> fixed (note_io_ns s q ns) = fixed s"
proof (cases "ss_ep s")
  case (Some ep)
  assume "session_inv cy s"
  then show ?thesis using Some
    by (cases "ep_pending_timing ep") (auto simp: note_io_ns_def session_inv_def fixed_def episode_inv_def)
qed (simp add: note_io_ns_def)

subsection \<open>Reachable sessions\<close>

inductive session_reach :: "Host \<Rightarrow> Session \<Rightarrow> bool" for ht where
  reach_start: "Session_new ht w dk cfg = Some (Inr s) \<Longrightarrow> session_reach ht s"
| reach_request: "session_reach ht s \<Longrightarrow> handle ht w s req = Some (s', r) \<Longrightarrow> session_reach ht s'"
| reach_bad_line: "session_reach ht s \<Longrightarrow> handle_bad_line (ht_crypto ht) s i m = Some (s', r) \<Longrightarrow> session_reach ht s'"
| reach_flushed: "session_reach ht s \<Longrightarrow> session_reach ht (note_io_ns s q ns)"

text \<open>What \<open>new\<close> establishes and nothing changes.\<close>

definition started :: "Host \<Rightarrow> Session \<Rightarrow> bool" where
  "started ht s \<longleftrightarrow> ss_pubkey s = pubkey_hex (ht_crypto ht) (ss_key s) \<and>
     ss_envelope_json s = floatify (ht_envelope_json ht (cg_envelope (ss_cfg s))) \<and>
     canonical_digest (ht_crypto ht) (ht_envelope_json ht (cg_envelope (ss_cfg s))) = Some (ss_envelope_digest s)"

lemma started_fixed: "fixed s' = fixed s \<Longrightarrow> started ht s' = started ht s"
  by (simp add: fixed_def started_def)

lemma with_tier0_dims [simp]: "fits (with_tier0 ov cfg) = fits cfg"
  by (simp add: with_tier0_def fits_def split: option.split)

lemma FuseConfig_wf_fits: "FuseConfig_wf cfg \<Longrightarrow> fits cfg"
  by (simp add: FuseConfig_wf_def fits_def)

lemma Session_new_inv:
  assumes "Session_new ht w dk cfg = Some (Inr s)"
  shows "session_inv (ht_crypto ht) s" "started ht s" "ss_ep s = None" "ss_cfg s = cfg"
proof -
  let ?cy = "ht_crypto ht" and ?ve = "ht_envelope_json ht (cg_envelope cfg)"
  obtain u where u: "SafetyEnvelope_validate (cg_envelope cfg) = Inr u"
    using assms by (cases "SafetyEnvelope_validate (cg_envelope cfg)") (simp_all add: Session_new_def)
  obtain e where e: "canonical_digest ?cy (ht_embodiment_json ht (se_embodiment (cg_envelope cfg))) = Some e"
    using assms u by (cases "canonical_digest ?cy (ht_embodiment_json ht (se_embodiment (cg_envelope cfg)))") (simp_all add: Session_new_def)
  obtain d where d: "canonical_digest ?cy ?ve = Some d"
    using assms u e by (cases "canonical_digest ?cy ?ve") (simp_all add: Session_new_def)
  note v = u e d
  note d = assms [unfolded Session_new_def v bind.simps sum.case]
  have "\<not> (case cg_calibration cfg of Some c \<Rightarrow> cl_embodiment_digest c \<noteq> e | None \<Rightarrow> False)" using d by (auto split: if_split_asm)
  note d = d [unfolded if_not_P [OF this]]
  obtain fcfg where c: "SafetyEnvelope_compile (\<lambda>_. d) (\<lambda>_. e) (cg_envelope cfg) (cg_mode cfg)
      (if cg_tier1 cfg then map_option cl_c (cg_calibration cfg) else None) = Inr fcfg"
    using d by (auto split: sum.split_asm)
  note d = d [unfolded c sum.case]
  obtain n where n: "(case cg_out_dir cfg of Some d \<Rightarrow> load_nonces w dk (path_join d NONCE_FILE) | None \<Rightarrow> Inr (\<lambda>_. None)) = Inr n"
    using d by (auto split: sum.split_asm)
  note d = d [unfolded n sum.case Let_def split_beta]
  have "session_inv ?cy s \<and> started ht s \<and> ss_ep s = None \<and> ss_cfg s = cfg"
    using d compile_wf [OF c, THEN FuseConfig_wf_fits] v(3)
    by (auto simp: session_inv_def started_def Fuse_new_def Staging_new_wf)
  then show "session_inv (ht_crypto ht) s" "started ht s" "ss_ep s = None" "ss_cfg s = cfg" by blast+
qed

lemma handle_bad_line_inv:
  assumes "session_inv cy s" "handle_bad_line cy s i m = Some (s', r)"
  shows "session_inv cy s' \<and> fixed s' = fixed s"
proof -
  obtain s1 where f: "fold_pending_timing cy s = Some s1" "s' = fst (fail s1 (case i of Some n \<Rightarrow> n | None \<Rightarrow> ss_last_id s1) ''schema'' m)"
    using assms(2) by (auto simp: handle_bad_line_def)
  show ?thesis using fold_pending_parts(1,2) [OF f(1) assms(1)] fail_inv f(2) by simp
qed

theorem reach_session_inv: "session_reach ht s \<Longrightarrow> session_inv (ht_crypto ht) s \<and> started ht s"
proof (induction rule: session_reach.induct)
  case (reach_request s w req s' r)
  then show ?case using handle_inv started_fixed by blast
next
  case (reach_bad_line s i m s' r)
  then show ?case using handle_bad_line_inv started_fixed by blast
next
  case (reach_flushed s q ns)
  then show ?case using note_io_inv started_fixed by blast
qed (simp add: Session_new_inv)

end
