(* ===== verification/SessionReceipt.thy ===== *)
theory SessionReceipt
  imports SessionInv
begin

text \<open>
  The receipt an episode ends with.  A session's invariant makes the body consistent, so the signed
  receipt verifies as intact; the ledger entry is appended after it and names its digest; and the only
  panic of the session is the hash of a timing event whose duration has no canonical form.
\<close>

context hash_chain
begin

lemma linked_shift: "linked f (i + k) g es = linked (f + of_nat k) i g es"
proof (induction es arbitrary: i g)
  case (Cons e es)
  show ?case using Cons.IH [of "Suc i"] by (simp add: good_def ac_simps)
qed simp

lemma linked_drop:
  assumes "linked f 0 g es" "n < length es"
  shows "linked (seq_of (es ! n)) 0 (prev_of (es ! n)) (drop n es)" "seq_of (es ! n) = f + of_nat n"
proof -
  have l: "linked f 0 g (take n es @ drop n es)" using assms(1) by simp
  have d: "drop n es = es ! n # drop (Suc n) es" using assms(2) by (simp add: Cons_nth_drop_Suc)
  have r: "linked f n (head_of g (take n es)) (drop n es)"
    using l assms(2) unfolding linked_append by (simp add: min_def)
  then show q: "seq_of (es ! n) = f + of_nat n" unfolding d by (simp add: good_def)
  have "prev_of (es ! n) = head_of g (take n es)" using r unfolding d by (simp add: good_def)
  then show "linked (seq_of (es ! n)) 0 (prev_of (es ! n)) (drop n es)"
    using r linked_shift [of f 0 n] q by simp
qed

end

lemma verify_linked_ticks:
  assumes "ticks.linked sha b64 (te_seq (hd es)) 0 g es" "es \<noteq> []"
  shows "verify_tick_chain sha b64 es g = Some \<lparr> cr_ok = True, cr_break_at = None, cr_head = te_hash (last es), cr_n = of_nat (length es) \<rparr>"
proof -
  have "ticks.first_seq es = te_seq (hd es)" using assms(2) by (simp add: ticks.first_seq_def split: list.split)
  then show ?thesis
    using ticks.walk_linked [of sha b64 es g] assms by (simp add: verify_tick_chain_def ticks.head_of_last)
qed

lemma u32_small: "n < 2 ^ 32 \<Longrightarrow> unat (of_nat n :: u32) = n"
  by (simp add: unat_of_nat)

lemma check_embedded_none:
  assumes "embedded_len (bo_ticks_policy b) (unat (bo_verdict_events b)) = Some 0" "bo_ticks b = []"
    "bo_verdict_events b = 0 \<Longrightarrow> bo_verdict_chain_head b = ZERO_HASH"
  shows "check_embedded_ticks cy b = Some ((True, None), [])"
proof (cases "bo_verdict_events b = 0")
  case True
  then show ?thesis using assms(3) [OF True] assms(1,2) by (simp add: check_embedded_ticks_def)
next
  case False
  then show ?thesis using assms(1,2) by (simp add: check_embedded_ticks_def)
qed

lemma check_embedded_some:
  assumes "embedded_len (bo_ticks_policy b) (unat (bo_verdict_events b)) = Some (length (bo_ticks b))" "bo_ticks b \<noteq> []"
    "verify_tick_chain (cy_sha cy) (cy_b64 cy) (bo_ticks b) (if bo_ticks_policy b = ''all'' then ZERO_HASH else te_prev (bo_ticks b ! 0))
       = Some r" "cr_ok r" "cr_head r = bo_verdict_chain_head b"
    "bo_ticks_policy b = ''tail32'' \<Longrightarrow> te_seq (bo_ticks b ! 0) = sat_sub (bo_verdict_events b) (of_nat (length (bo_ticks b)))"
  shows "check_embedded_ticks cy b = Some ((True, None), [])"
proof -
  have "\<not> (bo_ticks_policy b = ''tail32'' \<and> te_seq (bo_ticks b ! 0) \<noteq> sat_sub (bo_verdict_events b) (of_nat (length (bo_ticks b))))"
    using assms(6) by blast
  then show ?thesis using assms(1-5) by (simp only: check_embedded_ticks_def Let_def option.case if_False if_True bind.simps not_True_eq_False simp_thms)
qed

lemma embedded_all:
  assumes "ticks.linked (cy_sha cy) (cy_b64 cy) 0 0 ZERO_HASH ts" "length ts < 2 ^ 32"
    and b: "bo_ticks b = ts" "bo_ticks_policy b = ''all''" "bo_verdict_events b = of_nat (length ts)"
      "bo_verdict_chain_head b = ticks.head_of ZERO_HASH ts"
  shows "check_embedded_ticks cy b = Some ((True, None), [])"
proof (cases "ts = []")
  case True
  then show ?thesis using b by (intro check_embedded_none) (simp_all add: embedded_len_def)
next
  case False
  have "te_seq (hd ts) = 0" using assms(1) False by (cases ts) (simp_all add: ticks.good_def)
  then have "verify_tick_chain (cy_sha cy) (cy_b64 cy) ts ZERO_HASH
      = Some \<lparr> cr_ok = True, cr_break_at = None, cr_head = te_hash (last ts), cr_n = of_nat (length ts) \<rparr>"
    using verify_linked_ticks [OF _ False] assms(1) by simp
  then show ?thesis using False b u32_small [OF assms(2)]
    by (intro check_embedded_some [where r = "\<lparr> cr_ok = True, cr_break_at = None, cr_head = te_hash (last ts),
        cr_n = of_nat (length ts) \<rparr>"]) (simp_all add: embedded_len_def ticks.head_of_last)
qed

lemma sat_sub_of_nat: "n < 2 ^ 32 \<Longrightarrow> sat_sub (of_nat n :: u32) (of_nat (min n 32)) = of_nat (n - 32)"
proof (cases "n \<le> 32")
  case False
  assume n: "n < 2 ^ 32"
  then have "\<not> (of_nat n :: u32) \<le> 32" using False by (simp add: word_le_nat_alt u32_small)
  then show ?thesis using False by (simp add: sat_sub_def min_def of_nat_diff)
qed (simp add: sat_sub_def min_def)

lemma embedded_tail:
  assumes "ticks.linked (cy_sha cy) (cy_b64 cy) 0 0 ZERO_HASH ts" "length ts < 2 ^ 32"
    and b: "bo_ticks b = drop (length ts - 32) ts" "bo_ticks_policy b = ''tail32''" "bo_verdict_events b = of_nat (length ts)"
      "bo_verdict_chain_head b = ticks.head_of ZERO_HASH ts"
  shows "check_embedded_ticks cy b = Some ((True, None), [])"
proof (cases "ts = []")
  case True
  then show ?thesis using b by (intro check_embedded_none) (simp_all add: embedded_len_def)
next
  case False
  define k where "k = length ts - 32"
  have k: "k < length ts" using False by (simp add: k_def)
  have ne: "drop k ts \<noteq> []" and h: "drop k ts ! 0 = ts ! k" "hd (drop k ts) = ts ! k"
    using k by (simp_all add: hd_drop_conv_nth)
  have t: "bo_ticks b = drop k ts" using b(1) by (simp add: k_def)
  have len: "length (bo_ticks b) = min (length ts) 32" by (simp add: t) (simp add: k_def)
  note d = ticks.linked_drop [OF assms(1) k]
  have v: "verify_tick_chain (cy_sha cy) (cy_b64 cy) (drop k ts) (te_prev (ts ! k))
      = Some \<lparr> cr_ok = True, cr_break_at = None, cr_head = te_hash (last ts), cr_n = of_nat (length (drop k ts)) \<rparr>"
    using verify_linked_ticks [OF _ ne] d(1) h(2) k by (simp add: last_drop)
  have e: "embedded_len (bo_ticks_policy b) (unat (bo_verdict_events b)) = Some (length (bo_ticks b))"
    by (simp only: b(2,3) len u32_small [OF assms(2)]) (simp add: embedded_len_def)
  have s: "te_seq (bo_ticks b ! 0) = sat_sub (bo_verdict_events b) (of_nat (length (bo_ticks b)))"
    unfolding len unfolding b(3) sat_sub_of_nat [OF assms(2)] t h(1) using d(2) by (simp add: k_def)
  show ?thesis
    by (rule check_embedded_some [where r = "\<lparr> cr_ok = True, cr_break_at = None, cr_head = te_hash (last ts),
        cr_n = of_nat (length (drop k ts)) \<rparr>", OF e _ _ _ _ s]) (use ne v h False b(2,4) in \<open>simp_all add: t ticks.head_of_last\<close>)
qed

lemma embedded_ok:
  assumes l: "ticks.linked (cy_sha cy) (cy_b64 cy) 0 0 ZERO_HASH ts" and n: "length ts < 2 ^ 32"
    and b: "bo_ticks b = embed_ticks policy ts" "bo_ticks_policy b = policy" "bo_verdict_events b = of_nat (length ts)"
      "bo_verdict_chain_head b = ticks.head_of ZERO_HASH ts"
    and p: "policy \<in> {''all'', ''tail32'', ''none''}"
  shows "\<exists>ns. check_embedded_ticks cy b = Some ((True, None), ns)"
proof -
  consider "policy = ''all''" | "policy = ''tail32''" | "policy = ''none''" using p by blast
  then show ?thesis
  proof cases
    case 1
    then show ?thesis using embedded_all [OF l n] b by (simp add: embed_ticks_def)
  next
    case 2
    then show ?thesis using embedded_tail [OF l n] b by (simp add: embed_ticks_def)
  next
    case 3
    have "ts = []" if "(of_nat (length ts) :: u32) = 0" using u32_small [OF n] that by simp
    then have "check_embedded_ticks cy b = Some ((True, None), [])"
      using 3 b by (intro check_embedded_none) (auto simp: embedded_len_def embed_ticks_def)
    then show ?thesis by blast
  qed
qed

lemma receipt_body_parts:
  "bo_schema (receipt_body ht w s ep oc pv) = RECEIPT_SCHEMA" "bo_canonical (receipt_body ht w s ep oc pv) = CANONICAL_ID"
  "bo_envelope (receipt_body ht w s ep oc pv) = ss_envelope_json s"
  "bo_envelope_digest (receipt_body ht w s ep oc pv) = ss_envelope_digest s"
  "vc_ticks (bo_counts (receipt_body ht w s ep oc pv)) = ta_ticks (rt_tally (fu_rt (ss_fuse s)))"
  "bo_verdict_events (receipt_body ht w s ep oc pv) = of_nat (length (ep_ticks ep))"
  "bo_timing_events (receipt_body ht w s ep oc pv) = of_nat (length (ep_timing ep))"
  "eo_steps (bo_outcome (receipt_body ht w s ep oc pv)) = oc_steps oc"
  "bo_ticks (receipt_body ht w s ep oc pv) = embed_ticks (cg_ticks_policy (ss_cfg s)) (ep_ticks ep)"
  "bo_ticks_policy (receipt_body ht w s ep oc pv) = cg_ticks_policy (ss_cfg s)"
  "bo_verdict_chain_head (receipt_body ht w s ep oc pv) = ep_verdict_head ep"
  "rb_seed (bo_run (receipt_body ht w s ep oc pv)) = rb_seed (ep_run ep)"
  by (simp_all add: receipt_body_def Let_def split_beta VerdictCounts_from_def Fuse_finish_def)

lemma receipt_body_consistent:
  assumes "episode_inv cy (fu_rt (ss_fuse s)) ep" "ep_pending_timing ep = None" "length (ep_ticks ep) < 2 ^ 32"
    "oc_steps oc = of_nat (length (ep_ticks ep))" "cg_ticks_policy (ss_cfg s) \<in> {''all'', ''tail32'', ''none''}"
    "digest_of (cy_sha cy) (ss_envelope_json s) = Inr (ss_envelope_digest s)"
  shows "consistent cy (receipt_body ht w s ep oc pv)"
proof -
  have e: "unat (rt_seq (fu_rt (ss_fuse s))) = length (ep_ticks ep)" "tally_sound (fu_rt (ss_fuse s))"
    "ticks.linked (cy_sha cy) (cy_b64 cy) 0 0 ZERO_HASH (ep_ticks ep)" "length (ep_ticks ep) = length (ep_timing ep)"
    "ep_verdict_head ep = ticks.head_of ZERO_HASH (ep_ticks ep)"
    using assms(1-3) by (simp_all add: episode_inv_def)
  have "ta_ticks (rt_tally (fu_rt (ss_fuse s))) = of_nat (length (ep_ticks ep))"
    using e(2) by (simp add: tally_sound_def flip: e(1))
  moreover have "\<exists>ns. check_embedded_ticks cy (receipt_body ht w s ep oc pv) = Some ((True, None), ns)"
    by (rule embedded_ok [OF e(3) assms(3) _ _ _ _ assms(5)]) (simp_all add: receipt_body_parts e(5))
  ultimately show ?thesis using assms(4,6) e(4) by (simp add: consistent_def receipt_body_parts)
qed

subsection \<open>The envelope digest\<close>

lemma floatify_clean: "keys_clean (floatify v) \<longleftrightarrow> keys_clean v"
proof (induction v rule: floatify.induct)
  case (4 m)
  then show ?case by (fastforce simp: list_all_iff)
qed (auto simp: list_all_iff key_ok_def less_eq_char_def)

lemma started_digest:
  assumes "started ht s" "keys_clean (ht_envelope_json ht (cg_envelope (ss_cfg s)))"
  shows "digest_of (cy_sha (ht_crypto ht)) (ss_envelope_json s) = Inr (ss_envelope_digest s)"
proof -
  have c: "check_keys (ss_envelope_json s) = Inr ()"
    using assms walk_keys_ok [of "''$''" "ss_envelope_json s"] by (simp add: started_def floatify_clean check_keys_def)
  then show ?thesis
    using assms(1) by (auto simp: started_def canonical_digest_def digest_of_def canon_of_def map_ok_Inr split: sum.splits)
qed

end
