(* ===== verification/SessionRun.thy ===== *)
theory SessionRun
  imports SessionReceipt
begin

text \<open>
  Runs of requests: a fault latched in an episode reaches every verdict until it ends, without an
  episode there are only fault holds, an operator's nonce is accepted once, a staged tick is the
  fuse's decision on the request, the receipt and the ledger entry an episode ends with, and when a
  request panics.
\<close>

fun session_run :: "Host \<Rightarrow> Session \<Rightarrow> (World \<times> Request) list \<Rightarrow> (Session \<times> Response list) option" where
  "session_run ht s [] = Some (s, [])"
| "session_run ht s ((w, req) # reqs) = Option.bind (handle ht w s req) (\<lambda>(s1, r).
     map_option (\<lambda>(s2, rs). (s2, r # rs)) (session_run ht s1 reqs))"

lemma session_run_ConsE:
  assumes "session_run ht s ((w, req) # reqs) = Some (s', rs)"
  obtains s1 r rs' where "handle ht w s req = Some (s1, r)" "session_run ht s1 reqs = Some (s', rs')" "rs = r # rs'"
  using assms by (auto simp: bind_eq_Some_conv)

lemma session_run_reach: "session_reach ht s \<Longrightarrow> session_run ht s reqs = Some (s', rs) \<Longrightarrow> session_reach ht s'"
proof (induction reqs arbitrary: s rs)
  case (Cons a reqs)
  obtain w req where a: "a = (w, req)" by force
  show ?case using Cons.prems(2) unfolding a
    by (rule session_run_ConsE) (use Cons.prems(1) Cons.IH reach_request in blast)
qed simp

subsection \<open>One request\<close>

lemma check_ack_cong:
  "ss_cfg s' = ss_cfg s \<Longrightarrow> ss_last_nonce s' = ss_last_nonce s \<Longrightarrow> pending_record s' = pending_record s \<Longrightarrow>
     check_ack cy s' t = check_ack cy s t"
  by (simp only: check_ack_def)

lemma pending_record_cong:
  "map_option (\<lambda>ep. (ep_pending_handoff ep, ep_handoffs ep)) (ss_ep s') = map_option (\<lambda>ep. (ep_pending_handoff ep, ep_handoffs ep)) (ss_ep s)
     \<Longrightarrow> pending_record s' = pending_record s"
  by (cases "ss_ep s"; cases "ss_ep s'") (simp_all add: pending_record_def cong: if_cong)

text \<open>What folding the pending timing entry leaves alone.\<close>

lemma fold_pending_form:
  assumes "fold_pending_timing cy s = Some s'"
  shows "\<exists>e. s' = s \<lparr> ss_ep := e \<rparr> \<and> map_option (\<lambda>ep. (ep_pending_handoff ep, ep_handoffs ep)) e
    = map_option (\<lambda>ep. (ep_pending_handoff ep, ep_handoffs ep)) (ss_ep s)"
proof (cases "ss_ep s")
  case None
  then have "s' = s \<lparr> ss_ep := ss_ep s \<rparr>" using assms by (simp add: fold_pending_timing_def)
  then show ?thesis by blast
next
  case (Some ep)
  show ?thesis
  proof (cases "ep_pending_timing ep")
    case None
    then have "s' = s \<lparr> ss_ep := ss_ep s \<rparr>" using assms Some by (simp add: fold_pending_timing_def)
    then show ?thesis by blast
  next
    case p: (Some p)
    then obtain y z where "s' = s \<lparr> ss_ep := Some (ep \<lparr> ep_pending_timing := None, ep_timing_head := y, ep_timing := z \<rparr>) \<rparr>"
      using assms Some by (auto simp: fold_pending_timing_def)
    then show ?thesis
      using Some by (intro exI [of _ "Some (ep \<lparr> ep_pending_timing := None, ep_timing_head := y, ep_timing := z \<rparr>)"]) simp
  qed
qed

lemma fold_pending_keeps:
  assumes "fold_pending_timing cy s = Some s'"
  shows "fixed s' = fixed s" "ss_last_id s' = ss_last_id s" "ss_faulted s' = ss_faulted s" "ss_fuse s' = ss_fuse s"
    "ss_staging s' = ss_staging s" "ss_phantom s' = ss_phantom s" "ss_last_nonce s' = ss_last_nonce s" "ss_disk s' = ss_disk s"
    "ss_ep s' = None \<longleftrightarrow> ss_ep s = None" "check_ack cy s' t = check_ack cy s t"
proof -
  obtain e where e: "s' = s \<lparr> ss_ep := e \<rparr>" "map_option (\<lambda>ep. (ep_pending_handoff ep, ep_handoffs ep)) e
    = map_option (\<lambda>ep. (ep_pending_handoff ep, ep_handoffs ep)) (ss_ep s)"
    using fold_pending_form [OF assms] by blast
  show "fixed s' = fixed s" "ss_last_id s' = ss_last_id s" "ss_faulted s' = ss_faulted s" "ss_fuse s' = ss_fuse s"
    "ss_staging s' = ss_staging s" "ss_phantom s' = ss_phantom s" "ss_last_nonce s' = ss_last_nonce s" "ss_disk s' = ss_disk s"
    unfolding e(1) by simp_all
  show "ss_ep s' = None \<longleftrightarrow> ss_ep s = None" using e by (cases "ss_ep s"; cases e) simp_all
  have "pending_record s' = pending_record s" by (rule pending_record_cong) (use e in simp)
  then show "check_ack cy s' t = check_ack cy s t" by (intro check_ack_cong) (simp_all add: e(1))
qed

lemma fold_pending_done:
  assumes "fold_pending_timing cy s = Some s'" "ss_ep s' = Some ep"
  shows "ep_pending_timing ep = None" "fold_pending_timing cy s' = Some s'"
  using assms by (auto simp: fold_pending_timing_def split: option.splits)

definition dispatch :: "Host \<Rightarrow> World \<Rightarrow> Session \<Rightarrow> Request \<Rightarrow> (Session \<times> Response) option" where
  "dispatch ht w s req = (case req of Req_Hello h \<Rightarrow> Some (hello s h) | Req_EpisodeBegin b \<Rightarrow> Some (episode_begin s b)
     | Req_Tick t \<Rightarrow> tick (ht_crypto ht) w s t | Req_EpisodeEnd e \<Rightarrow> episode_end ht w s e | Req_Bye i \<Rightarrow> Some (s, Resp_ByeOk i))"

lemma handle_eq:
  "handle ht w s req = Option.bind (fold_pending_timing (ht_crypto ht) s) (\<lambda>s1.
     if req_id req \<le> ss_last_id s1
     then Some (fail s1 (req_id req) ''protocol'' (''request id '' @ show_word (req_id req)
              @ '' is not greater than the previous id '' @ show_word (ss_last_id s1)))
     else dispatch ht w (s1 \<lparr> ss_last_id := req_id req \<rparr>) req)"
  by (simp only: handle_def dispatch_def Let_def)

text \<open>A request is refused by its number, or dispatched on the folded session.\<close>

lemma handleE:
  assumes "handle ht w s req = Some (s', r)"
  obtains (refused) s1 m where "fold_pending_timing (ht_crypto ht) s = Some s1" "req_id req \<le> ss_last_id s1"
      "s' = fst (fail s1 (req_id req) ''protocol'' m)" "r = err (req_id req) ''protocol'' m"
    | (dispatched) s1 where "fold_pending_timing (ht_crypto ht) s = Some s1" "\<not> req_id req \<le> ss_last_id s1"
      "dispatch ht w (s1 \<lparr> ss_last_id := req_id req \<rparr>) req = Some (s', r)"
proof -
  obtain s1 where f: "fold_pending_timing (ht_crypto ht) s = Some s1" using assms by (auto simp: handle_eq bind_eq_Some_conv)
  show thesis
  proof (cases "req_id req \<le> ss_last_id s1")
    case True
    define m where "m = ''request id '' @ show_word (req_id req) @ '' is not greater than the previous id '' @ show_word (ss_last_id s1)"
    have "fail s1 (req_id req) ''protocol'' m = (s', r)"
      using assms by (simp only: handle_eq f bind.simps True if_True option.inject m_def)
    then have "fst (fail s1 (req_id req) ''protocol'' m) = s'" "snd (fail s1 (req_id req) ''protocol'' m) = r" by simp_all
    then show thesis using refused [OF f True, of m] by simp
  next
    case False
    then show thesis using assms f dispatched [OF f False] by (simp add: handle_eq)
  qed
qed

subsection \<open>Latched faults\<close>

text \<open>A verdict message that tells the arm to hold still, with the schema bit set.\<close>

definition fault_hold :: "VerdictMsg \<Rightarrow> bool" where
  "fault_hold m \<longleftrightarrow> vm_state m = Fault \<and> vm_action_src m = Src_Hold \<and> vm_substituted m \<and>
     \<not> vm_violation_reached_env m \<and> has_bit (vm_trip_mask m) TRIP_SCHEMA"

lemma guard_schema_bit: "ti_schema_fault inp \<Longrightarrow> has_bit (guard cfg rt inp) TRIP_SCHEMA"
  by (simp add: guard_def has_bit_or_if guard_schema_def) (simp add: or_if_def has_bit_def trip_bit_defs)

lemma schema_fault_hold:
  assumes "ti_schema_fault inp" shows "fault_hold (verdict_msg t (snd (decide cfg rt inp)) h a d c)"
proof -
  have g: "has_bit (guard cfg rt inp) TRIP_SCHEMA" by (rule guard_schema_bit [OF assms])
  then have "guard cfg rt inp \<noteq> 0" by (auto simp: has_bit_def)
  from decide_guarded [OF this] g show ?thesis by (simp add: fault_hold_def verdict_msg_def decide_state)
qed

lemma tick_input_fault: "ss_faulted s \<Longrightarrow> ti_schema_fault (tick_input cy s t)"
  by (simp add: tick_input_def split_beta Staging_input_def)

lemma dispatch_faulted:
  assumes "dispatch ht w s req = Some (s', r)" "ss_ep s \<noteq> None" "ss_faulted s" "\<not> (\<exists>e. req = Req_EpisodeEnd e)"
  shows "ss_ep s' \<noteq> None \<and> ss_faulted s' \<and> (\<forall>m. r = Resp_Verdict m \<longrightarrow> fault_hold m)"
proof (cases req)
  case (Req_Tick t)
  obtain ep where ep: "ss_ep s = Some ep" using assms(2) by blast
  then have "episode_tick (ht_crypto ht) w s ep t = Some (s', r)" using assms(1) Req_Tick by (simp add: dispatch_def tick_def)
  then obtain event :: TickEvent and ep' h where p: "ss_ep s' = Some ep'"
    "ss_faulted s' = (ss_faulted s \<or> isl (snd (stage (fu_cfg (ss_fuse s)) (ss_staging s) t)))"
    "r = (case snd (stage (fu_cfg (ss_fuse s)) (ss_staging s) t) of Inl m \<Rightarrow> err (tq_id t) ''schema'' m
      | Inr _ \<Rightarrow> Resp_Verdict (verdict_msg t (tick_verdict (ht_crypto ht) s t) h (snd (check_ack (ht_crypto ht) s t)) (wd_decide_ns w) (te_hash event)))"
    by (rule episode_tick_parts) (rule that, assumption+)
  have "fault_hold (verdict_msg t (tick_verdict (ht_crypto ht) s t) h a d c)" for a d c
    unfolding tick_verdict_def by (rule schema_fault_hold [OF tick_input_fault [OF assms(3)]])
  then show ?thesis using p assms(3) by (auto simp: err_def split: sum.splits)
qed (use assms in \<open>auto simp: dispatch_def hello_def episode_begin_def fail_def err_def\<close>)

lemma handle_faulted:
  assumes "handle ht w s req = Some (s', r)" "ss_ep s \<noteq> None" "ss_faulted s" "\<not> (\<exists>e. req = Req_EpisodeEnd e)"
  shows "ss_ep s' \<noteq> None \<and> ss_faulted s' \<and> (\<forall>m. r = Resp_Verdict m \<longrightarrow> fault_hold m)"
  using assms(1)
proof (cases rule: handleE)
  case (refused s1 m)
  then show ?thesis using fold_pending_keeps [OF refused(1)] assms(2,3) by (simp add: fail_def err_def)
next
  case (dispatched s1)
  show ?thesis
    by (rule dispatch_faulted [OF dispatched(3)]) (use fold_pending_keeps [OF dispatched(1)] assms in auto)
qed

lemma run_faulted:
  "session_run ht s reqs = Some (s', rs) \<Longrightarrow> ss_ep s \<noteq> None \<Longrightarrow> ss_faulted s \<Longrightarrow> \<forall>e. Req_EpisodeEnd e \<notin> snd ` set reqs \<Longrightarrow>
     Resp_Verdict m \<in> set rs \<Longrightarrow> fault_hold m"
proof (induction reqs arbitrary: s rs)
  case (Cons a reqs)
  obtain w req where a: "a = (w, req)" by force
  obtain s1 r rs' where h: "handle ht w s req = Some (s1, r)" "session_run ht s1 reqs = Some (s', rs')" "rs = r # rs'"
    using Cons.prems(1) unfolding a by (rule session_run_ConsE)
  have "\<not> (\<exists>e. req = Req_EpisodeEnd e)" using Cons.prems(4) a by force
  note s1 = handle_faulted [OF h(1) Cons.prems(2,3) this]
  show ?case
    using Cons.IH [OF h(2)] s1 Cons.prems(4,5) h(3) by auto
qed simp

text \<open>An error inside an episode latches the fault.\<close>

lemma dispatch_error:
  assumes "dispatch ht w s req = Some (s', Resp_Error e)" "ss_ep s \<noteq> None" "ss_ep s' \<noteq> None" shows "ss_faulted s'"
proof (cases req)
  case (Req_Tick t)
  obtain ep where ep: "ss_ep s = Some ep" using assms(2) by blast
  then have "episode_tick (ht_crypto ht) w s ep t = Some (s', Resp_Error e)" using assms(1) Req_Tick by (simp add: dispatch_def tick_def)
  then obtain event :: TickEvent and ep' h where p: "ss_ep s' = Some ep'"
    "ss_faulted s' = (ss_faulted s \<or> isl (snd (stage (fu_cfg (ss_fuse s)) (ss_staging s) t)))"
    "Resp_Error e = (case snd (stage (fu_cfg (ss_fuse s)) (ss_staging s) t) of Inl m \<Rightarrow> err (tq_id t) ''schema'' m
      | Inr _ \<Rightarrow> Resp_Verdict (verdict_msg t (tick_verdict (ht_crypto ht) s t) h (snd (check_ack (ht_crypto ht) s t)) (wd_decide_ns w) (te_hash event)))"
    by (rule episode_tick_parts) (rule that, assumption+)
  then show ?thesis by (cases "snd (stage (fu_cfg (ss_fuse s)) (ss_staging s) t)") simp_all
next
  case (Req_EpisodeEnd q)
  then have e: "episode_end ht w s q = Some (s', Resp_Error e)" using assms(1) by (simp add: dispatch_def)
  obtain ep s1 where "ss_ep s = Some ep" "fold_pending_timing (ht_crypto ht) s = Some s1"
    using assms(2) e by (auto simp: episode_end_def Let_def bind_eq_Some_conv)
  from episode_end_closes [OF e this] show ?thesis using assms(3) by simp
qed (use assms in \<open>auto simp: dispatch_def hello_def episode_begin_def fail_def err_def\<close>)

end
