(* ===== verification/SessionReply.thy ===== *)
theory SessionReply
  imports SessionRun
begin

text \<open>
  What the replies say: a staged tick is answered with the fuse's decision on the request, an
  accepted acknowledgement uses up its operator's nonce for good, a request panics exactly when a
  pending timing entry has no canonical form, and an episode ends with an intact receipt on disk that
  the last ledger entry names.
\<close>

subsection \<open>Ticks\<close>

lemma handle_no_episode:
  assumes "handle ht w s (Req_Tick t) = Some (s', Resp_Verdict m)" "ss_ep s = None" shows "fault_hold m"
  using assms(1)
proof (cases rule: handleE)
  case (refused s1 m')
  then show ?thesis by (simp add: err_def)
next
  case (dispatched s1)
  let ?s = "s1 \<lparr> ss_last_id := tq_id t \<rparr>"
  have "ss_ep s1 = None" using fold_pending_keeps(9) [OF dispatched(1)] assms(2) by simp
  then have p: "phantom_tick ?s t = (s', Resp_Verdict m)" using dispatched(3) by (simp add: dispatch_def tick_def)
  define inp where "inp = Staging_input (fst (stage (fu_cfg (ss_fuse s1)) (ss_staging s1) t)) t None True"
  have "m = verdict_msg t (snd (decide (fu_cfg (ss_fuse s1)) (fu_rt (ss_fuse s1)) inp)) None None 0 ZERO_HASH"
    using p by (cases "ss_phantom s1") (simp_all add: phantom_tick_def err_def Let_def split_beta Fuse_step_eq inp_def)
  moreover have "ti_schema_fault inp" by (simp add: inp_def Staging_input_def)
  ultimately show ?thesis using schema_fault_hold by simp
qed

lemma check_ack_last_id [simp]: "check_ack cy (s \<lparr> ss_last_id := i \<rparr>) t = check_ack cy s t"
  by (intro check_ack_cong pending_record_cong) simp_all

definition request_input :: "TickReq \<Rightarrow> VerifiedAck option \<Rightarrow> TickInput" where
  "request_input t ack = \<lparr> ti_obs = obs_of t, ti_chunk = map_option view_of (tq_chunk t), ti_idx = tq_idx t,
     ti_missed_ticks = tq_missed_ticks t, ti_ack = ack, ti_schema_fault = False \<rparr>"

lemma handle_tick_decide:
  assumes "session_inv (ht_crypto ht) s" "ss_ep s \<noteq> None" "\<not> ss_faulted s"
    "handle ht w s (Req_Tick t) = Some (s', Resp_Verdict m)"
  shows "\<exists>h c. let d = decide (fu_cfg (ss_fuse s)) (fu_rt (ss_fuse s)) (request_input t (fst (check_ack (ht_crypto ht) s t))) in
     m = verdict_msg t (snd d) h (snd (check_ack (ht_crypto ht) s t)) (wd_decide_ns w) c \<and> fu_rt (ss_fuse s') = fst d"
  using assms(4)
proof (cases rule: handleE)
  case (refused s1 m')
  then show ?thesis by (simp add: err_def)
next
  case (dispatched s1)
  let ?cy = "ht_crypto ht" and ?s = "s1 \<lparr> ss_last_id := tq_id t \<rparr>"
  note k = fold_pending_keeps [OF dispatched(1)]
  obtain ep where "ss_ep s1 = Some ep" using k(9) assms(2) by blast
  then have e: "episode_tick ?cy w ?s ep t = Some (s', Resp_Verdict m)"
    using dispatched(3) by (simp add: dispatch_def tick_def)
  let ?st = "stage (fu_cfg (ss_fuse s)) (ss_staging s) t"
  obtain event :: TickEvent and h where p: "ss_fuse s' = fst (Fuse_step (ss_fuse ?s) (tick_input ?cy ?s t))"
    "Resp_Verdict m = (case snd (stage (fu_cfg (ss_fuse ?s)) (ss_staging ?s) t) of Inl m \<Rightarrow> err (tq_id t) ''schema'' m
      | Inr _ \<Rightarrow> Resp_Verdict (verdict_msg t (tick_verdict ?cy ?s t) h (snd (check_ack ?cy ?s t)) (wd_decide_ns w) (te_hash event)))"
    by (rule episode_tick_parts [OF e]) (rule that, assumption+)
  have ok: "snd ?st = Inr ()" using p(2) k by (cases "snd ?st") (simp_all add: err_def)
  have wf: "Staging_wf (ss_staging s)" "fits (fu_cfg (ss_fuse s))" using assms(1) by (simp_all add: session_inv_def)
  have inp: "tick_input ?cy ?s t = request_input t (fst (check_ack ?cy s t))"
    using stage_input [OF wf ok] k ok assms(3) by (simp add: tick_input_def split_beta request_input_def)
  have "m = verdict_msg t (tick_verdict ?cy ?s t) h (snd (check_ack ?cy s t)) (wd_decide_ns w) (te_hash event)"
    using p(2) ok k by simp
  then show ?thesis
    using p(1) k inp by (auto simp: tick_verdict_def Let_def)
qed

subsection \<open>Acknowledgements\<close>

lemma check_ack_accepted:
  assumes "snd (check_ack cy s t) = Some ''accepted''" "tq_ack t = Some tok"
  obtains va where "fst (check_ack cy s t) = Some va" "va_nonce va = ak_nonce tok"
    "\<And>n. ss_last_nonce s (ak_operator tok) = Some n \<Longrightarrow> n < ak_nonce tok"
proof -
  let ?ops = "se_operators (cg_envelope (ss_cfg s))"
  let ?slots = "map (\<lambda>p. case ss_last_nonce s p of Some n \<Rightarrow> n | None \<Rightarrow> 0) ?ops"
  obtain pd ps where pend: "(case pending_record s of Some h \<Rightarrow> (Some (hr_digest h), hr_seq h) | None \<Rightarrow> (None, 0)) = (pd, ps)" by force
  have c: "check_ack cy s t = (case verify_ack cy tok ?ops pd ps ?slots of Inr v \<Rightarrow> (Some v, Some ''accepted'')
      | Inl e \<Rightarrow> (None, Some (''rejected:'' @ ack_error_name e)))"
    using assms(2) pend by (simp add: check_ack_def Let_def)
  obtain va where v: "verify_ack cy tok ?ops pd ps ?slots = Inr va"
    using assms(1) by (cases "verify_ack cy tok ?ops pd ps ?slots") (simp_all add: c)
  then obtain slot where s: "position (\<lambda>o'. o' = ak_operator tok) ?ops = Some slot"
    "(if slot < length ?slots then ?slots ! slot else 0) < ak_nonce tok" "va_nonce va = ak_nonce tok"
    by (auto simp: verify_ack_iff)
  have "n < ak_nonce tok" if "ss_last_nonce s (ak_operator tok) = Some n" for n
    using position_Some [OF s(1)] s(2) that by simp
  then show thesis using that c v s(3) by simp
qed

definition nonce_mono :: "Session \<Rightarrow> Session \<Rightarrow> bool" where
  "nonce_mono s s' \<longleftrightarrow> (\<forall>op n. ss_last_nonce s op = Some n \<longrightarrow> (\<exists>n'. ss_last_nonce s' op = Some n' \<and> n \<le> n'))"

lemma nonce_mono_same: "ss_last_nonce s' = ss_last_nonce s \<Longrightarrow> nonce_mono s s'"
  by (simp add: nonce_mono_def)

lemma nonce_mono_trans: "nonce_mono a b \<Longrightarrow> nonce_mono b c \<Longrightarrow> nonce_mono a c"
  unfolding nonce_mono_def by (meson order_trans)

lemma after_decide_nonces:
  "ss_last_nonce (after_decide cy w s t) = (case (tq_ack t, fst (check_ack cy s t)) of (Some tok, Some va) \<Rightarrow>
     if snd (check_ack cy s t) = Some ''accepted'' then (ss_last_nonce s)(ak_operator tok \<mapsto> va_nonce va) else ss_last_nonce s
   | _ \<Rightarrow> ss_last_nonce s)"
  by (auto simp: after_decide_def remember_nonce_def split_beta Let_def split: option.splits)

lemma after_decide_accepted:
  assumes "snd (check_ack cy s t) = Some ''accepted''" "tq_ack t = Some tok"
  shows "ss_last_nonce (after_decide cy w s t) = (ss_last_nonce s)(ak_operator tok \<mapsto> ak_nonce tok)"
  by (rule check_ack_accepted [OF assms]) (simp add: after_decide_nonces assms)

lemma after_decide_mono: "nonce_mono s (after_decide cy w s t)"
proof (cases "\<exists>tok. tq_ack t = Some tok \<and> snd (check_ack cy s t) = Some ''accepted''")
  case True
  then obtain tok where t: "tq_ack t = Some tok" "snd (check_ack cy s t) = Some ''accepted''" by blast
  obtain va where "\<And>n. ss_last_nonce s (ak_operator tok) = Some n \<Longrightarrow> n < ak_nonce tok"
    using check_ack_accepted [OF t(2,1)] by blast
  then show ?thesis by (auto simp: nonce_mono_def after_decide_accepted [OF t(2,1)] less_imp_le)
next
  case False
  then have "ss_last_nonce (after_decide cy w s t) = ss_last_nonce s"
    by (auto simp: after_decide_nonces split: option.split)
  then show ?thesis by (rule nonce_mono_same)
qed

lemma dispatch_nonce_mono: "dispatch ht w s req = Some (s', r) \<Longrightarrow> nonce_mono s s'"
proof (cases req)
  case (Req_Tick t)
  assume d: "dispatch ht w s req = Some (s', r)"
  show ?thesis
  proof (cases "ss_ep s")
    case None
    then have "phantom_tick s t = (s', r)" using d Req_Tick by (simp add: dispatch_def tick_def)
    then have "fst (phantom_tick s t) = s'" by simp
    then show ?thesis by (intro nonce_mono_same) (auto simp: phantom_tick_def Let_def split_beta)
  next
    case (Some ep)
    then have "episode_tick (ht_crypto ht) w s ep t = Some (s', r)" using d Req_Tick by (simp add: dispatch_def tick_def)
    then have "ss_last_nonce s' = ss_last_nonce (after_decide (ht_crypto ht) w s t)" by (rule episode_tick_parts)
    then show ?thesis using after_decide_mono [of s "ht_crypto ht" w t] by (simp add: nonce_mono_def)
  qed
next
  case (Req_EpisodeEnd e)
  assume "dispatch ht w s req = Some (s', r)"
  then have d: "episode_end ht w s e = Some (s', r)" using Req_EpisodeEnd by (simp add: dispatch_def)
  show ?thesis
  proof (cases "ss_ep s")
    case None
    then show ?thesis using d by (auto simp: episode_end_def Let_def fail_def intro: nonce_mono_same)
  next
    case (Some ep)
    then obtain s1 where f: "fold_pending_timing (ht_crypto ht) s = Some s1"
      using d by (auto simp: episode_end_def Let_def bind_eq_Some_conv)
    show ?thesis
      using episode_end_closes [OF d Some f] fold_pending_keeps(7) [OF f] by (intro nonce_mono_same) simp
  qed
next
  case (Req_Hello h)
  assume "dispatch ht w s req = Some (s', r)"
  then have "fst (hello s h) = s'" using Req_Hello by (simp add: dispatch_def)
  then show ?thesis by (intro nonce_mono_same) (auto simp: hello_def Let_def)
next
  case (Req_EpisodeBegin b)
  assume "dispatch ht w s req = Some (s', r)"
  then have "fst (episode_begin s b) = s'" using Req_EpisodeBegin by (simp add: dispatch_def)
  then show ?thesis by (intro nonce_mono_same) (auto simp: episode_begin_def Let_def)
qed (auto simp: dispatch_def intro!: nonce_mono_same)

lemma handle_nonce_mono:
  assumes "handle ht w s req = Some (s', r)" shows "nonce_mono s s'"
  using assms
proof (cases rule: handleE)
  case (refused s1 m)
  then show ?thesis using fold_pending_keeps(7) [OF refused(1)] by (intro nonce_mono_same) simp
next
  case (dispatched s1)
  show ?thesis
    using dispatch_nonce_mono [OF dispatched(3)] fold_pending_keeps(7) [OF dispatched(1)] by (simp add: nonce_mono_def)
qed

lemma run_nonce_mono: "session_run ht s reqs = Some (s', rs) \<Longrightarrow> nonce_mono s s'"
proof (induction reqs arbitrary: s rs)
  case (Cons a reqs)
  obtain w req where a: "a = (w, req)" by force
  show ?case using Cons.prems unfolding a
    by (rule session_run_ConsE) (use Cons.IH handle_nonce_mono nonce_mono_trans in blast)
qed (simp add: nonce_mono_def)

text \<open>The acknowledgement result of a verdict is that of the check on the state before the request.\<close>

lemma handle_tick_ack:
  assumes "handle ht w s (Req_Tick t) = Some (s', Resp_Verdict m)" "vm_ack_result m \<noteq> None"
  shows "vm_ack_result m = snd (check_ack (ht_crypto ht) s t)"
    "ss_last_nonce s' = ss_last_nonce (after_decide (ht_crypto ht) w s t)"
proof -
  have "vm_ack_result m = snd (check_ack (ht_crypto ht) s t) \<and> ss_last_nonce s' = ss_last_nonce (after_decide (ht_crypto ht) w s t)"
    using assms(1)
  proof (cases rule: handleE)
    case (refused s1 m')
    then show ?thesis by (simp add: err_def)
  next
    case (dispatched s1)
    let ?cy = "ht_crypto ht" and ?s = "s1 \<lparr> ss_last_id := tq_id t \<rparr>"
    note k = fold_pending_keeps [OF dispatched(1)]
    show ?thesis
    proof (cases "ss_ep s1")
      case None
      then have "phantom_tick ?s t = (s', Resp_Verdict m)" using dispatched(3) by (simp add: dispatch_def tick_def)
      then have "vm_ack_result m = None"
        by (cases "ss_phantom s1") (auto simp: phantom_tick_def err_def Let_def split_beta verdict_msg_def)
      then show ?thesis using assms(2) by simp
    next
      case (Some ep)
      then have e: "episode_tick ?cy w ?s ep t = Some (s', Resp_Verdict m)"
        using dispatched(3) by (simp add: dispatch_def tick_def)
      obtain event :: TickEvent and h where p: "ss_last_nonce s' = ss_last_nonce (after_decide ?cy w ?s t)"
        "Resp_Verdict m = (case snd (stage (fu_cfg (ss_fuse ?s)) (ss_staging ?s) t) of Inl m \<Rightarrow> err (tq_id t) ''schema'' m
          | Inr _ \<Rightarrow> Resp_Verdict (verdict_msg t (tick_verdict ?cy ?s t) h (snd (check_ack ?cy ?s t)) (wd_decide_ns w) (te_hash event)))"
        by (rule episode_tick_parts [OF e]) (rule that, assumption+)
      have "ss_last_nonce (after_decide ?cy w ?s t) = ss_last_nonce (after_decide ?cy w s t)"
        by (simp add: after_decide_nonces k cong: option.case_cong if_cong)
      then show ?thesis
        using p k by (cases "snd (stage (fu_cfg (ss_fuse ?s)) (ss_staging ?s) t)") (simp_all add: err_def verdict_msg_def)
    qed
  qed
  then show "vm_ack_result m = snd (check_ack (ht_crypto ht) s t)"
    "ss_last_nonce s' = ss_last_nonce (after_decide (ht_crypto ht) w s t)" by blast+
qed

lemma ack_once:
  assumes "handle ht w s (Req_Tick t) = Some (s1, Resp_Verdict m)" "vm_ack_result m = Some ''accepted''" "tq_ack t = Some tok"
    "session_run ht s1 reqs = Some (s2, rs)"
    "handle ht w' s2 (Req_Tick t') = Some (s3, Resp_Verdict m')" "tq_ack t' = Some tok'"
    "ak_operator tok' = ak_operator tok" "ak_nonce tok' \<le> ak_nonce tok"
  shows "vm_ack_result m' \<noteq> Some ''accepted''"
proof
  assume a: "vm_ack_result m' = Some ''accepted''"
  have "vm_ack_result m \<noteq> None" "vm_ack_result m' \<noteq> None" using a assms(2) by simp_all
  note h = handle_tick_ack [OF assms(1) this(1)] and h' = handle_tick_ack [OF assms(5) this(2)]
  have "ss_last_nonce s1 (ak_operator tok) = Some (ak_nonce tok)"
    using h(2) after_decide_accepted [OF h(1) [symmetric, unfolded assms(2)] assms(3), of w] by simp
  then obtain n where n: "ss_last_nonce s2 (ak_operator tok) = Some n" "ak_nonce tok \<le> n"
    using run_nonce_mono [OF assms(4)] by (auto simp: nonce_mono_def)
  have "snd (check_ack (ht_crypto ht) s2 t') = Some ''accepted''" using h'(1) a by simp
  then show False
    by (rule check_ack_accepted [OF _ assms(6)]) (use n assms(7,8) in force)
qed

subsection \<open>Panics\<close>

lemma handoff_record_total: "\<exists>r. handoff_record cy s run v seq c = Some r"
proof -
  have "\<exists>a. canon_of (HandoffRecord_value (unresolved h)) = Inr a" for h
    unfolding canon_of_ok by (simp add: HandoffRecord_safe unresolved_def)
  then have "\<exists>r. with_digest cy h = Inr r" for h
    by (simp add: with_digest_def compute_digest_def digest_of_def map_ok_def) (metis sum.simps(6))
  then show ?thesis by (auto simp: handoff_record_def split: sum.split) (metis Inl_Inr_False)
qed

lemma episode_tick_total: "\<exists>x. episode_tick cy w s ep t = Some x"
proof -
  obtain event where e: "tick_event (cy_sha cy) (cy_b64 cy) (ep_verdict_head ep) (tick_verdict cy s t) = Some event"
    using tick_event_total by blast
  show ?thesis
  proof (cases "sv_handoff_seq (tick_verdict cy s t)")
    case None
    then show ?thesis by (simp add: episode_tick_eq e)
  next
    case (Some seq)
    obtain r where "handoff_record cy (after_decide cy w s t) (ep_run ep) (tick_verdict cy s t) seq (te_hash event) = Some r"
      using handoff_record_total by blast
    with Some show ?thesis by (simp add: episode_tick_eq e)
  qed
qed

definition timing_safe :: "Session \<Rightarrow> bool" where
  "timing_safe s \<longleftrightarrow> (case Option.bind (ss_ep s) ep_pending_timing of None \<Rightarrow> True
     | Some p \<Rightarrow> safe (pt_decide_ns p) \<and> safe (pt_io_ns p))"

lemma timing_event_total: "(\<exists>e. timing_event sha prev seq d io = Some e) \<longleftrightarrow> safe d \<and> safe io"
  unfolding timing_event_def Let_def map_option_eq_Some by (subst ex_comm) (simp add: TimingEvent_hash_total safe_def)

lemma fold_pending_total: "(\<exists>s'. fold_pending_timing cy s = Some s') \<longleftrightarrow> timing_safe s"
proof (cases "ss_ep s")
  case (Some ep)
  show ?thesis
  proof (cases "ep_pending_timing ep")
    case p: (Some p)
    show ?thesis
      using timing_event_total [of "cy_sha cy" "ep_timing_head ep" "pt_seq p" "pt_decide_ns p" "pt_io_ns p"] Some p
      by (auto simp: fold_pending_timing_def timing_safe_def)
  qed (use Some in \<open>simp add: fold_pending_timing_def timing_safe_def\<close>)
qed (simp add: fold_pending_timing_def timing_safe_def)

lemma signed_append:
  assumes "sign_receipt cy body seed = Inr sr" shows "\<exists>x. append_ledger sha es sr = Some x"
proof -
  have "sr_body sr = body" using assms by (auto simp: sign_receipt_def map_ok_Inr split_beta)
  moreover have "signable body" using assms sign_receipt_iff by blast
  ultimately have "\<exists>e. ledger_entry sha h n sr = Some e" for h n
    unfolding ledger_entry_total by (simp add: signable_def safe_def)
  then show ?thesis by (simp add: append_ledger_def Let_def)
qed

lemma signed_write:
  assumes "sign_receipt cy body seed = Inr sr" shows "\<exists>x. write_episode cy w dk p sr ts tms = Some x"
  using signed_append [OF assms, of "cy_sha cy"] by (auto simp: write_episode_def Let_def split: option.split)

lemma episode_end_total:
  assumes "fold_pending_timing (ht_crypto ht) s = Some s1" shows "\<exists>x. episode_end ht w s e = Some x"
proof (cases "ss_ep s = None")
  case False
  let ?s = "s1 \<lparr> ss_ep := None, ss_faulted := False \<rparr>" and ?ep = "the (ss_ep s1)" and ?cy = "ht_crypto ht"
  show ?thesis
  proof (cases "case ep_paths ?ep of Some p \<Rightarrow> ledger_head w (ss_disk ?s) (pa_ledger p) | None \<Rightarrow> Inr None")
    case (Inl m)
    then show ?thesis using False assms by (simp add: episode_end_def Let_def)
  next
    case (Inr prev)
    show ?thesis
    proof (cases "sign_receipt ?cy (receipt_body ht w ?s ?ep (ee_outcome e) prev) (ss_key s1)")
      case (Inl c)
      then show ?thesis using False assms Inr by (simp add: episode_end_def Let_def)
    next
      case s: (Inr sr)
      show ?thesis
        using False assms Inr s signed_write [OF s] by (cases "ep_paths ?ep") (auto simp: episode_end_def Let_def)
    qed
  qed
qed (simp add: episode_end_def Let_def)

lemma handle_total: "(\<exists>x. handle ht w s req = Some x) \<longleftrightarrow> timing_safe s"
proof (cases "fold_pending_timing (ht_crypto ht) s")
  case None
  then show ?thesis using fold_pending_total [of "ht_crypto ht" s] by (simp add: handle_eq)
next
  case (Some s1)
  let ?s = "s1 \<lparr> ss_last_id := req_id req \<rparr>"
  have "\<exists>x. dispatch ht w ?s req = Some x"
  proof (cases req)
    case (Req_Tick t)
    then show ?thesis using episode_tick_total by (cases "ss_ep s1") (simp_all add: dispatch_def tick_def)
  next
    case (Req_EpisodeEnd e)
    have "\<exists>s2. fold_pending_timing (ht_crypto ht) ?s = Some s2"
    proof (cases "ss_ep s1")
      case (Some ep)
      then show ?thesis using fold_pending_done(1) [OF \<open>fold_pending_timing _ s = Some s1\<close> Some] by (simp add: fold_pending_timing_def)
    qed (simp add: fold_pending_timing_def)
    then show ?thesis using Req_EpisodeEnd episode_end_total by (auto simp: dispatch_def)
  qed (simp_all add: dispatch_def)
  then show ?thesis using Some fold_pending_total [of "ht_crypto ht" s] by (simp add: handle_eq)
qed

subsection \<open>The end of an episode\<close>

lemma write_episode_Inr:
  assumes "write_episode cy w dk p sr ts tms = Some (dk', Inr entry)"
  obtains es where "append_ledger (cy_sha cy) (case dk_ledger dk (pa_ledger p) of None \<Rightarrow> [] | Some es \<Rightarrow> es) sr = Some (es, entry)"
    "dk_ledger dk' (pa_ledger p) = Some es" "dk_receipt dk' (pa_receipt p) = Some sr"
    "dk_ticks dk' (pa_ticks p) = Some ts" "dk_timing dk' (pa_timing p) = Some tms"
  using assms by (auto simp: write_episode_def Let_def split: option.split_asm)

lemma episode_end_receipt:
  assumes "episode_end ht w s e = Some (s', Resp_EpisodeReceipt m)" "fold_pending_timing (ht_crypto ht) s = Some s1"
    "ss_ep s1 = Some ep" "ep_paths ep = Some p"
  obtains prev sr entry where
    "sign_receipt (ht_crypto ht) (receipt_body ht w (s1 \<lparr> ss_ep := None, ss_faulted := False \<rparr>) ep (ee_outcome e) prev) (ss_key s1) = Inr sr"
    "write_episode (ht_crypto ht) w (ss_disk s1) p sr (ep_ticks ep) (ep_timing ep) = Some (ss_disk s', Inr entry)"
    "er_body_digest m = sr_body_digest sr" "er_ledger_head m = le_hash entry" "ledger_head w (ss_disk s1) (pa_ledger p) = Inr prev"
proof -
  let ?s = "s1 \<lparr> ss_ep := None, ss_faulted := False \<rparr>" and ?cy = "ht_crypto ht"
  have "ss_ep s \<noteq> None" using fold_pending_keeps(9) [OF assms(2)] assms(3) by simp
  note d = assms(1) [unfolded episode_end_def Let_def assms(2) bind.simps if_not_P [OF this] assms(3) option.sel assms(4) option.case]
  obtain prev where prev: "ledger_head w (ss_disk ?s) (pa_ledger p) = Inr prev"
    using d by (cases "ledger_head w (ss_disk ?s) (pa_ledger p)") (simp_all add: err_def)
  obtain sr where sr: "sign_receipt ?cy (receipt_body ht w ?s ep (ee_outcome e) prev) (ss_key ?s) = Inr sr"
    using d prev by (cases "sign_receipt ?cy (receipt_body ht w ?s ep (ee_outcome e) prev) (ss_key ?s)") (simp_all add: err_def)
  obtain dk x where x: "write_episode ?cy w (ss_disk ?s) p sr (ep_ticks ep) (ep_timing ep) = Some (dk, x)"
    using signed_write [OF sr, of w "ss_disk ?s" p "ep_ticks ep" "ep_timing ep"] by auto
  obtain entry where e: "x = Inr entry" using d prev sr x by (cases x) (simp_all add: err_def)
  then have "ss_disk s' = dk" "er_body_digest m = sr_body_digest sr" "er_ledger_head m = le_hash entry"
    using d prev sr x by auto
  then show thesis using that sr x e prev by simp
qed

lemma append_ledger_last:
  "append_ledger sha es sr = Some (es', e) \<Longrightarrow> es' = es @ [e] \<and> le_receipt_digest e = sr_body_digest sr"
  by (auto simp: append_ledger_def ledger_entry_def Let_def)

lemma signed_body: "sign_receipt cy b key = Inr sr \<Longrightarrow> sr_body sr = b"
  by (auto simp: sign_receipt_def Let_def map_ok_Inr split_beta)

text \<open>The files of an episode, as its end wrote them.\<close>

lemma session_written:
  assumes reach: "session_reach ht s" and ep: "ss_ep s = Some ep" "ep_paths ep = Some p"
    and h: "handle ht w s (Req_EpisodeEnd e) = Some (s', Resp_EpisodeReceipt m)"
    and key: "signs (ht_crypto ht) (ss_key s)" and env: "keys_clean (ht_envelope_json ht (cg_envelope (ss_cfg s)))"
    and n: "length (ep_ticks ep) < 2 ^ 32" "oc_steps (ee_outcome e) = of_nat (length (ep_ticks ep))"
    and pol: "cg_ticks_policy (ss_cfg s) \<in> {''all'', ''tail32'', ''none''}"
  obtains sr r tms es old entry where
    "dk_receipt (ss_disk s') (pa_receipt p) = Some sr" "dk_ticks (ss_disk s') (pa_ticks p) = Some (ep_ticks ep)"
    "dk_timing (ss_disk s') (pa_timing p) = Some tms" "dk_ledger (ss_disk s') (pa_ledger p) = Some es"
    "verify_receipt (ht_crypto ht) sr (Some (ss_pubkey s)) = Some r" "intact r"
    "sr_body_digest sr = er_body_digest m" "le_hash entry = er_ledger_head m"
    "append_ledger (cy_sha (ht_crypto ht)) old sr = Some (es, entry)"
    "old = (case dk_ledger (ss_disk s) (pa_ledger p) of None \<Rightarrow> [] | Some es \<Rightarrow> es)"
    "bo_ledger_prev (sr_body sr) = (if old = [] then None else Some (le_hash (last old)))"
    "ticks.linked (cy_sha (ht_crypto ht)) (cy_b64 (ht_crypto ht)) 0 0 ZERO_HASH (ep_ticks ep)"
    "timing.linked (cy_sha (ht_crypto ht)) 0 0 ZERO_HASH tms" "length tms = length (ep_ticks ep)"
    "bo_verdict_events (sr_body sr) = of_nat (length (ep_ticks ep))" "bo_timing_events (sr_body sr) = of_nat (length tms)"
    "bo_verdict_chain_head (sr_body sr) = ticks.head_of ZERO_HASH (ep_ticks ep)"
    "bo_timing_chain_head (sr_body sr) = timing.head_of ZERO_HASH tms"
    "bo_ticks (sr_body sr) = embed_ticks (cg_ticks_policy (ss_cfg s)) (ep_ticks ep)"
  using h
proof (cases rule: handleE)
  case (refused s1 m')
  then show ?thesis by (simp add: err_def)
next
  case (dispatched s1)
  let ?cy = "ht_crypto ht" and ?s = "s1 \<lparr> ss_last_id := ee_id e \<rparr>"
  have inv: "session_inv ?cy s" "started ht s" using reach_session_inv [OF reach] by blast+
  note k = fold_pending_parts [OF dispatched(1) inv(1)]
  obtain ep' where ep': "ss_ep s1 = Some ep'" using k(10) ep(1) by fastforce
  have e': "ep_pending_timing ep' = None" "ep_ticks ep' = ep_ticks ep" "ep_paths ep' = Some p"
    using k(11) [OF ep'] ep by auto
  have f: "fold_pending_timing ?cy ?s = Some ?s" using ep' e'(1) by (simp add: fold_pending_timing_def)
  have d: "episode_end ht w ?s e = Some (s', Resp_EpisodeReceipt m)" using dispatched(3) by (simp add: dispatch_def)
  obtain prev sr entry where r:
    "sign_receipt ?cy (receipt_body ht w (?s \<lparr> ss_ep := None, ss_faulted := False \<rparr>) ep' (ee_outcome e) prev) (ss_key ?s) = Inr sr"
    "write_episode ?cy w (ss_disk ?s) p sr (ep_ticks ep') (ep_timing ep') = Some (ss_disk s', Inr entry)"
    "er_body_digest m = sr_body_digest sr" "er_ledger_head m = le_hash entry" "ledger_head w (ss_disk ?s) (pa_ledger p) = Inr prev"
    by (rule episode_end_receipt [OF d f _ e'(3)]) (use ep' in auto)
  let ?old = "case dk_ledger (ss_disk s) (pa_ledger p) of None \<Rightarrow> [] | Some es \<Rightarrow> es"
  obtain es where w: "append_ledger (cy_sha ?cy) ?old sr = Some (es, entry)"
    "dk_ledger (ss_disk s') (pa_ledger p) = Some es" "dk_receipt (ss_disk s') (pa_receipt p) = Some sr"
    "dk_ticks (ss_disk s') (pa_ticks p) = Some (ep_ticks ep)" "dk_timing (ss_disk s') (pa_timing p) = Some (ep_timing ep')"
    by (rule write_episode_Inr [OF r(2)]) (use k(9) e'(2) in simp)
  have prev: "prev = (if ?old = [] then None else Some (le_hash (last ?old)))"
    using r(5) k(9) by (auto simp: ledger_head_def split: option.splits if_splits)
  have fx: "ss_cfg s1 = ss_cfg s" "ss_key s1 = ss_key s" "ss_pubkey s1 = ss_pubkey s" "ss_envelope_digest s1 = ss_envelope_digest s"
    "ss_envelope_json s1 = ss_envelope_json s" using k(2) by (simp_all add: fixed_def)
  have i: "episode_inv ?cy (fu_rt (ss_fuse s1)) ep'" using k(1) ep' by (simp add: session_inv_def)
  have "consistent ?cy (receipt_body ht w (?s \<lparr> ss_ep := None, ss_faulted := False \<rparr>) ep' (ee_outcome e) prev)"
    by (rule receipt_body_consistent) (use i e' n pol fx started_digest [OF inv(2) env] in simp_all)
  from sign_receipt_verifies [OF _ this r(1)] obtain v where v: "verify_receipt ?cy sr (Some (pubkey_hex ?cy (ss_key s1))) = Some v" "intact v"
    using key fx by auto
  have pk: "pubkey_hex ?cy (ss_key s1) = ss_pubkey s" using inv(2) fx by (simp add: started_def)
  note b = signed_body [OF r(1)]
  have t: "ticks.linked (cy_sha ?cy) (cy_b64 ?cy) 0 0 ZERO_HASH (ep_ticks ep)" "timing.linked (cy_sha ?cy) 0 0 ZERO_HASH (ep_timing ep')"
    "length (ep_timing ep') = length (ep_ticks ep)" "ep_verdict_head ep' = ticks.head_of ZERO_HASH (ep_ticks ep)"
    "ep_timing_head ep' = timing.head_of ZERO_HASH (ep_timing ep')"
    using i e'(1,2) n(1) by (simp_all add: episode_inv_def)
  have bb: "bo_timing_chain_head (sr_body sr) = ep_timing_head ep'" "bo_ledger_prev (sr_body sr) = prev"
    unfolding b by (simp_all add: receipt_body_def Let_def split_beta)
  show ?thesis
    by (rule that [OF w(3,4,5,2) v(1) [unfolded pk] v(2) r(3) [symmetric] r(4) [symmetric] w(1) refl])
      (use t bb prev e'(2) fx in \<open>simp_all add: b receipt_body_parts\<close>)
qed

lemma session_receipt:
  assumes "session_reach ht s" "ss_ep s = Some ep" "ep_paths ep = Some p"
    "handle ht w s (Req_EpisodeEnd e) = Some (s', Resp_EpisodeReceipt m)"
    "signs (ht_crypto ht) (ss_key s)" "keys_clean (ht_envelope_json ht (cg_envelope (ss_cfg s)))"
    "length (ep_ticks ep) < 2 ^ 32" "oc_steps (ee_outcome e) = of_nat (length (ep_ticks ep))"
    "cg_ticks_policy (ss_cfg s) \<in> {''all'', ''tail32'', ''none''}"
  shows "\<exists>sr r es. dk_receipt (ss_disk s') (pa_receipt p) = Some sr \<and> dk_ledger (ss_disk s') (pa_ledger p) = Some es \<and>
    verify_receipt (ht_crypto ht) sr (Some (ss_pubkey s)) = Some r \<and> intact r \<and> sr_body_digest sr = er_body_digest m \<and>
    es \<noteq> [] \<and> le_receipt_digest (last es) = er_body_digest m \<and> le_hash (last es) = er_ledger_head m"
  by (rule session_written [OF assms]) (use append_ledger_last in fastforce)

subsection \<open>The ledgers on disk\<close>

definition ledgers_linked :: "(string \<Rightarrow> string) \<Rightarrow> Disk \<Rightarrow> bool" where
  "ledgers_linked sha dk \<longleftrightarrow> (\<forall>p es. dk_ledger dk p = Some es \<longrightarrow> ledger.linked sha 0 0 ZERO_HASH es)"

lemma ledgers_linked_same: "dk_ledger dk' = dk_ledger dk \<Longrightarrow> ledgers_linked sha dk' = ledgers_linked sha dk"
  by (simp add: ledgers_linked_def)

lemma write_episode_linked:
  assumes "write_episode cy w dk p sr ts tms = Some (dk', r)" "ledgers_linked (cy_sha cy) dk"
  shows "ledgers_linked (cy_sha cy) dk'"
proof -
  have "dk_ledger dk' = dk_ledger dk \<or> (\<exists>es e. append_ledger (cy_sha cy) (case dk_ledger dk (pa_ledger p) of None \<Rightarrow> [] | Some es \<Rightarrow> es) sr
      = Some (es, e) \<and> dk_ledger dk' = (dk_ledger dk)(pa_ledger p \<mapsto> es))"
    using assms(1) by (auto simp: write_episode_def Let_def split: option.split_asm)
  moreover have "ledger.linked (cy_sha cy) 0 0 ZERO_HASH (case dk_ledger dk (pa_ledger p) of None \<Rightarrow> [] | Some es \<Rightarrow> es)"
    using assms(2) by (auto simp: ledgers_linked_def split: option.split)
  ultimately show ?thesis
    using assms(2) append_ledger_linked by (auto simp: ledgers_linked_def split: if_split_asm)
qed

lemma episode_end_disk:
  assumes "episode_end ht w s e = Some (s', r)" "fold_pending_timing (ht_crypto ht) s = Some s1" "ledgers_linked (cy_sha (ht_crypto ht)) (ss_disk s1)"
  shows "ledgers_linked (cy_sha (ht_crypto ht)) (ss_disk s')"
proof (cases "ss_ep s = None")
  case True
  have "ss_disk s = ss_disk s1" using fold_pending_keeps(8) [OF assms(2)] by simp
  then show ?thesis using assms(1,3) True by (auto simp: episode_end_def Let_def fail_def)
next
  case False
  let ?s = "s1 \<lparr> ss_ep := None, ss_faulted := False \<rparr>" and ?ep = "the (ss_ep s1)" and ?cy = "ht_crypto ht"
  note d = assms(1) [unfolded episode_end_def Let_def assms(2) bind.simps if_not_P [OF False]]
  show ?thesis
  proof (cases "case ep_paths ?ep of Some p \<Rightarrow> ledger_head w (ss_disk ?s) (pa_ledger p) | None \<Rightarrow> Inr None")
    case (Inl m)
    then show ?thesis using d assms(3) by auto
  next
    case (Inr prev)
    show ?thesis
    proof (cases "sign_receipt ?cy (receipt_body ht w ?s ?ep (ee_outcome e) prev) (ss_key ?s)")
      case (Inl c)
      then show ?thesis using d Inr assms(3) by auto
    next
      case s: (Inr sr)
      show ?thesis
      proof (cases "ep_paths ?ep")
        case None
        then show ?thesis using d Inr s assms(3) by auto
      next
        case (Some p)
        obtain dk x where x: "write_episode ?cy w (ss_disk ?s) p sr (ep_ticks ?ep) (ep_timing ?ep) = Some (dk, x)"
          using signed_write [OF s, of w "ss_disk ?s" p "ep_ticks ?ep" "ep_timing ?ep"] by auto
        then have "ss_disk s' = dk" using d Inr s Some by auto
        then show ?thesis using write_episode_linked [OF x] assms(3) by simp
      qed
    qed
  qed
qed

lemma fail_disk [simp]: "ss_disk (fst (fail s i c m)) = ss_disk s"
  by (simp add: fail_def)

lemma dispatch_ledgers:
  assumes "dispatch ht w s req = Some (s', r)" "ledgers_linked (cy_sha (ht_crypto ht)) (ss_disk s)"
  shows "ledgers_linked (cy_sha (ht_crypto ht)) (ss_disk s')"
proof (cases req)
  case (Req_Hello h)
  then have "fst (hello s h) = s'" using assms(1) by (simp add: dispatch_def)
  moreover have "ss_disk (fst (hello s h)) = ss_disk s" by (simp add: hello_def Let_def)
  ultimately show ?thesis using assms(2) by simp
next
  case (Req_EpisodeBegin b)
  then have "fst (episode_begin s b) = s'" using assms(1) by (simp add: dispatch_def)
  moreover have "ss_disk (fst (episode_begin s b)) = ss_disk s" by (simp add: episode_begin_def Let_def)
  ultimately show ?thesis using assms(2) by simp
next
  case (Req_Tick t)
  show ?thesis
  proof (cases "ss_ep s")
    case None
    then have "fst (phantom_tick s t) = s'" using assms(1) Req_Tick by (simp add: dispatch_def tick_def)
    moreover have "ss_disk (fst (phantom_tick s t)) = ss_disk s" by (simp add: phantom_tick_def Let_def split_beta)
    ultimately show ?thesis using assms(2) by simp
  next
    case (Some ep)
    then have "episode_tick (ht_crypto ht) w s ep t = Some (s', r)" using assms(1) Req_Tick by (simp add: dispatch_def tick_def)
    then have "dk_ledger (ss_disk s') = dk_ledger (ss_disk s)" by (rule episode_tick_parts)
    then show ?thesis using assms(2) ledgers_linked_same by blast
  qed
next
  case (Req_EpisodeEnd e)
  then have d: "episode_end ht w s e = Some (s', r)" using assms(1) by (simp add: dispatch_def)
  show ?thesis
  proof (cases "ss_ep s")
    case None
    then show ?thesis using d assms(2) by (auto simp: episode_end_def Let_def fail_def)
  next
    case (Some ep)
    then obtain s1 where f: "fold_pending_timing (ht_crypto ht) s = Some s1"
      using d by (auto simp: episode_end_def Let_def bind_eq_Some_conv)
    show ?thesis using episode_end_disk [OF d f] fold_pending_keeps(8) [OF f] assms(2) by simp
  qed
qed (use assms in \<open>auto simp: dispatch_def\<close>)

lemma run_ledgers:
  "session_run ht s reqs = Some (s', rs) \<Longrightarrow> ledgers_linked (cy_sha (ht_crypto ht)) (ss_disk s) \<Longrightarrow>
     ledgers_linked (cy_sha (ht_crypto ht)) (ss_disk s')"
proof (induction reqs arbitrary: s rs)
  case (Cons a reqs)
  obtain w req where a: "a = (w, req)" by force
  obtain s1 r rs' where h: "handle ht w s req = Some (s1, r)" "session_run ht s1 reqs = Some (s', rs')"
    using Cons.prems(1) unfolding a by (rule session_run_ConsE)
  have "ledgers_linked (cy_sha (ht_crypto ht)) (ss_disk s1)"
    using h(1)
  proof (cases rule: handleE)
    case (refused s2 m)
    then show ?thesis using fold_pending_keeps(8) [OF refused(1)] Cons.prems(2) by simp
  next
    case (dispatched s2)
    show ?thesis
      by (rule dispatch_ledgers [OF dispatched(3)]) (use fold_pending_keeps(8) [OF dispatched(1)] Cons.prems(2) in simp)
  qed
  then show ?case using Cons.IH [OF h(2)] by simp
qed simp

end
