(* ===== verification/DemoSession.thy ===== *)
theory DemoSession
  imports DemoReceipt SessionReply
begin

text \<open>A concrete session on the demo envelope and the toy cryptographic parameters, with an episode that is opened and closed.\<close>

definition demo_host :: Host where
  "demo_host = \<lparr> ht_crypto = demo_crypto, ht_envelope_json = (\<lambda>_. VNull), ht_embodiment_json = (\<lambda>_. VNull),
     ht_quantile = (\<lambda>_ _. 0), ht_max = (\<lambda>_. 0), ht_keygen = [] \<rparr>"

lemma demo_host_crypto [simp]: "ht_crypto demo_host = demo_crypto" by (simp add: demo_host_def)

definition demo_world :: World where
  "demo_world = \<lparr> wd_decide_ns = 0, wd_now = 0, wd_io = (\<lambda>_. None), wd_json = (\<lambda>_. None) \<rparr>"

definition demo_disk :: Disk where
  "demo_disk = \<lparr> dk_nonces = (\<lambda>_. None), dk_receipt = (\<lambda>_. None), dk_ticks = (\<lambda>_. None), dk_timing = (\<lambda>_. None),
     dk_ledger = (\<lambda>_. None) \<rparr>"

definition demo_config :: SessionConfig where
  "demo_config = \<lparr> cg_envelope = demo_env, cg_envelope_toml_sha = ''e'', cg_calibration = None, cg_mode = Enforce,
     cg_tier0_override = None, cg_tier1 = False, cg_ticks_policy = ''all'', cg_key = Some [], cg_out_dir = Some ''o'',
     cg_lictor_git = ''g'', cg_lictor_sha256 = ''h'', cg_latency_label = ''l'' \<rparr>"

definition demo_begin :: EpisodeBeginReq where
  "demo_begin = \<lparr> eb_id = 1,
     eb_run = \<lparr> rm_run_id = ''r'', rm_arm_id = ''a'', rm_episode_index = 0, rm_seed = 7, rm_seed_pool = ''p'', rm_init_state_digest = ''i'' \<rparr>,
     eb_budget = \<lparr> bg_delay_steps = 0, bg_tick_ms = 100, bg_exec_mode = Sync, bg_stitch = ''s'', bg_on_escalate = ''e'' \<rparr>,
     eb_binding = \<lparr> bi_env = [], bi_policy = [], bi_host = [] \<rparr>, eb_fault_injection = None, eb_inputs = [] \<rparr>"

definition demo_outcome :: OutcomeMsg where
  "demo_outcome = \<lparr> oc_steps = 0, oc_success = False, oc_terminated = False, oc_truncated = False, oc_max_coverage = None,
     oc_final_coverage = None, oc_reward_sum = None, oc_ended_by = ''x'' \<rparr>"

definition demo_end :: EpisodeEndReq where "demo_end = \<lparr> ee_id = 2, ee_t = 0, ee_outcome = demo_outcome \<rparr>"

definition demo_tick_req :: "u64 \<Rightarrow> AckToken option \<Rightarrow> TickReq" where
  "demo_tick_req i ack = \<lparr> tq_id = i, tq_t = 0, tq_idx = 0, tq_missed_ticks = 0,
     tq_obs = \<lparr> om_pos = [Some 0], om_vel = None, om_aux = [], om_ext = [] \<rparr>, tq_chunk = None, tq_ack = ack \<rparr>"

lemma demo_tick_ack [simp]: "tq_ack (demo_tick_req i a) = a" by (simp add: demo_tick_req_def)

lemma demo_world_ns [simp]: "wd_decide_ns demo_world = 0" by (simp add: demo_world_def)

lemma demo_compile:
  "\<exists>cfg. SafetyEnvelope_compile dig emdig demo_env Enforce None = Inr cfg \<and> fc_pos_dim cfg = 1 \<and> fc_horizon cfg = 3"
proof -
  have "\<not> isl (GateSpec_parse (se_gate demo_env))" "\<not> isl (tier0_mask demo_env)" by code_simp+
  then obtain g t where "GateSpec_parse (se_gate demo_env) = Inr g" "tier0_mask demo_env = Inr t"
    by (cases "GateSpec_parse (se_gate demo_env)"; cases "tier0_mask demo_env") auto
  then show ?thesis
    using demo_env_valid by (simp add: SafetyEnvelope_compile_def Let_def map_gate_err_def)
      (simp add: demo_env_def demo_embodiment_def)
qed

lemma demo_digest_null: "canonical_digest demo_crypto VNull = Some ''null''"
  by (simp add: canonical_digest_def demo_crypto_def canon_def)

lemma demo_session:
  "\<exists>s. Session_new demo_host demo_world demo_disk demo_config = Some (Inr s) \<and> ss_cfg s = demo_config \<and> ss_last_id s = 0 \<and>
     ss_ep s = None \<and> ss_disk s = demo_disk \<and> ss_key s = [] \<and> ss_policy_digest s = None \<and> ss_envelope_json s = VNull \<and>
     ss_calibration_digest s = None \<and> ss_last_nonce s = (\<lambda>_. None) \<and>
     fc_pos_dim (fu_cfg (ss_fuse s)) = 1 \<and> fc_horizon (fu_cfg (ss_fuse s)) = 3"
proof -
  obtain cfg where c: "SafetyEnvelope_compile (\<lambda>_. ''null'') (\<lambda>_. ''null'') demo_env Enforce None = Inr cfg"
    "fc_pos_dim cfg = 1" "fc_horizon cfg = 3" using demo_compile by blast
  have n: "load_nonces demo_world demo_disk p = Inr (\<lambda>_. None)" for p by (simp add: load_nonces_def demo_disk_def)
  have "Session_new demo_host demo_world demo_disk demo_config = Some (Inr s) \<Longrightarrow> ?thesis" for s
    by (rule exI [of _ s]) (auto simp: Session_new_def demo_host_def demo_config_def demo_env_valid demo_digest_null c n
        Fuse_new_def with_tier0_def)
  moreover have "\<exists>s. Session_new demo_host demo_world demo_disk demo_config = Some (Inr s)"
    by (simp add: Session_new_def demo_host_def demo_config_def demo_env_valid demo_digest_null c n)
  ultimately show ?thesis by blast
qed

subsection \<open>An open episode\<close>

definition demo_opened :: "Session \<Rightarrow> bool" where
  "demo_opened s \<longleftrightarrow> ss_cfg s = demo_config \<and> ss_key s = [] \<and> ss_last_id s = 1 \<and> \<not> ss_faulted s \<and> ss_disk s = demo_disk \<and>
     ss_envelope_json s = VNull \<and> fc_pos_dim (fu_cfg (ss_fuse s)) = 1 \<and> fc_horizon (fu_cfg (ss_fuse s)) = 3 \<and>
     ss_last_nonce s = (\<lambda>_. None) \<and> ss_hist s = [] \<and>
     (\<exists>ep. ss_ep s = Some ep \<and> rb_seed (ep_run ep) = 7 \<and> rb_env (ep_run ep) = [] \<and> rb_policy (ep_run ep) = [] \<and>
        rb_host (ep_run ep) = [] \<and> ep_fault_injection ep = None \<and> keys_ok (ep_inputs ep) \<and>
        ep_paths ep = Some (episode_paths ''o'' ''r'' ''a'' 0) \<and> ep_ticks ep = [] \<and> ep_pending_timing ep = None \<and> ep_handoffs ep = [])"

lemma demo_inputs: "keys_ok (btree_extend [] (fuse_inputs demo_config))"
  by code_simp

lemma demo_open:
  obtains s0 s r where "session_reach demo_host s0" "ss_ep s0 = None" "ss_last_id s0 = 0" "ss_disk s0 = demo_disk"
    "handle demo_host demo_world s0 (Req_EpisodeBegin demo_begin) = Some (s, r)" "session_reach demo_host s" "demo_opened s"
proof -
  obtain s0 where s0: "Session_new demo_host demo_world demo_disk demo_config = Some (Inr s0)" "ss_cfg s0 = demo_config"
    "ss_last_id s0 = 0" "ss_ep s0 = None" "ss_disk s0 = demo_disk" "ss_key s0 = []" "ss_policy_digest s0 = None"
    "ss_envelope_json s0 = VNull" "ss_last_nonce s0 = (\<lambda>_. None)"
    "fc_pos_dim (fu_cfg (ss_fuse s0)) = 1" "fc_horizon (fu_cfg (ss_fuse s0)) = 3"
    using demo_session by blast
  have reach: "session_reach demo_host s0" by (rule reach_start [OF s0(1)])
  let ?s = "s0 \<lparr> ss_last_id := 1 \<rparr>"
  have f: "fold_pending_timing demo_crypto s0 = Some s0" using s0(4) by (simp add: fold_pending_timing_def)
  have h: "handle demo_host demo_world s0 (Req_EpisodeBegin demo_begin) = Some (episode_begin ?s demo_begin)"
    by (simp add: handle_eq f s0(3) dispatch_def demo_begin_def)
  obtain s r where e: "episode_begin ?s demo_begin = (s, r)" by force
  have s: "fst (episode_begin ?s demo_begin) = s" using e by simp
  have "demo_opened s"
    unfolding s [symmetric] using demo_inputs
    by (simp add: demo_opened_def episode_begin_def s0 Let_def) (simp add: demo_begin_def demo_config_def)
  then show thesis using that [OF reach s0(4,3,5)] h e reach_request [OF reach h [unfolded e]] by simp
qed

lemma demo_closes:
  assumes "demo_opened s"
  shows "\<exists>s' m. handle demo_host demo_world s (Req_EpisodeEnd demo_end) = Some (s', Resp_EpisodeReceipt m)"
proof -
  obtain ep where ep: "ss_ep s = Some ep" "rb_seed (ep_run ep) = 7" "rb_env (ep_run ep) = []" "rb_policy (ep_run ep) = []"
    "rb_host (ep_run ep) = []" "ep_fault_injection ep = None" "keys_ok (ep_inputs ep)"
    "ep_paths ep = Some (episode_paths ''o'' ''r'' ''a'' 0)" "ep_ticks ep = []" "ep_pending_timing ep = None" "ep_handoffs ep = []"
    and s: "ss_last_id s = 1" "ss_disk s = demo_disk" "ss_envelope_json s = VNull" "ss_hist s = []"
    using assms by (auto simp: demo_opened_def)
  let ?s = "s \<lparr> ss_last_id := 2, ss_ep := None, ss_faulted := False \<rparr>" and ?p = "episode_paths ''o'' ''r'' ''a'' 0"
  have f: "fold_pending_timing cy s = Some s" "fold_pending_timing cy (s \<lparr> ss_last_id := 2 \<rparr>) = Some (s \<lparr> ss_last_id := 2 \<rparr>)" for cy
    using ep by (simp_all add: fold_pending_timing_def)
  have l: "ledger_head demo_world demo_disk p = Inr None" for p by (simp add: ledger_head_def demo_disk_def)
  have "signable (receipt_body demo_host demo_world ?s ep demo_outcome None)"
    using ep s by (simp add: signable_def receipt_body_def Let_def split_beta Hist_summary_def demo_world_def safe_def
        MAX_SAFE_INTEGER_def keys_ok_def)
  then obtain sr where sr: "sign_receipt demo_crypto (receipt_body demo_host demo_world ?s ep demo_outcome None) (ss_key s) = Inr sr"
    using sign_receipt_iff by blast
  obtain es e where "append_ledger (cy_sha demo_crypto) [] sr = Some (es, e)"
    using signed_append [OF sr, of "cy_sha demo_crypto" "[]"] by auto
  then have w: "\<exists>dk. write_episode demo_crypto demo_world demo_disk ?p sr [] (ep_timing ep) = Some (dk, Inr e)"
    by (simp add: write_episode_def demo_world_def Let_def) (simp add: demo_disk_def)
  have n: "\<not> (2 :: u64) \<le> 1" by (simp add: word_le_nat_alt)
  show ?thesis
    using w by (auto simp: handle_eq f s(1) n dispatch_def demo_end_def episode_end_def Let_def ep s l sr)
qed

subsection \<open>A tick that is answered\<close>

lemma tick_answered:
  assumes "timing_safe s" "ss_ep s \<noteq> None" "ss_last_id s < tq_id t" "snd (stage (fu_cfg (ss_fuse s)) (ss_staging s) t) = Inr ()"
    "safe (wd_decide_ns w)"
  shows "\<exists>s' m. handle ht w s (Req_Tick t) = Some (s', Resp_Verdict m) \<and>
    vm_ack_result m = snd (check_ack (ht_crypto ht) s t) \<and> ss_last_id s' = tq_id t \<and> timing_safe s' \<and> ss_ep s' \<noteq> None \<and>
    fu_cfg (ss_fuse s') = fu_cfg (ss_fuse s) \<and> vm_verdict_ns m = wd_decide_ns w"
proof -
  let ?cy = "ht_crypto ht"
  obtain s1 where f: "fold_pending_timing ?cy s = Some s1" using assms(1) fold_pending_total by blast
  let ?s = "s1 \<lparr> ss_last_id := tq_id t \<rparr>"
  note k = fold_pending_keeps [OF f]
  obtain ep where ep: "ss_ep s1 = Some ep" using k(9) assms(2) by blast
  obtain s' r where e: "episode_tick ?cy w ?s ep t = Some (s', r)" using episode_tick_total [of ?cy w ?s ep t] by auto
  have h: "handle ht w s (Req_Tick t) = Some (s', r)"
    using e ep k(2) assms(3) [unfolded not_le [symmetric]] by (simp add: handle_eq f dispatch_def tick_def)
  obtain event :: TickEvent and ep' hr where p: "ss_ep s' = Some ep'"
    "ep_pending_timing ep' = Some \<lparr> pt_seq = sv_seq (tick_verdict ?cy ?s t), pt_decide_ns = wd_decide_ns w, pt_io_ns = 0 \<rparr>"
    "ss_fuse s' = fst (Fuse_step (ss_fuse ?s) (tick_input ?cy ?s t))" "ss_last_id s' = ss_last_id ?s"
    "r = (case snd (stage (fu_cfg (ss_fuse ?s)) (ss_staging ?s) t) of Inl m \<Rightarrow> err (tq_id t) ''schema'' m
      | Inr _ \<Rightarrow> Resp_Verdict (verdict_msg t (tick_verdict ?cy ?s t) hr (snd (check_ack ?cy ?s t)) (wd_decide_ns w) (te_hash event)))"
    by (rule episode_tick_parts [OF e]) (rule that, assumption+)
  have r: "r = Resp_Verdict (verdict_msg t (tick_verdict ?cy ?s t) hr (snd (check_ack ?cy ?s t)) (wd_decide_ns w) (te_hash event))"
    using p(5) assms(4) k by simp
  show ?thesis
    by (intro exI conjI, rule h [unfolded r])
      (use p assms(4,5) k in \<open>simp_all add: verdict_msg_def timing_safe_def safe_def MAX_SAFE_INTEGER_def\<close>)
qed

lemma demo_tick_stages:
  "fc_pos_dim cfg = 1 \<Longrightarrow> fc_horizon cfg = 3 \<Longrightarrow> snd (stage cfg sg (demo_tick_req i ack)) = Inr ()"
  by (simp add: stage_def check_obs_def demo_tick_req_def Let_def fail_if_def)

lemma demo_ledger_written:
  obtains s s' rs es where "ss_disk s = demo_disk" "session_run demo_host s [(demo_world, Req_EpisodeEnd demo_end)] = Some (s', rs)"
    "dk_ledger (ss_disk s') (pa_ledger (episode_paths ''o'' ''r'' ''a'' 0)) = Some es"
proof -
  obtain s0 s r where s: "session_reach demo_host s" "demo_opened s" by (rule demo_open)
  obtain s' m where h: "handle demo_host demo_world s (Req_EpisodeEnd demo_end) = Some (s', Resp_EpisodeReceipt m)"
    using demo_closes [OF s(2)] by blast
  obtain ep where ep: "ss_ep s = Some ep" "ep_paths ep = Some (episode_paths ''o'' ''r'' ''a'' 0)" "ep_ticks ep = []"
    "ss_cfg s = demo_config" "ss_disk s = demo_disk" using s(2) by (auto simp: demo_opened_def)
  have "oc_steps (ee_outcome demo_end) = of_nat (length (ep_ticks ep))" "cg_ticks_policy (ss_cfg s) \<in> {''all'', ''tail32'', ''none''}"
    "keys_clean (ht_envelope_json demo_host (cg_envelope (ss_cfg s)))" "signs (ht_crypto demo_host) (ss_key s)"
    using ep by (simp_all add: demo_end_def demo_outcome_def demo_config_def demo_signs) (simp add: demo_host_def)
  from session_receipt [OF s(1) ep(1,2) h this(4,3) _ this(1,2)] ep(3)
  obtain es where "dk_ledger (ss_disk s') (pa_ledger (episode_paths ''o'' ''r'' ''a'' 0)) = Some es" by auto
  then show thesis using that [OF ep(5)] h by simp
qed

lemma demo_opened_ready:
  assumes "demo_opened s"
  shows "ss_ep s \<noteq> None" "timing_safe s" "ss_last_id s = 1" "\<And>sg i a. snd (stage (fu_cfg (ss_fuse s)) sg (demo_tick_req i a)) = Inr ()"
  using assms demo_tick_stages by (auto simp: demo_opened_def timing_safe_def)

lemma demo_world_safe: "safe (wd_decide_ns demo_world)" by (simp add: demo_world_def safe_def MAX_SAFE_INTEGER_def)

lemma demo_ticked:
  obtains s s' m where "session_reach demo_host s" "demo_opened s"
    "handle demo_host demo_world s (Req_Tick (demo_tick_req 2 None)) = Some (s', Resp_Verdict m)"
proof -
  obtain s0 s r where s: "session_reach demo_host s" "demo_opened s" by (rule demo_open)
  note o = demo_opened_ready [OF s(2)]
  have "ss_last_id s < tq_id (demo_tick_req 2 None)" by (simp add: o demo_tick_req_def word_less_nat_alt)
  from tick_answered [OF o(2,1) this o(4) demo_world_safe] show thesis using that [OF s] by blast
qed

lemma demo_refused:
  obtains s s1 e s2 m where "session_reach demo_host s" "ss_ep s \<noteq> None" "handle demo_host demo_world s (Req_Bye 0) = Some (s1, Resp_Error e)"
    "ss_ep s1 \<noteq> None" "session_run demo_host s1 [(demo_world, Req_Tick (demo_tick_req 5 None))] = Some (s2, [Resp_Verdict m])"
proof -
  obtain s0 s r where s: "session_reach demo_host s" "demo_opened s" by (rule demo_open)
  note o = demo_opened_ready [OF s(2)]
  let ?s = "s \<lparr> ss_faulted := True \<rparr>"
  have f: "fold_pending_timing cy s = Some s" for cy
    using s(2) by (auto simp: demo_opened_def fold_pending_timing_def)
  have h: "\<exists>e. handle demo_host demo_world s (Req_Bye 0) = Some (?s, Resp_Error e)"
    using o(1) by (simp add: handle_eq f fail_def err_def)
  have t: "timing_safe ?s" using o(2) by (simp add: timing_safe_def)
  have "ss_last_id ?s < tq_id (demo_tick_req 5 None)" by (simp add: o demo_tick_req_def word_less_nat_alt)
  then obtain s2 m where "handle demo_host demo_world ?s (Req_Tick (demo_tick_req 5 None)) = Some (s2, Resp_Verdict m)"
    using tick_answered [OF t, of "demo_tick_req 5 None" demo_world demo_host] o(1,4) demo_world_safe by auto
  then show thesis using that [OF s(1) o(1)] h o(1) by auto
qed

lemma demo_phantom:
  obtains s s' m where "ss_ep s = None" "handle demo_host demo_world s (Req_Tick (demo_tick_req 2 None)) = Some (s', Resp_Verdict m)"
proof -
  obtain s0 :: Session where s: "ss_ep s0 = None" "ss_last_id s0 = 0" by (rule demo_open) blast
  let ?s = "s0 \<lparr> ss_phantom := True \<rparr>"
  have f: "fold_pending_timing cy ?s = Some ?s" for cy using s(1) by (simp add: fold_pending_timing_def)
  have "\<exists>s' m. handle demo_host demo_world ?s (Req_Tick (demo_tick_req 2 None)) = Some (s', Resp_Verdict m)"
    using s(1,2) by (simp add: handle_eq f dispatch_def tick_def phantom_tick_def split_beta demo_tick_req_def Let_def)
  then show thesis using that [of ?s] s(1) by auto
qed

subsection \<open>An acknowledged handoff\<close>

text \<open>A session with a pending handoff, for an envelope that lists the demo key as its operator.\<close>

definition demo_operator :: string where "demo_operator = pubkey_hex demo_crypto []"

lemma demo_acked:
  obtains s s1 m s3 m' tok where "handle demo_host demo_world s (Req_Tick (demo_tick_req 2 (Some tok))) = Some (s1, Resp_Verdict m)"
    "vm_ack_result m = Some ''accepted''" "handle demo_host demo_world s1 (Req_Tick (demo_tick_req 3 (Some tok))) = Some (s3, Resp_Verdict m')"
proof -
  obtain s0 s r where s: "demo_opened s" by (rule demo_open)
  note o = demo_opened_ready [OF s]
  obtain tok where tok: "sign_ack demo_crypto ''d'' Resume 3 ''ok'' [] = Inr tok" using demo_ack_signed by blast
  obtain ep where ep: "ss_ep s = Some ep" using o(1) by blast
  obtain h where h: "handoff_record demo_crypto s (ep_run ep) demo_verdict 0 ''c'' = Some h" using handoff_record_total by blast
  let ?ep = "ep \<lparr> ep_handoffs := [h \<lparr> hr_digest := ''d'' \<rparr>], ep_pending_handoff := Some 0 \<rparr>"
  let ?cfg = "ss_cfg s \<lparr> cg_envelope := demo_env \<lparr> se_operators := [demo_operator] \<rparr> \<rparr>"
  let ?s = "s \<lparr> ss_cfg := ?cfg, ss_ep := Some ?ep \<rparr>" and ?t = "\<lambda>i. demo_tick_req i (Some tok)"
  have t: "timing_safe ?s" using o(2) ep by (simp add: timing_safe_def)
  have n: "ss_last_nonce s = (\<lambda>_. None)" using s by (simp add: demo_opened_def)
  have p: "pending_record ?s = Some (h \<lparr> hr_digest := ''d'' \<rparr>)" by (simp add: pending_record_def)
  have v: "verify_ack demo_crypto tok [demo_operator] (Some ''d'') ps [0]
      = Inr \<lparr> va_decision = Resume, va_operator_slot = of_nat 0, va_nonce = 3, va_handoff_seq = ps \<rparr>" for ps
    by (rule sign_ack_verifies [OF demo_signs tok]) (simp_all add: demo_operator_def)
  have a: "snd (check_ack demo_crypto ?s (?t i)) = Some ''accepted''" for i
    by (simp add: check_ack_def p n v demo_tick_req_def Let_def)
  have "ss_last_id ?s < tq_id (?t 2)" by (simp add: o demo_tick_req_def word_less_nat_alt)
  then obtain s1 m where s1: "handle demo_host demo_world ?s (Req_Tick (?t 2)) = Some (s1, Resp_Verdict m)"
    "vm_ack_result m = snd (check_ack demo_crypto ?s (?t 2))" "ss_last_id s1 = tq_id (?t 2)" "timing_safe s1" "ss_ep s1 \<noteq> None"
    "fu_cfg (ss_fuse s1) = fu_cfg (ss_fuse ?s)"
    using tick_answered [OF t, of "?t 2" demo_world demo_host] o(4) demo_world_safe by auto
  have "ss_last_id s1 < tq_id (?t 3)" by (simp add: s1(3) demo_tick_req_def word_less_nat_alt)
  then obtain s3 m' where "handle demo_host demo_world s1 (Req_Tick (?t 3)) = Some (s3, Resp_Verdict m')"
    using tick_answered [OF s1(4,5), of "?t 3" demo_world demo_host] o(4) s1(6) demo_world_safe by auto
  then show thesis using that [OF s1(1)] s1(2) a by simp
qed

end
