(* ===== verification/SessionClock.thy ===== *)
theory SessionClock
  imports SessionReply
begin

text \<open>
  Two runs of the same requests, under different clocks, file systems, keys and quantiles, agree on
  everything the wire shows but durations, key and receipt digests.  \<open>same\<close> relates two sessions that
  differ only in what the clock, the disk and the key leave behind.
\<close>

definition same_ep :: "Episode \<Rightarrow> Episode \<Rightarrow> bool" where
  "same_ep e f \<longleftrightarrow> ep_run e = ep_run f \<and> ep_budget e = ep_budget f \<and> ep_fault_injection e = ep_fault_injection f \<and>
     ep_inputs e = ep_inputs f \<and> ep_paths e = ep_paths f \<and> ep_verdict_head e = ep_verdict_head f \<and> ep_ticks e = ep_ticks f \<and>
     ep_handoffs e = ep_handoffs f \<and> ep_pending_handoff e = ep_pending_handoff f"

definition same :: "Session \<Rightarrow> Session \<Rightarrow> bool" where
  "same s t \<longleftrightarrow> ss_cfg s = ss_cfg t \<and> ss_fuse s = ss_fuse t \<and> ss_staging s = ss_staging t \<and> ss_ephemeral s = ss_ephemeral t \<and>
     ss_envelope_digest s = ss_envelope_digest t \<and> ss_embodiment_digest s = ss_embodiment_digest t \<and>
     ss_calibration_digest s = ss_calibration_digest t \<and> ss_policy_digest s = ss_policy_digest t \<and>
     ss_envelope_json s = ss_envelope_json t \<and> ss_last_id s = ss_last_id t \<and> ss_hello_ok s = ss_hello_ok t \<and>
     ss_client s = ss_client t \<and> ss_faulted s = ss_faulted t \<and> ss_phantom s = ss_phantom t \<and>
     ss_last_nonce s = ss_last_nonce t \<and> rel_option same_ep (ss_ep s) (ss_ep t)"

text \<open>What a reply shows of the decisions: the verdict without its duration.\<close>

definition verdict_view :: "Response \<Rightarrow> VerdictMsg option" where
  "verdict_view r = (case r of Resp_Verdict m \<Rightarrow> Some (m \<lparr> vm_verdict_ns := 0 \<rparr>) | _ \<Rightarrow> None)"

definition is_error :: "Response \<Rightarrow> bool" where
  "is_error r = (case r of Resp_Error _ \<Rightarrow> True | _ \<Rightarrow> False)"

lemma view_simps [simp]:
  "verdict_view (err i c m) = None" "verdict_view (Resp_HelloOk h) = None" "verdict_view (Resp_EpisodeOk o') = None"
  "verdict_view (Resp_EpisodeReceipt m') = None" "verdict_view (Resp_ByeOk i) = None" "verdict_view (Resp_Error e) = None"
  by (simp_all add: verdict_view_def err_def)

lemma same_epD: "same s t \<Longrightarrow> ss_ep s = Some e \<Longrightarrow> \<exists>f. ss_ep t = Some f \<and> same_ep e f"
  by (auto simp: same_def elim: option.rel_cases)

lemma same_None: "same s t \<Longrightarrow> ss_ep s = None \<longleftrightarrow> ss_ep t = None"
  by (auto simp: same_def elim: option.rel_cases)

lemma same_ack: "same s t \<Longrightarrow> check_ack cy s q = check_ack cy t q"
  by (intro check_ack_cong pending_record_cong) (auto simp: same_def same_ep_def elim: option.rel_cases)

lemma same_fold:
  assumes "same s t" "fold_pending_timing cy s = Some s1" "fold_pending_timing cy' t = Some t1"
  shows "same s1 t1"
proof -
  have fold: "\<exists>x. s1 = s \<lparr> ss_ep := x \<rparr> \<and> rel_option same_ep x (ss_ep s)" if f: "fold_pending_timing cy s = Some s1" for cy s s1
  proof (cases "ss_ep s")
    case None
    then show ?thesis using f by (intro exI [of _ None]) (simp add: fold_pending_timing_def)
  next
    case (Some ep)
    show ?thesis
    proof (cases "ep_pending_timing ep")
      case None
      then have "s1 = s \<lparr> ss_ep := Some ep \<rparr>" using f Some by (simp add: fold_pending_timing_def)
      then show ?thesis using Some by (intro exI [of _ "Some ep"]) (simp add: same_ep_def)
    next
      case p: (Some p)
      then obtain y z where "s1 = s \<lparr> ss_ep := Some (ep \<lparr> ep_pending_timing := None, ep_timing_head := y, ep_timing := z \<rparr>) \<rparr>"
        using f Some by (auto simp: fold_pending_timing_def)
      then show ?thesis
        using Some by (intro exI [of _ "Some (ep \<lparr> ep_pending_timing := None, ep_timing_head := y, ep_timing := z \<rparr>)"])
          (simp add: same_ep_def)
    qed
  qed
  obtain x where x: "s1 = s \<lparr> ss_ep := x \<rparr>" "rel_option same_ep x (ss_ep s)" using fold [OF assms(2)] by blast
  obtain y where y: "t1 = t \<lparr> ss_ep := y \<rparr>" "rel_option same_ep y (ss_ep t)" using fold [OF assms(3)] by blast
  have "rel_option same_ep x y"
    using assms(1) x(2) y(2) unfolding same_def by (cases "ss_ep s"; cases "ss_ep t"; cases x; cases y) (simp_all add: same_ep_def)
  then show ?thesis using assms(1) x(1) y(1) by (simp add: same_def)
qed

lemma same_last_id: "same s t \<Longrightarrow> same (s \<lparr> ss_last_id := i \<rparr>) (t \<lparr> ss_last_id := i \<rparr>)"
  by (simp add: same_def)

lemma same_fail: "same s t \<Longrightarrow> same (fst (fail s i c m)) (fst (fail t i c m))"
proof -
  assume s: "same s t"
  note n = same_None [OF s]
  from s n show ?thesis by (cases "ss_ep s"; cases "ss_ep t") (simp_all add: fail_def same_def)
qed

lemma same_hello:
  assumes "same s t"
  shows "same (fst (hello s h)) (fst (hello t h))" "verdict_view (snd (hello s h)) = verdict_view (snd (hello t h))"
    "is_error (snd (hello s h)) = is_error (snd (hello t h))"
proof -
  have m: "hello_mismatch s h = hello_mismatch t h" using assms by (simp add: hello_mismatch_def same_def)
  note n = same_None [OF assms]
  show "same (fst (hello s h)) (fst (hello t h))"
  proof (cases "ss_ep s = None")
    case True
    then show ?thesis using assms m n by (auto simp: hello_def Let_def same_def)
  next
    case False
    then show ?thesis using same_fail [OF assms] n by (simp add: hello_def)
  qed
  show "verdict_view (snd (hello s h)) = verdict_view (snd (hello t h))" by (simp add: hello_def Let_def)
  show "is_error (snd (hello s h)) = is_error (snd (hello t h))"
    using m n by (auto simp: hello_def Let_def is_error_def err_def)
qed

lemma same_begin:
  assumes "same s t"
  shows "same (fst (episode_begin s b)) (fst (episode_begin t b))" "verdict_view (snd (episode_begin s b)) = verdict_view (snd (episode_begin t b))"
    "is_error (snd (episode_begin s b)) = is_error (snd (episode_begin t b))"
proof -
  note n = same_None [OF assms]
  have bb: "budget_binding s q = budget_binding t q" for q
    using assms by (simp add: budget_binding_def tier1_armed_def same_def Let_def)
  have f: "ss_policy_digest s = ss_policy_digest t" "ss_fuse s = ss_fuse t" "ss_cfg s = ss_cfg t"
    using assms by (simp_all add: same_def)
  show "same (fst (episode_begin s b)) (fst (episode_begin t b))"
  proof (cases "ss_ep s = None")
    case True
    then show ?thesis using assms n by (auto simp: episode_begin_def Let_def bb f same_ep_def) (auto simp: same_def same_ep_def)
  next
    case False
    then show ?thesis using same_fail [OF assms] n by (simp add: episode_begin_def)
  qed
  show "verdict_view (snd (episode_begin s b)) = verdict_view (snd (episode_begin t b))"
    by (simp add: episode_begin_def Let_def)
  show "is_error (snd (episode_begin s b)) = is_error (snd (episode_begin t b))"
    using n f by (auto simp: episode_begin_def Let_def is_error_def err_def)
qed

lemma same_phantom:
  assumes "same s t" "ss_ep s = None"
  shows "same (fst (phantom_tick s q)) (fst (phantom_tick t q))" "snd (phantom_tick s q) = snd (phantom_tick t q)"
  using assms same_None [OF assms(1)] by (auto simp: phantom_tick_def same_def Let_def split_beta)

lemma same_after_decide:
  assumes "same s t" shows "same (after_decide cy w s q) (after_decide cy w' t q)"
proof -
  have c: "check_ack cy s q = check_ack cy t q" by (rule same_ack [OF assms])
  have i: "tick_input cy s q = tick_input cy t q" using assms c by (simp add: tick_input_def same_def)
  have n: "ss_last_nonce (after_decide cy w s q) = ss_last_nonce (after_decide cy w' t q)"
    using assms c by (simp add: after_decide_nonces same_def cong: option.case_cong if_cong)
  have k: "ss_cfg (after_decide cy w s q) = ss_cfg s \<and> ss_ephemeral (after_decide cy w s q) = ss_ephemeral s \<and>
      ss_envelope_digest (after_decide cy w s q) = ss_envelope_digest s \<and> ss_embodiment_digest (after_decide cy w s q) = ss_embodiment_digest s \<and>
      ss_calibration_digest (after_decide cy w s q) = ss_calibration_digest s \<and> ss_policy_digest (after_decide cy w s q) = ss_policy_digest s \<and>
      ss_envelope_json (after_decide cy w s q) = ss_envelope_json s \<and> ss_hello_ok (after_decide cy w s q) = ss_hello_ok s \<and>
      ss_client (after_decide cy w s q) = ss_client s \<and> ss_ep (after_decide cy w s q) = ss_ep s" for w s
    by (simp add: after_decide_def remember_nonce_def split_beta Let_def split: option.split)
  show ?thesis using assms i n by (simp add: same_def k)
qed

lemma same_handoff_record:
  assumes "same s t" shows "handoff_record cy s run v n c = handoff_record cy t run v n c"
  using assms by (simp add: handoff_record_def same_def)

lemma same_tick_verdict:
  assumes "same s t" shows "tick_verdict cy s q = tick_verdict cy t q"
  using assms same_ack [OF assms] by (simp add: tick_verdict_def tick_input_def same_def)

lemma same_after_tick:
  assumes "same_ep e f" shows "same_ep (after_tick w q v ev e) (after_tick w' q v ev f)"
  using assms by (auto simp: after_tick_def resolve_pending_def same_ep_def split: option.split)

lemma same_reply:
  assumes "same s t"
  shows "verdict_view (tick_reply cy w s q v ev h) = verdict_view (tick_reply cy w' t q v ev h)"
    "is_error (tick_reply cy w s q v ev h) = is_error (tick_reply cy w' t q v ev h)"
  using assms same_ack [OF assms, of cy q]
  by (auto simp: tick_reply_def verdict_view_def verdict_msg_def err_def is_error_def same_def split: sum.split)

lemma same_episode_tick:
  assumes s: "same s t" and e: "same_ep e f"
    and h: "episode_tick cy w s e q = Some (s1, r)" "episode_tick cy w' t f q = Some (t1, r')"
  shows "same s1 t1 \<and> verdict_view r = verdict_view r' \<and> is_error r = is_error r'"
proof -
  let ?v = "tick_verdict cy s q" and ?s = "after_decide cy w s q" and ?t = "after_decide cy w' t q"
  have v: "tick_verdict cy t q = ?v" by (rule same_tick_verdict [OF s, symmetric])
  have hd: "ep_verdict_head f = ep_verdict_head e" "ep_run f = ep_run e" using e by (simp_all add: same_ep_def)
  obtain ev where ev: "tick_event (cy_sha cy) (cy_b64 cy) (ep_verdict_head e) ?v = Some ev" using tick_event_total by blast
  let ?e = "after_tick w q ?v ev e" and ?f = "after_tick w' q ?v ev f"
  have ef: "same_ep ?e ?f" by (rule same_after_tick [OF e])
  have st: "same ?s ?t" by (rule same_after_decide [OF s])
  have hr: "handoff_record cy ?t run x n c = handoff_record cy ?s run x n c" for run x n c
    by (rule same_handoff_record [OF st, symmetric])
  show ?thesis
  proof (cases "sv_handoff_seq ?v")
    case None
    have "s1 = ?s \<lparr> ss_ep := Some ?e \<rparr>" "r = tick_reply cy w s q ?v ev None"
      using h(1) None by (simp_all add: episode_tick_eq ev)
    moreover have "t1 = ?t \<lparr> ss_ep := Some ?f \<rparr>" "r' = tick_reply cy w' t q ?v ev None"
      using h(2) None by (simp_all add: episode_tick_eq v hd ev)
    ultimately show ?thesis using st ef same_reply [OF s] by (simp add: same_def)
  next
    case (Some n)
    obtain x where x: "handoff_record cy ?s (ep_run e) ?v n (te_hash ev) = Some x" using handoff_record_total by blast
    let ?up = "\<lambda>g. g \<lparr> ep_handoffs := ep_handoffs g @ [x], ep_pending_handoff := Some (length (ep_handoffs g)) \<rparr>"
    have "s1 = ?s \<lparr> ss_ep := Some (?up ?e) \<rparr>" "r = tick_reply cy w s q ?v ev (Some x)"
      using h(1) Some x by (simp_all add: episode_tick_eq ev)
    moreover have "t1 = ?t \<lparr> ss_ep := Some (?up ?f) \<rparr>" "r' = tick_reply cy w' t q ?v ev (Some x)"
      using h(2) Some x by (simp_all add: episode_tick_eq v hd ev hr)
    moreover have "same_ep (?up ?e) (?up ?f)" using ef by (simp add: same_ep_def)
    ultimately show ?thesis using st same_reply [OF s] by (simp add: same_def)
  qed
qed

text \<open>The end of an episode leaves the same session; its reply may differ when signing or writing fails.\<close>

lemma same_episode_end:
  assumes s: "same s t" and h: "episode_end ht w s e = Some (s1, r)" "episode_end ht' w' t e = Some (t1, r')"
  shows "same s1 t1 \<and> verdict_view r = verdict_view r'"
proof (cases "ss_ep s = None")
  case True
  then have "ss_ep t = None" using same_None [OF s] by simp
  then have "(s1, r) = fail s (ee_id e) ''state'' ''episode_end without an open episode''"
    "(t1, r') = fail t (ee_id e) ''state'' ''episode_end without an open episode''"
    using h True by (simp_all add: episode_end_def Let_def)
  then have "s1 = fst (fail s (ee_id e) ''state'' ''episode_end without an open episode'')" "r = err (ee_id e) ''state'' ''episode_end without an open episode''"
    "t1 = fst (fail t (ee_id e) ''state'' ''episode_end without an open episode'')" "r' = err (ee_id e) ''state'' ''episode_end without an open episode''"
    by (metis fst_conv fail_fields(12) snd_conv)+
  then show ?thesis using same_fail [OF s] by simp
next
  case False
  have closed: "\<exists>s2. fold_pending_timing (ht_crypto ht) s = Some s2 \<and> same s1 (s2 \<lparr> ss_ep := None, ss_faulted := False \<rparr>) \<and> verdict_view r = None"
    if e: "episode_end ht w s e = Some (s1, r)" "ss_ep s \<noteq> None" for ht w s s1 r
  proof -
    obtain s2 where f: "fold_pending_timing (ht_crypto ht) s = Some s2"
      using e by (auto simp: episode_end_def Let_def bind_eq_Some_conv)
    let ?s = "s2 \<lparr> ss_ep := None, ss_faulted := False \<rparr>" and ?ep = "the (ss_ep s2)" and ?cy = "ht_crypto ht"
    note d = e(1) [unfolded episode_end_def Let_def f bind.simps if_not_P [OF e(2)]]
    have "same s1 ?s \<and> verdict_view r = None"
    proof (cases "case ep_paths ?ep of Some p \<Rightarrow> ledger_head w (ss_disk ?s) (pa_ledger p) | None \<Rightarrow> Inr None")
      case (Inl m)
      then show ?thesis using d by (auto simp: same_def)
    next
      case (Inr prev)
      show ?thesis
      proof (cases "sign_receipt ?cy (receipt_body ht w ?s ?ep (ee_outcome e) prev) (ss_key ?s)")
        case (Inl c)
        then show ?thesis using d Inr by (auto simp: same_def)
      next
        case sr: (Inr sr)
        show ?thesis
        proof (cases "ep_paths ?ep")
          case None
          then show ?thesis using d Inr sr by (auto simp: same_def)
        next
          case (Some p)
          obtain dk x where x: "write_episode ?cy w (ss_disk ?s) p sr (ep_ticks ?ep) (ep_timing ?ep) = Some (dk, x)"
            using signed_write [OF sr, of w "ss_disk ?s" p "ep_ticks ?ep" "ep_timing ?ep"] by auto
          then show ?thesis using d Inr sr Some by (cases x) (auto simp: same_def)
        qed
      qed
    qed
    with f show ?thesis by blast
  qed
  have "ss_ep t \<noteq> None" using False same_None [OF s] by simp
  obtain s2 where s2: "fold_pending_timing (ht_crypto ht) s = Some s2" "same s1 (s2 \<lparr> ss_ep := None, ss_faulted := False \<rparr>)" "verdict_view r = None"
    using closed [OF h(1) False] by blast
  obtain t2 where t2: "fold_pending_timing (ht_crypto ht') t = Some t2" "same t1 (t2 \<lparr> ss_ep := None, ss_faulted := False \<rparr>)" "verdict_view r' = None"
    using closed [OF h(2) \<open>ss_ep t \<noteq> None\<close>] by blast
  have "same (s2 \<lparr> ss_ep := None, ss_faulted := False \<rparr>) (t2 \<lparr> ss_ep := None, ss_faulted := False \<rparr>)"
    using same_fold [OF s s2(1) t2(1)] by (simp add: same_def)
  then have "same s1 t1" using s2(2) t2(2) by (auto simp: same_def)
  then show ?thesis using s2(3) t2(3) by simp
qed

lemma same_dispatch:
  assumes s: "same s t" and cy: "ht_crypto ht' = ht_crypto ht"
    and h: "dispatch ht w s req = Some (s1, r)" "dispatch ht' w' t req = Some (t1, r')"
  shows "same s1 t1 \<and> verdict_view r = verdict_view r' \<and> (is_error r = is_error r' \<or> (\<exists>e. req = Req_EpisodeEnd e))"
proof (cases req)
  case (Req_Hello q)
  then have "hello s q = (s1, r)" "hello t q = (t1, r')" using h by (simp_all add: dispatch_def)
  then show ?thesis using same_hello [OF s, of q] by simp
next
  case (Req_EpisodeBegin b)
  then have "episode_begin s b = (s1, r)" "episode_begin t b = (t1, r')" using h by (simp_all add: dispatch_def)
  then show ?thesis using same_begin [OF s, of b] by simp
next
  case (Req_Tick q)
  show ?thesis
  proof (cases "ss_ep s")
    case None
    then have "ss_ep t = None" using same_None [OF s] by simp
    then have "phantom_tick s q = (s1, r)" "phantom_tick t q = (t1, r')"
      using None h Req_Tick by (simp_all add: dispatch_def tick_def)
    then show ?thesis using same_phantom [OF s None, of q] by simp
  next
    case (Some e)
    then obtain f where f: "ss_ep t = Some f" "same_ep e f" using same_epD [OF s] by blast
    have "episode_tick (ht_crypto ht) w s e q = Some (s1, r)" "episode_tick (ht_crypto ht) w' t f q = Some (t1, r')"
      using Some f h Req_Tick cy by (simp_all add: dispatch_def tick_def)
    then show ?thesis using same_episode_tick [OF s f(2)] by blast
  qed
next
  case (Req_EpisodeEnd e)
  then have "episode_end ht w s e = Some (s1, r)" "episode_end ht' w' t e = Some (t1, r')" using h by (simp_all add: dispatch_def)
  then show ?thesis using same_episode_end [OF s] Req_EpisodeEnd by blast
next
  case (Req_Bye i)
  then show ?thesis using h s by (simp add: dispatch_def)
qed

lemma same_handle:
  assumes s: "same s t" and cy: "ht_crypto ht' = ht_crypto ht"
    and h: "handle ht w s req = Some (s1, r)" "handle ht' w' t req = Some (t1, r')"
  shows "same s1 t1 \<and> verdict_view r = verdict_view r' \<and> (is_error r = is_error r' \<or> (\<exists>e. req = Req_EpisodeEnd e))"
proof -
  obtain s2 where s2: "fold_pending_timing (ht_crypto ht) s = Some s2" using h(1) by (auto simp: handle_eq bind_eq_Some_conv)
  obtain t2 where t2: "fold_pending_timing (ht_crypto ht') t = Some t2" using h(2) by (auto simp: handle_eq bind_eq_Some_conv)
  have st: "same s2 t2" by (rule same_fold [OF s s2 t2])
  then have l: "ss_last_id t2 = ss_last_id s2" by (simp add: same_def)
  show ?thesis
  proof (cases "req_id req \<le> ss_last_id s2")
    case True
    define m where "m = ''request id '' @ show_word (req_id req) @ '' is not greater than the previous id '' @ show_word (ss_last_id s2)"
    have "fail s2 (req_id req) ''protocol'' m = (s1, r)" "fail t2 (req_id req) ''protocol'' m = (t1, r')"
      using h by (simp_all only: handle_eq s2 t2 bind.simps True l if_True option.inject m_def)
    then have "fst (fail s2 (req_id req) ''protocol'' m) = s1" "snd (fail s2 (req_id req) ''protocol'' m) = r"
      "fst (fail t2 (req_id req) ''protocol'' m) = t1" "snd (fail t2 (req_id req) ''protocol'' m) = r'" by simp_all
    then show ?thesis using same_fail [OF st, of "req_id req" "''protocol''" m] by auto
  next
    case False
    then have "dispatch ht w (s2 \<lparr> ss_last_id := req_id req \<rparr>) req = Some (s1, r)"
      "dispatch ht' w' (t2 \<lparr> ss_last_id := req_id req \<rparr>) req = Some (t1, r')"
      using h by (simp_all add: handle_eq s2 t2 l)
    from same_dispatch [OF same_last_id [OF st] cy this] show ?thesis .
  qed
qed

lemma same_run:
  assumes cy: "ht_crypto ht' = ht_crypto ht"
  shows "same s t \<Longrightarrow> map snd reqs = map snd reqs' \<Longrightarrow> session_run ht s reqs = Some (s1, rs) \<Longrightarrow> session_run ht' t reqs' = Some (t1, rs') \<Longrightarrow>
     same s1 t1 \<and> map verdict_view rs = map verdict_view rs'"
proof (induction reqs arbitrary: s t reqs' rs rs')
  case (Cons a reqs)
  obtain w req where a: "a = (w, req)" by force
  obtain w' reqs2 where b: "reqs' = (w', req) # reqs2" "map snd reqs = map snd reqs2"
    using Cons.prems(2) a by (cases reqs') auto
  obtain s2 r rs2 where h: "handle ht w s req = Some (s2, r)" "session_run ht s2 reqs = Some (s1, rs2)" "rs = r # rs2"
    using Cons.prems(3) unfolding a by (rule session_run_ConsE)
  obtain t2 r' rs2' where h': "handle ht' w' t req = Some (t2, r')" "session_run ht' t2 reqs2 = Some (t1, rs2')" "rs' = r' # rs2'"
    using Cons.prems(4) unfolding b by (rule session_run_ConsE)
  have "same s2 t2" "verdict_view r = verdict_view r'" using same_handle [OF Cons.prems(1) cy h(1) h'(1)] by blast+
  then show ?case using Cons.IH [OF _ b(2) h(2) h'(2)] h(3) h'(3) by simp
qed simp

end
