(* ===== verification/Replay.thy ===== *)
theory Replay
  imports SessionClock
begin

text \<open>
  \<open>lictor-cli/src/cmd/replay.rs\<close>: a trace is fed several times through fresh sessions, and the verdict
  chains of the passes are compared.  Every pass has its own \<open>Host\<close> (a generated key, a histogram) and
  its own \<open>World\<close> per request (the clock).  The first error is kept as the message, before its text is
  formatted.
\<close>

subsection \<open>The replay\<close>

type_synonym TraceLine = "u64 \<times> string \<times> Request"

record ReplayInput =
  ri_lines :: "TraceLine list"
  ri_envelope :: SafetyEnvelope
  ri_toml_text :: string
  ri_calibration :: "CalibrationLoaded option"
  ri_mode :: FuseMode
  ri_git :: string
  ri_sha256 :: string

record Divergence =
  dv_repeat :: u32
  dv_tick :: u32
  dv_seq :: u32
  dv_first :: string
  dv_other :: string

record ReplayOutcome =
  ro_ticks :: u32
  ro_repeats :: u32
  ro_identical :: u32
  ro_verdict_chain :: string
  ro_heads :: "string list"
  ro_states :: "string \<Rightarrow> u32 option"
  ro_errors :: u32
  ro_first_error :: "ErrorMsg option"
  ro_divergence :: "Divergence option"
  ro_deterministic :: bool
  ro_expect :: "string option"
  ro_expect_ok :: "bool option"

record Pass =
  ps_chains :: "(u32 \<times> u32 \<times> string) list"
  ps_heads :: "string list"
  ps_states :: "string \<Rightarrow> u32 option"
  ps_errors :: u32
  ps_first_error :: "ErrorMsg option"

definition STATE_ORDER :: "(string \<times> Status) list" where
  "STATE_ORDER = [(''nominal'', St_Nominal), (''watching'', St_Watching), (''clamped'', St_Clamped), (''braking'', St_Braking),
     (''held'', St_Held), (''escalated'', St_Escalated), (''fault'', St_Fault), (''terminated'', St_Terminated)]"

definition state_name :: "Status \<Rightarrow> string" where
  "state_name s = (case find (\<lambda>(n, st). st = s) STATE_ORDER of Some (n, _) \<Rightarrow> n | None \<Rightarrow> ''other'')"

text \<open>\<open>SessionConfig::minimal\<close>; the default latency label comes from the operating system.\<close>

definition SessionConfig_minimal :: "Crypto \<Rightarrow> string \<Rightarrow> SafetyEnvelope \<Rightarrow> string \<Rightarrow> FuseMode \<Rightarrow> SessionConfig" where
  "SessionConfig_minimal cy label env toml_text mode =
     \<lparr> cg_envelope = env, cg_envelope_toml_sha = cy_sha cy toml_text, cg_calibration = None, cg_mode = mode,
       cg_tier0_override = None, cg_tier1 = True, cg_ticks_policy = ''tail32'', cg_key = None, cg_out_dir = None,
       cg_lictor_git = ''nogit'', cg_lictor_sha256 = ZERO_HASH, cg_latency_label = label \<rparr>"

definition bump :: "(string \<Rightarrow> u32 option) \<Rightarrow> string \<Rightarrow> (string \<Rightarrow> u32 option)" where
  "bump m k = m(k \<mapsto> (case m k of Some n \<Rightarrow> n | None \<Rightarrow> 0) + 1)"

definition pass_step :: "Response \<Rightarrow> Pass \<Rightarrow> Pass" where
  "pass_step r p = (case r of
       Resp_Verdict v \<Rightarrow> p \<lparr> ps_states := bump (ps_states p) (state_name (vm_status v)),
          ps_chains := ps_chains p @ [(vm_t v, vm_seq v, vm_chain v)] \<rparr>
     | Resp_EpisodeReceipt m \<Rightarrow> p \<lparr> ps_heads := ps_heads p @ [er_verdict_chain_head m] \<rparr>
     | Resp_Error e \<Rightarrow> p \<lparr> ps_errors := ps_errors p + 1,
          ps_first_error := (if ps_first_error p = None then Some e else ps_first_error p) \<rparr>
     | _ \<Rightarrow> p)"

fun pass_loop :: "Host \<Rightarrow> (nat \<Rightarrow> World) \<Rightarrow> nat \<Rightarrow> Session \<Rightarrow> TraceLine list \<Rightarrow> Pass \<Rightarrow> Pass option" where
  "pass_loop ht ws i s [] p = Some p"
| "pass_loop ht ws i s ((_, _, req) # lines) p =
     Option.bind (handle ht (ws i) s req) (\<lambda>(s', r). pass_loop ht ws (Suc i) s' lines (pass_step r p))"

definition no_files :: Disk where
  "no_files = \<lparr> dk_nonces = (\<lambda>_. None), dk_receipt = (\<lambda>_. None), dk_ticks = (\<lambda>_. None), dk_timing = (\<lambda>_. None),
     dk_ledger = (\<lambda>_. None) \<rparr>"

definition pass_config :: "Crypto \<Rightarrow> string \<Rightarrow> ReplayInput \<Rightarrow> SessionConfig" where
  "pass_config cy label inp = SessionConfig_minimal cy label (ri_envelope inp) (ri_toml_text inp) (ri_mode inp)
     \<lparr> cg_calibration := ri_calibration inp, cg_lictor_git := ri_git inp, cg_lictor_sha256 := ri_sha256 inp \<rparr>"

definition pass_start :: Pass where
  "pass_start = \<lparr> ps_chains = [], ps_heads = [], ps_states = map_of (map (\<lambda>(n, _). (n, 0)) STATE_ORDER), ps_errors = 0,
     ps_first_error = None \<rparr>"

definition one_pass :: "Host \<Rightarrow> string \<Rightarrow> (nat \<Rightarrow> World) \<Rightarrow> ReplayInput \<Rightarrow> (StartError + Pass) option" where
  "one_pass ht label ws inp = Option.bind (Session_new ht (ws 0) no_files (pass_config (ht_crypto ht) label inp))
     (\<lambda>r. case r of Inl e \<Rightarrow> Some (Inl e) | Inr s \<Rightarrow> map_option Inr (pass_loop ht ws 1 s (ri_lines inp) pass_start))"

definition last_or_default :: "string list \<Rightarrow> string" where
  "last_or_default xs = (if xs = [] then [] else last xs)"

text \<open>Where pass \<open>k\<close> left the first pass.\<close>

definition divergence_of :: "nat \<Rightarrow> Pass \<Rightarrow> Pass \<Rightarrow> Divergence" where
  "divergence_of k first p =
     (let z = zip (ps_chains first) (ps_chains p);
          heads = (\<lambda>t q. \<lparr> dv_repeat = of_nat k, dv_tick = t, dv_seq = q, dv_first = last_or_default (ps_heads first),
                          dv_other = last_or_default (ps_heads p) \<rparr>) in
      case find (\<lambda>(a, b). a \<noteq> b) z of
        Some (a, b) \<Rightarrow> \<lparr> dv_repeat = of_nat k, dv_tick = fst a, dv_seq = fst (snd a), dv_first = snd (snd a), dv_other = snd (snd b) \<rparr>
      | None \<Rightarrow> if z = [] then heads 0 0 else heads (fst (fst (last z))) (fst (snd (fst (last z)))))"

fun replay_loop ::
  "(nat \<Rightarrow> Host) \<Rightarrow> string \<Rightarrow> (nat \<Rightarrow> nat \<Rightarrow> World) \<Rightarrow> ReplayInput \<Rightarrow> Pass \<Rightarrow> nat list \<Rightarrow> ReplayOutcome \<Rightarrow> (StartError + ReplayOutcome) option" where
  "replay_loop hts label wss inp first [] out = Some (Inr out)"
| "replay_loop hts label wss inp first (k # ks) out = Option.bind (one_pass (hts k) label (wss k) inp) (\<lambda>r. case r of
       Inl e \<Rightarrow> Some (Inl e)
     | Inr p \<Rightarrow> replay_loop hts label wss inp first ks
         (if ps_chains p = ps_chains first \<and> ps_heads p = ps_heads first then out \<lparr> ro_identical := ro_identical out + 1 \<rparr>
          else if ro_divergence out = None then out \<lparr> ro_divergence := Some (divergence_of k first p) \<rparr> else out))"

definition replay_head :: "Pass \<Rightarrow> string" where
  "replay_head p = (if ps_heads p \<noteq> [] then last (ps_heads p)
     else if ps_chains p = [] then [] else snd (snd (last (ps_chains p))))"

definition replay ::
  "(nat \<Rightarrow> Host) \<Rightarrow> string \<Rightarrow> (nat \<Rightarrow> nat \<Rightarrow> World) \<Rightarrow> ReplayInput \<Rightarrow> u32 \<Rightarrow> (StartError + ReplayOutcome) option" where
  "replay hts label wss inp n0 =
     (let n = max n0 1 in
      Option.bind (one_pass (hts 0) label (wss 0) inp) (\<lambda>r. case r of Inl e \<Rightarrow> Some (Inl e)
      | Inr first \<Rightarrow>
          let out = \<lparr> ro_ticks = of_nat (length (ps_chains first)), ro_repeats = n, ro_identical = 1,
                ro_verdict_chain = replay_head first, ro_heads = ps_heads first, ro_states = ps_states first,
                ro_errors = ps_errors first, ro_first_error = ps_first_error first, ro_divergence = None,
                ro_deterministic = False, ro_expect = None, ro_expect_ok = None \<rparr> in
          map_option (\<lambda>r. case r of Inl e \<Rightarrow> Inl e
            | Inr out \<Rightarrow> Inr (out \<lparr> ro_deterministic := (ro_identical out = n \<and> 0 < ro_ticks out) \<rparr>))
            (replay_loop hts label wss inp first [1..<unat n] out)))"

text \<open>\<open>--expect\<close> of \<open>run\<close> (trimmed and lower-cased by the caller), and the exit code.\<close>

definition with_expect :: "string option \<Rightarrow> ReplayOutcome \<Rightarrow> ReplayOutcome" where
  "with_expect e out = (case e of None \<Rightarrow> out
     | Some h \<Rightarrow> out \<lparr> ro_expect_ok := Some (h = ro_verdict_chain out), ro_expect := Some h \<rparr>)"

definition exit_code :: "ReplayOutcome \<Rightarrow> int" where
  "exit_code out = (if ro_deterministic out \<and> (case ro_expect_ok out of None \<Rightarrow> True | Some b \<Rightarrow> b) then 0 else 1)"

subsection \<open>Every pass is the same\<close>

text \<open>Hosts of one build: only the key and the histogram may differ, and its values fit the canonical form.\<close>

definition alike :: "Host \<Rightarrow> Host \<Rightarrow> bool" where
  "alike ht ht' \<longleftrightarrow> ht_crypto ht = ht_crypto ht' \<and> ht_envelope_json ht = ht_envelope_json ht' \<and>
     ht_embodiment_json ht = ht_embodiment_json ht'"

definition bounded_hist :: "Host \<Rightarrow> bool" where
  "bounded_hist ht \<longleftrightarrow> (\<forall>h q. safe (ht_quantile ht h q)) \<and> (\<forall>h. safe (ht_max ht h))"

definition bounded_clock :: "World \<Rightarrow> bool" where
  "bounded_clock w \<longleftrightarrow> safe (wd_decide_ns w) \<and> safe (wd_now w)"

lemma safe_0 [simp]: "safe 0" by (simp add: safe_def MAX_SAFE_INTEGER_def)

lemma Session_new_same:
  assumes "alike ht ht'" "wd_json w = wd_json w'" "cg_out_dir cfg = None"
  shows "rel_option (rel_sum (=) same) (Session_new ht w dk cfg) (Session_new ht' w' dk cfg)"
proof -
  have p: "calibration_policy_digest w = calibration_policy_digest w'"
    by (rule ext) (simp add: calibration_policy_digest_def assms(2))
  have a: "ht_crypto ht' = ht_crypto ht" "ht_envelope_json ht' = ht_envelope_json ht" "ht_embodiment_json ht' = ht_embodiment_json ht"
    using assms(1) by (simp_all add: alike_def)
  show ?thesis
    unfolding Session_new_def a p assms(3)
    by (simp add: option.rel_refl bind_eq_Some_conv Let_def same_def split_beta
        split: sum.split bind_split option.split)
qed

text \<open>What a pass keeps: no output directory, no paths, and durations that can be hashed.\<close>

definition offline :: "Session \<Rightarrow> bool" where
  "offline s \<longleftrightarrow> cg_out_dir (ss_cfg s) = None \<and> (\<forall>ep. ss_ep s = Some ep \<longrightarrow> ep_paths ep = None) \<and> timing_safe s"

lemma fold_pending_paths:
  assumes "fold_pending_timing cy s = Some s1" "ss_ep s1 = Some e1"
  shows "\<exists>e. ss_ep s = Some e \<and> ep_paths e1 = ep_paths e \<and> ep_pending_timing e1 = None"
proof (cases "ss_ep s")
  case None
  then show ?thesis using assms by (simp add: fold_pending_timing_def)
next
  case (Some e)
  then show ?thesis using assms by (cases "ep_pending_timing e") (auto simp: fold_pending_timing_def)
qed

lemma fold_offline: "fold_pending_timing cy s = Some s1 \<Longrightarrow> offline s \<Longrightarrow> offline s1"
  using fold_pending_paths [of cy s s1] fold_pending_keeps(1) [of cy s s1]
  by (auto simp: offline_def fixed_def timing_safe_def split: bind_split option.split)

lemma offline_cong:
  "ss_cfg s' = ss_cfg s \<Longrightarrow> ss_ep s' = ss_ep s \<or> ss_ep s' = None \<Longrightarrow> offline s \<Longrightarrow> offline s'"
  by (auto simp: offline_def timing_safe_def)

lemma dispatch_offline:
  assumes "dispatch ht w s req = Some (s', r)" "offline s" "bounded_clock w" shows "offline s'"
proof (cases req)
  case (Req_Hello h)
  then have "fst (hello s h) = s'" using assms(1) by (simp add: dispatch_def)
  moreover have "ss_cfg (fst (hello s h)) = ss_cfg s" "ss_ep (fst (hello s h)) = ss_ep s" by (simp_all add: hello_def Let_def)
  ultimately show ?thesis using offline_cong [of s' s] assms(2) by simp
next
  case (Req_EpisodeBegin b)
  then have s': "fst (episode_begin s b) = s'" using assms(1) by (simp add: dispatch_def)
  have cfg: "ss_cfg (fst (episode_begin s b)) = ss_cfg s" by (simp add: episode_begin_def Let_def)
  have o: "cg_out_dir (ss_cfg s) = None" using assms(2) by (simp add: offline_def)
  have "ss_ep (fst (episode_begin s b)) = ss_ep s \<or>
      (\<exists>e. ss_ep (fst (episode_begin s b)) = Some e \<and> ep_paths e = None \<and> ep_pending_timing e = None)"
    by (simp add: episode_begin_def Let_def o)
  then show ?thesis
  proof
    assume "ss_ep (fst (episode_begin s b)) = ss_ep s"
    then show ?thesis using offline_cong [of s' s] assms(2) cfg s' by simp
  next
    assume "\<exists>e. ss_ep (fst (episode_begin s b)) = Some e \<and> ep_paths e = None \<and> ep_pending_timing e = None"
    then show ?thesis using cfg s' o by (auto simp: offline_def timing_safe_def)
  qed
next
  case (Req_Tick q)
  show ?thesis
  proof (cases "ss_ep s")
    case None
    then have "fst (phantom_tick s q) = s'" using assms(1) Req_Tick by (simp add: dispatch_def tick_def)
    moreover have "ss_cfg (fst (phantom_tick s q)) = ss_cfg s" "ss_ep (fst (phantom_tick s q)) = ss_ep s"
      by (simp_all add: phantom_tick_def Let_def split_beta)
    ultimately show ?thesis using offline_cong [of s' s] assms(2) by simp
  next
    case (Some ep)
    then have e: "episode_tick (ht_crypto ht) w s ep q = Some (s', r)" using assms(1) Req_Tick by (simp add: dispatch_def tick_def)
    obtain ep' where p: "ss_ep s' = Some ep'" "ep_paths ep' = ep_paths ep"
      "ep_pending_timing ep' = Some \<lparr> pt_seq = sv_seq (tick_verdict (ht_crypto ht) s q), pt_decide_ns = wd_decide_ns w, pt_io_ns = 0 \<rparr>"
      "fixed s' = fixed s"
      by (rule episode_tick_parts [OF e]) (rule that, assumption+)
    then show ?thesis
      using assms(2,3) Some by (simp add: offline_def bounded_clock_def timing_safe_def fixed_def)
  qed
next
  case (Req_EpisodeEnd q)
  then have d: "episode_end ht w s q = Some (s', r)" using assms(1) by (simp add: dispatch_def)
  show ?thesis
  proof (cases "ss_ep s")
    case None
    then show ?thesis using d assms(2) by (auto simp: episode_end_def Let_def fail_def)
  next
    case (Some ep)
    then obtain s1 where f: "fold_pending_timing (ht_crypto ht) s = Some s1"
      using d by (auto simp: episode_end_def Let_def bind_eq_Some_conv)
    note c = episode_end_closes [OF d Some f]
    have "ss_cfg s' = ss_cfg s" using c fold_pending_keeps(1) [OF f] by (simp add: fixed_def)
    then show ?thesis using offline_cong [of s' s] c assms(2) by simp
  qed
next
  case (Req_Bye i)
  then show ?thesis using assms by (simp add: dispatch_def)
qed

lemma handle_offline:
  assumes "handle ht w s req = Some (s', r)" "offline s" "bounded_clock w" shows "offline s'"
  using assms(1)
proof (cases rule: handleE)
  case (refused s1 m)
  then show ?thesis using fold_offline [OF refused(1) assms(2)] offline_cong [of s' s1] by simp
next
  case (dispatched s1)
  have "offline (s1 \<lparr> ss_last_id := req_id req \<rparr>)"
    using fold_offline [OF dispatched(1) assms(2)] offline_cong [of "s1 \<lparr> ss_last_id := req_id req \<rparr>" s1] by simp
  then show ?thesis by (rule dispatch_offline [OF dispatched(3) _ assms(3)])
qed

subsection \<open>Replies\<close>

definition head_view :: "Response \<Rightarrow> string option" where
  "head_view r = (case r of Resp_EpisodeReceipt m \<Rightarrow> Some (er_verdict_chain_head m) | _ \<Rightarrow> None)"

definition reply_same :: "Response \<Rightarrow> Response \<Rightarrow> bool" where
  "reply_same r r' \<longleftrightarrow> verdict_view r = verdict_view r' \<and> is_error r = is_error r' \<and> head_view r = head_view r'"

lemma head_view_err [simp]: "head_view (err i c m) = None"
  by (simp add: head_view_def err_def)

lemma head_view_other: "dispatch ht w s req = Some (s', r) \<Longrightarrow> \<not> (\<exists>e. req = Req_EpisodeEnd e) \<Longrightarrow> head_view r = None"
proof (cases req)
  case (Req_Tick q)
  assume d: "dispatch ht w s req = Some (s', r)"
  show ?thesis
  proof (cases "ss_ep s")
    case None
    then have "snd (phantom_tick s q) = r" using d Req_Tick by (simp add: dispatch_def tick_def)
    then show ?thesis by (auto simp: phantom_tick_def Let_def split_beta head_view_def err_def)
  next
    case (Some ep)
    then have e: "episode_tick (ht_crypto ht) w s ep q = Some (s', r)" using d Req_Tick by (simp add: dispatch_def tick_def)
    obtain event :: TickEvent and h where "r = (case snd (stage (fu_cfg (ss_fuse s)) (ss_staging s) q) of Inl m \<Rightarrow> err (tq_id q) ''schema'' m
        | Inr _ \<Rightarrow> Resp_Verdict (verdict_msg q (tick_verdict (ht_crypto ht) s q) h (snd (check_ack (ht_crypto ht) s q)) (wd_decide_ns w) (te_hash event)))"
      by (rule episode_tick_parts [OF e]) (rule that, assumption+)
    then show ?thesis by (auto simp: head_view_def err_def split: sum.split)
  qed
qed (auto simp: dispatch_def hello_def episode_begin_def Let_def fail_def head_view_def err_def split: if_splits)

text \<open>Offline, an episode ends with a receipt exactly when its body can be signed.\<close>

lemma episode_end_offline:
  assumes "fold_pending_timing (ht_crypto ht) s = Some s2" "ss_ep s2 = Some ep" "ep_paths ep = None"
    "episode_end ht w s e = Some (s', r)"
  defines "body \<equiv> receipt_body ht w (s2 \<lparr> ss_ep := None, ss_faulted := False \<rparr>) ep (ee_outcome e) None"
  shows "head_view r = (if signable body then Some (ep_verdict_head ep) else None)" "is_error r = (\<not> signable body)"
proof -
  have ne: "ss_ep s \<noteq> None" using fold_pending_keeps(9) [OF assms(1)] assms(2) by simp
  note d = assms(4) [unfolded episode_end_def Let_def assms(1) bind.simps if_not_P [OF ne] assms(2) option.sel assms(3) option.case sum.case,
      folded body_def]
  have "head_view r = (if signable body then Some (ep_verdict_head ep) else None) \<and> is_error r = (\<not> signable body)"
  proof (cases "sign_receipt (ht_crypto ht) body (ss_key (s2 \<lparr> ss_ep := None, ss_faulted := False \<rparr>))")
    case (Inl c)
    then have "\<not> signable body" using sign_receipt_iff by (metis Inl_Inr_False)
    then show ?thesis using d Inl by (auto simp: is_error_def err_def head_view_def)
  next
    case (Inr sr)
    then have s: "signable body" using sign_receipt_iff by blast
    have "sr_body sr = body" using Inr by (auto simp: sign_receipt_def map_ok_Inr split_beta)
    then have "bo_verdict_chain_head (sr_body sr) = ep_verdict_head ep" by (simp add: body_def receipt_body_parts)
    then show ?thesis using d Inr s by (auto simp: is_error_def head_view_def)
  qed
  then show "head_view r = (if signable body then Some (ep_verdict_head ep) else None)" "is_error r = (\<not> signable body)" by blast+
qed

lemma signable_same:
  assumes "same s t" "same_ep e f" "bounded_hist ht" "bounded_hist ht'" "bounded_clock w" "bounded_clock w'"
  shows "signable (receipt_body ht w s e oc pv) \<longleftrightarrow> signable (receipt_body ht' w' t f oc pv)"
  using assms by (auto simp: signable_def receipt_body_def Let_def split_beta Hist_summary_def bounded_hist_def bounded_clock_def
      same_def same_ep_def)

lemma handle_reply_same:
  assumes s: "same s t" "offline s" "offline t" and ht: "alike ht ht'" "bounded_hist ht" "bounded_hist ht'"
    and w: "bounded_clock w" "bounded_clock w'"
    and h: "handle ht w s req = Some (s1, r)" "handle ht' w' t req = Some (t1, r')"
  shows "reply_same r r'"
proof -
  have cy: "ht_crypto ht' = ht_crypto ht" using ht(1) by (simp add: alike_def)
  note v = same_handle [OF s(1) cy h]
  show ?thesis
  proof (cases "\<exists>e. req = Req_EpisodeEnd e")
    case False
    then have "is_error r = is_error r'" using v by blast
    have "head_view r = None" if "handle ht w s req = Some (s1, r)" for ht w s s1 r
      using that
    proof (cases rule: handleE)
      case (dispatched s2)
      then show ?thesis using head_view_other False by blast
    qed simp
    then have "head_view r = None" "head_view r' = None" using h by blast+
    then show ?thesis using v \<open>is_error r = is_error r'\<close> by (simp add: reply_same_def)
  next
    case True
    then obtain e where e: "req = Req_EpisodeEnd e" by blast
    obtain s2 where s2: "fold_pending_timing (ht_crypto ht) s = Some s2" using h(1) by (auto simp: handle_eq bind_eq_Some_conv)
    obtain t2 where t2: "fold_pending_timing (ht_crypto ht') t = Some t2" using h(2) by (auto simp: handle_eq bind_eq_Some_conv)
    let ?s = "s2 \<lparr> ss_last_id := ee_id e \<rparr>" and ?t = "t2 \<lparr> ss_last_id := ee_id e \<rparr>"
    have st: "same s2 t2" by (rule same_fold [OF s(1) s2 t2])
    then have l: "ss_last_id t2 = ss_last_id s2" by (simp add: same_def)
    show ?thesis
    proof (cases "ee_id e \<le> ss_last_id s2")
      case True
      have "\<exists>m. r = err (ee_id e) ''protocol'' m" "\<exists>m. r' = err (ee_id e) ''protocol'' m"
        using h True by (auto simp: handle_eq s2 t2 l e fail_def)
      then show ?thesis by (auto simp: reply_same_def is_error_def err_def head_view_def verdict_view_def)
    next
      case False
      then have d: "episode_end ht w ?s e = Some (s1, r)" "episode_end ht' w' ?t e = Some (t1, r')"
        using h by (simp_all add: handle_eq s2 t2 l e dispatch_def)
      show ?thesis
      proof (cases "ss_ep s2")
        case None
        then have "ss_ep t2 = None" using same_None [OF st] by simp
        then show ?thesis
          using d None by (auto simp: episode_end_def Let_def fail_def reply_same_def is_error_def err_def)
      next
        case (Some ep)
        obtain f where f: "ss_ep t2 = Some f" "same_ep ep f" using same_epD [OF st Some] by blast
        have p: "ep_paths ep = None" "ep_paths f = None"
          using fold_offline [OF s2 s(2)] fold_offline [OF t2 s(3)] Some f(1) by (simp_all add: offline_def)
        have fs: "fold_pending_timing (ht_crypto ht) ?s = Some ?s" "fold_pending_timing (ht_crypto ht') ?t = Some ?t"
          using fold_pending_done(1) [OF s2 Some] fold_pending_done(1) [OF t2 f(1)] Some f(1)
          by (simp_all add: fold_pending_timing_def)
        have e1: "ss_ep ?s = Some ep" "ss_ep ?t = Some f" using Some f(1) by simp_all
        note rs = episode_end_offline [OF fs(1) e1(1) p(1) d(1)] and rt = episode_end_offline [OF fs(2) e1(2) p(2) d(2)]
        have "same (?s \<lparr> ss_ep := None, ss_faulted := False \<rparr>) (?t \<lparr> ss_ep := None, ss_faulted := False \<rparr>)"
          using st by (simp add: same_def)
        note sg = signable_same [OF this f(2) ht(2,3) w, of "ee_outcome e" None]
        have "ep_verdict_head f = ep_verdict_head ep" using f(2) by (simp add: same_ep_def)
        then show ?thesis using rs rt sg v by (simp add: reply_same_def)
      qed
    qed
  qed
qed

definition pass_same :: "Pass \<Rightarrow> Pass \<Rightarrow> bool" where
  "pass_same p q \<longleftrightarrow> ps_chains p = ps_chains q \<and> ps_heads p = ps_heads q \<and> ps_states p = ps_states q \<and> ps_errors p = ps_errors q"

lemma verdict_view_parts:
  assumes "m \<lparr> vm_verdict_ns := 0 \<rparr> = (m' :: VerdictMsg) \<lparr> vm_verdict_ns := 0 \<rparr>"
  shows "vm_t m = vm_t m'" "vm_seq m = vm_seq m'" "vm_chain m = vm_chain m'" "vm_status m = vm_status m'"
proof -
  have "f (m \<lparr> vm_verdict_ns := 0 \<rparr>) = f (m' \<lparr> vm_verdict_ns := 0 \<rparr>)" for f :: "VerdictMsg \<Rightarrow> 'b" using assms by simp
  from this [of vm_t] this [of vm_seq] this [of vm_chain] this [of vm_status]
  show "vm_t m = vm_t m'" "vm_seq m = vm_seq m'" "vm_chain m = vm_chain m'" "vm_status m = vm_status m'" by simp_all
qed

lemma pass_step_same:
  assumes "reply_same r r'" "pass_same p q" shows "pass_same (pass_step r p) (pass_step r' q)"
proof (cases "\<exists>m. r = Resp_Verdict m")
  case True
  then obtain m where m: "r = Resp_Verdict m" by blast
  then obtain m' where m': "r' = Resp_Verdict m'" "m \<lparr> vm_verdict_ns := 0 \<rparr> = m' \<lparr> vm_verdict_ns := 0 \<rparr>"
    using assms(1) by (cases r') (auto simp: reply_same_def verdict_view_def)
  show ?thesis using verdict_view_parts [OF m'(2)] assms(2) m m'(1) by (simp add: pass_step_def pass_same_def)
next
  case False
  then show ?thesis
    using assms by (cases r; cases r') (auto simp: reply_same_def verdict_view_def is_error_def head_view_def pass_step_def pass_same_def)
qed

lemma pass_loop_same:
  assumes ht: "alike ht ht'" "bounded_hist ht" "bounded_hist ht'" and w: "\<forall>i. bounded_clock (ws i)" "\<forall>i. bounded_clock (ws' i)"
  shows "same s t \<Longrightarrow> offline s \<Longrightarrow> offline t \<Longrightarrow> pass_same p q \<Longrightarrow>
    \<exists>p' q'. pass_loop ht ws i s lines p = Some p' \<and> pass_loop ht' ws' i t lines q = Some q' \<and> pass_same p' q'"
proof (induction lines arbitrary: i s t p q)
  case (Cons a lines)
  obtain n raw req where a: "a = (n, raw, req)" by (cases a) auto
  have cy: "ht_crypto ht' = ht_crypto ht" using ht(1) by (simp add: alike_def)
  have "timing_safe s" "timing_safe t" using Cons.prems by (simp_all add: offline_def)
  then obtain s1 r t1 r' where h: "handle ht (ws i) s req = Some (s1, r)" "handle ht' (ws' i) t req = Some (t1, r')"
    using handle_total [of ht "ws i" s req] handle_total [of ht' "ws' i" t req] by auto
  have wi: "bounded_clock (ws i)" "bounded_clock (ws' i)" using w by simp_all
  have "same s1 t1" using same_handle [OF Cons.prems(1) cy h] by blast
  moreover have "offline s1" "offline t1" using handle_offline h wi Cons.prems(2,3) by blast+
  moreover have "pass_same (pass_step r p) (pass_step r' q)"
    by (rule pass_step_same [OF handle_reply_same [OF Cons.prems(1-3) ht wi h] Cons.prems(4)])
  ultimately show ?case using Cons.IH by (simp add: a h)
qed simp

lemma same_refl: "same s s"
  by (cases "ss_ep s") (simp_all add: same_def same_ep_def)

text \<open>One pass never panics once the session starts, and every other pass repeats it.\<close>

lemma one_pass_same:
  assumes "alike ht ht'" "bounded_hist ht" "bounded_hist ht'" "\<forall>i. bounded_clock (ws i)" "\<forall>i. bounded_clock (ws' i)"
    "wd_json (ws 0) = wd_json (ws' 0)" "Session_new ht (ws 0) no_files (pass_config (ht_crypto ht) label inp) = Some (Inr s)"
  shows "\<exists>p q. one_pass ht label ws inp = Some (Inr p) \<and> one_pass ht' label ws' inp = Some (Inr q) \<and> pass_same p q"
proof -
  have o: "cg_out_dir (pass_config (ht_crypto ht) label inp) = None" by (simp add: pass_config_def SessionConfig_minimal_def)
  have cy: "ht_crypto ht' = ht_crypto ht" using assms(1) by (simp add: alike_def)
  have "rel_option (rel_sum (=) same) (Some (Inr s)) (Session_new ht' (ws' 0) no_files (pass_config (ht_crypto ht) label inp))"
    using Session_new_same [OF assms(1,6) o, of no_files] assms(7) by simp
  then obtain t where t: "Session_new ht' (ws' 0) no_files (pass_config (ht_crypto ht) label inp) = Some (Inr t)" "same s t"
    by (auto elim!: option.rel_cases rel_sum.cases)
  have off: "offline s" "offline t"
    using Session_new_inv(3) [OF assms(7)] Session_new_inv(3) [OF t(1)] Session_new_inv(4) [OF assms(7)] Session_new_inv(4) [OF t(1)] o
    by (simp_all add: offline_def timing_safe_def)
  have "pass_same pass_start pass_start" by (simp add: pass_same_def)
  from pass_loop_same [OF assms(1-5) t(2) off this, of 1 "ri_lines inp"]
  show ?thesis by (auto simp: one_pass_def assms(7) t(1) cy)
qed

lemma replay_loop_same:
  assumes "\<And>k. k \<in> set ks \<Longrightarrow> \<exists>q. one_pass (hts k) label (wss k) inp = Some (Inr q) \<and> ps_chains q = ps_chains first \<and> ps_heads q = ps_heads first"
  shows "replay_loop hts label wss inp first ks out = Some (Inr (out \<lparr> ro_identical := ro_identical out + of_nat (length ks) \<rparr>))"
  using assms
proof (induction ks arbitrary: out)
  case (Cons k ks)
  obtain q where "one_pass (hts k) label (wss k) inp = Some (Inr q)" "ps_chains q = ps_chains first" "ps_heads q = ps_heads first"
    using Cons.prems [of k] by auto
  then show ?case using Cons by (simp add: ac_simps)
qed simp

lemma replay_identical:
  assumes "\<forall>k. alike (hts 0) (hts k) \<and> bounded_hist (hts k)" "\<forall>k i. bounded_clock (wss k i)" "\<forall>k. wd_json (wss k 0) = wd_json (wss 0 0)"
    "Session_new (hts 0) (wss 0 0) no_files (pass_config (ht_crypto (hts 0)) label inp) = Some (Inr s)"
  shows "\<exists>out. replay hts label wss inp n = Some (Inr out) \<and> ro_divergence out = None \<and> ro_identical out = ro_repeats out \<and>
    ro_repeats out = max n 1 \<and> ro_deterministic out = (0 < ro_ticks out)"
proof -
  have p: "\<exists>p q. one_pass (hts 0) label (wss 0) inp = Some (Inr p) \<and> one_pass (hts k) label (wss k) inp = Some (Inr q) \<and> pass_same p q" for k
    by (rule one_pass_same) (use assms assms(3) [rule_format, symmetric] in simp_all)
  obtain first where f: "one_pass (hts 0) label (wss 0) inp = Some (Inr first)" using p by blast
  have q: "\<exists>q. one_pass (hts k) label (wss k) inp = Some (Inr q) \<and> ps_chains q = ps_chains first \<and> ps_heads q = ps_heads first" for k
    using p [of k] f by (auto simp: pass_same_def)
  let ?n = "max n 1"
  have "0 < ?n" by (auto simp: max_def word_gt_0 not_le)
  then have "0 < unat ?n" by (simp add: unat_gt_0)
  then have "1 + of_nat (unat ?n - 1) = ?n" by (simp add: of_nat_diff)
  then show ?thesis
    by (simp add: replay_def f Let_def replay_loop_same [OF q])
qed

end
