(* ===== verification/DemoReplay.thy ===== *)
theory DemoReplay
  imports DemoSession Replay
begin

text \<open>A trace of the demo session: an episode that is opened and a tick.\<close>

definition demo_replay :: ReplayInput where
  "demo_replay = \<lparr> ri_lines = [(2, ''x'', Req_EpisodeBegin demo_begin), (3, ''y'', Req_Tick (demo_tick_req 2 None))],
     ri_envelope = demo_env, ri_toml_text = ''t'', ri_calibration = None, ri_mode = Enforce, ri_git = ''g'', ri_sha256 = ''h'' \<rparr>"

definition slow_world :: World where
  "slow_world = demo_world \<lparr> wd_decide_ns := 7, wd_now := 9 \<rparr>"

lemma demo_replay_starts:
  "\<exists>s. Session_new demo_host demo_world no_files (pass_config demo_crypto ''l'' demo_replay) = Some (Inr s)"
proof -
  obtain cfg where c: "SafetyEnvelope_compile (\<lambda>_. ''null'') (\<lambda>_. ''null'') demo_env Enforce None = Inr cfg"
    using demo_compile by blast
  show ?thesis
    by (simp add: Session_new_def demo_host_def pass_config_def SessionConfig_minimal_def demo_replay_def demo_env_valid demo_digest_null c)
qed

lemma slow_json [simp]: "wd_json slow_world = wd_json demo_world" by (simp add: slow_world_def)

lemma demo_alike: "alike demo_host demo_host" "bounded_hist demo_host" "bounded_clock demo_world" "bounded_clock slow_world"
  by (simp_all add: alike_def bounded_hist_def bounded_clock_def demo_host_def demo_world_def slow_world_def safe_def MAX_SAFE_INTEGER_def)

lemma demo_ticked_twice:
  obtains s s' m t' m' where "handle demo_host demo_world s (Req_Tick (demo_tick_req 2 None)) = Some (s', Resp_Verdict m)"
    "handle demo_host slow_world s (Req_Tick (demo_tick_req 2 None)) = Some (t', Resp_Verdict m')"
    "vm_verdict_ns m = 0" "vm_verdict_ns m' = 7"
proof -
  obtain s0 s r where s: "session_reach demo_host s" "demo_opened s" by (rule demo_open)
  note o = demo_opened_ready [OF s(2)]
  have l: "ss_last_id s < tq_id (demo_tick_req 2 None)" by (simp add: o demo_tick_req_def word_less_nat_alt)
  have w: "safe (wd_decide_ns slow_world)" using demo_alike by (simp add: bounded_clock_def)
  obtain s' m t' m' where "handle demo_host demo_world s (Req_Tick (demo_tick_req 2 None)) = Some (s', Resp_Verdict m)"
    "vm_verdict_ns m = wd_decide_ns demo_world"
    "handle demo_host slow_world s (Req_Tick (demo_tick_req 2 None)) = Some (t', Resp_Verdict m')"
    "vm_verdict_ns m' = wd_decide_ns slow_world"
    using tick_answered [OF o(2,1) l o(4) demo_world_safe, of demo_host] tick_answered [OF o(2,1) l o(4) w, of demo_host] by blast
  then show thesis by (intro that) (simp_all add: slow_world_def)
qed

end
