(* ===== verification/Reader.thy ===== *)
theory Reader
  imports Serial
begin

text \<open>
  How \<open>serde\<close> reads the values that \<open>Serial\<close> writes: the derived \<open>Deserialize\<close> of a struct takes an
  object, in which a known field may not occur twice, or an array of all the fields in order; \<open>null\<close> or an
  absent field is the \<open>None\<close> of an \<open>Option\<close>; an integer must fit its type.  A reader returns \<open>None\<close> where
  serde returns an error.  Each reader inverts its writer.
\<close>

subsection \<open>Structs\<close>

definition struct_fields :: "string list \<Rightarrow> Value \<Rightarrow> (string \<Rightarrow> Value option) option" where
  "struct_fields names v = (case v of
       VObj m \<Rightarrow> if distinct (filter (\<lambda>k. k \<in> set names) (map fst m)) then Some (map_of m) else None
     | VArr a \<Rightarrow> if length a = length names then Some (map_of (zip names a)) else None
     | _ \<Rightarrow> None)"

text \<open>\<open>deny_unknown_fields\<close>.\<close>

definition strict_fields :: "string list \<Rightarrow> Value \<Rightarrow> (string \<Rightarrow> Value option) option" where
  "strict_fields names v = (case v of
       VObj m \<Rightarrow> if list_all (\<lambda>(k, _). k \<in> set names) m then struct_fields names v else None
     | _ \<Rightarrow> struct_fields names v)"

definition field :: "(string \<Rightarrow> Value option) \<Rightarrow> string \<Rightarrow> (Value \<Rightarrow> 'a option) \<Rightarrow> 'a option" where
  "field m k f = Option.bind (m k) f"

subsection \<open>Scalars\<close>

definition read_str :: "Value \<Rightarrow> string option" where
  "read_str v = (case v of VStr s \<Rightarrow> Some s | _ \<Rightarrow> None)"

definition read_num :: "Value \<Rightarrow> 'a::len word option" where
  "read_num v = (case v of VNum (NInt i) \<Rightarrow> if 0 \<le> i \<and> i < 2 ^ LENGTH('a) then Some (word_of_int i) else None | _ \<Rightarrow> None)"

definition read_list :: "(Value \<Rightarrow> 'a option) \<Rightarrow> Value \<Rightarrow> 'a list option" where
  "read_list f v = (case v of VArr a \<Rightarrow> those (map f a) | _ \<Rightarrow> None)"

definition read_pair :: "(Value \<Rightarrow> 'a option) \<Rightarrow> Value \<Rightarrow> ('a \<times> 'a) option" where
  "read_pair f v = (case v of
       VArr [a, b] \<Rightarrow> Option.bind (f a) (\<lambda>x. map_option (Pair x) (f b))
     | _ \<Rightarrow> None)"

definition read_opt :: "(Value \<Rightarrow> 'a option) \<Rightarrow> Value \<Rightarrow> 'a option option" where
  "read_opt f v = (if v = VNull then Some None else map_option Some (f v))"

definition opt_field :: "(string \<Rightarrow> Value option) \<Rightarrow> string \<Rightarrow> (Value \<Rightarrow> 'a option) \<Rightarrow> 'a option option" where
  "opt_field m k f = (case m k of None \<Rightarrow> Some None | Some v \<Rightarrow> read_opt f v)"

definition ok_of :: "'e + 'a \<Rightarrow> 'a option" where
  "ok_of r = (case r of Inl _ \<Rightarrow> None | Inr x \<Rightarrow> Some x)"

definition read_F64Hex :: "Value \<Rightarrow> f64 option" where
  "read_F64Hex v = Option.bind (strict_fields [''f64''] v) (\<lambda>m.
     Option.bind (field m ''f64'' read_str) (\<lambda>s. ok_of (f64_from_hex s)))"

definition read_F64Array :: "(string \<Rightarrow> u8 list option) \<Rightarrow> Value \<Rightarrow> F64Array option" where
  "read_F64Array dec v = Option.bind (strict_fields [''f64a'', ''shape''] v) (\<lambda>m.
     Option.bind (field m ''f64a'' read_str) (\<lambda>f64a.
     Option.bind (field m ''shape'' (read_list read_num)) (\<lambda>shape.
     ok_of (F64Array_from_wire dec f64a shape))))"

subsection \<open>Each reader inverts its writer\<close>

named_theorems reads "what a reader makes of a written value"

lemma map_of_sorted: "distinct (map fst fs) \<Longrightarrow> map_of (sort_key fst fs) = map_of fs"
  by (subst map_of_inject_set) (simp_all add: distinct_map)

lemma struct_fields_written [reads]:
  "distinct (map fst fs) \<Longrightarrow> struct_fields names (struct_value fs) = Some (map_of fs)"
  by (simp add: struct_fields_def struct_value_def map_of_sorted distinct_map)

lemma strict_fields_written [reads]:
  "distinct (map fst fs) \<Longrightarrow> set (map fst fs) \<subseteq> set names \<Longrightarrow> strict_fields names (struct_value fs) = Some (map_of fs)"
  using struct_fields_written [of fs names]
  by (auto simp: strict_fields_def struct_value_def list_all_iff)

lemma read_str_written [reads]: "read_str (VStr s) = Some s"
  by (simp add: read_str_def)

lemma read_num_written [reads]: "read_num (num w) = Some w"
  using uint_bounded [of w] by (simp add: read_num_def num_def)

lemma those_map_Some: "(\<And>x. x \<in> set xs \<Longrightarrow> f (g x) = Some x) \<Longrightarrow> those (map (\<lambda>x. f (g x)) xs) = Some xs"
  by (induction xs) simp_all

lemma read_list_written:
  "(\<And>x. x \<in> set xs \<Longrightarrow> f (g x) = Some x) \<Longrightarrow> read_list f (VArr (map g xs)) = Some xs"
  by (simp add: read_list_def comp_def those_map_Some)

lemma read_strings_written [reads]: "read_list read_str (strings xs) = Some xs"
  by (simp add: strings_def read_list_written read_str_written)

lemma read_nums_written [reads]: "read_list read_num (VArr (map num ws)) = Some ws"
  by (simp add: read_list_written read_num_written)

lemma read_pair_written [reads]: "read_pair read_num (VArr [num a, num b]) = Some (a, b)"
  by (simp add: read_pair_def read_num_written)

lemma read_opt_written [reads]:
  "(\<And>x. f (g x) = Some x) \<Longrightarrow> (\<And>x. g x \<noteq> VNull) \<Longrightarrow> read_opt f (opt g y) = Some y"
  by (simp add: read_opt_def opt_def split: option.split)

lemma read_F64Hex_written [reads]: "read_F64Hex (F64Hex x) = Some x"
  by (simp add: read_F64Hex_def F64Hex_def strict_fields_def struct_fields_def field_def read_str_def ok_of_def f64_hex_round_trip)

lemma read_F64Array_written [reads]:
  assumes "\<And>bs. dec (b64 bs) = Some bs" "shape_product (fa_shape a) = Some (length (fa_data a))"
  shows "read_F64Array dec (F64Array_value b64 a) = Some a"
  by (simp add: read_F64Array_def F64Array_value_def reads field_def F64Array_round_trip [OF assms] ok_of_def)

end
