(* ===== verification/CalibFile.thy ===== *)
theory CalibFile
  imports Reader Session Signable
begin

text \<open>
  \<open>lictor-calib/src/file.rs\<close>: the self-digesting calibration file, its checks on loading, its text on
  saving, and the expansion into the table the decision path indexes.  The JSON parser (objects in
  document order) and the pretty printer of \<open>serde_json\<close>, the base64 decoder and the bytes on disk are
  parameters.
\<close>

subsection \<open>The file\<close>

record SeedPool =
  sp_name :: string
  sp_lo :: u64
  sp_hi :: u64

record Tier0Percentiles =
  tp_v_max :: f64
  tp_a_max :: f64
  tp_j_max :: f64
  tp_reach_max :: f64
  tp_q :: f64

record CalibrationFile =
  cf_schema :: string
  cf_canonical :: string
  cf_method :: CalMethod
  cf_alpha_num :: u32
  cf_alpha_den :: u32
  cf_n_total :: u32
  cf_n_scale :: u32
  cf_n_calib :: u32
  cf_n_holdout :: u32
  cf_split :: string
  cf_seed_pool :: SeedPool
  cf_source_run :: string
  cf_source_arm :: string
  cf_envelope_digest :: string
  cf_embodiment_digest :: string
  cf_policy_digest :: string
  cf_lictor_git :: string
  cf_horizon_ticks :: u32
  cf_t_grid :: u16
  cf_feature_ids :: "string list"
  cf_mask :: u32
  cf_gate :: "string list"
  cf_center :: F64Array
  cf_scale :: F64Array
  cf_tau :: f64
  cf_kn :: "u8 \<times> u8"
  cf_warn_margin :: f64
  cf_holdout_fpr :: f64
  cf_holdout_fpr_k1 :: f64
  cf_tier0_percentiles :: "Tier0Percentiles option"
  cf_notes :: "string list"
  cf_digest :: string

definition CALIBRATION_SCHEMA :: string where "CALIBRATION_SCHEMA = ''lictor-calibration/v1''"

subsection \<open>Writing\<close>

fun CalMethod_name :: "CalMethod \<Rightarrow> string" where
  "CalMethod_name StaticCal = ''static''"
| "CalMethod_name BinnedCal = ''binned''"

definition SeedPool_value :: "SeedPool \<Rightarrow> Value" where
  "SeedPool_value p = struct_value [(''name'', VStr (sp_name p)), (''lo'', num (sp_lo p)), (''hi'', num (sp_hi p))]"

definition Tier0Percentiles_value :: "Tier0Percentiles \<Rightarrow> Value" where
  "Tier0Percentiles_value p = struct_value [(''v_max'', F64Hex (tp_v_max p)), (''a_max'', F64Hex (tp_a_max p)),
     (''j_max'', F64Hex (tp_j_max p)), (''reach_max'', F64Hex (tp_reach_max p)), (''q'', F64Hex (tp_q p))]"

definition CalibrationFile_fields :: "(u8 list \<Rightarrow> string) \<Rightarrow> CalibrationFile \<Rightarrow> (string \<times> Value) list" where
  "CalibrationFile_fields b64 f =
     [(''schema'', VStr (cf_schema f)), (''canonical'', VStr (cf_canonical f)), (''method'', VStr (CalMethod_name (cf_method f))),
      (''alpha_num'', num (cf_alpha_num f)), (''alpha_den'', num (cf_alpha_den f)), (''n_total'', num (cf_n_total f)),
      (''n_scale'', num (cf_n_scale f)), (''n_calib'', num (cf_n_calib f)), (''n_holdout'', num (cf_n_holdout f)),
      (''split'', VStr (cf_split f)), (''seed_pool'', SeedPool_value (cf_seed_pool f)), (''source_run'', VStr (cf_source_run f)),
      (''source_arm'', VStr (cf_source_arm f)), (''envelope_digest'', VStr (cf_envelope_digest f)),
      (''embodiment_digest'', VStr (cf_embodiment_digest f)), (''policy_digest'', VStr (cf_policy_digest f)),
      (''lictor_git'', VStr (cf_lictor_git f)), (''horizon_ticks'', num (cf_horizon_ticks f)), (''t_grid'', num (cf_t_grid f)),
      (''feature_ids'', strings (cf_feature_ids f)), (''mask'', num (cf_mask f)), (''gate'', strings (cf_gate f)),
      (''center'', F64Array_value b64 (cf_center f)), (''scale'', F64Array_value b64 (cf_scale f)), (''tau'', F64Hex (cf_tau f)),
      (''kn'', VArr [num (fst (cf_kn f)), num (snd (cf_kn f))]), (''warn_margin'', F64Hex (cf_warn_margin f)),
      (''holdout_fpr'', F64Hex (cf_holdout_fpr f)), (''holdout_fpr_k1'', F64Hex (cf_holdout_fpr_k1 f)),
      (''tier0_percentiles'', opt Tier0Percentiles_value (cf_tier0_percentiles f)), (''notes'', strings (cf_notes f)),
      (''digest'', VStr (cf_digest f))]"

definition CalibrationFile_value :: "(u8 list \<Rightarrow> string) \<Rightarrow> CalibrationFile \<Rightarrow> Value" where
  "CalibrationFile_value b64 f = struct_value (CalibrationFile_fields b64 f)"

text \<open>\<open>sha256(canon(self with digest = ""))\<close>.\<close>

definition CalibrationFile_digest_hex :: "Crypto \<Rightarrow> CalibrationFile \<Rightarrow> CanonError + string" where
  "CalibrationFile_digest_hex cy f = digest_of (cy_sha cy) (CalibrationFile_value (cy_b64 cy) (f \<lparr> cf_digest := [] \<rparr>))"

definition pretty_sorted :: "(Value \<Rightarrow> string) \<Rightarrow> Value \<Rightarrow> string" where
  "pretty_sorted pretty v = pretty v @ [CHR 0x0A]"

text \<open>\<open>save\<close> up to the write: the file it writes and its text.\<close>

definition CalibrationFile_save :: "Crypto \<Rightarrow> (Value \<Rightarrow> string) \<Rightarrow> CalibrationFile \<Rightarrow> CanonError + CalibrationFile \<times> string" where
  "CalibrationFile_save cy pretty f =
     (let g = f \<lparr> cf_schema := CALIBRATION_SCHEMA, cf_canonical := CANONICAL_ID \<rparr> in
      map_ok (\<lambda>d. let h = g \<lparr> cf_digest := d \<rparr> in (h, pretty_sorted pretty (CalibrationFile_value (cy_b64 cy) h)))
        (CalibrationFile_digest_hex cy g))"

subsection \<open>Reading\<close>

definition read_CalMethod :: "Value \<Rightarrow> CalMethod option" where
  "read_CalMethod v = Option.bind (case v of VStr s \<Rightarrow> Some s | VObj [(s, VNull)] \<Rightarrow> Some s | _ \<Rightarrow> None)
     (\<lambda>s. if s = ''static'' then Some StaticCal else if s = ''binned'' then Some BinnedCal else None)"

definition read_SeedPool :: "Value \<Rightarrow> SeedPool option" where
  "read_SeedPool v = Option.bind (struct_fields [''name'', ''lo'', ''hi''] v) (\<lambda>m.
     Option.bind (field m ''name'' read_str) (\<lambda>name. Option.bind (field m ''lo'' read_num) (\<lambda>lo.
     Option.bind (field m ''hi'' read_num) (\<lambda>hi. Some \<lparr> sp_name = name, sp_lo = lo, sp_hi = hi \<rparr>))))"

definition read_Tier0Percentiles :: "Value \<Rightarrow> Tier0Percentiles option" where
  "read_Tier0Percentiles v = Option.bind (struct_fields [''v_max'', ''a_max'', ''j_max'', ''reach_max'', ''q''] v) (\<lambda>m.
     Option.bind (field m ''v_max'' read_F64Hex) (\<lambda>v. Option.bind (field m ''a_max'' read_F64Hex) (\<lambda>a.
     Option.bind (field m ''j_max'' read_F64Hex) (\<lambda>j. Option.bind (field m ''reach_max'' read_F64Hex) (\<lambda>r.
     Option.bind (field m ''q'' read_F64Hex) (\<lambda>q.
     Some \<lparr> tp_v_max = v, tp_a_max = a, tp_j_max = j, tp_reach_max = r, tp_q = q \<rparr>))))))"

definition CALIBRATION_FIELDS :: "string list" where
  "CALIBRATION_FIELDS = [''schema'', ''canonical'', ''method'', ''alpha_num'', ''alpha_den'', ''n_total'', ''n_scale'', ''n_calib'',
     ''n_holdout'', ''split'', ''seed_pool'', ''source_run'', ''source_arm'', ''envelope_digest'', ''embodiment_digest'',
     ''policy_digest'', ''lictor_git'', ''horizon_ticks'', ''t_grid'', ''feature_ids'', ''mask'', ''gate'', ''center'', ''scale'',
     ''tau'', ''kn'', ''warn_margin'', ''holdout_fpr'', ''holdout_fpr_k1'', ''tier0_percentiles'', ''notes'', ''digest'']"

definition CalibrationFile_read :: "(string \<Rightarrow> u8 list option) \<Rightarrow> Value \<Rightarrow> CalibrationFile option" where
  "CalibrationFile_read dec v =
     Option.bind (struct_fields CALIBRATION_FIELDS v) (\<lambda>m.
     Option.bind (field m ''schema'' read_str) (\<lambda>schema. Option.bind (field m ''canonical'' read_str) (\<lambda>canonical.
     Option.bind (field m ''method'' read_CalMethod) (\<lambda>method. Option.bind (field m ''alpha_num'' read_num) (\<lambda>alpha_num.
     Option.bind (field m ''alpha_den'' read_num) (\<lambda>alpha_den. Option.bind (field m ''n_total'' read_num) (\<lambda>n_total.
     Option.bind (field m ''n_scale'' read_num) (\<lambda>n_scale. Option.bind (field m ''n_calib'' read_num) (\<lambda>n_calib.
     Option.bind (field m ''n_holdout'' read_num) (\<lambda>n_holdout. Option.bind (field m ''split'' read_str) (\<lambda>split.
     Option.bind (field m ''seed_pool'' read_SeedPool) (\<lambda>seed_pool. Option.bind (field m ''source_run'' read_str) (\<lambda>source_run.
     Option.bind (field m ''source_arm'' read_str) (\<lambda>source_arm. Option.bind (field m ''envelope_digest'' read_str) (\<lambda>envelope_digest.
     Option.bind (field m ''embodiment_digest'' read_str) (\<lambda>embodiment_digest.
     Option.bind (field m ''policy_digest'' read_str) (\<lambda>policy_digest. Option.bind (field m ''lictor_git'' read_str) (\<lambda>lictor_git.
     Option.bind (field m ''horizon_ticks'' read_num) (\<lambda>horizon_ticks. Option.bind (field m ''t_grid'' read_num) (\<lambda>t_grid.
     Option.bind (field m ''feature_ids'' (read_list read_str)) (\<lambda>feature_ids. Option.bind (field m ''mask'' read_num) (\<lambda>mask.
     Option.bind (field m ''gate'' (read_list read_str)) (\<lambda>gate. Option.bind (field m ''center'' (read_F64Array dec)) (\<lambda>center.
     Option.bind (field m ''scale'' (read_F64Array dec)) (\<lambda>scale. Option.bind (field m ''tau'' read_F64Hex) (\<lambda>tau.
     Option.bind (field m ''kn'' (read_pair read_num)) (\<lambda>kn. Option.bind (field m ''warn_margin'' read_F64Hex) (\<lambda>warn_margin.
     Option.bind (field m ''holdout_fpr'' read_F64Hex) (\<lambda>holdout_fpr.
     Option.bind (field m ''holdout_fpr_k1'' read_F64Hex) (\<lambda>holdout_fpr_k1.
     Option.bind (opt_field m ''tier0_percentiles'' read_Tier0Percentiles) (\<lambda>tier0_percentiles.
     Option.bind (field m ''notes'' (read_list read_str)) (\<lambda>notes. Option.bind (field m ''digest'' read_str) (\<lambda>digest.
     Some \<lparr> cf_schema = schema, cf_canonical = canonical, cf_method = method, cf_alpha_num = alpha_num, cf_alpha_den = alpha_den,
       cf_n_total = n_total, cf_n_scale = n_scale, cf_n_calib = n_calib, cf_n_holdout = n_holdout, cf_split = split,
       cf_seed_pool = seed_pool, cf_source_run = source_run, cf_source_arm = source_arm, cf_envelope_digest = envelope_digest,
       cf_embodiment_digest = embodiment_digest, cf_policy_digest = policy_digest, cf_lictor_git = lictor_git,
       cf_horizon_ticks = horizon_ticks, cf_t_grid = t_grid, cf_feature_ids = feature_ids, cf_mask = mask, cf_gate = gate,
       cf_center = center, cf_scale = scale, cf_tau = tau, cf_kn = kn, cf_warn_margin = warn_margin, cf_holdout_fpr = holdout_fpr,
       cf_holdout_fpr_k1 = holdout_fpr_k1, cf_tier0_percentiles = tier0_percentiles, cf_notes = notes, cf_digest = digest \<rparr>)))))))))))))))))))))))))))))))))"

datatype CalibFileError = CF_Io | CF_Parse | CF_Schema string | CF_Canonical string | CF_Canon CanonError
  | CF_Digest string string | CF_Compile string

text \<open>\<open>text\<close> is what \<open>read_to_string\<close> returns, \<^term>\<open>None\<close> its error.\<close>

definition CalibrationFile_load ::
  "Crypto \<Rightarrow> (string \<Rightarrow> Value option) \<Rightarrow> (string \<Rightarrow> u8 list option) \<Rightarrow> string option \<Rightarrow> CalibFileError + CalibrationFile" where
  "CalibrationFile_load cy json dec txt =
     (case txt of None \<Rightarrow> Inl CF_Io | Some t \<Rightarrow>
      (case Option.bind (json t) (CalibrationFile_read dec) of None \<Rightarrow> Inl CF_Parse | Some f \<Rightarrow>
       fail_if (cf_schema f \<noteq> CALIBRATION_SCHEMA) (CF_Schema (cf_schema f)) (
       fail_if (cf_canonical f \<noteq> CANONICAL_ID) (CF_Canonical (cf_canonical f)) (
       (case CalibrationFile_digest_hex cy f of Inl e \<Rightarrow> Inl (CF_Canon e)
        | Inr d \<Rightarrow> fail_if (d \<noteq> cf_digest f) (CF_Digest (cf_digest f) d) (Inr f))))))"

subsection \<open>The hot-path table\<close>

definition strict_nib :: "char \<Rightarrow> u8 option" where
  "strict_nib c = (if CHR ''0'' \<le> c \<and> c \<le> CHR ''9'' then Some (of_char c - 48)
     else if CHR ''a'' \<le> c \<and> c \<le> CHR ''f'' then Some (of_char c - 97 + 10)
     else if CHR ''A'' \<le> c \<and> c \<le> CHR ''F'' then Some (of_char c - 65 + 10)
     else None)"

definition strict_hex32 :: "string \<Rightarrow> u8 list option" where
  "strict_hex32 s = (if length s \<noteq> 64 then None
     else those (map (\<lambda>i. Option.bind (strict_nib (s ! (2 * i))) (\<lambda>h. map_option (\<lambda>l. push_bit 4 h OR l) (strict_nib (s ! (2 * i + 1)))))
       [0..<32]))"

definition array_ok :: "u16 \<Rightarrow> F64Array \<Rightarrow> bool" where
  "array_ok t_grid a \<longleftrightarrow> fa_shape a = [ucast t_grid, of_nat NFEAT] \<and> length (fa_data a) = unat t_grid * NFEAT"

definition check_array :: "string \<Rightarrow> u16 \<Rightarrow> F64Array \<Rightarrow> string + unit" where
  "check_array name t_grid a =
     fail_if (\<not> array_ok t_grid a) (name @ '': shape'') (
     fail_if (\<not> list_all is_finite (fa_data a)) (name @ '': non-finite entry'') (Inr ()))"

definition table_rows :: "nat \<Rightarrow> f64 \<Rightarrow> f64 list \<Rightarrow> f64 list list" where
  "table_rows tg rest xs =
     map (\<lambda>b. map (\<lambda>j. if b < tg then xs ! (b * NFEAT + j) else rest) [0..<NFEAT]) [0..<T_GRID]"

definition CalibrationFile_compile :: "CalibrationFile \<Rightarrow> string + CalibrationC" where
  "CalibrationFile_compile f =
     (let tg = unat (cf_t_grid f) in
      fail_if (tg \<noteq> 1 \<and> tg \<noteq> T_GRID) ''t_grid'' (
      fail_if (\<not> (cf_method f = StaticCal \<and> tg = 1 \<or> cf_method f = BinnedCal \<and> tg = T_GRID)) ''method'' (
      fail_if (cf_horizon_ticks f = 0) ''horizon_ticks must be > 0'' (
      and_then (check_array ''center'' (cf_t_grid f) (cf_center f)) (\<lambda>_.
      and_then (check_array ''scale'' (cf_t_grid f) (cf_scale f)) (\<lambda>_.
      fail_if (list_ex (\<lambda>x. x \<le> 0) (fa_data (cf_scale f))) ''scale: every entry must be > 0'' (
      fail_if (cf_feature_ids f \<noteq> Feat_NAMES) ''feature_ids'' (
      (case GateSpec_parse (cf_gate f) of Inl e \<Rightarrow> Inl ''gate'' | Inr gate \<Rightarrow>
      fail_if (GateSpec_mask gate \<noteq> cf_mask f) ''mask'' (
      fail_if (fst (cf_kn f) = 0 \<or> snd (cf_kn f) < fst (cf_kn f) \<or> 63 < snd (cf_kn f)) ''kn'' (
      fail_if (cf_alpha_den f = 0 \<or> cf_alpha_den f \<le> cf_alpha_num f) ''alpha'' (
      fail_if (is_nan (cf_tau f)) ''tau is NaN'' (
      (case strict_hex32 (cf_digest f) of None \<Rightarrow> Inl ''digest'' | Some digest \<Rightarrow>
       Inr (CalibrationC_DISARMED \<lparr> cc_method := cf_method f, cc_alpha_num := cf_alpha_num f, cc_alpha_den := cf_alpha_den f,
         cc_n_calib := cf_n_calib f, cc_horizon_ticks := cf_horizon_ticks f, cc_t_grid := cf_t_grid f,
         cc_center := table_rows tg 0 (fa_data (cf_center f)), cc_scale := table_rows tg f_one (fa_data (cf_scale f)),
         cc_mask := cf_mask f, cc_gate := gate, cc_tau := cf_tau f, cc_digest := digest \<rparr>)))))))))))))))"

definition CalibrationFile_loaded :: "Crypto \<Rightarrow> CalibrationFile \<Rightarrow> string option \<Rightarrow> string \<Rightarrow> CalibFileError + CalibrationLoaded" where
  "CalibrationFile_loaded cy f bytes path =
     (case bytes of None \<Rightarrow> Inl CF_Io | Some b \<Rightarrow>
      (case CalibrationFile_compile f of Inl e \<Rightarrow> Inl (CF_Compile e) | Inr c \<Rightarrow>
       (case CalibrationFile_digest_hex cy f of Inl e \<Rightarrow> Inl (CF_Canon e) | Inr d \<Rightarrow>
        Inr \<lparr> cl_c = c, cl_digest = d, cl_embodiment_digest = cf_embodiment_digest f, cl_file_sha256 = cy_sha cy b, cl_path = path \<rparr>)))"

text \<open>\<open>load_calibration\<close> of \<open>serve.rs\<close> reads the file twice.\<close>

definition load_calibration ::
  "Crypto \<Rightarrow> (string \<Rightarrow> Value option) \<Rightarrow> (string \<Rightarrow> u8 list option) \<Rightarrow> string option \<Rightarrow> string option \<Rightarrow> string \<Rightarrow> CalibFileError + CalibrationLoaded" where
  "load_calibration cy json dec txt bytes path =
     and_then (CalibrationFile_load cy json dec txt) (\<lambda>f. CalibrationFile_loaded cy f bytes path)"

subsection \<open>Reading inverts writing\<close>

lemma written_fields: "map fst (CalibrationFile_fields b64 f) = CALIBRATION_FIELDS"
  by (simp add: CalibrationFile_fields_def CALIBRATION_FIELDS_def)

lemma fields_distinct: "distinct CALIBRATION_FIELDS" "list_all key_ok CALIBRATION_FIELDS"
  by code_simp+

lemma read_CalMethod_written [reads]: "read_CalMethod (VStr (CalMethod_name m)) = Some m"
  by (cases m) (simp_all add: read_CalMethod_def)

lemma read_SeedPool_written [reads]: "read_SeedPool (SeedPool_value p) = Some p"
  by (simp add: read_SeedPool_def SeedPool_value_def reads field_def)

lemma read_Tier0Percentiles_written [reads]: "read_Tier0Percentiles (Tier0Percentiles_value p) = Some p"
  by (simp add: read_Tier0Percentiles_def Tier0Percentiles_value_def reads field_def)

lemma Tier0Percentiles_not_null: "Tier0Percentiles_value p \<noteq> VNull"
  by (simp add: Tier0Percentiles_value_def struct_value_def)

text \<open>Arrays as \<open>F64Array::from_wire\<close> makes them: the shape describes the values.\<close>

definition described :: "F64Array \<Rightarrow> bool" where
  "described a \<longleftrightarrow> shape_product (fa_shape a) = Some (length (fa_data a))"

lemma CalibrationFile_read_value:
  assumes "\<And>bs. dec (b64 bs) = Some bs" "described (cf_center f)" "described (cf_scale f)"
  shows "CalibrationFile_read dec (CalibrationFile_value b64 f) = Some f"
proof -
  have m: "struct_fields CALIBRATION_FIELDS (CalibrationFile_value b64 f) = Some (map_of (CalibrationFile_fields b64 f))"
    using fields_distinct(1) by (simp add: CalibrationFile_value_def struct_fields_written written_fields)
  have a: "read_F64Array dec (F64Array_value b64 (cf_center f)) = Some (cf_center f)"
    "read_F64Array dec (F64Array_value b64 (cf_scale f)) = Some (cf_scale f)"
    using assms by (simp_all add: read_F64Array_written described_def)
  show ?thesis
    unfolding CalibrationFile_read_def m bind.simps
    by (simp add: CalibrationFile_fields_def field_def opt_field_def a reads Tier0Percentiles_not_null)
qed

subsection \<open>The digest\<close>

lemma SeedPool_clean [serial]: "Value_wf (SeedPool_value p)" "keys_clean (SeedPool_value p)"
  "floatfree (SeedPool_value p) \<longleftrightarrow> safe (sp_lo p) \<and> safe (sp_hi p)"
  unfolding SeedPool_value_def
  by (rule struct_value_wf struct_value_clean; simp add: serial key_ok_def less_eq_char_def)+
    (auto simp: struct_value_def list_all_iff num_floatfree safe_def)

lemma Tier0Percentiles_clean [serial]: "Value_wf (opt Tier0Percentiles_value p)" "keys_clean (opt Tier0Percentiles_value p)"
  "floatfree (opt Tier0Percentiles_value p)"
  unfolding opt_def Tier0Percentiles_value_def
  by (cases p; simp; rule struct_value_wf struct_value_clean struct_value_floatfree; simp add: serial key_ok_def less_eq_char_def)+

lemma CalibrationFile_clean:
  "Value_wf (CalibrationFile_value b64 f)" "keys_clean (CalibrationFile_value b64 f)"
  "floatfree (CalibrationFile_value b64 f) \<longleftrightarrow> safe (sp_lo (cf_seed_pool f)) \<and> safe (sp_hi (cf_seed_pool f))"
proof -
  show "Value_wf (CalibrationFile_value b64 f)"
    unfolding CalibrationFile_value_def
    by (rule struct_value_wf) (simp_all add: written_fields fields_distinct, simp add: CalibrationFile_fields_def serial)
  show "keys_clean (CalibrationFile_value b64 f)"
    unfolding CalibrationFile_value_def
    by (rule struct_value_clean) (simp_all add: written_fields fields_distinct, simp add: CalibrationFile_fields_def serial)
  show "floatfree (CalibrationFile_value b64 f) \<longleftrightarrow> safe (sp_lo (cf_seed_pool f)) \<and> safe (sp_hi (cf_seed_pool f))"
    unfolding CalibrationFile_value_def floatfree_struct by (simp add: CalibrationFile_fields_def serial)
qed

lemma digest_hex_ok:
  "(\<exists>d. CalibrationFile_digest_hex cy f = Inr d) \<longleftrightarrow> safe (sp_lo (cf_seed_pool f)) \<and> safe (sp_hi (cf_seed_pool f))"
proof -
  have "(\<exists>d. CalibrationFile_digest_hex cy f = Inr d) \<longleftrightarrow> (\<exists>a. canon_of (CalibrationFile_value (cy_b64 cy) (f \<lparr> cf_digest := [] \<rparr>)) = Inr a)"
    by (auto simp: CalibrationFile_digest_hex_def digest_of_def map_ok_Inr)
  then show ?thesis by (simp add: canon_of_ok CalibrationFile_clean)
qed

subsection \<open>Saving and loading\<close>

text \<open>What is assumed of \<open>serde_json\<close> and \<open>base64\<close>: parsing inverts printing on values without floats, decoding inverts encoding.\<close>

definition codecs_invert ::
  "Crypto \<Rightarrow> (Value \<Rightarrow> string) \<Rightarrow> (string \<Rightarrow> Value option) \<Rightarrow> (string \<Rightarrow> u8 list option) \<Rightarrow> bool" where
  "codecs_invert cy pretty json dec \<longleftrightarrow> (\<forall>v. Value_wf v \<and> floatfree v \<longrightarrow> json (pretty_sorted pretty v) = Some v) \<and>
     (\<forall>bs. dec (cy_b64 cy bs) = Some bs)"

lemma save_load:
  assumes "codecs_invert cy pretty json dec" "described (cf_center f)" "described (cf_scale f)"
    "safe (sp_lo (cf_seed_pool f))" "safe (sp_hi (cf_seed_pool f))"
  shows "\<exists>g txt. CalibrationFile_save cy pretty f = Inr (g, txt) \<and> CalibrationFile_load cy json dec (Some txt) = Inr g \<and>
    g = f \<lparr> cf_schema := CALIBRATION_SCHEMA, cf_canonical := CANONICAL_ID, cf_digest := cf_digest g \<rparr> \<and>
    CalibrationFile_digest_hex cy g = Inr (cf_digest g)"
proof -
  let ?g = "f \<lparr> cf_schema := CALIBRATION_SCHEMA, cf_canonical := CANONICAL_ID \<rparr>"
  obtain d where d: "CalibrationFile_digest_hex cy ?g = Inr d" using digest_hex_ok [of cy ?g] assms(4,5) by auto
  let ?h = "?g \<lparr> cf_digest := d \<rparr>"
  have d': "CalibrationFile_digest_hex cy ?h = Inr d" using d by (simp add: CalibrationFile_digest_hex_def)
  have j: "json (pretty_sorted pretty (CalibrationFile_value (cy_b64 cy) ?h)) = Some (CalibrationFile_value (cy_b64 cy) ?h)"
    using assms(1,4,5) CalibrationFile_clean [of "cy_b64 cy" ?h] by (simp add: codecs_invert_def)
  have r: "CalibrationFile_read dec (CalibrationFile_value (cy_b64 cy) ?h) = Some ?h"
    by (rule CalibrationFile_read_value) (use assms(1-3) in \<open>simp_all add: codecs_invert_def\<close>)
  have "CalibrationFile_load cy json dec (Some (pretty_sorted pretty (CalibrationFile_value (cy_b64 cy) ?h))) = Inr ?h"
    by (simp add: CalibrationFile_load_def j r fail_if_def d')
  then show ?thesis
    by (intro exI [of _ ?h] exI conjI) (simp_all add: CalibrationFile_save_def d d' Let_def map_ok_def)
qed

lemma load_Inr:
  assumes "CalibrationFile_load cy json dec txt = Inr f"
  obtains v where "CalibrationFile_read dec v = Some f" "cf_schema f = CALIBRATION_SCHEMA" "cf_canonical f = CANONICAL_ID"
    "CalibrationFile_digest_hex cy f = Inr (cf_digest f)"
  using assms by (auto simp: CalibrationFile_load_def bind_eq_Some_conv split: option.splits sum.splits)

lemma read_F64Array_described: "read_F64Array dec v = Some a \<Longrightarrow> described a"
  by (auto simp: read_F64Array_def bind_eq_Some_conv F64Array_from_wire_def ok_of_def described_def fail_if_def Let_def
      split: sum.splits option.splits if_splits)

lemma read_described:
  "CalibrationFile_read dec v = Some f \<Longrightarrow> described (cf_center f) \<and> described (cf_scale f)"
  unfolding CalibrationFile_read_def bind_eq_Some_conv field_def
  by (elim exE conjE) (simp add: read_F64Array_described, fastforce dest: read_F64Array_described)

text \<open>Two files that load and carry the same digest are the same file, or the hash collides.\<close>

lemma load_digest_binds:
  assumes "codecs_invert cy pretty json dec" "CalibrationFile_load cy json dec t = Inr f" "CalibrationFile_load cy json dec u = Inr g"
    "cf_digest f = cf_digest g"
  shows "f = g \<or> (\<exists>x y. x \<noteq> y \<and> cy_sha cy x = cy_sha cy y)"
proof -
  obtain v where f: "CalibrationFile_read dec v = Some f" "CalibrationFile_digest_hex cy f = Inr (cf_digest f)"
    using assms(2) by (rule load_Inr)
  obtain w where g: "CalibrationFile_read dec w = Some g" "CalibrationFile_digest_hex cy g = Inr (cf_digest g)"
    using assms(3) by (rule load_Inr)
  let ?v = "\<lambda>f. CalibrationFile_value (cy_b64 cy) (f \<lparr> cf_digest := [] \<rparr>)"
  obtain a where a: "canon_of (?v f) = Inr a" "cf_digest f = cy_sha cy a"
    using f(2) by (auto simp: CalibrationFile_digest_hex_def digest_of_def map_ok_Inr)
  obtain b where b: "canon_of (?v g) = Inr b" "cf_digest g = cy_sha cy b"
    using g(2) by (auto simp: CalibrationFile_digest_hex_def digest_of_def map_ok_Inr)
  show ?thesis
  proof (cases "a = b")
    case True
    have "?v f = ?v g"
      using canon_injective [OF canon_of_Inr [OF a(1)]] canon_of_Inr [OF b(1)] CalibrationFile_clean(1) True by simp
    moreover have "CalibrationFile_read dec (?v h) = Some (h \<lparr> cf_digest := [] \<rparr>)" if "CalibrationFile_read dec x = Some h" for h x
      by (rule CalibrationFile_read_value) (use assms(1) read_described [OF that] in \<open>simp_all add: codecs_invert_def\<close>)
    ultimately have "f \<lparr> cf_digest := [] \<rparr> = g \<lparr> cf_digest := [] \<rparr>" using f(1) g(1) by (metis option.inject)
    then have "f \<lparr> cf_digest := [] \<rparr> \<lparr> cf_digest := cf_digest f \<rparr> = g \<lparr> cf_digest := [] \<rparr> \<lparr> cf_digest := cf_digest g \<rparr>"
      using assms(4) by simp
    then show ?thesis by simp
  next
    case False
    then show ?thesis using a(2) b(2) assms(4) by metis
  qed
qed

subsection \<open>Compiled tables\<close>

lemma CalibrationFile_compile_Inr:
  assumes "CalibrationFile_compile f = Inr c"
  shows "cc_method c = cf_method f" "cc_t_grid c = cf_t_grid f" "unat (cf_t_grid f) = (case cf_method f of StaticCal \<Rightarrow> 1 | BinnedCal \<Rightarrow> T_GRID)"
    "cf_horizon_ticks f \<noteq> 0" "cc_horizon_ticks c = cf_horizon_ticks f" "array_ok (cf_t_grid f) (cf_center f)" "array_ok (cf_t_grid f) (cf_scale f)"
    "list_all is_finite (fa_data (cf_center f))" "list_all is_finite (fa_data (cf_scale f))" "list_all (\<lambda>x. \<not> x \<le> 0) (fa_data (cf_scale f))"
    "GateSpec_parse (cf_gate f) = Inr (cc_gate c)" "cc_mask c = GateSpec_mask (cc_gate c)" "\<not> is_nan (cc_tau c)" "cc_tau c = cf_tau f"
    "cc_alpha_den c \<noteq> 0" "cc_alpha_num c < cc_alpha_den c" "strict_hex32 (cf_digest f) = Some (cc_digest c)"
    "cc_center c = table_rows (unat (cf_t_grid f)) 0 (fa_data (cf_center f))" "cc_scale c = table_rows (unat (cf_t_grid f)) f_one (fa_data (cf_scale f))"
  using assms
  by (auto simp: CalibrationFile_compile_def Let_def check_array_def list_all_iff list_ex_iff not_le word_less_nat_alt split: sum.splits option.splits CalMethod.split)

text \<open>Where the strict decoder of the calibrator answers, the tolerant one of the envelope agrees.\<close>

lemma those_map_eq: "those (map f xs) = Some ys \<Longrightarrow> (\<And>x y. x \<in> set xs \<Longrightarrow> f x = Some y \<Longrightarrow> g x = y) \<Longrightarrow> map g xs = ys"
  by (induction xs arbitrary: ys) (auto split: option.splits)

lemma strict_nib_hex_nib: "strict_nib c = Some n \<Longrightarrow> hex_nib c = n"
  by (auto simp: strict_nib_def hex_nib_def split: if_splits)

lemma strict_hex32_agrees: "strict_hex32 s = Some bs \<Longrightarrow> hex32 s = bs"
  unfolding strict_hex32_def hex32_def
  by (auto split: if_splits elim!: those_map_eq simp: bind_eq_Some_conv dest!: strict_nib_hex_nib)

lemma table_row:
  assumes "array_ok t a" "b < T_GRID" "j < NFEAT"
  shows "table_rows (unat t) r (fa_data a) ! b ! j = (if b < unat t then fa_data a ! (b * NFEAT + j) else r)"
  using assms by (simp add: table_rows_def)

lemma table_row_in:
  assumes "array_ok t a" "b < unat t" "j < NFEAT" shows "fa_data a ! (b * NFEAT + j) \<in> set (fa_data a)"
proof -
  have "b * NFEAT + j < (b + 1) * NFEAT" using assms(3) by simp
  also have "\<dots> \<le> unat t * NFEAT" using assms(2) by (intro mult_right_mono) auto
  finally show ?thesis using assms(1) by (simp add: array_ok_def)
qed

lemma compiled_ok:
  assumes "CalibrationFile_compile f = Inr c"
  shows "CalibrationC_wf c" "GateSpec_wf (cc_gate c)" "cc_digest c = hex32 (cf_digest f)"
    "check_calibration c m = Inr () \<longleftrightarrow> \<not> CalibrationC_armed c \<or> cf_horizon_ticks f = em_horizon_ticks m"
proof -
  note c = CalibrationFile_compile_Inr [OF assms]
  have t: "0 < unat (cc_t_grid c)" "unat (cc_t_grid c) \<le> T_GRID"
    using c(2,3) by (simp_all add: T_GRID_def split: CalMethod.splits)
  show "CalibrationC_wf c" using t c by (simp add: CalibrationC_wf_def)
  show "GateSpec_wf (cc_gate c)" using c(11) by (rule GateSpec_parse_wf)
  show "cc_digest c = hex32 (cf_digest f)" using strict_hex32_agrees [OF c(17)] by simp
  have "cc_t_grid c \<noteq> 0" using t(1) by auto
  then show "check_calibration c m = Inr () \<longleftrightarrow> \<not> CalibrationC_armed c \<or> cf_horizon_ticks f = em_horizon_ticks m"
    using t(2) c by (auto simp: check_calibration_def)
qed

lemma compiled_score:
  fixes t :: u32
  assumes "CalibrationFile_compile f = Inr c" "j < NFEAT" "has_bit (cc_mask c AND sc_valid sc) (push_bit j 1)"
  defines "i \<equiv> bin_of t (cf_horizon_ticks f) (cf_t_grid f) * NFEAT + j"
  shows "i < unat (cf_t_grid f) * NFEAT"
    "sc_z (standardise c t sc) ! j = (sc_f sc ! j - fa_data (cf_center f) ! i) / (fa_data (cf_scale f) ! i)"
    "is_finite (fa_data (cf_center f) ! i)" "is_finite (fa_data (cf_scale f) ! i)" "0 < fa_data (cf_scale f) ! i"
proof -
  note c = CalibrationFile_compile_Inr [OF assms(1)]
  let ?b = "bin_of t (cf_horizon_ticks f) (cf_t_grid f)"
  have t: "0 < unat (cf_t_grid f)" "unat (cf_t_grid f) \<le> T_GRID"
    using c(3) by (simp_all add: T_GRID_def split: CalMethod.splits)
  then have b: "?b < unat (cf_t_grid f)" by (intro bin_of_less) (simp add: word_less_nat_alt)
  then have bT: "?b < T_GRID" using t(2) by simp
  have "?b * NFEAT + j < (?b + 1) * NFEAT" using assms(2) by simp
  also have "\<dots> \<le> unat (cf_t_grid f) * NFEAT" using b by (intro mult_right_mono) auto
  finally show "i < unat (cf_t_grid f) * NFEAT" by (simp add: i_def)
  have in_set: "fa_data (cf_center f) ! i \<in> set (fa_data (cf_center f))" "fa_data (cf_scale f) ! i \<in> set (fa_data (cf_scale f))"
    using table_row_in [OF c(6) b assms(2)] table_row_in [OF c(7) b assms(2)] by (simp_all add: i_def)
  then show "is_finite (fa_data (cf_center f) ! i)" "is_finite (fa_data (cf_scale f) ! i)"
    using c(8,9) by (auto simp: list_all_iff)
  moreover have "\<not> fa_data (cf_scale f) ! i \<le> 0" using in_set(2) c(10) by (auto simp: list_all_iff)
  ultimately show "0 < fa_data (cf_scale f) ! i" by (simp add: f_cmp)
  show "sc_z (standardise c t sc) ! j = (sc_f sc ! j - fa_data (cf_center f) ! i) / (fa_data (cf_scale f) ! i)"
    using assms(2,3) bT b by (simp add: standardise_def Let_def CalibrationC_bin_def c(2,5,18,19) table_row [OF c(6)] table_row [OF c(7)] i_def)
qed

end
