(* ===== verification/DemoCalib.thy ===== *)
theory DemoCalib
  imports DemoReceipt CalibFile
begin

text \<open>A calibration file with one bin and one gated channel, and the canonical text as a concrete JSON codec.\<close>

definition demo_zeros :: F64Array where "demo_zeros = \<lparr> fa_shape = [1, 12], fa_data = replicate 12 0 \<rparr>"
definition demo_ones :: F64Array where "demo_ones = \<lparr> fa_shape = [1, 12], fa_data = replicate 12 f_one \<rparr>"

definition demo_file :: CalibrationFile where
  "demo_file = \<lparr> cf_schema = CALIBRATION_SCHEMA, cf_canonical = CANONICAL_ID, cf_method = StaticCal, cf_alpha_num = 5, cf_alpha_den = 100,
     cf_n_total = 196, cf_n_scale = 137, cf_n_calib = 137, cf_n_holdout = 59, cf_split = ''2way'',
     cf_seed_pool = \<lparr> sp_name = ''calib'', sp_lo = 900000, sp_hi = 900299 \<rparr>, cf_source_run = ''run'', cf_source_arm = ''obs'',
     cf_envelope_digest = ''e'', cf_embodiment_digest = ''m'', cf_policy_digest = ''p'', cf_lictor_git = ''nogit'',
     cf_horizon_ticks = 300, cf_t_grid = 1, cf_feature_ids = Feat_NAMES, cf_mask = 1, cf_gate = [''tce''],
     cf_center = demo_zeros, cf_scale = demo_ones, cf_tau = f_one, cf_kn = (3, 5), cf_warn_margin = 0, cf_holdout_fpr = 0,
     cf_holdout_fpr_k1 = 0, cf_tier0_percentiles = None, cf_notes = [], cf_digest = replicate 64 (CHR ''a'') \<rparr>"

definition demo_pretty :: "Value \<Rightarrow> string" where
  "demo_pretty v = (case canon v of Inr s \<Rightarrow> s | Inl _ \<Rightarrow> [])"

text \<open>The value with a canonical text, unique by \<open>canon_injective\<close>.\<close>

definition demo_json :: "string \<Rightarrow> Value option" where
  "demo_json t = (if \<exists>v. Value_wf v \<and> canon v = Inr (butlast t) then Some (THE v. Value_wf v \<and> canon v = Inr (butlast t)) else None)"

definition demo_dec :: "string \<Rightarrow> u8 list option" where "demo_dec s = Some (map (\<lambda>c. of_char c) s)"

lemma demo_codecs: "codecs_invert demo_crypto demo_pretty demo_json demo_dec"
proof -
  have "demo_json (pretty_sorted demo_pretty v) = Some v" if v: "Value_wf v" "floatfree v" for v
  proof -
    have "\<exists>s. canon v = Inr s" using v(2) write_value_ok [of "''$''" v] by (simp only: canon_def)
    then obtain s where s: "canon v = Inr s" by (rule exE)
    have u: "w = v" if "Value_wf w \<and> canon w = Inr s" for w using canon_injective [OF conjunct2 [OF that] s conjunct1 [OF that] v(1)] .
    have b: "butlast (pretty_sorted demo_pretty v) = s" by (simp add: pretty_sorted_def demo_pretty_def s)
    have w: "Value_wf v \<and> canon v = Inr s" using v(1) s by (rule conjI)
    then have e: "\<exists>w. Value_wf w \<and> canon w = Inr s" by (rule exI)
    have "(THE w. Value_wf w \<and> canon w = Inr s) = v" by (rule the_equality) (rule w, erule u)
    then show ?thesis by (simp only: demo_json_def b e if_True)
  qed
  then show ?thesis by (simp add: codecs_invert_def demo_dec_def demo_crypto_def demo_hex)
qed

lemma demo_file_described: "described (cf_center demo_file)" "described (cf_scale demo_file)"
  by (simp_all add: described_def shape_product_def demo_file_def demo_zeros_def demo_ones_def)

lemma demo_file_seeds: "safe (sp_lo (cf_seed_pool demo_file))" "safe (sp_hi (cf_seed_pool demo_file))"
  by (simp_all add: demo_file_def safe_def MAX_SAFE_INTEGER_def)

lemma demo_file_arrays: "check_array n (cf_t_grid demo_file) (cf_center demo_file) = Inr ()" "check_array n (cf_t_grid demo_file) (cf_scale demo_file) = Inr ()"
  "\<not> list_ex (\<lambda>x. x \<le> 0) (fa_data (cf_scale demo_file))"
proof -
  have "array_ok 1 demo_zeros \<and> array_ok 1 demo_ones \<and> list_all is_finite (replicate 12 0) \<and> list_all is_finite (replicate 12 f_one) \<and>
      \<not> list_ex (\<lambda>x. x \<le> 0) (replicate 12 f_one)" by code_simp
  then show "check_array n (cf_t_grid demo_file) (cf_center demo_file) = Inr ()" "check_array n (cf_t_grid demo_file) (cf_scale demo_file) = Inr ()"
    "\<not> list_ex (\<lambda>x. x \<le> 0) (fa_data (cf_scale demo_file))"
    by (simp_all add: check_array_def demo_file_def fail_if_def) (simp_all add: demo_zeros_def demo_ones_def)
qed

lemma demo_file_compiles: obtains c where "CalibrationFile_compile demo_file = Inr c" "cc_mask c = 1"
proof -
  have g: "(case GateSpec_parse (cf_gate demo_file) of Inl _ \<Rightarrow> False | Inr g \<Rightarrow> GateSpec_mask g = 1) \<and> strict_hex32 (cf_digest demo_file) \<noteq> None \<and>
      \<not> is_nan (cf_tau demo_file)" by code_simp
  obtain gate where gate: "GateSpec_parse (cf_gate demo_file) = Inr gate" "GateSpec_mask gate = 1"
    using g by (cases "GateSpec_parse (cf_gate demo_file)") auto
  obtain d where d: "strict_hex32 (cf_digest demo_file) = Some d" using g by auto
  have s: "cf_method demo_file = StaticCal" "cf_t_grid demo_file = 1" "cf_horizon_ticks demo_file = 300" "cf_feature_ids demo_file = Feat_NAMES"
    "cf_mask demo_file = 1" "cf_kn demo_file = (3, 5)" "cf_alpha_den demo_file = 100" "cf_alpha_num demo_file = 5"
    by (simp_all add: demo_file_def)
  have k: "\<not> (5 :: u8) < 3" "\<not> (63 :: u8) < 5" "\<not> (100 :: u32) \<le> 5" by (simp_all add: word_less_nat_alt word_le_nat_alt)
  show thesis
    using that g by (auto simp: CalibrationFile_compile_def Let_def demo_file_arrays [simplified s] demo_file_arrays(3) gate d s k fail_if_def)
qed

lemma demo_tce: "has_bit (1 AND 1 :: u32) (push_bit 0 1)" by (simp add: has_bit_def)

end
