(* ===== verification/Text.thy ===== *)
theory Text
  imports Canon
begin

text \<open>
  What the sources use of Rust's \<open>str\<close>: a string is the list of its UTF-8 bytes; \<open>chars\<close>, \<open>trim\<close> and
  \<open>lines\<close> work on its characters, here byte strings of one to four bytes.
\<close>

subsection \<open>Characters\<close>

definition byte_of :: "char \<Rightarrow> nat" where "byte_of c = of_char c"

definition utf8_width :: "char \<Rightarrow> nat" where
  "utf8_width c = (if byte_of c < 0x80 then 1 else if byte_of c < 0xE0 then 2 else if byte_of c < 0xF0 then 3 else 4)"

function utf8_chars :: "string \<Rightarrow> string list" where
  "utf8_chars [] = []"
| "utf8_chars (c # cs) = (c # take (utf8_width c - 1) cs) # utf8_chars (drop (utf8_width c - 1) cs)"
  by pat_completeness auto
termination by (relation "measure length") auto

definition continuation :: "char \<Rightarrow> bool" where
  "continuation c \<longleftrightarrow> 0x80 \<le> byte_of c \<and> byte_of c < 0xC0"

text \<open>One character: its first byte tells its width, the others continue it.\<close>

definition char_ok :: "string \<Rightarrow> bool" where
  "char_ok x \<longleftrightarrow> (case x of [] \<Rightarrow> False
     | c # cs \<Rightarrow> \<not> continuation c \<and> length x = utf8_width c \<and> list_all continuation cs)"

text \<open>Every Rust string is one of these.\<close>

definition utf8 :: "string \<Rightarrow> bool" where
  "utf8 s \<longleftrightarrow> list_all char_ok (utf8_chars s)"

definition char_count :: "string \<Rightarrow> nat" where
  "char_count s = length (utf8_chars s)"

lemma concat_utf8_chars [simp]: "concat (utf8_chars s) = s"
  by (induction s rule: utf8_chars.induct) simp_all

lemma utf8_chars_concat:
  "list_all char_ok xs \<Longrightarrow> utf8_chars (concat xs) = xs"
proof (induction xs)
  case (Cons x xs)
  then obtain c cs where x: "x = c # cs" "length cs = utf8_width c - 1" by (cases x) (auto simp: char_ok_def)
  then show ?case using Cons by simp
qed simp

lemma utf8_concat: "list_all char_ok xs \<Longrightarrow> utf8 (concat xs)"
  by (simp add: utf8_def utf8_chars_concat)

lemma utf8_chars_ascii: "list_all (\<lambda>c. byte_of c < 0x80) s \<Longrightarrow> utf8_chars s = map (\<lambda>c. [c]) s"
  by (induction s rule: utf8_chars.induct) (simp_all add: utf8_width_def)

lemma utf8_ascii: "list_all (\<lambda>c. byte_of c < 0x80) s \<Longrightarrow> utf8 s"
  by (auto simp: utf8_def utf8_chars_ascii list_all_iff char_ok_def utf8_width_def continuation_def)

lemma utf8_chars_nonempty: "x \<in> set (utf8_chars s) \<Longrightarrow> x \<noteq> []"
  by (induction s rule: utf8_chars.induct) auto

subsection \<open>Trimming\<close>

text \<open>The characters with the Unicode property \<open>White_Space\<close>.\<close>

definition of_bytes :: "nat list \<Rightarrow> string" where "of_bytes ns = map char_of ns"

definition WHITESPACE :: "string list" where
  "WHITESPACE = map of_bytes ([[9], [10], [11], [12], [13], [32], [0xC2, 0x85], [0xC2, 0xA0], [0xE1, 0x9A, 0x80]]
     @ map (\<lambda>n. [0xE2, 0x80, 0x80 + n]) [0..<11]
     @ [[0xE2, 0x80, 0xA8], [0xE2, 0x80, 0xA9], [0xE2, 0x80, 0xAF], [0xE2, 0x81, 0x9F], [0xE3, 0x80, 0x80]])"

definition is_whitespace :: "string \<Rightarrow> bool" where
  "is_whitespace x \<longleftrightarrow> x \<in> set WHITESPACE"

definition trim :: "string \<Rightarrow> string" where
  "trim s = concat (rev (dropWhile is_whitespace (rev (dropWhile is_whitespace (utf8_chars s)))))"

lemma trim_concat:
  "xs \<noteq> [] \<Longrightarrow> utf8_chars s = xs \<Longrightarrow> \<not> is_whitespace (hd xs) \<Longrightarrow> \<not> is_whitespace (last xs) \<Longrightarrow> trim s = s"
proof -
  assume a: "xs \<noteq> []" "utf8_chars s = xs" "\<not> is_whitespace (hd xs)" "\<not> is_whitespace (last xs)"
  have "dropWhile is_whitespace xs = xs" using a(1,3) by (cases xs) simp_all
  moreover have "dropWhile is_whitespace (rev xs) = rev xs" using a(1,4) by (cases xs rule: rev_cases) simp_all
  ultimately show ?thesis using a(2) concat_utf8_chars [of s] by (simp add: trim_def)
qed

text \<open>A text between two visible ASCII characters is its own trim.\<close>

definition visible :: "char \<Rightarrow> bool" where "visible c \<longleftrightarrow> 0x21 \<le> byte_of c \<and> byte_of c < 0x7F"

lemma whitespace_bytes: "is_whitespace x \<Longrightarrow> c \<in> set x \<Longrightarrow> \<not> visible c"
proof -
  have "list_all (\<lambda>x. list_all (\<lambda>c. \<not> visible c) x) WHITESPACE" by code_simp
  then show "is_whitespace x \<Longrightarrow> c \<in> set x \<Longrightarrow> \<not> visible c" by (auto simp: is_whitespace_def list_all_iff)
qed

lemma last_utf8_chars: "s \<noteq> [] \<Longrightarrow> utf8_chars s \<noteq> [] \<and> last s \<in> set (last (utf8_chars s))"
proof (induction s rule: utf8_chars.induct)
  case (2 c cs)
  show ?case
  proof (cases "drop (utf8_width c - 1) cs = []")
    case True
    then have "take (utf8_width c - 1) cs = cs" by simp
    then show ?thesis using True by simp
  next
    case False
    then have "last (drop (utf8_width c - 1) cs) = last cs" "cs \<noteq> []" by (auto simp: last_drop)
    then show ?thesis using 2 False by simp
  qed
qed simp

lemma trim_id: "s \<noteq> [] \<Longrightarrow> visible (hd s) \<Longrightarrow> visible (last s) \<Longrightarrow> trim s = s"
proof -
  assume s: "s \<noteq> []" "visible (hd s)" "visible (last s)"
  have "hd s \<in> set (hd (utf8_chars s))" using s(1) by (cases s) simp_all
  then show ?thesis using trim_concat [OF _ refl, of s] last_utf8_chars [OF s(1)] whitespace_bytes s by blast
qed

subsection \<open>Lines\<close>

definition LF :: char where "LF = CHR 0x0A"
definition CR :: char where "CR = CHR 0x0D"

definition strip_cr :: "string \<Rightarrow> string" where
  "strip_cr l = (if l \<noteq> [] \<and> last l = CR then butlast l else l)"

function lines_of :: "string \<Rightarrow> string list" where
  "lines_of s = (if s = [] then [] else
     (case dropWhile (\<lambda>c. c \<noteq> LF) s of [] \<Rightarrow> [s] | _ # rest \<Rightarrow> strip_cr (takeWhile (\<lambda>c. c \<noteq> LF) s) # lines_of rest))"
  by pat_completeness auto
termination
proof (relation "measure length", goal_cases)
  case (2 s c rest)
  have "length (c # rest) \<le> length s" unfolding 2(2) [symmetric] by (rule length_dropWhile_le)
  then show ?case by simp
qed simp

declare lines_of.simps [simp del]

lemma lines_of_Nil [simp]: "lines_of [] = []"
  by (simp add: lines_of.simps)

definition line_ok :: "string \<Rightarrow> bool" where
  "line_ok l \<longleftrightarrow> LF \<notin> set l \<and> (l \<noteq> [] \<longrightarrow> last l \<noteq> CR)"

lemma lines_of_line: "line_ok l \<Longrightarrow> lines_of (l @ LF # s) = l # lines_of s"
proof -
  assume l: "line_ok l"
  then have "dropWhile (\<lambda>c. c \<noteq> LF) (l @ LF # s) = LF # s" "takeWhile (\<lambda>c. c \<noteq> LF) (l @ LF # s) = l"
    by (auto simp: line_ok_def dropWhile_append3 takeWhile_append2 takeWhile_append)
  then show ?thesis using l by (subst lines_of.simps) (auto simp: strip_cr_def line_ok_def)
qed

text \<open>Writing lines and reading them back.\<close>

definition unlines :: "string list \<Rightarrow> string" where "unlines ls = concat (map (\<lambda>l. l @ [LF]) ls)"

lemma lines_of_unlines: "list_all line_ok ls \<Longrightarrow> lines_of (unlines ls) = ls"
  by (induction ls) (simp_all add: unlines_def lines_of_line)

end
