(* ===== verification/EventFiles.thy ===== *)
theory EventFiles
  imports Reader Ledger Text Signable
begin

text \<open>
  The text of the evidence files: \<open>header_line\<close> and \<open>jsonl\<close> of \<open>lictor-runtime/src/episode.rs\<close> write a
  header and one canonical event per line, \<open>append_ledger\<close> does the same for the ledger, and
  \<open>read_jsonl\<close> of \<open>verify.rs\<close> and \<open>read_ledger\<close> read them back.  \<open>serde_json\<close> is a parameter: the parser
  of a \<open>Value\<close> and the parser of a document, whose objects keep their order and their duplicates for the
  derived readers, and the texts of its errors.  Reading inverts writing.
\<close>

subsection \<open>Derived readers\<close>

definition read_bool :: "Value \<Rightarrow> bool option" where
  "read_bool v = (case v of VBool b \<Rightarrow> Some b | _ \<Rightarrow> None)"

text \<open>A unit variant is its name, or an object of its name and null.\<close>

definition read_enum :: "'a list \<Rightarrow> ('a \<Rightarrow> string) \<Rightarrow> Value \<Rightarrow> 'a option" where
  "read_enum xs name v = Option.bind (case v of VStr s \<Rightarrow> Some s | VObj [(s, VNull)] \<Rightarrow> Some s | _ \<Rightarrow> None)
     (\<lambda>s. find (\<lambda>x. name x = s) xs)"

definition FuseState_ALL :: "FuseState list" where
  "FuseState_ALL = [Idle, Armed, Watching, Clamped, Braking, Held, Escalated, Fault, Terminated]"
definition Status_ALL :: "Status list" where
  "Status_ALL = [St_Nominal, St_Watching, St_Clamped, St_Braking, St_Held, St_Escalated, St_Fault, St_Terminated]"
definition ActionSource_ALL :: "ActionSource list" where "ActionSource_ALL = [Src_Policy, Src_Clamped, Src_Brake, Src_Hold]"

definition TICK_FIELDS :: "string list" where
  "TICK_FIELDS = [''seq'', ''t'', ''state'', ''prev_state'', ''status'', ''trips'', ''action_src'', ''substituted'', ''clamped_dims'',
     ''action'', ''f'', ''z'', ''valid'', ''fired'', ''s'', ''tau'', ''window_hits'', ''brake_margin'', ''reason'', ''handoff_seq'',
     ''violation_reached_env'', ''prev'', ''hash'']"

definition TickEvent_read :: "(string \<Rightarrow> u8 list option) \<Rightarrow> Value \<Rightarrow> TickEvent option" where
  "TickEvent_read dec v =
     Option.bind (struct_fields TICK_FIELDS v) (\<lambda>m.
     Option.bind (field m ''seq'' read_num) (\<lambda>seq. Option.bind (field m ''t'' read_num) (\<lambda>t.
     Option.bind (field m ''state'' (read_enum FuseState_ALL FuseState_name)) (\<lambda>state.
     Option.bind (field m ''prev_state'' (read_enum FuseState_ALL FuseState_name)) (\<lambda>prev_state.
     Option.bind (field m ''status'' (read_enum Status_ALL Status_name)) (\<lambda>status.
     Option.bind (field m ''trips'' read_num) (\<lambda>trips.
     Option.bind (field m ''action_src'' (read_enum ActionSource_ALL ActionSource_name)) (\<lambda>action_src.
     Option.bind (field m ''substituted'' read_bool) (\<lambda>substituted. Option.bind (field m ''clamped_dims'' read_num) (\<lambda>clamped_dims.
     Option.bind (field m ''action'' (read_F64Array dec)) (\<lambda>action. Option.bind (field m ''f'' (read_F64Array dec)) (\<lambda>f.
     Option.bind (field m ''z'' (read_F64Array dec)) (\<lambda>z. Option.bind (field m ''valid'' read_num) (\<lambda>valid.
     Option.bind (field m ''fired'' read_num) (\<lambda>fired. Option.bind (field m ''s'' read_F64Hex) (\<lambda>s.
     Option.bind (field m ''tau'' read_F64Hex) (\<lambda>tau. Option.bind (field m ''window_hits'' read_num) (\<lambda>window_hits.
     Option.bind (field m ''brake_margin'' read_F64Hex) (\<lambda>brake_margin.
     Option.bind (field m ''reason'' (read_enum ReasonCode_ALL reason_name)) (\<lambda>reason.
     Option.bind (opt_field m ''handoff_seq'' read_num) (\<lambda>handoff_seq.
     Option.bind (field m ''violation_reached_env'' read_bool) (\<lambda>violation_reached_env.
     Option.bind (field m ''prev'' read_str) (\<lambda>prev. Option.bind (field m ''hash'' read_str) (\<lambda>hash.
     Some \<lparr> te_seq = seq, te_t = t, te_state = state, te_prev_state = prev_state, te_status = status, te_trips = trips,
       te_action_src = action_src, te_substituted = substituted, te_clamped_dims = clamped_dims, te_action = action, te_f = f,
       te_z = z, te_valid = valid, te_fired = fired, te_s = s, te_tau = tau, te_window_hits = window_hits,
       te_brake_margin = brake_margin, te_reason = reason, te_handoff_seq = handoff_seq,
       te_violation_reached_env = violation_reached_env, te_prev = prev, te_hash = hash \<rparr>))))))))))))))))))))))))"

definition TIMING_FIELDS :: "string list" where
  "TIMING_FIELDS = [''seq'', ''decide_ns'', ''io_ns'', ''prev'', ''hash'']"

definition TimingEvent_read :: "Value \<Rightarrow> TimingEvent option" where
  "TimingEvent_read v =
     Option.bind (struct_fields TIMING_FIELDS v) (\<lambda>m.
     Option.bind (field m ''seq'' read_num) (\<lambda>seq. Option.bind (field m ''decide_ns'' read_num) (\<lambda>decide_ns.
     Option.bind (field m ''io_ns'' read_num) (\<lambda>io_ns. Option.bind (field m ''prev'' read_str) (\<lambda>prev.
     Option.bind (field m ''hash'' read_str) (\<lambda>hash.
     Some \<lparr> tm_seq = seq, tm_decide_ns = decide_ns, tm_io_ns = io_ns, tm_prev = prev, tm_hash = hash \<rparr>))))))"

definition LEDGER_FIELDS :: "string list" where
  "LEDGER_FIELDS = [''seq'', ''run_id'', ''arm_id'', ''episode_index'', ''seed'', ''init_state_digest'', ''receipt_digest'',
     ''verdict_chain_head'', ''success'', ''fuse_ok'', ''tripped'', ''stopped'', ''escalated'', ''prev'', ''hash'']"

definition LedgerEntry_read :: "Value \<Rightarrow> LedgerEntry option" where
  "LedgerEntry_read v =
     Option.bind (struct_fields LEDGER_FIELDS v) (\<lambda>m.
     Option.bind (field m ''seq'' read_num) (\<lambda>seq. Option.bind (field m ''run_id'' read_str) (\<lambda>run_id.
     Option.bind (field m ''arm_id'' read_str) (\<lambda>arm_id. Option.bind (field m ''episode_index'' read_num) (\<lambda>episode_index.
     Option.bind (field m ''seed'' read_num) (\<lambda>seed. Option.bind (field m ''init_state_digest'' read_str) (\<lambda>init_state_digest.
     Option.bind (field m ''receipt_digest'' read_str) (\<lambda>receipt_digest.
     Option.bind (field m ''verdict_chain_head'' read_str) (\<lambda>verdict_chain_head.
     Option.bind (field m ''success'' read_bool) (\<lambda>success. Option.bind (field m ''fuse_ok'' read_bool) (\<lambda>fuse_ok.
     Option.bind (field m ''tripped'' read_bool) (\<lambda>tripped. Option.bind (field m ''stopped'' read_bool) (\<lambda>stopped.
     Option.bind (field m ''escalated'' read_bool) (\<lambda>escalated. Option.bind (field m ''prev'' read_str) (\<lambda>prev.
     Option.bind (field m ''hash'' read_str) (\<lambda>hash.
     Some \<lparr> le_seq = seq, le_run_id = run_id, le_arm_id = arm_id, le_episode_index = episode_index, le_seed = seed,
       le_init_state_digest = init_state_digest, le_receipt_digest = receipt_digest, le_verdict_chain_head = verdict_chain_head,
       le_success = success, le_fuse_ok = fuse_ok, le_tripped = tripped, le_stopped = stopped, le_escalated = escalated,
       le_prev = prev, le_hash = hash \<rparr>))))))))))))))))"

lemma read_bool_written [reads]: "read_bool (VBool b) = Some b"
  by (simp add: read_bool_def)

lemma read_enum_written:
  assumes "x \<in> set xs" "\<And>y. name y = name x \<Longrightarrow> y = x" shows "read_enum xs name (VStr (name x)) = Some x"
proof -
  have "find (\<lambda>y. name y = name x) xs = Some x"
    using assms by (induction xs) auto
  then show ?thesis by (simp add: read_enum_def)
qed

lemma read_enums_written [reads]:
  "read_enum FuseState_ALL FuseState_name (VStr (FuseState_name a)) = Some a"
  "read_enum Status_ALL Status_name (VStr (Status_name b)) = Some b"
  "read_enum ActionSource_ALL ActionSource_name (VStr (ActionSource_name c)) = Some c"
  "read_enum ReasonCode_ALL reason_name (VStr (reason_name d)) = Some d"
  by (rule read_enum_written; simp add: FuseState_ALL_def Status_ALL_def ActionSource_ALL_def ReasonCode_ALL_complete;
      cases a; cases b; cases c; simp)+

lemma num_not_null [simp]: "num w \<noteq> VNull" by (simp add: num_def)

lemma event_fields:
  "map fst (TickEvent_fields b64 e) = TICK_FIELDS" "map fst (TimingEvent_fields m) = TIMING_FIELDS" "map fst (LedgerEntry_fields l) = LEDGER_FIELDS"
  by (simp_all add: TickEvent_fields_def TICK_FIELDS_def TimingEvent_fields_def TIMING_FIELDS_def LedgerEntry_fields_def LEDGER_FIELDS_def)

text \<open>Arrays whose shape describes their values: what \<open>F64Array::from_wire\<close> accepts.\<close>

definition arrays_described :: "TickEvent \<Rightarrow> bool" where
  "arrays_described e \<longleftrightarrow> (\<forall>a \<in> {te_action e, te_f e, te_z e}. shape_product (fa_shape a) = Some (length (fa_data a)))"

lemma TickEvent_read_value:
  assumes "\<And>bs. dec (b64 bs) = Some bs" "arrays_described e"
  shows "TickEvent_read dec (TickEvent_value b64 e) = Some e"
proof -
  have m: "struct_fields TICK_FIELDS (TickEvent_value b64 e) = Some (map_of (TickEvent_fields b64 e))"
    using distinct_names(1) by (simp add: TickEvent_value_def struct_fields_written)
  have a: "read_F64Array dec (F64Array_value b64 (te_action e)) = Some (te_action e)"
    "read_F64Array dec (F64Array_value b64 (te_f e)) = Some (te_f e)" "read_F64Array dec (F64Array_value b64 (te_z e)) = Some (te_z e)"
    using assms by (simp_all add: read_F64Array_written arrays_described_def)
  show ?thesis
    unfolding TickEvent_read_def m bind.simps
    by (simp add: TickEvent_fields_def field_def opt_field_def a reads)
qed

lemma TimingEvent_read_value: "TimingEvent_read (TimingEvent_value e) = Some e"
proof -
  have m: "struct_fields TIMING_FIELDS (TimingEvent_value e) = Some (map_of (TimingEvent_fields e))"
    using distinct_names(2) by (simp add: TimingEvent_value_def struct_fields_written)
  show ?thesis
    unfolding TimingEvent_read_def m bind.simps by (simp add: TimingEvent_fields_def field_def reads)
qed

lemma LedgerEntry_read_value: "LedgerEntry_read (LedgerEntry_value e) = Some e"
proof -
  have m: "struct_fields LEDGER_FIELDS (LedgerEntry_value e) = Some (map_of (LedgerEntry_fields e))"
    using ledger_names(1) by (simp add: LedgerEntry_value_def struct_fields_written)
  show ?thesis
    unfolding LedgerEntry_read_def m bind.simps by (simp add: LedgerEntry_fields_def field_def reads)
qed

subsection \<open>Parsing\<close>

record Json =
  js_value :: "string \<Rightarrow> string + Value"
  js_doc :: "string \<Rightarrow> string + Value"
  js_misfit :: "Value \<Rightarrow> string"
  js_dec :: "string \<Rightarrow> u8 list option"

definition from_doc :: "Json \<Rightarrow> (Value \<Rightarrow> 'a option) \<Rightarrow> string \<Rightarrow> string + 'a" where
  "from_doc js rd t = (case js_doc js t of Inl e \<Rightarrow> Inl e
     | Inr v \<Rightarrow> (case rd v of None \<Rightarrow> Inl (js_misfit js v) | Some x \<Rightarrow> Inr x))"

definition value_get :: "string \<Rightarrow> Value \<Rightarrow> Value option" where
  "value_get k v = (case v of VObj m \<Rightarrow> map_of m k | _ \<Rightarrow> None)"

definition value_str :: "Value option \<Rightarrow> string option" where
  "value_str v = Option.bind v read_str"

definition value_u64 :: "Value option \<Rightarrow> u64 option" where
  "value_u64 v = Option.bind v read_num"

definition at_line :: "string \<Rightarrow> nat \<Rightarrow> string" where
  "at_line path i = path @ '':'' @ digits (i + 1) @ '': ''"

text \<open>The loop of \<open>read_jsonl\<close>: the first non-blank line is the header, the others are events, which \<open>parse\<close> reads.\<close>

fun jsonl_loop :: "Json \<Rightarrow> (string \<Rightarrow> string + 'a) \<Rightarrow> string \<Rightarrow> nat \<Rightarrow> Value option \<Rightarrow> 'a list \<Rightarrow> string list \<Rightarrow> string + Value option \<times> 'a list" where
  "jsonl_loop js parse path i header events [] = Inr (header, events)"
| "jsonl_loop js parse path i header events (line # lines) =
     (let t = trim line in
      if t = [] then jsonl_loop js parse path (Suc i) header events lines
      else (case header of
          None \<Rightarrow> (case js_value js t of
              Inl e \<Rightarrow> Inl (at_line path i @ e)
            | Inr v \<Rightarrow> if value_get ''schema'' v = None then Inl (at_line path i @ ''first line is not a schema header'')
                else jsonl_loop js parse path (Suc i) (Some v) events lines)
        | Some h \<Rightarrow> (case parse t of
              Inl e \<Rightarrow> Inl (at_line path i @ e)
            | Inr e \<Rightarrow> jsonl_loop js parse path (Suc i) (Some h) (events @ [e]) lines)))"

text \<open>\<open>txt\<close> is what reading the file returns.\<close>

definition read_jsonl :: "Json \<Rightarrow> (string \<Rightarrow> string + 'a) \<Rightarrow> string \<Rightarrow> string + string \<Rightarrow> string + Value \<times> 'a list" where
  "read_jsonl js parse path txt = (case txt of Inl e \<Rightarrow> Inl (path @ '': '' @ e) | Inr t \<Rightarrow>
     (case jsonl_loop js parse path 0 None [] (lines_of t) of
        Inl e \<Rightarrow> Inl e
      | Inr (None, _) \<Rightarrow> Inl (path @ '': empty file'')
      | Inr (Some h, es) \<Rightarrow> Inr (h, es)))"

definition LEDGER_SCHEMA :: string where "LEDGER_SCHEMA = ''lictor-ledger/v1''"
definition TICKS_SCHEMA :: string where "TICKS_SCHEMA = ''lictor-ticks/v1''"

text \<open>\<open>read_ledger\<close>: any line with a schema is a header and is skipped.\<close>

fun ledger_lines :: "Json \<Rightarrow> string \<Rightarrow> nat \<Rightarrow> LedgerEntry list \<Rightarrow> string list \<Rightarrow> string + LedgerEntry list" where
  "ledger_lines js path i out [] = Inr out"
| "ledger_lines js path i out (line # lines) =
     (let t = trim line in
      if t = [] then ledger_lines js path (Suc i) out lines
      else (case js_value js t of
          Inl e \<Rightarrow> Inl (at_line path i @ ''not JSON: '' @ e)
        | Inr v \<Rightarrow>
            if value_get ''schema'' v \<noteq> None then
              (if value_str (value_get ''schema'' v) \<noteq> Some LEDGER_SCHEMA then Inl (at_line path i @ ''not a '' @ LEDGER_SCHEMA @ '' header'')
               else ledger_lines js path (Suc i) out lines)
            else (case LedgerEntry_read v of
                None \<Rightarrow> Inl (at_line path i @ ''not a ledger entry: '' @ js_misfit js v)
              | Some e \<Rightarrow> ledger_lines js path (Suc i) (out @ [e]) lines)))"

definition read_ledger :: "Json \<Rightarrow> string \<Rightarrow> string + string \<Rightarrow> string + LedgerEntry list" where
  "read_ledger js path txt = (case txt of Inl e \<Rightarrow> Inl (path @ '': '' @ e) | Inr t \<Rightarrow> ledger_lines js path 0 [] (lines_of t))"

subsection \<open>Writing\<close>

definition header_fields :: "SignedReceipt \<Rightarrow> (string \<times> Value) list" where
  "header_fields sr = (let run = bo_run (sr_body sr) in
     [(''schema'', VStr TICKS_SCHEMA), (''run_id'', VStr (rb_run_id run)), (''arm_id'', VStr (rb_arm_id run)),
      (''episode_index'', num (rb_episode_index run)), (''genesis'', VStr ZERO_HASH)])"

definition header_value :: "SignedReceipt \<Rightarrow> bool \<Rightarrow> Value" where
  "header_value sr timing = struct_value (header_fields sr @ (if timing then [(''stream'', VStr ''timing'')] else []))"

definition header_line :: "SignedReceipt \<Rightarrow> bool \<Rightarrow> CanonError + string" where
  "header_line sr timing = canon (header_value sr timing)"

definition jsonl :: "CanonError + string \<Rightarrow> Value list \<Rightarrow> CanonError + string" where
  "jsonl header vs = (case header of Inl e \<Rightarrow> Inl e | Inr h \<Rightarrow> map_ok (\<lambda>ls. unlines (h # ls)) (collect (map canon_of vs)))"

definition ticks_text :: "Crypto \<Rightarrow> SignedReceipt \<Rightarrow> TickEvent list \<Rightarrow> CanonError + string" where
  "ticks_text cy sr es = jsonl (header_line sr False) (map (TickEvent_value (cy_b64 cy)) es)"

definition timing_text :: "SignedReceipt \<Rightarrow> TimingEvent list \<Rightarrow> CanonError + string" where
  "timing_text sr es = jsonl (header_line sr True) (map TimingEvent_value es)"

definition LedgerHeader_value :: "SignedReceipt \<Rightarrow> Value" where
  "LedgerHeader_value sr = struct_value [(''schema'', VStr LEDGER_SCHEMA), (''run_id'', VStr (rb_run_id (bo_run (sr_body sr)))),
     (''arm_id'', VStr (rb_arm_id (bo_run (sr_body sr)))), (''genesis'', VStr ZERO_HASH)]"

text \<open>What \<open>append_ledger\<close> makes of the text of the ledger: the header when the file is new, then the entry.\<close>

definition append_ledger_text :: "string option \<Rightarrow> SignedReceipt \<Rightarrow> LedgerEntry \<Rightarrow> CanonError + string" where
  "append_ledger_text old sr e =
     (case (case old of Some t \<Rightarrow> Inr t | None \<Rightarrow> map_ok (\<lambda>h. h @ [LF]) (canon_of (LedgerHeader_value sr))) of
        Inl x \<Rightarrow> Inl x
      | Inr t \<Rightarrow> map_ok (\<lambda>l. t @ l @ [LF]) (canon_of (LedgerEntry_value e)))"

subsection \<open>Canonical text is one visible line\<close>

lemma byte_digit: "k < 10 \<Longrightarrow> byte_of (char_of (48 + k)) = 48 + k"
  by (simp add: byte_of_def)

lemma digits_bytes: "c \<in> set (digits n) \<Longrightarrow> 0x20 \<le> byte_of c"
proof -
  assume c: "c \<in> set (digits n)"
  have "list_all is_digit (digits n)" by (rule digits_all)
  then show ?thesis using c by (auto simp: list_all_iff is_digit_code byte_of_def)
qed

lemma show_int_bytes: "c \<in> set (show_int i) \<Longrightarrow> 0x20 \<le> byte_of c"
  using digits_bytes by (auto simp: show_int_def byte_of_def split: if_splits)

lemma hex_digit_bytes: "0x20 \<le> byte_of (hex_digit n)" if "n < 16"
  using that by (auto simp: hex_digit_def byte_of_def)

lemma escape_bytes: "c \<in> set (escape d) \<Longrightarrow> 0x20 \<le> byte_of c"
proof -
  assume c: "c \<in> set (escape d)"
  have "(of_char d :: nat) < 256" by simp
  then have "(of_char d :: nat) div 16 < 16" "(of_char d :: nat) mod 16 < 16" by (simp_all add: less_mult_imp_div_less)
  then show ?thesis
    using c hex_digit_bytes unfolding escape_def by (auto simp: byte_of_def QUOTE_def BACKSLASH_def split: if_splits)
qed

lemma write_string_bytes: "c \<in> set (write_string s) \<Longrightarrow> 0x20 \<le> byte_of c"
  using escape_bytes by (auto simp: write_string_def byte_of_def QUOTE_def)

lemma join_with_set: "c \<in> set (join_with d ps) \<Longrightarrow> c = d \<or> (\<exists>p \<in> set ps. c \<in> set p)"
  by (induction ps rule: induct_list012) auto

lemma write_value_bytes: "write_value p v = Inr a \<Longrightarrow> c \<in> set a \<Longrightarrow> 0x20 \<le> byte_of c"
proof (induction p v arbitrary: a c rule: write_value.induct)
  case (6 path vs)
  obtain ps where ps: "collect (map (\<lambda>i. write_value (index_path path i) (vs ! i)) [0..<length vs]) = Inr ps"
    "a = CHR ''['' # join_with (CHR '','') ps @ '']''" using 6(2) by (auto simp: map_ok_Inr)
  have "\<exists>i < length vs. write_value (index_path path i) (vs ! i) = Inr q" if "q \<in> set ps" for q
  proof -
    have "Inr q \<in> set (map (\<lambda>i. write_value (index_path path i) (vs ! i)) [0..<length vs])"
      using ps(1) that unfolding collect_Inr by simp
    then show ?thesis by auto
  qed
  then have "0x20 \<le> byte_of d" if "q \<in> set ps" "d \<in> set q" for q d using 6(1) that by fastforce
  then show ?case using 6(3) ps(2) join_with_set [of c "CHR '',''" ps] by (auto simp: byte_of_def)
next
  case (7 path m)
  let ?f = "\<lambda>(k, c). map_ok (key_text k) (write_value (key_path path k) c)"
  obtain ps where ps: "collect (map ?f (sort_key (\<lambda>(k, c). encode_utf16 k) m)) = Inr ps"
    "a = CHR ''{'' # join_with (CHR '','') ps @ ''}''" using 7(2) by (auto simp: map_ok_Inr)
  have "\<exists>k v b. (k, v) \<in> set m \<and> write_value (key_path path k) v = Inr b \<and> q = key_text k b" if "q \<in> set ps" for q
  proof -
    have "Inr q \<in> set (map ?f (sort_key (\<lambda>(k, c). encode_utf16 k) m))" using ps(1) that unfolding collect_Inr by simp
    then obtain k v where kv: "(k, v) \<in> set m" "map_ok (key_text k) (write_value (key_path path k) v) = Inr q" by auto
    then obtain b where "write_value (key_path path k) v = Inr b" "q = key_text k b" unfolding map_ok_Inr by blast
    with kv(1) show ?thesis by blast
  qed
  then have "0x20 \<le> byte_of d" if "q \<in> set ps" "d \<in> set q" for q d
    using 7(1) that write_string_bytes by (fastforce simp: key_text_def byte_of_def)
  then show ?case using 7(3) ps(2) join_with_set [of c "CHR '',''" ps] by (auto simp: byte_of_def)
qed (auto simp: byte_of_def show_int_bytes write_string_bytes split: if_splits dest: show_int_bytes write_string_bytes)

lemma canon_line:
  assumes "canon v = Inr s" shows "line_ok s"
proof -
  have "0x20 \<le> byte_of c" if "c \<in> set s" for c using write_value_bytes assms that by (auto simp: canon_def)
  moreover have "\<not> 0x20 \<le> byte_of LF" "\<not> 0x20 \<le> byte_of CR" by (simp_all add: byte_of_def LF_def CR_def)
  ultimately show ?thesis by (metis last_in_set line_ok_def)
qed

lemma canon_struct_trim: "canon (struct_value fs) = Inr s \<Longrightarrow> trim s = s \<and> s \<noteq> []"
proof -
  assume "canon (struct_value fs) = Inr s"
  then obtain t where "s = CHR ''{'' # t @ ''}''" by (auto simp: canon_def struct_value_def map_ok_Inr)
  then show ?thesis using trim_id [of s] by (simp add: visible_def byte_of_def)
qed

subsection \<open>Reading inverts writing\<close>

lemma collect_canon: "collect (map canon_of vs) = Inr ls \<longleftrightarrow> list_all2 (\<lambda>v l. canon_of v = Inr l) vs ls"
  unfolding collect_Inr list_all2_conv_all_nth by (auto simp: list_eq_iff_nth_eq)

text \<open>The lines of a written file are the canonical texts of its values.\<close>

lemma jsonl_lines:
  assumes "jsonl (Inr h) vs = Inr t" "line_ok h"
  obtains ls where "list_all2 (\<lambda>v l. canon_of v = Inr l) vs ls" "lines_of t = h # ls"
proof -
  obtain ls where ls: "collect (map canon_of vs) = Inr ls" "t = unlines (h # ls)" using assms(1) by (auto simp: jsonl_def map_ok_Inr)
  have l: "list_all2 (\<lambda>v l. canon_of v = Inr l) vs ls" using ls(1) by (simp only: collect_canon)
  then have "list_all line_ok ls"
    unfolding list_all_length list_all2_conv_all_nth using canon_line canon_of_Inr by metis
  then have "lines_of t = h # ls" using ls(2) assms(2) by (simp add: lines_of_unlines)
  with l show ?thesis by (rule that)
qed

lemma jsonl_loop_events:
  "list_all2 (\<lambda>l e. trim l = l \<and> l \<noteq> [] \<and> parse l = Inr e) ls es \<Longrightarrow> jsonl_loop js parse p i (Some h) acc ls = Inr (Some h, acc @ es)"
  by (induction ls es arbitrary: i acc rule: list_all2_induct) (simp_all add: Let_def)

theorem read_jsonl_written:
  assumes "canon_of (struct_value fs) = Inr h" "jsonl (Inr h) (map f es) = Inr t" "\<And>e. \<exists>gs. f e = struct_value gs"
    "js_value js h = Inr (struct_value fs)" "value_get ''schema'' (struct_value fs) \<noteq> None"
    "\<And>e l. e \<in> set es \<Longrightarrow> canon_of (f e) = Inr l \<Longrightarrow> parse l = Inr (g e)"
  shows "read_jsonl js parse p (Inr t) = Inr (struct_value fs, map g es)"
proof -
  have h: "line_ok h" "trim h = h" "h \<noteq> []"
    using canon_line canon_struct_trim canon_of_Inr [OF assms(1)] by auto
  obtain ls where ls: "list_all2 (\<lambda>v l. canon_of v = Inr l) (map f es) ls" "lines_of t = h # ls"
    by (rule jsonl_lines [OF assms(2) h(1)])
  have "list_all2 (\<lambda>l e. trim l = l \<and> l \<noteq> [] \<and> parse l = Inr e) ls (map g es)"
  proof (rule list_all2_all_nthI)
    show n: "length ls = length (map g es)" using ls(1) by (auto dest: list_all2_lengthD)
    fix i assume i: "i < length ls"
    then have c: "canon_of (f (es ! i)) = Inr (ls ! i)" "es ! i \<in> set es" using ls(1) n by (auto simp: list_all2_conv_all_nth)
    obtain gs where "f (es ! i) = struct_value gs" using assms(3) by blast
    with c(1) have "trim (ls ! i) = ls ! i \<and> ls ! i \<noteq> []" using canon_struct_trim canon_of_Inr by metis
    then show "trim (ls ! i) = ls ! i \<and> ls ! i \<noteq> [] \<and> parse (ls ! i) = Inr (map g es ! i)" using assms(6) [OF c(2,1)] i n by simp
  qed
  from jsonl_loop_events [OF this] show ?thesis using ls(2) h(2,3) assms(4,5) by (simp add: read_jsonl_def Let_def)
qed

text \<open>The ledger: appending to the text is appending to the entries.\<close>

lemma ledger_line: "value_get ''schema'' (LedgerEntry_value e) = None"
proof -
  have "''schema'' \<notin> fst ` set (LedgerEntry_fields e)" by (simp add: LedgerEntry_fields_def)
  then have "map_of (sort_key fst (LedgerEntry_fields e)) ''schema'' = None" by (simp add: map_of_eq_None_iff)
  then show ?thesis by (simp add: value_get_def LedgerEntry_value_def struct_value_def)
qed

lemma ledger_lines_append:
  "ledger_lines js p i out (ls @ ls') = (case ledger_lines js p i out ls of Inl e \<Rightarrow> Inl e | Inr es \<Rightarrow> ledger_lines js p (i + length ls) es ls')"
proof (induction ls arbitrary: i out)
  case (Cons l ls)
  show ?case
    by (simp add: Let_def Cons split: sum.split option.split)
qed simp

lemma ledger_lines_entry:
  assumes "canon_of (LedgerEntry_value e) = Inr l" "js_value js l = Inr (LedgerEntry_value e)"
  shows "ledger_lines js p i out [l] = Inr (out @ [e])"
proof -
  have "trim l = l \<and> l \<noteq> []" using canon_struct_trim canon_of_Inr [OF assms(1)] unfolding LedgerEntry_value_def by blast
  then show ?thesis using assms(2) ledger_line [of e] by (simp add: Let_def LedgerEntry_read_value)
qed

lemma lines_of_append:
  "list_all line_ok ls \<Longrightarrow> lines_of (unlines ls @ s) = ls @ lines_of s"
  by (induction ls) (simp_all add: unlines_def lines_of_line)

text \<open>A ledger text is whole lines: \<open>append_ledger\<close> writes no other.\<close>

definition whole_lines :: "string \<Rightarrow> bool" where
  "whole_lines t \<longleftrightarrow> (\<exists>ls. list_all line_ok ls \<and> t = unlines ls)"

lemma whole_lines_add:
  assumes "whole_lines t" "line_ok l" shows "whole_lines (t @ l @ [LF])" "lines_of (t @ l @ [LF]) = lines_of t @ [l]"
proof -
  obtain ls where ls: "list_all line_ok ls" "t = unlines ls" using assms(1) by (auto simp: whole_lines_def)
  have n: "t @ l @ [LF] = unlines (ls @ [l])" "list_all line_ok (ls @ [l])" using ls assms(2) by (simp_all add: unlines_def)
  then show "whole_lines (t @ l @ [LF])" unfolding whole_lines_def by blast
  show "lines_of (t @ l @ [LF]) = lines_of t @ [l]" using lines_of_append [OF ls(1), of "l @ [LF]"] lines_of_line [OF assms(2), of "[]"] lines_of_unlines [OF ls(1)] ls(2) by simp
qed

theorem ledger_appended:
  assumes "append_ledger_text (Some t) sr e = Inr t'" "whole_lines t" "read_ledger js p (Inr t) = Inr es"
    "\<And>l. canon_of (LedgerEntry_value e) = Inr l \<Longrightarrow> js_value js l = Inr (LedgerEntry_value e)"
  shows "whole_lines t' \<and> read_ledger js p (Inr t') = Inr (es @ [e])"
proof -
  obtain l where l: "canon_of (LedgerEntry_value e) = Inr l" "t' = t @ l @ [LF]"
    using assms(1) by (auto simp: append_ledger_text_def map_ok_Inr)
  have "line_ok l" by (rule canon_line [OF canon_of_Inr [OF l(1)]])
  note w = whole_lines_add [OF assms(2) this]
  have "ledger_lines js p (length (lines_of t)) es [l] = Inr (es @ [e])" by (rule ledger_lines_entry [OF l(1) assms(4) [OF l(1)]])
  then show ?thesis using assms(3) w l(2) by (simp add: read_ledger_def ledger_lines_append)
qed

theorem ledger_created:
  assumes "append_ledger_text None sr e = Inr t'"
    "\<And>v l. v \<in> {LedgerHeader_value sr, LedgerEntry_value e} \<Longrightarrow> canon_of v = Inr l \<Longrightarrow> js_value js l = Inr v"
  shows "whole_lines t' \<and> read_ledger js p (Inr t') = Inr [e]"
proof -
  obtain h where h: "canon_of (LedgerHeader_value sr) = Inr h" "append_ledger_text (Some (h @ [LF])) sr e = Inr t'"
    using assms(1) by (auto simp: append_ledger_text_def map_ok_def split: sum.splits)
  have c: "line_ok h" "trim h = h" "h \<noteq> []"
    using canon_line canon_struct_trim canon_of_Inr [OF h(1)] unfolding LedgerHeader_value_def by auto
  have s: "value_get ''schema'' (LedgerHeader_value sr) = Some (VStr LEDGER_SCHEMA)"
    unfolding LedgerHeader_value_def value_get_def struct_value_def by (simp add: map_of_sorted)
  have "whole_lines (h @ [LF])" "lines_of (h @ [LF]) = [h]"
    using whole_lines_add [of "[]" h] c(1) by (auto simp: whole_lines_def unlines_def)
  moreover have "read_ledger js p (Inr (h @ [LF])) = Inr []"
    using calculation(2) c(2,3) assms(2) [OF _ h(1)] s by (simp add: read_ledger_def Let_def value_str_def read_str_def)
  ultimately show ?thesis using ledger_appended [OF h(2)] assms(2) by fastforce
qed

end
