(* ===== verification/Curve.thy ===== *)
theory Curve
  imports Signable
begin

text \<open>
  \<open>lictor-receipt/src/curve.rs\<close>: the signed summary of one arm, signed and checked as a receipt is.
\<close>

record DeltaCi =
  dc_diff :: f64
  dc_lo :: f64
  dc_hi :: f64
  dc_mcnemar_p :: f64
  dc_mcnemar_b :: u32
  dc_mcnemar_c :: u32

record CurveMetrics =
  cv_n :: u32
  cv_success_rate :: f64
  cv_success_ci :: "f64 \<times> f64"
  cv_averted_rate :: f64
  cv_flagged_rate :: f64
  cv_flagged_ci :: "f64 \<times> f64"
  cv_false_trip_rate :: f64
  cv_false_trip_ci :: "f64 \<times> f64"
  cv_intervention_rate :: f64
  cv_intervention_tick_frac :: f64
  cv_escalation_rate :: f64
  cv_lead_mean :: f64
  cv_lead_p50 :: f64
  cv_lead_p10 :: f64
  cv_aucpdt :: f64
  cv_roc_auc :: f64
  cv_bacc :: f64
  cv_violations_reached_env :: u32
  cv_delta_vs_baseline :: DeltaCi
  cv_delta_vs_latency_control :: "DeltaCi option"
  cv_tce_valid_frac :: f64
  cv_latency_p50_ns :: u64
  cv_latency_p99_ns :: u64
  cv_latency_max_ns :: u64
  cv_latency_label :: string
  cv_n_fail_baseline :: u32
  cv_n_succ_baseline :: u32

record CurveReceiptBody =
  cb_schema :: string
  cb_canonical :: string
  cb_created_epoch :: u64
  cb_run_id :: string
  cb_arm_id :: string
  cb_baseline_arm_id :: string
  cb_latency_control_arm_id :: "string option"
  cb_ledger_head :: string
  cb_n_episodes :: u32
  cb_ledger_chain_ok :: bool
  cb_arm_config_digest :: string
  cb_receipt_pubkey :: string
  cb_run_json_sha256 :: string
  cb_n_declared :: u32
  cb_n_present :: u32
  cb_n_missing :: u32
  cb_missing_indices :: "u32 list"
  cb_partial :: bool
  cb_small_n :: bool
  cb_cross_run_mismatches :: "u32 list"
  cb_pair_mismatches :: "u32 list"
  cb_seed_overlap_with_calibration :: "u64 list"
  cb_metrics :: CurveMetrics
  cb_eps_prog :: f64

definition CURVE_SCHEMA :: string where "CURVE_SCHEMA = ''lictor-curve/v1''"

definition DeltaCi_value :: "DeltaCi \<Rightarrow> Value" where
  "DeltaCi_value d = struct_value [(''diff'', F64Hex (dc_diff d)), (''lo'', F64Hex (dc_lo d)), (''hi'', F64Hex (dc_hi d)),
     (''mcnemar_p'', F64Hex (dc_mcnemar_p d)), (''mcnemar_b'', num (dc_mcnemar_b d)), (''mcnemar_c'', num (dc_mcnemar_c d))]"

definition interval_value :: "f64 \<times> f64 \<Rightarrow> Value" where
  "interval_value ci = VArr [F64Hex (fst ci), F64Hex (snd ci)]"

definition CurveMetrics_value :: "CurveMetrics \<Rightarrow> Value" where
  "CurveMetrics_value m = struct_value
     [(''n'', num (cv_n m)), (''success_rate'', F64Hex (cv_success_rate m)), (''success_ci'', interval_value (cv_success_ci m)),
      (''averted_rate'', F64Hex (cv_averted_rate m)), (''flagged_rate'', F64Hex (cv_flagged_rate m)),
      (''flagged_ci'', interval_value (cv_flagged_ci m)), (''false_trip_rate'', F64Hex (cv_false_trip_rate m)),
      (''false_trip_ci'', interval_value (cv_false_trip_ci m)), (''intervention_rate'', F64Hex (cv_intervention_rate m)),
      (''intervention_tick_frac'', F64Hex (cv_intervention_tick_frac m)), (''escalation_rate'', F64Hex (cv_escalation_rate m)),
      (''lead_mean'', F64Hex (cv_lead_mean m)), (''lead_p50'', F64Hex (cv_lead_p50 m)), (''lead_p10'', F64Hex (cv_lead_p10 m)),
      (''aucpdt'', F64Hex (cv_aucpdt m)), (''roc_auc'', F64Hex (cv_roc_auc m)), (''bacc'', F64Hex (cv_bacc m)),
      (''violations_reached_env'', num (cv_violations_reached_env m)), (''delta_vs_baseline'', DeltaCi_value (cv_delta_vs_baseline m)),
      (''delta_vs_latency_control'', opt DeltaCi_value (cv_delta_vs_latency_control m)),
      (''tce_valid_frac'', F64Hex (cv_tce_valid_frac m)), (''latency_p50_ns'', num (cv_latency_p50_ns m)),
      (''latency_p99_ns'', num (cv_latency_p99_ns m)), (''latency_max_ns'', num (cv_latency_max_ns m)),
      (''latency_label'', VStr (cv_latency_label m)), (''n_fail_baseline'', num (cv_n_fail_baseline m)),
      (''n_succ_baseline'', num (cv_n_succ_baseline m))]"

definition nums :: "'a::len word list \<Rightarrow> Value" where "nums ws = VArr (map num ws)"

definition CurveReceiptBody_value :: "CurveReceiptBody \<Rightarrow> Value" where
  "CurveReceiptBody_value b = struct_value
     [(''schema'', VStr (cb_schema b)), (''canonical'', VStr (cb_canonical b)), (''created_epoch'', num (cb_created_epoch b)),
      (''run_id'', VStr (cb_run_id b)), (''arm_id'', VStr (cb_arm_id b)), (''baseline_arm_id'', VStr (cb_baseline_arm_id b)),
      (''latency_control_arm_id'', opt VStr (cb_latency_control_arm_id b)), (''ledger_head'', VStr (cb_ledger_head b)),
      (''n_episodes'', num (cb_n_episodes b)), (''ledger_chain_ok'', VBool (cb_ledger_chain_ok b)),
      (''arm_config_digest'', VStr (cb_arm_config_digest b)), (''receipt_pubkey'', VStr (cb_receipt_pubkey b)),
      (''run_json_sha256'', VStr (cb_run_json_sha256 b)), (''n_declared'', num (cb_n_declared b)),
      (''n_present'', num (cb_n_present b)), (''n_missing'', num (cb_n_missing b)), (''missing_indices'', nums (cb_missing_indices b)),
      (''partial'', VBool (cb_partial b)), (''small_n'', VBool (cb_small_n b)),
      (''cross_run_mismatches'', nums (cb_cross_run_mismatches b)), (''pair_mismatches'', nums (cb_pair_mismatches b)),
      (''seed_overlap_with_calibration'', nums (cb_seed_overlap_with_calibration b)),
      (''metrics'', CurveMetrics_value (cb_metrics b)), (''eps_prog'', F64Hex (cb_eps_prog b))]"

definition CurveReceiptBody_canonical :: "CurveReceiptBody \<Rightarrow> CanonError + string" where
  "CurveReceiptBody_canonical b = canon_of (CurveReceiptBody_value b)"

definition CurveReceiptBody_digest_hex :: "Crypto \<Rightarrow> CurveReceiptBody \<Rightarrow> CanonError + string" where
  "CurveReceiptBody_digest_hex cy b = map_ok (cy_sha cy) (CurveReceiptBody_canonical b)"

record SignedCurve =
  sc_body :: CurveReceiptBody
  sc_body_digest :: string
  sc_pubkey :: string
  sc_sig :: string

definition sign_curve :: "Crypto \<Rightarrow> CurveReceiptBody \<Rightarrow> u8 list \<Rightarrow> CanonError + SignedCurve" where
  "sign_curve cy body seed = map_ok (\<lambda>canonical.
     let (pubkey, sg) = sign_bytes cy seed canonical in
     \<lparr> sc_body = body, sc_body_digest = cy_sha cy canonical, sc_pubkey = pubkey, sc_sig = sg \<rparr>)
     (CurveReceiptBody_canonical body)"

definition verify_curve :: "Crypto \<Rightarrow> SignedCurve \<Rightarrow> string option \<Rightarrow> VerifyReport" where
  "verify_curve cy sc expect_pubkey =
     (let schema_ok = (cb_schema (sc_body sc) = CURVE_SCHEMA \<and> cb_canonical (sc_body sc) = CANONICAL_ID);
          (report, ns) = from_signature_checks cy schema_ok (CurveReceiptBody_canonical (sc_body sc)) (sc_body_digest sc)
            (sc_pubkey sc) (sc_sig sc) expect_pubkey in
      report \<lparr> vr_notes := ns \<rparr>)"

subsection \<open>When a curve can be signed\<close>

lemma interval_safe [serial]: "Value_wf (interval_value ci)" "keys_clean (interval_value ci)" "floatfree (interval_value ci)"
  by (simp_all add: interval_value_def serial)

lemma DeltaCi_safe [serial]: "keys_clean (DeltaCi_value d)" "floatfree (DeltaCi_value d)"
  by (simp_all add: DeltaCi_value_def safe_simps key_ok_def less_eq_char_def)

lemma nums_safe: "keys_clean (nums ws)" "floatfree (nums (ns :: u32 list))" "floatfree (nums (ms :: u64 list)) \<longleftrightarrow> list_all safe ms"
  by (simp_all add: nums_def list_all_iff serial num_safe64)

definition curve_signable :: "CurveReceiptBody \<Rightarrow> bool" where
  "curve_signable b \<longleftrightarrow> safe (cb_created_epoch b) \<and> list_all safe (cb_seed_overlap_with_calibration b) \<and>
     safe (cv_latency_p50_ns (cb_metrics b)) \<and> safe (cv_latency_p99_ns (cb_metrics b)) \<and> safe (cv_latency_max_ns (cb_metrics b))"

lemma CurveMetrics_safe:
  "keys_clean (CurveMetrics_value m)"
  "floatfree (CurveMetrics_value m) \<longleftrightarrow> safe (cv_latency_p50_ns m) \<and> safe (cv_latency_p99_ns m) \<and> safe (cv_latency_max_ns m)"
  by (simp_all add: CurveMetrics_value_def safe_simps serial key_ok_def less_eq_char_def)

lemma CurveReceiptBody_safe:
  "keys_clean (CurveReceiptBody_value b)" "floatfree (CurveReceiptBody_value b) \<longleftrightarrow> curve_signable b"
  by (auto simp: CurveReceiptBody_value_def safe_simps CurveMetrics_safe nums_safe curve_signable_def key_ok_def less_eq_char_def)

lemma sign_curve_iff: "(\<exists>sc. sign_curve cy b seed = Inr sc) \<longleftrightarrow> curve_signable b"
  using canon_of_ok [of "CurveReceiptBody_value b"] CurveReceiptBody_safe [of b]
  by (auto simp: sign_curve_def map_ok_Inr CurveReceiptBody_canonical_def)

text \<open>A signed curve is intact for its key, and the report has no note.\<close>

lemma sign_curve_verifies:
  assumes "signs cy seed" "sign_curve cy b seed = Inr sc" "cb_schema b = CURVE_SCHEMA" "cb_canonical b = CANONICAL_ID"
  shows "intact (verify_curve cy sc (Some (pubkey_hex cy seed)))" "vr_notes (verify_curve cy sc (Some (pubkey_hex cy seed))) = []" "sc_body sc = b"
proof -
  obtain x where x: "CurveReceiptBody_canonical b = Inr x" "sc = \<lparr> sc_body = b, sc_body_digest = cy_sha cy x,
      sc_pubkey = fst (sign_bytes cy seed x), sc_sig = snd (sign_bytes cy seed x) \<rparr>"
    using assms(2) by (auto simp: sign_curve_def map_ok_Inr split_beta)
  show "intact (verify_curve cy sc (Some (pubkey_hex cy seed)))" "vr_notes (verify_curve cy sc (Some (pubkey_hex cy seed))) = []" "sc_body sc = b"
    using assms(3,4) verify_sign_bytes [OF assms(1), of x]
    by (simp_all add: x verify_curve_def from_signature_checks_def Let_def intact_def note_if_def) (simp_all add: sign_bytes_def pubkey_hex_def)
qed

text \<open>What an intact report says of a curve: its schema, its digest and its signature.\<close>

lemma verify_curve_intact:
  "intact (verify_curve cy sc expect) \<longleftrightarrow> cb_schema (sc_body sc) = CURVE_SCHEMA \<and> cb_canonical (sc_body sc) = CANONICAL_ID \<and>
     (\<exists>x. CurveReceiptBody_canonical (sc_body sc) = Inr x \<and> sc_body_digest sc = cy_sha cy x \<and>
        verify_bytes cy (sc_pubkey sc) (sc_sig sc) x = Inr ()) \<and> (\<forall>p. expect = Some p \<longrightarrow> p = sc_pubkey sc)"
  by (auto simp: verify_curve_def from_signature_checks_def Let_def intact_def isl_unit split: sum.split option.split)

end
