(* ===== verification/Render.thy ===== *)
theory Render
  imports Text
begin

text \<open>
  \<open>lictor-cli/src/render.rs\<close>: the lines a person reads.  \<open>sanitize\<close> strips control characters and escape
  sequences from strings that a host or an operator supplied, so that none of them reaches a terminal.
  \<open>short\<close> slices a string at a byte, which panics (here \<open>None\<close>) inside a character.
\<close>

subsection \<open>Sanitizing\<close>

definition ESC :: string where "ESC = of_bytes [0x1B]"
definition SPACE :: string where "SPACE = of_bytes [0x20]"

text \<open>\<open>char::is_control\<close>: C0, DEL and C1.\<close>

definition is_control :: "string \<Rightarrow> bool" where
  "is_control x \<longleftrightarrow> (case x of [c] \<Rightarrow> byte_of c < 0x20 \<or> byte_of c = 0x7F
     | [c, d] \<Rightarrow> byte_of c = 0xC2 \<and> 0x80 \<le> byte_of d \<and> byte_of d < 0xA0 | _ \<Rightarrow> False)"

text \<open>What follows \<open>ESC [\<close>: up to and with the final byte.\<close>

fun skip_csi :: "string list \<Rightarrow> string list" where
  "skip_csi [] = []"
| "skip_csi (d # r) = (if (case d of [c] \<Rightarrow> 0x40 \<le> byte_of c \<and> byte_of c \<le> 0x7E | _ \<Rightarrow> False) then r else skip_csi r)"

text \<open>What follows \<open>ESC ]\<close> and its like: up to and with BEL or ESC and a backslash.\<close>

fun skip_osc :: "bool \<Rightarrow> string list \<Rightarrow> string list" where
  "skip_osc prev_esc [] = []"
| "skip_osc prev_esc (d # r) = (if d = of_bytes [0x07] \<or> prev_esc \<and> d = [BACKSLASH] then r else skip_osc (d = ESC) r)"

lemma skip_csi_length: "length (skip_csi r) \<le> length r"
  by (induction r rule: skip_csi.induct) (simp_all add: le_SucI)

lemma skip_osc_length: "length (skip_osc b r) \<le> length r"
  by (induction b r rule: skip_osc.induct) (simp_all add: le_SucI)

lemmas skip_length = skip_csi_length skip_osc_length

function sanitize_chars :: "string list \<Rightarrow> string list \<Rightarrow> string list" where
  "sanitize_chars out [] = out"
| "sanitize_chars out (c # r) =
     (if c = ESC then
        (case r of [] \<Rightarrow> sanitize_chars out []
         | d # r' \<Rightarrow>
            if d = ''['' then sanitize_chars out (skip_csi r')
            else if d \<in> {'']'', ''P'', ''X'', ''^'', ''_''} then sanitize_chars out (skip_osc False r')
            else sanitize_chars out r')
      else if c \<in> {of_bytes [0x0A], of_bytes [0x0D], of_bytes [0x09]} then
        sanitize_chars (if out \<noteq> [] \<and> last out = SPACE then out else out @ [SPACE]) r
      else if is_control c then sanitize_chars out r
      else sanitize_chars (out @ [c]) r)"
  by pat_completeness auto
termination
  by (relation "measure (\<lambda>(out, r). length r)") (auto simp: le_imp_less_Suc skip_length le_SucI intro!: le_imp_less_Suc)

definition sanitize :: "string \<Rightarrow> string" where
  "sanitize s = concat (sanitize_chars [] (utf8_chars s))"

subsection \<open>Cutting\<close>

definition cap :: "string \<Rightarrow> nat \<Rightarrow> string" where
  "cap s max_chars = (if char_count s \<le> max_chars then s else concat (take (max_chars - 3) (utf8_chars s)) @ ''...'')"

definition LABEL_WIDTH :: nat where "LABEL_WIDTH = 15"
definition STATUS_WIDTH :: nat where "STATUS_WIDTH = 6"
definition MAX_VALUE :: nat where "MAX_VALUE = 200"
definition SHORT_HEX :: nat where "SHORT_HEX = 12"

text \<open>\<open>&hex[..SHORT_HEX]\<close> needs a character boundary.\<close>

definition short :: "string \<Rightarrow> string option" where
  "short hex = (if length hex \<le> SHORT_HEX then Some hex
     else if continuation (hex ! SHORT_HEX) then None else Some (take SHORT_HEX hex @ ''...''))"

definition pad :: "nat \<Rightarrow> string \<Rightarrow> string" where
  "pad w s = s @ replicate (w - char_count s) (CHR '' '')"

definition kv :: "string \<Rightarrow> string \<Rightarrow> string" where
  "kv label value = (let value = cap (sanitize value) MAX_VALUE in
     if value = [] then ''  '' @ label else ''  '' @ pad LABEL_WIDTH label @ value)"

definition status_line :: "string \<Rightarrow> string \<Rightarrow> string \<Rightarrow> string" where
  "status_line label st detail = (if detail = [] then kv label st else kv label (pad STATUS_WIDTH st @ detail))"

definition note_line :: "string \<Rightarrow> string" where
  "note_line s = ''  notes:  - '' @ cap (sanitize s) MAX_VALUE"

definition note_block :: "string list \<Rightarrow> string list" where
  "note_block xs = map (\<lambda>(i, s). if i = 0 then note_line s else ''          - '' @ cap (sanitize s) MAX_VALUE) (zip [0..<length xs] xs)"

subsection \<open>Nothing that is printed controls the terminal\<close>

lemma skip_csi_set: "set (skip_csi r) \<subseteq> set r"
  by (induction r rule: skip_csi.induct) auto

lemma skip_osc_set: "set (skip_osc b r) \<subseteq> set r"
  by (induction b r rule: skip_osc.induct) auto

lemma sanitize_chars_keeps:
  "(\<And>c. c \<in> set out \<Longrightarrow> P c) \<Longrightarrow> P SPACE \<Longrightarrow> (\<And>c. c \<in> set r \<Longrightarrow> \<not> is_control c \<Longrightarrow> P c) \<Longrightarrow> c \<in> set (sanitize_chars out r) \<Longrightarrow> P c"
proof (induction out r rule: sanitize_chars.induct)
  case (2 out c' r)
  have e: "is_control ESC" by code_simp
  show ?case
  proof (cases "c' = ESC")
    case True
    show ?thesis
    proof (cases r)
      case Nil
      then show ?thesis using 2 True by simp
    next
      case (Cons d r')
      then show ?thesis using 2 True skip_csi_set [of r'] skip_osc_set [of False r'] by (simp split: if_splits) blast+
    qed
  next
    case False
    then show ?thesis using 2 by (simp split: if_splits) blast+
  qed
qed simp

lemma SPACE_ok: "char_ok SPACE" "\<not> is_control SPACE"
  by code_simp+

text \<open>No character of the output is a control character, and the output is a Rust string.\<close>

lemma sanitize_clean:
  assumes "utf8 s"
  shows "list_all char_ok (sanitize_chars [] (utf8_chars s))" "list_all (\<lambda>c. \<not> is_control c) (sanitize_chars [] (utf8_chars s))"
  using assms sanitize_chars_keeps [of "[]" char_ok "utf8_chars s"] sanitize_chars_keeps [of "[]" "\<lambda>c. \<not> is_control c" "utf8_chars s"] SPACE_ok
  by (auto simp: list_all_iff utf8_def)

lemma sanitize_chars_id:
  "list_all (\<lambda>c. \<not> is_control c) r \<Longrightarrow> sanitize_chars out r = out @ r"
proof (induction r arbitrary: out)
  case (Cons c r)
  have "list_all is_control [ESC, of_bytes [0x0A], of_bytes [0x0D], of_bytes [0x09]]" by code_simp
  then have "c \<noteq> ESC" "c \<noteq> of_bytes [0x0A]" "c \<noteq> of_bytes [0x0D]" "c \<noteq> of_bytes [0x09]" using Cons.prems by auto
  then show ?case using Cons by simp
qed simp

lemma utf8_sanitized: "utf8 s \<Longrightarrow> utf8_chars (sanitize s) = sanitize_chars [] (utf8_chars s)"
  by (simp add: sanitize_def utf8_chars_concat sanitize_clean)

lemma sanitize_idem: "utf8 s \<Longrightarrow> sanitize (sanitize s) = sanitize s"
  using sanitize_clean(2) [of s] by (simp add: utf8_sanitized sanitize_chars_id sanitize_def [of "sanitize s"]) (simp add: sanitize_def)

text \<open>A byte that ends or starts an escape never comes out, alone or in a character.\<close>

lemma char_ok_bytes: "char_ok x \<Longrightarrow> \<not> is_control x \<Longrightarrow> c \<in> set x \<Longrightarrow> 0x20 \<le> byte_of c \<and> byte_of c \<noteq> 0x7F"
  by (cases x) (auto simp: char_ok_def is_control_def utf8_width_def continuation_def list_all_iff split: if_splits list.splits)

lemma sanitize_bytes: "utf8 s \<Longrightarrow> c \<in> set (sanitize s) \<Longrightarrow> 0x20 \<le> byte_of c \<and> byte_of c \<noteq> 0x7F"
  using sanitize_clean [of s] char_ok_bytes by (auto simp: sanitize_def list_all_iff)

lemma cap_count: "utf8 s \<Longrightarrow> 3 \<le> n \<Longrightarrow> char_count (cap s n) \<le> n"
proof (cases "char_count s \<le> n")
  case False
  assume s: "utf8 s" "3 \<le> n"
  have "list_all char_ok (take (n - 3) (utf8_chars s) @ [''.'', ''.'', ''.''])"
    using s(1) by (auto simp: utf8_def list_all_iff char_ok_def utf8_width_def continuation_def byte_of_def dest: in_set_takeD)
  then have "utf8_chars (concat (take (n - 3) (utf8_chars s) @ [''.'', ''.'', ''.''])) = take (n - 3) (utf8_chars s) @ [''.'', ''.'', ''.'']"
    by (rule utf8_chars_concat)
  then show ?thesis using False s(2) by (simp add: cap_def char_count_def)
qed (simp add: cap_def)

lemma cap_set: "set (cap s n) \<subseteq> set s \<union> {CHR ''.''}"
proof -
  have "set (concat (take k (utf8_chars s))) \<subseteq> set (concat (utf8_chars s))" for k
    unfolding set_concat by (intro UN_mono set_take_subset order_refl)
  then show ?thesis by (auto simp: cap_def)
qed

definition printable :: "char \<Rightarrow> bool" where "printable c \<longleftrightarrow> 0x20 \<le> byte_of c \<and> byte_of c \<noteq> 0x7F"

lemma printable_ascii [simp]: "printable (CHR ''.'')" "printable (CHR '' '')"
  by code_simp+

lemma kv_printable:
  assumes "utf8 value" "list_all printable label" shows "list_all printable (kv label value)"
proof -
  have "list_all printable (cap (sanitize value) MAX_VALUE)"
    using cap_set [of "sanitize value" MAX_VALUE] sanitize_bytes [OF assms(1)] printable_ascii(1) by (auto simp: list_all_iff printable_def)
  then show ?thesis using assms(2) by (auto simp: kv_def Let_def pad_def list_all_iff)
qed

text \<open>A digest of hexadecimal digits is always cut; other text panics exactly inside a character.\<close>

lemma short_ascii: "list_all (\<lambda>c. byte_of c < 0x80) s \<Longrightarrow> \<exists>t. short s = Some t"
  by (cases "SHORT_HEX < length s") (auto simp: short_def continuation_def list_all_length)

lemma short_None: "short s = None \<longleftrightarrow> SHORT_HEX < length s \<and> continuation (s ! SHORT_HEX)"
  by (auto simp: short_def)

end
