(* ===== verification/Verify.thy ===== *)
theory Verify
  imports EventFiles Curve Render
begin

text \<open>
  \<open>lictor-cli/src/cmd/verify.rs\<close>: every check of \<open>lictor verify\<close>, the two verdicts and the printed block.
  Files, JSON and the readers of a receipt and of a curve are parameters.  A check returns its detail or a
  status word with a detail; the outer option is \<^term>\<open>None\<close> where the source panics, which \<open>short\<close> does
  when the twelfth byte of a text is inside a character.
\<close>

subsection \<open>Inputs and outcome\<close>

record Reads =
  rf_text :: "string \<Rightarrow> string + string"
  rf_json :: Json
  rf_receipt :: "string \<Rightarrow> string + SignedReceipt"
  rf_curve :: "string \<Rightarrow> string + SignedCurve"
  rf_show :: "Value \<Rightarrow> string"

record Opts =
  op_receipt :: string
  op_ticks :: "string option"
  op_timing :: "string option"
  op_ledger :: "string option"
  op_curve :: "string option"
  op_calibration :: "string option"
  op_pubkey :: "string option"

record Check =
  ck_name :: string
  ck_ok :: bool
  ck_status :: string
  ck_detail :: string

record Outcome =
  ou_intact :: bool
  ou_fuse_ok :: bool
  ou_test_key :: bool
  ou_pubkey :: string
  ou_body_digest :: string
  ou_envelope_digest :: string
  ou_embodiment_digest :: "string option"
  ou_calibration_digest :: "string option"
  ou_verdict_chain_head :: string
  ou_timing_chain_head :: string
  ou_counts :: "VerdictCounts option"
  ou_checks :: "Check list"
  ou_notes :: "string list"
  ou_lines :: "string list"

definition Outcome_default :: Outcome where
  "Outcome_default = \<lparr> ou_intact = False, ou_fuse_ok = False, ou_test_key = False, ou_pubkey = [], ou_body_digest = [],
     ou_envelope_digest = [], ou_embodiment_digest = None, ou_calibration_digest = None, ou_verdict_chain_head = [],
     ou_timing_chain_head = [], ou_counts = None, ou_checks = [], ou_notes = [], ou_lines = [] \<rparr>"

definition Outcome_exit_code :: "Outcome \<Rightarrow> int" where
  "Outcome_exit_code out = (if ou_intact out \<and> ou_fuse_ok out then 0 else 1)"

definition Outcome_check :: "Outcome \<Rightarrow> string \<Rightarrow> Check option" where
  "Outcome_check out name = find (\<lambda>c. ck_name c = name) (ou_checks out)"

definition push :: "string \<Rightarrow> bool \<Rightarrow> string \<Rightarrow> string \<Rightarrow> Outcome \<Rightarrow> Outcome" where
  "push name ok st detail out = out \<lparr> ou_checks := ou_checks out @ [\<lparr> ck_name = name, ck_ok = ok, ck_status = st, ck_detail = detail \<rparr>],
     ou_lines := ou_lines out @ [status_line name st detail] \<rparr>"

definition push_line :: "string \<Rightarrow> Outcome \<Rightarrow> Outcome" where
  "push_line l out = out \<lparr> ou_lines := ou_lines out @ [l] \<rparr>"

type_synonym CheckResult = "(string \<times> string) + string"

definition ok_word :: "bool \<Rightarrow> string" where "ok_word b = (if b then ''ok'' else ''FAIL'')"
definition show_num :: "'a::len word \<Rightarrow> string" where "show_num w = digits (unat w)"

definition seq_or_unknown :: "u32 option \<Rightarrow> string" where
  "seq_or_unknown brk = (case brk of Some s \<Rightarrow> show_num s | None \<Rightarrow> ''?'')"

definition sep_join :: "string \<Rightarrow> string list \<Rightarrow> string" where
  "sep_join sep xs = (case xs of [] \<Rightarrow> [] | x # r \<Rightarrow> x @ concat (map (\<lambda>y. sep @ y) r))"

definition debug_list :: "string list \<Rightarrow> string" where
  "debug_list xs = ''['' @ sep_join '', '' xs @ '']''"

text \<open>\<open>read_json\<close>.\<close>

definition read_file :: "Reads \<Rightarrow> (string \<Rightarrow> string + 'a) \<Rightarrow> string \<Rightarrow> string + 'a" where
  "read_file rf rd p = (case rf_text rf p of Inl e \<Rightarrow> Inl (p @ '': '' @ e)
     | Inr t \<Rightarrow> (case rd t of Inl e \<Rightarrow> Inl (p @ '': '' @ e) | Inr x \<Rightarrow> Inr x))"

definition header_str :: "Value \<Rightarrow> string \<Rightarrow> string" where
  "header_str h k = (case value_str (value_get k h) of Some s \<Rightarrow> s | None \<Rightarrow> [])"

subsection \<open>Ticks and timing\<close>

definition check_header :: "Reads \<Rightarrow> Value \<Rightarrow> SignedReceipt \<Rightarrow> string list" where
  "check_header rf h sr =
     (let run = bo_run (sr_body sr) in
      note_if (header_str h ''schema'' \<noteq> TICKS_SCHEMA) (''schema '' @ debug_str (header_str h ''schema''))
      @ note_if (header_str h ''run_id'' \<noteq> rb_run_id run) (''run_id '' @ debug_str (header_str h ''run_id''))
      @ note_if (header_str h ''arm_id'' \<noteq> rb_arm_id run) (''arm_id '' @ debug_str (header_str h ''arm_id''))
      @ note_if (value_u64 (value_get ''episode_index'' h) \<noteq> Some (ucast (rb_episode_index run)))
          (''episode_index '' @ rf_show rf (case value_get ''episode_index'' h of Some v \<Rightarrow> v | None \<Rightarrow> VNull))
      @ note_if (header_str h ''genesis'' \<noteq> ZERO_HASH) ''genesis is not the zero hash'')"

definition fail_detail :: "string \<Rightarrow> CheckResult" where "fail_detail d = Inl (''FAIL'', d)"

definition head_mismatch :: "string \<Rightarrow> string \<Rightarrow> CheckResult option" where
  "head_mismatch recomputed bound = Option.bind (short recomputed) (\<lambda>a. Option.bind (short bound) (\<lambda>b.
     Some (Inl (''HEAD MISMATCH recomputed='' @ a @ '' signed='' @ b, []))))"

definition check_tail :: "TickEvent list \<Rightarrow> TickEvent list \<Rightarrow> CheckResult option" where
  "check_tail embedded ticks = (case embedded of [] \<Rightarrow> Some (Inr [])
     | first # _ \<Rightarrow> (case find (\<lambda>e. te_seq e = te_seq first) ticks of
          Some e \<Rightarrow>
            if te_prev e = te_prev first \<and> te_hash e = te_hash first then Some (Inr [])
            else Option.bind (short (te_prev first)) (\<lambda>a. Option.bind (short (te_prev e)) (\<lambda>b.
              Some (fail_detail (''embedded tail starts at seq='' @ show_num (te_seq first) @ '' with prev='' @ a @ '' but the file has prev='' @ b))))
        | None \<Rightarrow> Some (fail_detail (''embedded tail starts at seq='' @ show_num (te_seq first) @ '' which the file does not contain''))))"

definition check_ticks :: "Reads \<Rightarrow> Crypto \<Rightarrow> SignedReceipt \<Rightarrow> string \<Rightarrow> CheckResult option" where
  "check_ticks rf cy sr p =
     (case read_jsonl (rf_json rf) (from_doc (rf_json rf) (TickEvent_read (js_dec (rf_json rf)))) p (rf_text rf p) of Inl e \<Rightarrow> Some (fail_detail e)
      | Inr (header, ticks) \<Rightarrow>
        if check_header rf header sr \<noteq> [] then Some (fail_detail (''ticks header mismatch: '' @ sep_join '', '' (check_header rf header sr)))
        else Option.bind (verify_ticks_file cy sr ticks) (\<lambda>rep. let b = sr_body sr in
          if \<not> cr_ok rep then Some (Inl (''BROKEN at seq='' @ seq_or_unknown (cr_break_at rep), []))
          else if cr_n rep \<noteq> bo_verdict_events b then Some (fail_detail
            (''file has '' @ show_num (cr_n rep) @ '' events, the receipt binds verdict_events='' @ show_num (bo_verdict_events b)))
          else if cr_head rep \<noteq> bo_verdict_chain_head b then head_mismatch (cr_head rep) (bo_verdict_chain_head b)
          else Option.bind (check_tail (bo_ticks b) ticks) (\<lambda>r. case r of Inl e \<Rightarrow> Some (Inl e) | Inr _ \<Rightarrow>
            Option.bind (short (cr_head rep)) (\<lambda>h. Some (Inr (''head='' @ h @ ''  ('' @ show_num (cr_n rep) @ '' ticks)''))))))"

definition check_timing :: "Reads \<Rightarrow> Crypto \<Rightarrow> SignedReceipt \<Rightarrow> string \<Rightarrow> CheckResult option" where
  "check_timing rf cy sr p =
     (case read_jsonl (rf_json rf) (from_doc (rf_json rf) TimingEvent_read) p (rf_text rf p) of Inl e \<Rightarrow> Some (fail_detail e)
      | Inr (header, timing) \<Rightarrow>
        if check_header rf header sr \<noteq> [] then Some (fail_detail (''timing header mismatch: '' @ sep_join '', '' (check_header rf header sr)))
        else Option.bind (verify_timing_chain (cy_sha cy) timing) (\<lambda>rep. let b = sr_body sr in
          if \<not> cr_ok rep then Some (Inl (''BROKEN at seq='' @ seq_or_unknown (cr_break_at rep), []))
          else if cr_n rep \<noteq> bo_timing_events b then Some (fail_detail
            (''file has '' @ show_num (cr_n rep) @ '' events, the receipt binds timing_events='' @ show_num (bo_timing_events b)))
          else if cr_head rep \<noteq> bo_timing_chain_head b then head_mismatch (cr_head rep) (bo_timing_chain_head b)
          else Option.bind (short (cr_head rep)) (\<lambda>h. Some (Inr (''head='' @ h @ ''  (not replayable -- by design)'')))))"

subsection \<open>Ledger and curve\<close>

text \<open>On success the detail and the head of the ledger.\<close>

definition check_ledger :: "Reads \<Rightarrow> Crypto \<Rightarrow> SignedReceipt \<Rightarrow> string \<Rightarrow> ((string \<times> string) + string \<times> string) option" where
  "check_ledger rf cy sr p =
     (case read_jsonl (rf_json rf) (js_value (rf_json rf)) p (rf_text rf p) of Inl e \<Rightarrow> Some (Inl (''FAIL'', e))
      | Inr (header, _) \<Rightarrow>
        if header_str header ''schema'' \<noteq> LEDGER_SCHEMA then Some (Inl (''FAIL'', ''header schema '' @ debug_str (header_str header ''schema'')))
        else (case read_ledger (rf_json rf) p (rf_text rf p) of Inl e \<Rightarrow> Some (Inl (''FAIL'', ''io: '' @ e))
        | Inr entries \<Rightarrow> Option.bind (verify_ledger (cy_sha cy) entries) (\<lambda>rep.
          if \<not> lr_chain_ok rep then Some (Inl (''BROKEN at seq='' @ seq_or_unknown (lr_break_at rep),
            ''entries are missing or edited; this curve point cannot be trusted''))
          else let run = bo_run (sr_body sr);
                   mine = filter (\<lambda>e. le_run_id e = rb_run_id run \<and> le_arm_id e = rb_arm_id run \<and> le_episode_index e = rb_episode_index run) entries in
            (case find (\<lambda>e. le_receipt_digest e = sr_body_digest sr) mine of
               None \<Rightarrow> Option.bind (short (sr_body_digest sr)) (\<lambda>d. Some (Inl (''FAIL'', ''receipt digest '' @ d @ '' is not in the ledger'')))
             | Some entry \<Rightarrow>
                let prev = (case bo_ledger_prev (sr_body sr) of Some x \<Rightarrow> x | None \<Rightarrow> ZERO_HASH) in
                if le_prev entry \<noteq> prev then Option.bind (short (le_prev entry)) (\<lambda>a. Option.bind (short prev) (\<lambda>b.
                  Some (Inl (''FAIL'', ''ledger entry prev='' @ a @ '' but the receipt binds ledger_prev='' @ b))))
                else Option.bind (short (lr_head rep)) (\<lambda>h.
                  Some (Inr (''seq='' @ show_num (le_seq entry) @ '' head='' @ h @ ''  ('' @ show_num (lr_episodes rep) @ '' entries)'', lr_head rep)))))))"

definition check_curve :: "Reads \<Rightarrow> Crypto \<Rightarrow> SignedReceipt \<Rightarrow> string \<Rightarrow> string option \<Rightarrow> CheckResult option" where
  "check_curve rf cy sr p ledger_head =
     (case read_file rf (rf_curve rf) p of Inl e \<Rightarrow> Some (fail_detail e)
      | Inr sc \<Rightarrow>
        let rep = verify_curve cy sc None; run = bo_run (sr_body sr); b = sc_body sc in
        if \<not> intact rep then Some (fail_detail (''curve '' @ sanitize (cb_arm_id b) @ '': '' @
          (if vr_notes rep = [] then ''signature or digest'' else sep_join ''; '' (vr_notes rep))))
        else if cb_run_id b \<noteq> rb_run_id run \<or> cb_arm_id b \<noteq> rb_arm_id run then Some (fail_detail
          (''curve is for '' @ cb_run_id b @ ''/'' @ cb_arm_id b @ '', receipt is '' @ rb_run_id run @ ''/'' @ rb_arm_id run))
        else (case ledger_head of
            Some h \<Rightarrow>
              if h = cb_ledger_head b then Option.bind (short (cb_ledger_head b)) (\<lambda>x. Option.bind (short (sc_pubkey sc)) (\<lambda>k.
                Some (Inr (''ledger_head='' @ x @ '' n='' @ show_num (cb_n_episodes b) @ '' (key '' @ k @ '')''))))
              else Option.bind (short (cb_ledger_head b)) (\<lambda>x. Option.bind (short h) (\<lambda>y.
                Some (fail_detail (''curve ledger_head='' @ x @ '' but the ledger's head is '' @ y))))
          | None \<Rightarrow> Option.bind (short (cb_ledger_head b)) (\<lambda>x.
              Some (Inr (''signature ok; ledger_head='' @ x @ '' unchecked (pass --ledger)'')))))"

subsection \<open>Calibration\<close>

fun insert_key :: "string \<Rightarrow> 'v \<Rightarrow> (string \<times> 'v) list \<Rightarrow> (string \<times> 'v) list" where
  "insert_key k v [] = [(k, v)]"
| "insert_key k v ((l, u) # m) =
     (if k < l then (k, v) # (l, u) # m else if k = l then (k, v) # m else (l, u) # insert_key k v m)"

definition without_digest :: "Value \<Rightarrow> Value" where
  "without_digest v = (case v of VObj m \<Rightarrow> VObj (insert_key ''digest'' (VStr []) m) | _ \<Rightarrow> v)"

definition array_of :: "(Value \<Rightarrow> 'a option) \<Rightarrow> Value option \<Rightarrow> 'a list" where
  "array_of f v = (case v of Some (VArr a) \<Rightarrow> List.map_filter f a | _ \<Rightarrow> [])"

definition num_or_unknown :: "u64 option \<Rightarrow> string" where
  "num_or_unknown x = (case x of Some n \<Rightarrow> show_num n | None \<Rightarrow> ''?'')"

text \<open>What is wrong before the digests are compared.\<close>

definition calibration_mismatches :: "BudgetBinding \<Rightarrow> Value \<Rightarrow> string list" where
  "calibration_mismatches b v =
     (let n = value_u64 (value_get ''alpha_num'' v); d = value_u64 (value_get ''alpha_den'' v);
          gate = array_of read_str (value_get ''gate'' v); kn = (array_of read_num (value_get ''kn'' v) :: u64 list) in
      note_if (n \<noteq> Some (ucast (bb_alpha_num b)) \<or> d \<noteq> Some (ucast (bb_alpha_den b)))
        (''alpha '' @ show_num (bb_alpha_num b) @ ''/'' @ show_num (bb_alpha_den b) @ '' != file '' @ num_or_unknown n @ ''/'' @ num_or_unknown d)
      @ note_if (gate \<noteq> bb_gate b) (''gate '' @ debug_list (map debug_str (bb_gate b)) @ '' != file '' @ debug_list (map debug_str gate))
      @ note_if (kn \<noteq> [ucast (fst (bb_kn b)), ucast (snd (bb_kn b))])
          (''kn '' @ debug_list [show_num (fst (bb_kn b)), show_num (snd (bb_kn b))] @ '' != file '' @ debug_list (map show_num kn))
      @ note_if (\<not> bb_tier1_armed b) ''receipt has tier 1 disarmed; no calibration is bound'')"

definition self_digest_notes :: "string \<Rightarrow> string \<Rightarrow> string list option" where
  "self_digest_notes file_digest recomputed =
     (if recomputed \<noteq> [] \<and> recomputed \<noteq> file_digest
      then Option.bind (short file_digest) (\<lambda>x. Option.bind (short recomputed) (\<lambda>y. Some [''self-digest '' @ x @ '' != recomputed '' @ y]))
      else Some [])"

definition bound_digest_notes :: "string option \<Rightarrow> string \<Rightarrow> string list option" where
  "bound_digest_notes in_receipt recomputed = (case in_receipt of
       Some d \<Rightarrow> if d = recomputed then Some []
         else Option.bind (short d) (\<lambda>x. Option.bind (short recomputed) (\<lambda>y. Some [''receipt calibration_digest '' @ x @ '' != file '' @ y]))
     | None \<Rightarrow> Some [''receipt carries no calibration_digest''])"

definition calibration_detail :: "BudgetBinding \<Rightarrow> Value \<Rightarrow> string \<Rightarrow> string" where
  "calibration_detail b v digest =
     ''alpha='' @ show_num (bb_alpha_num b) @ ''/'' @ show_num (bb_alpha_den b) @ '' gate='' @ digits (length (bb_gate b)) @
     '' kn='' @ show_num (fst (bb_kn b)) @ '','' @ show_num (snd (bb_kn b)) @ '' n_calib='' @
     show_num (case value_u64 (value_get ''n_calib'' v) of Some n \<Rightarrow> n | None \<Rightarrow> 0) @ '' digest='' @ digest"

definition check_calibration_file :: "Reads \<Rightarrow> Crypto \<Rightarrow> SignedReceipt \<Rightarrow> string \<Rightarrow> CheckResult option" where
  "check_calibration_file rf cy sr p =
     (case read_file rf (js_value (rf_json rf)) p of Inl e \<Rightarrow> Some (fail_detail e)
      | Inr v \<Rightarrow>
        let b = bo_budget (sr_body sr);
            (recomputed, uncanonical) = (case canon (without_digest v) of
               Inr bytes \<Rightarrow> (cy_sha cy bytes, []) | Inl e \<Rightarrow> ([], [''file is not canonicalisable: '' @ CanonError_text e])) in
        Option.bind (self_digest_notes (header_str v ''digest'') recomputed) (\<lambda>self.
        Option.bind (bound_digest_notes (bo_calibration_digest (sr_body sr)) recomputed) (\<lambda>bound.
        let bad = calibration_mismatches b v @ uncanonical @ self @ bound in
        if bad \<noteq> [] then Some (fail_detail (sep_join ''; '' bad))
        else Option.bind (short recomputed) (\<lambda>x. Some (Inr (calibration_detail b v x))))))"

subsection \<open>The run\<close>

definition push_result :: "string \<Rightarrow> CheckResult \<Rightarrow> Outcome \<Rightarrow> Outcome \<times> bool" where
  "push_result name r out = (case r of Inr detail \<Rightarrow> (push name True ''ok'' detail out, True)
     | Inl (st, detail) \<Rightarrow> (push name False st detail out, False))"

text \<open>A companion that was not asked for passes.\<close>

definition companion :: "string \<Rightarrow> string option \<Rightarrow> (string \<Rightarrow> CheckResult option) \<Rightarrow> Outcome \<Rightarrow> (Outcome \<times> bool) option" where
  "companion name p check out = (case p of None \<Rightarrow> Some (out, True)
     | Some p \<Rightarrow> map_option (\<lambda>r. push_result name r out) (check p))"

definition TEST_PUBKEYS :: "string list" where
  "TEST_PUBKEYS = [''03a107bff3ce10be1d70dd18e74bc09967e4d6309ba50d5f1ddc8664125531b8'',
     ''2543b92ff1095511476adc8369db6ddc933665a11978dda1404ee1066ca9559d'']"

text \<open>The fields the outcome repeats and the warning about a test key.\<close>

definition outcome_start :: "Crypto \<Rightarrow> SignedReceipt \<Rightarrow> Outcome" where
  "outcome_start cy sr =
     (let b = sr_body sr;
          out = Outcome_default \<lparr> ou_pubkey := sr_pubkey sr, ou_body_digest := sr_body_digest sr, ou_envelope_digest := bo_envelope_digest b,
            ou_calibration_digest := bo_calibration_digest b, ou_verdict_chain_head := bo_verdict_chain_head b,
            ou_timing_chain_head := bo_timing_chain_head b, ou_counts := Some (bo_counts b),
            ou_embodiment_digest := Option.bind (value_get ''embodiment'' (bo_envelope b)) (\<lambda>e. ok_of (sha256_jcs (cy_sha cy) e)),
            ou_test_key := (sr_pubkey sr \<in> set TEST_PUBKEYS) \<rparr> in
      if ou_test_key out then push_line ''  WARNING: signed with the committed test key'' out else out)"

definition base_checks :: "SignedReceipt \<Rightarrow> string option \<Rightarrow> VerifyReport \<Rightarrow> Outcome \<Rightarrow> Outcome option" where
  "base_checks sr expected rep out =
     (let b = sr_body sr; out = push ''schema'' (vr_schema_ok rep) (ok_word (vr_schema_ok rep)) (sanitize (bo_schema b)) out in
      Option.bind (short (sr_pubkey sr)) (\<lambda>k.
      let out = push ''signature'' (vr_sig_ok rep) (ok_word (vr_sig_ok rep)) (''(key '' @ k @ '')'') out in
      Option.bind (case expected of None \<Rightarrow> Some out
        | Some x \<Rightarrow> if vr_pubkey_ok rep then Some (push ''pubkey'' True ''ok'' ''(matches --pubkey)'' out)
            else Option.bind (short x) (\<lambda>x. Some (push ''pubkey'' False ''MISMATCH'' ('' (receipt '' @ k @ '', expected '' @ x @ '')'') out))) (\<lambda>out.
      Option.bind (short (sr_body_digest sr)) (\<lambda>d.
      let out = push ''body digest'' (vr_digest_ok rep) (ok_word (vr_digest_ok rep)) d out in
      Option.bind (case ou_embodiment_digest out of Some e \<Rightarrow> short e | None \<Rightarrow> Some ''n/a'') (\<lambda>emb.
      Option.bind (short (bo_envelope_digest b)) (\<lambda>ed.
      let out = push ''envelope'' (vr_envelope_digest_ok rep) (ok_word (vr_envelope_digest_ok rep)) (''digest recomputed '' @ ed @ ''  embodiment '' @ emb) out in
      Some (push ''counts'' (vr_counts_ok rep) (ok_word (vr_counts_ok rep))
        (''ticks='' @ show_num (vc_ticks (bo_counts b)) @ '' verdict_events='' @ show_num (bo_verdict_events b) @
         '' timing_events='' @ show_num (bo_timing_events b) @ '' steps='' @ show_num (eo_steps (bo_outcome b))) out)))))))"

text \<open>Without a ticks file, the embedded ticks alone.\<close>

definition embedded_check :: "SignedReceipt \<Rightarrow> VerifyReport \<Rightarrow> Outcome \<Rightarrow> Outcome option" where
  "embedded_check sr rep out =
     (let b = sr_body sr in
      if vr_ticks_ok rep then Option.bind (short (bo_verdict_chain_head b)) (\<lambda>h.
        Some (push ''verdict chain'' True ''ok'' (''head='' @ h @ ''  (embedded '' @ bo_ticks_policy b @ '': '' @ digits (length (bo_ticks b)) @
          '' ticks; pass --ticks for the full chain)'') out))
      else (case vr_break_at rep of
          Some brk \<Rightarrow> Some (push ''verdict chain'' False (''BROKEN at seq='' @ show_num brk) ''(embedded ticks)'' out)
        | None \<Rightarrow> Some (push ''verdict chain'' False ''FAIL'' ''embedded ticks do not match the body'' out)))"

definition policy_text :: "(string \<times> string) list \<Rightarrow> string option" where
  "policy_text policy = (case (map_of policy ''repo_id'', map_of policy ''revision'') of
       (Some r, Some revision) \<Rightarrow> Option.bind (short revision) (\<lambda>x. Some (r @ ''@'' @ x))
     | (Some r, None) \<Rightarrow> Some r
     | (None, _) \<Rightarrow> Option.bind (short (case map_of policy ''weights_sha256'' of Some w \<Rightarrow> w | None \<Rightarrow> [])) (\<lambda>x. Some (''weights='' @ x)))"

text \<open>The lines about an intact record.\<close>

definition intact_lines :: "SignedReceipt \<Rightarrow> bool \<Rightarrow> Outcome \<Rightarrow> Outcome option" where
  "intact_lines sr fuse_ok out =
     (let b = sr_body sr;
          out = push_line (if fuse_ok then kv ''FUSE HELD'' (''('' @ show_num (vc_substituted (bo_counts b)) @ '' substitutions, '' @
              show_num (vc_violations_reached_env (bo_counts b)) @ '' violations reached the environment)'')
            else kv ''FUSE NOT ENFORCED'' []) out in
      Option.bind (case (bo_calibration_digest b, bb_tier1_armed (bo_budget b)) of
          (Some d, True) \<Rightarrow> Option.bind (short d) (\<lambda>x. Some (x @ ''(alpha='' @ show_num (bb_alpha_num (bo_budget b)) @ ''/'' @ show_num (bb_alpha_den (bo_budget b)) @ '')''))
        | _ \<Rightarrow> Some ''none'') (\<lambda>calib.
      Option.bind (policy_text (rb_policy (bo_run b))) (\<lambda>policy.
      Option.bind (short (bo_envelope_digest b)) (\<lambda>ed.
      Option.bind (short (rb_init_state_digest (bo_run b))) (\<lambda>ini.
      let out = push_line (kv ''bindings'' (''envelope='' @ ed @ '' calibration='' @ calib @ '' policy='' @ policy)) out;
          out = push_line (kv [] (''seeds pool='' @ rb_seed_pool (bo_run b) @ '' seed='' @ show_num (rb_seed (bo_run b)) @ '' init_state='' @ ini @
            ''  client='' @ bo_client b)) out in
      Some (foldl (\<lambda>out h. push_line (kv ''handoff'' (''seq='' @ show_num (hr_seq h) @ '' tick='' @ show_num (hr_tick h) @ '' '' @
        reason_name (hr_reason h) @ '' outcome='' @ hr_outcome h @ '' -- '' @ reason_text (hr_reason h))) out) out (bo_handoffs b)))))))"

definition failed_notes :: "Check list \<Rightarrow> string list" where
  "failed_notes cs = map (\<lambda>c. ck_name c @ '': '' @ ck_detail c) (filter (\<lambda>c. \<not> ck_ok c \<and> ck_status c = ''FAIL'' \<and> ck_detail c \<noteq> []) cs)"

definition run_checks :: "Reads \<Rightarrow> Crypto \<Rightarrow> Opts \<Rightarrow> Outcome option" where
  "run_checks rf cy o' =
     (case read_file rf (rf_receipt rf) (op_receipt o') of
        Inl e \<Rightarrow> Some (let out = push_line (status_line ''intact'' ''NO'' []) (push ''schema'' False ''FAIL'' (''not a signed receipt: '' @ e) Outcome_default) in
          out \<lparr> ou_notes := ou_notes out @ [e] \<rparr>)
      | Inr sr \<Rightarrow>
        Option.bind (verify_receipt cy sr (op_pubkey o')) (\<lambda>rep.
        Option.bind (base_checks sr (op_pubkey o') rep (outcome_start cy sr)) (\<lambda>out.
        Option.bind (case op_ticks o' of Some p \<Rightarrow> companion ''verdict chain'' (Some p) (check_ticks rf cy sr) out
          | None \<Rightarrow> map_option (\<lambda>out. (out, True)) (embedded_check sr rep out)) (\<lambda>(out, ok1).
        Option.bind (companion ''timing chain'' (op_timing o') (check_timing rf cy sr) out) (\<lambda>(out, ok2).
        Option.bind (case op_ledger o' of None \<Rightarrow> Some (out, True, None)
          | Some p \<Rightarrow> map_option (\<lambda>r. case r of Inr (detail, head) \<Rightarrow> (push ''ledger'' True ''ok'' detail out, True, Some head)
              | Inl (st, detail) \<Rightarrow> (push ''ledger'' False st detail out, False, None)) (check_ledger rf cy sr p)) (\<lambda>(out, ok3, head).
        Option.bind (companion ''curve'' (op_curve o') (\<lambda>p. check_curve rf cy sr p head) out) (\<lambda>(out, ok4).
        Option.bind (companion ''calibration'' (op_calibration o') (check_calibration_file rf cy sr) out) (\<lambda>(out, ok5).
        let intact' = (intact rep \<and> ok1 \<and> ok2 \<and> ok3 \<and> ok4 \<and> ok5); fuse_ok = (intact' \<and> vr_fuse_ok rep);
            out = push_line (status_line ''intact'' (if intact' then ''YES'' else ''NO'') []) (out \<lparr> ou_intact := intact', ou_fuse_ok := fuse_ok \<rparr>) in
        Option.bind (if intact' then intact_lines sr fuse_ok out else Some out) (\<lambda>out.
        let out = out \<lparr> ou_notes := vr_notes rep @ failed_notes (ou_checks out) \<rparr> in
        Some (out \<lparr> ou_lines := ou_lines out @ note_block (ou_notes out) \<rparr>))))))))))"

end
