(* ===== verification/VerifySpec.thy ===== *)
theory VerifySpec
  imports Verify
begin

text \<open>
  What \<open>lictor verify\<close> promises, without its files and lines: the evidence that each companion must be,
  and that a record is reported intact exactly when the receipt verifies and every companion that was named
  is such evidence.
\<close>

subsection \<open>The evidence\<close>

definition header_for :: "Value \<Rightarrow> SignedReceipt \<Rightarrow> bool" where
  "header_for h sr \<longleftrightarrow> header_str h ''schema'' = TICKS_SCHEMA \<and> header_str h ''run_id'' = rb_run_id (bo_run (sr_body sr)) \<and>
     header_str h ''arm_id'' = rb_arm_id (bo_run (sr_body sr)) \<and>
     value_u64 (value_get ''episode_index'' h) = Some (ucast (rb_episode_index (bo_run (sr_body sr)))) \<and> header_str h ''genesis'' = ZERO_HASH"

text \<open>The embedded ticks start at an event of the file.\<close>

definition tail_inside :: "TickEvent list \<Rightarrow> TickEvent list \<Rightarrow> bool" where
  "tail_inside embedded es \<longleftrightarrow> (\<forall>first \<in> set (take 1 embedded). \<exists>e.
     find (\<lambda>e. te_seq e = te_seq first) es = Some e \<and> te_prev e = te_prev first \<and> te_hash e = te_hash first)"

definition ticks_bound :: "Crypto \<Rightarrow> SignedReceipt \<Rightarrow> TickEvent list \<Rightarrow> bool" where
  "ticks_bound cy sr es \<longleftrightarrow> ticks.linked (cy_sha cy) (cy_b64 cy) (ticks.first_seq es) 0 ZERO_HASH es \<and>
     of_nat (length es) = bo_verdict_events (sr_body sr) \<and> ticks.head_of ZERO_HASH es = bo_verdict_chain_head (sr_body sr) \<and>
     tail_inside (bo_ticks (sr_body sr)) es"

definition timing_bound :: "Crypto \<Rightarrow> SignedReceipt \<Rightarrow> TimingEvent list \<Rightarrow> bool" where
  "timing_bound cy sr es \<longleftrightarrow> timing.linked (cy_sha cy) (timing.first_seq es) 0 ZERO_HASH es \<and>
     of_nat (length es) = bo_timing_events (sr_body sr) \<and> timing.head_of ZERO_HASH es = bo_timing_chain_head (sr_body sr)"

text \<open>The first entry for this episode with the digest of the receipt follows the entry that the receipt names.\<close>

definition entry_for :: "SignedReceipt \<Rightarrow> LedgerEntry \<Rightarrow> bool" where
  "entry_for sr e \<longleftrightarrow> (let run = bo_run (sr_body sr) in le_run_id e = rb_run_id run \<and> le_arm_id e = rb_arm_id run \<and>
     le_episode_index e = rb_episode_index run \<and> le_receipt_digest e = sr_body_digest sr)"

definition ledger_bound :: "Crypto \<Rightarrow> SignedReceipt \<Rightarrow> LedgerEntry list \<Rightarrow> bool" where
  "ledger_bound cy sr es \<longleftrightarrow> ledger.linked (cy_sha cy) 0 0 ZERO_HASH es \<and>
     (\<exists>e. find (entry_for sr) es = Some e \<and> le_prev e = (case bo_ledger_prev (sr_body sr) of Some x \<Rightarrow> x | None \<Rightarrow> ZERO_HASH))"

definition curve_bound :: "Crypto \<Rightarrow> SignedReceipt \<Rightarrow> SignedCurve \<Rightarrow> string option \<Rightarrow> bool" where
  "curve_bound cy sr sc head \<longleftrightarrow> intact (verify_curve cy sc None) \<and> cb_run_id (sc_body sc) = rb_run_id (bo_run (sr_body sr)) \<and>
     cb_arm_id (sc_body sc) = rb_arm_id (bo_run (sr_body sr)) \<and> (\<forall>h. head = Some h \<longrightarrow> h = cb_ledger_head (sc_body sc))"

definition calibration_bound :: "Crypto \<Rightarrow> SignedReceipt \<Rightarrow> Value \<Rightarrow> bool" where
  "calibration_bound cy sr v \<longleftrightarrow> calibration_mismatches (bo_budget (sr_body sr)) v = [] \<and>
     (\<exists>bytes. canon (without_digest v) = Inr bytes \<and> cy_sha cy bytes \<in> {[], header_str v ''digest''} \<and>
       bo_calibration_digest (sr_body sr) = Some (cy_sha cy bytes))"

subsection \<open>Each check decides its evidence\<close>

definition passes :: "'e + 'a \<Rightarrow> bool" where "passes r \<longleftrightarrow> (\<exists>d. r = Inr d)"

lemma passes_simps [simp]: "passes (Inr d)" "\<not> passes (Inl e)" "\<not> passes (fail_detail x)"
  by (simp_all add: passes_def fail_detail_def)

lemma note_if_Nil [simp]: "note_if b s = [] \<longleftrightarrow> \<not> b"
  by (simp add: note_if_def)

lemma check_header_ok: "check_header rf h sr = [] \<longleftrightarrow> header_for h sr"
  by (simp add: check_header_def header_for_def Let_def)

lemma head_mismatch_fails: "head_mismatch a b = Some r \<Longrightarrow> \<not> passes r"
  by (auto simp: head_mismatch_def bind_eq_Some_conv)

lemma check_tail_ok: "check_tail embedded es = Some r \<Longrightarrow> passes r \<longleftrightarrow> tail_inside embedded es"
  by (auto simp: check_tail_def tail_inside_def bind_eq_Some_conv split: list.splits option.splits if_splits)

lemma bind_someE: "Option.bind x f = Some y \<Longrightarrow> (\<And>a. x = Some a \<Longrightarrow> f a = Some y \<Longrightarrow> thesis) \<Longrightarrow> thesis"
  by (auto simp: bind_eq_Some_conv)

lemma tail_step:
  assumes "Option.bind (check_tail embedded es) (\<lambda>r. case r of Inl e \<Rightarrow> Some (Inl e) | Inr x \<Rightarrow> Option.bind (short h) (\<lambda>h. Some (Inr (f h)))) = Some r"
  shows "passes r \<longleftrightarrow> tail_inside embedded es"
proof (rule bind_someE [OF assms])
  fix t assume t: "check_tail embedded es = Some t"
    "(case t of Inl e \<Rightarrow> Some (Inl e) | Inr x \<Rightarrow> Option.bind (short h) (\<lambda>h. Some (Inr (f h)))) = Some r"
  then have "passes r \<longleftrightarrow> passes t" by (cases t) (auto simp: bind_eq_Some_conv)
  then show ?thesis using check_tail_ok [OF t(1)] by simp
qed

lemma check_ticks_ok:
  assumes "check_ticks rf cy sr p = Some r"
  shows "passes r \<longleftrightarrow> (\<exists>h es. read_jsonl (rf_json rf) (from_doc (rf_json rf) (TickEvent_read (js_dec (rf_json rf)))) p (rf_text rf p) = Inr (h, es) \<and>
    header_for h sr \<and> ticks_bound cy sr es)"
proof (cases "read_jsonl (rf_json rf) (from_doc (rf_json rf) (TickEvent_read (js_dec (rf_json rf)))) p (rf_text rf p)")
  case (Inl e)
  then show ?thesis using assms by (auto simp: check_ticks_def)
next
  case (Inr x)
  obtain h es where x: "x = (h, es)" by (cases x)
  show ?thesis
  proof (cases "header_for h sr")
    case True
    obtain rep where rep: "verify_ticks_file cy sr es = Some rep" using assms Inr x True by (auto simp: check_ticks_def check_header_ok bind_eq_Some_conv)
    note w = ticks.walk_cases [OF rep [unfolded verify_ticks_file_def verify_tick_chain_def]]
    show ?thesis
      using assms Inr x True rep
      by (auto simp: check_ticks_def check_header_ok Let_def w(1,3,4) ticks_bound_def dest!: head_mismatch_fails tail_step split: if_splits)
  qed (use assms Inr x in \<open>auto simp: check_ticks_def check_header_ok\<close>)
qed

lemma check_timing_ok:
  assumes "check_timing rf cy sr p = Some r"
  shows "passes r \<longleftrightarrow> (\<exists>h es. read_jsonl (rf_json rf) (from_doc (rf_json rf) TimingEvent_read) p (rf_text rf p) = Inr (h, es) \<and>
    header_for h sr \<and> timing_bound cy sr es)"
proof (cases "read_jsonl (rf_json rf) (from_doc (rf_json rf) TimingEvent_read) p (rf_text rf p)")
  case (Inl e)
  then show ?thesis using assms by (auto simp: check_timing_def)
next
  case (Inr x)
  obtain h es where x: "x = (h, es)" by (cases x)
  show ?thesis
  proof (cases "header_for h sr")
    case True
    obtain rep where rep: "verify_timing_chain (cy_sha cy) es = Some rep" using assms Inr x True by (auto simp: check_timing_def check_header_ok bind_eq_Some_conv)
    note w = timing.walk_cases [OF rep [unfolded verify_timing_chain_def]]
    show ?thesis
      using assms Inr x True rep
      by (auto simp: check_timing_def check_header_ok bind_eq_Some_conv Let_def w(1,3,4) timing_bound_def dest!: head_mismatch_fails split: if_splits)
  qed (use assms Inr x in \<open>auto simp: check_timing_def check_header_ok\<close>)
qed

lemma find_filter: "find Q (filter P xs) = find (\<lambda>x. P x \<and> Q x) xs"
  by (induction xs) auto

lemma mine_first:
  "find (\<lambda>e. le_receipt_digest e = sr_body_digest sr) (filter (\<lambda>e. le_run_id e = rb_run_id (bo_run (sr_body sr)) \<and>
     le_arm_id e = rb_arm_id (bo_run (sr_body sr)) \<and> le_episode_index e = rb_episode_index (bo_run (sr_body sr))) es) = find (entry_for sr) es"
  unfolding find_filter by (rule arg_cong [where f = "\<lambda>P. find P es"]) (auto simp: entry_for_def Let_def)

lemma check_ledger_ok:
  assumes "check_ledger rf cy sr p = Some r"
  shows "(\<exists>d. r = Inr (d, head)) \<longleftrightarrow> (\<exists>h vs es. read_jsonl (rf_json rf) (js_value (rf_json rf)) p (rf_text rf p) = Inr (h, vs) \<and>
    header_str h ''schema'' = LEDGER_SCHEMA \<and> read_ledger (rf_json rf) p (rf_text rf p) = Inr es \<and> ledger_bound cy sr es \<and> head = ledger.head_of ZERO_HASH es)"
proof (cases "read_jsonl (rf_json rf) (js_value (rf_json rf)) p (rf_text rf p)")
  case (Inl e)
  then show ?thesis using assms by (auto simp: check_ledger_def)
next
  case (Inr x)
  obtain h vs where x: "x = (h, vs)" by (cases x)
  show ?thesis
  proof (cases "header_str h ''schema'' = LEDGER_SCHEMA")
    case True
    show ?thesis
    proof (cases "read_ledger (rf_json rf) p (rf_text rf p)")
      case (Inl e)
      then show ?thesis using assms Inr x True by (auto simp: check_ledger_def)
    next
      case es: (Inr es)
      obtain rep where rep: "verify_ledger (cy_sha cy) es = Some rep" using assms Inr x True es by (auto simp: check_ledger_def bind_eq_Some_conv)
      have l: "lr_chain_ok rep \<longleftrightarrow> ledger.linked (cy_sha cy) 0 0 ZERO_HASH es" "lr_chain_ok rep \<Longrightarrow> lr_head rep = ledger.head_of ZERO_HASH es"
        using verify_ledger_ok [OF rep] verify_ledger_linked [of "cy_sha cy" es] rep by auto
      show ?thesis
        using assms Inr x True es rep l
        by (auto simp: check_ledger_def Let_def mine_first ledger_bound_def bind_eq_Some_conv split: if_splits option.splits)
    qed
  qed (use assms Inr x in \<open>auto simp: check_ledger_def\<close>)
qed

lemma check_curve_ok:
  assumes "check_curve rf cy sr p head = Some r"
  shows "passes r \<longleftrightarrow> (\<exists>sc. read_file rf (rf_curve rf) p = Inr sc \<and> curve_bound cy sr sc head)"
  using assms
  by (cases "read_file rf (rf_curve rf) p"; cases head) (auto simp: check_curve_def Let_def curve_bound_def bind_eq_Some_conv split: if_splits)

lemma self_digest_notes_Nil: "self_digest_notes a b = Some ns \<Longrightarrow> ns = [] \<longleftrightarrow> b \<in> {[], a}"
  by (auto simp: self_digest_notes_def bind_eq_Some_conv split: if_splits)

lemma bound_digest_notes_Nil: "bound_digest_notes a b = Some ns \<Longrightarrow> ns = [] \<longleftrightarrow> a = Some b"
  by (auto simp: bound_digest_notes_def bind_eq_Some_conv split: if_splits option.splits)

lemma check_calibration_file_ok:
  assumes "check_calibration_file rf cy sr p = Some r"
  shows "passes r \<longleftrightarrow> (\<exists>v. read_file rf (js_value (rf_json rf)) p = Inr v \<and> calibration_bound cy sr v)"
proof (cases "read_file rf (js_value (rf_json rf)) p")
  case (Inl e)
  then show ?thesis using assms by (auto simp: check_calibration_file_def)
next
  case (Inr v)
  obtain rc uc where rc: "(case canon (without_digest v) of
      Inr bytes \<Rightarrow> (cy_sha cy bytes, []) | Inl e \<Rightarrow> ([], [''file is not canonicalisable: '' @ CanonError_text e])) = (rc, uc)" by (rule prod.exhaust)
  obtain self bound where n: "self_digest_notes (header_str v ''digest'') rc = Some self" "bound_digest_notes (bo_calibration_digest (sr_body sr)) rc = Some bound"
    and r: "passes r \<longleftrightarrow> calibration_mismatches (bo_budget (sr_body sr)) v @ uc @ self @ bound = []"
    using assms [unfolded check_calibration_file_def Inr Let_def sum.case rc prod.case]
    by (elim bind_someE) (auto simp: bind_eq_Some_conv split: if_splits)
  show ?thesis
    using rc r Inr self_digest_notes_Nil [OF n(1)] bound_digest_notes_Nil [OF n(2)] by (auto simp: calibration_bound_def split: sum.splits)
qed

subsection \<open>The whole verification\<close>

definition ticks_evidence :: "Reads \<Rightarrow> Crypto \<Rightarrow> SignedReceipt \<Rightarrow> string \<Rightarrow> bool" where
  "ticks_evidence rf cy sr p \<longleftrightarrow> (\<exists>h es. read_jsonl (rf_json rf) (from_doc (rf_json rf) (TickEvent_read (js_dec (rf_json rf)))) p (rf_text rf p) = Inr (h, es) \<and>
     header_for h sr \<and> ticks_bound cy sr es)"

definition timing_evidence :: "Reads \<Rightarrow> Crypto \<Rightarrow> SignedReceipt \<Rightarrow> string \<Rightarrow> bool" where
  "timing_evidence rf cy sr p \<longleftrightarrow> (\<exists>h es. read_jsonl (rf_json rf) (from_doc (rf_json rf) TimingEvent_read) p (rf_text rf p) = Inr (h, es) \<and>
     header_for h sr \<and> timing_bound cy sr es)"

definition ledger_evidence :: "Reads \<Rightarrow> Crypto \<Rightarrow> SignedReceipt \<Rightarrow> string \<Rightarrow> string \<Rightarrow> bool" where
  "ledger_evidence rf cy sr p head \<longleftrightarrow> (\<exists>h vs es. read_jsonl (rf_json rf) (js_value (rf_json rf)) p (rf_text rf p) = Inr (h, vs) \<and>
     header_str h ''schema'' = LEDGER_SCHEMA \<and> read_ledger (rf_json rf) p (rf_text rf p) = Inr es \<and> ledger_bound cy sr es \<and> head = ledger.head_of ZERO_HASH es)"

definition curve_evidence :: "Reads \<Rightarrow> Crypto \<Rightarrow> SignedReceipt \<Rightarrow> string \<Rightarrow> string option \<Rightarrow> bool" where
  "curve_evidence rf cy sr p head \<longleftrightarrow> (\<exists>sc. read_file rf (rf_curve rf) p = Inr sc \<and> curve_bound cy sr sc head)"

definition calibration_evidence :: "Reads \<Rightarrow> Crypto \<Rightarrow> SignedReceipt \<Rightarrow> string \<Rightarrow> bool" where
  "calibration_evidence rf cy sr p \<longleftrightarrow> (\<exists>v. read_file rf (js_value (rf_json rf)) p = Inr v \<and> calibration_bound cy sr v)"

text \<open>Every companion that was named.\<close>

definition companions_evidence :: "Reads \<Rightarrow> Crypto \<Rightarrow> Opts \<Rightarrow> SignedReceipt \<Rightarrow> bool" where
  "companions_evidence rf cy o' sr \<longleftrightarrow> (\<forall>p. op_ticks o' = Some p \<longrightarrow> ticks_evidence rf cy sr p) \<and>
     (\<forall>p. op_timing o' = Some p \<longrightarrow> timing_evidence rf cy sr p) \<and> (\<forall>p. op_calibration o' = Some p \<longrightarrow> calibration_evidence rf cy sr p) \<and>
     (case op_ledger o' of None \<Rightarrow> \<forall>p. op_curve o' = Some p \<longrightarrow> curve_evidence rf cy sr p None
      | Some l \<Rightarrow> \<exists>head. ledger_evidence rf cy sr l head \<and> (\<forall>p. op_curve o' = Some p \<longrightarrow> curve_evidence rf cy sr p (Some head)))"

definition evidence :: "Reads \<Rightarrow> Crypto \<Rightarrow> Opts \<Rightarrow> SignedReceipt \<Rightarrow> VerifyReport \<Rightarrow> bool" where
  "evidence rf cy o' sr rep \<longleftrightarrow> read_file rf (rf_receipt rf) (op_receipt o') = Inr sr \<and> verify_receipt cy sr (op_pubkey o') = Some rep \<and>
     intact rep \<and> companions_evidence rf cy o' sr"

lemma companion_ok:
  assumes "companion name p check out = Some (out', ok)" "\<And>q r. check q = Some r \<Longrightarrow> passes r \<longleftrightarrow> E q"
  shows "ok \<longleftrightarrow> (\<forall>q. p = Some q \<longrightarrow> E q)"
proof (cases p)
  case (Some q)
  then obtain r where r: "check q = Some r" "ok = snd (push_result name r out)" using assms(1) by (auto simp: companion_def)
  have "snd (push_result name r out) \<longleftrightarrow> passes r" by (cases r) (auto simp: push_result_def passes_def)
  then show ?thesis using r assms(2) Some by simp
qed (use assms(1) in \<open>simp add: companion_def\<close>)

lemma push_line_verdicts [simp]: "ou_intact (push_line l out) = ou_intact out" "ou_fuse_ok (push_line l out) = ou_fuse_ok out"
  by (simp_all add: push_line_def)

lemma push_lines_verdicts [simp]: "ou_intact (foldl (\<lambda>out h. push_line (f h) out) out hs) = ou_intact out"
  "ou_fuse_ok (foldl (\<lambda>out h. push_line (f h) out) out hs) = ou_fuse_ok out"
  by (induction hs arbitrary: out) simp_all

lemma intact_lines_verdicts: "intact_lines sr f out = Some out' \<Longrightarrow> ou_intact out' = ou_intact out \<and> ou_fuse_ok out' = ou_fuse_ok out"
  by (auto simp: intact_lines_def Let_def elim!: bind_someE)

theorem run_checks_exact:
  assumes "run_checks rf cy o' = Some out" "read_file rf (rf_receipt rf) (op_receipt o') = Inr sr" "verify_receipt cy sr (op_pubkey o') = Some rep"
  shows "ou_intact out \<longleftrightarrow> intact rep \<and> companions_evidence rf cy o' sr" "ou_fuse_ok out \<longleftrightarrow> ou_intact out \<and> vr_fuse_ok rep"
proof -
  obtain out0 out1 ok1 out2 ok2 out3 ok3 head out4 ok4 out5 ok5 out6 where d:
    "(case op_ticks o' of Some p \<Rightarrow> companion ''verdict chain'' (Some p) (check_ticks rf cy sr) out0
          | None \<Rightarrow> map_option (\<lambda>out. (out, True)) (embedded_check sr rep out0)) = Some (out1, ok1)"
    "companion ''timing chain'' (op_timing o') (check_timing rf cy sr) out1 = Some (out2, ok2)"
    "(case op_ledger o' of None \<Rightarrow> Some (out2, True, None)
          | Some p \<Rightarrow> map_option (\<lambda>r. case r of Inr (detail, head) \<Rightarrow> (push ''ledger'' True ''ok'' detail out2, True, Some head)
              | Inl (st, detail) \<Rightarrow> (push ''ledger'' False st detail out2, False, None)) (check_ledger rf cy sr p)) = Some (out3, ok3, head)"
    "companion ''curve'' (op_curve o') (\<lambda>p. check_curve rf cy sr p head) out3 = Some (out4, ok4)"
    "companion ''calibration'' (op_calibration o') (check_calibration_file rf cy sr) out4 = Some (out5, ok5)"
    "(let intact' = (intact rep \<and> ok1 \<and> ok2 \<and> ok3 \<and> ok4 \<and> ok5); fuse_ok = (intact' \<and> vr_fuse_ok rep);
          out = push_line (status_line ''intact'' (if intact' then ''YES'' else ''NO'') []) (out5 \<lparr> ou_intact := intact', ou_fuse_ok := fuse_ok \<rparr>) in
      Option.bind (if intact' then intact_lines sr fuse_ok out else Some out) (\<lambda>out.
      let out = out \<lparr> ou_notes := vr_notes rep @ failed_notes (ou_checks out) \<rparr> in
      Some (out \<lparr> ou_lines := ou_lines out @ note_block (ou_notes out) \<rparr>))) = Some out"
    using assms unfolding run_checks_def sum.case by (auto elim!: bind_someE)
  have e1: "ok1 \<longleftrightarrow> (\<forall>p. op_ticks o' = Some p \<longrightarrow> ticks_evidence rf cy sr p)"
  proof (cases "op_ticks o'")
    case (Some p)
    then have "companion ''verdict chain'' (op_ticks o') (check_ticks rf cy sr) out0 = Some (out1, ok1)" using d(1) by simp
    then show ?thesis by (rule companion_ok [OF _ check_ticks_ok [folded ticks_evidence_def]])
  qed (use d(1) in auto)
  have e2: "ok2 \<longleftrightarrow> (\<forall>p. op_timing o' = Some p \<longrightarrow> timing_evidence rf cy sr p)"
    by (rule companion_ok [OF d(2) check_timing_ok [folded timing_evidence_def]])
  have e4: "ok4 \<longleftrightarrow> (\<forall>p. op_curve o' = Some p \<longrightarrow> curve_evidence rf cy sr p head)"
    by (rule companion_ok [OF d(4) check_curve_ok [folded curve_evidence_def]])
  have e5: "ok5 \<longleftrightarrow> (\<forall>p. op_calibration o' = Some p \<longrightarrow> calibration_evidence rf cy sr p)"
    by (rule companion_ok [OF d(5) check_calibration_file_ok [folded calibration_evidence_def]])
  have e3: "ok3 \<and> ok4 \<longleftrightarrow> (case op_ledger o' of None \<Rightarrow> \<forall>p. op_curve o' = Some p \<longrightarrow> curve_evidence rf cy sr p None
      | Some l \<Rightarrow> \<exists>head. ledger_evidence rf cy sr l head \<and> (\<forall>p. op_curve o' = Some p \<longrightarrow> curve_evidence rf cy sr p (Some head)))"
  proof (cases "op_ledger o'")
    case None
    then show ?thesis using d(3) e4 by auto
  next
    case (Some l)
    then obtain r where r: "check_ledger rf cy sr l = Some r" using d(3) by auto
    have l: "(\<exists>x. r = Inr (x, h)) \<longleftrightarrow> ledger_evidence rf cy sr l h" for h by (rule check_ledger_ok [OF r, folded ledger_evidence_def])
    show ?thesis
    proof (cases r)
      case (Inl e)
      then have "\<not> ledger_evidence rf cy sr l h" for h using l [of h] by simp
      then show ?thesis using d(3) Some r Inl by (auto split: prod.splits)
    next
      case (Inr x)
      obtain a b where x: "x = (a, b)" by (cases x)
      have "ledger_evidence rf cy sr l h \<longleftrightarrow> h = b" for h using l [of h] Inr x by auto
      then show ?thesis using d(3) e4 Some r Inr x by auto
    qed
  qed
  have o: "ou_intact out \<longleftrightarrow> intact rep \<and> ok1 \<and> ok2 \<and> ok3 \<and> ok4 \<and> ok5" "ou_fuse_ok out \<longleftrightarrow> ou_intact out \<and> vr_fuse_ok rep"
    using d(6) by (auto simp: Let_def dest!: intact_lines_verdicts split: if_splits elim!: bind_someE)
  show "ou_intact out \<longleftrightarrow> intact rep \<and> companions_evidence rf cy o' sr" using e1 e2 e3 e5 o(1) by (auto simp: companions_evidence_def)
  show "ou_fuse_ok out \<longleftrightarrow> ou_intact out \<and> vr_fuse_ok rep" by (rule o(2))
qed

theorem run_checks_evidence:
  assumes "run_checks rf cy o' = Some out"
  shows "ou_intact out \<longleftrightarrow> (\<exists>sr rep. evidence rf cy o' sr rep)" "Outcome_exit_code out = 0 \<longleftrightarrow> (\<exists>sr rep. evidence rf cy o' sr rep \<and> vr_fuse_ok rep)"
proof -
  have "(ou_intact out \<longleftrightarrow> (\<exists>sr rep. evidence rf cy o' sr rep)) \<and> (ou_fuse_ok out \<longleftrightarrow> (\<exists>sr rep. evidence rf cy o' sr rep \<and> vr_fuse_ok rep))"
  proof (cases "read_file rf (rf_receipt rf) (op_receipt o')")
    case (Inl e)
    then have "\<not> ou_intact out" "\<not> ou_fuse_ok out"
      using assms by (auto simp: run_checks_def Let_def push_def push_line_def Outcome_default_def)
    then show ?thesis using Inl by (simp add: evidence_def)
  next
    case (Inr sr)
    then obtain rep where rep: "verify_receipt cy sr (op_pubkey o') = Some rep" using verify_receipt_total by blast
    show ?thesis using run_checks_exact [OF assms Inr rep] Inr rep by (simp add: evidence_def)
  qed
  then show "ou_intact out \<longleftrightarrow> (\<exists>sr rep. evidence rf cy o' sr rep)" "Outcome_exit_code out = 0 \<longleftrightarrow> (\<exists>sr rep. evidence rf cy o' sr rep \<and> vr_fuse_ok rep)"
    by (auto simp: Outcome_exit_code_def)
qed

end
