(* ===== verification/VerifyTotal.thy ===== *)
theory VerifyTotal
  imports VerifySpec
begin

text \<open>
  When \<open>lictor verify\<close> returns: text that \<open>short\<close> cannot cut stops it, and on evidence whose digests can be
  cut, as every hexadecimal digest can, it returns and reports the record intact.
\<close>

definition cuttable :: "string \<Rightarrow> bool" where "cuttable s \<longleftrightarrow> short s \<noteq> None"

lemma cuttable_ascii: "list_all (\<lambda>c. byte_of c < 0x80) s \<Longrightarrow> cuttable s"
  using short_ascii [of s] by (auto simp: cuttable_def)

lemma cuttable_short: "length s \<le> SHORT_HEX \<Longrightarrow> cuttable s"
  by (simp add: cuttable_def short_def)

subsection \<open>Panics\<close>

lemma run_checks_panics:
  assumes "read_file rf (rf_receipt rf) (op_receipt o') = Inr sr" "\<not> cuttable (sr_pubkey sr) \<or> \<not> cuttable (sr_body_digest sr)"
  shows "run_checks rf cy o' = None"
proof -
  obtain rep where "verify_receipt cy sr (op_pubkey o') = Some rep" using verify_receipt_total by blast
  moreover have "base_checks sr (op_pubkey o') rep out = None" for out
    using assms(2) by (cases "short (sr_pubkey sr)"; cases "op_pubkey o'") (auto simp: base_checks_def cuttable_def Let_def bind_eq_None_conv)
  ultimately show ?thesis using assms(1) by (simp add: run_checks_def)
qed

subsection \<open>Evidence is accepted\<close>

lemma check_tail_total: "tail_inside embedded es \<Longrightarrow> check_tail embedded es = Some (Inr [])"
  by (cases embedded) (auto simp: check_tail_def tail_inside_def)

lemma check_ticks_total:
  assumes "ticks_evidence rf cy sr p" "cuttable (bo_verdict_chain_head (sr_body sr))"
  shows "\<exists>d. check_ticks rf cy sr p = Some (Inr d)"
proof -
  obtain h es where e: "read_jsonl (rf_json rf) (from_doc (rf_json rf) (TickEvent_read (js_dec (rf_json rf)))) p (rf_text rf p) = Inr (h, es)"
    "check_header rf h sr = []" "ticks_bound cy sr es" using assms(1) by (auto simp: ticks_evidence_def check_header_ok)
  note b = e(3) [unfolded ticks_bound_def]
  obtain x where "short (bo_verdict_chain_head (sr_body sr)) = Some x" using assms(2) by (auto simp: cuttable_def)
  then show ?thesis
    using e(1,2) b ticks.walk_linked [of "cy_sha cy" "cy_b64 cy" es ZERO_HASH] check_tail_total [of "bo_ticks (sr_body sr)" es]
    by (simp add: check_ticks_def Let_def verify_ticks_file_def verify_tick_chain_def)
qed

lemma check_timing_total:
  assumes "timing_evidence rf cy sr p" "cuttable (bo_timing_chain_head (sr_body sr))"
  shows "\<exists>d. check_timing rf cy sr p = Some (Inr d)"
proof -
  obtain h es where e: "read_jsonl (rf_json rf) (from_doc (rf_json rf) TimingEvent_read) p (rf_text rf p) = Inr (h, es)"
    "check_header rf h sr = []" "timing_bound cy sr es" using assms(1) by (auto simp: timing_evidence_def check_header_ok)
  note b = e(3) [unfolded timing_bound_def]
  obtain x where "short (bo_timing_chain_head (sr_body sr)) = Some x" using assms(2) by (auto simp: cuttable_def)
  then show ?thesis
    using e(1,2) b timing.walk_linked [of "cy_sha cy" es ZERO_HASH] by (simp add: check_timing_def Let_def verify_timing_chain_def)
qed

lemma check_ledger_total:
  assumes "ledger_evidence rf cy sr p head" "cuttable head"
  shows "\<exists>d. check_ledger rf cy sr p = Some (Inr (d, head))"
proof -
  obtain h vs es where e: "read_jsonl (rf_json rf) (js_value (rf_json rf)) p (rf_text rf p) = Inr (h, vs)"
    "header_str h ''schema'' = LEDGER_SCHEMA" "read_ledger (rf_json rf) p (rf_text rf p) = Inr es" "ledger_bound cy sr es"
    "head = ledger.head_of ZERO_HASH es" using assms(1) by (auto simp: ledger_evidence_def)
  obtain x where x: "short head = Some x" using assms(2) by (auto simp: cuttable_def)
  obtain e0 where b: "ledger.linked (cy_sha cy) 0 0 ZERO_HASH es" "find (entry_for sr) es = Some e0"
    "le_prev e0 = (case bo_ledger_prev (sr_body sr) of Some x \<Rightarrow> x | None \<Rightarrow> ZERO_HASH)" using e(4) by (auto simp: ledger_bound_def)
  obtain rep where r: "verify_ledger (cy_sha cy) es = Some rep" "lr_chain_ok rep" "lr_head rep = head"
    using verify_ledger_linked [OF b(1)] e(5) by auto
  show ?thesis using e(1-3) x b(2,3) r by (simp add: check_ledger_def Let_def mine_first)
qed

lemma check_curve_total:
  assumes "read_file rf (rf_curve rf) p = Inr sc" "curve_bound cy sr sc head" "cuttable (cb_ledger_head (sc_body sc))" "cuttable (sc_pubkey sc)"
  shows "\<exists>d. check_curve rf cy sr p head = Some (Inr d)"
  using assms by (cases head) (auto simp: check_curve_def curve_bound_def Let_def cuttable_def)

lemma check_calibration_total:
  assumes "calibration_evidence rf cy sr p" "\<And>d. bo_calibration_digest (sr_body sr) = Some d \<Longrightarrow> cuttable d"
  shows "\<exists>d. check_calibration_file rf cy sr p = Some (Inr d)"
proof -
  obtain v bytes where v: "read_file rf (js_value (rf_json rf)) p = Inr v" "calibration_mismatches (bo_budget (sr_body sr)) v = []"
    "canon (without_digest v) = Inr bytes" "cy_sha cy bytes \<in> {[], header_str v ''digest''}" "bo_calibration_digest (sr_body sr) = Some (cy_sha cy bytes)"
    using assms(1) by (auto simp: calibration_evidence_def calibration_bound_def)
  have n: "self_digest_notes (header_str v ''digest'') (cy_sha cy bytes) = Some []" "bound_digest_notes (bo_calibration_digest (sr_body sr)) (cy_sha cy bytes) = Some []"
    using v(4,5) by (auto simp: self_digest_notes_def bound_digest_notes_def)
  obtain x where "short (cy_sha cy bytes) = Some x" using assms(2) [OF v(5)] by (auto simp: cuttable_def)
  then show ?thesis using v(1-3) n by (simp add: check_calibration_file_def Let_def)
qed

text \<open>The texts of a receipt that the report cuts.\<close>

definition policy_revision :: "(string \<times> string) list \<Rightarrow> string" where
  "policy_revision m = (case (map_of m ''repo_id'', map_of m ''revision'') of (Some _, Some x) \<Rightarrow> x | (Some _, None) \<Rightarrow> []
     | (None, _) \<Rightarrow> (case map_of m ''weights_sha256'' of Some w \<Rightarrow> w | None \<Rightarrow> []))"

definition receipt_cuttable :: "Crypto \<Rightarrow> SignedReceipt \<Rightarrow> bool" where
  "receipt_cuttable cy sr \<longleftrightarrow> (let b = sr_body sr in
     list_all cuttable [sr_pubkey sr, sr_body_digest sr, bo_envelope_digest b, bo_verdict_chain_head b, bo_timing_chain_head b,
       rb_init_state_digest (bo_run b), policy_revision (rb_policy (bo_run b))] \<and>
     (\<forall>d. bo_calibration_digest b = Some d \<longrightarrow> cuttable d) \<and>
     (\<forall>d. Option.bind (value_get ''embodiment'' (bo_envelope b)) (\<lambda>e. ok_of (sha256_jcs (cy_sha cy) e)) = Some d \<longrightarrow> cuttable d))"

lemma policy_text_total: "cuttable (policy_revision m) \<Longrightarrow> \<exists>t. policy_text m = Some t"
  by (auto simp: policy_text_def policy_revision_def cuttable_def split: option.splits)

lemma intact_lines_total:
  assumes "receipt_cuttable cy sr" shows "\<exists>out'. intact_lines sr f out = Some out'"
proof -
  note c = assms [unfolded receipt_cuttable_def Let_def]
  obtain p where p: "policy_text (rb_policy (bo_run (sr_body sr))) = Some p"
    using policy_text_total [of "rb_policy (bo_run (sr_body sr))"] c by auto
  obtain e i where ei: "short (bo_envelope_digest (sr_body sr)) = Some e" "short (rb_init_state_digest (bo_run (sr_body sr))) = Some i"
    using c by (auto simp: cuttable_def)
  have "\<exists>t. (case (bo_calibration_digest (sr_body sr), bb_tier1_armed (bo_budget (sr_body sr))) of
          (Some d, True) \<Rightarrow> Option.bind (short d) (\<lambda>x. Some (x @ ''(alpha='' @ show_num (bb_alpha_num (bo_budget (sr_body sr))) @ ''/'' @ show_num (bb_alpha_den (bo_budget (sr_body sr))) @ '')''))
        | _ \<Rightarrow> Some ''none'') = Some t"
    using c by (cases "bo_calibration_digest (sr_body sr)"; cases "bb_tier1_armed (bo_budget (sr_body sr))") (auto simp: cuttable_def)
  then show ?thesis using p ei by (auto simp: intact_lines_def Let_def)
qed

lemma push_digest [simp]: "ou_embodiment_digest (push a b c d out) = ou_embodiment_digest out"
  "ou_embodiment_digest (push_line l out) = ou_embodiment_digest out"
  by (simp_all add: push_def push_line_def)

lemma base_checks_total:
  assumes "receipt_cuttable cy sr" "vr_pubkey_ok rep"
  shows "\<exists>out. base_checks sr expected rep (outcome_start cy sr) = Some out"
proof -
  note c = assms(1) [unfolded receipt_cuttable_def Let_def]
  obtain k d e where k: "short (sr_pubkey sr) = Some k" "short (sr_body_digest sr) = Some d" "short (bo_envelope_digest (sr_body sr)) = Some e"
    using c by (auto simp: cuttable_def)
  have o: "ou_embodiment_digest (outcome_start cy sr) = Option.bind (value_get ''embodiment'' (bo_envelope (sr_body sr))) (\<lambda>e. ok_of (sha256_jcs (cy_sha cy) e))"
    by (simp add: outcome_start_def Let_def)
  obtain m where m: "(case ou_embodiment_digest (outcome_start cy sr) of Some e \<Rightarrow> short e | None \<Rightarrow> Some ''n/a'') = Some m"
    using c unfolding o by (cases "Option.bind (value_get ''embodiment'' (bo_envelope (sr_body sr))) (\<lambda>e. ok_of (sha256_jcs (cy_sha cy) e))")
      (auto simp: cuttable_def)
  show ?thesis using k m assms(2) by (cases expected) (simp_all add: base_checks_def Let_def)
qed

theorem run_checks_accepts:
  assumes "evidence rf cy o' sr rep" "receipt_cuttable cy sr"
    "\<And>l head. op_ledger o' = Some l \<Longrightarrow> ledger_evidence rf cy sr l head \<Longrightarrow> cuttable head"
    "\<And>p sc. op_curve o' = Some p \<Longrightarrow> read_file rf (rf_curve rf) p = Inr sc \<Longrightarrow> cuttable (cb_ledger_head (sc_body sc)) \<and> cuttable (sc_pubkey sc)"
  shows "\<exists>out. run_checks rf cy o' = Some out \<and> ou_intact out"
proof -
  note e = assms(1) [unfolded evidence_def companions_evidence_def]
  note c = assms(2) [unfolded receipt_cuttable_def Let_def]
  have "vr_pubkey_ok rep" "vr_ticks_ok rep" using e by (auto simp: intact_def)
  then obtain out0 where o0: "base_checks sr (op_pubkey o') rep (outcome_start cy sr) = Some out0" using base_checks_total assms(2) by blast
  obtain x where "short (bo_verdict_chain_head (sr_body sr)) = Some x" using c by (auto simp: cuttable_def)
  then obtain out1 where o1: "(case op_ticks o' of Some p \<Rightarrow> companion ''verdict chain'' (Some p) (check_ticks rf cy sr) out0
          | None \<Rightarrow> map_option (\<lambda>out. (out, True)) (embedded_check sr rep out0)) = Some (out1, True)"
    using e c check_ticks_total [of rf cy sr] \<open>vr_ticks_ok rep\<close>
    by (cases "op_ticks o'") (auto simp: companion_def push_result_def embedded_check_def Let_def, fastforce)
  obtain out2 where o2: "companion ''timing chain'' (op_timing o') (check_timing rf cy sr) out1 = Some (out2, True)"
    using e c check_timing_total [of rf cy sr] by (cases "op_timing o'") (auto simp: companion_def push_result_def, fastforce)
  obtain out3 head where o3: "(case op_ledger o' of None \<Rightarrow> Some (out2, True, None)
          | Some p \<Rightarrow> map_option (\<lambda>r. case r of Inr (detail, head) \<Rightarrow> (push ''ledger'' True ''ok'' detail out2, True, Some head)
              | Inl (st, detail) \<Rightarrow> (push ''ledger'' False st detail out2, False, None)) (check_ledger rf cy sr p)) = Some (out3, True, head)"
    and cu: "\<forall>p. op_curve o' = Some p \<longrightarrow> curve_evidence rf cy sr p head"
  proof (cases "op_ledger o'")
    case None
    then show ?thesis using e that [of out2 None] by simp
  next
    case (Some l)
    then obtain h where h: "ledger_evidence rf cy sr l h" "\<forall>p. op_curve o' = Some p \<longrightarrow> curve_evidence rf cy sr p (Some h)" using e by auto
    then obtain d where "check_ledger rf cy sr l = Some (Inr (d, h))" using check_ledger_total assms(3) Some by blast
    then show ?thesis using that [of _ "Some h"] Some h(2) by simp
  qed
  obtain out4 where o4: "companion ''curve'' (op_curve o') (\<lambda>p. check_curve rf cy sr p head) out3 = Some (out4, True)"
  proof (cases "op_curve o'")
    case (Some p)
    then obtain sc where sc: "read_file rf (rf_curve rf) p = Inr sc" "curve_bound cy sr sc head" using cu by (auto simp: curve_evidence_def)
    then obtain d where "check_curve rf cy sr p head = Some (Inr d)" using check_curve_total assms(4) [OF Some sc(1)] by blast
    then show ?thesis using that Some by (simp add: companion_def push_result_def)
  qed (simp add: companion_def that)
  obtain out5 where o5: "companion ''calibration'' (op_calibration o') (check_calibration_file rf cy sr) out4 = Some (out5, True)"
    using e c check_calibration_total [of rf cy sr] by (cases "op_calibration o'") (auto simp: companion_def push_result_def, fastforce)
  obtain out6 where o6: "intact_lines sr (vr_fuse_ok rep) (push_line (status_line ''intact'' ''YES'' [])
      (out5 \<lparr> ou_intact := True, ou_fuse_ok := vr_fuse_ok rep \<rparr>)) = Some out6"
    using intact_lines_total [OF assms(2)] by blast
  have "\<exists>out. run_checks rf cy o' = Some out"
    unfolding run_checks_def using e by (simp add: o0 o1 o2 o3 o4 o5 o6 Let_def)
  then show ?thesis using run_checks_evidence(1) [of rf cy o'] assms(1) by blast
qed

end
