(* ===== verification/SessionVerify.thy ===== *)
theory SessionVerify
  imports SessionReply VerifyTotal
begin

text \<open>
  The two ends together: the receipt, ticks, timing and ledger files that a session writes at
  \<open>episode_end\<close>, read back by \<open>lictor verify\<close>, are the evidence it asks for.
\<close>

subsection \<open>Chains\<close>

lemma linked_seq:
  "ticks.linked sha b64 0 0 g ts \<Longrightarrow> i < length ts \<Longrightarrow> te_seq (ts ! i) = of_nat i"
  by (simp add: ticks.linked_nth ticks.good_def)

lemma linked_find:
  assumes "ticks.linked sha b64 0 0 g ts" "length ts < 2 ^ 32" "k < length ts"
  shows "find (\<lambda>e. te_seq e = te_seq (ts ! k)) ts = Some (ts ! k)"
proof -
  have "te_seq (ts ! j) \<noteq> te_seq (ts ! k)" if "j < k" for j
  proof -
    have "unat (of_nat j :: u32) = j" "unat (of_nat k :: u32) = k" using that assms(2,3) by (simp_all add: u32_small)
    then have "(of_nat j :: u32) \<noteq> of_nat k" using that by (metis less_irrefl)
    then show ?thesis using linked_seq [OF assms(1)] assms(3) that by simp
  qed
  then show ?thesis unfolding find_Some_iff using assms(3) by blast
qed

lemma embedded_inside:
  assumes "ticks.linked sha b64 0 0 g ts" "length ts < 2 ^ 32"
  shows "tail_inside (embed_ticks policy ts) ts"
proof -
  have "embed_ticks policy ts \<in> {[], ts, drop (length ts - 32) ts}" by (simp add: embed_ticks_def)
  moreover have "tail_inside (drop k ts) ts" for k
  proof (cases "k < length ts")
    case True
    then have "take 1 (drop k ts) = [ts ! k]" by (simp add: take_Suc_conv_app_nth Cons_nth_drop_Suc [symmetric])
    then show ?thesis using linked_find [OF assms True] by (simp add: tail_inside_def)
  qed (simp add: tail_inside_def)
  ultimately show ?thesis using \<open>\<And>k. tail_inside (drop k ts) ts\<close> [of 0] \<open>\<And>k. tail_inside (drop k ts) ts\<close> by (auto simp: tail_inside_def)
qed

lemma first_zero:
  "ticks.linked sha b64 0 0 g ts \<Longrightarrow> ticks.first_seq ts = 0" "timing.linked sha 0 0 g tms \<Longrightarrow> timing.first_seq tms = 0"
  by (cases ts; simp add: ticks.first_seq_def ticks.good_def) (cases tms; simp add: timing.first_seq_def timing.good_def)

subsection \<open>Headers\<close>

lemma header_names: "distinct (map fst (header_fields sr))" "''stream'' \<notin> set (map fst (header_fields sr))"
  by (simp_all add: header_fields_def Let_def)

lemma header_get: "value_get k (header_value sr timing) = map_of (header_fields sr @ (if timing then [(''stream'', VStr ''timing'')] else [])) k"
proof -
  have "distinct (map fst (header_fields sr @ (if timing then [(''stream'', VStr ''timing'')] else [])))" using header_names by auto
  then show ?thesis by (simp add: header_value_def value_get_def struct_value_def map_of_sorted del: map_append)
qed

lemma header_value_for: "header_for (header_value sr timing) sr"
proof -
  have n: "value_u64 (Some (num (w :: u32))) = Some (ucast w)" for w
  proof -
    have "uint w < 2 ^ 32" using uint_bounded [of w] by simp
    then show ?thesis by (simp add: value_u64_def read_num_def num_def unsigned_ucast_eq)
  qed
  show ?thesis
    by (simp add: header_for_def header_str_def header_get header_fields_def Let_def value_str_def read_str_def n)
qed

subsection \<open>The ledger\<close>

lemma appended_bound:
  assumes "append_ledger (cy_sha cy) old sr = Some (es, entry)" "ledger.linked (cy_sha cy) 0 0 ZERO_HASH old"
    "\<forall>x \<in> set old. le_receipt_digest x \<noteq> sr_body_digest sr"
    "bo_ledger_prev (sr_body sr) = (if old = [] then None else Some (le_hash (last old)))"
  shows "ledger_bound cy sr es"
proof -
  have e: "es = old @ [entry]" "ledger.linked (cy_sha cy) 0 0 ZERO_HASH es" using append_ledger_linked [OF assms(2,1)] by auto
  have x: "entry_for sr entry" "le_prev entry = (if old = [] then ZERO_HASH else le_hash (last old))"
    using assms(1) by (auto simp: append_ledger_def ledger_entry_def Let_def entry_for_def)
  have "find (entry_for sr) old = None" using assms(3) by (auto simp: find_None_iff entry_for_def Let_def)
  then have "find (entry_for sr) es = Some entry" unfolding e(1) using x(1) by (induction old) (auto split: if_splits)
  then show ?thesis using e(2) x(2) assms(4) by (simp add: ledger_bound_def)
qed

subsection \<open>What the session wrote is evidence\<close>

text \<open>The files on the disk as the verifier reads them; \<open>serde_json\<close> parses back the canonical text of each value.\<close>

definition parses_back :: "Json \<Rightarrow> Value set \<Rightarrow> bool" where
  "parses_back js vs \<longleftrightarrow> (\<forall>v \<in> vs. \<forall>t. canon_of v = Inr t \<longrightarrow> js_value js t = Inr v \<and> js_doc js t = Inr v)"

definition episode_files :: "Reads \<Rightarrow> Crypto \<Rightarrow> EpisodePaths \<Rightarrow> Disk \<Rightarrow> SignedReceipt \<Rightarrow> TickEvent list \<Rightarrow> TimingEvent list \<Rightarrow> LedgerEntry list \<Rightarrow> bool" where
  "episode_files rf cy p dk sr ts tms es \<longleftrightarrow>
     dk_receipt dk (pa_receipt p) = Some sr \<and> dk_ticks dk (pa_ticks p) = Some ts \<and> dk_timing dk (pa_timing p) = Some tms \<and>
     dk_ledger dk (pa_ledger p) = Some es \<and> read_file rf (rf_receipt rf) (pa_receipt p) = Inr sr \<and>
     (\<exists>t. ticks_text cy sr ts = Inr t \<and> rf_text rf (pa_ticks p) = Inr t) \<and>
     (\<exists>t. timing_text sr tms = Inr t \<and> rf_text rf (pa_timing p) = Inr t) \<and>
     (\<exists>h vs. read_jsonl (rf_json rf) (js_value (rf_json rf)) (pa_ledger p) (rf_text rf (pa_ledger p)) = Inr (h, vs) \<and> header_str h ''schema'' = LEDGER_SCHEMA) \<and>
     read_ledger (rf_json rf) (pa_ledger p) (rf_text rf (pa_ledger p)) = Inr es"

lemma header_canon: "canon_of (header_value sr timing) = header_line sr timing"
proof -
  have "check_keys (header_value sr timing) = Inr ()"
    using walk_keys_ok [of "''$''" "header_value sr timing"]
    by (simp add: check_keys_def header_value_def header_fields_def Let_def safe_simps key_ok_def less_eq_char_def)
  then show ?thesis by (simp add: canon_of_def header_line_def)
qed

lemma ticks_read_back:
  assumes "ticks_text cy sr ts = Inr t" "parses_back js ({header_value sr False} \<union> TickEvent_value (cy_b64 cy) ` set ts)"
    "\<And>bs. js_dec js (cy_b64 cy bs) = Some bs" "list_all arrays_described ts"
  shows "read_jsonl js (from_doc js (TickEvent_read (js_dec js))) p (Inr t) = Inr (header_value sr False, ts)"
proof -
  obtain h where h: "canon_of (header_value sr False) = Inr h" "jsonl (Inr h) (map (TickEvent_value (cy_b64 cy)) ts) = Inr t"
    using assms(1) unfolding ticks_text_def header_canon by (auto simp: jsonl_def split: sum.splits)
  have "read_jsonl js (from_doc js (TickEvent_read (js_dec js))) p (Inr t) = Inr (header_value sr False, map id ts)"
    unfolding header_value_def
  proof (rule read_jsonl_written [OF h(1) [unfolded header_value_def] h(2)])
    fix e l assume e: "e \<in> set ts" "canon_of (TickEvent_value (cy_b64 cy) e) = Inr l"
    then have "js_doc js l = Inr (TickEvent_value (cy_b64 cy) e)" using assms(2) by (auto simp: parses_back_def)
    then show "from_doc js (TickEvent_read (js_dec js)) l = Inr (id e)"
      using TickEvent_read_value [of "js_dec js" "cy_b64 cy" e] assms(3,4) e(1) by (simp add: from_doc_def list_all_iff)
  qed (use assms(2) h(1) header_get [of "''schema''" sr False] in \<open>auto simp: parses_back_def TickEvent_value_def header_value_def header_fields_def Let_def\<close>)
  then show ?thesis by simp
qed

lemma timing_read_back:
  assumes "timing_text sr ts = Inr t" "parses_back js ({header_value sr True} \<union> TimingEvent_value ` set ts)"
  shows "read_jsonl js (from_doc js TimingEvent_read) p (Inr t) = Inr (header_value sr True, ts)"
proof -
  obtain h where h: "canon_of (header_value sr True) = Inr h" "jsonl (Inr h) (map TimingEvent_value ts) = Inr t"
    using assms(1) unfolding timing_text_def header_canon by (auto simp: jsonl_def split: sum.splits)
  have "read_jsonl js (from_doc js TimingEvent_read) p (Inr t) = Inr (header_value sr True, map id ts)"
    unfolding header_value_def
  proof (rule read_jsonl_written [OF h(1) [unfolded header_value_def] h(2)])
    fix e l assume e: "e \<in> set ts" "canon_of (TimingEvent_value e) = Inr l"
    then have "js_doc js l = Inr (TimingEvent_value e)" using assms(2) by (auto simp: parses_back_def)
    then show "from_doc js TimingEvent_read l = Inr (id e)" by (simp add: from_doc_def TimingEvent_read_value)
  qed (use assms(2) h(1) header_get [of "''schema''" sr True] in \<open>auto simp: parses_back_def TimingEvent_value_def header_value_def header_fields_def Let_def\<close>)
  then show ?thesis by simp
qed

definition episode_opts :: "EpisodePaths \<Rightarrow> string \<Rightarrow> Opts" where
  "episode_opts p pubkey = \<lparr> op_receipt = pa_receipt p, op_ticks = Some (pa_ticks p), op_timing = Some (pa_timing p),
     op_ledger = Some (pa_ledger p), op_curve = None, op_calibration = None, op_pubkey = Some pubkey \<rparr>"

theorem session_evidence:
  assumes "session_reach ht s" "ss_ep s = Some ep" "ep_paths ep = Some p"
    "handle ht w s (Req_EpisodeEnd e) = Some (s', Resp_EpisodeReceipt m)"
    "signs (ht_crypto ht) (ss_key s)" "keys_clean (ht_envelope_json ht (cg_envelope (ss_cfg s)))"
    "length (ep_ticks ep) < 2 ^ 32" "oc_steps (ee_outcome e) = of_nat (length (ep_ticks ep))"
    "cg_ticks_policy (ss_cfg s) \<in> {''all'', ''tail32'', ''none''}"
    and old: "\<forall>es. dk_ledger (ss_disk s) (pa_ledger p) = Some es \<longrightarrow>
      ledger.linked (cy_sha (ht_crypto ht)) 0 0 ZERO_HASH es \<and> (\<forall>x \<in> set es. le_receipt_digest x \<noteq> er_body_digest m)"
    and f: "episode_files rf (ht_crypto ht) p (ss_disk s') sr ts tms es"
    and j: "parses_back (rf_json rf) ({header_value sr False, header_value sr True} \<union> TickEvent_value (cy_b64 (ht_crypto ht)) ` set ts \<union>
      TimingEvent_value ` set tms)" "\<And>bs. js_dec (rf_json rf) (cy_b64 (ht_crypto ht) bs) = Some bs" "list_all arrays_described ts"
  shows "\<exists>rep. evidence rf (ht_crypto ht) (episode_opts p (ss_pubkey s)) sr rep"
proof (rule session_written [OF assms(1-9)])
  let ?cy = "ht_crypto ht"
  fix sr0 r tms0 es0 prior entry
  assume w: "dk_receipt (ss_disk s') (pa_receipt p) = Some sr0" "dk_ticks (ss_disk s') (pa_ticks p) = Some (ep_ticks ep)"
    "dk_timing (ss_disk s') (pa_timing p) = Some tms0" "dk_ledger (ss_disk s') (pa_ledger p) = Some es0"
    and r: "verify_receipt ?cy sr0 (Some (ss_pubkey s)) = Some r" "intact r" "sr_body_digest sr0 = er_body_digest m"
    and a: "append_ledger (cy_sha ?cy) prior sr0 = Some (es0, entry)"
      "prior = (case dk_ledger (ss_disk s) (pa_ledger p) of None \<Rightarrow> [] | Some es \<Rightarrow> es)"
      "bo_ledger_prev (sr_body sr0) = (if prior = [] then None else Some (le_hash (last prior)))"
    and l: "ticks.linked (cy_sha ?cy) (cy_b64 ?cy) 0 0 ZERO_HASH (ep_ticks ep)" "timing.linked (cy_sha ?cy) 0 0 ZERO_HASH tms0"
      "length tms0 = length (ep_ticks ep)"
    and b: "bo_verdict_events (sr_body sr0) = of_nat (length (ep_ticks ep))" "bo_timing_events (sr_body sr0) = of_nat (length tms0)"
      "bo_verdict_chain_head (sr_body sr0) = ticks.head_of ZERO_HASH (ep_ticks ep)"
      "bo_timing_chain_head (sr_body sr0) = timing.head_of ZERO_HASH tms0"
      "bo_ticks (sr_body sr0) = embed_ticks (cg_ticks_policy (ss_cfg s)) (ep_ticks ep)"
  note ff = f [unfolded episode_files_def]
  have e: "sr0 = sr" "ep_ticks ep = ts" "tms0 = tms" "es0 = es" using w ff by simp_all
  have tb: "ticks_bound ?cy sr ts"
    using l(1) b e assms(7) embedded_inside [OF l(1) assms(7)] by (simp add: ticks_bound_def first_zero(1))
  have mb: "timing_bound ?cy sr tms" using l(2) b(2,4) e by (simp add: timing_bound_def first_zero(2))
  have lb: "ledger_bound ?cy sr es"
    by (rule appended_bound [OF a(1) [unfolded e(1,4)]]) (use a(2,3) old r(3) e in \<open>auto split: option.splits\<close>)
  have "ticks_evidence rf ?cy sr (pa_ticks p)"
    using ff ticks_read_back [of ?cy sr ts _ "rf_json rf" "pa_ticks p"] tb header_value_for j
    by (fastforce simp: ticks_evidence_def parses_back_def)
  moreover have "timing_evidence rf ?cy sr (pa_timing p)"
    using ff timing_read_back [of sr tms _ "rf_json rf" "pa_timing p"] mb header_value_for j(1)
    by (fastforce simp: timing_evidence_def parses_back_def)
  moreover have "ledger_evidence rf ?cy sr (pa_ledger p) (ledger.head_of ZERO_HASH es)"
    using ff lb unfolding ledger_evidence_def by blast
  ultimately have "evidence rf ?cy (episode_opts p (ss_pubkey s)) sr r"
    using ff r e by (auto simp: evidence_def companions_evidence_def episode_opts_def)
  then show ?thesis by blast
qed

end
