(* ===== verification/DemoVerify.thy ===== *)
theory DemoVerify
  imports SessionVerify DemoSession
begin

text \<open>
  Inputs for the theorems about \<open>lictor verify\<close>: a JSON parser that knows the canonical texts of a list of
  values, the files of the demonstration session, and a receipt under a hash that keeps four bytes.
\<close>

subsection \<open>A table of texts\<close>

definition table_parse :: "Value list \<Rightarrow> string \<Rightarrow> string + Value" where
  "table_parse vs t = (case find (\<lambda>v. canon_of v = Inr t) vs of Some v \<Rightarrow> Inr v | None \<Rightarrow> Inl [])"

definition table_json :: "Value list \<Rightarrow> Json" where
  "table_json vs = \<lparr> js_value = table_parse vs, js_doc = table_parse vs, js_misfit = (\<lambda>_. []),
     js_dec = (\<lambda>s. Some (map (\<lambda>c. of_char c) s)) \<rparr>"

lemma table_parses:
  assumes "list_all Value_wf vs" "v \<in> set vs" "canon_of v = Inr t" shows "table_parse vs t = Inr v"
proof -
  have "find (\<lambda>v. canon_of v = Inr t) vs \<noteq> None" using assms(2,3) by (auto simp: find_None_iff)
  then obtain u where u: "find (\<lambda>v. canon_of v = Inr t) vs = Some u" by blast
  then have "u \<in> set vs" "canon_of u = Inr t" by (auto simp: find_Some_iff)
  then have "u = v" using canon_injective [OF canon_of_Inr canon_of_Inr] assms by (auto simp: list_all_iff)
  then show ?thesis using u by (simp add: table_parse_def)
qed

lemma table_parses_back: "list_all Value_wf vs \<Longrightarrow> parses_back (table_json vs) (set vs)"
  by (simp add: parses_back_def table_json_def table_parses)

subsection \<open>The values of the files\<close>

lemma header_wf: "Value_wf (header_value sr timing)"
proof -
  have "distinct (map fst (header_fields sr @ (if timing then [(''stream'', VStr ''timing'')] else [])))" using header_names by auto
  then show ?thesis unfolding header_value_def by (rule struct_value_wf) (simp add: header_fields_def Let_def serial)
qed

lemma LedgerHeader_wf: "Value_wf (LedgerHeader_value sr)"
  unfolding LedgerHeader_value_def by (rule struct_value_wf) (simp_all add: serial)

lemma header_written: "\<exists>h. canon_of (header_value sr timing) = Inr h"
  unfolding canon_of_ok by (simp add: header_value_def header_fields_def Let_def safe_simps key_ok_def less_eq_char_def)

lemma LedgerHeader_written: "\<exists>h. canon_of (LedgerHeader_value sr) = Inr h"
  unfolding canon_of_ok by (simp add: LedgerHeader_value_def safe_simps key_ok_def less_eq_char_def)

lemma entry_written:
  assumes "safe (le_seed e)" shows "\<exists>h. canon_of (LedgerEntry_value e) = Inr h"
  unfolding canon_of_ok using assms
  by (simp add: LedgerEntry_value_def LedgerEntry_fields_def safe_simps key_ok_def less_eq_char_def num_safe64)

text \<open>The text of a ledger with one entry.\<close>

lemma one_entry_ledger:
  assumes "safe (le_seed e)" "parses_back js {LedgerHeader_value sr, LedgerEntry_value e}"
  obtains t where "append_ledger_text None sr e = Inr t" "read_jsonl js (js_value js) p (Inr t) = Inr (LedgerHeader_value sr, [LedgerEntry_value e])"
    "read_ledger js p (Inr t) = Inr [e]"
proof -
  obtain h l where h: "canon_of (LedgerHeader_value sr) = Inr h" "canon_of (LedgerEntry_value e) = Inr l"
    using LedgerHeader_written entry_written [OF assms(1)] by blast
  let ?t = "unlines [h, l]"
  have a: "append_ledger_text None sr e = Inr ?t" by (simp add: append_ledger_text_def h map_ok_def unlines_def)
  have j: "jsonl (Inr h) (map LedgerEntry_value [e]) = Inr ?t" by (simp add: jsonl_def h map_ok_def)
  have "value_get ''schema'' (LedgerHeader_value sr) \<noteq> None"
    by (simp add: LedgerHeader_value_def value_get_def struct_value_def map_of_sorted)
  then have "read_jsonl js (js_value js) p (Inr ?t) = Inr (LedgerHeader_value sr, map LedgerEntry_value [e])"
    unfolding LedgerHeader_value_def
    by (intro read_jsonl_written [OF h(1) [unfolded LedgerHeader_value_def] j])
      (use assms(2) h in \<open>auto simp: parses_back_def LedgerEntry_value_def LedgerHeader_value_def\<close>)
  moreover have "read_ledger js p (Inr ?t) = Inr [e]"
    using ledger_created [OF a] assms(2) by (auto simp: parses_back_def)
  ultimately show thesis using that a by simp
qed

subsection \<open>The demonstration session's files\<close>

lemma demo_files:
  obtains s ep s' m sr es rf where "session_reach demo_host s" "demo_opened s" "ss_ep s = Some ep" "ep_ticks ep = []" "ep_paths ep = Some (episode_paths ''o'' ''r'' ''a'' 0)"
    "handle demo_host demo_world s (Req_EpisodeEnd demo_end) = Some (s', Resp_EpisodeReceipt m)"
    "episode_files rf demo_crypto (episode_paths ''o'' ''r'' ''a'' 0) (ss_disk s') sr [] [] es"
    "parses_back (rf_json rf) {header_value sr False, header_value sr True}"
    "\<And>bs. js_dec (rf_json rf) (demo_b64 bs) = Some bs"
proof -
  let ?p = "episode_paths ''o'' ''r'' ''a'' 0"
  obtain s0 s r where s: "session_reach demo_host s" "demo_opened s" by (rule demo_open)
  obtain s' m where h: "handle demo_host demo_world s (Req_EpisodeEnd demo_end) = Some (s', Resp_EpisodeReceipt m)"
    using demo_closes [OF s(2)] by blast
  obtain ep where ep: "ss_ep s = Some ep" "ep_paths ep = Some ?p" "ep_ticks ep = []" "ss_cfg s = demo_config" "ss_disk s = demo_disk"
    "rb_seed (ep_run ep) = 7" using s(2) by (auto simp: demo_opened_def)
  have c: "oc_steps (ee_outcome demo_end) = of_nat (length (ep_ticks ep))" "cg_ticks_policy (ss_cfg s) \<in> {''all'', ''tail32'', ''none''}"
    "keys_clean (ht_envelope_json demo_host (cg_envelope (ss_cfg s)))" "signs (ht_crypto demo_host) (ss_key s)"
    using ep by (simp_all add: demo_end_def demo_outcome_def demo_config_def demo_signs) (simp add: demo_host_def)
  obtain sr tms es entry where w: "dk_receipt (ss_disk s') (pa_receipt ?p) = Some sr" "dk_ticks (ss_disk s') (pa_ticks ?p) = Some []"
    "dk_timing (ss_disk s') (pa_timing ?p) = Some tms" "dk_ledger (ss_disk s') (pa_ledger ?p) = Some es"
    "append_ledger (cy_sha demo_crypto) [] sr = Some (es, entry)" "length tms = 0"
    by (rule session_written [OF s(1) ep(1,2) h c(4,3) _ c(1,2)]) (use ep(3,5) in \<open>simp_all add: demo_disk_def\<close>)
  have e: "es = [entry]" "le_seed entry = rb_seed (bo_run (sr_body sr))" "\<exists>e. ledger_entry (cy_sha demo_crypto) ZERO_HASH 0 sr = Some e"
    using w(5) by (auto simp: append_ledger_def ledger_entry_def Let_def)
  then have safe: "safe (le_seed entry)" using ledger_entry_total by (auto simp: safe_def)
  let ?vs = "[header_value sr False, header_value sr True, LedgerHeader_value sr, LedgerEntry_value entry]"
  let ?js = "table_json ?vs"
  have pb: "parses_back ?js (set ?vs)" by (rule table_parses_back) (simp add: header_wf LedgerHeader_wf LedgerEntry_value_wf)
  obtain lt where lt: "read_jsonl ?js (js_value ?js) (pa_ledger ?p) (Inr lt) = Inr (LedgerHeader_value sr, [LedgerEntry_value entry])"
    "read_ledger ?js (pa_ledger ?p) (Inr lt) = Inr [entry]"
    by (rule one_entry_ledger [OF safe, of ?js sr "pa_ledger ?p"]) (use pb in \<open>auto simp: parses_back_def\<close>)
  obtain h0 h1 where hh: "header_line sr False = Inr h0" "header_line sr True = Inr h1" using header_written by (metis header_canon)
  have t: "ticks_text demo_crypto sr [] = Inr (unlines [h0])" "timing_text sr [] = Inr (unlines [h1])"
    by (simp_all add: ticks_text_def timing_text_def hh jsonl_def map_ok_def)
  define rf where "rf = \<lparr> rf_text = (\<lambda>q. if q = pa_ticks ?p then Inr (unlines [h0]) else if q = pa_timing ?p then Inr (unlines [h1])
      else if q = pa_ledger ?p then Inr lt else Inr []), rf_json = ?js, rf_receipt = (\<lambda>_. Inr sr), rf_curve = (\<lambda>_. Inl []), rf_show = (\<lambda>_. []) \<rparr>"
  have d: "pa_ticks ?p \<noteq> pa_timing ?p" "pa_ticks ?p \<noteq> pa_ledger ?p" "pa_timing ?p \<noteq> pa_ledger ?p"
    "pa_receipt ?p \<notin> {pa_ticks ?p, pa_timing ?p, pa_ledger ?p}" by code_simp+
  have hs: "header_str (LedgerHeader_value sr) ''schema'' = LEDGER_SCHEMA"
    by (simp add: LedgerHeader_value_def header_str_def value_get_def struct_value_def map_of_sorted value_str_def read_str_def)
  have "episode_files rf demo_crypto ?p (ss_disk s') sr [] [] es"
    using w e(1) t lt d hs by (simp add: episode_files_def rf_def read_file_def)
  moreover have "parses_back (rf_json rf) {header_value sr False, header_value sr True}" using pb by (auto simp: parses_back_def rf_def)
  moreover have "js_dec (rf_json rf) (demo_b64 bs) = Some bs" for bs by (simp add: rf_def table_json_def demo_hex)
  ultimately show thesis using that [OF s ep(1,3,2) h] by blast
qed

subsection \<open>A receipt that is reported intact\<close>

definition short_crypto :: Crypto where
  "short_crypto = demo_crypto \<lparr> cy_sha := take 4 \<rparr>"

definition no_companions :: Opts where
  "no_companions = \<lparr> op_receipt = ''r'', op_ticks = None, op_timing = None, op_ledger = None, op_curve = None, op_calibration = None, op_pubkey = None \<rparr>"

definition one_receipt :: "SignedReceipt \<Rightarrow> Reads" where
  "one_receipt sr = \<lparr> rf_text = (\<lambda>_. Inr []), rf_json = table_json [], rf_receipt = (\<lambda>_. Inr sr), rf_curve = (\<lambda>_. Inl []), rf_show = (\<lambda>_. []) \<rparr>"

lemma one_receipt_read [simp]: "read_file (one_receipt sr) (rf_receipt (one_receipt sr)) p = Inr sr"
  by (simp add: read_file_def one_receipt_def)

lemma demo_report:
  obtains sr out where "evidence (one_receipt sr) short_crypto no_companions sr (the (verify_receipt short_crypto sr None))"
    "receipt_cuttable short_crypto sr" "run_checks (one_receipt sr) short_crypto no_companions = Some out" "ou_intact out"
proof -
  have g: "signs short_crypto []" using demo_signs [of "[]"] by (simp add: signs_def short_crypto_def demo_crypto_def)
  have c: "consistent short_crypto demo_body"
    by (simp add: consistent_def demo_body_def demo_crypto_def short_crypto_def digest_of_def canon_of_def check_keys_def canon_def map_ok_def
        VerdictCounts_from_def Tally_default_def check_embedded_ticks_def embedded_len_def)
  have "\<exists>sr. sign_receipt short_crypto demo_body [] = Inr sr"
    unfolding sign_receipt_iff by (simp add: signable_def demo_body_def demo_run_def keys_ok_def safe_def MAX_SAFE_INTEGER_def)
  then obtain sr where sr: "sign_receipt short_crypto demo_body [] = Inr sr" by blast
  obtain r where r: "verify_receipt short_crypto sr (Some (pubkey_hex short_crypto [])) = Some r" "intact r"
    using sign_receipt_verifies [OF g c sr] by blast
  obtain r' where r': "verify_receipt short_crypto sr None = Some r'" using verify_receipt_total by blast
  note p = verify_receipt_parts [OF r(1)] verify_receipt_parts [OF r']
  have i: "intact r'" using r(2) p by (auto simp: intact_def)
  have e: "evidence (one_receipt sr) short_crypto no_companions sr r'"
    using r' i by (simp add: evidence_def companions_evidence_def no_companions_def)
  have b: "sr_body sr = demo_body" "length (sr_body_digest sr) \<le> 4" "sr_pubkey sr = pubkey_hex short_crypto []"
    using sr by (auto simp: sign_receipt_def map_ok_Inr split_beta short_crypto_def sign_bytes_def pubkey_hex_def)
  have z: "cuttable ZERO_HASH" "cuttable (pubkey_hex short_crypto [])"
    by (rule cuttable_ascii; code_simp)+
  have cut: "receipt_cuttable short_crypto sr"
    using b z by (simp add: receipt_cuttable_def Let_def demo_body_def demo_run_def value_get_def policy_revision_def cuttable_short SHORT_HEX_def)
  obtain out where "run_checks (one_receipt sr) short_crypto no_companions = Some out" "ou_intact out"
    using run_checks_accepts [OF e cut] by (auto simp: no_companions_def)
  then show thesis using that [of sr out] e cut r' by simp
qed

end
