(* ===== verification/Codec.thy ===== *)
theory Codec
  imports EventFiles Wire
begin

text \<open>
  \<open>lictor-runtime/src/codec.rs\<close>: the framing of the wire.  The input is the bytes still to be read, at
  whose end the stream ends; \<open>serde_json\<close> is a parameter that reads a request or a value from a line and
  writes a value.
  A read consumes one line, unless the line is over-long and not UTF-8 up to the cut.
\<close>

subsection \<open>Valid UTF-8\<close>

definition tail_byte :: "nat \<Rightarrow> bool" where "tail_byte b \<longleftrightarrow> 0x80 \<le> b \<and> b < 0xC0"

text \<open>The well-formed sequences: shortest form, no surrogates, at most U+10FFFF.\<close>

definition scalar_ok :: "string \<Rightarrow> bool" where
  "scalar_ok x \<longleftrightarrow> (case map byte_of x of
       [a] \<Rightarrow> a < 0x80
     | [a, b] \<Rightarrow> 0xC2 \<le> a \<and> a < 0xE0 \<and> tail_byte b
     | [a, b, c] \<Rightarrow> 0xE0 \<le> a \<and> a < 0xF0 \<and> tail_byte b \<and> (a = 0xE0 \<longrightarrow> 0xA0 \<le> b) \<and> (a = 0xED \<longrightarrow> b < 0xA0) \<and> tail_byte c
     | [a, b, c, d] \<Rightarrow> 0xF0 \<le> a \<and> a < 0xF5 \<and> tail_byte b \<and> (a = 0xF0 \<longrightarrow> 0x90 \<le> b) \<and> (a = 0xF4 \<longrightarrow> b < 0x90) \<and> tail_byte c \<and> tail_byte d
     | _ \<Rightarrow> False)"

definition utf8_valid :: "string \<Rightarrow> bool" where "utf8_valid s \<longleftrightarrow> list_all scalar_ok (utf8_chars s)"

lemma utf8_valid_ascii: "list_all (\<lambda>c. byte_of c < 0x80) s \<Longrightarrow> utf8_valid s"
  by (simp add: utf8_valid_def utf8_chars_ascii list_all_iff scalar_ok_def)

subsection \<open>Lines\<close>

definition MAX_LINE :: nat where "MAX_LINE = 2 ^ 20"

text \<open>\<open>read_line\<close> of a reader limited to \<open>n\<close> bytes: up to and with the next line feed.\<close>

fun until_lf :: "nat \<Rightarrow> string \<Rightarrow> string \<times> string" where
  "until_lf 0 s = ([], s)"
| "until_lf (Suc n) [] = ([], [])"
| "until_lf (Suc n) (c # cs) = (if c = LF then ([c], cs) else (let (l, r) = until_lf n cs in (c # l, r)))"

definition drain_line :: "string \<Rightarrow> string" where
  "drain_line s = (case dropWhile (\<lambda>c. c \<noteq> LF) s of [] \<Rightarrow> [] | _ # r \<Rightarrow> r)"

lemma until_lf_append: "until_lf n s = (l, r) \<Longrightarrow> s = l @ r"
  by (induction n s arbitrary: l r rule: until_lf.induct) (auto split: if_splits prod.splits)

lemma until_lf_cases:
  assumes "until_lf n s = (l, r)"
  shows "(\<exists>k. l = k @ [LF] \<and> LF \<notin> set k) \<or> LF \<notin> set l \<and> (length l = n \<or> r = [])"
  using assms
proof (induction n s arbitrary: l r rule: until_lf.induct)
  case (3 n c cs)
  show ?case
  proof (cases "c = LF")
    case True
    then show ?thesis using 3(2) by (auto intro: exI [of _ "[]"])
  next
    case False
    then obtain l' where l': "until_lf n cs = (l', r)" "l = c # l'" using 3(2) by (auto split: prod.splits)
    from 3(1) [OF False l'(1)] show ?thesis
    proof
      assume "\<exists>k. l' = k @ [LF] \<and> LF \<notin> set k"
      then obtain k where "l' = k @ [LF]" "LF \<notin> set k" by blast
      then show ?thesis using False l'(2) by (intro disjI1 exI [of _ "c # k"]) simp
    qed (use False l'(2) in auto)
  qed
qed auto

lemma until_lf_length: "until_lf n s = (l, r) \<Longrightarrow> length l \<le> n"
  by (induction n s arbitrary: l r rule: until_lf.induct) (auto split: if_splits prod.splits)

lemma until_lf_nonempty: "until_lf (Suc n) s = (l, r) \<Longrightarrow> l = [] \<longleftrightarrow> s = []"
  by (cases s) (auto split: if_splits prod.splits)

lemma until_lf_line: "LF \<notin> set l \<Longrightarrow> length l < n \<Longrightarrow> until_lf n (l @ LF # r) = (l @ [LF], r)"
proof (induction l arbitrary: n)
  case Nil
  then show ?case by (cases n) simp_all
next
  case (Cons c l)
  then show ?case by (cases n) auto
qed

lemma until_lf_long: "LF \<notin> set l \<Longrightarrow> length l = n \<Longrightarrow> until_lf n (l @ r) = (l, r)"
  by (induction l arbitrary: n) auto

lemma drain_line_cut: "LF \<notin> set l \<Longrightarrow> drain_line (l @ r) = drain_line r" "LF \<notin> set l \<Longrightarrow> drain_line (l @ LF # r) = r"
  by (auto simp: drain_line_def dropWhile_append3 dropWhile_append)

lemma drain_line_length: "length (drain_line s) \<le> length s"
proof -
  have "length (dropWhile (\<lambda>c. c \<noteq> LF) s) \<le> length s" by (rule length_dropWhile_le)
  then show ?thesis by (auto simp: drain_line_def split: list.split)
qed

subsection \<open>Requests\<close>

record Serde =
  sd_request :: "string \<Rightarrow> string + Request"
  sd_value :: "string \<Rightarrow> string + Value"
  sd_misfit :: "Value \<Rightarrow> string"
  sd_text :: "Value \<Rightarrow> string"

definition AckDecision_ALL :: "AckDecision list" where "AckDecision_ALL = [Resume, Abort, Retune]"

definition ACK_FIELDS :: "string list" where
  "ACK_FIELDS = [''schema'', ''handoff_digest'', ''decision'', ''operator'', ''nonce'', ''note'', ''sig'']"

text \<open>The mirror of \<open>AckToken\<close> that denies unknown keys; nothing reads its fields.\<close>

definition AckTokenStrict_ok :: "Value \<Rightarrow> bool" where
  "AckTokenStrict_ok v = (case strict_fields ACK_FIELDS v of None \<Rightarrow> False | Some m \<Rightarrow>
     list_all (\<lambda>k. field m k read_str \<noteq> None) [''schema'', ''handoff_digest'', ''operator'', ''note'', ''sig''] \<and>
     field m ''decision'' (read_enum AckDecision_ALL AckDecision_name) \<noteq> None \<and> (field m ''nonce'' read_num :: u64 option) \<noteq> None)"

definition strict_ack_check :: "Serde \<Rightarrow> string \<Rightarrow> string option" where
  "strict_ack_check sd line = (case sd_value sd line of Inl e \<Rightarrow> Some e
     | Inr v \<Rightarrow> (case value_get ''ack'' v of None \<Rightarrow> None
        | Some ack \<Rightarrow> if ack = VNull \<or> AckTokenStrict_ok ack then None else Some (''tick.ack: '' @ sd_misfit sd ack)))"

definition parse_request :: "Serde \<Rightarrow> string \<Rightarrow> string + Request" where
  "parse_request sd line = (case sd_request sd line of Inl e \<Rightarrow> Inl (''malformed request: '' @ e)
     | Inr req \<Rightarrow> (case (case req of Req_Tick t \<Rightarrow> if tq_ack t = None then None else strict_ack_check sd line | _ \<Rightarrow> None) of
          Some e \<Rightarrow> Inl (''malformed request: '' @ e) | None \<Rightarrow> Inr req))"

definition peek_id :: "Serde \<Rightarrow> string \<Rightarrow> u64 option" where
  "peek_id sd line = Option.bind (ok_of (sd_value sd line)) (\<lambda>v. value_u64 (value_get ''id'' v))"

datatype Read = Eof | Bad string | Got Request

text \<open>The result, the buffer and what is left.  A line that is not UTF-8 leaves the buffer empty.\<close>

definition read_request :: "Serde \<Rightarrow> string \<Rightarrow> Read \<times> string \<times> string" where
  "read_request sd s =
     (let (line, rest) = until_lf (MAX_LINE + 1) s in
      if \<not> utf8_valid line then (Bad ''stream did not contain valid UTF-8'', [], rest)
      else if line = [] then (Eof, [], rest)
      else if MAX_LINE < length line then
        (Bad (''line exceeds MAX_LINE ('' @ digits MAX_LINE @ '' bytes)''), [], if last line = LF then rest else drain_line rest)
      else let buf = (if last line = LF then butlast line else line) in
        if CR \<in> set buf then (Bad ''line contains a carriage return'', buf, rest)
        else if trim buf = [] then (Bad ''empty line'', buf, rest)
        else (case parse_request sd buf of Inl e \<Rightarrow> (Bad e, buf, rest) | Inr req \<Rightarrow> (Got req, buf, rest)))"

subsection \<open>What is consumed\<close>

lemma utf8_valid_Nil [simp]: "utf8_valid []" by (simp add: utf8_valid_def)

lemma read_request_eof: "fst (read_request sd s) = Eof \<longleftrightarrow> s = []"
proof -
  obtain l r where u: "until_lf (MAX_LINE + 1) s = (l, r)" by (rule prod.exhaust)
  have "l = [] \<longleftrightarrow> s = []" using until_lf_nonempty [of MAX_LINE s] u by simp
  then show ?thesis unfolding read_request_def u Let_def prod.case by (cases "s = []") (simp_all split: sum.split)
qed

lemma read_request_shorter:
  assumes "s \<noteq> []" shows "length (snd (snd (read_request sd s))) < length s"
proof -
  obtain l r where u: "until_lf (MAX_LINE + 1) s = (l, r)" by (rule prod.exhaust)
  have "l \<noteq> []" using until_lf_nonempty [of MAX_LINE s] u assms by simp
  then have r: "length r < length s" using until_lf_append [OF u] by simp
  then have "length (drain_line r) < length s" using drain_line_length [of r] by simp
  with r show ?thesis unfolding read_request_def u Let_def prod.case by (simp split: sum.split)
qed

text \<open>One line is consumed, whatever is wrong with it, when its first bytes are UTF-8.\<close>

lemma read_request_line:
  assumes "utf8_valid (fst (until_lf (MAX_LINE + 1) s))"
  shows "snd (snd (read_request sd s)) = drain_line s"
proof -
  obtain l r where u: "until_lf (MAX_LINE + 1) s = (l, r)" by (rule prod.exhaust)
  note s = until_lf_append [OF u]
  from until_lf_cases [OF u] show ?thesis
  proof
    assume "\<exists>k. l = k @ [LF] \<and> LF \<notin> set k"
    then obtain k where "l = k @ [LF]" "LF \<notin> set k" by blast
    then show ?thesis using assms u s by (simp add: read_request_def Let_def drain_line_cut(2) split: sum.split)
  next
    assume c: "LF \<notin> set l \<and> (length l = MAX_LINE + 1 \<or> r = [])"
    then have d: "drain_line s = drain_line r" using s by (simp add: drain_line_cut(1))
    have e: "l \<noteq> [] \<Longrightarrow> last l \<noteq> LF" using c last_in_set [of l] by metis
    have "drain_line [] = []" by (simp add: drain_line_def)
    then show ?thesis using assms u c d e by (auto simp: read_request_def Let_def split: sum.split)
  qed
qed

text \<open>A whole line that is short, valid and not blank is handed to the parser.\<close>

definition wire_line :: "string \<Rightarrow> bool" where
  "wire_line l \<longleftrightarrow> length l < MAX_LINE \<and> LF \<notin> set l \<and> CR \<notin> set l \<and> utf8_valid (l @ [LF]) \<and> trim l \<noteq> []"

lemma read_request_wire_line:
  assumes "wire_line l"
  shows "read_request sd (l @ LF # rest) = (case parse_request sd l of Inl e \<Rightarrow> (Bad e, l, rest) | Inr req \<Rightarrow> (Got req, l, rest))"
  using assms until_lf_line [of l "MAX_LINE + 1" rest] by (simp add: read_request_def wire_line_def Let_def)

text \<open>The lines of a stream, as they are read.\<close>

function reads_of :: "Serde \<Rightarrow> string \<Rightarrow> (Read \<times> string) list" where
  "reads_of sd s = (if s = [] then [] else (case read_request sd s of (r, buf, rest) \<Rightarrow> (r, buf) # reads_of sd rest))"
  by pat_completeness auto
termination
proof (relation "measure (length \<circ> snd)", goal_cases)
  case (2 sd s x xa y z)
  then show ?case using read_request_shorter [of s sd] by (metis comp_apply in_measure snd_conv)
qed simp

declare reads_of.simps [simp del]

lemma reads_of_Nil [simp]: "reads_of sd [] = []" by (simp add: reads_of.simps)

lemma reads_of_lines:
  "list_all wire_line ls \<Longrightarrow> reads_of sd (unlines ls) = map (\<lambda>l. (case parse_request sd l of Inl e \<Rightarrow> Bad e | Inr req \<Rightarrow> Got req, l)) ls"
proof (induction ls)
  case (Cons l ls)
  have "reads_of sd (l @ LF # unlines ls) = (case parse_request sd l of Inl e \<Rightarrow> Bad e | Inr req \<Rightarrow> Got req, l) # reads_of sd (unlines ls)"
    using Cons.prems by (subst reads_of.simps) (simp add: read_request_wire_line split: sum.split)
  then show ?case using Cons by (simp add: unlines_def)
qed (simp add: unlines_def)

text \<open>An over-long line that is not UTF-8 is not drained: its tail is read as a line of its own.\<close>

lemma over_long_not_drained:
  assumes "LF \<notin> set junk" "length junk = MAX_LINE + 1" "\<not> utf8_valid junk"
  shows "read_request sd (junk @ rest) = (Bad ''stream did not contain valid UTF-8'', [], rest)"
  using assms until_lf_long [of junk "MAX_LINE + 1" rest] by (simp add: read_request_def)

end
