(* ===== verification/Serve.thy ===== *)
theory Serve
  imports Codec SessionReply
begin

text \<open>
  \<open>lictor-cli/src/cmd/serve.rs\<close> and \<open>lictor-runtime/src/trace.rs\<close>: the server reads one line at a time,
  traces the requests, lets the session answer, and stops at the end of the input, at \<open>bye\<close>, or at an error
  when it was told to.  Writing to a trace file fails where \<open>wd_io\<close> says so.
\<close>

subsection \<open>Trace files\<close>

definition META_PREFIX :: string where "META_PREFIX = ''#meta ''"

definition trace_path :: "string \<Rightarrow> string \<Rightarrow> string \<Rightarrow> u32 \<Rightarrow> string" where
  "trace_path out_dir run_id arm_id episode_index =
     path_join (path_join (path_join (path_join out_dir run_id) arm_id) ''traces'') (pad6 (unat episode_index) @ ''.ndjson'')"

definition trace_meta :: "Session \<Rightarrow> Value" where
  "trace_meta s = struct_value
     [(''proto'', VStr PROTO), (''envelope_digest'', VStr (ss_envelope_digest s)), (''calibration_digest'', opt VStr (ss_calibration_digest s)),
      (''mode'', VStr (FuseMode_name (cg_mode (ss_cfg s)))), (''lictor'', VStr LICTOR_VERSION), (''git'', VStr (cg_lictor_git (ss_cfg s)))]"

type_synonym Files = "string \<Rightarrow> string option"

definition TraceWriter_open :: "World \<Rightarrow> Files \<Rightarrow> string \<Rightarrow> string \<Rightarrow> string + Files" where
  "TraceWriter_open w files p text = (case wd_io w p of Some e \<Rightarrow> Inl e | None \<Rightarrow> Inr (files(p \<mapsto> META_PREFIX @ text @ [LF])))"

definition TraceWriter_line :: "World \<Rightarrow> Files \<Rightarrow> string \<Rightarrow> string \<Rightarrow> string + Files" where
  "TraceWriter_line w files p raw = (case wd_io w p of Some e \<Rightarrow> Inl e
     | None \<Rightarrow> Inr (files(p \<mapsto> (case files p of Some t \<Rightarrow> t | None \<Rightarrow> []) @ raw @ [LF])))"

text \<open>The physical lines of a file, each with its line feed.\<close>

function raw_lines :: "string \<Rightarrow> string list" where
  "raw_lines s = (if s = [] then [] else (case until_lf (length s) s of (l, r) \<Rightarrow> l # raw_lines r))"
  by pat_completeness auto
termination
proof (relation "measure length", goal_cases)
  case (2 s x y)
  then obtain n where n: "length s = Suc n" by (cases s) auto
  then have "x \<noteq> []" using until_lf_nonempty [of n s x y] 2 by simp
  then show ?case using until_lf_append [of "length s" s x y] 2(2) by simp
qed simp

declare raw_lines.simps [simp del]

definition is_eol :: "char \<Rightarrow> bool" where "is_eol c \<longleftrightarrow> c = LF \<or> c = CR"
definition strip_eol :: "string \<Rightarrow> string" where "strip_eol s = rev (dropWhile is_eol (rev s))"

definition strip_prefix :: "string \<Rightarrow> string \<Rightarrow> string option" where
  "strip_prefix p s = (if take (length p) s = p then Some (drop (length p) s) else None)"

definition NOT_UTF8 :: string where "NOT_UTF8 = ''stream did not contain valid UTF-8''"

fun trace_lines :: "Serde \<Rightarrow> string \<Rightarrow> u64 \<Rightarrow> string list \<Rightarrow> string + (u64 \<times> string \<times> Request) list" where
  "trace_lines sd path n [] = Inr []"
| "trace_lines sd path n (raw # ls) =
     (if \<not> utf8_valid raw then Inl NOT_UTF8
      else if trim (strip_eol raw) = [] then trace_lines sd path (n + 1) ls
      else (case parse_request sd (strip_eol raw) of
          Inl e \<Rightarrow> Inl (path @ '':'' @ show_word (n + 1) @ '': '' @ e)
        | Inr req \<Rightarrow> map_ok (Cons (n + 1, strip_eol raw, req)) (trace_lines sd path (n + 1) ls)))"

definition read_trace :: "Serde \<Rightarrow> string \<Rightarrow> string \<Rightarrow> string + Value \<times> (u64 \<times> string \<times> Request) list" where
  "read_trace sd path text =
     (let (first, rest) = (case raw_lines text of [] \<Rightarrow> ([], []) | l # ls \<Rightarrow> (l, ls)) in
      if \<not> utf8_valid first then Inl NOT_UTF8
      else (case strip_prefix META_PREFIX (strip_eol first) of
          None \<Rightarrow> Inl (path @ '': first line is not a #meta line'')
        | Some t \<Rightarrow> (case sd_value sd t of
             Inl e \<Rightarrow> Inl (path @ '': #meta is not JSON: '' @ e)
           | Inr meta \<Rightarrow> map_ok (Pair meta) (trace_lines sd path 1 rest))))"

subsection \<open>The server\<close>

record ServeConfig =
  sc_out :: "string option"
  sc_trace :: "string option"
  sc_abort :: bool

record Server =
  sv_session :: Session
  sv_hello :: "string option"
  sv_episode :: "string option"
  sv_files :: Files
  sv_sent :: "Response list"

definition run_id_of :: "Request \<Rightarrow> (string \<times> string \<times> u32) option" where
  "run_id_of req = (case req of Req_EpisodeBegin b \<Rightarrow> Some (rm_run_id (eb_run b), rm_arm_id (eb_run b), rm_episode_index (eb_run b)) | _ \<Rightarrow> None)"

definition is_hello :: "Request \<Rightarrow> bool" where "is_hello req \<longleftrightarrow> (case req of Req_Hello _ \<Rightarrow> True | _ \<Rightarrow> False)"
definition is_end :: "Request \<Rightarrow> bool" where "is_end req \<longleftrightarrow> (case req of Req_EpisodeEnd _ \<Rightarrow> True | _ \<Rightarrow> False)"
definition is_bye :: "Request \<Rightarrow> bool" where "is_bye req \<longleftrightarrow> (case req of Req_Bye _ \<Rightarrow> True | _ \<Rightarrow> False)"

text \<open>The lines that a request adds to the trace files, before the session sees it.\<close>

definition trace_request :: "World \<Rightarrow> ServeConfig \<Rightarrow> string \<Rightarrow> Server \<Rightarrow> string \<Rightarrow> Request \<Rightarrow> string + Server" where
  "trace_request w cfg meta sv raw req =
     and_then (case sc_trace cfg of Some p \<Rightarrow> TraceWriter_line w (sv_files sv) p raw | None \<Rightarrow> Inr (sv_files sv)) (\<lambda>files.
     let hello = (if is_hello req then Some raw else sv_hello sv) in
     and_then (case (sc_out cfg, run_id_of req) of
         (Some out, Some (r, a, i)) \<Rightarrow> let p = trace_path out r a i in
           and_then (TraceWriter_open w files p meta) (\<lambda>files.
           and_then (case hello of Some h \<Rightarrow> TraceWriter_line w files p h | None \<Rightarrow> Inr files) (\<lambda>files. Inr (files, Some p)))
       | _ \<Rightarrow> Inr (files, sv_episode sv)) (\<lambda>(files, ep).
     and_then (case ep of Some p \<Rightarrow> if is_hello req then Inr files else TraceWriter_line w files p raw | None \<Rightarrow> Inr files) (\<lambda>files.
     Inr (sv \<lparr> sv_hello := hello, sv_episode := ep, sv_files := files \<rparr>))))"

text \<open>One good line; the time of the flush is noted after a verdict.\<close>

definition serve_request ::
  "Host \<Rightarrow> World \<Rightarrow> u64 \<Rightarrow> ServeConfig \<Rightarrow> string \<Rightarrow> Server \<Rightarrow> string \<Rightarrow> Request \<Rightarrow> (string + Server \<times> Response) option" where
  "serve_request ht w io cfg meta sv raw req = (case trace_request w cfg meta sv raw req of Inl e \<Rightarrow> Some (Inl e)
     | Inr sv \<Rightarrow> map_option (\<lambda>(s, r). Inr (sv \<lparr> sv_session := (case r of Resp_Verdict v \<Rightarrow> note_io_ns s (vm_seq v) io | _ \<Rightarrow> s),
           sv_episode := (if is_end req then None else sv_episode sv), sv_sent := sv_sent sv @ [r] \<rparr>, r))
         (handle ht w (sv_session sv) req))"

definition serve_bad_line :: "Host \<Rightarrow> Server \<Rightarrow> u64 option \<Rightarrow> string \<Rightarrow> (Server \<times> Response) option" where
  "serve_bad_line ht sv i msg = map_option (\<lambda>(s, r). (sv \<lparr> sv_session := s, sv_sent := sv_sent sv @ [r] \<rparr>, r))
     (handle_bad_line (ht_crypto ht) (sv_session sv) i msg)"

datatype Stop = Exit int | Failed string

definition stops_at :: "ServeConfig \<Rightarrow> Response \<Rightarrow> bool" where
  "stops_at cfg r \<longleftrightarrow> (case r of Resp_Error e \<Rightarrow> em_fatal e \<and> sc_abort cfg | _ \<Rightarrow> False)"

text \<open>The loop; \<open>ws i\<close> and \<open>ios i\<close> are the clock at line \<open>i\<close>.\<close>

function serve_loop ::
  "Host \<Rightarrow> Serde \<Rightarrow> (nat \<Rightarrow> World) \<Rightarrow> (nat \<Rightarrow> u64) \<Rightarrow> ServeConfig \<Rightarrow> string \<Rightarrow> nat \<Rightarrow> Server \<Rightarrow> string \<Rightarrow> (Stop \<times> Server) option" where
  "serve_loop ht sd ws ios cfg meta i sv s = (if s = [] then Some (Exit 0, sv) else
     (case read_request sd s of (read, buf, rest) \<Rightarrow> (case read of
         Eof \<Rightarrow> Some (Exit 0, sv)
       | Got req \<Rightarrow> (case serve_request ht (ws i) (ios i) cfg meta sv buf req of
            None \<Rightarrow> None
          | Some (Inl e) \<Rightarrow> Some (Failed e, sv)
          | Some (Inr (sv', r)) \<Rightarrow>
              if is_bye req then Some (Exit 0, sv')
              else if stops_at cfg r then Some (Exit 3, sv')
              else serve_loop ht sd ws ios cfg meta (Suc i) sv' rest)
       | Bad msg \<Rightarrow> (case serve_bad_line ht sv (peek_id sd buf) msg of
            None \<Rightarrow> None
          | Some (sv', r) \<Rightarrow>
              if stops_at cfg r then Some (Exit 3, sv')
              else serve_loop ht sd ws ios cfg meta (Suc i) sv' rest))))"
  by pat_completeness auto
termination
  by (relation "measure (\<lambda>(ht, sd, ws, ios, cfg, meta, i, sv, s). length s)")
    (simp_all, (metis read_request_shorter snd_conv)+)

declare serve_loop.simps [simp del]

text \<open>A server starts with the session it could open, and its trace file.\<close>

definition serve :: "Host \<Rightarrow> Serde \<Rightarrow> (nat \<Rightarrow> World) \<Rightarrow> (nat \<Rightarrow> u64) \<Rightarrow> ServeConfig \<Rightarrow> Disk \<Rightarrow> SessionConfig \<Rightarrow> Files \<Rightarrow> string \<Rightarrow>
    (Stop \<times> Server option) option" where
  "serve ht sd ws ios cfg dk session_cfg files s = Option.bind (Session_new ht (ws 0) dk session_cfg) (\<lambda>r. case r of
       Inl _ \<Rightarrow> Some (Exit 2, None)
     | Inr ses \<Rightarrow> let meta = sd_text sd (trace_meta ses) in
        (case (case sc_trace cfg of None \<Rightarrow> Inr files | Some p \<Rightarrow> TraceWriter_open (ws 0) files p meta) of
           Inl e \<Rightarrow> Some (Failed e, None)
         | Inr files \<Rightarrow> map_option (\<lambda>(stop, sv). (stop, Some sv)) (serve_loop ht sd ws ios cfg meta 0
             \<lparr> sv_session = ses, sv_hello = None, sv_episode = None, sv_files = files, sv_sent = [] \<rparr> s)))"

subsection \<open>Options\<close>

definition parse_mode :: "string \<Rightarrow> FuseMode option" where
  "parse_mode s = (if s = ''observe'' then Some Observe else if s = ''enforce'' then Some Enforce else None)"

fun tier0_names :: "string list \<Rightarrow> u32 \<Rightarrow> string + u32" where
  "tier0_names [] m = Inr m"
| "tier0_names (name # names) m = (case TripMask_from_name name of
     None \<Rightarrow> Inl (''--tier0: unknown trip name '' @ debug_str name)
   | Some b \<Rightarrow> if \<not> has_bit b ARMABLE then Inl (''--tier0: '' @ debug_str name @ '' is not an armable Tier-0 check'')
       else tier0_names names (m OR b))"

definition parse_tier0 :: "string \<Rightarrow> string + u32" where
  "parse_tier0 csv = tier0_names (filter (\<lambda>s. s \<noteq> []) (map trim (split_on (CHR '','') csv))) 0"

end
