(* ===== verification/ServeRun.thy ===== *)
theory ServeRun
  imports Serve
begin

text \<open>
  What the server does with its input: it returns when the clocks fit the canonical form, its session is one
  the session theorems speak of, each line is answered once, and the trace of an episode holds the lines that
  came after its beginning.
\<close>

subsection \<open>Tracing leaves the session alone\<close>

lemma and_then_cases: "and_then r k = Inr v \<Longrightarrow> (\<And>x. r = Inr x \<Longrightarrow> k x = Inr v \<Longrightarrow> thesis) \<Longrightarrow> thesis"
  by auto

lemma trace_request_keeps:
  assumes "trace_request w cfg meta sv raw req = Inr sv'"
  shows "sv_session sv' = sv_session sv" "sv_sent sv' = sv_sent sv" "sv_hello sv' = (if is_hello req then Some raw else sv_hello sv)"
  using assms by (auto simp: trace_request_def Let_def split: prod.splits)

lemma serve_requestE:
  assumes "serve_request ht w io cfg meta sv raw req = Some (Inr (sv', r))"
  obtains sv1 s where "trace_request w cfg meta sv raw req = Inr sv1" "handle ht w (sv_session sv) req = Some (s, r)"
    "sv_session sv' = (case r of Resp_Verdict v \<Rightarrow> note_io_ns s (vm_seq v) io | _ \<Rightarrow> s)" "sv_sent sv' = sv_sent sv @ [r]"
    "sv_files sv' = sv_files sv1" "sv_hello sv' = sv_hello sv1" "sv_episode sv' = (if is_end req then None else sv_episode sv1)"
proof -
  obtain sv1 where t: "trace_request w cfg meta sv raw req = Inr sv1"
    using assms by (auto simp: serve_request_def split: sum.splits)
  note k = trace_request_keeps [OF t]
  obtain s where "handle ht w (sv_session sv) req = Some (s, r)"
    "sv' = sv1 \<lparr> sv_session := (case r of Resp_Verdict v \<Rightarrow> note_io_ns s (vm_seq v) io | _ \<Rightarrow> s),
       sv_episode := (if is_end req then None else sv_episode sv1), sv_sent := sv_sent sv1 @ [r] \<rparr>"
    using assms t k(1) by (auto simp: serve_request_def)
  then show thesis using that t k(2) by simp
qed

subsection \<open>The session of a server is reachable\<close>

lemma serve_request_reach:
  assumes "serve_request ht w io cfg meta sv raw req = Some (Inr (sv', r))" "session_reach ht (sv_session sv)"
  shows "session_reach ht (sv_session sv')"
  using assms(1)
proof (rule serve_requestE)
  fix sv1 s
  assume h: "handle ht w (sv_session sv) req = Some (s, r)" "sv_session sv' = (case r of Resp_Verdict v \<Rightarrow> note_io_ns s (vm_seq v) io | _ \<Rightarrow> s)"
  have "session_reach ht s" by (rule reach_request [OF assms(2) h(1)])
  then show ?thesis unfolding h(2) by (cases r) (simp_all add: reach_flushed)
qed

lemma serve_bad_line_reach:
  assumes "serve_bad_line ht sv i msg = Some (sv', r)" "session_reach ht (sv_session sv)"
  shows "session_reach ht (sv_session sv')" "sv_sent sv' = sv_sent sv @ [r]"
  using assms reach_bad_line [OF assms(2)] by (auto simp: serve_bad_line_def)

text \<open>One turn of the loop.\<close>

definition serve_turn where
  "serve_turn ht sd w io cfg meta sv read buf = (case read of Eof \<Rightarrow> None
     | Got req \<Rightarrow> serve_request ht w io cfg meta sv buf req
     | Bad msg \<Rightarrow> map_option Inr (serve_bad_line ht sv (peek_id sd buf) msg))"

definition last_turn :: "ServeConfig \<Rightarrow> Read \<Rightarrow> Response \<Rightarrow> int option" where
  "last_turn cfg read r = (if \<exists>b. read = Got (Req_Bye b) then Some 0 else if stops_at cfg r then Some 3 else None)"

lemma serve_loop_step:
  assumes "s \<noteq> []" "read_request sd s = (read, buf, rest)"
  shows "serve_loop ht sd ws ios cfg meta i sv s = (case serve_turn ht sd (ws i) (ios i) cfg meta sv read buf of
     None \<Rightarrow> None | Some (Inl e) \<Rightarrow> Some (Failed e, sv)
   | Some (Inr (sv', r)) \<Rightarrow> (case last_turn cfg read r of Some c \<Rightarrow> Some (Exit c, sv') | None \<Rightarrow> serve_loop ht sd ws ios cfg meta (Suc i) sv' rest))"
proof -
  have "read \<noteq> Eof" using read_request_eof [of sd s] assms by simp
  then show ?thesis
    using assms by (subst serve_loop.simps)
      (auto simp: serve_turn_def last_turn_def is_bye_def split: Read.split option.split sum.split Request.split)
qed

lemma serve_turn_keeps:
  assumes "serve_turn ht sd w io cfg meta sv read buf = Some (Inr (sv', r))" "session_reach ht (sv_session sv)"
  shows "session_reach ht (sv_session sv')" "sv_sent sv' = sv_sent sv @ [r]"
  using assms serve_request_reach [of ht w io cfg meta sv buf _ sv' r] serve_bad_line_reach [of ht sv _ _ sv' r]
  by (auto simp: serve_turn_def elim!: serve_requestE split: Read.splits)

theorem serve_loop_reach:
  "serve_loop ht sd ws ios cfg meta i sv s = Some (stop, sv') \<Longrightarrow> session_reach ht (sv_session sv) \<Longrightarrow> session_reach ht (sv_session sv')"
proof (induction "length s" arbitrary: i sv s rule: less_induct)
  case less
  show ?case
  proof (cases "s = []")
    case True
    then show ?thesis using less.prems by (simp add: serve_loop.simps)
  next
    case False
    obtain read buf rest where r: "read_request sd s = (read, buf, rest)" by (metis prod_cases3)
    have n: "length rest < length s" using read_request_shorter [OF False, of sd] r by simp
    note u = less.prems(1) [unfolded serve_loop_step [OF False r]]
    show ?thesis
    proof (cases "serve_turn ht sd (ws i) (ios i) cfg meta sv read buf")
      case None
      then show ?thesis using u by simp
    next
      case (Some t)
      show ?thesis
      proof (cases t)
        case (Inl e)
        then show ?thesis using u Some less.prems(2) by simp
      next
        case (Inr x)
        obtain sv1 rr where x: "x = (sv1, rr)" by (cases x)
        have k: "session_reach ht (sv_session sv1)" by (rule serve_turn_keeps [OF _ less.prems(2)]) (use Some Inr x in simp)
        show ?thesis using u Some Inr x k less.hyps [OF n] by (cases "last_turn cfg read rr") auto
      qed
    qed
  qed
qed

subsection \<open>Each line is answered once\<close>

definition answered :: "ServeConfig \<Rightarrow> (Read \<times> string) list \<Rightarrow> Stop \<Rightarrow> Response list \<Rightarrow> bool" where
  "answered cfg reads stop rs \<longleftrightarrow> (case stop of
       Failed e \<Rightarrow> length rs < length reads
     | Exit c \<Rightarrow> c = 0 \<and> length rs = length reads \<or>
        rs \<noteq> [] \<and> length rs \<le> length reads \<and> last_turn cfg (fst (reads ! (length rs - 1))) (last rs) = Some c)"

theorem serve_loop_answers:
  "serve_loop ht sd ws ios cfg meta i sv s = Some (stop, sv') \<Longrightarrow> session_reach ht (sv_session sv) \<Longrightarrow>
     \<exists>rs. sv_sent sv' = sv_sent sv @ rs \<and> answered cfg (reads_of sd s) stop rs"
proof (induction "length s" arbitrary: i sv s rule: less_induct)
  case less
  show ?case
  proof (cases "s = []")
    case True
    then show ?thesis using less.prems by (auto simp: serve_loop.simps answered_def)
  next
    case False
    obtain read buf rest where r: "read_request sd s = (read, buf, rest)" by (metis prod_cases3)
    have n: "length rest < length s" using read_request_shorter [OF False, of sd] r by simp
    have l: "reads_of sd s = (read, buf) # reads_of sd rest" using False r by (subst reads_of.simps) simp
    note u = less.prems(1) [unfolded serve_loop_step [OF False r]]
    show ?thesis
    proof (cases "serve_turn ht sd (ws i) (ios i) cfg meta sv read buf")
      case None
      then show ?thesis using u by simp
    next
      case (Some t)
      show ?thesis
      proof (cases t)
        case (Inl e)
        then show ?thesis using u Some l by (intro exI [of _ "[]"]) (auto simp: answered_def)
      next
        case (Inr x)
        obtain sv1 rr where x: "x = (sv1, rr)" by (cases x)
        have k: "session_reach ht (sv_session sv1)" "sv_sent sv1 = sv_sent sv @ [rr]"
          by (rule serve_turn_keeps [OF _ less.prems(2)], use Some Inr x in simp)+
        show ?thesis
        proof (cases "last_turn cfg read rr")
          case None
          then obtain rs where rs: "sv_sent sv' = sv_sent sv1 @ rs" "answered cfg (reads_of sd rest) stop rs"
            using u Some Inr x less.hyps [OF n _ k(1)] by auto
          have "answered cfg (reads_of sd s) stop (rr # rs)" using rs(2) l by (auto simp: answered_def split: Stop.splits)
          then show ?thesis using rs(1) k(2) by auto
        next
          case (Some c)
          have "stop = Exit c" "sv' = sv1" using u \<open>serve_turn _ _ _ _ _ _ _ _ _ = Some t\<close> Inr x Some by simp_all
          then show ?thesis using k(2) l Some by (intro exI [of _ "[rr]"]) (simp add: answered_def)
        qed
      qed
    qed
  qed
qed

subsection \<open>The server returns\<close>

lemma note_io_safe: "timing_safe s \<Longrightarrow> safe ns \<Longrightarrow> timing_safe (note_io_ns s q ns)"
  by (auto simp: timing_safe_def note_io_ns_def split: option.splits)

lemma dispatch_timing_safe:
  assumes "dispatch ht w s req = Some (s', r)" "timing_safe s" "safe (wd_decide_ns w)" shows "timing_safe s'"
proof (cases req)
  case (Req_Hello h)
  then have "fst (hello s h) = s'" using assms(1) by (simp add: dispatch_def)
  moreover have "ss_ep (fst (hello s h)) = ss_ep s" by (simp add: hello_def Let_def)
  ultimately show ?thesis using assms(2) by (simp add: timing_safe_def)
next
  case (Req_EpisodeBegin b)
  then have s': "fst (episode_begin s b) = s'" using assms(1) by (simp add: dispatch_def)
  have "ss_ep (fst (episode_begin s b)) = ss_ep s \<or> (\<exists>e. ss_ep (fst (episode_begin s b)) = Some e \<and> ep_pending_timing e = None)"
    by (simp add: episode_begin_def Let_def)
  then show ?thesis using assms(2) s' by (auto simp: timing_safe_def)
next
  case (Req_Tick q)
  show ?thesis
  proof (cases "ss_ep s")
    case None
    then have "fst (phantom_tick s q) = s'" using assms(1) Req_Tick by (simp add: dispatch_def tick_def)
    moreover have "ss_ep (fst (phantom_tick s q)) = ss_ep s" by (simp add: phantom_tick_def Let_def split_beta)
    ultimately show ?thesis using assms(2) by (simp add: timing_safe_def)
  next
    case (Some ep)
    then have e: "episode_tick (ht_crypto ht) w s ep q = Some (s', r)" using assms(1) Req_Tick by (simp add: dispatch_def tick_def)
    obtain ep' where "ss_ep s' = Some ep'"
      "ep_pending_timing ep' = Some \<lparr> pt_seq = sv_seq (tick_verdict (ht_crypto ht) s q), pt_decide_ns = wd_decide_ns w, pt_io_ns = 0 \<rparr>"
      by (rule episode_tick_parts [OF e]) (rule that, assumption+)
    then show ?thesis using assms(3) by (simp add: timing_safe_def safe_def MAX_SAFE_INTEGER_def)
  qed
next
  case (Req_EpisodeEnd q)
  then have d: "episode_end ht w s q = Some (s', r)" using assms(1) by (simp add: dispatch_def)
  show ?thesis
  proof (cases "ss_ep s")
    case None
    then show ?thesis using d assms(2) by (auto simp: episode_end_def Let_def fail_def)
  next
    case (Some ep)
    then obtain s1 where f: "fold_pending_timing (ht_crypto ht) s = Some s1"
      using d by (auto simp: episode_end_def Let_def bind_eq_Some_conv)
    show ?thesis using episode_end_closes [OF d Some f] by (simp add: timing_safe_def)
  qed
next
  case (Req_Bye i)
  then show ?thesis using assms(1,2) by (simp add: dispatch_def)
qed

lemma fold_timing_safe: "fold_pending_timing cy s = Some s1 \<Longrightarrow> timing_safe s1"
  by (auto simp: fold_pending_timing_def timing_safe_def split: option.splits)

lemma handle_timing_safe:
  assumes "handle ht w s req = Some (s', r)" "safe (wd_decide_ns w)" shows "timing_safe s'"
  using assms(1)
proof (cases rule: handleE)
  case (refused s1 m)
  then show ?thesis using fold_timing_safe [OF refused(1)] by (simp add: timing_safe_def)
next
  case (dispatched s1)
  then show ?thesis using fold_timing_safe [OF dispatched(1)] by (intro dispatch_timing_safe [OF dispatched(3) _ assms(2)]) (simp add: timing_safe_def)
qed

lemma serve_turn_safe:
  assumes "timing_safe (sv_session sv)" "safe (wd_decide_ns w)" "safe io" "read \<noteq> Eof"
  shows "\<exists>t. serve_turn ht sd w io cfg meta sv read buf = Some t \<and> (\<forall>sv' r. t = Inr (sv', r) \<longrightarrow> timing_safe (sv_session sv'))"
proof (cases read)
  case (Bad msg)
  obtain s where f: "fold_pending_timing (ht_crypto ht) (sv_session sv) = Some s" using assms(1) fold_pending_total by blast
  have t: "timing_safe s" by (rule fold_timing_safe [OF f])
  have "timing_safe (fst (fail s i c m))" for i c m using t by (simp add: timing_safe_def)
  then show ?thesis using f Bad by (simp add: serve_turn_def serve_bad_line_def handle_bad_line_def split_beta)
next
  case (Got req)
  show ?thesis
  proof (cases "trace_request w cfg meta sv buf req")
    case (Inl e)
    then show ?thesis using Got by (simp add: serve_turn_def serve_request_def)
  next
    case (Inr sv1)
    note k = trace_request_keeps [OF Inr]
    obtain s r where h: "handle ht w (sv_session sv) req = Some (s, r)" using handle_total assms(1) by (metis surj_pair)
    have t: "timing_safe s" by (rule handle_timing_safe [OF h assms(2)])
    have "timing_safe (case r of Resp_Verdict v \<Rightarrow> note_io_ns s (vm_seq v) io | _ \<Rightarrow> s)"
      using t note_io_safe [OF t assms(3)] by (cases r) simp_all
    then show ?thesis using Got Inr h k(1) by (simp add: serve_turn_def serve_request_def)
  qed
qed (use assms(4) in simp)

theorem serve_loop_returns:
  assumes "\<And>i. safe (wd_decide_ns (ws i)) \<and> safe (ios i)"
  shows "timing_safe (sv_session sv) \<Longrightarrow> \<exists>x. serve_loop ht sd ws ios cfg meta i sv s = Some x"
proof (induction "length s" arbitrary: i sv s rule: less_induct)
  case less
  show ?case
  proof (cases "s = []")
    case True
    then show ?thesis by (simp add: serve_loop.simps)
  next
    case False
    obtain read buf rest where r: "read_request sd s = (read, buf, rest)" by (metis prod_cases3)
    have n: "length rest < length s" using read_request_shorter [OF False, of sd] r by simp
    have "read \<noteq> Eof" using read_request_eof [of sd s] False r by simp
    then obtain t where t: "serve_turn ht sd (ws i) (ios i) cfg meta sv read buf = Some t"
      "\<forall>sv' r. t = Inr (sv', r) \<longrightarrow> timing_safe (sv_session sv')"
      using serve_turn_safe [OF less.prems, of "ws i" "ios i" read] assms by blast
    show ?thesis
    proof (cases t)
      case (Inl e)
      then show ?thesis using t by (simp add: serve_loop_step [OF False r])
    next
      case (Inr x)
      obtain sv1 rr where x: "x = (sv1, rr)" by (cases x)
      have "\<exists>y. serve_loop ht sd ws ios cfg meta (Suc i) sv1 rest = Some y" by (rule less.hyps [OF n]) (use t Inr x in simp)
      then show ?thesis using t Inr x by (cases "last_turn cfg read rr") (simp_all add: serve_loop_step [OF False r])
    qed
  qed
qed

text \<open>A server that served ran its loop on the session it opened.\<close>

lemma serveE:
  assumes "serve ht sd ws ios cfg dk scfg files input = Some (stop, Some sv)"
  obtains s files' where "Session_new ht (ws 0) dk scfg = Some (Inr s)"
    "serve_loop ht sd ws ios cfg (sd_text sd (trace_meta s)) 0
       \<lparr> sv_session = s, sv_hello = None, sv_episode = None, sv_files = files', sv_sent = [] \<rparr> input = Some (stop, sv)"
proof -
  obtain x where x: "Session_new ht (ws 0) dk scfg = Some x" using assms by (cases "Session_new ht (ws 0) dk scfg") (simp_all add: serve_def)
  obtain s where s: "x = Inr s" using assms x by (cases x) (simp_all add: serve_def)
  obtain files' where f: "(case sc_trace cfg of None \<Rightarrow> Inr files | Some p \<Rightarrow> TraceWriter_open (ws 0) files p (sd_text sd (trace_meta s))) = Inr files'"
    using assms unfolding serve_def x s by (auto simp: Let_def split: sum.splits)
  show thesis using that [of s files'] assms x s f by (auto simp: serve_def Let_def)
qed

end
