(* ===== verification/ServeTrace.thy ===== *)
theory ServeTrace
  imports ServeRun
begin

text \<open>
  What the trace of an episode holds: after the meta line and the greeting, every request line since the
  episode began, as it was read.  \<open>read_trace\<close> gives the requests back.
\<close>

subsection \<open>Reading a trace\<close>

lemma raw_lines_line: "LF \<notin> set l \<Longrightarrow> raw_lines (l @ LF # s) = (l @ [LF]) # raw_lines s"
  by (subst raw_lines.simps) (simp add: until_lf_line)

lemma raw_lines_unlines: "list_all (\<lambda>l. LF \<notin> set l) ls \<Longrightarrow> raw_lines (unlines ls) = map (\<lambda>l. l @ [LF]) ls"
proof (induction ls)
  case Nil
  show ?case by (subst raw_lines.simps) (simp add: unlines_def)
next
  case (Cons l ls)
  then show ?case using raw_lines_line [of l "unlines ls"] by (simp add: unlines_def)
qed

lemma strip_eol_line: "LF \<notin> set l \<Longrightarrow> CR \<notin> set l \<Longrightarrow> strip_eol (l @ [LF]) = l"
proof -
  assume l: "LF \<notin> set l" "CR \<notin> set l"
  then have "dropWhile is_eol (rev l) = rev l" by (cases "rev l") (auto simp: is_eol_def dest: arg_cong [of _ _ set])
  then show ?thesis by (simp add: strip_eol_def is_eol_def)
qed

lemma trace_lines_written:
  "list_all2 (\<lambda>l req. wire_line l \<and> parse_request sd l = Inr req) ls reqs \<Longrightarrow>
     \<exists>ts. trace_lines sd path n (map (\<lambda>l. l @ [LF]) ls) = Inr ts \<and> map snd ts = zip ls reqs"
proof (induction ls reqs arbitrary: n rule: list_all2_induct)
  case (Cons l ls req reqs)
  obtain ts where "trace_lines sd path (n + 1) (map (\<lambda>l. l @ [LF]) ls) = Inr ts" "map snd ts = zip ls reqs" using Cons.IH by blast
  then show ?case using Cons.hyps(1) by (simp add: wire_line_def strip_eol_line map_ok_def)
qed simp

theorem read_trace_written:
  assumes "sd_value sd meta_text = Inr meta" "LF \<notin> set meta_text" "CR \<notin> set meta_text" "utf8_valid (META_PREFIX @ meta_text @ [LF])"
    "list_all2 (\<lambda>l req. wire_line l \<and> parse_request sd l = Inr req) ls reqs"
  shows "\<exists>ts. read_trace sd path (META_PREFIX @ meta_text @ [LF] @ unlines ls) = Inr (meta, ts) \<and> map snd ts = zip ls reqs"
proof -
  let ?m = "META_PREFIX @ meta_text"
  have m: "LF \<notin> set ?m" "CR \<notin> set ?m" using assms(2,3) by (simp_all add: META_PREFIX_def LF_def CR_def)
  have w: "list_all (\<lambda>l. LF \<notin> set l) ls" using assms(5) by (induction rule: list_all2_induct) (auto simp: wire_line_def)
  have "raw_lines (META_PREFIX @ meta_text @ [LF] @ unlines ls) = (?m @ [LF]) # map (\<lambda>l. l @ [LF]) ls"
    using raw_lines_line [OF m(1), of "unlines ls"] raw_lines_unlines [OF w] by simp
  moreover obtain ts where ts: "trace_lines sd path 1 (map (\<lambda>l. l @ [LF]) ls) = Inr ts" "map snd ts = zip ls reqs"
    using trace_lines_written [OF assms(5)] by blast
  moreover have "strip_eol (?m @ [LF]) = ?m" by (rule strip_eol_line [OF m])
  then have "strip_eol (META_PREFIX @ meta_text @ [LF]) = META_PREFIX @ meta_text" by simp
  moreover have "strip_prefix META_PREFIX (META_PREFIX @ meta_text) = Some meta_text" by (simp add: strip_prefix_def)
  ultimately show ?thesis using assms(1,4) by (simp add: read_trace_def map_ok_def)
qed

subsection \<open>Writing a trace\<close>

lemma run_id_of_begin: "run_id_of req = Some x \<longleftrightarrow> (\<exists>b. req = Req_EpisodeBegin b \<and>
    x = (rm_run_id (eb_run b), rm_arm_id (eb_run b), rm_episode_index (eb_run b)))"
  by (auto simp: run_id_of_def split: Request.split)

lemma TraceWriter_line_at:
  "TraceWriter_line w files q raw = Inr files' \<Longrightarrow> files' p = (if p = q then Some ((case files q of Some t \<Rightarrow> t | None \<Rightarrow> []) @ raw @ [LF]) else files p)"
  by (auto simp: TraceWriter_line_def split: option.splits)

lemma TraceWriter_open_at: "TraceWriter_open w files q text = Inr files' \<Longrightarrow> files' p = (if p = q then Some (META_PREFIX @ text @ [LF]) else files p)"
  by (auto simp: TraceWriter_open_def split: option.splits)

definition greeting :: "string option \<Rightarrow> string list" where "greeting h = (case h of Some l \<Rightarrow> [l] | None \<Rightarrow> [])"

text \<open>The beginning of an episode makes its file anew, whatever was in it.\<close>

lemma trace_begin:
  assumes "trace_request w cfg meta sv raw (Req_EpisodeBegin b) = Inr sv'" "sc_out cfg = Some out"
    "p = trace_path out (rm_run_id (eb_run b)) (rm_arm_id (eb_run b)) (rm_episode_index (eb_run b))"
  shows "sv_episode sv' = Some p" "sv_files sv' p = Some (META_PREFIX @ meta @ [LF] @ unlines (greeting (sv_hello sv) @ [raw]))"
proof -
  have r: "run_id_of (Req_EpisodeBegin b) = Some (rm_run_id (eb_run b), rm_arm_id (eb_run b), rm_episode_index (eb_run b))"
    "\<not> is_hello (Req_EpisodeBegin b)" by (simp_all add: run_id_of_def is_hello_def)
  show "sv_episode sv' = Some p" "sv_files sv' p = Some (META_PREFIX @ meta @ [LF] @ unlines (greeting (sv_hello sv) @ [raw]))"
    using assms r by (cases "sv_hello sv"; auto simp: trace_request_def Let_def greeting_def unlines_def TraceWriter_open_at
        dest!: TraceWriter_line_at [where p = p])+
qed

lemma trace_more:
  assumes "trace_request w cfg meta sv raw req = Inr sv'" "sv_episode sv = Some p" "run_id_of req = None" "\<not> is_hello req"
    "sc_trace cfg \<noteq> Some p" "sv_files sv p = Some t"
  shows "sv_episode sv' = Some p" "sv_files sv' p = Some (t @ raw @ [LF])"
  using assms by (auto simp: trace_request_def Let_def split: option.splits dest!: TraceWriter_line_at [where p = p])

text \<open>Any turns of the server that do not stop it.\<close>

fun serve_turns :: "Host \<Rightarrow> Serde \<Rightarrow> ServeConfig \<Rightarrow> string \<Rightarrow> Server \<Rightarrow> (World \<times> u64 \<times> Read \<times> string) list \<Rightarrow> Server option" where
  "serve_turns ht sd cfg meta sv [] = Some sv"
| "serve_turns ht sd cfg meta sv ((w, io, read, buf) # xs) = (case serve_turn ht sd w io cfg meta sv read buf of
     Some (Inr (sv', _)) \<Rightarrow> serve_turns ht sd cfg meta sv' xs | _ \<Rightarrow> None)"

text \<open>Turns within an episode, and the lines of them that are traced.\<close>

definition mid_episode :: "Read \<Rightarrow> bool" where
  "mid_episode read \<longleftrightarrow> (case read of Got req \<Rightarrow> run_id_of req = None \<and> \<not> is_hello req \<and> \<not> is_end req | Bad _ \<Rightarrow> True | Eof \<Rightarrow> False)"

definition traced :: "(World \<times> u64 \<times> Read \<times> string) list \<Rightarrow> string list" where
  "traced xs = map (\<lambda>(_, _, _, buf). buf) (filter (\<lambda>(_, _, read, _). \<exists>req. read = Got req) xs)"

lemma serve_turns_trace:
  "serve_turns ht sd cfg meta sv xs = Some sv' \<Longrightarrow> \<forall>(w, io, read, buf) \<in> set xs. mid_episode read \<Longrightarrow> sv_episode sv = Some p \<Longrightarrow>
     sc_trace cfg \<noteq> Some p \<Longrightarrow> sv_files sv p = Some t \<Longrightarrow> sv_files sv' p = Some (t @ unlines (traced xs)) \<and> sv_episode sv' = Some p"
proof (induction ht sd cfg meta sv xs arbitrary: t rule: serve_turns.induct)
  case (1 ht sd cfg meta sv)
  then show ?case by (simp add: traced_def unlines_def)
next
  case (2 ht sd cfg meta sv w io read buf xs)
  obtain sv1 r where u: "serve_turn ht sd w io cfg meta sv read buf = Some (Inr (sv1, r))" "serve_turns ht sd cfg meta sv1 xs = Some sv'"
    using 2(2) by (auto split: option.splits sum.splits prod.splits)
  have IH: "sv_episode sv1 = Some p \<Longrightarrow> sv_files sv1 p = Some t1 \<Longrightarrow> sv_files sv' p = Some (t1 @ unlines (traced xs)) \<and> sv_episode sv' = Some p" for t1
    using 2(1) [OF u(1) refl refl u(2) _ _ 2(5)] 2(3) by auto
  show ?case
  proof (cases read)
    case (Bad msg)
    then have "sv_episode sv1 = sv_episode sv" "sv_files sv1 = sv_files sv"
      using u(1) by (auto simp: serve_turn_def serve_bad_line_def)
    then show ?thesis using IH [of t] 2(4,6) Bad by (simp add: traced_def)
  next
    case (Got req)
    then have q: "run_id_of req = None" "\<not> is_hello req" "\<not> is_end req" using 2(3) by (auto simp: mid_episode_def)
    obtain sv0 where s: "trace_request w cfg meta sv buf req = Inr sv0" "sv_files sv1 = sv_files sv0" "sv_episode sv1 = sv_episode sv0"
      using u(1) Got q(3) by (auto simp: serve_turn_def elim!: serve_requestE)
    note m = trace_more [OF s(1) 2(4) q(1,2) 2(5,6)]
    show ?thesis using IH [of "t @ buf @ [LF]"] m s(2,3) Got by (simp add: traced_def unlines_def)
  next
    case Eof
    then show ?thesis using 2(3) by (simp add: mid_episode_def)
  qed
qed

theorem episode_trace:
  assumes "serve_request ht w io cfg meta sv raw (Req_EpisodeBegin b) = Some (Inr (sv1, r))" "sc_out cfg = Some out"
    "p = trace_path out (rm_run_id (eb_run b)) (rm_arm_id (eb_run b)) (rm_episode_index (eb_run b))" "sc_trace cfg \<noteq> Some p"
    "serve_turns ht sd cfg meta sv1 xs = Some sv'" "\<forall>(w, io, read, buf) \<in> set xs. mid_episode read"
  shows "sv_files sv' p = Some (META_PREFIX @ meta @ [LF] @ unlines (greeting (sv_hello sv) @ raw # traced xs))"
  using assms(1)
proof (rule serve_requestE)
  fix sv0 s
  assume t: "trace_request w cfg meta sv raw (Req_EpisodeBegin b) = Inr sv0" "sv_files sv1 = sv_files sv0"
    "sv_episode sv1 = (if is_end (Req_EpisodeBegin b) then None else sv_episode sv0)"
  note k = trace_begin [OF t(1) assms(2,3)]
  have "sv_episode sv1 = Some p" "sv_files sv1 p = Some (META_PREFIX @ meta @ [LF] @ unlines (greeting (sv_hello sv) @ [raw]))"
    using k t(2,3) by (simp_all add: is_end_def)
  from serve_turns_trace [OF assms(5,6) this(1) assms(4) this(2)] show ?thesis by (simp add: unlines_def)
qed

subsection \<open>What the trace misses\<close>

text \<open>A refused \<open>episode_begin\<close> restarts the trace of the episode that stays open.\<close>

lemma episode_open_kept:
  assumes "handle ht w s (Req_EpisodeBegin b) = Some (s', r)" "ss_ep s \<noteq> None"
  shows "ss_ep s' \<noteq> None \<and> (\<exists>e. r = Resp_Error e)"
  using assms(1)
proof (cases rule: handleE)
  case (refused s1 m)
  then show ?thesis using fold_pending_keeps(9) [OF refused(1)] assms(2) by (simp add: err_def)
next
  case (dispatched s1)
  have e: "ss_ep s1 \<noteq> None" using fold_pending_keeps(9) [OF dispatched(1)] assms(2) by simp
  then have "Some (fail (s1 \<lparr> ss_last_id := req_id (Req_EpisodeBegin b) \<rparr>) (eb_id b) ''state'' ''episode_begin while an episode is open'') = Some (s', r)"
    using dispatched(3) by (simp add: dispatch_def episode_begin_def Let_def)
  then have "s' = fst (fail (s1 \<lparr> ss_last_id := req_id (Req_EpisodeBegin b) \<rparr>) (eb_id b) ''state'' ''episode_begin while an episode is open'')"
    "r = snd (fail (s1 \<lparr> ss_last_id := req_id (Req_EpisodeBegin b) \<rparr>) (eb_id b) ''state'' ''episode_begin while an episode is open'')"
    by simp_all
  then show ?thesis using e by (simp add: err_def)
qed

theorem refused_begin_erases:
  assumes "serve_request ht w io cfg meta sv raw (Req_EpisodeBegin b) = Some (Inr (sv', r))" "ss_ep (sv_session sv) \<noteq> None" "sc_out cfg = Some out"
  shows "(\<exists>e. r = Resp_Error e) \<and> ss_ep (sv_session sv') \<noteq> None \<and>
    sv_files sv' (trace_path out (rm_run_id (eb_run b)) (rm_arm_id (eb_run b)) (rm_episode_index (eb_run b)))
      = Some (META_PREFIX @ meta @ [LF] @ unlines (greeting (sv_hello sv) @ [raw]))"
  using assms(1)
proof (rule serve_requestE)
  fix sv0 s
  assume t: "trace_request w cfg meta sv raw (Req_EpisodeBegin b) = Inr sv0" "handle ht w (sv_session sv) (Req_EpisodeBegin b) = Some (s, r)"
    "sv_session sv' = (case r of Resp_Verdict v \<Rightarrow> note_io_ns s (vm_seq v) io | _ \<Rightarrow> s)" "sv_files sv' = sv_files sv0"
  from episode_open_kept [OF t(2) assms(2)] obtain e where "ss_ep s \<noteq> None" "r = Resp_Error e" by blast
  then show ?thesis using trace_begin(2) [OF t(1) assms(3) refl] t(3,4) by simp
qed

text \<open>A line that the codec refused faults the open episode and is in no trace.\<close>

lemma bad_line_untraced:
  assumes "serve_bad_line ht sv i msg = Some (sv', r)"
  shows "sv_files sv' = sv_files sv" "ss_ep (sv_session sv) \<noteq> None \<Longrightarrow> ss_faulted (sv_session sv')"
proof -
  obtain s1 where f: "fold_pending_timing (ht_crypto ht) (sv_session sv) = Some s1"
    "sv' = sv \<lparr> sv_session := fst (fail s1 (case i of Some n \<Rightarrow> n | None \<Rightarrow> ss_last_id s1) ''schema'' msg), sv_sent := sv_sent sv @ [r] \<rparr>"
    using assms by (auto simp: serve_bad_line_def handle_bad_line_def split_beta)
  show "sv_files sv' = sv_files sv" using f(2) by simp
  show "ss_ep (sv_session sv) \<noteq> None \<Longrightarrow> ss_faulted (sv_session sv')"
    using f(2) fold_pending_keeps(9) [OF f(1)] by (simp add: fail_def)
qed

text \<open>An absolute run id leads out of the output directory.\<close>

lemma trace_path_absolute: "trace_path out (CHR ''/'' # r) a i = trace_path out' (CHR ''/'' # r) a i"
  by (simp add: trace_path_def path_join_def)

end
