(* ===== verification/DemoServe.thy ===== *)
theory DemoServe
  imports ServeTrace DemoSession
begin

text \<open>A concrete server over the demo session: two malformed lines, and an episode whose trace is read back.\<close>

definition demo_serde :: Serde where
  "demo_serde = \<lparr> sd_request = (\<lambda>l. if l = ''b'' then Inr (Req_EpisodeBegin demo_begin) else Inl ''?''),
     sd_value = (\<lambda>l. if l = ''m'' then Inr VNull else Inl ''?''), sd_misfit = (\<lambda>_. []), sd_text = (\<lambda>_. ''m'') \<rparr>"

definition demo_serve :: ServeConfig where "demo_serve = \<lparr> sc_out = Some ''o'', sc_trace = None, sc_abort = False \<rparr>"

lemma letter_line:
  assumes "visible c" shows "wire_line [c]"
proof -
  have c: "byte_of c < 0x80" "c \<noteq> LF" "c \<noteq> CR" using assms by (auto simp: visible_def byte_of_def LF_def CR_def)
  have "byte_of LF < 0x80" by (simp add: byte_of_def LF_def)
  then have "utf8_valid [c, LF]" using c(1) by (simp add: utf8_valid_ascii)
  moreover have "trim [c] = [c]" using assms trim_id [of "[c]"] by simp
  moreover have "1 < MAX_LINE" by (simp add: MAX_LINE_def)
  ultimately show ?thesis using c(2,3) by (simp add: wire_line_def)
qed

lemma demo_wire_lines: "wire_line ''a''" "wire_line ''b''" "wire_line ''c''"
  by (rule letter_line, simp add: visible_def byte_of_def)+

lemma demo_lines: "wire_line ''b'' \<and> LF \<notin> set ''m'' \<and> CR \<notin> set ''m'' \<and> utf8_valid (META_PREFIX @ ''m'' @ [LF])"
proof -
  have "LF \<notin> set ''m''" "CR \<notin> set ''m''" by code_simp+
  moreover have "utf8_valid (META_PREFIX @ ''m'' @ [LF])" by (rule utf8_valid_ascii, code_simp)
  ultimately show ?thesis using demo_wire_lines by simp
qed

definition demo_input :: string where "demo_input = unlines [''a'', ''c'']"

lemma demo_parse: "parse_request demo_serde ''a'' = Inl (''malformed request: '' @ ''?'')" "parse_request demo_serde ''c'' = Inl (''malformed request: '' @ ''?'')"
  "parse_request demo_serde ''b'' = Inr (Req_EpisodeBegin demo_begin)"
  by (simp_all add: parse_request_def demo_serde_def)

lemma demo_reads: "reads_of demo_serde demo_input = [(Bad (''malformed request: '' @ ''?''), ''a''), (Bad (''malformed request: '' @ ''?''), ''c'')]"
  using reads_of_lines [of "[''a'', ''c'']" demo_serde] demo_wire_lines demo_parse by (simp add: demo_input_def)

lemma idle_bad_line:
  assumes "ss_ep (sv_session sv) = None \<or> (\<exists>ep. ss_ep (sv_session sv) = Some ep \<and> ep_pending_timing ep = None)"
  obtains sv' r where "serve_bad_line ht sv i msg = Some (sv', r)" "ss_ep (sv_session sv) = None \<Longrightarrow> ss_ep (sv_session sv') = None"
  using assms that by (auto simp: serve_bad_line_def handle_bad_line_def fold_pending_timing_def fail_def err_def)

lemma demo_served:
  obtains stop sv where "serve demo_host demo_serde (\<lambda>_. demo_world) (\<lambda>_. 0) demo_serve demo_disk demo_config (\<lambda>_. None) demo_input = Some (stop, Some sv)"
    "stop = Exit 0"
proof -
  obtain s where s: "Session_new demo_host demo_world demo_disk demo_config = Some (Inr s)" "ss_ep s = None" using demo_session by blast
  let ?sv = "\<lparr> sv_session = s, sv_hello = None, sv_episode = None, sv_files = (\<lambda>_. None), sv_sent = [] \<rparr>"
  let ?m = "''malformed request: '' @ ''?''"
  have r: "read_request demo_serde demo_input = (Bad ?m, ''a'', unlines [''c''])" "read_request demo_serde (unlines [''c'']) = (Bad ?m, ''c'', [])"
    using read_request_wire_line [OF demo_wire_lines(1), of demo_serde "unlines [''c'']"] read_request_wire_line [OF demo_wire_lines(3), of demo_serde "[]"] demo_parse
    by (simp_all add: demo_input_def unlines_def)
  have n: "demo_input \<noteq> []" "unlines [''c''] \<noteq> []" by (simp_all add: demo_input_def unlines_def)
  have e: "last_turn demo_serve (Bad msg) x = None" for msg x by (simp add: last_turn_def stops_at_def demo_serve_def split: Response.split)
  obtain sv1 r1 where b1: "serve_bad_line demo_host ?sv (peek_id demo_serde ''a'') ?m = Some (sv1, r1)" "ss_ep (sv_session sv1) = None"
    by (rule idle_bad_line [of ?sv demo_host "peek_id demo_serde ''a''" ?m]) (use s(2) in auto)
  obtain sv2 r2 where b2: "serve_bad_line demo_host sv1 (peek_id demo_serde ''c'') ?m = Some (sv2, r2)"
    by (rule idle_bad_line [of sv1 demo_host "peek_id demo_serde ''c''" ?m]) (use b1(2) in auto)
  have z: "serve_loop demo_host demo_serde (\<lambda>_. demo_world) (\<lambda>_. 0) demo_serve ''m'' i sv2 [] = Some (Exit 0, sv2)" for i
    by (simp add: serve_loop.simps)
  have t: "serve_turn demo_host demo_serde demo_world 0 demo_serve ''m'' ?sv (Bad ?m) ''a'' = Some (Inr (sv1, r1))"
    "serve_turn demo_host demo_serde demo_world 0 demo_serve ''m'' sv1 (Bad ?m) ''c'' = Some (Inr (sv2, r2))"
    unfolding serve_turn_def Read.case b1(1) b2 by simp_all
  have l: "serve_loop demo_host demo_serde (\<lambda>_. demo_world) (\<lambda>_. 0) demo_serve ''m'' 0 ?sv demo_input = Some (Exit 0, sv2)"
    unfolding serve_loop_step [OF n(1) r(1)] t(1) option.case sum.case prod.case e
      serve_loop_step [OF n(2) r(2)] t(2) by (rule z)
  have m: "sd_text demo_serde v = ''m''" "sc_trace demo_serve = None" for v by (simp_all add: demo_serde_def demo_serve_def)
  have "serve demo_host demo_serde (\<lambda>_. demo_world) (\<lambda>_. 0) demo_serve demo_disk demo_config (\<lambda>_. None) demo_input = Some (Exit 0, Some sv2)"
    unfolding serve_def s(1) using l by (simp add: m Let_def)
  then show thesis using that by blast
qed

lemma demo_traced:
  obtains sv sv1 r sv' where "serve_request demo_host demo_world 0 demo_serve ''m'' sv ''b'' (Req_EpisodeBegin demo_begin) = Some (Inr (sv1, r))"
    "serve_turns demo_host demo_serde demo_serve ''m'' sv1 [(demo_world, 0, Bad ''x'', ''c'')] = Some sv'" "sv_hello sv = None"
proof -
  obtain s0 s r where s: "handle demo_host demo_world s0 (Req_EpisodeBegin demo_begin) = Some (s, r)" "demo_opened s"
    by (rule demo_open)
  obtain ep where ep: "ss_ep s = Some ep" "ep_pending_timing ep = None" using s(2) by (auto simp: demo_opened_def)
  let ?sv = "\<lparr> sv_session = s0, sv_hello = None, sv_episode = None, sv_files = (\<lambda>_. None), sv_sent = [] \<rparr>"
  obtain sv0 where t: "trace_request demo_world demo_serve ''m'' ?sv ''b'' (Req_EpisodeBegin demo_begin) = Inr sv0"
    by (simp add: trace_request_def demo_serve_def demo_world_def run_id_of_def is_hello_def TraceWriter_open_def TraceWriter_line_def Let_def)
  have k: "sv_session sv0 = s0" using trace_request_keeps(1) [OF t] by simp
  have n: "note_io_ns s q 0 = s" for q using ep by (simp add: note_io_ns_def)
  have "\<exists>sv1. serve_request demo_host demo_world 0 demo_serve ''m'' ?sv ''b'' (Req_EpisodeBegin demo_begin) = Some (Inr (sv1, r)) \<and> sv_session sv1 = s"
    unfolding serve_request_def t using k s(1) n by (cases r) simp_all
  then obtain sv1 where sv1: "serve_request demo_host demo_world 0 demo_serve ''m'' ?sv ''b'' (Req_EpisodeBegin demo_begin) = Some (Inr (sv1, r))"
    "sv_session sv1 = s" by blast
  obtain sv' r' where "serve_bad_line demo_host sv1 (peek_id demo_serde ''c'') ''x'' = Some (sv', r')"
    by (rule idle_bad_line [of sv1 demo_host "peek_id demo_serde ''c''" "''x''"]) (use sv1(2) ep in auto)
  then have "serve_turns demo_host demo_serde demo_serve ''m'' sv1 [(demo_world, 0, Bad ''x'', ''c'')] = Some sv'" by (simp add: serve_turn_def)
  then show thesis using that [OF sv1(1)] by simp
qed

lemma demo_first_line: "utf8_valid (fst (until_lf (MAX_LINE + 1) (''x'' @ [LF] @ ''y'')))" "drain_line (''x'' @ [LF] @ ''y'') = ''y''"
proof -
  have "LF \<notin> set ''x''" by code_simp
  then have "until_lf (MAX_LINE + 1) (''x'' @ LF # ''y'') = (''x'' @ [LF], ''y'')" by (rule until_lf_line) (simp add: MAX_LINE_def)
  moreover have "utf8_valid (''x'' @ [LF])" by (rule utf8_valid_ascii, code_simp)
  ultimately show "utf8_valid (fst (until_lf (MAX_LINE + 1) (''x'' @ [LF] @ ''y'')))" by simp
  show "drain_line (''x'' @ [LF] @ ''y'') = ''y''" by code_simp
qed

definition demo_junk :: string where "demo_junk = CHR 0xFF # replicate MAX_LINE (CHR ''a'')"

lemma demo_junk: "LF \<notin> set demo_junk" "length demo_junk = MAX_LINE + 1" "\<not> utf8_valid demo_junk"
proof -
  have "CHR 0xFF \<noteq> LF" "CHR ''a'' \<noteq> LF" by code_simp+
  then show "LF \<notin> set demo_junk" by (auto simp: demo_junk_def)
  show "length demo_junk = MAX_LINE + 1" by (simp add: demo_junk_def)
  have "byte_of (CHR 0xFF) = 255" by code_simp
  then have "\<not> scalar_ok (CHR 0xFF # x)" for x by (simp add: scalar_ok_def split: list.split)
  then show "\<not> utf8_valid demo_junk" by (simp add: utf8_valid_def demo_junk_def)
qed

end
