(* ===== verification/Crash.thy ===== *)
theory Crash
  imports EventFiles SessionReply
begin

text \<open>
  The crash receipt, written by the host when the serving process died before \<open>episode_end\<close>:
  \<open>write_crash_episode\<close> of \<open>lictor-runtime/src/episode.rs\<close> and the budget of
  \<open>lictor-cli/src/cmd/crash_receipt.rs\<close>, which completes the host's part with what the fuse would have
  reported.  The receipt verifies, says that the fuse failed, and extends the ledger.
\<close>

subsection \<open>The budget\<close>

definition FuseMode_ALL :: "FuseMode list" where "FuseMode_ALL = [Observe, Enforce]"
definition ExecMode_ALL :: "ExecMode list" where "ExecMode_ALL = [Sync, Async]"

definition BUDGET_FIELDS :: "string list" where
  "BUDGET_FIELDS = [''mode'', ''delay_steps'', ''tick_ms'', ''exec_mode'', ''stitch'', ''on_escalate'', ''tier0_armed'', ''tier1_armed'',
     ''gate'', ''alpha_num'', ''alpha_den'', ''kn'']"

definition BudgetBinding_read :: "Value \<Rightarrow> BudgetBinding option" where
  "BudgetBinding_read v =
     Option.bind (struct_fields BUDGET_FIELDS v) (\<lambda>m.
     Option.bind (field m ''mode'' (read_enum FuseMode_ALL FuseMode_name)) (\<lambda>mode.
     Option.bind (field m ''delay_steps'' read_num) (\<lambda>delay_steps.
     Option.bind (field m ''tick_ms'' read_num) (\<lambda>tick_ms.
     Option.bind (field m ''exec_mode'' (read_enum ExecMode_ALL ExecMode_name)) (\<lambda>exec_mode.
     Option.bind (field m ''stitch'' read_str) (\<lambda>stitch.
     Option.bind (field m ''on_escalate'' read_str) (\<lambda>on_escalate.
     Option.bind (field m ''tier0_armed'' (read_list read_str)) (\<lambda>tier0_armed.
     Option.bind (field m ''tier1_armed'' read_bool) (\<lambda>tier1_armed.
     Option.bind (field m ''gate'' (read_list read_str)) (\<lambda>gate.
     Option.bind (field m ''alpha_num'' read_num) (\<lambda>alpha_num.
     Option.bind (field m ''alpha_den'' read_num) (\<lambda>alpha_den.
     Option.bind (field m ''kn'' (read_pair read_num)) (\<lambda>kn.
     Some \<lparr> bb_mode = mode, bb_delay_steps = delay_steps, bb_tick_ms = tick_ms, bb_exec_mode = exec_mode, bb_stitch = stitch,
       bb_on_escalate = on_escalate, bb_tier0_armed = tier0_armed, bb_tier1_armed = tier1_armed, bb_gate = gate,
       bb_alpha_num = alpha_num, bb_alpha_den = alpha_den, bb_kn = kn \<rparr>)))))))))))))"

text \<open>\<open>insert\<close> of a JSON object, whose keys are ordered.\<close>

fun obj_insert :: "string \<Rightarrow> Value \<Rightarrow> (string \<times> Value) list \<Rightarrow> (string \<times> Value) list" where
  "obj_insert k v [] = [(k, v)]"
| "obj_insert k v ((l, u) # m) =
     (if k < l then (k, v) # (l, u) # m else if k = l then (k, v) # m else (l, u) # obj_insert k v m)"

definition armed_calibration :: "SessionConfig \<Rightarrow> CalibrationC option" where
  "armed_calibration cfg = (if cg_tier1 cfg then map_option cl_c (cg_calibration cfg) else None)"

definition derived_budget :: "SessionConfig \<Rightarrow> u32 \<Rightarrow> (string \<times> Value) list" where
  "derived_budget cfg tier0 =
     (let calib = armed_calibration cfg; h = se_hysteresis (cg_envelope cfg);
          gate = (case calib of Some c \<Rightarrow> GateSpec_names (cc_gate c) | None \<Rightarrow> se_gate (cg_envelope cfg));
          (alpha_num, alpha_den) = (case calib of Some c \<Rightarrow> (cc_alpha_num c, cc_alpha_den c) | None \<Rightarrow> (0, 1)) in
      [(''mode'', VStr (FuseMode_name (cg_mode cfg))), (''tier0_armed'', strings (TripMask_names tier0)),
       (''tier1_armed'', VBool (calib \<noteq> None)), (''gate'', strings gate), (''alpha_num'', num alpha_num),
       (''alpha_den'', num alpha_den), (''kn'', VArr [num (hy_k h), num (hy_n h)])])"

datatype BudgetError = BudgetNotJson string | BudgetNotObject | BudgetTier0 EnvelopeError | BudgetMisfit string

definition budget_from_json :: "Json \<Rightarrow> SessionConfig \<Rightarrow> string \<Rightarrow> BudgetError + BudgetBinding" where
  "budget_from_json js cfg budget_json = (case js_value js budget_json of Inl e \<Rightarrow> Inl (BudgetNotJson e)
     | Inr (VObj m) \<Rightarrow>
         (case (case cg_tier0_override cfg of Some o' \<Rightarrow> Inr o' | None \<Rightarrow> tier0_mask (cg_envelope cfg)) of
            Inl e \<Rightarrow> Inl (BudgetTier0 e)
          | Inr tier0 \<Rightarrow>
              let v = VObj (foldl (\<lambda>m (k, val). obj_insert k val m) m (derived_budget cfg tier0)) in
              (case BudgetBinding_read v of None \<Rightarrow> Inl (BudgetMisfit (js_misfit js v)) | Some b \<Rightarrow> Inr b))
     | Inr _ \<Rightarrow> Inl BudgetNotObject)"

subsection \<open>The receipt\<close>

definition NOTE_CRASH :: string where
  "NOTE_CRASH = ''fuse process died before episode_end; host-written crash receipt''"
definition CRASH_CLIENT :: string where "CRASH_CLIENT = ''lictor crash-receipt''"

definition zero_counts :: VerdictCounts where
  "zero_counts = \<lparr> vc_ticks = 0, vc_nominal = 0, vc_watching = 0, vc_clamped = 0, vc_braking = 0, vc_held = 0, vc_escalated = 0,
     vc_fault = 0, vc_terminated = 0, vc_substituted = 0, vc_chunks_seen = 0, vc_chunks_rejected = 0, vc_clamps = 0, vc_holds = 0,
     vc_rearms = 0, vc_escalations = 0, vc_trips_by_bit = replicate 16 0, vc_fired_by_feat = replicate NFEAT 0,
     vc_first_trip_tick = None, vc_first_trip_reason = None, vc_first_stop_tick = None, vc_handoff_tick = None,
     vc_violations_reached_env = 0, vc_terminal_state = Fault \<rparr>"

definition crash_notes :: "BudgetBinding \<Rightarrow> string option \<Rightarrow> bool \<Rightarrow> string \<Rightarrow> string list" where
  "crash_notes budget calibration_digest ephemeral nt =
     snd (evaluate_fuse budget zero_counts calibration_digest ephemeral) @ [NOTE_CRASH] @ (if trim nt = [] then [] else [trim nt])"

definition crash_body ::
  "Host \<Rightarrow> World \<Rightarrow> SessionConfig \<Rightarrow> RunBinding \<Rightarrow> BudgetBinding \<Rightarrow> string \<Rightarrow> string \<Rightarrow> bool \<Rightarrow> string \<Rightarrow> string option \<Rightarrow> ReceiptBody" where
  "crash_body ht w cfg run budget client nt ephemeral envelope_digest ledger_prev =
     (let calibration_digest = map_option cl_digest (cg_calibration cfg) in
      \<lparr> bo_schema = RECEIPT_SCHEMA, bo_canonical = CANONICAL_ID, bo_created_epoch = wd_now w, bo_lictor_version = LICTOR_VERSION,
        bo_lictor_git = cg_lictor_git cfg, bo_lictor_sha256 = cg_lictor_sha256 cfg, bo_client = client, bo_run = run, bo_budget = budget,
        bo_fault_injection = None, bo_envelope = floatify (ht_envelope_json ht (cg_envelope cfg)), bo_envelope_digest = envelope_digest,
        bo_calibration_digest = calibration_digest, bo_inputs = fuse_inputs cfg, bo_counts = zero_counts,
        bo_outcome = \<lparr> eo_steps = 0, eo_success = False, eo_terminated = False, eo_truncated = False, eo_max_coverage = f_nan,
          eo_final_coverage = f_nan, eo_reward_sum = f_nan, eo_ended_by = ''fuse_crash'', eo_max_s = f_neg_inf,
          eo_max_z = F64Array_from_slice (replicate NFEAT f_neg_inf) [of_nat NFEAT] \<rparr>,
        bo_handoffs = [], bo_verdict_events = 0, bo_verdict_chain_head = ZERO_HASH, bo_timing_events = 0,
        bo_timing_chain_head = ZERO_HASH,
        bo_latency = \<lparr> ls_n = 0, ls_p50_ns = 0, ls_p90_ns = 0, ls_p99_ns = 0, ls_p999_ns = 0, ls_max_ns = 0, ls_label = cg_latency_label cfg \<rparr>,
        bo_ticks_policy = cg_ticks_policy cfg, bo_ticks = [], bo_fuse_ok = False,
        bo_fuse_notes = crash_notes budget calibration_digest ephemeral nt, bo_ledger_prev = ledger_prev \<rparr>)"

datatype CrashError = CrashNoOut | CrashLedger string | CrashSign CanonError | CrashWrite string

text \<open>\<open>None\<close> where the digest of the envelope panics.\<close>

definition write_crash_episode ::
  "Host \<Rightarrow> World \<Rightarrow> Disk \<Rightarrow> SessionConfig \<Rightarrow> RunBinding \<Rightarrow> BudgetBinding \<Rightarrow> string \<Rightarrow> string \<Rightarrow> (Disk \<times> (CrashError + LedgerEntry)) option" where
  "write_crash_episode ht w dk cfg run budget client nt = (case cg_out_dir cfg of None \<Rightarrow> Some (dk, Inl CrashNoOut)
     | Some out_dir \<Rightarrow>
        let paths = episode_paths out_dir (rb_run_id run) (rb_arm_id run) (rb_episode_index run);
            (seed, ephemeral) = (case cg_key cfg of Some k \<Rightarrow> (k, False) | None \<Rightarrow> (ht_keygen ht, True)) in
        Option.bind (canonical_digest (ht_crypto ht) (ht_envelope_json ht (cg_envelope cfg))) (\<lambda>envelope_digest.
        case ledger_head w dk (pa_ledger paths) of Inl e \<Rightarrow> Some (dk, Inl (CrashLedger e))
        | Inr prev \<Rightarrow> (case sign_receipt (ht_crypto ht) (crash_body ht w cfg run budget client nt ephemeral envelope_digest prev) seed of
            Inl e \<Rightarrow> Some (dk, Inl (CrashSign e))
          | Inr sr \<Rightarrow> map_option (map_prod id (\<lambda>r. case r of Inl e \<Rightarrow> Inl (CrashWrite e) | Inr e \<Rightarrow> Inr e))
              (write_episode (ht_crypto ht) w dk paths sr [] []))))"

subsection \<open>What the budget is\<close>

lemma obj_insert_map: "map_of (obj_insert k v m) = (map_of m)(k \<mapsto> v)"
  by (induction k v m rule: obj_insert.induct) auto

lemma obj_insert_keys: "set (map fst (obj_insert k v m)) = insert k (set (map fst m))"
  by (induction k v m rule: obj_insert.induct) auto

lemma obj_insert_sorted: "sorted_wrt (<) (map fst m) \<Longrightarrow> sorted_wrt (<) (map fst (obj_insert k v m))"
proof (induction k v m rule: obj_insert.induct)
  case (2 k v l u m)
  have "x \<in> set (map fst (obj_insert k v m)) \<Longrightarrow> l < x" if "\<not> k < l" "k \<noteq> l" for x
    using 2(2) that obj_insert_keys [of k v m] by auto
  then show ?case using 2 by auto
qed simp

lemma obj_inserts:
  "sorted_wrt (<) (map fst m) \<Longrightarrow>
     sorted_wrt (<) (map fst (foldl (\<lambda>m (k, val). obj_insert k val m) m kvs)) \<and>
     map_of (foldl (\<lambda>m (k, val). obj_insert k val m) m kvs) = map_of (rev kvs @ m)"
proof (induction kvs arbitrary: m)
  case (Cons x kvs)
  obtain k v where x: "x = (k, v)" by (cases x)
  have "map_of (rev kvs @ obj_insert k v m) = map_of (rev kvs @ (k, v) # m)"
    by (simp add: map_add_def obj_insert_map fun_eq_iff split: option.split)
  then show ?case using Cons.IH [OF obj_insert_sorted [OF Cons.prems], of k v] x by simp
qed simp

lemma mode_enums:
  "read_enum FuseMode_ALL FuseMode_name (VStr (FuseMode_name a)) = Some a"
  "read_enum ExecMode_ALL ExecMode_name (VStr (ExecMode_name b)) = Some b"
  by (cases a; simp add: read_enum_def FuseMode_ALL_def) (cases b; simp add: read_enum_def ExecMode_ALL_def)

text \<open>The host's part of the budget, as \<open>episode_begin\<close> would have sent it.\<close>

definition host_part :: "(string \<times> Value) list \<Rightarrow> BudgetMsg \<Rightarrow> bool" where
  "host_part m b \<longleftrightarrow> sorted_wrt (<) (map fst m) \<and> field (map_of m) ''delay_steps'' read_num = Some (bg_delay_steps b) \<and>
     field (map_of m) ''tick_ms'' read_num = Some (bg_tick_ms b) \<and>
     field (map_of m) ''exec_mode'' (read_enum ExecMode_ALL ExecMode_name) = Some (bg_exec_mode b) \<and>
     field (map_of m) ''stitch'' read_str = Some (bg_stitch b) \<and> field (map_of m) ''on_escalate'' read_str = Some (bg_on_escalate b)"

definition crash_budget :: "SessionConfig \<Rightarrow> u32 \<Rightarrow> BudgetMsg \<Rightarrow> BudgetBinding" where
  "crash_budget cfg tier0 b =
     (let calib = armed_calibration cfg; h = se_hysteresis (cg_envelope cfg) in
      \<lparr> bb_mode = cg_mode cfg, bb_delay_steps = bg_delay_steps b, bb_tick_ms = bg_tick_ms b, bb_exec_mode = bg_exec_mode b,
        bb_stitch = bg_stitch b, bb_on_escalate = bg_on_escalate b, bb_tier0_armed = TripMask_names tier0, bb_tier1_armed = (calib \<noteq> None),
        bb_gate = (case calib of Some c \<Rightarrow> GateSpec_names (cc_gate c) | None \<Rightarrow> se_gate (cg_envelope cfg)),
        bb_alpha_num = (case calib of Some c \<Rightarrow> cc_alpha_num c | None \<Rightarrow> 0), bb_alpha_den = (case calib of Some c \<Rightarrow> cc_alpha_den c | None \<Rightarrow> 1),
        bb_kn = (hy_k h, hy_n h) \<rparr>)"

lemma field_upd: "field (m(k \<mapsto> v)) l f = (if l = k then f v else field m l f)"
  by (simp add: field_def)

lemma budget_from_json_reads:
  assumes "js_value js t = Inr (VObj m)" "host_part m b"
    "(case cg_tier0_override cfg of Some o' \<Rightarrow> Inr o' | None \<Rightarrow> tier0_mask (cg_envelope cfg)) = Inr tier0"
  shows "budget_from_json js cfg t = Inr (crash_budget cfg tier0 b)"
proof -
  define m' where "m' = foldl (\<lambda>m (k, val). obj_insert k val m) m (derived_budget cfg tier0)"
  have k: "sorted_wrt (<) (map fst m')" "map_of m' = map_of (rev (derived_budget cfg tier0) @ m)"
    using obj_inserts [of m "derived_budget cfg tier0"] assms(2) by (simp_all add: host_part_def m'_def)
  then have "struct_fields BUDGET_FIELDS (VObj m') = Some (map_of m')"
    by (simp add: struct_fields_def strict_sorted_iff)
  then have "BudgetBinding_read (VObj m') = Some (crash_budget cfg tier0 b)"
    unfolding BudgetBinding_read_def k(2) using assms(2)
    by (simp add: host_part_def field_upd derived_budget_def Let_def split_beta reads mode_enums crash_budget_def split: option.splits)
  then show ?thesis using assms(1,3) by (simp add: budget_from_json_def m'_def Let_def)
qed

text \<open>It is the budget that the session binds, when the gate is written as the fuse would write it.\<close>

definition gate_as_written :: "SessionConfig \<Rightarrow> bool" where
  "gate_as_written cfg \<longleftrightarrow> armed_calibration cfg \<noteq> None \<or> (\<forall>g. GateSpec_parse (se_gate (cg_envelope cfg)) = Inr g \<longrightarrow>
     GateSpec_names g = se_gate (cg_envelope cfg))"

lemma compile_budget:
  assumes "SafetyEnvelope_compile dig emdig e mode calib = Inr fc"
  shows "\<exists>g. GateSpec_parse (se_gate e) = Inr g \<and> cc_gate (fc_calib fc) = (case calib of Some c \<Rightarrow> cc_gate c | None \<Rightarrow> g)"
    "calib = Some c \<Longrightarrow> fc_calib fc = c" "tier0_mask e = Inr (fc_tier0_enabled fc)" "fc_hyst fc = se_hysteresis e"
  using assms by (auto simp: SafetyEnvelope_compile_def Let_def map_gate_err_def split: sum.splits option.splits)

lemma Session_new_parts:
  assumes "Session_new ht w dk cfg = Some (Inr s)"
  obtains dig emdig fc where
    "SafetyEnvelope_compile dig emdig (cg_envelope cfg) (cg_mode cfg) (armed_calibration cfg) = Inr fc"
    "fu_cfg (ss_fuse s) = with_tier0 (cg_tier0_override cfg) fc" "ss_cfg s = cfg"
    "ss_calibration_digest s = (if cg_tier1 cfg then map_option cl_digest (cg_calibration cfg) else None)"
proof -
  obtain e d where "SafetyEnvelope_validate (cg_envelope cfg) = Inr ()"
    "canonical_digest (ht_crypto ht) (ht_embodiment_json ht (se_embodiment (cg_envelope cfg))) = Some e"
    "canonical_digest (ht_crypto ht) (ht_envelope_json ht (cg_envelope cfg)) = Some d"
    using assms by (cases "SafetyEnvelope_validate (cg_envelope cfg)";
      cases "canonical_digest (ht_crypto ht) (ht_embodiment_json ht (se_embodiment (cg_envelope cfg)))";
      cases "canonical_digest (ht_crypto ht) (ht_envelope_json ht (cg_envelope cfg))") (simp_all add: Session_new_def)
  note v = this
  note q = assms [unfolded Session_new_def v bind.simps sum.case]
  have "\<not> (case cg_calibration cfg of Some c \<Rightarrow> cl_embodiment_digest c \<noteq> e | None \<Rightarrow> False)" using q by (auto split: if_split_asm)
  note q = q [unfolded if_not_P [OF this], folded armed_calibration_def]
  obtain fc where c: "SafetyEnvelope_compile (\<lambda>_. d) (\<lambda>_. e) (cg_envelope cfg) (cg_mode cfg) (armed_calibration cfg) = Inr fc"
    using q by (auto split: sum.split_asm)
  note q = q [unfolded c sum.case]
  obtain n where n: "(case cg_out_dir cfg of Some d \<Rightarrow> load_nonces w dk (path_join d NONCE_FILE) | None \<Rightarrow> Inr (\<lambda>_. None)) = Inr n"
    using q by (auto split: sum.split_asm)
  show thesis by (rule that [OF c]) (use q n in \<open>auto simp: Let_def split_beta Fuse_new_def\<close>)
qed

theorem crash_budget_equal:
  assumes "Session_new ht w dk cfg = Some (Inr s)" "js_value js t = Inr (VObj m)" "host_part m b"
  shows "budget_from_json js cfg t = Inr (budget_binding s b) \<longleftrightarrow> gate_as_written cfg"
  using assms(1)
proof (rule Session_new_parts)
  fix dig emdig fc
  assume c: "SafetyEnvelope_compile dig emdig (cg_envelope cfg) (cg_mode cfg) (armed_calibration cfg) = Inr fc"
    and f: "fu_cfg (ss_fuse s) = with_tier0 (cg_tier0_override cfg) fc" "ss_cfg s = cfg"
    "ss_calibration_digest s = (if cg_tier1 cfg then map_option cl_digest (cg_calibration cfg) else None)"
  note p = compile_budget [OF c]
  obtain g where g: "GateSpec_parse (se_gate (cg_envelope cfg)) = Inr g"
    "cc_gate (fc_calib fc) = (case armed_calibration cfg of Some c \<Rightarrow> cc_gate c | None \<Rightarrow> g)" using p(1) by blast
  have t1: "tier1_armed s \<longleftrightarrow> armed_calibration cfg \<noteq> None"
    by (cases "cg_calibration cfg") (simp_all add: tier1_armed_def f(3) armed_calibration_def)
  have t0: "(case cg_tier0_override cfg of Some o' \<Rightarrow> Inr o' | None \<Rightarrow> tier0_mask (cg_envelope cfg))
      = Inr (fc_tier0_enabled (with_tier0 (cg_tier0_override cfg) fc))"
    using p(3) by (simp add: with_tier0_def split: option.split)
  have k: "fc_calib (with_tier0 ov fc) = fc_calib fc" "fc_hyst (with_tier0 ov fc) = se_hysteresis (cg_envelope cfg)" for ov
    using p(4) by (simp_all add: with_tier0_def split: option.split)
  have "crash_budget cfg (fc_tier0_enabled (with_tier0 (cg_tier0_override cfg) fc)) b = budget_binding s b \<longleftrightarrow> gate_as_written cfg"
    using g t1 p(2) by (cases "armed_calibration cfg") (auto simp: crash_budget_def budget_binding_def Let_def f(1,2) k gate_as_written_def)
  then show ?thesis using budget_from_json_reads [OF assms(2,3) t0] by simp
qed

subsection \<open>What the receipt says\<close>

lemma crash_consistent:
  assumes "digest_of (cy_sha cy) (floatify (ht_envelope_json ht (cg_envelope cfg))) = Inr d" "cg_ticks_policy cfg \<in> {''all'', ''tail32'', ''none''}"
  shows "consistent cy (crash_body ht w cfg run budget client nt eph d prev)"
proof -
  have "\<exists>ns. check_embedded_ticks cy (crash_body ht w cfg run budget client nt eph d prev) = Some ((True, None), ns)"
    by (rule embedded_ok [where ts = "[]", OF _ _ _ _ _ _ assms(2)]) (simp_all add: crash_body_def Let_def embed_ticks_def)
  then show ?thesis using assms(1) by (simp add: consistent_def crash_body_def Let_def zero_counts_def)
qed

lemma canonical_digest_of:
  assumes "canonical_digest cy v = Some d" "keys_clean v" shows "digest_of (cy_sha cy) (floatify v) = Inr d"
proof -
  have "check_keys (floatify v) = Inr ()" using assms(2) walk_keys_ok [of "''$''" "floatify v"] by (simp add: floatify_clean check_keys_def)
  then show ?thesis using assms(1) by (auto simp: canonical_digest_def digest_of_def canon_of_def map_ok_Inr split: sum.splits)
qed

definition crash_key :: "Host \<Rightarrow> SessionConfig \<Rightarrow> u8 list" where
  "crash_key ht cfg = (case cg_key cfg of Some k \<Rightarrow> k | None \<Rightarrow> ht_keygen ht)"

theorem crash_receipt:
  assumes w: "write_crash_episode ht w dk cfg run budget client nt = Some (dk', Inr entry)"
    and o: "cg_out_dir cfg = Some out" "p = episode_paths out (rb_run_id run) (rb_arm_id run) (rb_episode_index run)"
    and key: "signs (ht_crypto ht) (crash_key ht cfg)" and env: "keys_clean (ht_envelope_json ht (cg_envelope cfg))"
    and pol: "cg_ticks_policy cfg \<in> {''all'', ''tail32'', ''none''}"
  obtains sr r prior where "dk_receipt dk' (pa_receipt p) = Some sr" "dk_ticks dk' (pa_ticks p) = Some []" "dk_timing dk' (pa_timing p) = Some []"
    "verify_receipt (ht_crypto ht) sr (Some (pubkey_hex (ht_crypto ht) (crash_key ht cfg))) = Some r" "intact r" "\<not> vr_fuse_ok r"
    "bo_run (sr_body sr) = run" "bo_budget (sr_body sr) = budget" "\<not> bo_fuse_ok (sr_body sr)" "NOTE_CRASH \<in> set (bo_fuse_notes (sr_body sr))"
    "prior = (case dk_ledger dk (pa_ledger p) of None \<Rightarrow> [] | Some es \<Rightarrow> es)" "dk_ledger dk' (pa_ledger p) = Some (prior @ [entry])"
    "append_ledger (cy_sha (ht_crypto ht)) prior sr = Some (prior @ [entry], entry)"
    "bo_ledger_prev (sr_body sr) = (if prior = [] then None else Some (le_hash (last prior)))"
proof -
  let ?cy = "ht_crypto ht"
  obtain d where d: "canonical_digest ?cy (ht_envelope_json ht (cg_envelope cfg)) = Some d"
    using w o by (cases "canonical_digest ?cy (ht_envelope_json ht (cg_envelope cfg))") (simp_all add: write_crash_episode_def Let_def split_beta)
  define eph where "eph = (cg_key cfg = None)"
  have k: "(case cg_key cfg of Some k \<Rightarrow> (k, False) | None \<Rightarrow> (ht_keygen ht, True)) = (crash_key ht cfg, eph)"
    by (simp add: crash_key_def eph_def split: option.split)
  note u = w [unfolded write_crash_episode_def o(1) option.case k Let_def prod.case d bind.simps, folded o(2)]
  obtain prev where prev: "ledger_head w dk (pa_ledger p) = Inr prev" using u by (cases "ledger_head w dk (pa_ledger p)") simp_all
  let ?b = "crash_body ht w cfg run budget client nt eph d prev"
  obtain sr where sr: "sign_receipt ?cy ?b (crash_key ht cfg) = Inr sr" using u prev by (cases "sign_receipt ?cy ?b (crash_key ht cfg)") simp_all
  have we: "write_episode ?cy w dk p sr [] [] = Some (dk', Inr entry)" using u prev sr by (auto split: sum.splits) (metis sum.exhaust)
  obtain es where e: "append_ledger (cy_sha ?cy) (case dk_ledger dk (pa_ledger p) of None \<Rightarrow> [] | Some es \<Rightarrow> es) sr = Some (es, entry)"
    "dk_ledger dk' (pa_ledger p) = Some es" "dk_receipt dk' (pa_receipt p) = Some sr" "dk_ticks dk' (pa_ticks p) = Some []"
    "dk_timing dk' (pa_timing p) = Some []"
    by (rule write_episode_Inr [OF we])
  have es: "es = (case dk_ledger dk (pa_ledger p) of None \<Rightarrow> [] | Some es \<Rightarrow> es) @ [entry]" using append_ledger_last [OF e(1)] by simp
  obtain r where r: "verify_receipt ?cy sr (Some (pubkey_hex ?cy (crash_key ht cfg))) = Some r" "intact r"
    using sign_receipt_verifies [OF key crash_consistent [OF canonical_digest_of [OF d env] pol] sr] by blast
  have b: "sr_body sr = ?b" by (rule signed_body [OF sr])
  have "\<not> vr_fuse_ok r" using verify_receipt_parts(7) [OF r(1)] b by (simp add: crash_body_def Let_def)
  moreover have "prev = (if (case dk_ledger dk (pa_ledger p) of None \<Rightarrow> [] | Some es \<Rightarrow> es) = [] then None
      else Some (le_hash (last (case dk_ledger dk (pa_ledger p) of None \<Rightarrow> [] | Some es \<Rightarrow> es))))"
    using prev by (auto simp: ledger_head_def split: option.splits if_splits)
  ultimately show thesis
    using that [OF e(3-5) r _ _ _ _ _ refl _ e(1) [unfolded es]] e(2) es b by (simp add: crash_body_def Let_def crash_notes_def)
qed

text \<open>It can be written whenever the envelope has a digest.\<close>

lemma crash_returns:
  assumes "canonical_digest (ht_crypto ht) (ht_envelope_json ht (cg_envelope cfg)) \<noteq> None"
  shows "\<exists>x. write_crash_episode ht w dk cfg run budget client nt = Some x"
  using assms signed_write by (auto simp: write_crash_episode_def Let_def split: option.splits sum.splits)

end
