(* ===== verification/History.thy ===== *)
theory History
  imports Codec
begin

text \<open>
  \<open>lictor-receipt/src/history.rs\<close>: the run memory \<open>history.jsonl\<close>, one line per episode, capped at 200
  lines, and the loop signals read from its end.  The file is its bytes, or absent; \<open>serde_json\<close> is a
  parameter that reads a document and writes a record.
\<close>

subsection \<open>Records\<close>

definition HISTORY_CAP :: nat where "HISTORY_CAP = 200"

record EpisodeRecord =
  hi_ts :: string
  hi_run_id :: string
  hi_arm_id :: string
  hi_seed :: u64
  hi_success :: bool
  hi_first_trip_reason :: "string option"
  hi_trips :: "string list"
  hi_stopped :: bool
  hi_escalated :: bool

record LoopSignals =
  lo_tail_streak :: "(string \<times> u32) option"
  lo_identical_run :: u32
  lo_last_n :: u32

definition HISTORY_FIELDS :: "string list" where
  "HISTORY_FIELDS = [''ts'', ''run_id'', ''arm_id'', ''seed'', ''success'', ''first_trip_reason'', ''trips'', ''stopped'', ''escalated'']"

definition EpisodeRecord_read :: "Value \<Rightarrow> EpisodeRecord option" where
  "EpisodeRecord_read v =
     Option.bind (struct_fields HISTORY_FIELDS v) (\<lambda>m.
     Option.bind (field m ''ts'' read_str) (\<lambda>ts. Option.bind (field m ''run_id'' read_str) (\<lambda>run_id.
     Option.bind (field m ''arm_id'' read_str) (\<lambda>arm_id. Option.bind (field m ''seed'' read_num) (\<lambda>seed.
     Option.bind (field m ''success'' read_bool) (\<lambda>success.
     Option.bind (opt_field m ''first_trip_reason'' read_str) (\<lambda>first_trip_reason.
     Option.bind (field m ''trips'' (read_list read_str)) (\<lambda>trips.
     Option.bind (field m ''stopped'' read_bool) (\<lambda>stopped. Option.bind (field m ''escalated'' read_bool) (\<lambda>escalated.
     Some \<lparr> hi_ts = ts, hi_run_id = run_id, hi_arm_id = arm_id, hi_seed = seed, hi_success = success,
       hi_first_trip_reason = first_trip_reason, hi_trips = trips, hi_stopped = stopped, hi_escalated = escalated \<rparr>))))))))))"

subsection \<open>Reading\<close>

definition HISTORY_NOT_UTF8 :: string where "HISTORY_NOT_UTF8 = ''stream did not contain valid UTF-8''"

text \<open>A corrupt line is skipped; one that is not UTF-8 is an error of the reader.\<close>

fun record_lines :: "Json \<Rightarrow> EpisodeRecord list \<Rightarrow> string list \<Rightarrow> string + EpisodeRecord list" where
  "record_lines js out [] = Inr out"
| "record_lines js out (line # lines) =
     (if \<not> utf8_valid line then Inl HISTORY_NOT_UTF8
      else let t = trim line in
        if t = [] then record_lines js out lines
        else (case from_doc js EpisodeRecord_read t of
            Inr r \<Rightarrow> record_lines js (out @ [r]) lines
          | Inl _ \<Rightarrow> record_lines js out lines))"

definition read_records :: "Json \<Rightarrow> string option \<Rightarrow> string + EpisodeRecord list" where
  "read_records js fl = (case fl of None \<Rightarrow> Inr [] | Some t \<Rightarrow> record_lines js [] (lines_of t))"

subsection \<open>Writing\<close>

definition ends_with_newline :: "string \<Rightarrow> bool" where
  "ends_with_newline t \<longleftrightarrow> t = [] \<or> last t = LF"

text \<open>\<open>write\<close> is the text of a record.\<close>

definition record_episode :: "Json \<Rightarrow> (EpisodeRecord \<Rightarrow> string) \<Rightarrow> string option \<Rightarrow> EpisodeRecord \<Rightarrow> string + string" where
  "record_episode js write fl r = (case read_records js fl of Inl e \<Rightarrow> Inl e
     | Inr existing \<Rightarrow>
         if HISTORY_CAP < length existing + 1 then
           Inr (concat (map (\<lambda>x. write x @ [LF]) (drop (length existing + 1 - HISTORY_CAP) existing)) @ write r @ [LF])
         else let t = (case fl of None \<Rightarrow> [] | Some t \<Rightarrow> t) in
           Inr (t @ (if ends_with_newline t then [] else [LF]) @ write r @ [LF]))"

subsection \<open>Signals\<close>

definition summarize :: "Json \<Rightarrow> string option \<Rightarrow> nat \<Rightarrow> string + LoopSignals" where
  "summarize js fl n = (case read_records js fl of Inl e \<Rightarrow> Inl e
     | Inr all \<Rightarrow>
         let tail = drop (length all - n) all; last_n = of_nat (length tail) in
         if tail = [] then Inr \<lparr> lo_tail_streak = None, lo_identical_run = 0, lo_last_n = last_n \<rparr>
         else let final = last tail;
           count = (\<lambda>reason. of_nat (length (filter (\<lambda>r. hi_first_trip_reason r = Some reason) tail)) :: u32) in
           Inr \<lparr> lo_tail_streak = Option.bind (hi_first_trip_reason final) (\<lambda>reason. if 2 \<le> count reason then Some (reason, count reason) else None),
             lo_identical_run = of_nat (length (takeWhile (\<lambda>r. hi_arm_id r = hi_arm_id final \<and> hi_trips r = hi_trips final) (rev tail))),
             lo_last_n = last_n \<rparr>)"

subsection \<open>What is read back\<close>

text \<open>The serialiser writes a record on one line of its own that the parser gives back.\<close>

definition written_back :: "Json \<Rightarrow> (EpisodeRecord \<Rightarrow> string) \<Rightarrow> EpisodeRecord \<Rightarrow> bool" where
  "written_back js write r \<longleftrightarrow> line_ok (write r) \<and> utf8_valid (write r) \<and> trim (write r) = write r \<and> write r \<noteq> [] \<and>
     from_doc js EpisodeRecord_read (write r) = Inr r"

lemma record_lines_append:
  "record_lines js out (ls @ ms) = (case record_lines js out ls of Inl e \<Rightarrow> Inl e | Inr out \<Rightarrow> record_lines js out ms)"
  by (induction js out ls rule: record_lines.induct) (auto simp: Let_def split: sum.split)

lemma record_lines_written:
  "list_all (written_back js write) rs \<Longrightarrow> record_lines js out (map write rs) = Inr (out @ rs)"
  by (induction rs arbitrary: out) (simp_all add: written_back_def Let_def)

text \<open>The file: whole lines, and perhaps the beginning of a line whose write was torn.\<close>

definition lines_and_torn :: "string \<Rightarrow> bool" where
  "lines_and_torn t \<longleftrightarrow> (\<exists>ls torn. list_all line_ok ls \<and> line_ok torn \<and> t = unlines ls @ torn)"

lemma unlines_end: "ends_with_newline (unlines ls)"
  by (cases ls rule: rev_cases) (simp_all add: ends_with_newline_def unlines_def)

lemma lines_add:
  assumes "lines_and_torn t" "line_ok l"
  shows "lines_of (t @ (if ends_with_newline t then [] else [LF]) @ l @ [LF]) = lines_of t @ [l] \<and>
    lines_and_torn (t @ (if ends_with_newline t then [] else [LF]) @ l @ [LF])"
proof -
  obtain ls torn where t: "list_all line_ok ls" "line_ok torn" "t = unlines ls @ torn" using assms(1) by (auto simp: lines_and_torn_def)
  define full where "full = (if torn = [] then ls else ls @ [torn])"
  have e: "ends_with_newline t \<longleftrightarrow> torn = []"
    using t(2,3) unlines_end [of ls] by (cases torn rule: rev_cases) (auto simp: ends_with_newline_def line_ok_def)
  have f: "list_all line_ok (full @ [l])" using t assms(2) by (simp add: full_def)
  have n: "t @ (if ends_with_newline t then [] else [LF]) @ l @ [LF] = unlines (full @ [l])"
    using e t(3) by (auto simp: full_def unlines_def)
  have d: "dropWhile (\<lambda>c. c \<noteq> LF) torn = []" using t(2) by (auto simp: line_ok_def dropWhile_eq_Nil_conv)
  have "lines_of torn = (if torn = [] then [] else [torn])" by (simp add: lines_of.simps [of torn] d del: dropWhile_eq_Nil_conv)
  then have "lines_of t = full" using lines_of_append [OF t(1)] t(3) by (simp add: full_def)
  moreover have "lines_and_torn (unlines (full @ [l]))"
    unfolding lines_and_torn_def using f by (intro exI [of _ "full @ [l]"] exI [of _ "[]"]) (simp add: line_ok_def)
  ultimately show ?thesis unfolding n using lines_of_unlines [OF f] by simp
qed

theorem history_recorded:
  assumes "read_records js fl = Inr rs" "\<And>t. fl = Some t \<Longrightarrow> lines_and_torn t" "list_all (written_back js write) (rs @ [r])"
  obtains t where "record_episode js write fl r = Inr t" "lines_and_torn t"
    "read_records js (Some t) = Inr (drop (length (rs @ [r]) - HISTORY_CAP) (rs @ [r]))"
proof (cases "HISTORY_CAP < length rs + 1")
  case True
  let ?k = "length rs + 1 - HISTORY_CAP"
  have k: "drop ?k rs @ [r] = drop ?k (rs @ [r])" using True by (simp add: HISTORY_CAP_def)
  let ?t = "unlines (map write (drop ?k (rs @ [r])))"
  have w: "list_all (written_back js write) (drop ?k (rs @ [r]))"
    using assms(3) by (auto simp: list_all_iff dest: in_set_dropD)
  then have l: "list_all line_ok (map write (drop ?k (rs @ [r])))" by (auto simp: list_all_iff written_back_def simp del: drop_append)
  have "record_episode js write fl r = Inr ?t"
    unfolding k [symmetric] using True by (simp add: record_episode_def assms(1) unlines_def comp_def)
  moreover have "read_records js (Some ?t) = Inr (drop ?k (rs @ [r]))"
    using record_lines_written [OF w, of "[]"] lines_of_unlines [OF l] by (simp add: read_records_def)
  moreover have "lines_and_torn ?t"
    unfolding lines_and_torn_def using l by (intro exI [of _ "map write (drop ?k (rs @ [r]))"] exI [of _ "[]"]) (simp add: line_ok_def)
  ultimately show thesis using that by simp
next
  case False
  let ?f = "case fl of None \<Rightarrow> [] | Some t \<Rightarrow> t"
  have b: "written_back js write r" using assms(3) by simp
  have "lines_and_torn ?f"
  proof (cases fl)
    case None
    have "lines_and_torn []"
      unfolding lines_and_torn_def by (intro exI [of _ "[]"]) (simp add: line_ok_def unlines_def)
    then show ?thesis using None by simp
  qed (use assms(2) in simp)
  note a = lines_add [OF this, of "write r"]
  let ?t = "?f @ (if ends_with_newline ?f then [] else [LF]) @ write r @ [LF]"
  have old: "record_lines js [] (lines_of ?f) = Inr rs" using assms(1) by (auto simp: read_records_def split: option.splits)
  have "record_episode js write fl r = Inr ?t" using False by (simp add: record_episode_def assms(1) Let_def)
  moreover have "read_records js (Some ?t) = Inr (rs @ [r])"
    using a b old record_lines_written [of js "write" "[r]" rs] by (simp add: read_records_def record_lines_append written_back_def)
  moreover have "length (rs @ [r]) - HISTORY_CAP = 0" using False by simp
  ultimately show thesis using that a b by (simp add: written_back_def)
qed

text \<open>Runs of \<open>record_episode\<close>: the file holds the newest records.\<close>

fun record_all :: "Json \<Rightarrow> (EpisodeRecord \<Rightarrow> string) \<Rightarrow> string option \<Rightarrow> EpisodeRecord list \<Rightarrow> string + string option" where
  "record_all js write fl [] = Inr fl"
| "record_all js write fl (r # rs) = (case record_episode js write fl r of Inl e \<Rightarrow> Inl e | Inr t \<Rightarrow> record_all js write (Some t) rs)"

lemma drop_newest: "drop (length (drop (length xs - c) xs @ ys) - c) (drop (length xs - c) xs @ ys) = drop (length (xs @ ys) - c) (xs @ ys)"
proof (cases "length xs \<le> c")
  case False
  then have "drop (length (xs @ ys) - c) (xs @ ys) = drop (length ys) (drop (length xs - c) (xs @ ys))" by (simp add: add.commute)
  also have "drop (length xs - c) (xs @ ys) = drop (length xs - c) xs @ ys" using False by simp
  finally show ?thesis using False by simp
qed simp

theorem history_runs:
  assumes "list_all (written_back js write) rs"
  shows "\<exists>fl. record_all js write None rs = Inr fl \<and> read_records js fl = Inr (drop (length rs - HISTORY_CAP) rs)"
proof -
  have "\<exists>g. record_all js write f rs = Inr g \<and> read_records js g = Inr (drop (length (prior @ rs) - HISTORY_CAP) (prior @ rs))"
    if "read_records js f = Inr (drop (length prior - HISTORY_CAP) prior)" "\<And>t. f = Some t \<Longrightarrow> lines_and_torn t"
      "list_all (written_back js write) (prior @ rs)" for f prior
    using that
  proof (induction rs arbitrary: f prior)
    case (Cons r rs)
    let ?n = "drop (length prior - HISTORY_CAP) prior"
    have "list_all (written_back js write) (?n @ [r])" using Cons.prems(3) by (auto simp: list_all_iff dest: in_set_dropD)
    then obtain t where t: "record_episode js write f r = Inr t" "lines_and_torn t"
      "read_records js (Some t) = Inr (drop (length (?n @ [r]) - HISTORY_CAP) (?n @ [r]))"
      using history_recorded [OF Cons.prems(1,2)] by blast
    have "\<exists>g. record_all js write (Some t) rs = Inr g \<and>
        read_records js g = Inr (drop (length ((prior @ [r]) @ rs) - HISTORY_CAP) ((prior @ [r]) @ rs))"
      by (rule Cons.IH) (use t(2,3) Cons.prems(3) in \<open>simp_all only: drop_newest option.inject\<close>, simp)
    then show ?case using t(1) by simp
  qed simp
  from this [of None "[]"] show ?thesis using assms by (simp add: read_records_def)
qed

text \<open>The last \<open>k\<close> records of one arm with the same trips are reported as an identical run.\<close>

lemma identical_run:
  assumes "read_records js fl = Inr (old @ same)" "same \<noteq> []" "\<And>r. r \<in> set same \<Longrightarrow> hi_arm_id r = arm \<and> hi_trips r = trips"
    "length same \<le> n" "n < 2 ^ 32"
  obtains g where "summarize js fl n = Inr g" "length same \<le> unat (lo_identical_run g)" "lo_identical_run g \<le> lo_last_n g" "unat (lo_last_n g) \<le> n"
proof -
  let ?all = "old @ same"
  define tl where "tl = drop (length ?all - n) ?all"
  have tl: "tl = drop (length ?all - n) old @ same" "length tl \<le> n" using assms(4) by (simp_all add: tl_def)
  have ne: "tl \<noteq> []" and la: "last tl = last same" using tl(1) assms(2) by simp_all
  have la': "hi_arm_id (last tl) = arm" "hi_trips (last tl) = trips" using assms(2,3) la by simp_all
  let ?P = "\<lambda>r. hi_arm_id r = hi_arm_id (last tl) \<and> hi_trips r = hi_trips (last tl)"
  define run where "run = takeWhile ?P (rev tl)"
  have "run = rev same @ takeWhile ?P (rev (drop (length ?all - n) old))"
    unfolding run_def tl(1) rev_append using assms(3) la' tl(1) by (subst takeWhile_append2) auto
  then have r: "length same \<le> length run" by simp
  have le: "length run \<le> length tl" unfolding run_def using length_takeWhile_le [of ?P "rev tl"] by simp
  have u: "unat (of_nat (length tl) :: u32) = length tl" "unat (of_nat (length run) :: u32) = length run"
    using le tl(2) assms(5) by (simp_all add: unat_of_nat take_bit_nat_eq_self)
  obtain g where g: "summarize js fl n = Inr g" "lo_identical_run g = of_nat (length run)" "lo_last_n g = of_nat (length tl)"
    using ne unfolding summarize_def assms(1) sum.case Let_def tl_def [symmetric] run_def by simp
  show thesis by (rule that [OF g(1)]) (use g(2,3) u r le tl(2) in \<open>simp_all add: word_le_nat_alt\<close>)
qed

text \<open>A line that is not UTF-8, as a write torn inside a character leaves it, is not skipped: nothing is recorded any more.\<close>

lemma record_lines_poisoned: "l \<in> set ls \<Longrightarrow> \<not> utf8_valid l \<Longrightarrow> \<exists>e. record_lines js out ls = Inl e"
proof (induction ls arbitrary: out)
  case (Cons x ls)
  have "\<exists>e. record_lines js out' ls = Inl e" if "l \<noteq> x" for out' using Cons.IH Cons.prems that by simp
  then show ?case using Cons.prems(2) by (cases "l = x") (simp_all add: Let_def split: sum.split)
qed simp

theorem history_poisoned:
  assumes "l \<in> set (lines_of t)" "\<not> utf8_valid l"
  shows "\<exists>e. record_episode js write (Some t) r = Inl e" "\<exists>e. summarize js (Some t) n = Inl e"
proof -
  obtain e where "read_records js (Some t) = Inl e" using record_lines_poisoned [OF assms, of js "[]"] by (auto simp: read_records_def)
  then show "\<exists>e. record_episode js write (Some t) r = Inl e" "\<exists>e. summarize js (Some t) n = Inl e"
    by (simp_all add: record_episode_def summarize_def)
qed

end
