(* ===== verification/Exact.thy ===== *)
theory Exact
  imports Tier0
begin

text \<open>
  When a float operation is exact: every integer below \<open>2^53\<close>, scaled by a power of two, is a float, so an
  operation whose result is one of them returns it.  At the other end, a result of at most \<open>2^-1075\<close>
  is rounded to zero.
\<close>

subsection \<open>The dyadic numbers that are floats\<close>

lemma representable:
  assumes "0 \<le> m" "m < 9007199254740992" "- 1074 \<le> e" "e \<le> 900"
  shows "\<exists>x. is_finite x \<and> fval x = of_int m * 2 powi e"
  using assms
proof (induction "nat (e + 1074)" arbitrary: m e)
  case 0
  then have e: "e = - 1074" by simp
  have "mag_val ((e + 1074) * 4503599627370496 + m) = of_int m * 2 powi e" using 0 e by (intro mag_val_at) simp_all
  then have "mag_val m = of_int m * 2 powi e" using e by simp
  moreover have "is_finite (mk_f64 False m)" "fval (mk_f64 False m) = mag_val m"
    using 0 by (simp_all add: is_finite_def fval_def f_mag_mk f_sign_mk inf_mag_def)
  ultimately show ?case by metis
next
  case (Suc k)
  show ?case
  proof (cases "4503599627370496 \<le> m")
    case True
    let ?n = "(e + 1074) * 4503599627370496 + m"
    have v: "mag_val ?n = of_int m * 2 powi e" using Suc.prems True by (intro mag_val_at) simp_all
    have n: "0 \<le> ?n" "?n < 9218868437227405312" using Suc.prems by simp_all
    then have "is_finite (mk_f64 False ?n)" "fval (mk_f64 False ?n) = mag_val ?n"
      by (simp_all add: is_finite_def fval_def f_mag_mk f_sign_mk inf_mag_def)
    then show ?thesis using v by metis
  next
    case False
    have "\<exists>x. is_finite x \<and> fval x = of_int (2 * m) * 2 powi (e - 1)"
      by (rule Suc.hyps(1)) (use Suc.hyps(2) Suc.prems False in auto)
    moreover have "of_int (2 * m) * 2 powi (e - 1) = (of_int m * 2 powi e :: real)" by (simp add: power_int_diff)
    ultimately show ?thesis by (simp only:)
  qed
qed

lemma fval_uminus: "is_finite x \<Longrightarrow> is_finite (- x) \<and> fval (- x) = - fval x"
proof -
  assume x: "is_finite x"
  have m: "0 \<le> f_mag x" "f_mag x < 9223372036854775808" by simp_all
  then show ?thesis using x by (simp add: uminus_f64_def is_finite_def fval_def f_mag_mk f_sign_mk)
qed

lemma representable_signed:
  assumes "\<bar>m\<bar> < 9007199254740992" "- 1074 \<le> e" "e \<le> 900"
  shows "\<exists>x. is_finite x \<and> fval x = of_int m * 2 powi e"
proof (cases "0 \<le> m")
  case True
  then show ?thesis using representable [of m e] assms by simp
next
  case False
  then obtain x where "is_finite x" "fval x = of_int (- m) * 2 powi e" using representable [of "- m" e] assms by auto
  then show ?thesis using fval_uminus [of x] by (intro exI [of _ "- x"]) simp
qed

text \<open>A result that is a float is returned.\<close>

lemma rounds_exact:
  assumes "rounds_to r z" "is_finite x" "fval x = r"
  shows "is_finite z" "fval z = r"
proof -
  have "z \<le> x" "x \<le> z" using rounds_to_le [OF assms(1,2)] rounds_to_ge [OF assms(1,2)] assms(3) by simp_all
  moreover from this show f: "is_finite z" using f_between_finite [OF assms(2,2)] by simp
  ultimately show "fval z = r" using f_le_fval assms(2,3) by (metis order_antisym)
qed

lemma rounds_dyadic:
  assumes "rounds_to (of_int m * 2 powi e) z" "\<bar>m\<bar> < 9007199254740992" "- 1074 \<le> e" "e \<le> 900"
  shows "is_finite z" "fval z = of_int m * 2 powi e"
  using representable_signed [OF assms(2-4)] rounds_exact [OF assms(1)] by auto

lemma rounds_int: "rounds_to (of_int m) z \<Longrightarrow> \<bar>m\<bar> < 9007199254740992 \<Longrightarrow> is_finite z \<and> fval z = of_int m"
  using rounds_dyadic [of m 0 z] by simp

lemma rounds_halves: "rounds_to (of_int m / 2) z \<Longrightarrow> \<bar>m\<bar> < 9007199254740992 \<Longrightarrow> is_finite z \<and> fval z = of_int m / 2"
  using rounds_dyadic [of m "- 1" z] by (simp add: power_int_minus)

lemma f_of_int_exact: "0 \<le> n \<Longrightarrow> n < 9007199254740992 \<Longrightarrow> is_finite (f_of_int n) \<and> fval (f_of_int n) = of_int n"
  using rounds_int [OF rounds_to_of_int] by simp

lemma rounds_0: "rounds_to 0 z \<Longrightarrow> is_finite z \<and> fval z = 0"
  using rounds_int [of 0 z] by simp

subsection \<open>Underflow\<close>

lemma rne_tiny: "rne (2 powi (- 1075)) 0"
proof -
  have "mag_val 1 = 2 powi (- 1074)" using mag_val_succ [of 0] by (simp add: mag_exp_def)
  moreover have "2 * 2 powi (- 1075) = (2 powi (- 1074) :: real)"
    using power_int_add [of "2::real" 1 "- 1075"] by simp
  ultimately show ?thesis by (simp add: rne_def)
qed

lemma rounds_tiny:
  assumes "rounds_to r z" "0 \<le> r" "r \<le> 2 powi (- 1075)"
  shows "is_finite z" "fval z = 0"
proof -
  obtain n where n: "rne r n" "f_mag z = min inf_mag n" using assms(1,2) by (auto simp: rounds_to_def)
  have "n = 0" using rne_mono [OF n(1) rne_tiny assms(3)] n(1) by (simp add: rne_def)
  then have "f_mag z = 0" using n(2) by (simp add: inf_mag_def)
  then show "is_finite z" "fval z = 0" by (simp_all add: is_finite_def inf_mag_def fval_def)
qed

text \<open>At most \<open>2^-k\<close>, and zero when that is below the smallest float.\<close>

definition pow2_le :: "f64 \<Rightarrow> nat \<Rightarrow> bool" where
  "pow2_le x k \<longleftrightarrow> is_finite x \<and> 0 \<le> fval x \<and> fval x \<le> 2 powi (- int k) \<and> (1075 \<le> k \<longrightarrow> fval x = 0)"

lemma pow2_le_times:
  assumes "pow2_le x i" "pow2_le y j" shows "pow2_le (x * y) (i + j)"
proof -
  have f: "is_finite x" "is_finite y" "0 \<le> fval x" "0 \<le> fval y" using assms by (simp_all add: pow2_le_def)
  have "fval x * fval y \<le> 2 powi (- int i) * 2 powi (- int j)"
    using assms by (intro mult_mono) (auto simp: pow2_le_def)
  also have "\<dots> = 2 powi (- int (i + j))" by (simp flip: power_int_add)
  finally have r: "fval x * fval y \<le> 2 powi (- int (i + j))" .
  have p: "0 \<le> fval x * fval y" using f by simp
  note z = rounds_to_times [OF f(1,2)]
  show ?thesis
  proof (cases "1075 \<le> i + j")
    case True
    have "(2 powi (- int (i + j)) :: real) \<le> 2 powi (- 1075)" using True by (intro power_int_increasing) simp_all
    then have "fval x * fval y \<le> 2 powi (- 1075)" using r by linarith
    then show ?thesis using rounds_tiny [OF z p] by (simp add: pow2_le_def)
  next
    case False
    then obtain w where w: "is_finite w" "fval w = 2 powi (- int (i + j))"
      using representable [of 1 "- int (i + j)"] by auto
    have "0 \<le> x * y" "x * y \<le> w" using rounds_to_ge [OF z fval_0(2)] rounds_to_le [OF z w(1)] p r w(2) fval_0(1) by simp_all
    moreover from this have fin: "is_finite (x * y)" using f_between_finite [OF fval_0(2) w(1)] by simp
    ultimately have "0 \<le> fval (x * y)" "fval (x * y) \<le> 2 powi (- int (i + j))"
      using f_le_fval [OF fval_0(2) fin] f_le_fval [OF fin w(1)] w(2) fval_0(1) by simp_all
    then show ?thesis using fin False by (simp add: pow2_le_def)
  qed
qed

end
