(* ===== verification/Metrics.thy ===== *)
theory Metrics
  imports Exact
begin

text \<open>
  \<open>lictor-calib/src/metrics.rs\<close>: the statistics of the offline lane, over the executable floats.  \<open>ln\<close>,
  \<open>exp\<close> and \<open>sin\<close> belong to the platform and are parameters.  A slice index out of range is \<open>None\<close>.
\<close>

subsection \<open>Floats\<close>

definition f_half :: f64 where "f_half = F64 0x3fe0000000000000"

text \<open>\<open>f64::total_cmp\<close> orders by this key: the sign, then the magnitude.\<close>

definition total_key :: "f64 \<Rightarrow> int" where
  "total_key x = (if f_sign x then - f_mag x - 1 else f_mag x)"

text \<open>\<open>f64::clamp\<close> and \<open>f64::min\<close>.\<close>

definition f64_clamp :: "f64 \<Rightarrow> f64 \<Rightarrow> f64 \<Rightarrow> f64" where
  "f64_clamp x lo hi = (let x = (if x < lo then lo else x) in if hi < x then hi else x)"

definition f64_min :: "f64 \<Rightarrow> f64 \<Rightarrow> f64" where
  "f64_min a b = (if is_nan a then b else if is_nan b then a else if b < a then b else a)"

text \<open>\<open>x.floor() as usize\<close> and \<open>x.ceil() as usize\<close>, which saturate.\<close>

definition USIZE_MAX :: nat where "USIZE_MAX = 2 ^ 64 - 1"

definition floor_usize :: "f64 \<Rightarrow> nat" where
  "floor_usize x = (case unpack x of
       VFin False m e \<Rightarrow> min USIZE_MAX (nat (if 0 \<le> e then m * 2 ^ nat e else m div 2 ^ nat (- e)))
     | VInf False \<Rightarrow> USIZE_MAX | _ \<Rightarrow> 0)"

definition ceil_usize :: "f64 \<Rightarrow> nat" where
  "ceil_usize x = (case unpack x of
       VFin False m e \<Rightarrow> min USIZE_MAX (nat (if 0 \<le> e then m * 2 ^ nat e else - ((- m) div 2 ^ nat (- e))))
     | VInf False \<Rightarrow> USIZE_MAX | _ \<Rightarrow> 0)"

definition f_of_usize :: "nat \<Rightarrow> f64" where "f_of_usize n = f_of_int (int n)"

definition f_of_signed :: "int \<Rightarrow> f64" where
  "f_of_signed i = (if i < 0 then - f_of_int (- i) else f_of_int i)"

text \<open>\<open>f64::powi\<close>: square and multiply.\<close>

fun powi_loop :: "nat \<Rightarrow> f64 \<Rightarrow> f64 \<Rightarrow> f64" where
  "powi_loop b a r = (let r = (if odd b then r * a else r) in if b div 2 = 0 then r else powi_loop (b div 2) (a * a) r)"

declare powi_loop.simps [simp del]

definition powi_f64 :: "f64 \<Rightarrow> int \<Rightarrow> f64" where
  "powi_f64 a n = (let r = powi_loop (nat \<bar>n\<bar>) a f_one in if n < 0 then f_one / r else r)"

text \<open>\<open>partition_point\<close> of a slice that is partitioned by \<open>p\<close>.\<close>

definition partition_point :: "('a \<Rightarrow> bool) \<Rightarrow> 'a list \<Rightarrow> nat" where
  "partition_point p xs = length (takeWhile p xs)"

definition slice_get :: "'a list \<Rightarrow> nat \<Rightarrow> 'a option" where
  "slice_get xs i = (if i < length xs then Some (xs ! i) else None)"

subsection \<open>McNemar\<close>

text \<open>The loop \<open>for i in 0..=m\<close>, here with \<open>k\<close> rounds left.\<close>

fun mcnemar_loop :: "u32 \<Rightarrow> nat \<Rightarrow> nat \<Rightarrow> f64 \<Rightarrow> f64 \<Rightarrow> f64" where
  "mcnemar_loop n i 0 pmf cdf = cdf"
| "mcnemar_loop n i (Suc k) pmf cdf =
     mcnemar_loop n (Suc i) k (pmf * (f_of_int (uint (n - of_nat i)) / f_of_int (uint (of_nat i + 1 :: u32)))) (cdf + pmf)"

text \<open>\<open>b + c\<close> wraps in the release profile.\<close>

definition mcnemar_exact :: "u32 \<Rightarrow> u32 \<Rightarrow> f64" where
  "mcnemar_exact b c = (let n = b + c in if n = 0 then f_one else
     let m = min b c; pmf = powi_f64 f_half (sint n) in
     f64_min (f_two * mcnemar_loop n 0 (unat m + 1) pmf 0) f_one)"

subsection \<open>The point of no return\<close>

fun running_best :: "f64 \<Rightarrow> f64 list \<Rightarrow> f64 list" where
  "running_best best [] = []"
| "running_best best (c # cs) = (let best = (if is_finite c \<and> best < c then c else best) in best # running_best best cs)"

definition ponr_tick :: "f64 list \<Rightarrow> f64 \<Rightarrow> u32" where
  "ponr_tick coverage eps_prog =
     (let running = running_best f_neg_inf coverage; best = (if running = [] then f_neg_inf else last running) in
      if running = [] \<or> \<not> is_finite best then 0
      else (case position (\<lambda>r. best - r < eps_prog) running of Some t \<Rightarrow> of_nat t | None \<Rightarrow> of_nat (length running - 1)))"

subsection \<open>Areas under curves\<close>

definition roc_auc :: "f64 list \<Rightarrow> f64 list \<Rightarrow> f64" where
  "roc_auc pos neg = (if pos = [] \<or> neg = [] then f_nan else
     let neg_sorted = sort_key total_key neg;
         acc = foldl (\<lambda>acc p.
            let below = partition_point (\<lambda>x. total_key x < total_key p) neg_sorted;
                not_above = partition_point (\<lambda>x. total_key x \<le> total_key p) neg_sorted in
            acc + (f_of_usize below + f_half * f_of_usize (not_above - below))) 0 pos in
     acc / (f_of_usize (length pos) * f_of_usize (length neg)))"

definition aucpdt :: "64 word list \<Rightarrow> u32 \<Rightarrow> f64" where
  "aucpdt leads horizon = (if leads = [] \<or> horizon = 0 then 0 else
     let sorted_leads = sort_key sint leads; n = f_of_usize (length leads);
         total = foldl (\<lambda>total l. let below = partition_point (\<lambda>x. sint x < int l) sorted_leads in
            total + f_of_usize (length leads - below) / n) 0 [0..<unat horizon] in
     total / f_of_usize (unat horizon))"

subsection \<open>The generator and the bootstrap\<close>

definition SplitMix64_next :: "u64 \<Rightarrow> u64 \<times> u64" where
  "SplitMix64_next state =
     (let state = state + 0x9E3779B97F4A7C15; z = state;
          z = (z XOR drop_bit 30 z) * 0xBF58476D1CE4E5B9;
          z = (z XOR drop_bit 27 z) * 0x94D049BB133111EB in
      (state, z XOR drop_bit 31 z))"

fun resample :: "int list \<Rightarrow> nat \<Rightarrow> u64 \<Rightarrow> int \<Rightarrow> (u64 \<times> int) option" where
  "resample d 0 rng acc = Some (rng, acc)"
| "resample d (Suc k) rng acc = (let (rng, z) = SplitMix64_next rng; idx = unat (z mod of_nat (length d)) in
     Option.bind (slice_get d idx) (\<lambda>x. resample d k rng (acc + x)))"

fun resamples :: "int list \<Rightarrow> nat \<Rightarrow> u64 \<Rightarrow> f64 list option" where
  "resamples d 0 rng = Some []"
| "resamples d (Suc k) rng = Option.bind (resample d (length d) rng 0) (\<lambda>(rng, acc).
     map_option (Cons (f_of_signed acc / f_of_usize (length d))) (resamples d k rng))"

definition percentile_linear :: "f64 list \<Rightarrow> f64 \<Rightarrow> f64 option" where
  "percentile_linear xs p = (if xs = [] then Some f_nan else
     let pos = f64_clamp p 0 f_one * f_of_usize (length xs - 1); lo = floor_usize pos; hi = ceil_usize pos in
     if lo = hi then slice_get xs lo
     else let w = pos - f_of_usize lo in
       Option.bind (slice_get xs lo) (\<lambda>a. Option.bind (slice_get xs hi) (\<lambda>b. Some (a + (b - a) * w))))"

definition nearest_rank :: "f64 list \<Rightarrow> f64 \<Rightarrow> f64 option" where
  "nearest_rank xs q = (if xs = [] then Some f_nan else
     let rank = ceil_usize (q * f_of_usize (length xs)) in slice_get xs (max 1 (min rank (length xs)) - 1))"

definition PCT_LO :: f64 where "PCT_LO = F64 0x3f9999999999999a"
definition PCT_HI :: f64 where "PCT_HI = F64 0x3fef333333333333"

definition paired_bootstrap_diff :: "bool list \<Rightarrow> bool list \<Rightarrow> u32 \<Rightarrow> u64 \<Rightarrow> (f64 \<times> f64 \<times> f64) option" where
  "paired_bootstrap_diff a b n_resamples seed =
     (let n = min (length a) (length b) in if n = 0 then Some (0, 0, 0) else
      let d = map (\<lambda>i. of_bool (a ! i) - of_bool (b ! i)) [0..<n];
          diff = foldl (\<lambda>s x. s + f_of_signed x) 0 d / f_of_usize n in
      if n_resamples = 0 then Some (diff, diff, diff)
      else Option.bind (resamples d (unat n_resamples) seed) (\<lambda>samples.
        let samples = sort_key total_key samples in
        Option.bind (percentile_linear samples PCT_LO) (\<lambda>lo. Option.bind (percentile_linear samples PCT_HI) (\<lambda>hi. Some (diff, lo, hi)))))"

subsection \<open>The incomplete beta function\<close>

record Libm =
  lm_ln :: "f64 \<Rightarrow> f64"
  lm_exp :: "f64 \<Rightarrow> f64"
  lm_sin :: "f64 \<Rightarrow> f64"

definition F_PI :: f64 where "F_PI = F64 0x400921fb54442d18"
definition LANCZOS_G :: f64 where "LANCZOS_G = F64 0x401c000000000000"

definition LANCZOS_COEF :: "f64 list" where
  "LANCZOS_COEF = map F64 [0x3feffffffffff950, 0x40852429b6c30b05, 0xc093ac8e8ed4171b, 0x40881a9661d3b4d8, 0xc06613ae51a32f5d,
     0x402903c27f8b9c81, 0xbfc1bcb2992b2855, 0x3ee4f0514e4e324f, 0x3e8435508f3faeef]"

text \<open>The body after the reflection, which is taken at most once: \<open>1 - x\<close> is not below one half when \<open>x\<close> is.\<close>

definition ln_gamma_right :: "Libm \<Rightarrow> f64 \<Rightarrow> f64" where
  "ln_gamma_right lm x0 =
     (let x = x0 - f_one; t = x + LANCZOS_G + f_half;
          a = foldl (\<lambda>a (i, c). a + c / (x + f_of_usize i)) (LANCZOS_COEF ! 0) (drop 1 (enumerate 0 LANCZOS_COEF)) in
      f_half * lm_ln lm (f_two * F_PI) + (x + f_half) * lm_ln lm t - t + lm_ln lm a)"

definition ln_gamma :: "Libm \<Rightarrow> f64 \<Rightarrow> f64" where
  "ln_gamma lm x = (if x < f_half then lm_ln lm (F_PI / lm_sin lm (F_PI * x)) - ln_gamma_right lm (f_one - x) else ln_gamma_right lm x)"

definition BETACF_MAX_IT :: nat where "BETACF_MAX_IT = 300"
definition BETACF_EPS :: f64 where "BETACF_EPS = F64 0x3cb59e05f1e2674d"
definition BETACF_FPMIN :: f64 where "BETACF_FPMIN = F64 0x01a56e1fc2f8f359"

definition at_least_fpmin :: "f64 \<Rightarrow> f64" where
  "at_least_fpmin d = (if fmath_abs d < BETACF_FPMIN then BETACF_FPMIN else d)"

text \<open>One round of the loop: the new \<open>c\<close>, \<open>d\<close> and \<open>h\<close>, and \<open>del\<close>.\<close>

definition betacf_round :: "f64 \<Rightarrow> f64 \<Rightarrow> f64 \<Rightarrow> nat \<Rightarrow> f64 \<Rightarrow> f64 \<Rightarrow> f64 \<Rightarrow> f64 \<times> f64 \<times> f64 \<times> f64" where
  "betacf_round a b x i c d h =
     (let qab = a + b; qap = a + f_one; qam = a - f_one; m = f_of_usize i; m2 = f_two * m;
          aa = m * (b - m) * x / ((qam + m2) * (a + m2));
          d = at_least_fpmin (f_one + aa * d); c = at_least_fpmin (f_one + aa / c); d = f_one / d; h = h * (d * c);
          aa = - (a + m) * (qab + m) * x / ((a + m2) * (qap + m2));
          d = at_least_fpmin (f_one + aa * d); c = at_least_fpmin (f_one + aa / c); d = f_one / d; del = d * c; h = h * del in
      (c, d, h, del))"

text \<open>The loop \<open>for m in 1..=MAX_IT\<close>, here with \<open>k\<close> rounds left.\<close>

fun betacf_loop :: "f64 \<Rightarrow> f64 \<Rightarrow> f64 \<Rightarrow> nat \<Rightarrow> nat \<Rightarrow> f64 \<Rightarrow> f64 \<Rightarrow> f64 \<Rightarrow> f64" where
  "betacf_loop a b x i 0 c d h = h"
| "betacf_loop a b x i (Suc k) c d h = (let (c, d, h, del) = betacf_round a b x i c d h in
     if fmath_abs (del - f_one) < BETACF_EPS then h else betacf_loop a b x (Suc i) k c d h)"

definition betacf :: "f64 \<Rightarrow> f64 \<Rightarrow> f64 \<Rightarrow> f64" where
  "betacf a b x =
     (let qab = a + b; qap = a + f_one; d = f_one / at_least_fpmin (f_one - qab * x / qap) in
      betacf_loop a b x 1 BETACF_MAX_IT f_one d d)"

definition reg_inc_beta :: "Libm \<Rightarrow> f64 \<Rightarrow> f64 \<Rightarrow> f64 \<Rightarrow> f64" where
  "reg_inc_beta lm a b x = (if x \<le> 0 then 0 else if f_one \<le> x then f_one else
     let bt = lm_exp lm (ln_gamma lm (a + b) - ln_gamma lm a - ln_gamma lm b + a * lm_ln lm x + b * lm_ln lm (f_one - x)) in
     if x < (a + f_one) / (a + b + f_two) then bt * betacf a b x / a else f_one - bt * betacf b a (f_one - x) / b)"

definition BISECT_STOP :: f64 where "BISECT_STOP = F64 0x3cd203af9ee75616"

fun bisect :: "(f64 \<Rightarrow> bool) \<Rightarrow> nat \<Rightarrow> f64 \<Rightarrow> f64 \<Rightarrow> f64 \<times> f64" where
  "bisect below 0 lo hi = (lo, hi)"
| "bisect below (Suc k) lo hi =
     (let mid = f_half * (lo + hi); (lo, hi) = (if below mid then (mid, hi) else (lo, mid)) in
      if hi - lo < BISECT_STOP then (lo, hi) else bisect below k lo hi)"

definition beta_quantile :: "Libm \<Rightarrow> f64 \<Rightarrow> f64 \<Rightarrow> f64 \<Rightarrow> f64" where
  "beta_quantile lm p a b = (if p \<le> 0 then 0 else if f_one \<le> p then f_one else
     let (lo, hi) = bisect (\<lambda>mid. reg_inc_beta lm a b mid < p) 200 0 f_one in f_half * (lo + hi))"

definition clopper_pearson :: "Libm \<Rightarrow> u32 \<Rightarrow> u32 \<Rightarrow> f64 \<Rightarrow> f64 \<times> f64" where
  "clopper_pearson lm k n conf = (if n = 0 then (0, f_one) else
     let k = min k n; alpha = f64_clamp (f_one - conf) 0 f_one; half = alpha / f_two;
         lo = (if k = 0 then 0 else beta_quantile lm half (f_of_int (uint k)) (f_of_int (uint (n - k + 1))));
         hi = (if k = n then f_one else beta_quantile lm (f_one - half) (f_of_int (uint (k + 1))) (f_of_int (uint (n - k)))) in
     (lo, hi))"

end
