(* ===== verification/MetricsFloat.thy ===== *)
theory MetricsFloat
  imports MetricsSpec
begin

text \<open>The statistics in float arithmetic: which results are exact, and which stay in their range.\<close>

subsection \<open>Constants\<close>

lemma fval_F64_of_int: "0 \<le> n \<Longrightarrow> n < 9007199254740992 \<Longrightarrow> f_of_int n = c \<Longrightarrow> is_finite c \<and> fval c = of_int n"
  using f_of_int_exact by metis

lemma one_is_one: "is_finite f_one" "fval f_one = 1"
proof -
  have "f_of_int 1 = f_one" by code_simp
  from fval_F64_of_int [OF _ _ this] show "is_finite f_one" "fval f_one = 1" by simp_all
qed

lemma two_is_two: "is_finite f_two" "fval f_two = 2"
proof -
  have "f_of_int 2 = f_two" by code_simp
  from fval_F64_of_int [OF _ _ this] show "is_finite f_two" "fval f_two = 2" by simp_all
qed

lemma half_is_half: "is_finite f_half" "fval f_half = 1 / 2"
proof -
  have "f_one / f_two = f_half" by code_simp
  moreover have "rounds_to (fval f_one / fval f_two) (f_one / f_two)" by (rule rounds_to_div) (simp_all add: one_is_one two_is_two)
  ultimately have "rounds_to (of_int 1 / 2) f_half" by (simp add: one_is_one two_is_two)
  from rounds_halves [OF this] show "is_finite f_half" "fval f_half = 1 / 2" by simp_all
qed

lemma of_usize_exact: "n < 9007199254740992 \<Longrightarrow> is_finite (f_of_usize n) \<and> fval (f_of_usize n) = of_nat n"
  using f_of_int_exact [of "int n"] by (simp add: f_of_usize_def)

lemma of_signed_exact: "\<bar>i\<bar> < 9007199254740992 \<Longrightarrow> is_finite (f_of_signed i) \<and> fval (f_of_signed i) = of_int i"
  using f_of_int_exact [of i] f_of_int_exact [of "- i"] fval_uminus [of "f_of_int (- i)"] by (auto simp: f_of_signed_def)

text \<open>Results between two floats.\<close>

lemma rounds_between:
  assumes "rounds_to r z" "is_finite a" "is_finite b" "fval a \<le> r" "r \<le> fval b"
  shows "is_finite z" "fval a \<le> fval z" "fval z \<le> fval b"
proof -
  show f: "is_finite z" by (rule rounds_to_finite [OF assms])
  show "fval a \<le> fval z" using rounds_to_ge [OF assms(1,2,4)] f_le_fval [OF assms(2) f] by simp
  show "fval z \<le> fval b" using rounds_to_le [OF assms(1,3,5)] f_le_fval [OF f assms(3)] by simp
qed

lemma rounds_unit: "rounds_to r z \<Longrightarrow> 0 \<le> r \<Longrightarrow> r \<le> 1 \<Longrightarrow> is_finite z \<and> 0 \<le> fval z \<and> fval z \<le> 1"
  using rounds_between [of r z 0 f_one] one_is_one by simp

definition in_unit :: "f64 \<Rightarrow> bool" where "in_unit x \<longleftrightarrow> is_finite x \<and> 0 \<le> fval x \<and> fval x \<le> 1"

lemma in_unit_consts [simp]: "in_unit 0" "in_unit f_one" by (simp_all add: in_unit_def one_is_one)

subsection \<open>Counting\<close>

lemma takeWhile_sorted: "sorted xs \<Longrightarrow> takeWhile (\<lambda>x. x < k) xs = filter (\<lambda>x. x < k) xs" for k :: int
  by (induction xs) (auto intro!: filter_False [symmetric])

lemma takeWhile_sorted_key:
  assumes "sorted (map f xs)" shows "takeWhile (\<lambda>x. f x < k) xs = filter (\<lambda>x. f x < (k :: int)) xs"
  using assms by (induction xs) (auto intro!: filter_False [symmetric])

lemma partition_count: "partition_point (\<lambda>x. f x < (k :: int)) (sort_key f xs) = length (filter (\<lambda>x. f x < k) xs)"
proof -
  have "mset (filter (\<lambda>x. f x < k) (sort_key f xs)) = mset (filter (\<lambda>x. f x < k) xs)" by simp
  then have "length (filter (\<lambda>x. f x < k) (sort_key f xs)) = length (filter (\<lambda>x. f x < k) xs)" by (metis size_mset)
  then show ?thesis by (simp add: partition_point_def takeWhile_sorted_key)
qed

lemma partition_count_le: "partition_point (\<lambda>x. f x \<le> (k :: int)) (sort_key f xs) = length (filter (\<lambda>x. f x \<le> k) xs)"
  using partition_count [of f "k + 1" xs] by (simp add: zless_add1_eq le_less)

subsection \<open>The ROC area\<close>

definition below_count :: "f64 list \<Rightarrow> f64 \<Rightarrow> nat" where
  "below_count neg p = length (filter (\<lambda>x. total_key x < total_key p) neg)"

definition tie_count :: "f64 list \<Rightarrow> f64 \<Rightarrow> nat" where
  "tie_count neg p = length (filter (\<lambda>x. total_key x = total_key p) neg)"

lemma below_tie: "length (filter (\<lambda>x. total_key x \<le> total_key p) neg) = below_count neg p + tie_count neg p"
  unfolding below_count_def tie_count_def by (induction neg) auto

lemma below_tie_le: "below_count neg p + tie_count neg p \<le> length neg"
  using below_tie [of p neg] length_filter_le [of "\<lambda>x. total_key x \<le> total_key p" neg] by simp

text \<open>Twice the number of pairs won, a tie counting one.\<close>

definition wins2 :: "f64 list \<Rightarrow> f64 list \<Rightarrow> nat" where
  "wins2 pos neg = sum_list (map (\<lambda>p. 2 * below_count neg p + tie_count neg p) pos)"

lemma wins2_le: "wins2 pos neg \<le> 2 * length pos * length neg"
proof (induction pos)
  case (Cons p pos)
  have "2 * below_count neg p + tie_count neg p \<le> 2 * length neg" using below_tie_le [of neg p] by simp
  then show ?case using Cons by (simp add: wins2_def)
qed (simp add: wins2_def)

lemma roc_term:
  assumes "2 * length neg < 9007199254740992"
  shows "is_finite (f_of_usize (below_count neg p) + f_half * f_of_usize (tie_count neg p)) \<and>
    fval (f_of_usize (below_count neg p) + f_half * f_of_usize (tie_count neg p)) = of_int (int (2 * below_count neg p + tie_count neg p)) / 2"
proof -
  have n: "below_count neg p < 9007199254740992" "tie_count neg p < 9007199254740992" "2 * below_count neg p + tie_count neg p < 9007199254740992"
    using below_tie_le [of neg p] assms by linarith+
  note b = of_usize_exact [OF n(1)] and t = of_usize_exact [OF n(2)]
  have "rounds_to (fval f_half * fval (f_of_usize (tie_count neg p))) (f_half * f_of_usize (tie_count neg p))"
    by (rule rounds_to_times) (simp_all add: half_is_half t)
  then have "rounds_to (of_int (int (tie_count neg p)) / 2) (f_half * f_of_usize (tie_count neg p))" by (simp add: half_is_half t)
  note h = rounds_halves [OF this]
  have hh: "is_finite (f_half * f_of_usize (tie_count neg p))" "fval (f_half * f_of_usize (tie_count neg p)) = of_int (int (tie_count neg p)) / 2"
    using h n(2) by simp_all
  have "rounds_to (of_int (int (2 * below_count neg p + tie_count neg p)) / 2) (f_of_usize (below_count neg p) + f_half * f_of_usize (tie_count neg p))"
    using rounds_to_plus [of "f_of_usize (below_count neg p)" "f_half * f_of_usize (tie_count neg p)"] b hh by (simp add: field_simps)
  from rounds_halves [OF this] show ?thesis using n(3) by linarith
qed

lemma roc_sum:
  assumes "2 * length neg < 9007199254740992" "is_finite acc" "fval acc = of_int (int a) / 2" "a + wins2 pos neg < 9007199254740992"
  shows "is_finite (foldl (\<lambda>acc p. acc + (f_of_usize (below_count neg p) + f_half * f_of_usize (tie_count neg p))) acc pos) \<and>
    fval (foldl (\<lambda>acc p. acc + (f_of_usize (below_count neg p) + f_half * f_of_usize (tie_count neg p))) acc pos)
      = of_int (int (a + wins2 pos neg)) / 2"
  using assms(2-4)
proof (induction pos arbitrary: acc a)
  case (Cons p pos)
  let ?t = "f_of_usize (below_count neg p) + f_half * f_of_usize (tie_count neg p)" and ?w = "2 * below_count neg p + tie_count neg p"
  note t = roc_term [OF assms(1), of p]
  have "rounds_to (of_int (int (a + ?w)) / 2) (acc + ?t)"
    using rounds_to_plus [of acc ?t] t Cons.prems by (simp add: field_simps)
  moreover have "a + ?w + wins2 pos neg < 9007199254740992" using Cons.prems(3) by (simp add: wins2_def)
  moreover from this have "\<bar>int (a + ?w)\<bar> < 9007199254740992" by linarith
  ultimately have "is_finite (acc + ?t) \<and> fval (acc + ?t) = of_int (int (a + ?w)) / 2" by (intro rounds_halves)
  then show ?case
    using Cons.IH [of "acc + ?t" "a + ?w"] \<open>a + ?w + wins2 pos neg < _\<close> by (simp add: wins2_def add.assoc)
qed (simp add: wins2_def)

theorem roc_auc_rounded:
  assumes "pos \<noteq> []" "neg \<noteq> []" "2 * length pos * length neg < 9007199254740992"
  shows "rounds_to (real (wins2 pos neg) / real (2 * length pos * length neg)) (roc_auc pos neg)"
proof -
  have lp: "1 \<le> length pos" "1 \<le> length neg" using assms(1,2) by (simp_all add: Suc_le_eq)
  have n: "2 * length neg < 9007199254740992" "length pos < 9007199254740992" "length neg < 9007199254740992"
    "length pos * length neg < 9007199254740992"
  proof -
    have p: "length pos \<le> length pos * length neg" "length neg \<le> length pos * length neg" using lp by simp_all
    have m: "2 * (length pos * length neg) < 9007199254740992" using assms(3) by (simp only: mult.assoc)
    show "2 * length neg < 9007199254740992" "length pos < 9007199254740992" "length neg < 9007199254740992"
      "length pos * length neg < 9007199254740992" using p m by linarith+
  qed
  let ?acc = "foldl (\<lambda>acc p. acc + (f_of_usize (below_count neg p) + f_half * f_of_usize (tie_count neg p))) 0 pos"
  have r: "roc_auc pos neg = ?acc / (f_of_usize (length pos) * f_of_usize (length neg))"
    using assms(1,2) by (simp add: roc_auc_def Let_def partition_count partition_count_le below_count_def [symmetric] below_tie)
  have a: "is_finite ?acc" "fval ?acc = of_int (int (wins2 pos neg)) / 2"
    using roc_sum [OF n(1), of 0 0 pos] wins2_le [of pos neg] assms(3) by simp_all
  have "rounds_to (of_int (int (length pos * length neg))) (f_of_usize (length pos) * f_of_usize (length neg))"
    using rounds_to_times [of "f_of_usize (length pos)" "f_of_usize (length neg)"] of_usize_exact [OF n(2)] of_usize_exact [OF n(3)] by simp
  moreover have "\<bar>int (length pos * length neg)\<bar> < 9007199254740992" using n(4) by linarith
  ultimately have d: "is_finite (f_of_usize (length pos) * f_of_usize (length neg))"
    "fval (f_of_usize (length pos) * f_of_usize (length neg)) = of_int (int (length pos * length neg))" using rounds_int by blast+
  have "fval (f_of_usize (length pos) * f_of_usize (length neg)) \<noteq> 0" unfolding d(2) using assms(1,2) by simp
  from rounds_to_div [OF a(1) d(1) this] show ?thesis unfolding r a(2) d(2) by (simp add: field_simps)
qed

text \<open>A positive zero beats a negative one: equal scores of both signs are not a tie.\<close>

lemma roc_zeros: "f_eq 0 (- 0)" "fval (roc_auc [0] [- 0]) = 1"
proof -
  have k: "total_key (- 0) = - 1" "total_key 0 = 0"
    by (simp add: total_key_def uminus_f64_def f_sign_mk f_mag_mk) (simp_all add: total_key_def zero_f64_def f_sign_def f_mag_def)
  then have "wins2 [0] [- 0] = 2" by (simp add: wins2_def below_count_def tie_count_def)
  then have "rounds_to (of_int 1) (roc_auc [0] [- 0])" using roc_auc_rounded [of "[0]" "[- 0]"] by simp
  then show "fval (roc_auc [0] [- 0]) = 1" using rounds_int [of 1] by simp
  show "f_eq 0 (- 0)" using fval_uminus [OF fval_0(2)] by (simp add: f_eq_def order_eq_iff f_key_fval)
qed

subsection \<open>The lead-time area\<close>

definition leads_at :: "64 word list \<Rightarrow> nat \<Rightarrow> nat" where
  "leads_at leads l = length (filter (\<lambda>x. int l \<le> sint x) leads)"

lemma leads_complement: "length leads - length (filter (\<lambda>x. sint x < int l) leads) = leads_at leads l"
  unfolding leads_at_def using sum_length_filter_compl [of "\<lambda>x. sint x < int l" leads] by (simp add: not_less)

theorem aucpdt_counts:
  assumes "leads \<noteq> []" "horizon \<noteq> 0"
  shows "aucpdt leads horizon
    = foldl (\<lambda>total l. total + f_of_usize (leads_at leads l) / f_of_usize (length leads)) 0 [0..<unat horizon] / f_of_usize (unat horizon)"
  using assms by (simp add: aucpdt_def Let_def partition_count leads_complement)

lemma aucpdt_sum:
  assumes "leads \<noteq> []" "length leads < 9007199254740992" "k < 9007199254740992"
  shows "is_finite (foldl (\<lambda>total l. total + f_of_usize (leads_at leads l) / f_of_usize (length leads)) 0 [0..<k]) \<and>
    0 \<le> fval (foldl (\<lambda>total l. total + f_of_usize (leads_at leads l) / f_of_usize (length leads)) 0 [0..<k]) \<and>
    fval (foldl (\<lambda>total l. total + f_of_usize (leads_at leads l) / f_of_usize (length leads)) 0 [0..<k]) \<le> k"
  using assms(3)
proof (induction k)
  case (Suc k)
  let ?s = "foldl (\<lambda>total l. total + f_of_usize (leads_at leads l) / f_of_usize (length leads)) 0 [0..<k]"
  let ?t = "f_of_usize (leads_at leads k) / f_of_usize (length leads)"
  have c: "leads_at leads k \<le> length leads" by (simp add: leads_at_def)
  then have e: "is_finite (f_of_usize (leads_at leads k))" "fval (f_of_usize (leads_at leads k)) = leads_at leads k"
    "is_finite (f_of_usize (length leads))" "fval (f_of_usize (length leads)) = length leads"
    using of_usize_exact [of "leads_at leads k"] of_usize_exact [of "length leads"] assms(2) by simp_all
  have "rounds_to (real (leads_at leads k) / real (length leads)) ?t" using rounds_to_div [OF e(1,3)] e(2,4) assms(1) by simp
  then have t: "is_finite ?t" "0 \<le> fval ?t" "fval ?t \<le> 1" using rounds_unit c assms(1) by (auto simp: divide_le_eq)
  have s: "is_finite ?s" "0 \<le> fval ?s" "fval ?s \<le> k" using Suc by simp_all
  have u: "is_finite (f_of_usize (Suc k))" "fval (f_of_usize (Suc k)) = real k + 1" using of_usize_exact [of "Suc k"] Suc.prems by simp_all
  note b = rounds_between [OF rounds_to_plus [OF s(1) t(1)] fval_0(2) u(1)]
  show ?case using b s t u(2) by simp
qed simp

theorem aucpdt_unit:
  assumes "length leads < 9007199254740992" shows "in_unit (aucpdt leads horizon)"
proof (cases "leads = [] \<or> horizon = 0")
  case True
  then show ?thesis by (auto simp: aucpdt_def)
next
  case False
  let ?h = "unat horizon"
  have h: "0 < ?h" "?h < 9007199254740992" using False unat_bound [of horizon] by (auto simp: unat_gt_0)
  note s = aucpdt_sum [of leads ?h]
  have u: "is_finite (f_of_usize ?h)" "fval (f_of_usize ?h) = real ?h" using of_usize_exact [OF h(2)] by simp_all
  have "fval (f_of_usize ?h) \<noteq> 0" unfolding u(2) using h(1) by linarith
  moreover define t where "t = foldl (\<lambda>total l. total + f_of_usize (leads_at leads l) / f_of_usize (length leads)) 0 [0..<?h]"
  moreover have t: "is_finite t" "0 \<le> fval t" "fval t \<le> real ?h" using s False assms h(2) unfolding t_def by simp_all
  ultimately have "rounds_to (fval t / real ?h) (t / f_of_usize ?h)" using rounds_to_div [OF t(1) u(1)] u(2) by metis
  moreover have "0 \<le> fval t / real ?h" "fval t / real ?h \<le> 1" using t h(1) by (simp_all only: divide_nonneg_nonneg of_nat_0_le_iff divide_le_eq_1 of_nat_0_less_iff simp_thms)
  ultimately have "in_unit (t / f_of_usize ?h)" using rounds_unit by (simp only: in_unit_def)
  moreover have "aucpdt leads horizon = t / f_of_usize ?h" unfolding t_def by (rule aucpdt_counts) (use False in simp_all)
  ultimately show ?thesis by (simp only:)
qed

end
