(* ===== verification/MetricsBounds.thy ===== *)
theory MetricsBounds
  imports MetricsFloat
begin

text \<open>The McNemar p-value, the percentiles with the bootstrap, and the quantiles of the beta distribution.\<close>

subsection \<open>McNemar\<close>

lemma powi_loop_le: "pow2_le a i \<Longrightarrow> pow2_le r j \<Longrightarrow> pow2_le (powi_loop b a r) (j + b * i)"
proof (induction b a r arbitrary: i j rule: powi_loop.induct)
  case (1 b a r)
  let ?r = "if odd b then r * a else r"
  have r: "pow2_le ?r (j + b mod 2 * i)" using 1(2,3) pow2_le_times by (auto simp: odd_iff_mod_2_eq_one)
  have b: "b * i = b mod 2 * i + b div 2 * (i + i)" by (metis add_mult_distrib mod_div_mult_eq mult.assoc mult_2 mult_2_right)
  show ?case
  proof (cases "b div 2 = 0")
    case True
    then have "b mod 2 = b" by simp
    then show ?thesis using True r by (simp add: powi_loop.simps [of b] Let_def)
  next
    case False
    have "pow2_le (powi_loop (b div 2) (a * a) ?r) (j + b mod 2 * i + b div 2 * (i + i))"
      by (rule 1(1) [OF refl False pow2_le_times [OF 1(2,2)] r])
    then show ?thesis using False b by (simp add: powi_loop.simps [of b] Let_def add.assoc)
  qed
qed

lemma halves_le: "pow2_le f_half 1" "pow2_le f_one 0"
  by (simp_all add: pow2_le_def half_is_half one_is_one power_int_minus)

lemma sint_small:
  fixes n :: u32
  assumes "unat n < 2147483648" shows "sint n = int (unat n)"
proof -
  have u: "uint n = int (unat n)" by (rule uint_nat)
  have "sint n = signed_take_bit (LENGTH(32) - Suc 0) (uint n)" by (rule sint_uint)
  also have "LENGTH(32) - Suc 0 = 31" by simp
  also have "signed_take_bit 31 (uint n) = uint n"
  proof (rule signed_take_bit_int_eq_self)
    have "- (2 ^ 31) \<le> (0::int)" by simp
    then show "- (2 ^ 31) \<le> uint n" using uint_ge_0 [of n] by (rule order_trans)
    have "uint n < 2147483648" unfolding u using assms by linarith
    then show "uint n < 2 ^ 31" by simp
  qed
  finally show ?thesis unfolding u .
qed

lemma powi_half: "unat n < 2147483648 \<Longrightarrow> pow2_le (powi_f64 f_half (sint n)) (unat n)" for n :: u32
  using powi_loop_le [OF halves_le, of "unat n"] by (simp add: powi_f64_def sint_small Let_def)

lemma zero_times: "is_finite x \<Longrightarrow> fval x = 0 \<Longrightarrow> is_finite y \<Longrightarrow> is_finite (x * y) \<and> fval (x * y) = 0"
  using rounds_to_times [of x y] rounds_0 by simp

lemma zero_plus: "is_finite x \<Longrightarrow> fval x = 0 \<Longrightarrow> is_finite y \<Longrightarrow> fval y = 0 \<Longrightarrow> is_finite (x + y) \<and> fval (x + y) = 0"
  using rounds_to_plus [of x y] rounds_0 by simp

text \<open>The ratio of two successive terms.\<close>

lemma ratio_pos:
  assumes "0 < p" "p < 9007199254740992" "0 < q" "q < 9007199254740992"
  shows "is_finite (f_of_int p / f_of_int q) \<and> 0 < fval (f_of_int p / f_of_int q)"
proof -
  have e: "is_finite (f_of_int p)" "fval (f_of_int p) = p" "is_finite (f_of_int q)" "fval (f_of_int q) = q"
    using f_of_int_exact assms by simp_all
  obtain w where w: "is_finite w" "fval w = 2 powi (- 53)" using representable [of 1 "- 53"] by auto
  have q: "0 < real_of_int q" "real_of_int q \<le> 9007199254740992" "1 \<le> real_of_int p" using assms by simp_all
  have "2 powi (- 53) = (1 / 9007199254740992 :: real)" by (simp add: power_int_minus)
  also have "\<dots> \<le> 1 / real_of_int q" using q by (intro divide_left_mono) simp_all
  also have "\<dots> \<le> real_of_int p / real_of_int q" using q by (intro divide_right_mono) simp_all
  finally have lo: "fval w \<le> real_of_int p / real_of_int q" unfolding w(2) .
  have "real_of_int p / real_of_int q \<le> real_of_int p / 1" using q by (intro divide_left_mono) simp_all
  then have hi: "real_of_int p / real_of_int q \<le> fval (f_of_int p)" using e(2) by simp
  have "rounds_to (real_of_int p / real_of_int q) (f_of_int p / f_of_int q)" using rounds_to_div [OF e(1,3)] e(2,4) assms(3) by simp
  from rounds_between [OF this w(1) e(1) lo hi] w(2) show ?thesis
    using zero_less_power_int [of "2::real" "- 53"] by linarith
qed

lemma term_ratio:
  fixes n :: u32
  assumes "i < unat n" shows "is_finite (f_of_int (uint (n - of_nat i)) / f_of_int (uint (of_nat i + 1 :: u32))) \<and>
    0 < fval (f_of_int (uint (n - of_nat i)) / f_of_int (uint (of_nat i + 1 :: u32)))"
proof -
  have n: "unat n < 4294967296" using unat_bound [of n] by simp
  have i: "unat (of_nat i :: u32) = i" unfolding unat_of_nat by (rule mod_less) (use assms n in simp)
  have "unat (of_nat (i + 1) :: u32) = i + 1" unfolding unat_of_nat by (rule mod_less) (use assms n in simp)
  then have s: "unat (of_nat i + 1 :: u32) = i + 1" by (simp only: of_nat_add of_nat_1)
  have "of_nat i \<le> n" unfolding word_le_nat_alt i using assms by simp
  then have d: "unat (n - of_nat i) = unat n - i" using unat_sub [of "of_nat i" n] i by simp
  have u: "uint (n - of_nat i) = int (unat n - i)" "uint (of_nat i + 1 :: u32) = int (i + 1)" by (simp_all only: uint_nat d s)
  have "int (unat n - i) < 9007199254740992" "int (i + 1) < 9007199254740992" using n assms by linarith+
  moreover have "0 < int (unat n - i)" "0 < int (i + 1)" using assms by linarith+
  ultimately show ?thesis unfolding u by (intro ratio_pos)
qed

lemma mcnemar_loop_zero:
  "is_finite pmf \<Longrightarrow> fval pmf = 0 \<Longrightarrow> is_finite cdf \<Longrightarrow> fval cdf = 0 \<Longrightarrow> i + k \<le> unat n \<Longrightarrow>
     is_finite (mcnemar_loop n i k pmf cdf) \<and> fval (mcnemar_loop n i k pmf cdf) = 0"
proof (induction n i k pmf cdf rule: mcnemar_loop.induct)
  case (2 n i k pmf cdf)
  then show ?case using zero_times [OF 2(2,3)] zero_plus [OF 2(4,5,2,3)] term_ratio [of i n] by simp
qed simp

lemma counts_small:
  fixes b c :: u32
  assumes "unat b + unat c < 2147483648" "b + c \<noteq> 0"
  shows "unat (b + c) = unat b + unat c" "unat (min b c) + 1 \<le> unat (b + c)"
proof -
  show s: "unat (b + c) = unat b + unat c" using assms(1) by (simp add: unat_word_ariths(1))
  have "unat (min b c) = min (unat b) (unat c)" by (simp add: min_def word_le_nat_alt)
  moreover have "0 < unat b + unat c" using assms(2) s by (metis unat_gt_0)
  ultimately show "unat (min b c) + 1 \<le> unat (b + c)" using s by linarith
qed

theorem mcnemar_underflow:
  assumes "1075 \<le> unat b + unat c" "unat b + unat c < 2147483648"
  shows "is_finite (mcnemar_exact b c)" "fval (mcnemar_exact b c) = 0"
proof -
  have s: "unat (b + c) = unat b + unat c" using assms(2) by (simp add: unat_word_ariths(1))
  have z: "b + c \<noteq> 0" using s assms(1) by auto
  note m = counts_small [OF assms(2) z]
  have p: "pow2_le (powi_f64 f_half (sint (b + c))) (unat (b + c))" using powi_half [of "b + c"] s assms(2) by simp
  let ?l = "mcnemar_loop (b + c) 0 (unat (min b c) + 1) (powi_f64 f_half (sint (b + c))) 0"
  have "is_finite ?l \<and> fval ?l = 0" by (rule mcnemar_loop_zero) (use p s assms(1) m(2) in \<open>simp_all add: pow2_le_def\<close>)
  then have t: "is_finite (f_two * ?l)" "fval (f_two * ?l) = 0"
    using rounds_to_times [of f_two ?l] rounds_0 two_is_two by simp_all
  have "\<not> f_one < f_two * ?l" using f_less_fval [OF one_is_one(1) t(1)] t(2) one_is_one by simp
  then have "mcnemar_exact b c = f_two * ?l" using z t(1) one_is_one(1) f_finite_not_nan by (simp add: mcnemar_exact_def f64_min_def Let_def)
  then show "is_finite (mcnemar_exact b c)" "fval (mcnemar_exact b c) = 0" using t by simp_all
qed

text \<open>The p-value is a number of the unit interval.\<close>

lemma f_mult_commute: "x * y = y * x" for x y :: f64
proof -
  have x: "(a = (\<not> b)) = (b = (\<not> a))" for a b :: bool by auto
  show ?thesis by (cases "unpack x"; cases "unpack y") (simp_all add: times_f64_def mult.commute add.commute x)
qed

lemma nonneg_cases:
  assumes "0 \<le> x"
  obtains "is_finite x" "0 \<le> fval x" | "unpack x = VInf False"
proof (cases "is_finite x")
  case True
  then show ?thesis using that(1) f_le_fval [of 0 x] assms by simp
next
  case False
  have "\<not> is_nan x" using f_le_not_nan [OF assms] by simp
  then have i: "is_infinite x" using False f64_classes by blast
  have "\<not> f_sign x" using assms i by (auto simp: f_cmp f_key_def is_infinite_def inf_mag_def zero_f64_def f_sign_def f_mag_def)
  then show ?thesis using that(2) unpack_infinite [OF i] by simp
qed

lemma nonneg_inf: "0 \<le> mk_f64 False inf_mag"
  by (simp add: f_cmp is_nan_def f_key_def f_mag_mk f_sign_mk inf_mag_def) (simp add: zero_f64_def f_mag_def f_sign_def)

lemma nonneg_times:
  assumes "0 \<le> x" "is_finite y" "0 < fval y" shows "0 \<le> x * y"
  using assms(1)
proof (cases rule: nonneg_cases)
  case 1
  then show ?thesis using rounds_to_ge [OF rounds_to_times [OF 1(1) assms(2)] fval_0(2)] assms(3) by simp
next
  case 2
  obtain s m e where y: "unpack y = VFin s m e" "fval y = vreal s m e" "0 \<le> m" "m = 0 \<longleftrightarrow> fval y = 0" using unpack_fval [OF assms(2)] by metis
  have "\<not> s" proof
    assume "s"
    then have "fval y = - (of_int m * 2 powi e)" using y(2) by (simp add: vreal_def)
    moreover have "0 \<le> of_int m * (2::real) powi e" using y(3) by simp
    ultimately show False using assms(3) by linarith
  qed
  then show ?thesis using 2 y assms(3) nonneg_inf by (simp add: times_f64_def)
qed

lemma nonneg_plus:
  fixes x y :: f64
  assumes "0 \<le> x" "0 \<le> y" shows "0 \<le> x + y"
  using assms(1)
proof (cases rule: nonneg_cases)
  case 1
  note x = 1
  show ?thesis using assms(2)
  proof (cases rule: nonneg_cases)
    case 1
    then show ?thesis using x rounds_to_ge [OF rounds_to_plus [OF x(1) 1(1)] fval_0(2)] by simp
  next
    case 2
    then show ?thesis using unpack_finite [OF x(1)] nonneg_inf by (simp add: plus_f64_def)
  qed
next
  case 2
  note x = 2
  show ?thesis using assms(2)
  proof (cases rule: nonneg_cases)
    case 1
    then show ?thesis using unpack_finite [OF 1(1)] x nonneg_inf by (simp add: plus_f64_def)
  next
    case 2
    then show ?thesis using x nonneg_inf by (simp add: plus_f64_def)
  qed
qed

lemma mcnemar_loop_nonneg:
  "0 \<le> pmf \<Longrightarrow> 0 \<le> cdf \<Longrightarrow> i + k \<le> unat n \<Longrightarrow> 0 \<le> mcnemar_loop n i k pmf cdf"
proof (induction n i k pmf cdf rule: mcnemar_loop.induct)
  case (2 n i k pmf cdf)
  have "i < unat n" using 2(4) by simp
  then show ?case using 2 nonneg_times [OF 2(2)] nonneg_plus [OF 2(3,2)] term_ratio [OF \<open>i < unat n\<close>] by simp
qed simp

theorem mcnemar_unit:
  assumes "unat b + unat c < 2147483648" shows "in_unit (mcnemar_exact b c)"
proof (cases "b + c = 0")
  case True
  then show ?thesis by (simp add: mcnemar_exact_def)
next
  case False
  note m = counts_small [OF assms False]
  let ?l = "mcnemar_loop (b + c) 0 (unat (min b c) + 1) (powi_f64 f_half (sint (b + c))) 0"
  have "pow2_le (powi_f64 f_half (sint (b + c))) (unat (b + c))" using powi_half [of "b + c"] m(1) assms by simp
  then have "0 \<le> powi_f64 f_half (sint (b + c))" by (simp add: pow2_le_def f_le_fval)
  then have "0 \<le> ?l" by (rule mcnemar_loop_nonneg) (use m(2) in \<open>simp_all add: f_le_fval\<close>)
  then have t: "0 \<le> f_two * ?l" using nonneg_times [of ?l f_two] two_is_two by (simp add: f_mult_commute)
  show ?thesis
  proof (cases "f_one < f_two * ?l")
    case True
    then have "mcnemar_exact b c = f_one" using False f_le_not_nan [OF t] one_is_one(1) by (simp add: mcnemar_exact_def f64_min_def Let_def)
    then show ?thesis by simp
  next
    case le: False
    then have le: "f_two * ?l \<le> f_one" using f_le_not_nan [OF t] one_is_one(1) f_not_less by simp
    then have "is_finite (f_two * ?l)" using f_between_finite [OF fval_0(2) one_is_one(1) t] by simp
    moreover have "mcnemar_exact b c = f_two * ?l"
      using False f_le_not_nan [OF t] one_is_one(1) le f_not_less [of f_one "f_two * ?l"] by (simp add: mcnemar_exact_def f64_min_def Let_def)
    ultimately show ?thesis using t le f_le_fval one_is_one by (simp add: in_unit_def)
  qed
qed

subsection \<open>Percentiles\<close>

lemma clamp_unit: "\<not> is_nan p \<Longrightarrow> in_unit (f64_clamp p 0 f_one)"
proof -
  assume p: "\<not> is_nan p"
  have n: "\<not> is_nan f_one" "\<not> is_nan (0 :: f64)" using one_is_one(1) by simp_all
  show ?thesis
  proof (cases "p < 0")
    case True
    then show ?thesis using f_less_fval [OF one_is_one(1) fval_0(2)] one_is_one by (simp add: f64_clamp_def)
  next
    case False
    then have a: "0 \<le> p" using f_not_less p n by simp
    show ?thesis
    proof (cases "f_one < p")
      case True
      then show ?thesis using False by (simp add: f64_clamp_def)
    next
      case le: False
      then have b: "p \<le> f_one" using f_not_less p n by simp
      then have "is_finite p" using f_between_finite [OF fval_0(2) one_is_one(1) a] by simp
      then show ?thesis using a b False le f_le_fval one_is_one by (simp add: f64_clamp_def in_unit_def)
    qed
  qed
qed

lemma floor_ceil_int:
  assumes "m \<le> int n * d" "0 < d" shows "m div d \<le> int n" "- ((- m) div d) \<le> int n"
proof -
  show "m div d \<le> int n" using zdiv_mono1 [OF assms] assms(2) by simp
  have "(- int n * d) div d \<le> (- m) div d" by (rule zdiv_mono1) (use assms in simp_all)
  moreover have "(- int n * d) div d = - int n" by (rule nonzero_mult_div_cancel_right) (use assms(2) in simp)
  ultimately show "- ((- m) div d) \<le> int n" by linarith
qed

lemma floor_ceil:
  assumes "is_finite x" "0 \<le> fval x" "fval x \<le> real n"
  shows "floor_usize x \<le> n" "ceil_usize x \<le> n"
proof -
  obtain s m e where x: "unpack x = VFin s m e" "fval x = vreal s m e" "0 \<le> m" using unpack_fval [OF assms(1)] by metis
  have "s \<or> (if 0 \<le> e then m * 2 ^ nat e \<le> int n else m \<le> int n * 2 ^ nat (- e))"
  proof (cases "s \<or> 0 \<le> e")
    case True
    have "of_int (m * 2 ^ nat e) \<le> real n" if "\<not> s" using assms(3) x(2) True that by (simp add: vreal_def power_int_def)
    then show ?thesis using True by (metis of_int_le_iff of_int_of_nat_eq)
  next
    case False
    have "2 powi e = 1 / (2 ^ nat (- e) :: real)" using False by (simp add: power_int_def inverse_eq_divide power_one_over)
    then have "of_int m * (1 / 2 ^ nat (- e)) \<le> real n" using assms(3) x(2) False by (simp add: vreal_def)
    then have "of_int m \<le> real n * 2 ^ nat (- e)" by (simp add: divide_le_eq)
    also have "\<dots> = of_int (int n * 2 ^ nat (- e))" by simp
    finally show ?thesis using False by (metis of_int_le_iff)
  qed
  then have "floor_usize x \<le> n \<and> ceil_usize x \<le> n"
    using x(1) floor_ceil_int [of m n "2 ^ nat (- e)"]
    by (cases s) (simp_all add: floor_usize_def ceil_usize_def min_le_iff_disj nat_le_iff split: if_splits)
  then show "floor_usize x \<le> n" "ceil_usize x \<le> n" by simp_all
qed

theorem percentile_in_slice:
  assumes "length xs < 9007199254740992" shows "\<exists>y. percentile_linear xs p = Some y"
proof (cases "xs = []")
  case True
  then show ?thesis by (simp add: percentile_linear_def)
next
  case False
  let ?n = "length xs - 1" and ?c = "f64_clamp p 0 f_one"
  let ?pos = "?c * f_of_usize ?n"
  have "floor_usize ?pos \<le> ?n \<and> ceil_usize ?pos \<le> ?n"
  proof (cases "is_nan p")
    case True
    then have "?c = p" by (simp add: f64_clamp_def f_cmp)
    then have "unpack ?pos = VNan"
      using unpack_nan [OF True] by (simp add: times_f64_def) (simp add: f_nan_def unpack_def inf_mag_def)
    then show ?thesis by (simp add: floor_usize_def ceil_usize_def)
  next
    case False
    have c: "is_finite ?c" "0 \<le> fval ?c" "fval ?c \<le> 1" using clamp_unit [OF False] by (simp_all add: in_unit_def)
    have n: "is_finite (f_of_usize ?n)" "fval (f_of_usize ?n) = real ?n" using of_usize_exact [of ?n] assms by simp_all
    have "fval ?c * real ?n \<le> 1 * real ?n" using c by (intro mult_right_mono) simp_all
    then have "is_finite ?pos" "0 \<le> fval ?pos" "fval ?pos \<le> real ?n"
      using rounds_between [OF rounds_to_times [OF c(1) n(1)] fval_0(2) n(1)] c n(2) by simp_all
    then show ?thesis using floor_ceil by simp
  qed
  moreover have "?n < length xs" using False by (cases xs) simp_all
  ultimately have "floor_usize ?pos < length xs" "ceil_usize ?pos < length xs" by linarith+
  then show ?thesis using False by (simp add: percentile_linear_def Let_def slice_get_def)
qed

lemma nearest_rank_in_slice: "\<exists>y. nearest_rank xs q = Some y"
  by (cases xs) (auto simp: nearest_rank_def Let_def slice_get_def)

subsection \<open>The bootstrap\<close>

lemma resample_bound:
  assumes "\<forall>x \<in> set d. \<bar>x\<bar> \<le> 1" "d \<noteq> []" "length d < 2 ^ 64"
  shows "\<exists>rng' acc'. resample d k rng acc = Some (rng', acc') \<and> \<bar>acc'\<bar> \<le> \<bar>acc\<bar> + int k"
proof (induction k arbitrary: rng acc)
  case (Suc k)
  obtain rng1 z where z: "SplitMix64_next rng = (rng1, z)" by (cases "SplitMix64_next rng")
  let ?i = "unat (z mod of_nat (length d))"
  have "unat (of_nat (length d) :: u64) = length d" using assms(3) by (simp add: unat_of_nat)
  then have i: "?i < length d" using assms(2) by (simp add: unat_mod)
  then have "\<bar>d ! ?i\<bar> \<le> 1" using assms(1) nth_mem by blast
  moreover obtain rng' acc' where "resample d k rng1 (acc + d ! ?i) = Some (rng', acc')" "\<bar>acc'\<bar> \<le> \<bar>acc + d ! ?i\<bar> + int k"
    using Suc [of rng1 "acc + d ! ?i"] by blast
  ultimately show ?case using z i by (auto simp: slice_get_def)
qed simp

definition in_sym_unit :: "f64 \<Rightarrow> bool" where "in_sym_unit x \<longleftrightarrow> is_finite x \<and> \<bar>fval x\<bar> \<le> 1"

lemma mean_bound:
  assumes "\<bar>a\<bar> \<le> int n" "0 < n" "n < 9007199254740992" "is_finite s" "fval s = of_int a"
  shows "in_sym_unit (s / f_of_usize n)"
proof -
  have n: "is_finite (f_of_usize n)" "fval (f_of_usize n) = real n" using of_usize_exact [OF assms(3)] by simp_all
  have r: "rounds_to (real_of_int a / real n) (s / f_of_usize n)" using rounds_to_div [OF assms(4) n(1)] n(2) assms(2,5) by simp
  have "real_of_int \<bar>a\<bar> \<le> real n" using assms(1) by linarith
  then have "\<bar>real_of_int a / real n\<bar> \<le> 1" using assms(2) by (simp add: divide_le_eq)
  then have l: "- 1 \<le> real_of_int a / real n" "real_of_int a / real n \<le> 1" by linarith+
  have m: "is_finite (- f_one)" "fval (- f_one) = - 1" using fval_uminus one_is_one by simp_all
  show ?thesis
    using rounds_between [OF r m(1) one_is_one(1)] one_is_one(2) m(2) l by (simp add: in_sym_unit_def abs_le_iff)
qed

lemma resamples_bound:
  assumes "\<forall>x \<in> set d. \<bar>x\<bar> \<le> 1" "d \<noteq> []" "length d < 9007199254740992"
  shows "\<exists>xs. resamples d k rng = Some xs \<and> length xs = k \<and> (\<forall>x \<in> set xs. in_sym_unit x)"
proof (induction k arbitrary: rng)
  case (Suc k)
  obtain rng' acc where r: "resample d (length d) rng 0 = Some (rng', acc)" "\<bar>acc\<bar> \<le> int (length d)"
    using resample_bound [OF assms(1,2), of "length d" rng 0] assms(3) by auto
  have "in_sym_unit (f_of_signed acc / f_of_usize (length d))"
    by (rule mean_bound [OF r(2)]) (use assms(2,3) r(2) of_signed_exact [of acc] in auto)
  moreover obtain xs where "resamples d k rng' = Some xs" "length xs = k" "\<forall>x \<in> set xs. in_sym_unit x" using Suc by blast
  ultimately show ?case using r(1) by simp
qed simp

lemma signed_sum:
  assumes "\<forall>x \<in> set d. \<bar>x\<bar> \<le> 1" "is_finite s" "fval s = of_int a" "\<bar>a\<bar> + int (length d) < 9007199254740992"
  shows "is_finite (foldl (\<lambda>s x. s + f_of_signed x) s d) \<and> fval (foldl (\<lambda>s x. s + f_of_signed x) s d) = of_int (a + sum_list d)"
  using assms
proof (induction d arbitrary: s a)
  case (Cons x d)
  have x: "\<bar>x\<bar> \<le> 1" using Cons.prems(1) by simp
  then have e: "is_finite (f_of_signed x)" "fval (f_of_signed x) = of_int x" using of_signed_exact [of x] by simp_all
  have b: "\<bar>a + x\<bar> + int (length d) < 9007199254740992" using Cons.prems(4) x by simp
  have "rounds_to (of_int (a + x)) (s + f_of_signed x)" using rounds_to_plus [OF Cons.prems(2) e(1)] Cons.prems(3) e(2) by simp
  then have "is_finite (s + f_of_signed x) \<and> fval (s + f_of_signed x) = of_int (a + x)" by (rule rounds_int) (use b in linarith)
  then show ?case using Cons.IH [of "s + f_of_signed x" "a + x"] Cons.prems(1) b by (simp add: add.assoc)
qed simp

lemma sum_bound: "\<forall>x \<in> set d. \<bar>x\<bar> \<le> 1 \<Longrightarrow> \<bar>sum_list d\<bar> \<le> int (length d)" for d :: "int list"
  by (induction d) auto

definition outcome_diffs :: "bool list \<Rightarrow> bool list \<Rightarrow> int list" where
  "outcome_diffs a b = map (\<lambda>i. of_bool (a ! i) - of_bool (b ! i)) [0..<min (length a) (length b)]"

theorem bootstrap_total:
  assumes "min (length a) (length b) < 9007199254740992"
  obtains diff lo hi where "paired_bootstrap_diff a b n_resamples seed = Some (diff, lo, hi)" "in_sym_unit diff"
    "rounds_to (of_int (sum_list (outcome_diffs a b)) / real (min (length a) (length b))) diff"
proof (cases "min (length a) (length b) = 0")
  case True
  then have "outcome_diffs a b = []" by (simp add: outcome_diffs_def)
  then have "rounds_to (of_int (sum_list (outcome_diffs a b)) / real (min (length a) (length b))) 0"
    using rounds_to_fval [OF fval_0(2)] by simp
  then show ?thesis using that [of 0 0 0] True by (simp add: paired_bootstrap_diff_def Let_def in_sym_unit_def)
next
  case False
  define n where "n = min (length a) (length b)"
  define d where "d = outcome_diffs a b"
  have n: "0 < n" "n < 9007199254740992" using False assms by (simp_all add: n_def)
  have d: "\<forall>x \<in> set d. \<bar>x\<bar> \<le> 1" "length d = n" "d \<noteq> []" using n by (auto simp: d_def outcome_diffs_def n_def)
  let ?s = "foldl (\<lambda>s x. s + f_of_signed x) 0 d"
  have s: "is_finite ?s" "fval ?s = of_int (sum_list d)" using signed_sum [OF d(1), of 0 0] d(2) n by simp_all
  have u: "in_sym_unit (?s / f_of_usize n)" by (rule mean_bound [OF _ n s]) (use sum_bound [OF d(1)] d(2) in simp)
  have un: "is_finite (f_of_usize n)" "fval (f_of_usize n) = real n" using of_usize_exact [OF n(2)] by simp_all
  have r: "rounds_to (of_int (sum_list d) / real n) (?s / f_of_usize n)" using rounds_to_div [OF s(1) un(1)] un(2) s(2) n(1) by simp
  obtain xs where xs: "resamples d (unat n_resamples) seed = Some xs" "length xs = unat n_resamples"
    using resamples_bound [OF d(1,3)] d(2) n(2) by metis
  have "length (sort_key total_key xs) < 9007199254740992" using xs(2) unat_bound [of n_resamples] by simp
  then obtain lo hi where p: "percentile_linear (sort_key total_key xs) PCT_LO = Some lo" "percentile_linear (sort_key total_key xs) PCT_HI = Some hi"
    using percentile_in_slice by metis
  have "paired_bootstrap_diff a b n_resamples seed
      = Some (?s / f_of_usize n, if n_resamples = 0 then (?s / f_of_usize n, ?s / f_of_usize n) else (lo, hi))"
    using n(1) xs(1) p by (simp add: paired_bootstrap_diff_def Let_def n_def [symmetric] d_def outcome_diffs_def)
  then show ?thesis using that u r by (cases "n_resamples = 0") (auto simp: n_def d_def)
qed

subsection \<open>Quantiles\<close>

lemma reflection_once: "x < f_half \<Longrightarrow> \<not> f_one - x < f_half"
proof
  assume a: "x < f_half" "f_one - x < f_half"
  show False
  proof (cases "is_finite x")
    case True
    have "fval x < 1 / 2" using a(1) f_less_fval [OF True half_is_half(1)] half_is_half by simp
    then have "f_half \<le> f_one - x" using rounds_to_ge [OF rounds_to_minus [OF one_is_one(1) True] half_is_half(1)] one_is_one half_is_half by simp
    then show False using a(2) by (auto simp: f_cmp)
  next
    case False
    have "\<not> is_nan x" using a(1) by (simp add: f_cmp)
    then have "is_infinite x" using False f64_classes by blast
    then have "unpack (f_one - x) = VInf (\<not> f_sign x) \<or> True" by simp
    have s: "f_sign x" using a(1) \<open>is_infinite x\<close> by (rule_tac ccontr) (auto simp: f_cmp f_key_def is_infinite_def f_half_def f_mag_def f_sign_def inf_mag_def)
    obtain m e where "unpack f_one = VFin False m e" using unpack_finite [OF one_is_one(1)] by (simp add: f_one_def f_sign_def)
    then have "f_one - x = mk_f64 False inf_mag" using s unpack_infinite [OF \<open>is_infinite x\<close>] by (simp add: minus_f64_def)
    then show False using a(2) by (simp add: f_cmp f_key_def f_mag_mk f_sign_mk inf_mag_def f_half_def) (simp add: f_mag_def f_sign_def)
  qed
qed

lemma mid_between:
  assumes "in_unit lo" "in_unit hi" "fval lo \<le> fval hi"
  shows "is_finite (f_half * (lo + hi)) \<and> fval lo \<le> fval (f_half * (lo + hi)) \<and> fval (f_half * (lo + hi)) \<le> fval hi"
proof -
  have f: "is_finite lo" "is_finite hi" "0 \<le> fval lo" "fval hi \<le> 1" using assms by (simp_all add: in_unit_def)
  have dbl: "is_finite (x + x) \<and> fval (x + x) = 2 * fval x" if "in_unit x" for x
  proof -
    have x: "is_finite x" using that by (simp add: in_unit_def)
    obtain s m e where u: "fval x = vreal s m e" "0 \<le> m" "m < 9007199254740992" "- 1074 \<le> e" using unpack_fval [OF x] by metis
    show ?thesis
    proof (cases "e \<le> 800")
      case True
      let ?k = "if s then - m else m"
      have "fval x + fval x = of_int ?k * 2 powi (e + 1)" unfolding u(1) by (simp add: vreal_def power_int_add)
      then have "rounds_to (of_int ?k * 2 powi (e + 1)) (x + x)" using rounds_to_plus [OF x x] by simp
      from rounds_dyadic [OF this] u True have "is_finite (x + x)" "fval (x + x) = of_int ?k * 2 powi (e + 1)" by auto
      then show ?thesis using \<open>fval x + fval x = _\<close> by simp
    next
      case False
      have "m = 0"
      proof (rule ccontr)
        assume "m \<noteq> 0"
        then have "1 \<le> \<bar>real_of_int (if s then - m else m)\<bar>" using u(2) by simp
        moreover have "(2::real) \<le> 2 powi e" using False power_int_increasing [of 1 e "2::real"] by simp
        ultimately have "1 * 2 \<le> \<bar>real_of_int (if s then - m else m)\<bar> * 2 powi e" by (intro mult_mono) simp_all
        then have "2 \<le> \<bar>fval x\<bar>" unfolding u(1) vreal_def by (simp add: abs_mult)
        then show False using that by (simp add: in_unit_def)
      qed
      then have "fval x = 0" using u(1) by (simp add: vreal_def)
      then show ?thesis using zero_plus [OF x _ x] by simp
    qed
  qed
  note l = dbl [OF assms(1)] and h = dbl [OF assms(2)]
  note s = rounds_between [OF rounds_to_plus [OF f(1,2)], of "lo + lo" "hi + hi"]
  have s: "is_finite (lo + hi)" "2 * fval lo \<le> fval (lo + hi)" "fval (lo + hi) \<le> 2 * fval hi"
    using s l h assms(3) by simp_all
  have "rounds_to (fval (lo + hi) / 2) (f_half * (lo + hi))" using rounds_to_times [OF half_is_half(1) s(1)] half_is_half(2) by simp
  from rounds_between [OF this f(1,2)] s show ?thesis by simp
qed

lemma bisect_unit:
  "in_unit lo \<Longrightarrow> in_unit hi \<Longrightarrow> fval lo \<le> fval hi \<Longrightarrow> bisect below k lo hi = (lo', hi') \<Longrightarrow>
     in_unit lo' \<and> in_unit hi' \<and> fval lo' \<le> fval hi'"
proof (induction below k lo hi rule: bisect.induct)
  case (2 below k lo hi)
  let ?m = "f_half * (lo + hi)"
  note m = mid_between [OF 2(2-4)]
  have u: "in_unit ?m" using m 2(2,3) by (auto simp: in_unit_def)
  let ?l = "if below ?m then ?m else lo" and ?h = "if below ?m then hi else ?m"
  have lh: "(if below ?m then (?m, hi) else (lo, ?m)) = (?l, ?h)" by simp
  have n: "in_unit ?l" "in_unit ?h" "fval ?l \<le> fval ?h" using u m 2(2-4) by simp_all
  show ?case
  proof (cases "?h - ?l < BISECT_STOP")
    case True
    then have "(lo', hi') = (?l, ?h)" using 2(5) by (simp add: Let_def lh split: if_splits)
    then show ?thesis using n by simp
  next
    case False
    then have "bisect below k ?l ?h = (lo', hi')" using 2(5) by (simp add: Let_def lh split: if_splits)
    then show ?thesis using 2(1) [OF refl lh [symmetric] refl False n] by simp
  qed
qed simp

theorem beta_quantile_unit: "in_unit (beta_quantile lm p a b)"
proof (cases "p \<le> 0 \<or> f_one \<le> p")
  case True
  then show ?thesis by (auto simp: beta_quantile_def)
next
  case False
  obtain lo hi where b: "bisect (\<lambda>mid. reg_inc_beta lm a b mid < p) 200 0 f_one = (lo, hi)" by (metis surj_pair)
  have u: "in_unit lo \<and> in_unit hi \<and> fval lo \<le> fval hi" by (rule bisect_unit [OF _ _ _ b]) (simp_all add: one_is_one)
  then have "in_unit (f_half * (lo + hi))" using mid_between [of lo hi] by (auto simp: in_unit_def)
  then show ?thesis using False b by (simp add: beta_quantile_def)
qed

theorem clopper_pearson_unit:
  "in_unit (fst (clopper_pearson lm k n conf))" "in_unit (snd (clopper_pearson lm k n conf))"
  using beta_quantile_unit by (simp_all add: clopper_pearson_def Let_def)

end
