(* ===== verification/DemoCrash.thy ===== *)
theory DemoCrash
  imports Crash History DemoVerify MetricsBounds
begin

text \<open>Inputs for the crash receipt of the demonstration session's arm, for the run memory and for the statistics.\<close>

subsection \<open>A crash receipt\<close>

lemma demo_crash:
  obtains dk' entry where
    "write_crash_episode demo_host demo_world demo_disk demo_config demo_run demo_budget CRASH_CLIENT [] = Some (dk', Inr entry)"
proof -
  have l: "ledger_head demo_world demo_disk p = Inr None" for p by (simp add: ledger_head_def demo_disk_def)
  have c: "cg_out_dir demo_config = Some ''o''" "cg_key demo_config = Some []" by (simp_all add: demo_config_def)
  have d: "canonical_digest demo_crypto (ht_envelope_json demo_host (cg_envelope demo_config)) = Some ''null''"
    using demo_digest_null by (simp add: demo_host_def)
  let ?b = "crash_body demo_host demo_world demo_config demo_run demo_budget CRASH_CLIENT [] False ''null'' None"
  have "keys_ok (fuse_inputs demo_config)" by code_simp
  then have "signable ?b"
    by (simp add: signable_def crash_body_def Let_def demo_run_def demo_world_def safe_def MAX_SAFE_INTEGER_def keys_ok_def)
      (simp add: demo_host_def)
  then obtain sr where sr: "sign_receipt demo_crypto ?b [] = Inr sr" using sign_receipt_iff by blast
  obtain es e where "append_ledger (cy_sha demo_crypto) [] sr = Some (es, e)"
    using signed_append [OF sr, of "cy_sha demo_crypto" "[]"] by auto
  then have "\<exists>dk. write_episode demo_crypto demo_world demo_disk p sr [] [] = Some (dk, Inr e)" for p
    by (simp add: write_episode_def demo_world_def Let_def) (simp add: demo_disk_def)
  then show thesis using that by (fastforce simp: write_crash_episode_def c d l sr Let_def)
qed

lemma demo_crash_key: "crash_key demo_host demo_config = []" by (simp add: crash_key_def demo_config_def)

text \<open>The host's part of the budget, as JSON.\<close>

definition demo_host_part :: "(string \<times> Value) list" where
  "demo_host_part = [(''delay_steps'', VNum (NInt 0)), (''exec_mode'', VStr ''sync''), (''on_escalate'', VStr ''e''), (''stitch'', VStr ''s''),
     (''tick_ms'', VNum (NInt 100))]"

definition demo_budget_json :: Json where
  "demo_budget_json = \<lparr> js_value = (\<lambda>_. Inr (VObj demo_host_part)), js_doc = (\<lambda>_. Inr (VObj demo_host_part)), js_misfit = (\<lambda>_. []),
     js_dec = (\<lambda>_. None) \<rparr>"

lemma demo_budget_parsed: "js_value demo_budget_json t = Inr (VObj demo_host_part)" by (simp add: demo_budget_json_def)

lemma demo_host_part: "host_part demo_host_part (eb_budget demo_begin)"
  unfolding host_part_def by (intro conjI) code_simp+

lemma demo_gate_written: "gate_as_written demo_config"
proof -
  have "case GateSpec_parse (se_gate demo_env) of Inl e \<Rightarrow> False | Inr g \<Rightarrow> GateSpec_names g = se_gate demo_env" by code_simp
  then show ?thesis by (auto simp: gate_as_written_def demo_config_def)
qed

subsection \<open>A run memory\<close>

definition demo_record :: EpisodeRecord where
  "demo_record = \<lparr> hi_ts = ''t'', hi_run_id = ''r'', hi_arm_id = ''a'', hi_seed = 7, hi_success = True, hi_first_trip_reason = None,
     hi_trips = [], hi_stopped = False, hi_escalated = False \<rparr>"

definition demo_record_value :: Value where
  "demo_record_value = VObj [(''arm_id'', VStr ''a''), (''escalated'', VBool False), (''first_trip_reason'', VNull), (''run_id'', VStr ''r''),
     (''seed'', VNum (NInt 7)), (''stopped'', VBool False), (''success'', VBool True), (''trips'', VArr []), (''ts'', VStr ''t'')]"

definition demo_history_json :: Json where
  "demo_history_json = \<lparr> js_value = (\<lambda>_. Inr demo_record_value), js_doc = (\<lambda>_. Inr demo_record_value), js_misfit = (\<lambda>_. []),
     js_dec = (\<lambda>_. None) \<rparr>"

definition demo_history_line :: "EpisodeRecord \<Rightarrow> string" where "demo_history_line r = ''x''"

lemma demo_written_back: "written_back demo_history_json demo_history_line demo_record"
proof -
  have "EpisodeRecord_read demo_record_value = Some demo_record" by code_simp
  moreover have v: "visible (CHR ''x'')" by (simp add: visible_def byte_of_def)
  then have "utf8_valid ''x''" "trim ''x'' = ''x''" using trim_id [of "''x''"] by (simp_all add: utf8_valid_ascii visible_def)
  moreover have "line_ok ''x''" by (simp add: line_ok_def LF_def CR_def)
  ultimately show ?thesis by (simp add: written_back_def demo_history_line_def from_doc_def demo_history_json_def)
qed

subsection \<open>Scores\<close>

lemma demo_wins: "wins2 [f_one, 0] [0, 0] = 6"
  by code_simp

end
