(* ===== verification/Keys.thy ===== *)
theory Keys
  imports Handoff Session Render
begin

text \<open>
  \<open>lictor-receipt/src/keys.rs\<close> and \<open>lictor-cli/src/cmd/key.rs\<close>: seed files and the command that makes and reads
  them.  Key files are their text by path; what the system answers on opening a path, the working directory and
  the environment variables are in \<open>KeyEnv\<close>, and \<open>hex\<close> is the codec of \<open>Crypto\<close>.
\<close>

subsection \<open>Seeds\<close>

datatype KeyError = KeyBad string | KeyIo string

definition is_hexdigit :: "char \<Rightarrow> bool" where
  "is_hexdigit c \<longleftrightarrow> CHR ''0'' \<le> c \<and> c \<le> CHR ''9'' \<or> CHR ''a'' \<le> c \<and> c \<le> CHR ''f'' \<or> CHR ''A'' \<le> c \<and> c \<le> CHR ''F''"

definition seed_lines :: "string \<Rightarrow> string list" where
  "seed_lines text = filter (\<lambda>l. l \<noteq> [] \<and> hd l \<noteq> CHR ''#'') (map trim (lines_of text))"

text \<open>\<open>None\<close> where \<open>copy_from_slice\<close> panics, when the decoder does not return 32 bytes.\<close>

definition parse_seed :: "Crypto \<Rightarrow> string \<Rightarrow> (KeyError + u8 list) option" where
  "parse_seed cy text = (case seed_lines text of
       [] \<Rightarrow> Some (Inl (KeyBad ''seed file has no hex line''))
     | line # others \<Rightarrow>
         if others \<noteq> [] then Some (Inl (KeyBad ''seed file has more than one non-comment line''))
         else if length line \<noteq> 64 \<or> \<not> list_all is_hexdigit line then Some (Inl (KeyBad ''seed must be exactly 64 hex characters''))
         else (case cy_of_hex cy line of None \<Rightarrow> Some (Inl (KeyBad ''hex''))
           | Some bytes \<Rightarrow> if length bytes = 32 then Some (Inr bytes) else None))"

record KeyEnv =
  ke_lictor_keys :: "string option"
  ke_home :: "string option"
  ke_userprofile :: "string option"
  ke_cwd :: "string option"
  ke_io :: "string \<Rightarrow> string option"

type_synonym KeyFiles = "string \<Rightarrow> string option"

definition load_seed :: "Crypto \<Rightarrow> KeyEnv \<Rightarrow> KeyFiles \<Rightarrow> string \<Rightarrow> (KeyError + u8 list) option" where
  "load_seed cy env fs path = (case (ke_io env path, fs path) of
       (Some e, _) \<Rightarrow> Some (Inl (KeyIo (path @ '': '' @ e)))
     | (None, None) \<Rightarrow> Some (Inl (KeyIo (path @ '': not found'')))
     | (None, Some text) \<Rightarrow> map_option (\<lambda>r. case r of Inl (KeyBad m) \<Rightarrow> Inl (KeyBad (path @ '': '' @ m)) | _ \<Rightarrow> r) (parse_seed cy text))"

subsection \<open>Where a key may be stored\<close>

definition text_is_drvfs :: "string \<Rightarrow> bool" where
  "text_is_drvfs s = (let b = path_str s in
     6 \<le> length b \<and> take 5 b = ''/mnt/'' \<and> CHR ''a'' \<le> b ! 5 \<and> b ! 5 \<le> CHR ''z'' \<and> take 1 (drop 6 b) = ''/'')"

definition is_relative :: "string \<Rightarrow> bool" where "is_relative p \<longleftrightarrow> \<not> (p \<noteq> [] \<and> hd p = CHR ''/'')"

definition is_drvfs :: "KeyEnv \<Rightarrow> string \<Rightarrow> bool" where
  "is_drvfs env path = (if text_is_drvfs path then True
     else if is_relative path then (case ke_cwd env of None \<Rightarrow> False | Some cwd \<Rightarrow> text_is_drvfs (path_join cwd path))
     else False)"

definition save_seed :: "Crypto \<Rightarrow> KeyEnv \<Rightarrow> KeyFiles \<Rightarrow> string \<Rightarrow> u8 list \<Rightarrow> bool \<Rightarrow> bool \<Rightarrow> KeyError + KeyFiles" where
  "save_seed cy env fs path seed force allow_drvfs =
     (if \<not> allow_drvfs \<and> is_drvfs env path then
        Inl (KeyBad (path @ '' is under /mnt/<drive>/ (DrvFs ignores 0600); use $LICTOR_KEYS on ext4 or pass --i-know''))
      else if fs path \<noteq> None \<and> \<not> force then Inl (KeyBad (path @ '' exists; pass --force to overwrite''))
      else (case ke_io env path of Some e \<Rightarrow> Inl (KeyIo e) | None \<Rightarrow> Inr (fs(path \<mapsto> cy_to_hex cy seed @ [LF]))))"

definition var :: "string option \<Rightarrow> string option" where "var v = (if v = Some [] then None else v)"

definition default_key_dir :: "KeyEnv \<Rightarrow> string" where
  "default_key_dir env = (case var (ke_lictor_keys env) of Some d \<Rightarrow> d
     | None \<Rightarrow> path_join (case var (ke_home env) of Some h \<Rightarrow> h
         | None \<Rightarrow> (case var (ke_userprofile env) of Some h \<Rightarrow> h | None \<Rightarrow> ''.'')) ''.lictor'')"

definition key_default_path :: "KeyEnv \<Rightarrow> string \<Rightarrow> string" where
  "key_default_path env role = path_join (default_key_dir env) (if role = ''operator'' then ''operator.hex'' else ''key.hex'')"

text \<open>\<open>resolve_key\<close> of \<open>serve.rs\<close>: the given key, else the default file when there is one.\<close>

definition resolve_key :: "Crypto \<Rightarrow> KeyEnv \<Rightarrow> KeyFiles \<Rightarrow> string option \<Rightarrow> (KeyError + u8 list option) option" where
  "resolve_key cy env fs key =
     (let found = map_option (\<lambda>r. case r of Inl e \<Rightarrow> Inl e | Inr s \<Rightarrow> Inr (Some s));
          dflt = path_join (default_key_dir env) ''key.hex'' in
      case key of Some p \<Rightarrow> found (load_seed cy env fs p)
      | None \<Rightarrow> if fs dflt \<noteq> None then found (load_seed cy env fs dflt) else Some (Inr None))"

subsection \<open>The command\<close>

datatype KeyCmd = KeyInit "string option" string bool bool | KeyPub "string option"

record KeyOut =
  ko_pubkey :: string
  ko_path :: string
  ko_role :: string
  ko_mode :: string

definition MODE_TEXT :: string where "MODE_TEXT = ''mode 0600''"

text \<open>The exit code with what is printed: a refusal is 2.  \<open>fresh\<close> is the seed that \<open>keygen\<close> draws.\<close>

definition key_display :: "string \<Rightarrow> string" where "key_display p = sanitize (path_str p)"

definition key_run :: "Crypto \<Rightarrow> KeyEnv \<Rightarrow> u8 list \<Rightarrow> KeyFiles \<Rightarrow> KeyCmd \<Rightarrow> (KeyFiles \<times> int \<times> (KeyError + KeyOut)) option" where
  "key_run cy env fresh fs cmd = (case cmd of
       KeyInit out role force i_know \<Rightarrow>
         (let path = (case out of Some p \<Rightarrow> p | None \<Rightarrow> key_default_path env role) in
          case save_seed cy env fs path fresh force i_know of Inl e \<Rightarrow> Some (fs, 2, Inl e)
          | Inr fs' \<Rightarrow> Some (fs', 0, Inr \<lparr> ko_pubkey = pubkey_hex cy fresh, ko_path = key_display path, ko_role = role, ko_mode = MODE_TEXT \<rparr>))
     | KeyPub key \<Rightarrow>
         (let path = (case key of Some p \<Rightarrow> p | None \<Rightarrow> key_default_path env ''signer'') in
          map_option (\<lambda>r. case r of Inl e \<Rightarrow> (fs, 2, Inl e)
            | Inr seed \<Rightarrow> (fs, 0, Inr \<lparr> ko_pubkey = pubkey_hex cy seed, ko_path = key_display path, ko_role = [], ko_mode = [] \<rparr>)) (load_seed cy env fs path)))"

subsection \<open>What a stored key is\<close>

text \<open>The documented behaviour of \<open>hex\<close>: two digits a byte, and what is encoded is decoded.\<close>

definition hex_codec :: "Crypto \<Rightarrow> bool" where
  "hex_codec cy \<longleftrightarrow> (\<forall>bs. cy_of_hex cy (cy_to_hex cy bs) = Some bs \<and> length (cy_to_hex cy bs) = 2 * length bs \<and>
     list_all is_hexdigit (cy_to_hex cy bs)) \<and> (\<forall>s bs. cy_of_hex cy s = Some bs \<longrightarrow> length s = 2 * length bs)"

lemma hexdigit_visible: "is_hexdigit c \<Longrightarrow> visible c \<and> c \<noteq> LF \<and> c \<noteq> CR \<and> c \<noteq> CHR ''#''"
  by (auto simp: is_hexdigit_def visible_def byte_of_def less_eq_char_def LF_def CR_def)

lemma hex_line:
  assumes "list_all is_hexdigit l" "l \<noteq> []" shows "line_ok l" "trim l = l" "hd l \<noteq> CHR ''#''"
proof -
  have v: "c \<in> set l \<Longrightarrow> visible c \<and> c \<noteq> LF \<and> c \<noteq> CR \<and> c \<noteq> CHR ''#''" for c
    using assms(1) hexdigit_visible by (auto simp: list_all_iff)
  have "hd l \<in> set l" "last l \<in> set l" using assms(2) by simp_all
  note e = v [OF this(1)] v [OF this(2)]
  show "line_ok l" unfolding line_ok_def using e v by blast
  show "trim l = l" using trim_id [OF assms(2)] e by blast
  show "hd l \<noteq> CHR ''#''" using e by blast
qed

theorem seed_text_reads:
  assumes "hex_codec cy" "length seed = 32" shows "parse_seed cy (cy_to_hex cy seed @ [LF]) = Some (Inr seed)"
proof -
  have h: "cy_of_hex cy (cy_to_hex cy seed) = Some seed" "length (cy_to_hex cy seed) = 64" "list_all is_hexdigit (cy_to_hex cy seed)"
    using assms by (simp_all add: hex_codec_def)
  then have n: "cy_to_hex cy seed \<noteq> []" by auto
  note l = hex_line [OF h(3) n]
  have "lines_of (cy_to_hex cy seed @ [LF]) = [cy_to_hex cy seed]" using lines_of_line [OF l(1), of "[]"] by simp
  then have "seed_lines (cy_to_hex cy seed @ [LF]) = [cy_to_hex cy seed]" using n l by (simp add: seed_lines_def)
  then show ?thesis using h assms(2) by (simp add: parse_seed_def)
qed

lemma parse_seed_total: "hex_codec cy \<Longrightarrow> \<exists>r. parse_seed cy text = Some r"
  by (auto simp: parse_seed_def hex_codec_def split: list.split option.split)

lemma parse_seed_length: "parse_seed cy text = Some (Inr seed) \<Longrightarrow> length seed = 32"
  by (auto simp: parse_seed_def split: list.split_asm option.split_asm if_split_asm)

text \<open>A key that \<open>key init\<close> stored is the one that \<open>key pub\<close> and the server load; no other file changes.\<close>

theorem key_init_stores:
  assumes "hex_codec cy" "length fresh = 32" "key_run cy env fresh fs (KeyInit out role force i_know) = Some (fs', 0, Inr ko)"
    "p = (case out of Some p \<Rightarrow> p | None \<Rightarrow> key_default_path env role)"
  shows "key_run cy env other fs' (KeyPub (Some p)) = Some (fs', 0, Inr \<lparr> ko_pubkey = ko_pubkey ko, ko_path = ko_path ko, ko_role = [], ko_mode = [] \<rparr>)"
    "resolve_key cy env fs' (Some p) = Some (Inr (Some fresh))" "ko_pubkey ko = pubkey_hex cy fresh"
    "q \<noteq> p \<Longrightarrow> fs' q = fs q" "fs p \<noteq> None \<Longrightarrow> force" "is_drvfs env p \<Longrightarrow> i_know"
proof -
  have r: "save_seed cy env fs p fresh force i_know = Inr fs'"
    and ko: "ko = \<lparr> ko_pubkey = pubkey_hex cy fresh, ko_path = key_display p, ko_role = role, ko_mode = MODE_TEXT \<rparr>"
    using assms(3) by (auto simp: key_run_def Let_def assms(4) split: sum.split_asm)
  have s: "\<not> (\<not> i_know \<and> is_drvfs env p)" "\<not> (fs p \<noteq> None \<and> \<not> force)" "ke_io env p = None" "fs' = fs(p \<mapsto> cy_to_hex cy fresh @ [LF])"
    using r by (auto simp: save_seed_def split: if_split_asm option.split_asm)
  have l: "load_seed cy env fs' p = Some (Inr fresh)" using seed_text_reads [OF assms(1,2)] s(3,4) by (simp add: load_seed_def)
  show "key_run cy env other fs' (KeyPub (Some p)) = Some (fs', 0, Inr \<lparr> ko_pubkey = ko_pubkey ko, ko_path = ko_path ko, ko_role = [], ko_mode = [] \<rparr>)"
    using l by (simp add: key_run_def Let_def ko)
  show "resolve_key cy env fs' (Some p) = Some (Inr (Some fresh))" using l by (simp add: resolve_key_def Let_def)
  show "ko_pubkey ko = pubkey_hex cy fresh" "q \<noteq> p \<Longrightarrow> fs' q = fs q" "fs p \<noteq> None \<Longrightarrow> force"
    "is_drvfs env p \<Longrightarrow> i_know" using s by (auto simp: ko)
qed

lemma key_refused: "key_run cy env fresh fs cmd = Some (fs', 2, r) \<Longrightarrow> fs' = fs"
  by (cases cmd) (auto simp: key_run_def Let_def split: sum.split_asm, metis sum.exhaust)

text \<open>The check is on the text of the path: a detour through the parent directory is not seen.\<close>

lemma drvfs_detour:
  "is_drvfs env ''/mnt/c/k.hex''" "\<not> is_drvfs env ''/home/../mnt/c/k.hex''" "\<not> is_drvfs env ''/mnt//c/k.hex''"
  by (simp_all add: is_drvfs_def text_is_drvfs_def path_str_def BACKSLASH_def is_relative_def Let_def)

end
