(* ===== verification/AckTool.thy ===== *)
theory AckTool
  imports Keys Signable
begin

text \<open>
  \<open>lictor-cli/src/cmd/ack.rs\<close>: the command by which an operator signs the acknowledgement of a handoff.  The nonce
  files and the token files are their content by path; reading a handoff record is a parameter.
\<close>

subsection \<open>Arguments\<close>

definition parse_decision :: "string \<Rightarrow> AckDecision option" where
  "parse_decision s = (if s = ''resume'' then Some Resume else if s = ''abort'' then Some Abort
     else if s = ''retune'' then Some Retune else None)"

definition is_hex64 :: "string \<Rightarrow> bool" where "is_hex64 s \<longleftrightarrow> length s = 64 \<and> list_all is_hexdigit s"

definition lower_digit :: "char \<Rightarrow> char" where
  "lower_digit c = (if CHR ''A'' \<le> c \<and> c \<le> CHR ''F'' then char_of (byte_of c + 32) else c)"

datatype HandoffError = HandoffUnread string | HandoffCanon CanonError | HandoffMismatch string

text \<open>The digest to sign, with the record when one was read.  \<open>None\<close> where shortening a digest panics.\<close>

definition resolve_handoff :: "Crypto \<Rightarrow> (string \<Rightarrow> string + HandoffRecord) \<Rightarrow> string \<Rightarrow>
    (HandoffError + string \<times> HandoffRecord option) option" where
  "resolve_handoff cy rd arg =
     (if is_hex64 arg then Some (Inr (map lower_digit arg, None))
      else (case rd arg of Inl e \<Rightarrow> Some (Inl (HandoffUnread (arg @ '': '' @ e)))
        | Inr rec \<Rightarrow> (case compute_digest cy rec of Inl e \<Rightarrow> Some (Inl (HandoffCanon e))
          | Inr recomputed \<Rightarrow>
              if recomputed \<noteq> hr_digest rec then
                Option.bind (short (hr_digest rec)) (\<lambda>a. map_option (\<lambda>b.
                  Inl (HandoffMismatch (arg @ '': the record's digest '' @ a @ '' does not match the recomputed '' @ b))) (short recomputed))
              else Some (Inr (recomputed, Some rec)))))"

subsection \<open>Nonces\<close>

record AckDisk =
  ad_keys :: KeyFiles
  ad_nonces :: "string \<Rightarrow> (string \<Rightarrow> u64 option) option"
  ad_tokens :: "string \<Rightarrow> AckToken option"

definition ACK_NONCE_FILE :: string where "ACK_NONCE_FILE = ''ack_nonce.json''"

definition ack_nonce_file :: "KeyEnv \<Rightarrow> string" where
  "ack_nonce_file env = path_join (default_key_dir env) ACK_NONCE_FILE"

definition load_nonce_map :: "KeyEnv \<Rightarrow> AckDisk \<Rightarrow> string \<Rightarrow> string + (string \<Rightarrow> u64 option)" where
  "load_nonce_map env dk p = (case ad_nonces dk p of None \<Rightarrow> Inr (\<lambda>_. None)
     | Some m \<Rightarrow> (case ke_io env p of Some e \<Rightarrow> Inl e | None \<Rightarrow> Inr m))"

definition nonce_of :: "(string \<Rightarrow> u64 option) \<Rightarrow> string \<Rightarrow> u64" where
  "nonce_of m operator = (case m operator of None \<Rightarrow> 0 | Some n \<Rightarrow> n)"

definition next_nonce :: "KeyEnv \<Rightarrow> AckDisk \<Rightarrow> string \<Rightarrow> string \<Rightarrow> string + u64" where
  "next_nonce env dk p operator = (case load_nonce_map env dk p of Inl e \<Rightarrow> Inl e
     | Inr m \<Rightarrow> Inr (sat_inc (nonce_of m operator)))"

definition remember_ack_nonce :: "KeyEnv \<Rightarrow> AckDisk \<Rightarrow> string \<Rightarrow> string \<Rightarrow> u64 \<Rightarrow> AckDisk \<times> string option" where
  "remember_ack_nonce env dk p operator nonce = (case load_nonce_map env dk p of Inl e \<Rightarrow> (dk, Some e)
     | Inr m \<Rightarrow> if nonce_of m operator < nonce then
           (case ke_io env p of Some e \<Rightarrow> (dk, Some e)
            | None \<Rightarrow> (dk \<lparr> ad_nonces := (ad_nonces dk)(p \<mapsto> m(operator \<mapsto> nonce)) \<rparr>, None))
         else (dk, None))"

subsection \<open>The command\<close>

record AckArgs =
  aa_handoff :: string
  aa_decision :: string
  aa_key :: string
  aa_note :: "string option"
  aa_nonce :: "u64 option"
  aa_out :: "string option"

datatype AckResult = AckBadDecision | AckBadKey KeyError | AckBadHandoff HandoffError | AckNonces string | AckUnsigned SignError
  | AckUnwritten string | AckSigned AckToken "string option"

definition ack_exit_code :: "AckResult \<Rightarrow> int" where
  "ack_exit_code r = (case r of AckBadKey _ \<Rightarrow> 2 | AckBadHandoff _ \<Rightarrow> 2 | AckUnsigned _ \<Rightarrow> 2 | AckSigned _ _ \<Rightarrow> 0 | _ \<Rightarrow> 3)"

text \<open>\<open>AckSigned\<close> carries the warning when the nonce could not be recorded.\<close>

definition ack_run :: "Crypto \<Rightarrow> KeyEnv \<Rightarrow> (string \<Rightarrow> string + HandoffRecord) \<Rightarrow> AckDisk \<Rightarrow> AckArgs \<Rightarrow> (AckDisk \<times> AckResult) option" where
  "ack_run cy env rd dk a = (case parse_decision (aa_decision a) of None \<Rightarrow> Some (dk, AckBadDecision)
     | Some decision \<Rightarrow>
        Option.bind (load_seed cy env (ad_keys dk) (aa_key a)) (\<lambda>key. case key of Inl e \<Rightarrow> Some (dk, AckBadKey e)
        | Inr seed \<Rightarrow> Option.bind (resolve_handoff cy rd (aa_handoff a)) (\<lambda>h. case h of Inl e \<Rightarrow> Some (dk, AckBadHandoff e)
          | Inr (digest, _) \<Rightarrow>
              let operator = pubkey_hex cy seed; p = ack_nonce_file env in
              (case (case aa_nonce a of Some n \<Rightarrow> Inr n | None \<Rightarrow> next_nonce env dk p operator) of Inl e \<Rightarrow> Some (dk, AckNonces e)
               | Inr nonce \<Rightarrow>
                  (case sign_ack cy digest decision nonce (case aa_note a of None \<Rightarrow> [] | Some n \<Rightarrow> n) seed of
                     Inl e \<Rightarrow> Some (dk, AckUnsigned e)
                   | Inr token \<Rightarrow>
                      let (dk, warning) = remember_ack_nonce env dk p operator nonce in
                      (case aa_out a of None \<Rightarrow> Some (dk, AckSigned token warning)
                       | Some q \<Rightarrow> (case ke_io env q of Some e \<Rightarrow> Some (dk, AckUnwritten (q @ '': '' @ e))
                          | None \<Rightarrow> Some (dk \<lparr> ad_tokens := (ad_tokens dk)(q \<mapsto> token) \<rparr>, AckSigned token warning))))))))"

subsection \<open>What a run does\<close>

lemma sign_ack_nonce:
  assumes "sign_ack cy digest decision nonce note' seed = Inr t"
  shows "safe nonce" "ak_nonce t = nonce" "ak_operator t = pubkey_hex cy seed" "ak_handoff_digest t = digest" "ak_decision t = decision"
proof -
  have *: "floatfree (struct_value (ack_core u)) \<longleftrightarrow> safe (ak_nonce u)" for u by (simp add: ack_core_def safe_simps)
  obtain u b where u: "ack_signing_bytes u = Inr b" "ak_nonce u = nonce" "ak_operator u = pubkey_hex cy seed" "ak_handoff_digest u = digest"
    "ak_decision u = decision" "t = u \<lparr> ak_sig := snd (sign_bytes cy seed b) \<rparr>"
    using assms by (auto simp: sign_ack_def Let_def fail_if_Inr split: sum.split_asm)
  have "floatfree (struct_value (ack_core u))" using u(1) canon_of_ok [of "struct_value (ack_core u)"] by (auto simp: ack_signing_bytes_def)
  then show "safe nonce" using * u(2) by simp
  show "ak_nonce t = nonce" "ak_operator t = pubkey_hex cy seed" "ak_handoff_digest t = digest" "ak_decision t = decision" using u by simp_all
qed

text \<open>The nonce that the file of the key directory holds for an operator, when the file can be read.\<close>

definition stored_nonce :: "KeyEnv \<Rightarrow> AckDisk \<Rightarrow> string \<Rightarrow> u64" where
  "stored_nonce env dk operator = (case ad_nonces dk (ack_nonce_file env) of None \<Rightarrow> 0 | Some m \<Rightarrow> nonce_of m operator)"

lemma ack_run_signed:
  assumes "ack_run cy env rd dk a = Some (dk', AckSigned t w)" "aa_nonce a = None"
  obtains seed digest rec decision where "load_seed cy env (ad_keys dk) (aa_key a) = Some (Inr seed)"
    "resolve_handoff cy rd (aa_handoff a) = Some (Inr (digest, rec))" "parse_decision (aa_decision a) = Some decision"
    "sign_ack cy digest decision (stored_nonce env dk (pubkey_hex cy seed) + 1) (case aa_note a of None \<Rightarrow> [] | Some n \<Rightarrow> n) seed = Inr t"
    "stored_nonce env dk (pubkey_hex cy seed) < ak_nonce t" "ad_keys dk' = ad_keys dk"
    "\<And>operator. w = None \<Longrightarrow> stored_nonce env dk' operator = (if operator = pubkey_hex cy seed then ak_nonce t else stored_nonce env dk operator)"
proof -
  obtain decision where d: "parse_decision (aa_decision a) = Some decision" using assms(1) by (auto simp: ack_run_def split: option.split_asm)
  obtain key where "load_seed cy env (ad_keys dk) (aa_key a) = Some key"
    using assms(1) d by (cases "load_seed cy env (ad_keys dk) (aa_key a)") (simp_all add: ack_run_def)
  moreover obtain seed where "key = Inr seed" using assms(1) d calculation by (cases key) (simp_all add: ack_run_def)
  ultimately have s: "load_seed cy env (ad_keys dk) (aa_key a) = Some (Inr seed)" by simp
  obtain h where "resolve_handoff cy rd (aa_handoff a) = Some h"
    using assms(1) d s by (cases "resolve_handoff cy rd (aa_handoff a)") (simp_all add: ack_run_def)
  moreover obtain digest rec where "h = Inr (digest, rec)"
    using assms(1) d s calculation by (cases h; cases "projr h") (auto simp: ack_run_def)
  ultimately have h: "resolve_handoff cy rd (aa_handoff a) = Some (Inr (digest, rec))" by simp
  let ?p = "ack_nonce_file env" and ?o = "pubkey_hex cy seed"
  note r = assms(1) [unfolded ack_run_def d s h assms(2), simplified]
  obtain n where n: "next_nonce env dk ?p ?o = Inr n" using r by (cases "next_nonce env dk ?p ?o") (simp_all add: Let_def)
  obtain t' where t': "sign_ack cy digest decision n (case aa_note a of None \<Rightarrow> [] | Some n \<Rightarrow> n) seed = Inr t'"
    using r n by (cases "sign_ack cy digest decision n (case aa_note a of None \<Rightarrow> [] | Some n \<Rightarrow> n) seed") (simp_all add: Let_def)
  obtain m where m: "load_nonce_map env dk ?p = Inr m" using n by (auto simp: next_nonce_def split: sum.split_asm)
  have st: "stored_nonce env dk o' = nonce_of m o'" for o'
    using m by (auto simp: load_nonce_map_def stored_nonce_def nonce_of_def split: option.split_asm)
  have "uint (- 1 :: u64) = 18446744073709551615" by (simp add: unsigned_minus_1_eq_mask mask_eq_exp_minus_1)
  then have "n \<noteq> - 1" using sign_ack_nonce(1) [OF t'] by (auto simp: safe_def MAX_SAFE_INTEGER_def)
  moreover have nn: "n = sat_inc (nonce_of m ?o)" using n m by (simp add: next_nonce_def)
  ultimately have ne: "nonce_of m ?o \<noteq> - 1" "n = nonce_of m ?o + 1" by (auto simp: sat_inc_def split: if_split_asm)
  have "unat n = Suc (unat (nonce_of m ?o))" unfolding ne(2) using ne(1) by (metis add.commute add_eq_0_iff2 unatSuc)
  then have lt: "nonce_of m ?o < n" by (simp add: word_less_nat_alt)
  obtain dk1 w1 where k: "remember_ack_nonce env dk ?p ?o n = (dk1, w1)" by force
  have f: "t = t'" "w = w1" "ad_keys dk' = ad_keys dk1" "ad_nonces dk' = ad_nonces dk1"
    using r n t' k by (auto simp: Let_def split: option.split_asm)
  have "ad_keys dk1 = ad_keys dk" using k m by (auto simp: remember_ack_nonce_def split: option.split_asm if_split_asm)
  moreover have "stored_nonce env dk1 o' = (if o' = ?o then n else stored_nonce env dk o')" if "w1 = None" for o'
    using k m lt that st [of o'] by (auto simp: remember_ack_nonce_def stored_nonce_def nonce_of_def split: option.split_asm)
  ultimately show thesis
    using that [OF s h d] t' st lt ne(2) f sign_ack_nonce(2) [OF t'] by (simp add: stored_nonce_def)
qed

text \<open>Such a token is accepted by a verifier whose memory is not ahead of the key directory.\<close>

theorem ack_token_accepted:
  assumes "ack_run cy env rd dk a = Some (dk', AckSigned t w)" "aa_nonce a = None" "load_seed cy env (ad_keys dk) (aa_key a) = Some (Inr seed)"
    "resolve_handoff cy rd (aa_handoff a) = Some (Inr (digest, rec))" "signs cy seed"
    "position (\<lambda>o'. o' = pubkey_hex cy seed) operators = Some slot" "slot < 256"
    "(if slot < length nonces then nonces ! slot else 0) \<le> stored_nonce env dk (pubkey_hex cy seed)"
  shows "\<exists>decision. parse_decision (aa_decision a) = Some decision \<and> verify_ack cy t operators (Some digest) seq nonces
      = Inr \<lparr> va_decision = decision, va_operator_slot = of_nat slot, va_nonce = ak_nonce t, va_handoff_seq = seq \<rparr> \<and>
    (w = None \<longrightarrow> stored_nonce env dk' (pubkey_hex cy seed) = ak_nonce t)"
proof -
  obtain seed' digest' rec' decision where r: "load_seed cy env (ad_keys dk) (aa_key a) = Some (Inr seed')"
    "resolve_handoff cy rd (aa_handoff a) = Some (Inr (digest', rec'))" "parse_decision (aa_decision a) = Some decision"
    "sign_ack cy digest' decision (stored_nonce env dk (pubkey_hex cy seed') + 1) (case aa_note a of None \<Rightarrow> [] | Some n \<Rightarrow> n) seed' = Inr t"
    "stored_nonce env dk (pubkey_hex cy seed') < ak_nonce t"
    "\<And>operator. w = None \<Longrightarrow> stored_nonce env dk' operator = (if operator = pubkey_hex cy seed' then ak_nonce t else stored_nonce env dk operator)"
    by (rule ack_run_signed [OF assms(1,2)]; blast)
  have e: "seed' = seed" "digest' = digest" using r(1,2) assms(3,4) by simp_all
  have "(if slot < length nonces then nonces ! slot else 0) < stored_nonce env dk (pubkey_hex cy seed) + 1"
    using assms(8) r(5) sign_ack_nonce(2) [OF r(4)] e by (metis order_le_less_trans)
  from sign_ack_verifies [OF assms(5) r(4) [unfolded e] assms(6,7) this] show ?thesis
    using r(3,6) sign_ack_nonce(2) [OF r(4)] e by simp
qed

text \<open>Runs of the command: the tokens of one operator carry growing nonces.\<close>

fun ack_all :: "Crypto \<Rightarrow> KeyEnv \<Rightarrow> (string \<Rightarrow> string + HandoffRecord) \<Rightarrow> AckDisk \<Rightarrow> AckArgs list \<Rightarrow> (AckDisk \<times> AckResult list) option" where
  "ack_all cy env rd dk [] = Some (dk, [])"
| "ack_all cy env rd dk (a # as) = Option.bind (ack_run cy env rd dk a) (\<lambda>(dk, r).
     map_option (\<lambda>(dk, rs). (dk, r # rs)) (ack_all cy env rd dk as))"

theorem ack_nonces_grow:
  assumes "ack_all cy env rd dk as = Some (dk', map (\<lambda>t. AckSigned t None) ts)" "\<forall>a \<in> set as. aa_nonce a = None"
  shows "sorted_wrt (\<lambda>t u. ak_operator t = ak_operator u \<longrightarrow> ak_nonce t < ak_nonce u) ts"
proof -
  have "sorted_wrt (\<lambda>t u. ak_operator t = ak_operator u \<longrightarrow> ak_nonce t < ak_nonce u) ts \<and>
      (\<forall>t \<in> set ts. stored_nonce env dk (ak_operator t) < ak_nonce t)"
    using assms
  proof (induction as arbitrary: dk ts)
    case (Cons a as)
    obtain dk1 r rs where c: "ack_run cy env rd dk a = Some (dk1, r)" "ack_all cy env rd dk1 as = Some (dk', rs)"
      "map (\<lambda>t. AckSigned t None) ts = r # rs"
      using Cons.prems(1) by (auto simp: bind_eq_Some_conv)
    obtain t us where t: "ts = t # us" "r = AckSigned t None" "rs = map (\<lambda>t. AckSigned t None) us" using c(3) by (cases ts) auto
    obtain seed digest decision where s: "stored_nonce env dk (pubkey_hex cy seed) < ak_nonce t"
      "sign_ack cy digest decision (stored_nonce env dk (pubkey_hex cy seed) + 1) (case aa_note a of None \<Rightarrow> [] | Some n \<Rightarrow> n) seed = Inr t"
      "\<And>operator. stored_nonce env dk1 operator = (if operator = pubkey_hex cy seed then ak_nonce t else stored_nonce env dk operator)"
      by (rule ack_run_signed [OF c(1) [unfolded t(2)]]) (use Cons.prems(2) in auto)
    note i = Cons.IH [OF c(2) [unfolded t(3)]]
    have i: "sorted_wrt (\<lambda>t u. ak_operator t = ak_operator u \<longrightarrow> ak_nonce t < ak_nonce u) us"
      "\<forall>u \<in> set us. stored_nonce env dk1 (ak_operator u) < ak_nonce u" using i Cons.prems(2) by simp_all
    have o: "ak_operator t = pubkey_hex cy seed" using sign_ack_nonce(3) [OF s(2)] .
    have "ak_operator t = ak_operator u \<longrightarrow> ak_nonce t < ak_nonce u" "stored_nonce env dk (ak_operator u) < ak_nonce u" if "u \<in> set us" for u
    proof -
      have "stored_nonce env dk1 (ak_operator u) < ak_nonce u" using i(2) that by blast
      then show "ak_operator t = ak_operator u \<longrightarrow> ak_nonce t < ak_nonce u" "stored_nonce env dk (ak_operator u) < ak_nonce u"
        using s(1,3) o by (auto split: if_split_asm)
    qed
    then show ?case using i(1) o s(1) t(1) by simp
  qed simp
  then show ?thesis by blast
qed

text \<open>A record is signed for only when it carries its own digest.\<close>

lemma resolved_record: "resolve_handoff cy rd arg = Some (Inr (digest, Some rec)) \<Longrightarrow> compute_digest cy rec = Inr digest \<and> hr_digest rec = digest"
  by (auto simp: resolve_handoff_def bind_eq_Some_conv split: if_split_asm sum.split_asm)

text \<open>Once the largest integer of canonical JSON is stored for an operator, no default nonce can be signed.\<close>

theorem ack_exhausted:
  assumes "ad_nonces dk (ack_nonce_file env) = Some m" "MAX_SAFE_INTEGER \<le> uint (nonce_of m (pubkey_hex cy seed))" "aa_nonce a = None"
    "load_seed cy env (ad_keys dk) (aa_key a) = Some (Inr seed)"
  shows "ack_run cy env rd dk a \<noteq> Some (dk', AckSigned t w)"
proof
  assume "ack_run cy env rd dk a = Some (dk', AckSigned t w)"
  then obtain seed' digest decision where s: "load_seed cy env (ad_keys dk) (aa_key a) = Some (Inr seed')"
    "stored_nonce env dk (pubkey_hex cy seed') < ak_nonce t"
    "sign_ack cy digest decision (stored_nonce env dk (pubkey_hex cy seed') + 1) (case aa_note a of None \<Rightarrow> [] | Some n \<Rightarrow> n) seed' = Inr t"
    by (rule ack_run_signed [OF _ assms(3)])
  have "MAX_SAFE_INTEGER < uint (ak_nonce t)"
    using s(1,2) assms(1,2,4) by (simp add: stored_nonce_def word_less_alt)
  moreover have "safe (ak_nonce t)" using sign_ack_nonce(1,2) [OF s(3)] by simp
  ultimately show False by (simp add: safe_def)
qed

end
