(* ===== verification/LedgerTool.thy ===== *)
theory LedgerTool
  imports VerifySpec SessionReply
begin

text \<open>
  \<open>lictor-cli/src/cmd/ledger.rs\<close>: \<open>lictor ledger verify\<close>, which recomputes the chain of a ledger file and prints
  its summary, and \<open>lictor ledger append\<close>, which refuses a receipt that does not verify on its own.
\<close>

subsection \<open>The summary\<close>

record VerifyOut =
  vo_chain_ok :: bool
  vo_break_at :: "u32 option"
  vo_episodes :: u32
  vo_successes :: u32
  vo_stops :: u32
  vo_escalations :: u32
  vo_trips :: u32
  vo_fuse_ok :: u32
  vo_head :: string
  vo_run_id :: string
  vo_arm_id :: string
  vo_lines :: "string list"

text \<open>The first line that is not blank, when it is a ledger header.\<close>

definition ledger_header :: "Reads \<Rightarrow> string \<Rightarrow> Value option" where
  "ledger_header rf p = (case rf_text rf p of Inl _ \<Rightarrow> None
     | Inr t \<Rightarrow> (case find (\<lambda>l. trim l \<noteq> []) (lines_of t) of None \<Rightarrow> None
       | Some first \<Rightarrow> (case js_value (rf_json rf) first of Inl _ \<Rightarrow> None
         | Inr v \<Rightarrow> if value_str (value_get ''schema'' v) = Some LEDGER_SCHEMA then Some v else None)))"

definition header_field :: "Value option \<Rightarrow> string \<Rightarrow> string" where
  "header_field h k = (case h of None \<Rightarrow> [] | Some v \<Rightarrow> header_str v k)"

text \<open>\<open>{:.1}\<close> of a number that is not negative: the nearest tenth, ties to even.\<close>

definition tenths :: "f64 \<Rightarrow> int" where
  "tenths x = (case unpack x of
       VFin s m e \<Rightarrow> if 0 \<le> e then 10 * m * 2 ^ nat e
         else (let d = 2 ^ nat (- e); q = 10 * m div d; r = 10 * m mod d in
           if 2 * r < d \<or> (2 * r = d \<and> even q) then q else q + 1)
     | _ \<Rightarrow> 0)"

definition one_decimal :: "f64 \<Rightarrow> string" where
  "one_decimal x = (let t = nat (tenths x) in digits (t div 10) @ ''.'' @ digits (t mod 10))"

definition HUNDRED :: f64 where "HUNDRED = F64 0x4059000000000000"

definition success_percent :: "LedgerReport \<Rightarrow> f64" where
  "success_percent rep = (if lr_episodes rep = 0 then 0
     else HUNDRED * f_of_int (uint (lr_successes rep)) / f_of_int (uint (lr_episodes rep)))"

definition foreign_entries :: "LedgerEntry list \<Rightarrow> string \<Rightarrow> string \<Rightarrow> nat" where
  "foreign_entries es run_id arm_id = length (filter (\<lambda>e. le_run_id e \<noteq> run_id \<or> le_arm_id e \<noteq> arm_id) es)"

definition summary_lines :: "LedgerReport \<Rightarrow> LedgerEntry list \<Rightarrow> string \<Rightarrow> string \<Rightarrow> u32 \<Rightarrow> string list" where
  "summary_lines rep es run_id arm_id fuse_ok =
     (if lr_chain_ok rep then
        [''  episodes '' @ show_num (lr_episodes rep) @ ''   chain ok    success '' @ show_num (lr_successes rep) @ ''/''
           @ show_num (lr_episodes rep) @ '' ('' @ one_decimal (success_percent rep) @ ''%)   stops '' @ show_num (lr_stops rep)
           @ ''   escalated '' @ show_num (lr_escalations rep) @ ''   fuse_ok '' @ show_num fuse_ok @ ''/'' @ show_num (lr_episodes rep),
         ''  head '' @ lr_head rep @ ''   run '' @ sanitize run_id @ ''   arm '' @ sanitize arm_id]
        @ (if run_id \<noteq> [] \<and> 0 < foreign_entries es run_id arm_id
           then [''  warning: '' @ digits (foreign_entries es run_id arm_id) @ '' entries name a different run/arm than the header''] else [])
      else [''  ledger BROKEN at seq='' @ seq_or_unknown (lr_break_at rep)
         @ '' -- entries are missing or edited; this curve point cannot be trusted''])"

text \<open>\<open>None\<close> where recomputing a hash panics.\<close>

definition verify_file :: "Reads \<Rightarrow> Crypto \<Rightarrow> string \<Rightarrow> (string + VerifyOut) option" where
  "verify_file rf cy p = (case read_ledger (rf_json rf) p (rf_text rf p) of Inl e \<Rightarrow> Some (Inl e)
     | Inr entries \<Rightarrow> map_option (\<lambda>rep.
         let header = ledger_header rf p; run_id = header_field header ''run_id''; arm_id = header_field header ''arm_id'';
             fuse_ok = of_nat (length (filter le_fuse_ok entries)) in
         Inr \<lparr> vo_chain_ok = lr_chain_ok rep, vo_break_at = lr_break_at rep, vo_episodes = lr_episodes rep,
           vo_successes = lr_successes rep, vo_stops = lr_stops rep, vo_escalations = lr_escalations rep,
           vo_trips = lr_trips rep, vo_fuse_ok = fuse_ok, vo_head = lr_head rep, vo_run_id = run_id, vo_arm_id = arm_id,
           vo_lines = summary_lines rep entries run_id arm_id fuse_ok \<rparr>)
       (verify_ledger (cy_sha cy) entries))"

subsection \<open>The commands\<close>

record AppendOut =
  ap_seq :: u32
  ap_hash :: string
  ap_prev :: string
  ap_receipt_digest :: string
  ap_ledger :: string

datatype LedgerResult = LedgerVerified VerifyOut | LedgerUnreadable string | LedgerRefused "string list" | LedgerAppended AppendOut

definition ledger_verify_run :: "Reads \<Rightarrow> Crypto \<Rightarrow> string \<Rightarrow> (int \<times> LedgerResult) option" where
  "ledger_verify_run rf cy p = map_option (\<lambda>r. case r of Inl e \<Rightarrow> (1, LedgerUnreadable e)
     | Inr out \<Rightarrow> (if vo_chain_ok out then 0 else 1, LedgerVerified out)) (verify_file rf cy p)"

text \<open>
  \<open>append\<close> on the entries that \<open>append_ledger\<close> reads from the file, or \<open>None\<close> when there is no file.  An error
  of reading or writing leaves with exit code 3.  The result carries the new content of the ledger.
\<close>

definition ledger_append_run :: "Reads \<Rightarrow> Crypto \<Rightarrow> LedgerEntry list option \<Rightarrow> string option \<Rightarrow> string \<Rightarrow> string \<Rightarrow>
    (LedgerEntry list option \<times> int \<times> LedgerResult) option" where
  "ledger_append_run rf cy file io ledger receipt =
     (case read_file rf (rf_receipt rf) receipt of Inl e \<Rightarrow> Some (file, 3, LedgerUnreadable e)
      | Inr sr \<Rightarrow> Option.bind (verify_receipt cy sr None) (\<lambda>rep.
          if \<not> intact rep then Some (file, 1, LedgerRefused (vr_notes rep))
          else (case io of Some e \<Rightarrow> Some (file, 3, LedgerUnreadable (ledger @ '': '' @ e))
            | None \<Rightarrow> map_option (\<lambda>(es, e). (Some es, 0, LedgerAppended \<lparr> ap_seq = le_seq e, ap_hash = le_hash e,
                  ap_prev = le_prev e, ap_receipt_digest = le_receipt_digest e, ap_ledger = path_str ledger \<rparr>))
                (append_ledger (cy_sha cy) (case file of None \<Rightarrow> [] | Some es \<Rightarrow> es) sr))))"

subsection \<open>What the exit code means\<close>

theorem ledger_verify_exact:
  assumes "ledger_verify_run rf cy p = Some (code, r)"
  shows "code = 0 \<longleftrightarrow> (\<exists>es. read_ledger (rf_json rf) p (rf_text rf p) = Inr es \<and> ledger.linked (cy_sha cy) 0 0 ZERO_HASH es)"
    "read_ledger (rf_json rf) p (rf_text rf p) = Inr es \<Longrightarrow> \<exists>out. r = LedgerVerified out \<and>
       vo_break_at out = (if \<exists>k < length es. bad_entry (cy_sha cy) es k
          then Some (of_nat (LEAST k. k < length es \<and> bad_entry (cy_sha cy) es k)) else None) \<and>
       vo_successes out = of_nat (length (filter le_success es)) \<and> vo_stops out = of_nat (length (filter le_stopped es)) \<and>
       vo_escalations out = of_nat (length (filter le_escalated es)) \<and> vo_fuse_ok out = of_nat (length (filter le_fuse_ok es))"
proof -
  have *: "code = 0 \<longleftrightarrow> ledger.linked (cy_sha cy) 0 0 ZERO_HASH es" (is ?A)
    "\<exists>out. r = LedgerVerified out \<and>
       vo_break_at out = (if \<exists>k < length es. bad_entry (cy_sha cy) es k
          then Some (of_nat (LEAST k. k < length es \<and> bad_entry (cy_sha cy) es k)) else None) \<and>
       vo_successes out = of_nat (length (filter le_success es)) \<and> vo_stops out = of_nat (length (filter le_stopped es)) \<and>
       vo_escalations out = of_nat (length (filter le_escalated es)) \<and> vo_fuse_ok out = of_nat (length (filter le_fuse_ok es))" (is ?B)
    if e: "read_ledger (rf_json rf) p (rf_text rf p) = Inr es" for es
  proof -
    obtain rep where v: "verify_ledger (cy_sha cy) es = Some rep"
      using assms e by (cases "verify_ledger (cy_sha cy) es") (simp_all add: ledger_verify_run_def verify_file_def)
    have k: "lr_chain_ok rep \<longleftrightarrow> ledger.linked (cy_sha cy) 0 0 ZERO_HASH es"
      using verify_ledger_ok(1) [OF v] verify_ledger_linked [of "cy_sha cy" es] v by auto
    show ?A ?B using assms k by (auto simp: ledger_verify_run_def verify_file_def e v Let_def verify_ledger_exact [OF v] verify_ledger_counts [OF v] split: if_split_asm)
  qed
  show "code = 0 \<longleftrightarrow> (\<exists>es. read_ledger (rf_json rf) p (rf_text rf p) = Inr es \<and> ledger.linked (cy_sha cy) 0 0 ZERO_HASH es)"
  proof (cases "read_ledger (rf_json rf) p (rf_text rf p)")
    case (Inl e)
    then show ?thesis using assms by (auto simp: ledger_verify_run_def verify_file_def)
  next
    case (Inr es)
    then show ?thesis using *(1) by simp
  qed
  assume "read_ledger (rf_json rf) p (rf_text rf p) = Inr es"
  then show "\<exists>out. r = LedgerVerified out \<and>
       vo_break_at out = (if \<exists>k < length es. bad_entry (cy_sha cy) es k
          then Some (of_nat (LEAST k. k < length es \<and> bad_entry (cy_sha cy) es k)) else None) \<and>
       vo_successes out = of_nat (length (filter le_success es)) \<and> vo_stops out = of_nat (length (filter le_stopped es)) \<and>
       vo_escalations out = of_nat (length (filter le_escalated es)) \<and> vo_fuse_ok out = of_nat (length (filter le_fuse_ok es))"
    by (rule *(2))
qed

text \<open>\<open>append\<close> either leaves the ledger alone or adds one entry, for a receipt that verifies.\<close>

theorem ledger_append_safe:
  assumes "ledger_append_run rf cy old io p q = Some (new, code, r)"
  shows "code \<noteq> 0 \<Longrightarrow> new = old"
    "code = 0 \<Longrightarrow> \<exists>sr rep e. read_file rf (rf_receipt rf) q = Inr sr \<and> verify_receipt cy sr None = Some rep \<and> intact rep \<and>
       new = Some ((case old of None \<Rightarrow> [] | Some es \<Rightarrow> es) @ [e]) \<and> le_receipt_digest e = sr_body_digest sr \<and>
       (ledger.linked (cy_sha cy) 0 0 ZERO_HASH (case old of None \<Rightarrow> [] | Some es \<Rightarrow> es) \<longrightarrow>
        ledger.linked (cy_sha cy) 0 0 ZERO_HASH ((case old of None \<Rightarrow> [] | Some es \<Rightarrow> es) @ [e]))"
proof -
  let ?old = "case old of None \<Rightarrow> [] | Some es \<Rightarrow> es"
  show "code \<noteq> 0 \<Longrightarrow> new = old"
    using assms by (auto simp: ledger_append_run_def bind_eq_Some_conv split: sum.split_asm if_split_asm option.split_asm)
  assume "code = 0"
  then obtain sr rep es e where a: "read_file rf (rf_receipt rf) q = Inr sr" "verify_receipt cy sr None = Some rep" "intact rep"
    "append_ledger (cy_sha cy) ?old sr = Some (es, e)" "new = Some es"
    using assms by (auto simp: ledger_append_run_def bind_eq_Some_conv split: sum.split_asm if_split_asm option.split_asm)
  have l: "es = ?old @ [e]" using append_ledger_last [OF a(4)] by simp
  have "le_receipt_digest e = sr_body_digest sr"
    using a(4) ledger_entry_good(4) by (auto simp: append_ledger_def Let_def)
  then show "\<exists>sr rep e. read_file rf (rf_receipt rf) q = Inr sr \<and> verify_receipt cy sr None = Some rep \<and> intact rep \<and>
       new = Some (?old @ [e]) \<and> le_receipt_digest e = sr_body_digest sr \<and>
       (ledger.linked (cy_sha cy) 0 0 ZERO_HASH ?old \<longrightarrow> ledger.linked (cy_sha cy) 0 0 ZERO_HASH (?old @ [e]))"
    using a l append_ledger_linked [OF _ a(4)] by blast
qed

subsection \<open>What is printed\<close>

text \<open>The summary of a linked ledger holds no control character, whatever the file says.\<close>

lemma digits_printable: "list_all printable (digits n)"
proof -
  have "list_all is_digit (digits n)" by (rule digits_all)
  then show ?thesis by (auto simp: list_all_iff is_digit_code printable_def byte_of_def)
qed

lemma linked_head:
  assumes "ledger.linked sha 0 0 ZERO_HASH es" "es \<noteq> []" shows "\<exists>a. ledger.head_of ZERO_HASH es = sha a"
proof -
  have "\<not> bad_entry sha es (length es - 1)" using assms unfolding ledger_linked_bad by simp
  then have "LedgerEntry_recompute sha (last es) = Some (le_hash (last es))" using assms(2) by (simp add: bad_entry_def last_conv_nth)
  then show ?thesis using assms(2) by (auto simp: LedgerEntry_recompute_def chained_hash_Some ledger.head_of_last)
qed

theorem ledger_lines_printable:
  assumes "verify_file rf cy p = Some (Inr out)" "\<And>m. list_all printable (cy_sha cy m)" "utf8 (vo_run_id out)" "utf8 (vo_arm_id out)" "l \<in> set (vo_lines out)"
  shows "list_all printable l"
proof -
  obtain es rep where e: "read_ledger (rf_json rf) p (rf_text rf p) = Inr es" "verify_ledger (cy_sha cy) es = Some rep"
    using assms(1) by (auto simp: verify_file_def split: sum.split_asm)
  have lines: "vo_lines out = summary_lines rep es (vo_run_id out) (vo_arm_id out) (vo_fuse_ok out)"
    using assms(1) by (auto simp: verify_file_def e Let_def)
  have n: "list_all printable (show_num w)" for w :: "'a::len word" by (simp add: show_num_def digits_printable)
  have s: "list_all printable (sanitize (vo_run_id out))" "list_all printable (sanitize (vo_arm_id out))"
    using sanitize_bytes assms(3,4) by (auto simp: list_all_iff printable_def)
  have z: "list_all printable ZERO_HASH" by code_simp
  show ?thesis
  proof (cases "lr_chain_ok rep")
    case True
    note k = verify_ledger_ok [OF e(2) True]
    have "list_all printable (lr_head rep)"
    proof (cases "es = []")
      case False
      then show ?thesis using linked_head [OF k(1)] k(2) assms(2) by metis
    qed (use k(2) z in simp)
    moreover have "list_all printable (one_decimal x)" for x by (simp add: one_decimal_def Let_def digits_printable)
    ultimately show ?thesis
      using assms(5) n s True digits_printable unfolding lines summary_lines_def
      by (auto split: if_split_asm simp: printable_def byte_of_def)
  next
    case False
    then show ?thesis using assms(5) n unfolding lines summary_lines_def
      by (auto simp: seq_or_unknown_def printable_def byte_of_def split: option.split)
  qed
qed

text \<open>The printed percentage is the nearest tenth.\<close>

lemma div_nearest:
  assumes "0 < d"
  shows "\<bar>of_int (if 2 * (a mod d) < d \<or> (2 * (a mod d) = d \<and> even (a div d)) then a div d else a div d + 1) - of_int a / of_int d\<bar> \<le> (1 / 2 :: real)"
proof -
  have "a = a div d * d + a mod d" by simp
  then have "of_int a = of_int (a div d) * of_int d + (of_int (a mod d) :: real)" by (metis of_int_add of_int_mult)
  then have f: "of_int a / of_int d = of_int (a div d) + of_int (a mod d) / (of_int d :: real)" using assms by (simp add: field_simps)
  have b: "0 \<le> a mod d" "a mod d < d" using assms by simp_all
  define t where "t = real_of_int (a mod d) / of_int d"
  note f = f [folded t_def]
  show ?thesis
  proof (cases "2 * (a mod d) \<le> d")
    case True
    then have "2 * real_of_int (a mod d) \<le> of_int d" by (metis of_int_le_iff of_int_mult of_int_numeral)
    then have h: "t \<le> 1 / 2" "0 \<le> t" using assms b(1) by (simp_all add: t_def field_simps)
    have "t = 1 / 2" if "2 * (a mod d) = d"
      using that [symmetric] assms by (simp add: t_def)
    then show ?thesis using h True f by auto
  next
    case False
    then have "of_int d \<le> 2 * real_of_int (a mod d)" by (metis le_cases of_int_le_iff of_int_mult of_int_numeral)
    moreover have "real_of_int (a mod d) \<le> of_int d" using b(2) by simp
    ultimately have "1 / 2 \<le> t" "t \<le> 1" using assms by (simp_all add: t_def field_simps)
    then show ?thesis using False f by auto
  qed
qed

theorem tenths_nearest:
  assumes "is_finite x" "0 \<le> fval x" shows "\<bar>of_int (tenths x) - 10 * fval x\<bar> \<le> 1 / 2"
proof -
  obtain s m e where x: "unpack x = VFin s m e" "fval x = vreal s m e" "0 \<le> m" using unpack_fval [OF assms(1)] by metis
  have v: "fval x = of_int m * 2 powi e"
  proof (cases s)
    case True
    have "0 \<le> of_int m * (2::real) powi e" using x(3) by simp
    then show ?thesis using True x(2) assms(2) by (simp add: vreal_def)
  qed (use x(2) in \<open>simp add: vreal_def\<close>)
  show ?thesis
  proof (cases "0 \<le> e")
    case True
    then show ?thesis using v x(1) by (simp add: tenths_def power_int_def)
  next
    case False
    let ?d = "2 ^ nat (- e) :: int"
    have "2 powi e = 1 / (of_int ?d :: real)" using False by (simp add: power_int_def inverse_eq_divide power_one_over)
    then have w: "10 * fval x = of_int (10 * m) / of_int ?d" using v by simp
    have "tenths x = (if 2 * (10 * m mod ?d) < ?d \<or> (2 * (10 * m mod ?d) = ?d \<and> even (10 * m div ?d)) then 10 * m div ?d else 10 * m div ?d + 1)"
      using x(1) False unfolding tenths_def Let_def by simp
    then show ?thesis using div_nearest [of ?d "10 * m"] unfolding w by simp
  qed
qed

end
