(* ===== verification/DemoTools.thy ===== *)
theory DemoTools
  imports AckTool LedgerTool DemoVerify
begin

text \<open>Inputs for the operator's commands: a hexadecimal codec, a key directory and a handoff digest.\<close>

definition byte_hex :: "u8 \<Rightarrow> string" where
  "byte_hex b = [hex_digit (unat b div 16), hex_digit (unat b mod 16)]"

fun unhex :: "string \<Rightarrow> u8 list option" where
  "unhex [] = Some []"
| "unhex [c] = None"
| "unhex (c # d # s) = (if is_hexdigit c \<and> is_hexdigit d
     then map_option (Cons (of_nat (hex_val c * 16 + hex_val d))) (unhex s) else None)"

definition hex_crypto :: Crypto where
  "hex_crypto = demo_crypto \<lparr> cy_to_hex := concat \<circ> map byte_hex, cy_of_hex := unhex \<rparr>"

lemma hex_digit_ok: "n < 16 \<Longrightarrow> is_hexdigit (hex_digit n)"
proof -
  have "list_all (\<lambda>n. is_hexdigit (hex_digit n)) [0..<16]" by code_simp
  then show "n < 16 \<Longrightarrow> is_hexdigit (hex_digit n)" by (simp add: list_all_iff)
qed

lemma unhex_hex: "unhex (concat (map byte_hex bs)) = Some bs"
proof (induction bs)
  case (Cons b bs)
  have "unat b < 256" using unat_bound [of b] by simp
  then have n: "unat b div 16 < 16" "unat b mod 16 < 16" by simp_all
  have "hex_val (hex_digit (unat b div 16)) * 16 + hex_val (hex_digit (unat b mod 16)) = unat b" by (simp only: hex_val_digit [OF n(1)] hex_val_digit [OF n(2)] div_mult_mod_eq)
  then show ?case using Cons hex_digit_ok [OF n(1)] hex_digit_ok [OF n(2)] by (simp only: byte_hex_def list.map concat.simps append.simps unhex.simps) simp
qed simp

lemma unhex_length: "unhex s = Some bs \<Longrightarrow> length s = 2 * length bs"
  by (induction s arbitrary: bs rule: unhex.induct) (auto split: if_split_asm)

lemma demo_hex_codec: "hex_codec hex_crypto"
proof -
  have "length (concat (map byte_hex bs)) = 2 * length bs" for bs by (induction bs) (simp_all add: byte_hex_def)
  moreover have "list_all is_hexdigit (byte_hex b)" for b
    using unat_bound [of b] hex_digit_ok by (simp add: byte_hex_def)
  then have "list_all is_hexdigit (concat (map byte_hex bs))" for bs by (auto simp: list_all_iff)
  ultimately show ?thesis using unhex_hex unhex_length by (simp add: hex_codec_def hex_crypto_def)
qed

lemma hex_signs: "signs hex_crypto seed"
  by (simp add: signs_def hex_crypto_def unhex_hex demo_crypto_def)

definition demo_env_vars :: KeyEnv where
  "demo_env_vars = \<lparr> ke_lictor_keys = Some ''/k'', ke_home = None, ke_userprofile = None, ke_cwd = Some ''/w'', ke_io = (\<lambda>_. None) \<rparr>"

definition demo_seed :: "u8 list" where "demo_seed = replicate 32 7"

definition demo_key_files :: KeyFiles where "demo_key_files = [''o'' \<mapsto> cy_to_hex hex_crypto demo_seed @ [LF]]"

lemma demo_key_loads: "load_seed hex_crypto demo_env_vars demo_key_files ''o'' = Some (Inr demo_seed)"
  using seed_text_reads [OF demo_hex_codec, of demo_seed] by (simp add: load_seed_def demo_key_files_def demo_env_vars_def demo_seed_def)

definition demo_ack_disk :: AckDisk where
  "demo_ack_disk = \<lparr> ad_keys = demo_key_files, ad_nonces = (\<lambda>_. None), ad_tokens = (\<lambda>_. None) \<rparr>"

definition demo_ack_args :: AckArgs where
  "demo_ack_args = \<lparr> aa_handoff = replicate 64 (CHR ''A''), aa_decision = ''resume'', aa_key = ''o'', aa_note = None, aa_nonce = None, aa_out = None \<rparr>"

lemma demo_handoff: "resolve_handoff cy rd (replicate 64 (CHR ''A'')) = Some (Inr (replicate 64 (CHR ''a''), None))"
proof -
  have "is_hexdigit (CHR ''A'')" "lower_digit (CHR ''A'') = CHR ''a''" by code_simp+
  then have "is_hex64 (replicate 64 (CHR ''A''))" "map lower_digit (replicate 64 (CHR ''A'')) = replicate 64 (CHR ''a'')"
    by (simp_all only: is_hex64_def map_replicate length_replicate list_all_iff set_replicate_conv_if) simp_all
  then show ?thesis by (simp add: resolve_handoff_def)
qed

definition no_records :: "string \<Rightarrow> string + HandoffRecord" where "no_records p = Inl ''no file''"

lemma demo_ack_runs:
  obtains dk' t where "ack_run hex_crypto demo_env_vars rd demo_ack_disk demo_ack_args = Some (dk', AckSigned t None)"
proof -
  have *: "floatfree (struct_value (ack_core u)) \<longleftrightarrow> safe (ak_nonce u)" "keys_clean (struct_value (ack_core u))" for u
    using name_ok(5) by (simp_all add: ack_core_def safe_simps)
  have "\<exists>b. ack_signing_bytes u = Inr b" if "ak_nonce u = 1" for u
    using that * unfolding ack_signing_bytes_def canon_of_ok by (simp add: safe_def MAX_SAFE_INTEGER_def)
  then have "\<exists>t. sign_ack hex_crypto d c 1 [] demo_seed = Inr t" for d c
    by (auto simp: sign_ack_def fail_if_def chars_count_def Let_def split: sum.split)
      (metis AckToken.select_convs(5) Inl_Inr_False)
  then obtain t where t: "sign_ack hex_crypto (replicate 64 (CHR ''a'')) Resume 1 [] demo_seed = Inr t" by blast
  have n: "next_nonce demo_env_vars demo_ack_disk p q = Inr 1" for p q
    by (simp add: next_nonce_def load_nonce_map_def demo_ack_disk_def nonce_of_def sat_inc_def)
  have r: "snd (remember_ack_nonce demo_env_vars demo_ack_disk p q 1) = None" for p q
    by (simp add: remember_ack_nonce_def load_nonce_map_def demo_ack_disk_def nonce_of_def demo_env_vars_def)
  have k: "load_seed hex_crypto demo_env_vars (ad_keys demo_ack_disk) ''o'' = Some (Inr demo_seed)"
    using demo_key_loads by (simp add: demo_ack_disk_def)
  have "\<exists>dk'. ack_run hex_crypto demo_env_vars rd demo_ack_disk demo_ack_args = Some (dk', AckSigned t None)"
    using r by (simp add: ack_run_def demo_ack_args_def parse_decision_def k demo_handoff n t Let_def split_beta)
  then show thesis using that by blast
qed

text \<open>A ledger to append to.\<close>

lemma demo_appends:
  obtains sr new r where "ledger_append_run (one_receipt sr) demo_crypto None None ''l'' ''r'' = Some (new, 0, r)"
proof -
  obtain sr where sr: "sign_receipt demo_crypto demo_body [] = Inr sr" using demo_body_signed by blast
  obtain rep where r: "verify_receipt demo_crypto sr None = Some rep" "intact rep" using demo_body_intact [OF sr] by blast
  obtain es e where a: "append_ledger (cy_sha demo_crypto) [] sr = Some (es, e)"
    using signed_append [OF sr, of "cy_sha demo_crypto" "[]"] by auto
  have "read_file (one_receipt sr) (rf_receipt (one_receipt sr)) ''r'' = Inr sr" by simp
  then have "\<exists>new x. ledger_append_run (one_receipt sr) demo_crypto None None ''l'' ''r'' = Some (new, 0, x)"
    using r a by (simp add: ledger_append_run_def)
  then show thesis using that by blast
qed

end
