(* ===== verification/Further.thy ===== *)
theory Further
  imports Demo DemoReceipt DemoSession DemoCalib DemoReplay DemoTools Render
begin

text \<open>
  More properties of the modelled functions, each applied to a concrete value.
\<close>

text \<open>An admitted tick of a running fuse brakes when at least k of the last n detector outcomes, this one included, are hits.\<close>

theorem detector_hits_brake:
  assumes "FuseRt_inv cfg rt" "guard cfg rt inp = 0" "running_state (rt_state rt)"
    "unat (hy_k (fc_hyst cfg)) \<le> length (filter id
       (take (unat (hy_n (fc_hyst cfg))) (tick_hit cfg rt inp # Window_hist (unat (hy_n (fc_hyst cfg))) (rt_window rt))))"
  shows "sv_state (snd (decide cfg rt inp)) = Braking"
  using decide_stops [OF assms(1-3)] assms(4) windowed_window [OF assms(1,2)] by (simp add: word_le_nat_alt)

theorem detector_hits_brake_witness:
  "sv_state (snd (decide (demo_cfg Enforce) (demo_rt \<lparr> rt_window := \<lparr> win_bits = 7 \<rparr> \<rparr>) (demo_deliver [0, 0, 0]))) = Braking"
proof (rule detector_hits_brake)
  let ?rt = "demo_rt \<lparr> rt_window := \<lparr> win_bits = 7 \<rparr> \<rparr>"
  show "FuseRt_inv (demo_cfg Enforce) ?rt"
  proof -
    have "hy_n (fc_hyst (demo_cfg Enforce)) = 3" by (simp add: demo_cfg_def demo_hyst_def)
    moreover have "Window_inv 3 \<lparr> win_bits = 7 \<rparr>" by (simp add: Window_inv_def take_bit_eq_mask mask_eq_exp_minus_1)
    ultimately show ?thesis using demo_inv [of Enforce] by (simp add: FuseRt_inv_def MAX_OPERATORS_def)
  qed
  show "guard (demo_cfg Enforce) ?rt (demo_deliver [0, 0, 0]) = 0"
    using demo_guard_deliver [of Enforce] guard_cong [of ?rt demo_rt] by simp
  have w: "Window_hist 3 \<lparr> win_bits = 7 \<rparr> = [True, True, True]" by code_simp
  show "unat (hy_k (fc_hyst (demo_cfg Enforce))) \<le> length (filter id (take (unat (hy_n (fc_hyst (demo_cfg Enforce))))
      (tick_hit (demo_cfg Enforce) ?rt (demo_deliver [0, 0, 0]) #
        Window_hist (unat (hy_n (fc_hyst (demo_cfg Enforce)))) (rt_window ?rt))))"
    using w by (simp add: demo_cfg_def demo_hyst_def)
qed (simp add: running_state_def)

text \<open>A faulted fuse in Enforce mode repeats one action for the rest of the episode, the hold latched when it faulted: it does not chase a drifting position.\<close>

theorem fault_holds_still:
  assumes "rt_state rt = Fault" "fc_mode cfg = Enforce"
  shows "list_all (\<lambda>v. sv_action v = hold_row cfg rt) (snd (run_steps (decide cfg) rt inps))"
  using frozen.run_good [of rt "rt_hold rt" cfg inps] assms
    hold_row_cong [of rt "FuseRt_new \<lparr> rt_hold := rt_hold rt \<rparr>" cfg] by simp

theorem fault_holds_still_witness:
  "sv_action (snd (decide (demo_cfg Enforce) (demo_rt \<lparr> rt_state := Fault \<rparr>) demo_broken))
     = hold_row (demo_cfg Enforce) (demo_rt \<lparr> rt_state := Fault \<rparr>)"
  using fault_holds_still [of "demo_rt \<lparr> rt_state := Fault \<rparr>" "demo_cfg Enforce" "[demo_broken]"] by simp

text \<open>An admitted tick in Held or Escalated that carries an accepted resume re-arms the fuse on that very tick, with the reason RearmedAck.\<close>

theorem resume_rearms:
  assumes "FuseRt_inv cfg rt" "guard cfg rt inp = 0" "rt_state rt \<in> {Held, Escalated}"
    "ti_ack inp = Some a" "accepted_ack rt (Some a) = Some a" "va_decision a = Resume"
  shows "sv_state (snd (decide cfg rt inp)) = Armed \<and> sv_reason (snd (decide cfg rt inp)) = RC_RearmedAck"
  using decide_resume [OF assms] by simp

theorem resume_rearms_witness:
  "sv_reason (snd (decide (demo_cfg Observe) demo_held demo_resume)) = RC_RearmedAck"
  by (rule resume_rearms [OF demo_held_inv demo_guard_resume, where a = demo_ack, THEN conjunct2])
    (use demo_accepted in \<open>simp_all add: demo_held_def demo_resume_def demo_ack_def\<close>)

text \<open>In Enforce mode a running fuse that receives a chunk inside every armed limit, with a feasible brake, fewer than k hits in the window and clamp budget left, keeps running and emits the raw row bit for bit; unless it was still clearing down from a clamp, the source is the policy.\<close>

theorem no_cause_no_interference:
  assumes "FuseRt_inv cfg rt" "guard cfg rt inp = 0" "fc_mode cfg = Enforce" "ti_chunk inp = Some ch"
    "breaks_nothing cfg (ti_obs inp) ch" "\<forall>c < fc_dim cfg. f_key (fc_box_hi cfg ! c) \<noteq> 0"
    "bo_feasible (brake_check cfg (ingest cfg rt inp) (Some ch) (unat (ti_idx inp)))" "running_state (rt_state rt)"
    "length (filter id (take (unat (hy_n (fc_hyst cfg))) (tick_hit cfg rt inp # Window_hist (unat (hy_n (fc_hyst cfg))) (rt_window rt))))
       < unat (hy_k (fc_hyst cfg))"
    "rt_clamp_streak rt < hy_clamp_streak_to_brake (fc_hyst cfg)" "rt_clamps rt \<le> hy_max_clamps_per_episode (fc_hyst cfg)"
  shows "sv_action (snd (decide cfg rt inp)) = action_of_row (ChunkView_action ch (unat (ti_idx inp))) \<and>
    running_state (sv_state (snd (decide cfg rt inp))) \<and>
    (rt_state rt = Clamped \<or> sv_action_src (snd (decide cfg rt inp)) = Src_Policy)"
proof -
  have "sv_window_hits (snd (decide cfg rt inp)) < hy_k (fc_hyst cfg)"
    using assms(9) windowed_window [OF assms(1,2)] by (simp add: word_less_nat_alt)
  from decide_quiet [OF assms(1-8) this assms(10,11)] show ?thesis by (auto simp: running_state_def)
qed

theorem no_cause_no_interference_witness:
  "sv_action_src (snd (decide (demo_cfg Enforce) demo_rt (demo_deliver [0, 0, 0]))) = Src_Policy"
proof -
  have w: "Window_hist 3 (rt_window demo_rt) = [False, False, False]" by code_simp
  have "rt_state demo_rt = Clamped \<or> sv_action_src (snd (decide (demo_cfg Enforce) demo_rt (demo_deliver [0, 0, 0]))) = Src_Policy"
    by (rule no_cause_no_interference [OF demo_inv demo_guard_deliver demo_cfg_mode, where ch = "demo_chunk [0, 0, 0]",
          THEN conjunct2, THEN conjunct2])
      (use w demo_quiet in \<open>simp_all add: demo_deliver_def running_state_def demo_cfg_def demo_hyst_def\<close>)
  then show ?thesis by simp
qed

text \<open>In Enforce mode the source of every verdict is the one of its state, substituted says that the source is not the policy, and violation_reached_env is never set.\<close>

theorem substituted_means_not_policy:
  assumes "fc_mode cfg = Enforce"
  shows "let v = snd (decide cfg rt inp) in sv_action_src v = source_of (sv_state v) \<and>
    (sv_substituted v \<longleftrightarrow> sv_action_src v \<noteq> Src_Policy) \<and> \<not> sv_violation_reached_env v"
  using decide_enforce_src [OF assms, of rt inp] by simp

theorem substituted_means_not_policy_witness:
  "\<not> sv_violation_reached_env (snd (decide (demo_cfg Enforce) demo_rt demo_broken))"
  using substituted_means_not_policy [OF demo_cfg_mode, of demo_rt demo_broken] by (simp add: Let_def)

text \<open>The direction-preserving projection of a delivered chunk puts every row in the box: the leash and the reach pull move a coordinate between two points of the box, and the shrink factor covers the rounding.\<close>

theorem projection_keeps_box:
  assumes "FuseConfig_wf cfg" "has_bit (fc_tier0_enabled cfg) TRIP_WORKSPACE" "fc_clamp cfg = Project"
    "width_ok (fc_box_lo cfg) (fc_box_hi cfg) (fc_dim cfg)" "leash_ok cfg"
    "ChunkView_wf ch" "unat (cv_dim ch) = fc_dim cfg" "ChunkView_all_finite ch"
    "length (ov_pos obs) = fc_dim cfg" "in_fuse_box cfg (ov_pos obs)" "ChunkBuf_wf out" "i < unat (cv_horizon ch)"
  shows "\<exists>v. ChunkBuf_view (snd (check_chunk cfg obs ch out)) = Some v \<and> in_fuse_box cfg (ChunkView_action v i)"
  unfolding in_fuse_box_def by (rule check_chunk_keeps_box [OF assms(1-9) assms(10) [unfolded in_fuse_box_def] assms(11,12)])

theorem projection_keeps_box_witness:
  "\<exists>v. ChunkBuf_view (snd (check_chunk (demo_cfg Enforce) (demo_obs 0 0) (demo_chunk [0, 0, f_ten]) ChunkBuf_new)) = Some v \<and>
     in_fuse_box (demo_cfg Enforce) (ChunkView_action v 2)"
proof (rule projection_keeps_box [OF demo_cfg_wf])
  have b: "box_armed (demo_cfg Enforce)" by (rule demo_box)
  then show "has_bit (fc_tier0_enabled (demo_cfg Enforce)) TRIP_WORKSPACE" "fc_clamp (demo_cfg Enforce) = Project"
    "width_ok (fc_box_lo (demo_cfg Enforce)) (fc_box_hi (demo_cfg Enforce)) (fc_dim (demo_cfg Enforce))"
    "leash_ok (demo_cfg Enforce)" by (simp_all add: box_armed_def)
  show "in_fuse_box (demo_cfg Enforce) (ov_pos (demo_obs 0 0))" by (simp add: demo_obs_def demo_pos_in_box)
  show "ChunkView_all_finite (demo_chunk [0, 0, f_ten])" by code_simp
qed (simp_all add: demo_chunk_def demo_obs_def demo_cfg_def ChunkView_wf_def chunk_consts ChunkBuf_new_wf)

text \<open>The conformal detector trips exactly when some term of the gate has all of its channels available and every one of them over the threshold.\<close>

theorem detector_decides_gate:
  assumes "GateSpec_wf (cc_gate cal)" "\<forall>j \<in> channels (cc_mask cal AND sc_valid sc). \<not> is_nan (sc_z sc ! j)"
  shows "trip cal (fst (aggregate cal sc)) \<longleftrightarrow>
    (\<exists>i < unat (gs_n_terms (cc_gate cal)).
       gs_terms (cc_gate cal) ! i AND (cc_mask cal AND sc_valid sc) = gs_terms (cc_gate cal) ! i \<and>
       (\<forall>j \<in> channels (gs_terms (cc_gate cal) ! i). cc_tau cal < sc_z sc ! j))"
  by (rule trip_aggregate_iff [OF assms])

theorem detector_decides_gate_witness:
  "trip demo_cal (fst (aggregate demo_cal demo_scores)) \<longleftrightarrow>
    (\<exists>i < unat (gs_n_terms (cc_gate demo_cal)).
       gs_terms (cc_gate demo_cal) ! i AND (cc_mask demo_cal AND sc_valid demo_scores) = gs_terms (cc_gate demo_cal) ! i \<and>
       (\<forall>j \<in> channels (gs_terms (cc_gate demo_cal) ! i). cc_tau demo_cal < sc_z demo_scores ! j))"
  by (rule detector_decides_gate) (use demo_gate_wf demo_scores_ok in blast)+

text \<open>Printing a gate and parsing the names back gives the gate; so the names in a receipt determine the gate that ran.\<close>

theorem gate_round_trip:
  assumes "GateSpec_parse names = Inr g"
  shows "GateSpec_parse (GateSpec_names g) = Inr g"
  by (rule GateSpec_parse_names [OF GateSpec_parse_wf [OF assms]])

theorem gate_round_trip_witness:
  "GateSpec_parse (GateSpec_names (projr (GateSpec_parse [''acc|path_ineff'', ''tce'']))) = GateSpec_parse [''acc|path_ineff'', ''tce'']"
proof -
  have "GateSpec_parse [''acc|path_ineff'', ''tce''] = Inr (projr (GateSpec_parse [''acc|path_ineff'', ''tce'']))" by code_simp
  from gate_round_trip [OF this] this show ?thesis by simp
qed

text \<open>The bit window refines the list of the last n outcomes: after any pushes the hit count is the number of hits among the last n.\<close>

theorem window_counts_recent_hits:
  assumes "n \<le> 63" "Window_inv n w"
  shows "unat (Window_hits (foldl (\<lambda>w hit. Window_push w hit (mask n)) w hits))
    = length (filter id (take n (rev hits @ Window_hist n w)))"
proof -
  have m: "min n 63 = n" using assms(1) by simp
  have i: "Window_inv n (foldl (\<lambda>w hit. Window_push w hit (mask n)) w hits)"
    using win.pushes_inv [of n w hits] assms(2) by (simp add: m list_all_iff)
  have "Window_hist n (foldl (\<lambda>w hit. Window_push w hit (mask n)) w hits) = take n (rev hits @ Window_hist n w)"
    using win.pushes_hist [of n w hits] assms(2) by (simp add: m list_all_iff Window_hist_def)
  then show ?thesis using Window_hits_hist [OF i assms(1)] by simp
qed

theorem window_counts_recent_hits_witness:
  "unat (Window_hits (foldl (\<lambda>w hit. Window_push w hit (mask 3)) Window_new [True, True, False, True])) = 2"
  using window_counts_recent_hits [of 3 Window_new "[True, True, False, True]"]
  by (simp add: Window_inv_def Window_new_def Window_hist_def upt_rec)

text \<open>Two admitted ticks in a row are exactly one tick plus the missed ones apart: the counter t neither jumps nor wraps.\<close>

theorem time_is_continuous:
  assumes "guard cfg (fst (decide cfg rt inp)) inp' = 0"
  shows "unat (ov_t (ti_obs inp')) = unat (sv_t (snd (decide cfg rt inp))) + 1 + unat (ti_missed_ticks inp')"
  using decide_time [OF assms] by (simp add: decide_verdict)

theorem time_is_continuous_witness:
  "unat (sv_t (snd (decide (demo_cfg Observe) demo_rt (demo_deliver [0, 0, 0])))) = 0"
  using time_is_continuous [OF demo_second] by (simp add: demo_tick_def demo_obs_def)

text \<open>The tally that finish returns after an episode counts every tick once: the eight state counters add up to the number of ticks, which is the number of inputs.\<close>

theorem tally_adds_up:
  assumes "length inps < 2 ^ 32"
  shows "let t = Fuse_finish (fst (run_steps Fuse_step (Fuse_reset f init) inps)) in
    state_total t = length inps \<and> unat (ta_ticks t) = length inps"
proof -
  have s: "tally_sound (FuseRt_reset (fu_rt f) init)" "unat (rt_seq (FuseRt_reset (fu_rt f) init)) = 0"
    by (simp_all add: tally_sound_def FuseRt_reset_def Tally_default_def state_total_def)
  have "tally_sound (fst (run_steps (decide (fu_cfg f)) (FuseRt_reset (fu_rt f) init) inps)) \<and>
      unat (rt_seq (fst (run_steps (decide (fu_cfg f)) (FuseRt_reset (fu_rt f) init) inps))) = length inps"
    using run_tally_sound [OF s(1), of inps] s(2) assms by simp
  then show ?thesis
    by (simp add: Fuse_run Fuse_finish_def Fuse_reset_def tally_sound_def state_total_def Let_def)
qed

theorem tally_adds_up_witness:
  "unat (ta_ticks (Fuse_finish (fst (run_steps Fuse_step (Fuse_reset (Fuse_new (demo_cfg Enforce)) demo_init)
     [demo_deliver [0, 0, 0], demo_tick 1, demo_broken])))) = 3"
  using tally_adds_up [of "[demo_deliver [0, 0, 0], demo_tick 1, demo_broken]" "Fuse_new (demo_cfg Enforce)" demo_init]
  by (simp add: Let_def del: run_steps_Cons)

text \<open>A chunk that fill accepts is read back by view exactly as it was passed in, header and rows, and the buffer stays well formed.\<close>

theorem chunk_round_trip:
  assumes "ChunkBuf_wf b" "ChunkBuf_fill b seq t h d exec src = Inr b'"
  shows "ChunkBuf_wf b' \<and> ChunkBuf_view b' = Some \<lparr> cv_seq = seq, cv_t_emit = t, cv_horizon = h, cv_dim = d,
    cv_exec_steps = exec, cv_data = src \<rparr>"
  using ChunkBuf_fill_wf [OF assms] ChunkBuf_fill_view [OF assms(2)] by simp

theorem chunk_round_trip_witness:
  "\<exists>b'. ChunkBuf_fill ChunkBuf_new 7 2 3 1 2 [0, f_one, f_ten] = Inr b' \<and>
     ChunkBuf_view b' = Some \<lparr> cv_seq = 7, cv_t_emit = 2, cv_horizon = 3, cv_dim = 1, cv_exec_steps = 2, cv_data = [0, f_one, f_ten] \<rparr>"
proof -
  obtain b' where b: "ChunkBuf_fill ChunkBuf_new 7 2 3 1 2 [0, f_one, f_ten] = Inr b'"
    by (auto simp: ChunkBuf_fill_def Let_def chunk_consts fail_if_def)
  from chunk_round_trip [OF ChunkBuf_new_wf b] b show ?thesis by blast
qed

text \<open>The time bin of a tick is floor(t * t_grid / horizon) capped to the last bin, without overflow for any u32 tick and horizon, and always an index of the table.\<close>

theorem time_bin_exact:
  assumes "0 < t_grid" "0 < h"
  shows "bin_of t h t_grid = min (unat t * unat t_grid div unat h) (unat t_grid - 1) \<and> bin_of t h t_grid < unat t_grid"
  using bin_of_exact [OF assms, of t] bin_of_less [OF assms(1), of t h] by blast

theorem time_bin_exact_witness: "bin_of (- 1) 300 100 = 99"
  using time_bin_exact [of 100 300 "- 1"] by (simp add: unsigned_minus_1_eq_mask mask_eq_exp_minus_1)

text \<open>The names printed for a trip mask read back to its sixteen defined bits.\<close>

theorem trip_names_round_trip:
  "or_all (map (\<lambda>n. the (TripMask_from_name n)) (TripMask_names m)) = take_bit 16 m"
  by (rule TripMask_names_read)

text \<open>The canonical bytes of a JSON value determine the value: no two well-formed values that the profile accepts have the same canonical text, so a digest over the text binds every key, number and string.\<close>

theorem canonical_text_unique:
  assumes "Value_wf v" "Value_wf w" "canon_of v = Inr a" "canon_of w = Inr a"
  shows "v = w"
  by (rule canon_injective [OF canon_of_Inr [OF assms(3)] canon_of_Inr [OF assms(4)] assms(1,2)])

theorem canonical_text_unique_witness:
  "\<exists>a. canon_of demo_value = Inr a \<and> (\<forall>w. Value_wf w \<longrightarrow> canon_of w = Inr a \<longrightarrow> w = demo_value)"
proof -
  obtain a where "canon_of demo_value = Inr a" using demo_value_canon by blast
  with canonical_text_unique [OF _ demo_value_wf, of _ a] show ?thesis by blast
qed

text \<open>A text parses as a 64-bit float exactly when it is the text that the encoder prints for that bit pattern: sixteen lower-case hexadecimal digits, NaN payloads and signed zeros included.\<close>

theorem f64_hex_exact: "f64_from_hex s = Inr x \<longleftrightarrow> s = f64_to_hex x"
  using f64_hex_round_trip f64_text_round_trip by blast

text \<open>When verify_ledger answers, it accepts exactly the files whose entries are numbered from 0, linked from the genesis and correctly hashed; otherwise break_at is the position of the first entry that is not. The four counters are the numbers of entries with the respective flag.\<close>

theorem ledger_break_exact:
  assumes "verify_ledger sha es = Some r"
  shows "lr_break_at r = (if \<exists>k < length es. bad_entry sha es k
        then Some (of_nat (LEAST k. k < length es \<and> bad_entry sha es k)) else None) \<and>
    lr_chain_ok r = (lr_break_at r = None) \<and> lr_successes r = of_nat (length (filter le_success es)) \<and>
    lr_trips r = of_nat (length (filter le_tripped es)) \<and> lr_stops r = of_nat (length (filter le_stopped es)) \<and>
    lr_escalations r = of_nat (length (filter le_escalated es))"
  using verify_ledger_exact [OF assms] verify_ledger_counts [OF assms] by blast

theorem ledger_break_exact_witness:
  "\<exists>es r. append_all id [] [demo_signed, demo_signed] = Some es \<and>
     verify_ledger id [es ! 1] = Some r \<and> lr_break_at r = Some 0 \<and> \<not> lr_chain_ok r"
proof -
  obtain es where es: "append_all id [] [demo_signed, demo_signed] = Some es" using demo_ledger by blast
  have q: "le_seq (es ! 1) = 1" by (rule demo_ledger_seq [OF es])
  obtain r where r: "verify_ledger id [es ! 1] = Some r"
    using q by (simp add: verify_ledger_def ledger_step_def)
  have b: "bad_entry id [es ! 1] 0" using q by (simp add: bad_entry_def)
  then have "(LEAST k. k < length [es ! 1] \<and> bad_entry id [es ! 1] k) = 0" by (intro Least_equality) simp_all
  with ledger_break_exact [OF r] b have "lr_break_at r = Some 0" "\<not> lr_chain_ok r" by auto
  then show ?thesis using es r by blast
qed

text \<open>A ledger written by appending receipt after receipt to an empty file verifies: the chain is unbroken, it has one entry per receipt, and its counters and head are those of its entries.\<close>

theorem ledger_of_receipts_verifies:
  assumes "append_all sha [] srs = Some es"
  shows "\<exists>r. verify_ledger sha es = Some r \<and> lr_chain_ok r \<and> lr_break_at r = None \<and>
    lr_episodes r = of_nat (length srs) \<and> lr_head r = (if es = [] then ZERO_HASH else le_hash (last es))"
  using append_all_linked [OF _ assms] verify_ledger_linked [of sha es] by (simp add: ledger.head_of_last)

theorem ledger_of_receipts_verifies_witness:
  "\<exists>es r. append_all id [] [demo_signed, demo_signed] = Some es \<and> verify_ledger id es = Some r \<and> lr_chain_ok r \<and> lr_episodes r = 2"
proof -
  obtain es where es: "append_all id [] [demo_signed, demo_signed] = Some es" using demo_ledger by blast
  from ledger_of_receipts_verifies [OF this] es show ?thesis by auto
qed

text \<open>verify_ack accepts a token exactly when its operator is listed in one of the first 256 slots, its note is at most 200 characters, its schema is the handoff schema, its signature over the canonical token verifies under the operator key, it names the digest of the pending handoff, and its nonce exceeds the last one of that operator; the acknowledgement it yields carries the decision, slot, nonce and handoff number.\<close>

theorem ack_accepted_exactly:
  "verify_ack cy t ops pending seq nonces = Inr va \<longleftrightarrow>
     (\<exists>slot bytes. position (\<lambda>o'. o' = ak_operator t) ops = Some slot \<and> slot < 256 \<and>
        chars_count (ak_note t) \<le> MAX_NOTE_CHARS \<and> ak_schema t = HANDOFF_SCHEMA \<and>
        ack_signing_bytes t = Inr bytes \<and> verify_bytes cy (ak_operator t) (ak_sig t) bytes = Inr () \<and>
        pending = Some (ak_handoff_digest t) \<and> (if slot < length nonces then nonces ! slot else 0) < ak_nonce t \<and>
        va = \<lparr> va_decision = ak_decision t, va_operator_slot = of_nat slot, va_nonce = ak_nonce t, va_handoff_seq = seq \<rparr>)"
  by (rule verify_ack_iff)

text \<open>A token that a listed operator signs for the pending handoff with a fresh nonce is accepted, and the acknowledgement the fuse receives carries the signed decision.\<close>

theorem signed_ack_accepted:
  assumes "signs cy seed" "sign_ack cy digest decision nonce note seed = Inr t"
    "position (\<lambda>o'. o' = pubkey_hex cy seed) operators = Some slot" "slot < 256"
    "(if slot < length nonces then nonces ! slot else 0) < nonce"
  shows "verify_ack cy t operators (Some digest) seq nonces
    = Inr \<lparr> va_decision = decision, va_operator_slot = of_nat slot, va_nonce = nonce, va_handoff_seq = seq \<rparr>"
  by (rule sign_ack_verifies [OF assms])

theorem signed_ack_accepted_witness:
  "\<exists>t. sign_ack demo_crypto ''d'' Resume 3 ''ok'' [] = Inr t \<and>
     verify_ack demo_crypto t [pubkey_hex demo_crypto []] (Some ''d'') 0 [2]
       = Inr \<lparr> va_decision = Resume, va_operator_slot = 0, va_nonce = 3, va_handoff_seq = 0 \<rparr>"
proof -
  obtain t where t: "sign_ack demo_crypto ''d'' Resume 3 ''ok'' [] = Inr t" using demo_ack_signed by blast
  have p: "position (\<lambda>o'. o' = pubkey_hex demo_crypto []) [pubkey_hex demo_crypto []] = Some 0" by simp
  from signed_ack_accepted [OF demo_signs t p, of "[2]"] t show ?thesis by simp
qed

text \<open>Signing a consistent body and verifying the result under the signing key reports the receipt as intact: schema, signature, digest, embedded ticks, envelope digest and counts all pass.\<close>

theorem signed_receipt_intact:
  assumes "signs cy seed" "consistent cy body" "sign_receipt cy body seed = Inr sr"
  shows "\<exists>r. verify_receipt cy sr (Some (pubkey_hex cy seed)) = Some r \<and> intact r"
  by (rule sign_receipt_verifies [OF assms])

theorem signed_receipt_intact_witness:
  "\<exists>sr r. sign_receipt demo_crypto demo_body [] = Inr sr \<and>
     verify_receipt demo_crypto sr (Some (pubkey_hex demo_crypto [])) = Some r \<and> intact r"
proof -
  obtain sr where s: "sign_receipt demo_crypto demo_body [] = Inr sr" using demo_body_signed by blast
  from signed_receipt_intact [OF demo_signs demo_body_consistent s] s show ?thesis by blast
qed

text \<open>A verifier reports fuse_ok only for an enforcing fuse that let no Tier-0 violation reach the environment, did not end in Fault, had a calibration digest if Tier 1 was armed, and did not record an ephemeral key; and the flag in the body says the same.\<close>

theorem fuse_ok_means:
  assumes "verify_receipt cy sr expect = Some r"
  shows "vr_fuse_ok r \<longleftrightarrow> bo_fuse_ok (sr_body sr) \<and> bb_mode (bo_budget (sr_body sr)) = Enforce \<and>
    vc_violations_reached_env (bo_counts (sr_body sr)) = 0 \<and> vc_terminal_state (bo_counts (sr_body sr)) \<noteq> Fault \<and>
    (bb_tier1_armed (bo_budget (sr_body sr)) \<longrightarrow> bo_calibration_digest (sr_body sr) \<notin> {None, Some []}) \<and>
    NOTE_EPHEMERAL_KEY \<notin> set (bo_fuse_notes (sr_body sr))"
  unfolding verify_receipt_parts(7) [OF assms] evaluate_fuse_ok
  by (cases "bb_mode (bo_budget (sr_body sr))") auto

theorem fuse_ok_means_witness:
  "\<exists>sr r. sign_receipt demo_crypto demo_body [] = Inr sr \<and> verify_receipt demo_crypto sr None = Some r \<and> \<not> vr_fuse_ok r"
proof -
  obtain sr where s: "sign_receipt demo_crypto demo_body [] = Inr sr" using demo_body_signed by blast
  obtain r where r: "verify_receipt demo_crypto sr None = Some r" using verify_receipt_total by blast
  have "bb_mode (bo_budget (sr_body sr)) = Observe" using s by (rule demo_body_observes)
  with fuse_ok_means [OF r] s r show ?thesis by auto
qed

text \<open>Without an open episode no tick is answered with a policy action: every verdict is a fault hold with the schema bit set, whatever the state of the fuse and of the staging buffers.\<close>

theorem no_episode_no_policy:
  assumes "ss_ep s = None" "handle ht w s (Req_Tick t) = Some (s', Resp_Verdict m)"
  shows "fault_hold m"
  by (rule handle_no_episode [OF assms(2,1)])

theorem no_episode_no_policy_witness:
  "\<exists>s s' m. ss_ep s = None \<and> handle demo_host demo_world s (Req_Tick (demo_tick_req 2 None)) = Some (s', Resp_Verdict m) \<and> fault_hold m"
proof -
  obtain s s' m where d: "ss_ep s = None" "handle demo_host demo_world s (Req_Tick (demo_tick_req 2 None)) = Some (s', Resp_Verdict m)"
    by (rule demo_phantom)
  from no_episode_no_policy [OF d] d show ?thesis by blast
qed

text \<open>Two runs of one session over the same requests, under different clocks, file systems and latency histograms, answer with the same verdicts, chain values and handoffs included; only the reported duration may differ.\<close>

theorem session_clock_free:
  assumes "ht_crypto ht' = ht_crypto ht" "map snd reqs = map snd reqs'"
    "session_run ht s reqs = Some (s1, rs)" "session_run ht' s reqs' = Some (s2, rs')"
  shows "map verdict_view rs = map verdict_view rs'"
  using same_run [OF assms(1) same_refl assms(2-4)] by blast

theorem session_clock_free_witness:
  "\<exists>m m'. verdict_view (Resp_Verdict m) = verdict_view (Resp_Verdict m') \<and> vm_verdict_ns m = 0 \<and> vm_verdict_ns m' = 7"
proof -
  obtain s s' m t' m' where h: "handle demo_host demo_world s (Req_Tick (demo_tick_req 2 None)) = Some (s', Resp_Verdict m)"
    "handle demo_host slow_world s (Req_Tick (demo_tick_req 2 None)) = Some (t', Resp_Verdict m')"
    "vm_verdict_ns m = 0" "vm_verdict_ns m' = 7"
    by (rule demo_ticked_twice)
  have "map verdict_view [Resp_Verdict m] = map verdict_view [Resp_Verdict m']"
    by (rule session_clock_free [where ht = demo_host and ht' = demo_host and s = s and ?s1.0 = s' and ?s2.0 = t'
        and reqs = "[(demo_world, Req_Tick (demo_tick_req 2 None))]" and reqs' = "[(slow_world, Req_Tick (demo_tick_req 2 None))]"])
      (simp_all add: h(1,2))
  then show ?thesis using h(3,4) by auto
qed

text \<open>The table compiled from a calibration file gives the detector the numbers of the file: the score of a gated, valid channel j at tick t is the feature minus the centre over the scale at row bin(t) and column j of the flat arrays of the file, inside the arrays, with a finite centre and a finite positive scale; the table is well formed, its digest bytes are those of the file, and an envelope accepts it exactly when it is disarmed or the horizons agree.\<close>

theorem compiled_calibration_scores:
  assumes "CalibrationFile_compile f = Inr c" "j < NFEAT" "has_bit (cc_mask c AND sc_valid sc) (push_bit j 1)"
  shows "let i = bin_of t (cf_horizon_ticks f) (cf_t_grid f) * NFEAT + j; center = fa_data (cf_center f) ! i; scale = fa_data (cf_scale f) ! i in
    i < length (fa_data (cf_center f)) \<and> i < length (fa_data (cf_scale f)) \<and>
    sc_z (standardise c t sc) ! j = (sc_f sc ! j - center) / scale \<and> is_finite center \<and> is_finite scale \<and> 0 < scale \<and>
    CalibrationC_wf c \<and> cc_digest c = hex32 (cf_digest f) \<and>
    (check_calibration c m = Inr ()) = (\<not> CalibrationC_armed c \<or> cf_horizon_ticks f = em_horizon_ticks m)"
  unfolding Let_def
  using compiled_score [OF assms] compiled_ok [OF assms(1)] CalibrationFile_compile_Inr(6,7) [OF assms(1)]
  by (simp add: array_ok_def)

theorem compiled_calibration_scores_witness:
  "\<exists>c. CalibrationFile_compile demo_file = Inr c \<and> cc_digest c = hex32 (replicate 64 (CHR ''a'')) \<and>
     sc_z (standardise c 299 demo_scores) ! 0 = (sc_f demo_scores ! 0 - 0) / f_one"
proof -
  obtain c where c: "CalibrationFile_compile demo_file = Inr c" "cc_mask c = 1" by (rule demo_file_compiles)
  have "has_bit (cc_mask c AND sc_valid demo_scores) (push_bit 0 1)" by (simp add: c(2) demo_scores_def has_bit_def)
  from compiled_calibration_scores [OF c(1) _ this, of 299 undefined]
  have "let i = bin_of 299 300 1 * NFEAT + 0 in i < 12 \<and> sc_z (standardise c 299 demo_scores) ! 0 = (sc_f demo_scores ! 0 - replicate 12 0 ! i) / (replicate 12 f_one ! i) \<and>
      cc_digest c = hex32 (replicate 64 (CHR ''a''))"
    by (simp add: NFEAT_def Let_def demo_file_def demo_zeros_def demo_ones_def)
  then show ?thesis using c(1) by (simp add: Let_def)
qed

text \<open>Whatever text a receipt, an operator or a host supplies as a value, the line that is printed holds no escape and no other control byte, the sanitized value holds no control character of either set and is its own sanitized form, and at most 200 of its characters are printed.\<close>

theorem printed_line_is_clean:
  assumes "utf8 value" "list_all printable label"
  shows "list_all printable (kv label value) \<and> list_all (\<lambda>c. \<not> is_control c) (utf8_chars (sanitize value)) \<and>
    sanitize (sanitize value) = sanitize value \<and> char_count (cap (sanitize value) MAX_VALUE) \<le> MAX_VALUE"
proof -
  have "utf8 (sanitize value)" using sanitize_clean(1) [OF assms(1)] by (simp add: sanitize_def utf8_concat)
  then show ?thesis
    using kv_printable [OF assms] sanitize_clean(2) [OF assms(1)] sanitize_idem [OF assms(1)] cap_count [of "sanitize value" MAX_VALUE]
    by (simp add: utf8_sanitized [OF assms(1)] MAX_VALUE_def)
qed

theorem printed_line_is_clean_witness:
  "let v = ''a'' @ ESC @ ''[31mb'' @ of_bytes [7, 10] @ ''c'' in sanitize v = ''ab c'' \<and> list_all printable (kv ''note'' v)"
proof -
  let ?v = "''a'' @ ESC @ ''[31mb'' @ of_bytes [7, 10] @ ''c''"
  have "utf8 ?v \<and> list_all printable ''note'' \<and> sanitize ?v = ''ab c''" by code_simp
  with printed_line_is_clean [of ?v "''note''"] show ?thesis by (simp add: Let_def)
qed

text \<open>Over any sequence of runs of lictor ack with the default nonce that each sign and record, the tokens of one operator carry strictly growing nonces, so none of them is refused as a replay of an earlier one.\<close>

theorem operator_nonces_grow:
  assumes "ack_all cy env rd dk as = Some (dk', map (\<lambda>t. AckSigned t None) ts)" "\<forall>a \<in> set as. aa_nonce a = None"
  shows "sorted_wrt (\<lambda>t u. ak_operator t = ak_operator u \<longrightarrow> ak_nonce t < ak_nonce u) ts"
  by (rule ack_nonces_grow [OF assms])

theorem operator_nonces_grow_witness:
  "\<exists>dk' t. ack_all hex_crypto demo_env_vars no_records demo_ack_disk [demo_ack_args] = Some (dk', map (\<lambda>t. AckSigned t None) [t]) \<and>
     sorted_wrt (\<lambda>t u. ak_operator t = ak_operator u \<longrightarrow> ak_nonce t < ak_nonce u) [t]"
proof -
  obtain dk' t where "ack_run hex_crypto demo_env_vars no_records demo_ack_disk demo_ack_args = Some (dk', AckSigned t None)" by (rule demo_ack_runs)
  then have r: "ack_all hex_crypto demo_env_vars no_records demo_ack_disk [demo_ack_args] = Some (dk', map (\<lambda>t. AckSigned t None) [t])" by simp
  moreover have "\<forall>a \<in> set [demo_ack_args]. aa_nonce a = None" by (simp add: demo_ack_args_def)
  ultimately show ?thesis using operator_nonces_grow [OF r] by blast
qed

text \<open>The key that key init stores is the one that key pub shows and the server loads, with the public key that was printed; no other file changes, an existing file is replaced only with force, and a path on a Windows mount is used only when that was confirmed.\<close>

theorem stored_key_loads:
  assumes "hex_codec cy" "length fresh = 32" "key_run cy env fresh fs (KeyInit out role force i_know) = Some (fs', 0, Inr ko)"
    "p = (case out of Some p \<Rightarrow> p | None \<Rightarrow> key_default_path env role)"
  shows "key_run cy env other fs' (KeyPub (Some p)) = Some (fs', 0, Inr \<lparr> ko_pubkey = ko_pubkey ko, ko_path = ko_path ko, ko_role = [], ko_mode = [] \<rparr>) \<and>
    resolve_key cy env fs' (Some p) = Some (Inr (Some fresh)) \<and> ko_pubkey ko = pubkey_hex cy fresh \<and>
    (\<forall>q. q \<noteq> p \<longrightarrow> fs' q = fs q) \<and> (fs p \<noteq> None \<longrightarrow> force) \<and> (is_drvfs env p \<longrightarrow> i_know)"
  using key_init_stores [OF assms] by blast

theorem stored_key_loads_witness:
  "\<exists>fs' ko. key_run hex_crypto demo_env_vars demo_seed (\<lambda>_. None) (KeyInit (Some ''o'') ''signer'' False False) = Some (fs', 0, Inr ko) \<and>
     resolve_key hex_crypto demo_env_vars fs' (Some ''o'') = Some (Inr (Some demo_seed))"
proof -
  have d: "\<not> is_drvfs demo_env_vars ''o''" by code_simp
  obtain fs' ko where k: "key_run hex_crypto demo_env_vars demo_seed (\<lambda>_. None) (KeyInit (Some ''o'') ''signer'' False False) = Some (fs', 0, Inr ko)"
    using d by (simp add: key_run_def save_seed_def Let_def) (simp add: demo_env_vars_def)
  have "length demo_seed = 32" "''o'' = (case Some ''o'' of Some p \<Rightarrow> p | None \<Rightarrow> key_default_path demo_env_vars ''signer'')" by (simp_all add: demo_seed_def)
  with stored_key_loads [OF demo_hex_codec this(1) k this(2)] k show ?thesis by blast
qed

text \<open>The command lictor ledger append either leaves the ledger as it was, or, with exit code 0, adds exactly one entry, for a receipt that verifies on its own and whose digest the entry carries; a linked ledger stays linked.\<close>

theorem ledger_append_guards:
  assumes "ledger_append_run rf cy old io p q = Some (new, code, r)"
  shows "(code \<noteq> 0 \<longrightarrow> new = old) \<and> (code = 0 \<longrightarrow> (\<exists>sr rep e. read_file rf (rf_receipt rf) q = Inr sr \<and>
       verify_receipt cy sr None = Some rep \<and> intact rep \<and>
       new = Some ((case old of None \<Rightarrow> [] | Some es \<Rightarrow> es) @ [e]) \<and> le_receipt_digest e = sr_body_digest sr \<and>
       (ledger.linked (cy_sha cy) 0 0 ZERO_HASH (case old of None \<Rightarrow> [] | Some es \<Rightarrow> es) \<longrightarrow>
        ledger.linked (cy_sha cy) 0 0 ZERO_HASH ((case old of None \<Rightarrow> [] | Some es \<Rightarrow> es) @ [e]))))"
  using ledger_append_safe [OF assms] by blast

theorem ledger_append_guards_witness:
  "\<exists>sr new r es. ledger_append_run (one_receipt sr) demo_crypto None None ''l'' ''r'' = Some (new, 0, r) \<and> new = Some es \<and> length es = 1"
proof -
  obtain sr new r where "ledger_append_run (one_receipt sr) demo_crypto None None ''l'' ''r'' = Some (new, 0, r)" by (rule demo_appends)
  moreover from ledger_append_guards [OF this] obtain e where "new = Some [e]" by auto
  ultimately show ?thesis by (metis One_nat_def length_Cons list.size(3))
qed

end
