(* ===== verification/Spec2Isabelle.thy ===== *)
theory Spec2Isabelle
  imports Demo DemoReceipt DemoSession DemoReplay DemoCalib DemoVerify DemoServe DemoCrash DemoTools MetricsSpec Curve Render Further
begin

text \<open>
  Lictor is a runtime monitor between a learned robot policy and the robot.  The policy delivers
  chunks of actions; on every control tick the fuse (\<open>lictor-fuse\<close>) reads the observation, checks
  the chunk against a compiled safety envelope, scores it with a conformal failure detector, steps
  an escalation state machine and emits the action together with a verdict.  The episode session
  (\<open>lictor-runtime\<close>) drives the fuse, and the receipts (\<open>lictor-receipt\<close>) hash-chain the verdicts.

  \<^bold>\<open>Theories and the sources they model.\<close>
    \<^item> \<open>Prelude\<close>: machine integers, saturating counters, array operations (\<open>blit\<close>, \<open>slice\<close>) and the
      automation the components share.  \<open>Machine\<close>: runs of a step function and the locales for their
      invariants, monotone relations and budgets.
    \<^item> \<open>Float64\<close>, \<open>Rounding\<close>: an executable IEEE binary64 on bit patterns, proved correctly rounded.
      \<open>Fmath\<close> is \<open>lictor-core/src/fmath.rs\<close>, the float helpers of the decision path.
    \<^item> \<open>Chunk\<close> (\<open>chunk.rs\<close>), \<open>Verdict\<close> (\<open>state.rs\<close>, \<open>ack.rs\<close>, \<open>verdict.rs\<close>, \<open>reason.rs\<close>), \<open>Scores\<close>
      (\<open>scores.rs\<close> and \<open>GateSpec\<close>), \<open>Envelope\<close> (\<open>envelope.rs\<close>: validation and \<open>compile\<close>): the data model
      of \<open>lictor-core\<close>.
    \<^item> \<open>Window\<close>, \<open>Tier0\<close>, \<open>Brake\<close>, \<open>Conformal\<close>, \<open>Tier1\<close>: the detector stages of \<open>lictor-detect\<close>, one
      theory per file.
    \<^item> \<open>Tally\<close> (\<open>verdict.rs\<close>, \<open>tally.rs\<close> and the runtime state of \<open>fuse.rs\<close>), \<open>Fsm\<close> (\<open>fsm.rs\<close>), \<open>Fuse\<close>
      (\<open>fuse.rs\<close>): the fuse.  \<open>decide\<close> is composed of its stages as in the source: the guard, the
      guard's own tick, ingestion, Tier 0, scores, window, state machine, action, tally.
    \<^item> \<open>FuseRun\<close> proves the runtime invariant, \<open>FuseSafety\<close> interprets the locales of \<open>Machine\<close> on
      \<open>decide\<close> (stop actions, latching, monotone nonces, the stop budget), \<open>FuseBox\<close> follows the box
      through an episode and \<open>FuseView\<close> describes the emitted row.
    \<^item> \<open>Canon\<close> (\<open>lictor-canon\<close>: \<open>jcs.rs\<close>, \<open>f64enc.rs\<close>, \<open>digest.rs\<close>) is the canonical JSON, \<open>Serial\<close> the
      serialised form of scalars, enums and float arrays.
    \<^item> \<open>Chain\<close> (\<open>lictor-receipt/src/tick.rs\<close>), \<open>Handoff\<close> (\<open>handoff.rs\<close> and the signature helpers of
      \<open>sign.rs\<close>), \<open>Receipt\<close> (\<open>body.rs\<close>, \<open>sign.rs\<close>), \<open>Ledger\<close> (\<open>ledger.rs\<close>): the evidence.  The locale
      \<open>hash_chain\<close> of \<open>Chain\<close> is interpreted on verdict events, timing events and ledger entries.
      \<open>Signable\<close> computes when a body can be signed.
    \<^item> \<open>Wire\<close> (\<open>lictor-runtime/src/wire.rs\<close> and the staging of \<open>session.rs\<close>), \<open>Session\<close> (\<open>session.rs\<close>, with what it
      calls of \<open>episode.rs\<close> and \<open>latency.rs\<close>): the messages and the session that handles them.  \<open>SessionInv\<close>
      proves its invariant over the reachable sessions, \<open>SessionReceipt\<close> that the body it builds is
      consistent, \<open>SessionRun\<close> and \<open>SessionReply\<close> what runs of requests and replies guarantee.
      \<open>SessionClock\<close> relates two runs under different clocks and keys, and \<open>Replay\<close>
      (\<open>lictor-cli/src/cmd/replay.rs\<close>) is the replay of a trace, which rests on it.
    \<^item> \<open>EventFiles\<close> is the text of the tick, timing and ledger files and how they are read (\<open>episode.rs\<close>,
      \<open>ledger.rs\<close>, \<open>tick.rs\<close>).  \<open>Verify\<close> (\<open>lictor-cli/src/cmd/verify.rs\<close>) is the verifier of a receipt and its
      companion files, \<open>VerifySpec\<close> states the evidence it asks for and \<open>VerifyTotal\<close> when it returns;
      \<open>SessionVerify\<close> joins it to the session that wrote the files.
    \<^item> \<open>Codec\<close> (\<open>lictor-runtime/src/codec.rs\<close>) takes lines off the input, \<open>Serve\<close> (\<open>trace.rs\<close>,
      \<open>lictor-cli/src/cmd/serve.rs\<close>) is the server around the session; \<open>ServeRun\<close> and \<open>ServeTrace\<close> prove what
      it answers and what its trace files hold.
    \<^item> \<open>Reader\<close> is how serde reads what \<open>Serial\<close> writes, \<open>CalibFile\<close> (\<open>lictor-calib/src/file.rs\<close>) the
      calibration file, \<open>Curve\<close> (\<open>lictor-receipt/src/curve.rs\<close>) the signed summary of an arm.
    \<^item> \<open>Crash\<close> (\<open>write_crash_episode\<close> of \<open>episode.rs\<close>, \<open>lictor-cli/src/cmd/crash_receipt.rs\<close>) is the receipt that the host
      writes for a process that died, \<open>History\<close> (\<open>lictor-receipt/src/history.rs\<close>) the run memory.  \<open>Keys\<close>
      (\<open>keys.rs\<close>, \<open>cmd/key.rs\<close>, \<open>resolve_key\<close>), \<open>AckTool\<close> (\<open>cmd/ack.rs\<close>) and \<open>LedgerTool\<close> (\<open>cmd/ledger.rs\<close>) are the
      commands on seed files, acknowledgements and ledgers.
    \<^item> \<open>Metrics\<close> (\<open>lictor-calib/src/metrics.rs\<close>) holds the statistics of the offline lane.  \<open>Exact\<close> says when a float
      operation is exact, \<open>MetricsSpec\<close> treats the generator and the point of no return, \<open>MetricsFloat\<close> the areas under
      curves, \<open>MetricsBounds\<close> the p-value, the percentiles, the bootstrap and the quantiles.
    \<^item> \<open>Text\<close> is what the sources use of Rust's \<open>str\<close>, \<open>Render\<close> (\<open>lictor-cli/src/render.rs\<close>) the lines a person reads.
      \<open>DemoReceipt\<close>, \<open>DemoSession\<close>, \<open>DemoReplay\<close>, \<open>DemoCalib\<close>, \<open>DemoVerify\<close>,
      \<open>DemoServe\<close>, \<open>DemoCrash\<close> and \<open>DemoTools\<close> hold the concrete values of the witnesses;
      \<open>Further\<close> states more properties of the same functions, with their witnesses.
    \<^item> \<open>Demo\<close>: the concrete configuration that the witnesses run.

  \<^bold>\<open>How state and operations correspond.\<close>  A Rust struct is a record with the same fields under a
  two-letter prefix, an enum a datatype with the source's variants, \<open>&mut self\<close> a function that returns
  the updated record, \<open>Result\<close> a sum with \<open>Inl\<close> for \<open>Err\<close>, \<open>Option\<close> an option, a fixed array a list
  whose length the well-formedness predicate records.  Counters keep their width and saturate or wrap
  as the source writes it.  A loop over an array is a fold over its indices; no model needs fuel, every
  loop of the modelled code is bounded by its array or by a configured count.

  \<^bold>\<open>What the lemmas show.\<close>  Per component: the order of the checks and every error branch of the
  validators; round trips (chunk buffer, gate, trip names); the refinement of the bit window and of the
  position ring by lists; exactness of the Tier-0 bits, of the brake check and of the conformal
  decision; that the projection keeps the box in float arithmetic.  For the fuse: the runtime
  invariant, the edges of the state machine, latching, the bound on every stop, the conditions for
  giving control back, transparency in Observe mode, and that no action leaves the box in Enforce
  mode.  The properties below state these over the code's own functions.
  For the evidence: canonical bytes determine the value; the chain walk accepts exactly the
  linked chains, reports the first break, and its head binds the chain unless the hash collides; a
  ledger grown by appending verifies; an acknowledgement is accepted exactly under the stated
  conditions; a consistent body signed and verified is intact, and what intact means.  For the session:
  its invariant; errors latch a fault that reaches every verdict until the episode ends; a staged tick
  is the fuse's decision on the request; tokens are used once; the receipt on disk is intact and named
  by the ledger; ledgers stay linked; the only panic; verdicts do not depend on the clock, so a replay
  repeats them.  For the files: a calibration file is read back as it was saved, its digest binds every
  field, and the compiled table holds its numbers; the event files are read back; the verifier reports
  a record intact exactly on its evidence, accepts what a session wrote, and panics on nothing but the
  texts it shortens for the terminal.  For the server: it returns on every input, answers each line once,
  and the trace of an episode reads back.  For the terminal: no control byte is printed.  For the
  commands: a crash receipt is intact, says that the fuse failed and extends the ledger; the run memory keeps
  the newest 200 records; an operator's token is accepted by the fuse and its nonces grow; a stored key is
  loaded back; an append keeps the ledger linked.  For the statistics: what is exact, what is rounded once, and
  that p-values, areas and interval ends stay in the unit interval.

  \<^bold>\<open>Parameters.\<close>  SHA-256 with the canonical serialisation (the two digests of \<open>compile\<close>) is an
  argument of the definitions that use it;
  SHA-256, base64, hexadecimal and Ed25519 are the fields of \<open>Crypto\<close> in \<open>Handoff\<close>, about which the
  theorems assume at most \<open>signs\<close> (a signature verifies under its own key and hexadecimal decodes what
  it encodes) or name the collision of the hash as an alternative.  \<open>Host\<close> in \<open>Session\<close> adds the JSON of
  an envelope, the quantiles of the histogram and the generated key, \<open>World\<close> what the clock and the
  file system answer during one request (an error per path, the JSON of a calibration file); the disk of
  \<open>Session\<close> is the content of the files, value by value, and \<open>EventFiles\<close> gives their text.  The parser
  and printer of JSON are the fields of \<open>Json\<close> in \<open>EventFiles\<close> and of \<open>Serde\<close> in \<open>Codec\<close>, \<open>Reads\<close> in \<open>Verify\<close>
  is what the files hold and how the types of the receipts are read from them.  \<open>KeyEnv\<close> in \<open>Keys\<close> is the
  environment of the commands on keys, and \<open>Libm\<close> in \<open>Metrics\<close> the platform's \<open>ln\<close>, \<open>exp\<close> and \<open>sin\<close>.

  \<^bold>\<open>Not modelled.\<close>  The TOML and JSON parsers (serde), the Ed25519 signatures (ed25519-dalek),
  hdrhistogram, argument parsing and printing of the command line, the Python adapters and the
  harness: input/output and glue around the modelled functions.  The formatted
  arguments of the envelope's error messages are left out; such an error keeps its constructor and the
  static head of its message.
\<close>



text \<open>C2: In every reachable runtime state and for every input whatever: a verdict whose action comes from the brake or the hold commands a position inside the box, and on velocity kinds a hold commands zero.\<close>

theorem fuse_stop_actions_safe:
  assumes "FuseConfig_wf cfg" "fuse_reach cfg rt" "sv_action_src (snd (decide cfg rt inp)) \<in> {Src_Brake, Src_Hold}"
  shows "if position_kind (fc_kind cfg) then in_fuse_box cfg (sv_action (snd (decide cfg rt inp)))
    else sv_action_src (snd (decide cfg rt inp)) = Src_Hold \<longrightarrow> (\<forall>c < MAX_D. sv_action (snd (decide cfg rt inp)) ! c = 0)"
  using fuse.good_step [OF reach_inv [OF assms(2,1)]] assms(3) by (simp add: stop_safe_def in_fuse_box_def)

theorem fuse_stop_actions_safe_witness:
  "in_fuse_box (demo_cfg Enforce) (sv_action (snd (decide (demo_cfg Enforce) demo_rt demo_broken)))"
proof -
  have "sv_action_src (snd (decide (demo_cfg Enforce) demo_rt demo_broken)) \<in> {Src_Brake, Src_Hold}"
    using decide_guarded(2) [OF demo_guard_broken] by simp
  moreover have "position_kind (fc_kind (demo_cfg Enforce))" by (simp add: demo_cfg_def position_kind_def)
  ultimately show ?thesis
    using fuse_stop_actions_safe [OF demo_cfg_wf demo_reach, of Enforce demo_broken] by simp
qed

text \<open>C3: When a session that its client drove in any way answers episode_end with a receipt, the file at the receipt path holds a signed receipt that the verifier finds intact under the public key of the session, with the digest that the answer names, and the last entry of the ledger file names that digest and is the ledger head of the answer; provided the key signs, the envelope JSON has plain keys, the episode had fewer than 2^32 ticks, the client reports the number of ticks as its steps, and the tick policy is one of the three the verifier knows.\<close>

theorem session_receipt_intact:
  assumes "session_reach ht s" "ss_ep s = Some ep" "ep_paths ep = Some p"
    "handle ht w s (Req_EpisodeEnd e) = Some (s', Resp_EpisodeReceipt m)"
    "signs (ht_crypto ht) (ss_key s)" "keys_clean (ht_envelope_json ht (cg_envelope (ss_cfg s)))"
    "length (ep_ticks ep) < 2 ^ 32" "oc_steps (ee_outcome e) = of_nat (length (ep_ticks ep))"
    "cg_ticks_policy (ss_cfg s) \<in> {''all'', ''tail32'', ''none''}"
  shows "\<exists>sr r es. dk_receipt (ss_disk s') (pa_receipt p) = Some sr \<and> dk_ledger (ss_disk s') (pa_ledger p) = Some es \<and>
    verify_receipt (ht_crypto ht) sr (Some (ss_pubkey s)) = Some r \<and> intact r \<and> sr_body_digest sr = er_body_digest m \<and>
    es \<noteq> [] \<and> le_receipt_digest (last es) = er_body_digest m \<and> le_hash (last es) = er_ledger_head m"
  by (rule session_receipt [OF assms])

theorem session_receipt_intact_witness:
  "\<exists>s s' m sr r. session_reach demo_host s \<and> handle demo_host demo_world s (Req_EpisodeEnd demo_end) = Some (s', Resp_EpisodeReceipt m) \<and>
     dk_receipt (ss_disk s') (pa_receipt (episode_paths ''o'' ''r'' ''a'' 0)) = Some sr \<and>
     verify_receipt demo_crypto sr (Some (ss_pubkey s)) = Some r \<and> intact r \<and> sr_body_digest sr = er_body_digest m"
proof -
  obtain s0 s r where s: "session_reach demo_host s" "demo_opened s" by (rule demo_open)
  obtain s' m where h: "handle demo_host demo_world s (Req_EpisodeEnd demo_end) = Some (s', Resp_EpisodeReceipt m)"
    using demo_closes [OF s(2)] by blast
  obtain ep where ep: "ss_ep s = Some ep" "ep_paths ep = Some (episode_paths ''o'' ''r'' ''a'' 0)" "ep_ticks ep = []"
    "ss_cfg s = demo_config" using s(2) by (auto simp: demo_opened_def)
  have "oc_steps (ee_outcome demo_end) = of_nat (length (ep_ticks ep))" "cg_ticks_policy (ss_cfg s) \<in> {''all'', ''tail32'', ''none''}"
    "keys_clean (ht_envelope_json demo_host (cg_envelope (ss_cfg s)))"
    using ep by (simp_all add: demo_end_def demo_outcome_def demo_config_def demo_host_def)
  from session_receipt_intact [OF s(1) ep(1,2) h _ this(3) _ this(1,2)] show ?thesis
    using s(1) h ep(3) demo_signs by simp blast
qed



text \<open>C5: Whenever lictor verify returns, it reports a record intact exactly when the receipt reads and verifies intact and every companion that was named is evidence for it: the tick file holds the linked chain whose length and head the receipt signs and contains the embedded tail, the timing file likewise, the ledger is linked and its first entry with the digest of the receipt follows the entry the receipt names, the curve is intact, of the same run and arm and names the head of that ledger, and the calibration file has the bound digest and the budget of the receipt; and the exit code is 0 exactly when moreover the recomputed evaluation of the fuse holds.\<close>

theorem verify_reports_evidence:
  assumes "run_checks rf cy o' = Some out"
  shows "(ou_intact out \<longleftrightarrow> (\<exists>sr rep. evidence rf cy o' sr rep)) \<and>
    (Outcome_exit_code out = 0 \<longleftrightarrow> (\<exists>sr rep. evidence rf cy o' sr rep \<and> vr_fuse_ok rep))"
  using run_checks_evidence [OF assms] by blast

theorem verify_reports_evidence_witness:
  "\<exists>sr out rep. run_checks (one_receipt sr) short_crypto no_companions = Some out \<and> ou_intact out \<and>
     evidence (one_receipt sr) short_crypto no_companions sr rep"
proof -
  obtain sr out where r: "run_checks (one_receipt sr) short_crypto no_companions = Some out" "ou_intact out" by (rule demo_report)
  then obtain sr' rep where e: "evidence (one_receipt sr) short_crypto no_companions sr' rep" using verify_reports_evidence by blast
  then have "sr' = sr" by (simp add: evidence_def)
  with e r show ?thesis by blast
qed

text \<open>C6: Every reachable runtime state is well formed: buffers keep their arrays and, when filled, the configured dimensions; the window holds only the n low bits; the trail ring stays in range; arrays keep their lengths; the last position and the hold setpoint are finite.\<close>

theorem fuse_runtime_invariant:
  assumes "FuseConfig_wf cfg" "fuse_reach cfg rt"
  shows "FuseRt_inv cfg rt"
  by (rule reach_inv [OF assms(2,1)])

theorem fuse_runtime_invariant_witness:
  "FuseRt_inv (demo_cfg Enforce) (fst (decide (demo_cfg Enforce) demo_rt (demo_deliver [0, 0, f_ten])))"
  by (rule fuse_runtime_invariant [OF demo_cfg_wf reach_tick [OF demo_reach]])



text \<open>C8: What a session writes at the end of an episode, lictor verify accepts: when the verifier reads the receipt, tick, timing and ledger files that are on the disk after the answer, and the JSON parser gives back each value from its canonical text, the files are the evidence that it asks for under the public key of the session; provided what makes the receipt intact, a ledger that was linked and did not hold the digest before, and tick events whose arrays have the shape they declare.\<close>

theorem session_files_verify:
  assumes "session_reach ht s" "ss_ep s = Some ep" "ep_paths ep = Some p"
    "handle ht w s (Req_EpisodeEnd e) = Some (s', Resp_EpisodeReceipt m)"
    "signs (ht_crypto ht) (ss_key s)" "keys_clean (ht_envelope_json ht (cg_envelope (ss_cfg s)))"
    "length (ep_ticks ep) < 2 ^ 32" "oc_steps (ee_outcome e) = of_nat (length (ep_ticks ep))"
    "cg_ticks_policy (ss_cfg s) \<in> {''all'', ''tail32'', ''none''}"
    "\<forall>es. dk_ledger (ss_disk s) (pa_ledger p) = Some es \<longrightarrow>
      ledger.linked (cy_sha (ht_crypto ht)) 0 0 ZERO_HASH es \<and> (\<forall>x \<in> set es. le_receipt_digest x \<noteq> er_body_digest m)"
    "episode_files rf (ht_crypto ht) p (ss_disk s') sr ts tms es"
    "parses_back (rf_json rf) ({header_value sr False, header_value sr True} \<union> TickEvent_value (cy_b64 (ht_crypto ht)) ` set ts \<union>
      TimingEvent_value ` set tms)" "\<And>bs. js_dec (rf_json rf) (cy_b64 (ht_crypto ht) bs) = Some bs" "list_all arrays_described ts"
  shows "\<exists>rep. evidence rf (ht_crypto ht) (episode_opts p (ss_pubkey s)) sr rep"
  by (rule session_evidence [OF assms])

theorem session_files_verify_witness:
  "\<exists>s s' m rf sr rep. session_reach demo_host s \<and> handle demo_host demo_world s (Req_EpisodeEnd demo_end) = Some (s', Resp_EpisodeReceipt m) \<and>
     dk_receipt (ss_disk s') (pa_receipt (episode_paths ''o'' ''r'' ''a'' 0)) = Some sr \<and>
     evidence rf demo_crypto (episode_opts (episode_paths ''o'' ''r'' ''a'' 0) (ss_pubkey s)) sr rep"
proof -
  obtain s ep s' m rf sr es where d: "session_reach demo_host s" "demo_opened s" "ss_ep s = Some ep" "ep_ticks ep = []"
    "ep_paths ep = Some (episode_paths ''o'' ''r'' ''a'' 0)"
    "handle demo_host demo_world s (Req_EpisodeEnd demo_end) = Some (s', Resp_EpisodeReceipt m)"
    "episode_files rf demo_crypto (episode_paths ''o'' ''r'' ''a'' 0) (ss_disk s') sr [] [] es"
    "parses_back (rf_json rf) {header_value sr False, header_value sr True}" "\<And>bs. js_dec (rf_json rf) (demo_b64 bs) = Some bs"
    by (rule demo_files; blast)
  have c: "oc_steps (ee_outcome demo_end) = of_nat (length (ep_ticks ep))" "cg_ticks_policy (ss_cfg s) \<in> {''all'', ''tail32'', ''none''}"
    "keys_clean (ht_envelope_json demo_host (cg_envelope (ss_cfg s)))" "signs (ht_crypto demo_host) (ss_key s)"
    "dk_ledger (ss_disk s) q = None" for q
    using d(2,4) by (simp_all add: demo_opened_def demo_end_def demo_outcome_def demo_config_def demo_signs demo_disk_def) (simp add: demo_host_def)
  have b: "cy_b64 demo_crypto = demo_b64" by (simp add: demo_crypto_def)
  have "\<exists>rep. evidence rf (ht_crypto demo_host) (episode_opts (episode_paths ''o'' ''r'' ''a'' 0) (ss_pubkey s)) sr rep"
    by (rule session_files_verify [OF d(1,3,5,6) c(4,3) _ c(1,2), where ts = "[]" and tms = "[]"]) (use d c(5) b in simp_all)
  moreover have "dk_receipt (ss_disk s') (pa_receipt (episode_paths ''o'' ''r'' ''a'' 0)) = Some sr" using d(7) by (simp add: episode_files_def)
  ultimately show ?thesis using d(1,6) by (simp only: demo_host_crypto) blast
qed

text \<open>C9: When the host writes a crash receipt and that succeeds, the receipt on the disk is intact under the key of the host, carries the run and the budget it was given, says that the fuse failed and why, has empty tick and timing files beside it, and is appended to the ledger of the arm after the entry that it names.\<close>

theorem crash_receipt_stands:
  assumes "write_crash_episode ht w dk cfg run budget client nt = Some (dk', Inr entry)" "cg_out_dir cfg = Some out"
    "p = episode_paths out (rb_run_id run) (rb_arm_id run) (rb_episode_index run)" "signs (ht_crypto ht) (crash_key ht cfg)"
    "keys_clean (ht_envelope_json ht (cg_envelope cfg))" "cg_ticks_policy cfg \<in> {''all'', ''tail32'', ''none''}"
  shows "\<exists>sr r prior. dk_receipt dk' (pa_receipt p) = Some sr \<and> dk_ticks dk' (pa_ticks p) = Some [] \<and> dk_timing dk' (pa_timing p) = Some [] \<and>
    verify_receipt (ht_crypto ht) sr (Some (pubkey_hex (ht_crypto ht) (crash_key ht cfg))) = Some r \<and> intact r \<and> \<not> vr_fuse_ok r \<and>
    bo_run (sr_body sr) = run \<and> bo_budget (sr_body sr) = budget \<and> \<not> bo_fuse_ok (sr_body sr) \<and> NOTE_CRASH \<in> set (bo_fuse_notes (sr_body sr)) \<and>
    prior = (case dk_ledger dk (pa_ledger p) of None \<Rightarrow> [] | Some es \<Rightarrow> es) \<and> dk_ledger dk' (pa_ledger p) = Some (prior @ [entry]) \<and>
    append_ledger (cy_sha (ht_crypto ht)) prior sr = Some (prior @ [entry], entry) \<and>
    bo_ledger_prev (sr_body sr) = (if prior = [] then None else Some (le_hash (last prior)))"
  by (rule crash_receipt [OF assms]) blast

theorem crash_receipt_stands_witness:
  "\<exists>dk' entry sr r. write_crash_episode demo_host demo_world demo_disk demo_config demo_run demo_budget CRASH_CLIENT [] = Some (dk', Inr entry) \<and>
     dk_receipt dk' (pa_receipt (episode_paths ''o'' ''r'' ''a'' 0)) = Some sr \<and>
     verify_receipt demo_crypto sr (Some (pubkey_hex demo_crypto [])) = Some r \<and> intact r \<and> \<not> vr_fuse_ok r"
proof -
  obtain dk' entry where w: "write_crash_episode demo_host demo_world demo_disk demo_config demo_run demo_budget CRASH_CLIENT [] = Some (dk', Inr entry)"
    by (rule demo_crash)
  have c: "cg_out_dir demo_config = Some ''o''" "signs (ht_crypto demo_host) (crash_key demo_host demo_config)"
    "cg_ticks_policy demo_config \<in> {''all'', ''tail32'', ''none''}" by (simp_all add: demo_signs) (simp_all add: demo_config_def)
  have e: "keys_clean (ht_envelope_json demo_host (cg_envelope demo_config))" by (simp add: demo_host_def)
  have "episode_paths ''o'' (rb_run_id demo_run) (rb_arm_id demo_run) (rb_episode_index demo_run) = episode_paths ''o'' ''r'' ''a'' 0"
    by (simp add: demo_run_def)
  from crash_receipt_stands [OF w c(1) this [symmetric] c(2) e c(3)] show ?thesis
    using w unfolding demo_crash_key demo_host_crypto by blast
qed

text \<open>C10: An admitted tick of a running fuse whose brake margin is not at least zero (negative, or NaN) brakes, and in Enforce mode the action is the one of the brake: a chunk that cannot be stopped inside the box is not followed.\<close>

theorem brake_margin_stops:
  assumes "FuseRt_inv cfg rt" "guard cfg rt inp = 0" "running_state (rt_state rt)"
    "\<not> 0 \<le> sv_brake_margin (snd (decide cfg rt inp))"
  shows "sv_state (snd (decide cfg rt inp)) = Braking \<and>
    (fc_mode cfg = Enforce \<longrightarrow> sv_action_src (snd (decide cfg rt inp)) = Src_Brake)"
proof -
  have "has_bit (fi_trips (fsm_fi cfg rt inp)) TRIP_BRAKE"
    using assms(4) stage_tier0_brake unfolding decide_trips_bits(1,4) [OF assms(2)] by blast
  then have s: "sv_state (snd (decide cfg rt inp)) = Braking"
    using decide_stops [OF assms(1-3)] by blast
  then show ?thesis using decide_enforce_src(1) [of cfg rt inp] by simp
qed

theorem brake_margin_stops_witness:
  "sv_state (snd (decide (demo_cfg Enforce) demo_ran demo_outside)) = Braking \<and>
   sv_action_src (snd (decide (demo_cfg Enforce) demo_ran demo_outside)) = Src_Brake"
  using brake_margin_stops [OF demo_ran_inv demo_ran_guard demo_ran_running demo_ran_margin, of Enforce] by simp

text \<open>C11: Replaying any trace any number of times never reports a divergence: every pass through a fresh session repeats the verdict chain and the episode heads of the first one, whatever keys, clocks and latencies the passes meet, so the outcome is deterministic exactly when the trace produced a verdict; provided the session starts, the passes run on one build and read the same calibration file, and durations and histogram values fit the canonical integers.\<close>

theorem replay_deterministic:
  assumes "\<forall>k. alike (hts 0) (hts k) \<and> bounded_hist (hts k)" "\<forall>k i. bounded_clock (wss k i)" "\<forall>k. wd_json (wss k 0) = wd_json (wss 0 0)"
    "Session_new (hts 0) (wss 0 0) no_files (pass_config (ht_crypto (hts 0)) label inp) = Some (Inr s)"
  shows "\<exists>out. replay hts label wss inp n = Some (Inr out) \<and> ro_divergence out = None \<and> ro_identical out = ro_repeats out \<and>
    ro_repeats out = max n 1 \<and> ro_deterministic out = (0 < ro_ticks out)"
  by (rule replay_identical [OF assms])

theorem replay_deterministic_witness:
  "\<exists>out. replay (\<lambda>_. demo_host) ''l'' (\<lambda>k i. if k = 0 then demo_world else slow_world) demo_replay 3 = Some (Inr out) \<and>
     ro_identical out = 3 \<and> ro_divergence out = None"
proof -
  obtain s where "Session_new demo_host demo_world no_files (pass_config demo_crypto ''l'' demo_replay) = Some (Inr s)"
    using demo_replay_starts by blast
  then have "\<exists>out. replay (\<lambda>_. demo_host) ''l'' (\<lambda>k i. if k = 0 then demo_world else slow_world) demo_replay 3 = Some (Inr out) \<and>
      ro_divergence out = None \<and> ro_identical out = ro_repeats out \<and> ro_repeats out = max 3 1 \<and>
      ro_deterministic out = (0 < ro_ticks out)"
    by (intro replay_deterministic) (simp_all add: demo_alike)
  then show ?thesis by auto
qed



text \<open>C13: In a reachable session with an open, unfaulted episode, a tick that is answered with a verdict is answered with the decision of the fuse on exactly the request: observation and chunk with null read as NaN, index, missed ticks, and the acknowledgement if its token is accepted; the fuse moves to the state of that decision, and nothing of an earlier message shows through the reused buffers.\<close>

theorem wire_tick_is_decide:
  assumes "session_reach ht s" "ss_ep s \<noteq> None" "\<not> ss_faulted s" "handle ht w s (Req_Tick t) = Some (s', Resp_Verdict m)"
  shows "\<exists>h c. let d = decide (fu_cfg (ss_fuse s)) (fu_rt (ss_fuse s)) (request_input t (fst (check_ack (ht_crypto ht) s t))) in
    m = verdict_msg t (snd d) h (snd (check_ack (ht_crypto ht) s t)) (wd_decide_ns w) c \<and> fu_rt (ss_fuse s') = fst d"
  using handle_tick_decide [OF conjunct1 [OF reach_session_inv [OF assms(1)]] assms(2-4)] .

theorem wire_tick_is_decide_witness:
  "\<exists>s s' m h c. demo_opened s \<and> handle demo_host demo_world s (Req_Tick (demo_tick_req 2 None)) = Some (s', Resp_Verdict m) \<and>
     m = verdict_msg (demo_tick_req 2 None) (snd (decide (fu_cfg (ss_fuse s)) (fu_rt (ss_fuse s)) (request_input (demo_tick_req 2 None) None)))
           h None 0 c"
proof -
  obtain s s' m where d: "session_reach demo_host s" "demo_opened s"
    "handle demo_host demo_world s (Req_Tick (demo_tick_req 2 None)) = Some (s', Resp_Verdict m)" by (rule demo_ticked)
  have o: "ss_ep s \<noteq> None" "\<not> ss_faulted s" using d(2) by (auto simp: demo_opened_def)
  have c: "check_ack demo_crypto s (demo_tick_req 2 None) = (None, None)" by (simp add: check_ack_def demo_tick_req_def)
  from wire_tick_is_decide [OF d(1) o d(3)] obtain h ch where "m = verdict_msg (demo_tick_req 2 None)
      (snd (decide (fu_cfg (ss_fuse s)) (fu_rt (ss_fuse s)) (request_input (demo_tick_req 2 None) None))) h None 0 ch"
    by (auto simp: c Let_def)
  with d(2,3) show ?thesis by (intro exI conjI)
qed

text \<open>C14: A token is accepted at most once: after a tick whose token the session accepted, no later tick, in the same or another episode and after any requests, gets a token of the same operator with the same or a smaller nonce accepted.\<close>

theorem session_ack_once:
  assumes "handle ht w s (Req_Tick t) = Some (s1, Resp_Verdict m)" "vm_ack_result m = Some ''accepted''" "tq_ack t = Some tok"
    "session_run ht s1 reqs = Some (s2, rs)"
    "handle ht w' s2 (Req_Tick t') = Some (s3, Resp_Verdict m')" "tq_ack t' = Some tok'"
    "ak_operator tok' = ak_operator tok" "ak_nonce tok' \<le> ak_nonce tok"
  shows "vm_ack_result m' \<noteq> Some ''accepted''"
  by (rule ack_once [OF assms])

theorem session_ack_once_witness:
  "\<exists>s s1 m s3 m' tok. handle demo_host demo_world s (Req_Tick (demo_tick_req 2 (Some tok))) = Some (s1, Resp_Verdict m) \<and>
     vm_ack_result m = Some ''accepted'' \<and>
     handle demo_host demo_world s1 (Req_Tick (demo_tick_req 3 (Some tok))) = Some (s3, Resp_Verdict m') \<and>
     vm_ack_result m' \<noteq> Some ''accepted''"
proof -
  obtain s s1 m s3 m' tok where d: "handle demo_host demo_world s (Req_Tick (demo_tick_req 2 (Some tok))) = Some (s1, Resp_Verdict m)"
    "vm_ack_result m = Some ''accepted''" "handle demo_host demo_world s1 (Req_Tick (demo_tick_req 3 (Some tok))) = Some (s3, Resp_Verdict m')"
    by (rule demo_acked)
  have "session_run demo_host s1 [] = Some (s1, [])" by simp
  from session_ack_once [OF d(1,2) _ this d(3), of tok tok] have "vm_ack_result m' \<noteq> Some ''accepted''" by simp
  with d show ?thesis by (intro exI conjI)
qed

text \<open>C15: A token that lictor ack signs with its default nonce is accepted by the verifier of the fuse for the handoff it names, under the slot of the operator and with the decision that was given, whenever the nonce memory of that verifier is not ahead of the one in the key directory; and a run that records its nonce leaves the stored nonce of the operator at that of the token.\<close>

theorem operator_token_accepted:
  assumes "ack_run cy env rd dk a = Some (dk', AckSigned t w)" "aa_nonce a = None" "load_seed cy env (ad_keys dk) (aa_key a) = Some (Inr seed)"
    "resolve_handoff cy rd (aa_handoff a) = Some (Inr (digest, rec))" "signs cy seed"
    "position (\<lambda>o'. o' = pubkey_hex cy seed) operators = Some slot" "slot < 256"
    "(if slot < length nonces then nonces ! slot else 0) \<le> stored_nonce env dk (pubkey_hex cy seed)"
  shows "\<exists>decision. parse_decision (aa_decision a) = Some decision \<and> verify_ack cy t operators (Some digest) seq nonces
      = Inr \<lparr> va_decision = decision, va_operator_slot = of_nat slot, va_nonce = ak_nonce t, va_handoff_seq = seq \<rparr> \<and>
    (w = None \<longrightarrow> stored_nonce env dk' (pubkey_hex cy seed) = ak_nonce t)"
  by (rule ack_token_accepted [OF assms])

theorem operator_token_accepted_witness:
  "\<exists>dk' t. ack_run hex_crypto demo_env_vars no_records demo_ack_disk demo_ack_args = Some (dk', AckSigned t None) \<and>
     verify_ack hex_crypto t [pubkey_hex hex_crypto demo_seed] (Some (replicate 64 (CHR ''a''))) 4 [0]
       = Inr \<lparr> va_decision = Resume, va_operator_slot = 0, va_nonce = ak_nonce t, va_handoff_seq = 4 \<rparr>"
proof -
  obtain dk' t where r: "ack_run hex_crypto demo_env_vars no_records demo_ack_disk demo_ack_args = Some (dk', AckSigned t None)" by (rule demo_ack_runs)
  have a: "aa_nonce demo_ack_args = None" "load_seed hex_crypto demo_env_vars (ad_keys demo_ack_disk) (aa_key demo_ack_args) = Some (Inr demo_seed)"
    "resolve_handoff hex_crypto no_records (aa_handoff demo_ack_args) = Some (Inr (replicate 64 (CHR ''a''), None))"
    "parse_decision (aa_decision demo_ack_args) = Some Resume"
    using demo_key_loads demo_handoff by (simp_all add: demo_ack_args_def demo_ack_disk_def parse_decision_def)
  from operator_token_accepted [OF r a(1-3) hex_signs, of "[pubkey_hex hex_crypto demo_seed]" 0 "[0]" 4] show ?thesis
    using r a(4) by auto
qed



text \<open>C17: Control goes back from a stop state to the policy in two ways only: an operator resume whose handoff number matches and whose nonce is fresh, or, from Held, a clean freshly delivered chunk under automatic re-arming within the re-arm budget; the fuse then is in Armed.\<close>

theorem rearm_needs_cause:
  assumes "is_stop (rt_state rt)" "\<not> is_stop (sv_state (snd (decide cfg rt inp)))"
  shows "rt_state rt \<in> {Held, Escalated} \<and> sv_state (snd (decide cfg rt inp)) = Armed \<and>
    ((\<exists>a. ti_ack inp = Some a \<and> accepted_ack rt (Some a) = Some a \<and> va_decision a = Resume) \<or>
     (rt_state rt = Held \<and> hy_rearm (fc_hyst cfg) = AutoRearm \<and> ti_chunk inp \<noteq> None \<and>
        fi_trips (fsm_fi cfg rt inp) = 0 \<and> hy_rearm_hold (fc_hyst cfg) \<le> rt_held_clean rt \<and>
        rt_rearms rt < hy_max_rearms (fc_hyst cfg)))"
  using decide_rearm [of rt cfg inp] assms by (simp add: decide_state)

theorem rearm_needs_cause_witness:
  "sv_state (snd (decide (demo_cfg Enforce) demo_held demo_resume)) = Armed"
proof -
  have "sv_state (snd (decide (demo_cfg Enforce) demo_held demo_resume)) = Armed"
    by (rule decide_resume(1) [OF demo_held_inv demo_guard_resume, where a = demo_ack])
      (use demo_accepted in \<open>simp_all add: demo_held_def demo_resume_def demo_ack_def\<close>)
  then show ?thesis
    using rearm_needs_cause [of demo_held "demo_cfg Enforce" demo_resume] by (simp add: demo_held_def)
qed

text \<open>C18: The fuse never pauses for ever: in any run of more than brake timeout + hold timeout + handoff timeout + 3 ticks that starts in Braking, Held or Escalated, it reaches another state (running again, Fault or Terminated), whatever the inputs.\<close>

theorem stop_is_bounded:
  assumes "pausing (rt_state rt)"
    "unat (hy_brake_timeout_ticks (fc_hyst cfg)) + unat (hy_escalate_after_hold_ticks (fc_hyst cfg))
       + unat (hy_handoff_timeout_ticks (fc_hyst cfg)) + 3 < length inps"
  shows "\<exists>n \<le> length inps. \<not> pausing (rt_state (fst (run_steps (decide cfg) rt (take n inps))))"
  using stopping.leaves_busy [of cfg rt inps] le_less_trans [OF stop_budget_le assms(2)] by metis

theorem stop_is_bounded_witness:
  "\<exists>n \<le> 11. \<not> pausing (rt_state (fst (run_steps (decide (demo_cfg Enforce)) demo_held (take n (replicate 11 (demo_tick 0))))))"
  using stop_is_bounded [of demo_held "demo_cfg Enforce" "replicate 11 (demo_tick 0)"]
  by (simp add: demo_held_def pausing_def demo_cfg_def demo_hyst_def del: take_replicate)

text \<open>C19: lictor serve returns on every finite input: whatever the bytes are, the loop over its lines ends with an exit code or an input/output error, never in a panic, when the session could be created and the durations the clock reports have a canonical form (less than 2^53 nanoseconds).\<close>

theorem serve_returns:
  assumes "\<And>i. safe (wd_decide_ns (ws i)) \<and> safe (ios i)" "Session_new ht (ws 0) dk scfg = Some started_or_not"
  shows "\<exists>x. serve ht sd ws ios cfg dk scfg files input = Some x"
proof (cases started_or_not)
  case (Inl e)
  then show ?thesis using assms(2) by (simp add: serve_def)
next
  case (Inr s)
  then have "timing_safe s" using Session_new_inv(3) [of ht "ws 0" dk scfg s] assms(2) by (simp add: timing_safe_def)
  then show ?thesis
    using assms serve_loop_returns [OF assms(1), of "\<lparr> sv_session = s, sv_hello = None, sv_episode = None, sv_files = f, sv_sent = [] \<rparr>" for f] Inr
    by (fastforce simp: serve_def Let_def split: sum.split)
qed

theorem serve_returns_witness:
  "\<exists>x. serve demo_host demo_serde (\<lambda>_. demo_world) (\<lambda>_. 0) demo_serve demo_disk demo_config (\<lambda>_. None) ''{}'' = Some x"
proof -
  obtain s where s: "Session_new demo_host demo_world demo_disk demo_config = Some (Inr s)" using demo_session by blast
  have "safe (wd_decide_ns demo_world) \<and> safe (0 :: u64)" by (simp add: demo_world_def safe_def MAX_SAFE_INTEGER_def)
  from serve_returns [where ws = "\<lambda>_. demo_world" and ios = "\<lambda>_. 0", OF this s] show ?thesis by blast
qed

text \<open>C20: Fault and Terminated are final within an episode: every later verdict reports one of the two, and in Enforce mode answers with the hold.\<close>

theorem latched_is_final:
  assumes "is_terminal (rt_state rt)"
  shows "list_all (\<lambda>v. is_terminal (sv_state v) \<and> (fc_mode cfg = Enforce \<longrightarrow> sv_action_src v = Src_Hold))
    (snd (run_steps (decide cfg) rt inps))"
  using latched.run_good [of rt inps cfg, OF assms] by (simp add: list_all_iff latched_verdict_def)

theorem latched_is_final_witness:
  "is_terminal (sv_state (snd (decide (demo_cfg Enforce) (demo_rt \<lparr> rt_state := Terminated \<rparr>) demo_resume)))"
  using latched_is_final [of "demo_rt \<lparr> rt_state := Terminated \<rparr>" "demo_cfg Enforce" "[demo_resume]"] by simp



text \<open>C22: Every tick, whatever the configuration, the runtime state and the input, takes an edge of the abstract escalation machine, and the verdict reports both of its ends.\<close>

theorem decide_refines_machine:
  "let (rt', v) = decide cfg rt inp in
     fsm_edge (rt_state rt) (rt_state rt') \<and> sv_prev_state v = rt_state rt \<and> sv_state v = rt_state rt'"
  using decide_edge [of rt cfg inp] by (simp add: split_beta decide_verdict(3) decide_state)

text \<open>C23: A tick whose reason is an operator decision consumed the acknowledgement it carried, which was fresh, and that acknowledgement is refused in every later state of the episode.\<close>

theorem ack_used_once:
  assumes "FuseRt_inv cfg rt"
    "sv_reason (snd (decide cfg rt inp)) \<in> {RC_RearmedAck, RC_TerminatedAbort, RC_TerminatedRetune}"
  shows "\<exists>a. ti_ack inp = Some a \<and> accepted_ack rt (Some a) = Some a \<and>
    (\<forall>later. accepted_ack (fst (run_steps (decide cfg) (fst (decide cfg rt inp)) later)) (Some a) = None)"
proof -
  obtain a where a: "ti_ack inp = Some a" "accepted_ack rt (Some a) = Some a"
    "rt_last_nonce (fst (decide cfg rt inp)) ! unat (va_operator_slot a) = va_nonce a"
    by (rule decide_ack_used [OF assms])
  have "unat (va_operator_slot a) < length (rt_last_nonce (fst (decide cfg rt inp)))"
    using a(2) decide_keeps_inv [OF assms(1), of inp] by (simp add: accepted_ack_Some FuseRt_inv_def)
  then show ?thesis using a used_ack_rejected [OF nonces.run_le a(3)] by blast
qed

theorem ack_used_once_witness:
  "accepted_ack (fst (run_steps (decide (demo_cfg Enforce)) (fst (decide (demo_cfg Enforce) demo_held demo_resume)) [demo_tick 1]))
     (Some demo_ack) = None"
proof -
  have "sv_reason (snd (decide (demo_cfg Enforce) demo_held demo_resume)) = RC_RearmedAck"
    by (rule decide_resume(2) [OF demo_held_inv demo_guard_resume, where a = demo_ack])
      (use demo_accepted in \<open>simp_all add: demo_held_def demo_resume_def demo_ack_def\<close>)
  then have "\<exists>a. ti_ack demo_resume = Some a \<and> accepted_ack demo_held (Some a) = Some a \<and>
    (\<forall>later. accepted_ack (fst (run_steps (decide (demo_cfg Enforce)) (fst (decide (demo_cfg Enforce) demo_held demo_resume)) later))
       (Some a) = None)"
    by (intro ack_used_once [OF demo_held_inv]) simp
  then show ?thesis by (simp add: demo_resume_def del: run_steps_Cons)
qed

text \<open>C24: The verdict-chain check always answers, and accepts a list of events exactly when the sequence numbers count up from the first one, every event names the hash of its predecessor (the first one the given genesis), and every hash is the one recomputed from the event; the reported head is the last hash.\<close>

theorem tick_chain_check_exact:
  "\<exists>r. verify_tick_chain sha b64 es g = Some r \<and> cr_head r = (if es = [] then g else te_hash (last es)) \<and>
     (cr_ok r \<longleftrightarrow> (\<forall>k < length es. te_seq (es ! k) = te_seq (hd es) + of_nat k \<and>
        te_prev (es ! k) = (if k = 0 then g else te_hash (es ! (k - 1))) \<and>
        TickEvent_recompute sha b64 (es ! k) = Some (te_hash (es ! k))))"
proof -
  obtain r where r: "verify_tick_chain sha b64 es g = Some r" using verify_tick_chain_total by blast
  note w = ticks.walk_cases [OF r [unfolded verify_tick_chain_def]]
  have "cr_ok r \<longleftrightarrow> (\<forall>k < length es. te_seq (es ! k) = te_seq (hd es) + of_nat k \<and>
        te_prev (es ! k) = (if k = 0 then g else te_hash (es ! (k - 1))) \<and>
        TickEvent_recompute sha b64 (es ! k) = Some (te_hash (es ! k)))"
    unfolding w(1) ticks.linked_nth ticks.good_def by (cases es) (simp_all add: ticks.first_seq_def)
  then show ?thesis using r w(3) unfolding ticks.head_of_last by blast
qed

theorem tick_chain_check_exact_witness:
  "\<exists>e r. tick_event id demo_b64 ZERO_HASH demo_verdict = Some e \<and>
     verify_tick_chain id demo_b64 [e] ZERO_HASH = Some r \<and> cr_ok r \<and> cr_head r = te_hash e"
proof -
  obtain e where e: "tick_event id demo_b64 ZERO_HASH demo_verdict = Some e" using tick_event_total by blast
  show ?thesis
    using tick_chain_check_exact [of id demo_b64 "[e]" ZERO_HASH] tick_event_good [OF e] e by auto
qed

text \<open>C25: The head of an accepted verdict chain binds the whole chain: two accepted chains of the same length from the same genesis with the same head are equal event by event, unless the hash function collides.\<close>

theorem tick_chain_head_binds:
  assumes "inj b64" "verify_tick_chain sha b64 es g = Some r" "cr_ok r"
    "verify_tick_chain sha b64 es' g = Some r'" "cr_ok r'" "length es = length es'" "cr_head r = cr_head r'"
  shows "es = es' \<or> collides sha"
  using ticks.head_binds ticks.walk_cases(1,3) assms not_collides_inj unfolding verify_tick_chain_def by metis

theorem tick_chain_head_binds_witness:
  "\<exists>e r. verify_tick_chain id demo_b64 [e] ZERO_HASH = Some r \<and> cr_ok r \<and>
     (\<forall>d r'. verify_tick_chain id demo_b64 [d] ZERO_HASH = Some r' \<longrightarrow> cr_ok r' \<longrightarrow> cr_head r' = cr_head r \<longrightarrow> d = e)"
proof -
  obtain e where e: "tick_event id demo_b64 ZERO_HASH demo_verdict = Some e" using tick_event_total by blast
  have "tick_chain id demo_b64 ZERO_HASH [demo_verdict] = Some [e]" using e by simp
  from tick_chain_verifies [OF this, of "sv_seq demo_verdict"]
  obtain r where r: "verify_tick_chain id demo_b64 [e] ZERO_HASH = Some r" "cr_ok r" by simp
  have "d = e" if "verify_tick_chain id demo_b64 [d] ZERO_HASH = Some r'" "cr_ok r'" "cr_head r' = cr_head r" for d r'
    using tick_chain_head_binds [OF demo_b64_inj r that(1,2) _ that(3) [symmetric]] by (simp add: collides_def)
  then show ?thesis using r by blast
qed





text \<open>C28: From the JSON of the part of the budget that the host sent, the crash receipt computes exactly the budget that the session started from the same configuration binds into its receipts, if and only if the gate of the envelope is written as the fuse prints it (or a calibration is armed, whose gate is used).\<close>

theorem crash_budget_of_session:
  assumes "Session_new ht w dk cfg = Some (Inr s)" "js_value js t = Inr (VObj m)" "host_part m b"
  shows "budget_from_json js cfg t = Inr (budget_binding s b) \<longleftrightarrow> gate_as_written cfg"
  by (rule crash_budget_equal [OF assms])

theorem crash_budget_of_session_witness:
  "\<exists>s. Session_new demo_host demo_world demo_disk demo_config = Some (Inr s) \<and>
     budget_from_json demo_budget_json demo_config ''b'' = Inr (budget_binding s (eb_budget demo_begin))"
proof -
  obtain s where s: "Session_new demo_host demo_world demo_disk demo_config = Some (Inr s)" using demo_session by blast
  with crash_budget_of_session [OF s demo_budget_parsed demo_host_part] demo_gate_written show ?thesis by blast
qed



text \<open>C30: A read of the codec takes exactly one line off the input, whatever is wrong with it, whenever the first 2^20 + 1 bytes of the line are valid UTF-8: what is left starts after the next line feed, so that an over-long, blank or malformed line never spills into the next one. An over-long line whose first 2^20 + 1 bytes are not UTF-8 is cut there instead, and the rest of it is read as a new line.\<close>

theorem codec_takes_one_line:
  "(utf8_valid (fst (until_lf (MAX_LINE + 1) input)) \<longrightarrow> snd (snd (read_request sd input)) = drain_line input) \<and>
   (LF \<notin> set junk \<and> length junk = MAX_LINE + 1 \<and> \<not> utf8_valid junk \<longrightarrow>
     (\<exists>msg. read_request sd (junk @ rest) = (Bad msg, [], rest)))"
  using read_request_line [of input sd] over_long_not_drained [of junk sd rest] by blast

theorem codec_takes_one_line_witness:
  "snd (snd (read_request demo_serde (''x'' @ [LF] @ ''y''))) = ''y'' \<and>
   (\<exists>junk msg. LF \<notin> set junk \<and> read_request demo_serde (junk @ ''{}'' @ [LF]) = (Bad msg, [], ''{}'' @ [LF]))"
proof -
  have u: "utf8_valid (fst (until_lf (MAX_LINE + 1) (''x'' @ [LF] @ ''y'')))" "drain_line (''x'' @ [LF] @ ''y'') = ''y''"
    by (rule demo_first_line)+
  show ?thesis
    using codec_takes_one_line [of "''x'' @ [LF] @ ''y''" demo_serde demo_junk "''{}'' @ [LF]"] u demo_junk by metis
qed

text \<open>C31: The ROC area is the fraction of pairs of a positive and a negative score in which the positive one is greater in the total order of floats, a tie counting one half, rounded once to the nearest float: the sorting, the two binary searches and the sum of halves are exact while twice the number of pairs stays below 2^53.\<close>

theorem roc_auc_counts_pairs:
  assumes "pos \<noteq> []" "neg \<noteq> []" "2 * length pos * length neg < 9007199254740992"
  shows "rounds_to (real (wins2 pos neg) / real (2 * length pos * length neg)) (roc_auc pos neg)"
  by (rule roc_auc_rounded [OF assms])

theorem roc_auc_counts_pairs_witness: "rounds_to (real 6 / real 8) (roc_auc [f_one, 0] [0, 0])"
  using roc_auc_counts_pairs [of "[f_one, 0]" "[0, 0]"] demo_wins by simp

text \<open>C32: For fewer than 2^31 discordant pairs the McNemar p-value is a float of the unit interval; but from 1075 pairs on it is zero whatever the counts, because the first term, one half to the power of their number, underflows.\<close>

theorem mcnemar_p_value:
  assumes "unat b + unat c < 2147483648"
  shows "in_unit (mcnemar_exact b c) \<and> (1075 \<le> unat b + unat c \<longrightarrow> fval (mcnemar_exact b c) = 0)"
  using mcnemar_unit [OF assms] mcnemar_underflow [OF _ assms] by blast

theorem mcnemar_p_value_witness: "in_unit (mcnemar_exact 600 600) \<and> fval (mcnemar_exact 600 600) = 0"
  using mcnemar_p_value [of 600 600] by simp

text \<open>C33: Both ends of the Clopper-Pearson interval are floats between 0 and 1 for every count and every confidence, NaN included, and whatever the platform computes for the logarithm, the exponential and the sine: the bisection keeps its bracket ordered inside the unit interval.\<close>

theorem clopper_pearson_in_unit:
  "in_unit (fst (clopper_pearson lm k n conf)) \<and> in_unit (snd (clopper_pearson lm k n conf))"
  using clopper_pearson_unit by blast

text \<open>C34: handle is total but for one case: it panics exactly when the open episode has a pending timing entry whose decide or flush duration exceeds 2^53 - 1 nanoseconds, the largest integer of the canonical form; signing, chaining, handoff records and the ledger append never do.\<close>

theorem session_panics_exactly:
  "handle ht w s req = None \<longleftrightarrow> (\<exists>ep p. ss_ep s = Some ep \<and> ep_pending_timing ep = Some p \<and>
     (MAX_SAFE_INTEGER < uint (pt_decide_ns p) \<or> MAX_SAFE_INTEGER < uint (pt_io_ns p)))"
proof -
  have "handle ht w s req = None \<longleftrightarrow> \<not> timing_safe s"
    using handle_total [of ht w s req] by (cases "handle ht w s req") auto
  then show ?thesis by (cases "ss_ep s") (auto simp: timing_safe_def safe_def not_le split: option.split)
qed

text \<open>C35: Two calibration files that load and carry the same digest are equal in every field, whatever their texts, unless the hash has a collision.\<close>

theorem calibration_digest_binds:
  assumes "codecs_invert cy pretty json dec" "CalibrationFile_load cy json dec t = Inr f" "CalibrationFile_load cy json dec u = Inr g"
    "cf_digest f = cf_digest g"
  shows "f = g \<or> (\<exists>x y. x \<noteq> y \<and> cy_sha cy x = cy_sha cy y)"
  by (rule load_digest_binds [OF assms])

theorem calibration_digest_binds_witness:
  "\<exists>t f. CalibrationFile_load demo_crypto demo_json demo_dec (Some t) = Inr f \<and> cf_n_calib f = 137 \<and>
     (\<forall>u g. CalibrationFile_load demo_crypto demo_json demo_dec u = Inr g \<longrightarrow> cf_digest g = cf_digest f \<longrightarrow> g = f)"
proof -
  from save_load [OF demo_codecs demo_file_described demo_file_seeds]
  obtain g tx where g: "CalibrationFile_load demo_crypto demo_json demo_dec (Some tx) = Inr g"
    "g = demo_file \<lparr> cf_schema := CALIBRATION_SCHEMA, cf_canonical := CANONICAL_ID, cf_digest := cf_digest g \<rparr>" by blast
  have "cf_n_calib g = 137" using arg_cong [OF g(2), of cf_n_calib] by (simp add: demo_file_def)
  moreover have "h = g" if "CalibrationFile_load demo_crypto demo_json demo_dec u = Inr h" "cf_digest h = cf_digest g" for u h
    using calibration_digest_binds [OF demo_codecs that(1) g(1) that(2)] by (simp add: demo_crypto_def)
  ultimately show ?thesis using g(1) by blast
qed

text \<open>C36: In Observe mode, after any run whose ticks all pass the guard, the action is the raw row of the last delivered chunk, marked as the policy and not substituted; the flag violation_reached_env says whether Enforce would have interfered.\<close>

theorem observe_is_transparent:
  assumes "FuseConfig_wf cfg" "fuse_reach cfg rt" "fc_mode cfg = Observe" "admitted cfg (FuseRt_reset rt init) (inps @ [inp])"
  shows "\<exists>ch v. in_flight (inps @ [inp]) None = Some ch \<and>
    last (snd (run_steps (decide cfg) (FuseRt_reset rt init) (inps @ [inp]))) = v \<and>
    sv_action v = action_of_row (ChunkView_action ch (unat (ti_idx inp))) \<and> sv_action_src v = Src_Policy \<and>
    \<not> sv_substituted v \<and> (sv_violation_reached_env v \<longleftrightarrow> source_of (sv_state v) \<noteq> Src_Policy)"
proof -
  let ?init = "FuseRt_reset rt init"
  let ?r = "fst (run_steps (decide cfg) ?init inps)"
  have inv: "FuseRt_inv cfg ?init" by (rule reach_inv [OF reach_reset [OF assms(2)] assms(1)])
  have i: "FuseRt_inv cfg ?r" by (rule fuse.run_inv [OF inv list_all_True])
  have g: "guard cfg ?r inp = 0" using assms(4) by (simp add: admitted_append)
  have v0: "ChunkBuf_view (rt_cur ?init) = None" by (simp add: FuseRt_reset_def ChunkBuf_clear_def ChunkBuf_view_def)
  obtain ch where ch: "ChunkBuf_view (rt_cur (fst (decide cfg ?r inp))) = Some ch"
    using observe_cur_filled [OF i g assms(3)] by blast
  have "in_flight (inps @ [inp]) None = Some ch"
    using observe_run_cur [OF inv assms(3,4)] ch v0 by (simp add: run_steps_append)
  moreover note decide_policy_row [OF i g ch decide_observe(1) [OF i g assms(3)]] decide_observe [OF i g assms(3)]
  ultimately show ?thesis by (simp add: run_steps_append)
qed

theorem observe_is_transparent_witness:
  "\<exists>ch v. in_flight [demo_deliver [0, 0, 0], demo_tick 1] None = Some ch \<and>
    last (snd (run_steps (decide (demo_cfg Observe)) demo_rt [demo_deliver [0, 0, 0], demo_tick 1])) = v \<and>
    sv_action v = action_of_row (ChunkView_action ch 1) \<and> sv_action_src v = Src_Policy"
  using observe_is_transparent [OF demo_cfg_wf reach_new, of Observe demo_init "[demo_deliver [0, 0, 0]]" "demo_tick 1"]
    demo_guard_deliver demo_second
  by (auto simp: demo_rt_def [symmetric] demo_tick_def simp del: run_steps_Cons)

text \<open>C37: For the second-order plant the brake check is exact: feasible means that every state of the simulated rollout (committed rows, then the hold) lies in the box, and conversely, as long as the rollout stays finite.\<close>

theorem brake_check_exact:
  assumes "bm_kind (fc_brake cfg) = PdSecondOrder" "plant_dim cfg p0 v0 ch = length p0"
    "box_ok (fc_box_lo cfg) (fc_box_hi cfg) (length p0)"
    "\<forall>pl \<in> set (pd_trace cfg \<lparr> pl_p = p0, pl_v = take (length p0) v0 \<rparr> ch k). all_finite (pl_p pl)"
  shows "bo_feasible (brake_feasible cfg p0 v0 ch k) \<longleftrightarrow>
    (\<forall>pl \<in> set (pd_trace cfg \<lparr> pl_p = p0, pl_v = take (length p0) v0 \<rparr> ch k).
       in_box (fc_box_lo cfg) (fc_box_hi cfg) (length p0) (pl_p pl))"
  by (rule pd_feasible_iff [OF assms])

theorem brake_check_exact_witness:
  "bo_feasible (brake_feasible demo_pd [0] [0] (demo_chunk [0, 0, 0]) 0) \<longleftrightarrow>
    (\<forall>pl \<in> set (pd_trace demo_pd \<lparr> pl_p = [0], pl_v = take (length [0 :: f64]) [0] \<rparr> (demo_chunk [0, 0, 0]) 0).
       in_box (fc_box_lo demo_pd) (fc_box_hi demo_pd) (length [0 :: f64]) (pl_p pl))"
proof (rule brake_check_exact)
  show "bm_kind (fc_brake demo_pd) = PdSecondOrder" by (simp add: demo_pd_def)
  show "plant_dim demo_pd [0] [0] (demo_chunk [0, 0, 0]) = length [0 :: f64]"
    by (simp add: plant_dim_def demo_pd_def demo_cfg_def demo_chunk_def MAX_POS_def)
  show "box_ok (fc_box_lo demo_pd) (fc_box_hi demo_pd) (length [0 :: f64])"
    using FuseConfig_wf_dims(3) [OF demo_cfg_wf [of Enforce]] by (simp add: demo_pd_def demo_cfg_def)
qed (simp add: demo_pd_trace demo_zero_finite)

text \<open>C38: Each soft trip bit that the whole-chunk check raises says exactly what it stands for: some row outside the box, some step over the speed or contact limit, some second or third difference over its limit, the first row out of reach, each only while that check is armed.\<close>

theorem tier0_bits_exact:
  assumes "ChunkView_wf ch"
  shows "let t = t0_trips (fst (check_chunk cfg obs ch out)) in
    (has_bit t TRIP_WORKSPACE \<longleftrightarrow> breaks_workspace cfg obs ch) \<and> (has_bit t TRIP_SPEED \<longleftrightarrow> breaks_speed cfg obs ch) \<and>
    (has_bit t TRIP_ACCEL \<longleftrightarrow> breaks_accel cfg obs ch) \<and> (has_bit t TRIP_JERK \<longleftrightarrow> breaks_jerk cfg obs ch) \<and>
    (has_bit t TRIP_REACH \<longleftrightarrow> breaks_reach cfg obs ch) \<and> (has_bit t TRIP_CONTACT \<longleftrightarrow> breaks_contact cfg obs ch)"
  unfolding Let_def chunk_trip_bits [OF assms] by (simp add: trip_bits_disjoint)

theorem tier0_bits_exact_witness:
  "has_bit (t0_trips (fst (check_chunk (demo_cfg Enforce) (demo_obs 0 0) (demo_chunk [0, 0, f_ten]) ChunkBuf_new))) TRIP_SPEED
     \<longleftrightarrow> breaks_speed (demo_cfg Enforce) (demo_obs 0 0) (demo_chunk [0, 0, f_ten])"
  using tier0_bits_exact [of "demo_chunk [0, 0, f_ten]" "demo_cfg Enforce" "demo_obs 0 0" ChunkBuf_new]
  by (simp add: Let_def ChunkView_wf_def demo_chunk_def chunk_consts)

text \<open>C39: A configuration that compile returns is well formed: dimensions inside the array bounds, a non-empty finite box, a window mask of the n low bits with 1 <= k <= n <= 63, only armable bits enabled, and a calibration whose threshold is a number.\<close>

theorem compiled_config_wf:
  assumes "SafetyEnvelope_compile dig emdig e mode calib = Inr cfg"
  shows "FuseConfig_wf cfg"
  by (rule compile_wf [OF assms])

theorem compiled_config_wf_witness:
  "\<exists>cfg. SafetyEnvelope_compile demo_digest demo_digest' demo_env Enforce None = Inr cfg \<and> FuseConfig_wf cfg"
  using demo_env_compiles compiled_config_wf by blast

text \<open>C40: A calibration file whose arrays have the shapes they claim and whose seed range fits the canonical integers is saved, and loading the text that was written returns the saved file: the given one with the schema, the profile and its own digest filled in; provided the JSON parser inverts the printer on values without floats and base64 decoding inverts encoding.\<close>

theorem calibration_file_round_trip:
  assumes "codecs_invert cy pretty json dec" "described (cf_center f)" "described (cf_scale f)"
    "safe (sp_lo (cf_seed_pool f))" "safe (sp_hi (cf_seed_pool f))"
  shows "\<exists>g txt. CalibrationFile_save cy pretty f = Inr (g, txt) \<and> CalibrationFile_load cy json dec (Some txt) = Inr g \<and>
    g = f \<lparr> cf_schema := CALIBRATION_SCHEMA, cf_canonical := CANONICAL_ID, cf_digest := cf_digest g \<rparr> \<and>
    CalibrationFile_digest_hex cy g = Inr (cf_digest g)"
  by (rule save_load [OF assms])

theorem calibration_file_round_trip_witness:
  "\<exists>g txt. CalibrationFile_save demo_crypto demo_pretty demo_file = Inr (g, txt) \<and>
     CalibrationFile_load demo_crypto demo_json demo_dec (Some txt) = Inr g \<and> cf_tau g = f_one"
proof -
  from calibration_file_round_trip [OF demo_codecs demo_file_described demo_file_seeds]
  obtain g tx where g: "CalibrationFile_save demo_crypto demo_pretty demo_file = Inr (g, tx)"
    "CalibrationFile_load demo_crypto demo_json demo_dec (Some tx) = Inr g"
    "g = demo_file \<lparr> cf_schema := CALIBRATION_SCHEMA, cf_canonical := CANONICAL_ID, cf_digest := cf_digest g \<rparr>" by blast
  have "cf_tau g = cf_tau (demo_file \<lparr> cf_schema := CALIBRATION_SCHEMA, cf_canonical := CANONICAL_ID, cf_digest := cf_digest g \<rparr>)"
    using arg_cong [OF g(3), of cf_tau] by simp
  then have "cf_tau g = f_one" by (simp add: demo_file_def)
  with g(1,2) show ?thesis by blast
qed

end
